(* ===== verification/Prelude.thy ===== *)
theory Prelude
  imports Main "HOL-Library.Multiset"
begin

text \<open>
  What the components of the model share: the results of code that may throw, JavaScript's
  arrays (\<open>splice\<close>, \<open>indexOf\<close>, \<open>Array.from(new Set(..))\<close>), its ordered dictionaries
  (\<open>obj[k]\<close>, \<open>{...a, ...b}\<close>, \<open>delete obj[k]\<close>, \<open>Object.keys\<close>) and its dynamic
  values, the interfaces that the components rely on (a dictionary, a reducer with an
  invariant), and the lemmas about them.
\<close>

named_theorems obj_simps
named_theorems result_simps

section \<open>Results of code that may throw\<close>

text \<open>
  \<open>TypeError\<close> is the exception of reading a property of \<open>undefined\<close>,
  \<open>StackOverflow\<close> is the \<open>RangeError\<close> of a recursion that does not end, and
  \<open>ParseError\<close> an exception the source throws itself. \<open>UndefinedElement\<close> is not an exception: it marks
  an array slot that would receive \<open>undefined\<close> where the source's type says \<open>string\<close>, which
  the model does not follow further.
\<close>

datatype js_error = TypeError | StackOverflow | UndefinedElement | ParseError string

type_synonym 'a result = "js_error + 'a"

definition rbind :: "'a result \<Rightarrow> ('a \<Rightarrow> 'b result) \<Rightarrow> 'b result" where
  "rbind r f = (case r of Inl e \<Rightarrow> Inl e | Inr x \<Rightarrow> f x)"

definition or_throw :: "js_error \<Rightarrow> 'a option \<Rightarrow> 'a result" where
  "or_throw e x = (case x of None \<Rightarrow> Inl e | Some v \<Rightarrow> Inr v)"

text \<open>\<open>forEach\<close> and \<open>map\<close> with a body that may throw.\<close>

fun rfold :: "('s \<Rightarrow> 'a \<Rightarrow> 's result) \<Rightarrow> 's \<Rightarrow> 'a list \<Rightarrow> 's result" where
  "rfold f s [] = Inr s"
| "rfold f s (x # xs) = rbind (f s x) (\<lambda>s'. rfold f s' xs)"

fun rmap :: "('a \<Rightarrow> 'b result) \<Rightarrow> 'a list \<Rightarrow> 'b list result" where
  "rmap f [] = Inr []"
| "rmap f (x # xs) = rbind (f x) (\<lambda>y. rbind (rmap f xs) (\<lambda>ys. Inr (y # ys)))"

section \<open>Arrays\<close>

text \<open>
  \<open>Array.prototype.splice\<close> clamps its start: a negative start counts from the end and stops at
  0, a start beyond the end is the length. \<open>splice_remove\<close> is \<open>splice(i, 1)\<close> and
  \<open>splice_insert\<close> is \<open>splice(i, 0, x)\<close>.
\<close>

definition splice_start :: "nat \<Rightarrow> int \<Rightarrow> nat" where
  "splice_start n i = (if i < 0 then nat (int n + i) else min n (nat i))"

definition splice_remove :: "'a list \<Rightarrow> int \<Rightarrow> 'a list" where
  "splice_remove xs i =
     (let k = splice_start (length xs) i in take k xs @ drop (Suc k) xs)"

definition splice_insert :: "'a list \<Rightarrow> int \<Rightarrow> 'a \<Rightarrow> 'a list" where
  "splice_insert xs i x =
     (let k = splice_start (length xs) i in take k xs @ x # drop k xs)"

text \<open>\<open>xs[i]\<close>: \<open>undefined\<close> outside the range, negative indices included.\<close>

definition js_nth :: "'a list \<Rightarrow> int \<Rightarrow> 'a option" where
  "js_nth xs i = (if 0 \<le> i \<and> i < int (length xs) then Some (xs ! nat i) else None)"

fun index_of :: "'a \<Rightarrow> 'a list \<Rightarrow> nat option" where
  "index_of x [] = None"
| "index_of x (y # ys) = (if x = y then Some 0 else map_option Suc (index_of x ys))"

fun find_index :: "('a \<Rightarrow> bool) \<Rightarrow> 'a list \<Rightarrow> nat option" where
  "find_index P [] = None"
| "find_index P (y # ys) = (if P y then Some 0 else map_option Suc (find_index P ys))"

text \<open>\<open>Array.from(new Set(xs))\<close>: the first occurrence of every element, in order.\<close>

fun uniq_acc :: "'a list \<Rightarrow> 'a list \<Rightarrow> 'a list" where
  "uniq_acc acc [] = acc"
| "uniq_acc acc (x # xs) = uniq_acc (if x \<in> set acc then acc else acc @ [x]) xs"

definition js_uniq :: "'a list \<Rightarrow> 'a list" where
  "js_uniq xs = uniq_acc [] xs"

section \<open>Ordered dictionaries\<close>

text \<open>
  An object used as a dictionary is the list of its entries in insertion order: storing under a
  present key keeps the key's place, a new key goes to the end. (JavaScript lists keys that are
  decimal array indices first, in ascending order; where the model's keys can be such numbers either
  no definition depends on the order of the entries, or it lists them in that order, with the
  \<open>js_order\<close> of \<open>ExtraFormData\<close>.)
\<close>

type_synonym ('k, 'v) obj = "('k \<times> 'v) list"

abbreviation obj_get :: "('k, 'v) obj \<Rightarrow> 'k \<Rightarrow> 'v option" where
  "obj_get ob k \<equiv> map_of ob k"

fun obj_set :: "'k \<Rightarrow> 'v \<Rightarrow> ('k, 'v) obj \<Rightarrow> ('k, 'v) obj" where
  "obj_set k v [] = [(k, v)]"
| "obj_set k v ((k', v') # ob) = (if k = k' then (k, v) # ob else (k', v') # obj_set k v ob)"

definition obj_del :: "'k \<Rightarrow> ('k, 'v) obj \<Rightarrow> ('k, 'v) obj" where
  "obj_del k ob = filter (\<lambda>(k', v). k' \<noteq> k) ob"

text \<open>\<open>{...a, ...b}\<close> stores the entries of \<open>b\<close> into \<open>a\<close>, one after the other.\<close>

definition obj_spread :: "('k, 'v) obj \<Rightarrow> ('k, 'v) obj \<Rightarrow> ('k, 'v) obj" where
  "obj_spread a b = foldl (\<lambda>ob (k, v). obj_set k v ob) a b"

definition obj_keys :: "('k, 'v) obj \<Rightarrow> 'k list" where
  "obj_keys ob = map fst ob"

definition obj_values :: "('k, 'v) obj \<Rightarrow> 'v list" where
  "obj_values ob = map snd ob"

definition obj_ok :: "('k, 'v) obj \<Rightarrow> bool" where
  "obj_ok ob = distinct (map fst ob)"

section \<open>Dynamic values\<close>

datatype jsval =
    JUndef
  | JNull
  | JBool bool
  | JNum int
  | JStr string
  | JArr "jsval list"
  | JObj "(string \<times> jsval) list"

type_synonym jsobj = "(string, jsval) obj"

text \<open>A property read gives \<open>undefined\<close> for an absent key.\<close>

definition jget :: "jsobj \<Rightarrow> string \<Rightarrow> jsval" where
  "jget ob k = (case obj_get ob k of None \<Rightarrow> JUndef | Some v \<Rightarrow> v)"

fun truthy :: "jsval \<Rightarrow> bool" where
  "truthy JUndef = False"
| "truthy JNull = False"
| "truthy (JBool b) = b"
| "truthy (JNum n) = (n \<noteq> 0)"
| "truthy (JStr s) = (s \<noteq> [])"
| "truthy (JArr xs) = True"
| "truthy (JObj ob) = True"

fun nullish :: "jsval \<Rightarrow> bool" where
  "nullish JUndef = True"
| "nullish JNull = True"
| "nullish v = False"

definition js_or :: "jsval \<Rightarrow> jsval \<Rightarrow> jsval" where
  "js_or a b = (if truthy a then a else b)"

definition js_coalesce :: "jsval \<Rightarrow> jsval \<Rightarrow> jsval" where
  "js_coalesce a b = (if nullish a then b else a)"

text \<open>\<open>...(cond && obj)\<close>: the spread of \<open>false\<close> adds nothing.\<close>

definition obj_when :: "bool \<Rightarrow> ('k, 'v) obj \<Rightarrow> ('k, 'v) obj" where
  "obj_when c ob = (if c then ob else [])"

section \<open>Decimal numbers and property keys\<close>

definition is_digit :: "char \<Rightarrow> bool" where
  "is_digit c = (48 \<le> (of_char c :: nat) \<and> (of_char c :: nat) \<le> 57)"

text \<open>JavaScript's white space among the characters up to code 255.\<close>

definition is_blank :: "char \<Rightarrow> bool" where
  "is_blank c = ((of_char c :: nat) \<in> {9, 10, 11, 12, 13, 32, 160})"

text \<open>\<open>parseInt(s, 10)\<close> of a string of digits.\<close>

definition digits_val :: "string \<Rightarrow> int" where
  "digits_val s = foldl (\<lambda>n c. 10 * n + (of_char c - 48)) 0 s"

fun nat_string :: "nat \<Rightarrow> string" where
  "nat_string n = (if n < 10 then [char_of (48 + n)] else nat_string (n div 10) @ [char_of (48 + n mod 10)])"

declare nat_string.simps [simp del]

text \<open>\<open>String(n)\<close> of an integer.\<close>

definition int_string :: "int \<Rightarrow> string" where
  "int_string n = (if n < 0 then ''-'' @ nat_string (nat (- n)) else nat_string (nat n))"

text \<open>
  \<open>String(v)\<close>, the property key of a dynamic value: an array is its elements joined by commas,
  without \<open>null\<close> and \<open>undefined\<close>.
\<close>

fun comma_join :: "string list \<Rightarrow> string" where
  "comma_join [] = []"
| "comma_join [s] = s"
| "comma_join (s # ss) = s @ '','' @ comma_join ss"

fun key_of :: "jsval \<Rightarrow> string" where
  "key_of JUndef = ''undefined''"
| "key_of JNull = ''null''"
| "key_of (JBool b) = (if b then ''true'' else ''false'')"
| "key_of (JNum n) = int_string n"
| "key_of (JStr s) = s"
| "key_of (JArr xs) = comma_join (map (\<lambda>x. if nullish x then [] else key_of x) xs)"
| "key_of (JObj ob) = ''[object Object]''"

text \<open>\<open>v?.k\<close> for a property that only objects have, and \<open>ensureIsArray\<close> of \<open>@superset-ui/core\<close>.\<close>

fun chain :: "jsval \<Rightarrow> string \<Rightarrow> jsval" where
  "chain (JObj ob) k = jget ob k"
| "chain v k = JUndef"

fun ensureIsArray :: "jsval \<Rightarrow> jsval list" where
  "ensureIsArray JUndef = []"
| "ensureIsArray JNull = []"
| "ensureIsArray (JArr xs) = xs"
| "ensureIsArray v = [v]"

text \<open>\<open>{...v}\<close> of a dynamic value: the entries of an object, the indexed elements of an array or
  a string, and nothing of a value without own enumerable properties.\<close>

fun entries_of :: "jsval \<Rightarrow> jsobj" where
  "entries_of (JObj ob) = ob"
| "entries_of (JArr xs) = zip (map nat_string [0..<length xs]) xs"
| "entries_of (JStr s) = zip (map nat_string [0..<length s]) (map (\<lambda>c. JStr [c]) s)"
| "entries_of v = []"

section \<open>Interfaces\<close>

text \<open>
  The dictionary the components store their entities in. The client lemmas say what a spread
  and a sequence of stores do to a later read; the provider is the ordered dictionary above.
\<close>

locale dictionary =
  fixes get :: "'m \<Rightarrow> 'k \<Rightarrow> 'v option"
    and put :: "'k \<Rightarrow> 'v \<Rightarrow> 'm \<Rightarrow> 'm"
    and del :: "'k \<Rightarrow> 'm \<Rightarrow> 'm"
  assumes get_put: "get (put k v m) k' = (if k' = k then Some v else get m k')"
    and get_del: "get (del k m) k' = (if k' = k then None else get m k')"
begin

lemma get_put_same: "get (put k v m) k = Some v"
  by (simp add: get_put)

lemma get_put_other: "k' \<noteq> k \<Longrightarrow> get (put k v m) k' = get m k'"
  by (simp add: get_put)

lemma get_foldl_put:
  "get (foldl (\<lambda>m (k, v). put k v m) m es) k =
     (case map_of (rev es) k of Some v \<Rightarrow> Some v | None \<Rightarrow> get m k)"
  by (induction es arbitrary: m) (auto simp: get_put map_add_def split: option.splits)

lemma get_foldl_put_map:
  assumes "distinct (map f xs)" and "x \<in> set xs"
  shows "get (foldl (\<lambda>m x. put (f x) (g x) m) m xs) (f x) = Some (g x)"
  using assms
proof (induction xs arbitrary: m rule: rev_induct)
  case Nil
  then show ?case by simp
next
  case (snoc y ys)
  from snoc.prems(1) have ys: "distinct (map f ys)" "f y \<notin> f ` set ys" by auto
  show ?case
  proof (cases "x = y")
    case True
    then show ?thesis by (simp add: get_put)
  next
    case False
    with snoc.prems(2) have x: "x \<in> set ys" by auto
    then have "f x \<in> f ` set ys" by (rule imageI)
    with ys(2) have "f x \<noteq> f y" by metis
    with x snoc.IH ys(1) show ?thesis by (simp add: get_put)
  qed
qed

lemma get_foldl_put_notin:
  "k \<notin> f ` set xs \<Longrightarrow> get (foldl (\<lambda>m x. put (f x) (g x) m) m xs) k = get m k"
  by (induction xs arbitrary: m) (auto simp: get_put)

lemma get_foldl_del:
  "get (foldl (\<lambda>m k. del k m) m ks) k = (if k \<in> set ks then None else get m k)"
  by (induction ks arbitrary: m) (auto simp: get_del)

end

text \<open>
  A reducer with an invariant: every action keeps it, so every run of dispatched actions does.
\<close>

locale reducer_inv =
  fixes step :: "'s \<Rightarrow> 'a \<Rightarrow> 's"
    and inv :: "'s \<Rightarrow> bool"
  assumes step_inv: "inv s \<Longrightarrow> inv (step s a)"
begin

lemma run_inv: "inv s \<Longrightarrow> inv (foldl step s as)"
  by (induction as arbitrary: s) (auto intro: step_inv)

lemma prefix_inv: "inv s \<Longrightarrow> inv (foldl step s (take n as))"
  by (rule run_inv)

end

text \<open>
  A reducer that may throw, whose invariant is kept by the actions that are admissible in the
  state they meet: a run of admissible actions keeps it.
\<close>

fun run_ok :: "('a \<Rightarrow> 's \<Rightarrow> bool) \<Rightarrow> ('a \<Rightarrow> 's \<Rightarrow> 's result) \<Rightarrow> 'a list \<Rightarrow> 's \<Rightarrow> bool" where
  "run_ok adm step [] s = True"
| "run_ok adm step (a # as) s =
     (adm a s \<and> (case step a s of Inl e \<Rightarrow> True | Inr s' \<Rightarrow> run_ok adm step as s'))"

locale guarded_reducer =
  fixes step :: "'a \<Rightarrow> 's \<Rightarrow> 's result"
    and adm :: "'a \<Rightarrow> 's \<Rightarrow> bool"
    and inv :: "'s \<Rightarrow> bool"
  assumes step_inv: "inv s \<Longrightarrow> adm a s \<Longrightarrow> step a s = Inr s' \<Longrightarrow> inv s'"
begin

lemma run_inv:
  "run_ok adm step as s \<Longrightarrow> inv s \<Longrightarrow> rfold (\<lambda>s a. step a s) s as = Inr s' \<Longrightarrow> inv s'"
proof (induction as arbitrary: s)
  case Nil
  then show ?case by simp
next
  case (Cons a as)
  then show ?case
    by (cases "step a s") (auto simp: rbind_def intro: Cons.IH step_inv)
qed

end

section \<open>Lemmas on results\<close>

lemma rbind_simps [simp, result_simps]:
  "rbind (Inl e) f = Inl e"
  "rbind (Inr x) f = f x"
  by (simp_all add: rbind_def)

lemma rbind_eq_Inr [result_simps]:
  "rbind r f = Inr y \<longleftrightarrow> (\<exists>x. r = Inr x \<and> f x = Inr y)"
  by (cases r) auto

lemma or_throw_simps [simp, result_simps]:
  "or_throw e None = Inl e"
  "or_throw e (Some x) = Inr x"
  by (simp_all add: or_throw_def)

lemma or_throw_eq_Inr [simp, result_simps]: "or_throw e x = Inr y \<longleftrightarrow> x = Some y"
  by (cases x) auto

lemma rmap_Inr: "(\<And>x. x \<in> set xs \<Longrightarrow> f x = Inr (g x)) \<Longrightarrow> rmap f xs = Inr (map g xs)"
  by (induction xs) auto

lemma rfold_inv:
  assumes "rfold f s xs = Inr s'" and "P s"
    and "\<And>s x s'. x \<in> set xs \<Longrightarrow> P s \<Longrightarrow> f s x = Inr s' \<Longrightarrow> P s'"
  shows "P s'"
  using assms by (induction xs arbitrary: s) (auto simp: rbind_eq_Inr)

lemma rfold_total:
  assumes "P s" and "\<And>s x. x \<in> set xs \<Longrightarrow> P s \<Longrightarrow> \<exists>s'. f s x = Inr s' \<and> P s'"
  shows "\<exists>s'. rfold f s xs = Inr s' \<and> P s'"
  using assms
proof (induction xs arbitrary: s)
  case Nil
  then show ?case by simp
next
  case (Cons x xs)
  from Cons.prems(2) [of x s] Cons.prems(1) obtain t where t: "f s x = Inr t" "P t" by auto
  have "\<exists>s'. rfold f t xs = Inr s' \<and> P s'" by (rule Cons.IH [OF t(2)]) (use Cons.prems(2) in auto)
  with t show ?case by simp
qed

lemma foldl_inv:
  assumes "P s" and "\<And>s x. x \<in> set xs \<Longrightarrow> P s \<Longrightarrow> P (f s x)"
  shows "P (foldl f s xs)"
  using assms by (induction xs arbitrary: s) auto

section \<open>Lemmas on arrays\<close>

lemma splice_start_le: "splice_start n i \<le> n"
  by (auto simp: splice_start_def)

lemma splice_start_nat [simp]: "k \<le> n \<Longrightarrow> splice_start n (int k) = k"
  by (simp add: splice_start_def)

lemma mset_splice_insert [simp]: "mset (splice_insert xs i x) = add_mset x (mset xs)"
proof -
  let ?k = "splice_start (length xs) i"
  have "mset xs = mset (take ?k xs) + mset (drop ?k xs)"
    by (metis append_take_drop_id mset_append)
  then show ?thesis by (simp add: splice_insert_def Let_def)
qed

lemma set_splice_insert [simp]: "set (splice_insert xs i x) = insert x (set xs)"
  by (metis mset_splice_insert set_mset_add_mset_insert set_mset_mset)

lemma distinct_splice_insert [simp]:
  "distinct (splice_insert xs i x) \<longleftrightarrow> distinct xs \<and> x \<notin> set xs"
proof -
  have "mset (splice_insert xs i x) = mset (x # xs)" by simp
  then have "distinct (splice_insert xs i x) = distinct (x # xs)"
    by (rule mset_eq_imp_distinct_iff)
  then show ?thesis by auto
qed

lemma length_splice_insert [simp]: "length (splice_insert xs i x) = Suc (length xs)"
  by (metis mset_splice_insert size_mset size_add_mset)

lemma mset_splice_remove:
  assumes "js_nth xs i = Some x"
  shows "add_mset x (mset (splice_remove xs i)) = mset xs"
proof -
  from assms have i: "0 \<le> i" "nat i < length xs" and x: "x = xs ! nat i"
    by (auto simp: js_nth_def split: if_splits)
  from i have "splice_start (length xs) i = nat i"
    by (simp add: splice_start_def)
  moreover from i have "xs = take (nat i) xs @ xs ! nat i # drop (Suc (nat i)) xs"
    by (rule_tac id_take_nth_drop) simp
  ultimately show ?thesis
    unfolding splice_remove_def Let_def x
    by (metis add_mset_commute mset.simps(2) mset_append union_mset_add_mset_right)
qed

lemma set_splice_remove_subset: "set (splice_remove xs i) \<subseteq> set xs"
  by (auto simp: splice_remove_def Let_def dest: in_set_takeD in_set_dropD)

lemma distinct_splice_remove:
  assumes "distinct xs" and "js_nth xs i = Some x"
  shows "distinct (splice_remove xs i) \<and> set (splice_remove xs i) = set xs - {x}"
proof -
  have m: "mset (x # splice_remove xs i) = mset xs"
    using mset_splice_remove [OF assms(2)] by simp
  then have "distinct (x # splice_remove xs i)"
    using assms(1) mset_eq_imp_distinct_iff by blast
  moreover from m have "set (x # splice_remove xs i) = set xs"
    by (rule mset_eq_setD)
  ultimately show ?thesis by auto
qed

lemma js_nth_in_set: "js_nth xs i = Some x \<Longrightarrow> x \<in> set xs"
  by (auto simp: js_nth_def split: if_splits)

lemma index_of_None [simp]: "index_of x xs = None \<longleftrightarrow> x \<notin> set xs"
  by (induction xs) auto

lemma index_of_Some: "index_of x xs = Some i \<Longrightarrow> i < length xs \<and> xs ! i = x"
  by (induction xs arbitrary: i) (auto split: if_splits)

lemma find_index_None [simp]: "find_index P xs = None \<longleftrightarrow> (\<forall>x \<in> set xs. \<not> P x)"
  by (induction xs) auto

lemma find_index_Some: "find_index P xs = Some i \<Longrightarrow> i < length xs \<and> P (xs ! i)"
  by (induction xs arbitrary: i) (auto split: if_splits)

lemma set_uniq_acc: "set (uniq_acc acc xs) = set acc \<union> set xs"
  by (induction xs arbitrary: acc) auto

lemma distinct_uniq_acc: "distinct acc \<Longrightarrow> distinct (uniq_acc acc xs)"
  by (induction xs arbitrary: acc) auto

lemma set_js_uniq [simp]: "set (js_uniq xs) = set xs"
  by (simp add: js_uniq_def set_uniq_acc)

lemma distinct_js_uniq [simp]: "distinct (js_uniq xs)"
  by (simp add: js_uniq_def distinct_uniq_acc)

lemma uniq_acc_id: "distinct (acc @ xs) \<Longrightarrow> uniq_acc acc xs = acc @ xs"
  by (induction xs arbitrary: acc) auto

lemma js_uniq_id: "distinct xs \<Longrightarrow> js_uniq xs = xs"
  by (simp add: js_uniq_def uniq_acc_id)

section \<open>Lemmas on dictionaries\<close>

lemma obj_get_set [simp, obj_simps]:
  "obj_get (obj_set k v ob) k' = (if k' = k then Some v else obj_get ob k')"
  by (induction ob) auto

lemma obj_get_del [simp, obj_simps]:
  "obj_get (obj_del k ob) k' = (if k' = k then None else obj_get ob k')"
  by (induction ob) (auto simp: obj_del_def)

interpretation od: dictionary obj_get obj_set obj_del
  by unfold_locales (simp_all add: obj_simps)

lemma obj_get_spread [obj_simps]:
  "obj_get (obj_spread a b) k = (case map_of (rev b) k of Some v \<Rightarrow> Some v | None \<Rightarrow> obj_get a k)"
  unfolding obj_spread_def by (rule od.get_foldl_put)

lemma map_of_rev_ok: "obj_ok ob \<Longrightarrow> map_of (rev ob) = map_of ob"
  unfolding obj_ok_def
  by (intro map_of_eqI) (auto simp: rev_map [symmetric] intro: map_of_is_SomeI)

lemma obj_get_spread_ok:
  assumes "obj_ok b"
  shows "obj_get (obj_spread a b) k = (case obj_get b k of Some v \<Rightarrow> Some v | None \<Rightarrow> obj_get a k)"
  by (simp add: obj_get_spread map_of_rev_ok [OF assms])

lemma map_fst_obj_set:
  "map fst (obj_set k v ob) = (if k \<in> fst ` set ob then map fst ob else map fst ob @ [k])"
  by (induction ob) (auto, metis fst_conv imageI)

lemma set_fst_obj_set [simp]: "fst ` set (obj_set k v ob) = insert k (fst ` set ob)"
proof -
  have "set (map fst (obj_set k v ob)) = insert k (set (map fst ob))"
    unfolding map_fst_obj_set by auto
  then show ?thesis by simp
qed

lemma obj_ok_Nil [simp]: "obj_ok []"
  by (simp add: obj_ok_def)

lemma obj_ok_set [simp]: "obj_ok ob \<Longrightarrow> obj_ok (obj_set k v ob)"
  unfolding obj_ok_def map_fst_obj_set by simp

lemma obj_ok_del [simp]: "obj_ok ob \<Longrightarrow> obj_ok (obj_del k ob)"
  unfolding obj_ok_def obj_del_def by (induction ob) auto

lemma obj_ok_spread [simp]: "obj_ok a \<Longrightarrow> obj_ok (obj_spread a b)"
  unfolding obj_spread_def by (induction b arbitrary: a) auto

lemma obj_spread_Nil [simp]: "obj_spread a [] = a"
  by (simp add: obj_spread_def)

lemma obj_spread_Cons [simp]: "obj_spread a ((k, v) # b) = obj_spread (obj_set k v a) b"
  by (simp add: obj_spread_def)

lemma obj_keys_set: "set (obj_keys (obj_set k v ob)) = insert k (set (obj_keys ob))"
  by (simp add: obj_keys_def)

lemma obj_keys_mem: "k \<in> set (obj_keys ob) \<longleftrightarrow> obj_get ob k \<noteq> None"
  by (simp add: obj_keys_def map_of_eq_None_iff)

lemma length_obj_del_le: "length (obj_del k ob) \<le> length ob"
  by (simp add: obj_del_def)

lemma length_obj_del_less: "obj_get ob k = Some v \<Longrightarrow> length (obj_del k ob) < length ob"
  unfolding obj_del_def by (rule length_filter_less [of "(k, v)"]) (auto dest: map_of_SomeD)

lemma length_obj_set_present: "obj_get ob k \<noteq> None \<Longrightarrow> length (obj_set k v ob) = length ob"
  by (induction ob) auto

lemma obj_keys_set_present: "obj_get ob k \<noteq> None \<Longrightarrow> obj_keys (obj_set k v ob) = obj_keys ob"
  by (induction ob) (auto simp: obj_keys_def)

lemma jget_obj_set [simp, obj_simps]:
  "jget (obj_set k v ob) k' = (if k' = k then v else jget ob k')"
  by (simp add: jget_def)

lemma jget_obj_del [obj_simps]: "jget (obj_del k' ob) k = (if k = k' then JUndef else jget ob k)"
  by (simp add: jget_def)

lemma keys_spread: "fst ` set (obj_spread a b) = fst ` set a \<union> fst ` set b"
proof (induction b arbitrary: a)
  case Nil
  then show ?case by simp
next
  case (Cons x b)
  then show ?case by (cases x) auto
qed

lemma jget_spread_ok [obj_simps]:
  "obj_ok b \<Longrightarrow> jget (obj_spread a b) k = (if obj_get b k \<noteq> None then jget b k else jget a k)"
  by (simp add: jget_def obj_get_spread_ok split: option.splits)

lemma obj_when_simps [simp]: "obj_when True ob = ob" "obj_when False ob = []"
  by (simp_all add: obj_when_def)

end
