(* ===== verification/LayoutModel.thy ===== *)
theory LayoutModel
  imports Prelude
begin

text \<open>
  The data of the dashboard layout (\<open>src/dashboard/types.ts\<close>, \<open>util/componentTypes.ts\<close>,
  \<open>util/constants.ts\<close>) and the rules on single components: which component may contain which,
  which are resizable, which are wrapped in a row, and what a new component looks like.
\<close>

section \<open>Component types and constants\<close>

text \<open>\<open>DASHBOARD_HEADER_TYPE\<close> and \<open>HEADER_TYPE\<close> are the same string in the source, hence one
  constructor here.\<close>

datatype component_type =
    CHART_TYPE
  | COLUMN_TYPE
  | DASHBOARD_GRID_TYPE
  | DASHBOARD_ROOT_TYPE
  | DIVIDER_TYPE
  | HEADER_TYPE
  | MARKDOWN_TYPE
  | NEW_COMPONENT_SOURCE_TYPE
  | ROW_TYPE
  | TABS_TYPE
  | TAB_TYPE
  | DYNAMIC_TYPE

fun type_string :: "component_type \<Rightarrow> string" where
  "type_string CHART_TYPE = ''CHART''"
| "type_string COLUMN_TYPE = ''COLUMN''"
| "type_string DASHBOARD_GRID_TYPE = ''GRID''"
| "type_string DASHBOARD_ROOT_TYPE = ''ROOT''"
| "type_string DIVIDER_TYPE = ''DIVIDER''"
| "type_string HEADER_TYPE = ''HEADER''"
| "type_string MARKDOWN_TYPE = ''MARKDOWN''"
| "type_string NEW_COMPONENT_SOURCE_TYPE = ''NEW_COMPONENT_SOURCE''"
| "type_string ROW_TYPE = ''ROW''"
| "type_string TABS_TYPE = ''TABS''"
| "type_string TAB_TYPE = ''TAB''"
| "type_string DYNAMIC_TYPE = ''DYNAMIC''"

definition DASHBOARD_GRID_ID :: string where "DASHBOARD_GRID_ID = ''GRID_ID''"
definition DASHBOARD_HEADER_ID :: string where "DASHBOARD_HEADER_ID = ''HEADER_ID''"
definition DASHBOARD_ROOT_ID :: string where "DASHBOARD_ROOT_ID = ''ROOT_ID''"
definition NEW_COMPONENTS_SOURCE_ID :: string where
  "NEW_COMPONENTS_SOURCE_ID = ''NEW_COMPONENTS_SOURCE_ID''"
definition GRID_COLUMN_COUNT :: int where "GRID_COLUMN_COUNT = 12"
definition GRID_MIN_COLUMN_COUNT :: int where "GRID_MIN_COLUMN_COUNT = 1"
definition GRID_DEFAULT_CHART_WIDTH :: int where "GRID_DEFAULT_CHART_WIDTH = 4"
definition BACKGROUND_TRANSPARENT :: string where
  "BACKGROUND_TRANSPARENT = ''BACKGROUND_TRANSPARENT''"
definition MEDIUM_HEADER :: string where "MEDIUM_HEADER = ''MEDIUM_HEADER''"
definition IN_COMPONENT_ELEMENT_TYPES :: "string list" where
  "IN_COMPONENT_ELEMENT_TYPES = [''LABEL'']"
definition UNDO_LIMIT :: nat where "UNDO_LIMIT = 50"

section \<open>Layout items and layouts\<close>

text \<open>
  \<open>LayoutItem\<close>: \<open>meta\<close> carries arbitrary further properties, so it is an object of dynamic
  values; \<open>parents\<close> may be absent.
\<close>

record layout_item =
  item_type :: component_type
  item_id :: string
  children :: "string list"
  parents :: "string list option"
  meta :: jsobj

type_synonym layout = "(string, layout_item) obj"

text \<open>\<open>meta?.width\<close> and \<open>meta?.chartId\<close>, which the source types as optional numbers.\<close>

definition meta_num :: "string \<Rightarrow> layout_item \<Rightarrow> int option" where
  "meta_num k c = (case jget (meta c) k of JNum n \<Rightarrow> Some n | _ \<Rightarrow> None)"

abbreviation meta_width :: "layout_item \<Rightarrow> int option" where
  "meta_width \<equiv> meta_num ''width''"

text \<open>\<open>meta.chartId\<close> where it is truthy: chart id 0 counts as absent.\<close>

definition chart_id_of :: "layout_item \<Rightarrow> int option" where
  "chart_id_of c = (case meta_num ''chartId'' c of Some n \<Rightarrow> if n = 0 then None else Some n
                    | None \<Rightarrow> None)"

section \<open>Which component may contain which\<close>

definition parentMaxDepthLookup :: "component_type \<Rightarrow> component_type \<Rightarrow> int option" where
  "parentMaxDepthLookup parent child =
     (case parent of
        DASHBOARD_ROOT_TYPE \<Rightarrow>
          (case child of TABS_TYPE \<Rightarrow> Some 0 | DASHBOARD_GRID_TYPE \<Rightarrow> Some 0 | _ \<Rightarrow> None)
      | DASHBOARD_GRID_TYPE \<Rightarrow>
          (case child of CHART_TYPE \<Rightarrow> Some 1 | DYNAMIC_TYPE \<Rightarrow> Some 1 | MARKDOWN_TYPE \<Rightarrow> Some 1
           | COLUMN_TYPE \<Rightarrow> Some 1 | DIVIDER_TYPE \<Rightarrow> Some 1 | HEADER_TYPE \<Rightarrow> Some 1
           | ROW_TYPE \<Rightarrow> Some 1 | TABS_TYPE \<Rightarrow> Some 1 | _ \<Rightarrow> None)
      | ROW_TYPE \<Rightarrow>
          (case child of CHART_TYPE \<Rightarrow> Some 4 | DYNAMIC_TYPE \<Rightarrow> Some 4 | MARKDOWN_TYPE \<Rightarrow> Some 4
           | COLUMN_TYPE \<Rightarrow> Some 4 | _ \<Rightarrow> None)
      | TABS_TYPE \<Rightarrow> (case child of TAB_TYPE \<Rightarrow> Some 3 | _ \<Rightarrow> None)
      | TAB_TYPE \<Rightarrow>
          (case child of CHART_TYPE \<Rightarrow> Some 5 | DYNAMIC_TYPE \<Rightarrow> Some 5 | MARKDOWN_TYPE \<Rightarrow> Some 5
           | COLUMN_TYPE \<Rightarrow> Some 3 | DIVIDER_TYPE \<Rightarrow> Some 5 | HEADER_TYPE \<Rightarrow> Some 5
           | ROW_TYPE \<Rightarrow> Some 3 | TABS_TYPE \<Rightarrow> Some 3 | _ \<Rightarrow> None)
      | COLUMN_TYPE \<Rightarrow>
          (case child of CHART_TYPE \<Rightarrow> Some 5 | HEADER_TYPE \<Rightarrow> Some 5 | MARKDOWN_TYPE \<Rightarrow> Some 5
           | ROW_TYPE \<Rightarrow> Some 3 | DIVIDER_TYPE \<Rightarrow> Some 3 | TABS_TYPE \<Rightarrow> Some 3 | _ \<Rightarrow> None)
      | _ \<Rightarrow> None)"

text \<open>\<open>isValidChild\<close>: a missing type, or a depth that is not a number, forbids the nesting.\<close>

definition isValidChild ::
    "component_type option \<Rightarrow> component_type option \<Rightarrow> int option \<Rightarrow> bool" where
  "isValidChild parentType childType parentDepth =
     (case (parentType, childType, parentDepth) of
        (Some p, Some c, Some d) \<Rightarrow>
          (case parentMaxDepthLookup p c of Some m \<Rightarrow> d \<le> m | None \<Rightarrow> False)
      | _ \<Rightarrow> False)"

definition componentIsResizable :: "component_type \<Rightarrow> bool" where
  "componentIsResizable t =
     (t \<in> set [COLUMN_TYPE, CHART_TYPE, MARKDOWN_TYPE, DYNAMIC_TYPE])"

definition shouldWrapChildInRow ::
    "component_type option \<Rightarrow> component_type option \<Rightarrow> bool" where
  "shouldWrapChildInRow parentType childType =
     (case (parentType, childType) of
        (Some p, Some c) \<Rightarrow>
          p \<in> set [DASHBOARD_GRID_TYPE, TAB_TYPE] \<and>
          c \<in> set [CHART_TYPE, COLUMN_TYPE, MARKDOWN_TYPE]
      | _ \<Rightarrow> False)"

section \<open>New components and the empty layout\<close>

text \<open>
  \<open>tr\<close> is the translation function \<open>t\<close> of the user interface, \<open>nid\<close> the random suffix of
  \<open>nanoid()\<close>.
\<close>

definition typeToDefaultMetaData :: "(string \<Rightarrow> string) \<Rightarrow> component_type \<Rightarrow> jsobj" where
  "typeToDefaultMetaData tr ty =
     (case ty of
        CHART_TYPE \<Rightarrow> [(''width'', JNum GRID_DEFAULT_CHART_WIDTH), (''height'', JNum 50)]
      | COLUMN_TYPE \<Rightarrow> [(''width'', JNum GRID_DEFAULT_CHART_WIDTH),
                        (''background'', JStr BACKGROUND_TRANSPARENT)]
      | HEADER_TYPE \<Rightarrow> [(''text'', JStr (tr ''New header'')), (''headerSize'', JStr MEDIUM_HEADER),
                        (''background'', JStr BACKGROUND_TRANSPARENT)]
      | MARKDOWN_TYPE \<Rightarrow> [(''width'', JNum GRID_DEFAULT_CHART_WIDTH), (''height'', JNum 50)]
      | ROW_TYPE \<Rightarrow> [(''background'', JStr BACKGROUND_TRANSPARENT)]
      | TAB_TYPE \<Rightarrow> [(''text'', JStr []), (''defaultText'', JStr (tr ''Tab title'')),
                     (''placeholder'', JStr (tr ''Tab title''))]
      | DYNAMIC_TYPE \<Rightarrow> [(''width'', JNum GRID_COLUMN_COUNT),
                         (''background'', JStr BACKGROUND_TRANSPARENT)]
      | _ \<Rightarrow> [])"

definition generateId :: "component_type \<Rightarrow> string \<Rightarrow> string" where
  "generateId ty nid = type_string ty @ ''-'' @ nid"

definition newComponentFactory ::
    "(string \<Rightarrow> string) \<Rightarrow> string \<Rightarrow> component_type \<Rightarrow> jsobj \<Rightarrow> layout_item" where
  "newComponentFactory tr nid ty mt =
     \<lparr>item_type = ty, item_id = generateId ty nid, children = [], parents = Some [],
      meta = obj_spread (typeToDefaultMetaData tr ty) mt\<rparr>"

text \<open>The entry \<open>DASHBOARD_VERSION_KEY: 'v2'\<close> of the empty layout is a string and not a component:
  it is the first component of the pair.\<close>

definition getEmptyLayout :: "string \<times> layout" where
  "getEmptyLayout =
     (''v2'',
      [(DASHBOARD_ROOT_ID,
        \<lparr>item_type = DASHBOARD_ROOT_TYPE, item_id = DASHBOARD_ROOT_ID,
         children = [DASHBOARD_GRID_ID], parents = None, meta = []\<rparr>),
       (DASHBOARD_GRID_ID,
        \<lparr>item_type = DASHBOARD_GRID_TYPE, item_id = DASHBOARD_GRID_ID,
         children = [], parents = Some [DASHBOARD_ROOT_ID], meta = []\<rparr>)])"

lemmas layout_ids = DASHBOARD_GRID_ID_def DASHBOARD_HEADER_ID_def DASHBOARD_ROOT_ID_def
  NEW_COMPONENTS_SOURCE_ID_def

section \<open>Lemmas\<close>

lemma isValidChild_iff [simp]:
  "isValidChild p c d \<longleftrightarrow>
     (\<exists>p' c' d' m. p = Some p' \<and> c = Some c' \<and> d = Some d' \<and>
        parentMaxDepthLookup p' c' = Some m \<and> d' \<le> m)"
  by (auto simp: isValidChild_def split: option.splits)

text \<open>A component type is a container when some type may be nested in it.\<close>

definition container_type :: "component_type \<Rightarrow> bool" where
  "container_type t = (t \<in> set [DASHBOARD_ROOT_TYPE, DASHBOARD_GRID_TYPE, ROW_TYPE, TABS_TYPE,
                               TAB_TYPE, COLUMN_TYPE])"

lemma parentMaxDepthLookup_container:
  "parentMaxDepthLookup p c = Some m \<Longrightarrow> container_type p \<and> m \<le> 5 \<and> c \<noteq> DASHBOARD_ROOT_TYPE"
  by (cases p; cases c) (auto simp: parentMaxDepthLookup_def container_type_def)

lemma parentMaxDepthLookup_nested:
  "parentMaxDepthLookup p c = Some m \<Longrightarrow> container_type c \<Longrightarrow> m \<le> 4"
  by (cases p; cases c) (auto simp: parentMaxDepthLookup_def container_type_def)

lemma type_string_inject: "type_string s = type_string t \<longleftrightarrow> s = t"
  by (cases s; cases t) auto

lemma type_string_no_dash: "CHR ''-'' \<notin> set (type_string t)"
  by (cases t) auto

lemma append_dash_inject:
  "CHR ''-'' \<notin> set a \<Longrightarrow> CHR ''-'' \<notin> set b \<Longrightarrow>
     a @ CHR ''-'' # n = b @ CHR ''-'' # m \<Longrightarrow> a = b \<and> n = m"
proof (induction a arbitrary: b)
  case Nil
  then show ?case by (cases b) auto
next
  case (Cons x a)
  then show ?case by (cases b) auto
qed

lemma generateId_inject: "generateId s n = generateId t m \<longleftrightarrow> s = t \<and> n = m"
proof
  assume "generateId s n = generateId t m"
  then have "type_string s @ CHR ''-'' # n = type_string t @ CHR ''-'' # m"
    by (simp add: generateId_def)
  from append_dash_inject [OF type_string_no_dash type_string_no_dash this]
  show "s = t \<and> n = m" by (simp add: type_string_inject)
qed simp

lemma newComponentFactory_simps [simp]:
  "item_type (newComponentFactory tr nid ty mt) = ty"
  "item_id (newComponentFactory tr nid ty mt) = generateId ty nid"
  "children (newComponentFactory tr nid ty mt) = []"
  "parents (newComponentFactory tr nid ty mt) = Some []"
  by (simp_all add: newComponentFactory_def)

end
