(* ===== verification/LayoutQueries.thy ===== *)
theory LayoutQueries
  imports LayoutModel
begin

text \<open>
  What the dashboard reads off its layout: the parent of a component (with the module-level cache
  of \<open>findParentId.ts\<close>), the charts below a component, paths, tab indices, and the widths the
  grid works with.

  The recursions over \<open>children\<close> end on a layout that is a tree and run out of stack on a cyclic
  one. They take a fuel, one unit per nested call: a recursion deeper than the number of
  components has met some component twice, so the fuel \<open>Suc (length L)\<close> is only used up by a
  recursion that does not end.
\<close>

section \<open>The parent of a component\<close>

fun findParentId :: "string \<Rightarrow> layout \<Rightarrow> string option" where
  "findParentId childId [] = None"
| "findParentId childId ((cid, c) # L) =
     (if cid \<noteq> childId \<and> childId \<in> set (children c) then Some cid else findParentId childId L)"

text \<open>The cache maps a child to the parent found last, \<open>null\<close> included. The result is paired with
  the cache after the call.\<close>

type_synonym parent_cache = "(string, string option) obj"

definition findParentIdWithCache ::
    "string \<Rightarrow> layout \<Rightarrow> parent_cache \<Rightarrow> string option \<times> parent_cache" where
  "findParentIdWithCache childId L cache =
     (let miss = (let p = findParentId childId L in (p, obj_set childId p cache))
      in case obj_get cache childId of
           Some (Some cached) \<Rightarrow>
             (if cached = [] then miss
              else case obj_get L cached of
                     Some lastParent \<Rightarrow>
                       (if childId \<in> set (children lastParent)
                        then (Some (item_id lastParent), cache) else miss)
                   | None \<Rightarrow> miss)
         | _ \<Rightarrow> miss)"

section \<open>Charts of a component and of the layout\<close>

fun chart_ids_fuel :: "nat \<Rightarrow> layout \<Rightarrow> string \<Rightarrow> int list result" where
  "chart_ids_fuel 0 L cid = Inl StackOverflow"
| "chart_ids_fuel (Suc n) L cid =
     (case obj_get L cid of
        None \<Rightarrow> Inr []
      | Some c \<Rightarrow>
          rbind (rmap (chart_ids_fuel n L) (children c))
            (\<lambda>below. Inr ((case chart_id_of c of
                           Some i \<Rightarrow> (if item_type c = CHART_TYPE then [i] else [])
                         | None \<Rightarrow> []) @ concat below)))"

definition getChartIdsFromComponent :: "string \<Rightarrow> layout \<Rightarrow> int list result" where
  "getChartIdsFromComponent cid L = chart_ids_fuel (Suc (length L)) L cid"

definition getChartIdsFromLayout :: "layout \<Rightarrow> int list" where
  "getChartIdsFromLayout L =
     concat (map (\<lambda>c. if item_type c = CHART_TYPE
                      then (case chart_id_of c of Some i \<Rightarrow> [i] | None \<Rightarrow> []) else [])
       (obj_values L))"

definition getLayoutComponentFromChartId :: "layout \<Rightarrow> int \<Rightarrow> layout_item option" where
  "getLayoutComponentFromChartId L chartId =
     List.find (\<lambda>c. item_type c = CHART_TYPE \<and> meta_num ''chartId'' c = Some chartId)
       (obj_values L)"

definition isDashboardEmpty :: "layout \<Rightarrow> bool" where
  "isDashboardEmpty L =
     (\<not> (\<exists>c \<in> set (obj_values L). item_type c \<in> set [CHART_TYPE, MARKDOWN_TYPE, DYNAMIC_TYPE]))"

text \<open>Charts below a component that are not nested in a \<open>TABS\<close> component.\<close>

fun non_tab_charts_fuel :: "nat \<Rightarrow> layout \<Rightarrow> layout_item \<Rightarrow> int list result" where
  "non_tab_charts_fuel 0 L node = Inl StackOverflow"
| "non_tab_charts_fuel (Suc n) L node =
     (if item_type node = CHART_TYPE
      then Inr (case chart_id_of node of Some i \<Rightarrow> [i] | None \<Rightarrow> [])
      else if item_type node \<noteq> TABS_TYPE
      then rbind (rmap (\<lambda>k. case obj_get L k of None \<Rightarrow> Inr [] | Some ch \<Rightarrow> non_tab_charts_fuel n L ch)
                   (children node))
             (\<lambda>below. Inr (concat below))
      else Inr [])"

definition findNonTabChildChartIds :: "string \<Rightarrow> layout \<Rightarrow> int list result" where
  "findNonTabChildChartIds cid L =
     (case obj_get L cid of None \<Rightarrow> Inr [] | Some c \<Rightarrow> non_tab_charts_fuel (Suc (length L)) L c)"

record top_level_node =
  tln_id :: string
  tln_type :: component_type
  tln_parent_type :: "component_type option"
  tln_parent_id :: "string option"
  tln_index :: "nat option"
  tln_depth :: nat
  tln_slice_ids :: "int list"

fun top_level_fuel ::
    "nat \<Rightarrow> layout \<Rightarrow> layout_item option \<Rightarrow> nat option \<Rightarrow> nat \<Rightarrow> component_type option \<Rightarrow> string option
      \<Rightarrow> top_level_node list result" where
  "top_level_fuel 0 L node index depth parentType parentId = Inl StackOverflow"
| "top_level_fuel (Suc n) L node index depth parentType parentId =
     (case node of
        None \<Rightarrow> Inr []
      | Some nd \<Rightarrow>
          (let isTop = item_type nd \<in> {TAB_TYPE, DASHBOARD_GRID_TYPE};
               nextType = (if isTop then Some (item_type nd) else parentType);
               nextId = (if isTop then Some (item_id nd) else parentId);
               nextDepth = (if isTop then Suc depth else depth)
           in rbind (if isTop then findNonTabChildChartIds (item_id nd) L else Inr [])
                (\<lambda>chartIds.
                  rbind (rmap (\<lambda>(k, i). top_level_fuel n L (obj_get L k) (Some i) nextDepth nextType nextId)
                          (zip (children nd) [0 ..< length (children nd)]))
                    (\<lambda>below. Inr ((if isTop
                        then [\<lparr>tln_id = item_id nd, tln_type = item_type nd,
                               tln_parent_type = parentType, tln_parent_id = parentId,
                               tln_index = index, tln_depth = depth, tln_slice_ids = chartIds\<rparr>]
                        else []) @ concat below)))))"

definition findTopLevelComponentIds :: "layout \<Rightarrow> top_level_node list result" where
  "findTopLevelComponentIds L =
     top_level_fuel (Suc (length L)) L (obj_get L DASHBOARD_ROOT_ID) None 0 None None"

section \<open>Paths and containers\<close>

text \<open>\<open>id.split('-')[0]\<close> and \<open>toLowerCase\<close> on the ASCII component types.\<close>

definition type_prefix :: "string \<Rightarrow> string" where
  "type_prefix s = takeWhile (\<lambda>ch. ch \<noteq> CHR ''-'') s"

definition ascii_lower :: "char \<Rightarrow> char" where
  "ascii_lower ch =
     (let n = of_char ch :: nat in if 65 \<le> n \<and> n \<le> 90 then char_of (n + 32) else ch)"

fun label_path_loop ::
    "(string, string) obj \<Rightarrow> string list \<Rightarrow> (string, string) obj" where
  "label_path_loop acc [] = acc"
| "label_path_loop acc (cid # rest) =
     (let t = type_prefix cid; acc' = obj_set (map ascii_lower t) cid acc
      in if t \<in> set IN_COMPONENT_ELEMENT_TYPES then label_path_loop acc' rest else acc')"

definition getChartAndLabelComponentIdFromPath :: "string option list \<Rightarrow> (string, string) obj" where
  "getChartAndLabelComponentIdFromPath path =
     label_path_loop [] (rev (List.map_filter (\<lambda>x. x) path))"

definition getLeafComponentIdFromPath :: "string list \<Rightarrow> string option" where
  "getLeafComponentIdFromPath path =
     List.find (\<lambda>cid. cid \<noteq> [] \<and> type_prefix cid \<noteq> [] \<and>
                     type_prefix cid \<notin> set IN_COMPONENT_ELEMENT_TYPES) (rev path)"

text \<open>\<open>-1\<close> is \<open>None\<close>. A path that ends at the component has no next element, and \<open>indexOf(undefined)\<close>
  finds nothing.\<close>

definition findTabIndexByComponentId :: "layout_item \<Rightarrow> string list \<Rightarrow> nat option" where
  "findTabIndexByComponentId c path =
     (case index_of (item_id c) path of
        None \<Rightarrow> None
      | Some i \<Rightarrow> (if Suc i < length path then index_of (path ! Suc i) (children c) else None))"

text \<open>An index outside the tabs pushes \<open>undefined\<close> onto the path.\<close>

definition getDirectPathToTabIndex :: "layout_item \<Rightarrow> int \<Rightarrow> string option list" where
  "getDirectPathToTabIndex tabs tabIndex =
     map Some ((case parents tabs of None \<Rightarrow> [] | Some ps \<Rightarrow> ps) @ [item_id tabs])
       @ [js_nth (children tabs) tabIndex]"

definition findFirstParentContainerId :: "layout \<Rightarrow> string result" where
  "findFirstParentContainerId L =
     (case obj_get L DASHBOARD_ROOT_ID of
        None \<Rightarrow> Inl TypeError
      | Some root \<Rightarrow>
          (case children root of
             [] \<Rightarrow> Inl TypeError
           | k # _ \<Rightarrow>
               (case obj_get L k of
                  None \<Rightarrow> Inl TypeError
                | Some topc \<Rightarrow>
                    (if item_type topc = TABS_TYPE
                     then (case children topc of
                             [] \<Rightarrow> Inl TypeError
                           | tab # _ \<Rightarrow> rbind (or_throw TypeError (obj_get L tab))
                                          (\<lambda>c. Inr (item_id c)))
                     else Inr (item_id topc)))))"

section \<open>Widths\<close>

text \<open>
  The width functions call \<open>findParentId\<close> through its cache. They are modelled with the search
  itself: on a layout in which no component has two parents the cache does not change the
  answer, whatever it holds (\<open>findParentIdWithCache_correct\<close> in \<open>LayoutClaims\<close>).
\<close>

text \<open>\<open>w || d\<close> for an optional number.\<close>

definition num_or :: "int option \<Rightarrow> int \<Rightarrow> int" where
  "num_or w d = (case w of Some n \<Rightarrow> if n = 0 then d else n | None \<Rightarrow> d)"

definition getTotalChildWidth :: "string \<Rightarrow> layout \<Rightarrow> int" where
  "getTotalChildWidth cid L =
     (case obj_get L cid of
        None \<Rightarrow> 0
      | Some c \<Rightarrow> sum_list (map (\<lambda>k. case obj_get L k of None \<Rightarrow> 0 | Some ch \<Rightarrow> num_or (meta_width ch) 0)
                         (children c)))"

record detailed_width =
  dw_width :: "int option"
  dw_occupied :: "int option"
  dw_minimum :: "int option"

definition no_width :: detailed_width where
  "no_width = \<lparr>dw_width = None, dw_occupied = None, dw_minimum = None\<rparr>"

text \<open>The component is the one passed or the one looked up; \<open>None\<close> is \<open>undefined\<close>.\<close>

fun detailed_width_fuel :: "nat \<Rightarrow> layout \<Rightarrow> layout_item option \<Rightarrow> detailed_width result" where
  "detailed_width_fuel 0 L c = Inl StackOverflow"
| "detailed_width_fuel (Suc n) L None = Inr no_width"
| "detailed_width_fuel (Suc n) L (Some c) =
     (if item_type c = ROW_TYPE then
        rbind (detailed_width_fuel n L
                 (case findParentId (item_id c) L of None \<Rightarrow> None | Some p \<Rightarrow> obj_get L p))
          (\<lambda>pw. let occ = getTotalChildWidth (item_id c) L
                in Inr \<lparr>dw_width = Some (num_or (dw_width pw) GRID_COLUMN_COUNT),
                        dw_occupied = Some occ,
                        dw_minimum = Some (num_or (Some occ) GRID_MIN_COLUMN_COUNT)\<rparr>)
      else if item_type c = COLUMN_TYPE then
        rbind (rmap (\<lambda>k. rbind (or_throw TypeError (obj_get L k))
                            (\<lambda>ch. Inr (if item_type ch = ROW_TYPE then [getTotalChildWidth k L] else [])))
                (children c))
          (\<lambda>rows. Inr \<lparr>dw_width = meta_width c, dw_occupied = Some 0,
                      dw_minimum = Some (foldl max GRID_MIN_COLUMN_COUNT (concat rows))\<rparr>)
      else
        Inr \<lparr>dw_width = meta_width c, dw_occupied = meta_width c,
             dw_minimum = (if item_type c \<in> {DYNAMIC_TYPE, MARKDOWN_TYPE, CHART_TYPE}
                           then Some GRID_MIN_COLUMN_COUNT else None)\<rparr>)"

definition getDetailedComponentWidth :: "layout_item option \<Rightarrow> layout \<Rightarrow> detailed_width result" where
  "getDetailedComponentWidth c L = detailed_width_fuel (Suc (Suc (length L))) L c"

definition width_by_id :: "string option \<Rightarrow> layout \<Rightarrow> detailed_width result" where
  "width_by_id i L = getDetailedComponentWidth (case i of None \<Rightarrow> None | Some k \<Rightarrow> obj_get L k) L"

end
