(* ===== verification/LayoutDrag.thy ===== *)
theory LayoutDrag
  imports LayoutQueries
begin

text \<open>
  Drag and drop on the dashboard: where a dragged component may be dropped
  (\<open>getDropPosition.ts\<close>, \<open>handleDrop.ts\<close>), how wide it becomes (\<open>getComponentWidthFromDrop.ts\<close>),
  how the lists of children change (\<open>dnd-reorder.ts\<close>) and which entities a new component brings
  (\<open>newEntitiesFromDrop.ts\<close>). Positions and sizes in pixels are integers.
\<close>

section \<open>Drop results\<close>

datatype drop_position = DROP_TOP | DROP_RIGHT | DROP_BOTTOM | DROP_LEFT | DROP_FORBIDDEN

record location =
  loc_id :: string
  loc_type :: component_type
  loc_index :: int

record drag_info =
  drag_id :: string
  drag_type :: component_type
  drag_meta :: jsobj

record drop_result =
  source :: location
  dragging :: drag_info
  destination :: "location option"
  position :: "drop_position option"

section \<open>Where a component may be dropped\<close>

record client_offset =
  off_x :: int
  off_y :: int

record bounding_rect =
  r_left :: int
  r_right :: int
  r_top :: int
  r_bottom :: int

record drop_target =
  dt_depth :: int
  dt_parent :: "layout_item option"
  dt_component :: layout_item
  dt_row_orientation :: bool
  dt_shallow :: bool
  dt_rect :: "bounding_rect option"

type_synonym offset_cache = "(string, client_offset) obj"

definition SIBLING_DROP_THRESHOLD :: int where "SIBLING_DROP_THRESHOLD = 20"
definition NON_SHALLOW_DROP_THRESHOLD :: int where "NON_SHALLOW_DROP_THRESHOLD = 20"

definition clearDropCache :: offset_cache where "clearDropCache = []"

text \<open>
  The last branch of \<open>getDropPosition\<close>, where the mouse position decides. Twice the distance to
  the left edge is compared with the width, as \<open>x < left + (right - left) / 2\<close> is over the reals.
\<close>

definition drop_as_child :: "bool \<Rightarrow> bool \<Rightarrow> drop_position" where
  "drop_as_child vertical hasChildren =
     (if vertical then (if hasChildren then DROP_RIGHT else DROP_LEFT)
      else (if hasChildren then DROP_BOTTOM else DROP_TOP))"

definition drop_by_mouse ::
    "drop_target \<Rightarrow> bool \<Rightarrow> bool \<Rightarrow> client_offset \<Rightarrow> bounding_rect \<Rightarrow> drop_position option" where
  "drop_by_mouse tgt validChild validSibling off r =
     (let deltaTop = \<bar>off_y off - r_top r\<bar>;
          deltaBottom = \<bar>off_y off - r_bottom r\<bar>;
          deltaLeft = \<bar>off_x off - r_left r\<bar>;
          deltaRight = \<bar>off_x off - r_right r\<bar>;
          hasChildren = (children (dt_component tgt) \<noteq> []);
          childVertical = dt_row_orientation tgt;
          siblingVertical = (\<not> dt_row_orientation tgt)
      in if \<not> dt_shallow tgt \<and>
            (\<forall>d \<in> set [deltaTop, deltaBottom, deltaLeft, deltaRight]. d > NON_SHALLOW_DROP_THRESHOLD)
         then None
         else if validSibling \<and> \<not> validChild then
           (if siblingVertical
            then Some (if 2 * (off_x off - r_left r) < r_right r - r_left r then DROP_LEFT else DROP_RIGHT)
            else Some (if 2 * (off_y off - r_top r) < r_bottom r - r_top r then DROP_TOP else DROP_BOTTOM))
         else if validSibling \<and> validChild then
           (if siblingVertical \<and> deltaLeft < SIBLING_DROP_THRESHOLD then Some DROP_LEFT
            else if siblingVertical \<and> deltaRight < SIBLING_DROP_THRESHOLD then Some DROP_RIGHT
            else if \<not> siblingVertical \<and> deltaTop < SIBLING_DROP_THRESHOLD then Some DROP_TOP
            else if \<not> siblingVertical \<and> deltaBottom < SIBLING_DROP_THRESHOLD then Some DROP_BOTTOM
            else Some (drop_as_child childVertical hasChildren))
         else None)"

text \<open>The dragged item is \<open>monitor.getItem()\<close>, the offset \<open>monitor.getClientOffset()\<close>; the cache
  of offsets is returned beside the position.\<close>

definition getDropPosition ::
    "drag_info option \<Rightarrow> client_offset option \<Rightarrow> drop_target \<Rightarrow> offset_cache
      \<Rightarrow> drop_position option \<times> offset_cache" where
  "getDropPosition item off tgt cache =
     (case item of
        None \<Rightarrow> (None, cache)
      | Some it \<Rightarrow>
          (let comp = dt_component tgt;
               parentType = map_option item_type (dt_parent tgt);
               parentDepth = dt_depth tgt +
                 (if parentType \<in> {Some TAB_TYPE, Some TABS_TYPE} then 0 else -1);
               validChild = isValidChild (Some (item_type comp)) (Some (drag_type it))
                              (Some (dt_depth tgt));
               validSibling = isValidChild parentType (Some (drag_type it)) (Some parentDepth)
           in if drag_id it = item_id comp then (None, cache)
              else if \<not> validChild \<and> \<not> validSibling then (Some DROP_FORBIDDEN, cache)
              else if validChild \<and> \<not> validSibling
              then (Some (drop_as_child (dt_row_orientation tgt) (children comp \<noteq> [])), cache)
              else (case (case off of Some p \<Rightarrow> Some p | None \<Rightarrow> obj_get cache (item_id comp)) of
                      None \<Rightarrow> (None, cache)
                    | Some p \<Rightarrow>
                        (case dt_rect tgt of
                           None \<Rightarrow> (None, cache)
                         | Some r \<Rightarrow> (drop_by_mouse tgt validChild validSibling p r,
                                      obj_set (item_id comp) p cache)))))"

section \<open>From a drop to a drop result\<close>

record drag_item = drag_info +
  di_index :: int
  di_parent_id :: "string option"
  di_parent_type :: "component_type option"

text \<open>
  \<open>handleDrop\<close> on a mounted target; the result is what it hands to \<open>onDrop\<close> and returns.
  \<open>dropToChild\<close> is a flag or a predicate on the dragged item in the source, here its value on
  the item. The last part of the result is the offset cache, cleared after a drop.
\<close>

definition handleDrop ::
    "bool \<Rightarrow> drag_item \<Rightarrow> client_offset option \<Rightarrow> drop_target \<Rightarrow> int \<Rightarrow> bool \<Rightarrow> offset_cache
      \<Rightarrow> drop_result option \<times> offset_cache" where
  "handleDrop mounted it off tgt componentIndex dropToChild cache =
     (if \<not> mounted then (None, cache)
      else case getDropPosition (Some \<lparr>drag_id = drag_id it, drag_type = drag_type it,
                                       drag_meta = drag_meta it\<rparr>) off tgt cache of
             (None, cache') \<Rightarrow> (None, cache')
           | (Some DROP_FORBIDDEN, cache') \<Rightarrow> (None, cache')
           | (Some pos, cache') \<Rightarrow>
               (let comp = dt_component tgt;
                    src = \<lparr>loc_id = (case di_parent_id it of Some p \<Rightarrow> p | None \<Rightarrow> item_id comp),
                           loc_type = (case di_parent_type it of Some t \<Rightarrow> t | None \<Rightarrow> item_type comp),
                           loc_index = di_index it\<rparr>;
                    dest = (if dropToChild
                            then \<lparr>loc_id = item_id comp, loc_type = item_type comp,
                                  loc_index = int (length (children comp))\<rparr>
                            else case dt_parent tgt of
                                   None \<Rightarrow> \<lparr>loc_id = item_id comp, loc_type = item_type comp,
                                            loc_index = componentIndex\<rparr>
                                 | Some p \<Rightarrow>
                                     \<lparr>loc_id = item_id p, loc_type = item_type p,
                                      loc_index =
                                        (if di_parent_id it = Some (item_id p) \<and>
                                            di_index it < componentIndex \<and>
                                            drag_type it \<noteq> item_type comp
                                         then componentIndex - 1 else componentIndex)\<rparr>)
                in (Some \<lparr>source = src,
                          dragging = \<lparr>drag_id = drag_id it, drag_type = drag_type it,
                                      drag_meta = drag_meta it\<rparr>,
                          destination = Some dest, position = Some pos\<rparr>, clearDropCache)))"

section \<open>The width after a drop\<close>

definition num_diff :: "int option \<Rightarrow> int option \<Rightarrow> int option" where
  "num_diff a b = (case (a, b) of (Some x, Some y) \<Rightarrow> Some (x - y) | _ \<Rightarrow> None)"

text \<open>\<open>NaN\<close> is \<open>None\<close>. The component is the dragged one of the layout, which may be missing (then
  the first branch reads a property of \<open>undefined\<close>), or a new one, made for the computation only
  and named by \<open>nid\<close>.\<close>

definition fitted_width :: "int option \<Rightarrow> int option \<Rightarrow> int option \<Rightarrow> int option" where
  "fitted_width capacity draggingWidth minWidth =
     (case (capacity, draggingWidth) of
        (Some cap, Some w) \<Rightarrow>
          (if cap \<ge> w then Some w
           else case minWidth of
                  Some m \<Rightarrow> (if cap \<ge> m then Some cap else Some (-1))
                | None \<Rightarrow> Some (-1))
      | _ \<Rightarrow> draggingWidth)"

definition getComponentWidthFromDrop ::
    "(string \<Rightarrow> string) \<Rightarrow> string \<Rightarrow> drop_result \<Rightarrow> layout \<Rightarrow> int option result" where
  "getComponentWidthFromDrop tr nid dr L =
     (case destination dr of
        None \<Rightarrow> Inr None
      | Some dest \<Rightarrow>
          (let comp = (if loc_id (source dr) = NEW_COMPONENTS_SOURCE_ID
                       then Some (newComponentFactory tr nid (drag_type (dragging dr)) [])
                       else obj_get L (drag_id (dragging dr)))
           in if loc_id (source dr) = loc_id dest
              then rbind (or_throw TypeError comp) (\<lambda>c. Inr (meta_width c))
              else
                rbind (getDetailedComponentWidth comp L) (\<lambda>dw.
                rbind (width_by_id (Some (loc_id dest)) L) (\<lambda>destw.
                rbind (case num_diff (dw_width destw) (dw_occupied destw) of
                         Some cap \<Rightarrow> Inr (Some cap)
                       | None \<Rightarrow>
                           rbind (width_by_id (findParentId (loc_id dest) L) L)
                             (\<lambda>gp. Inr (num_diff (dw_width gp) (dw_occupied gp))))
                  (\<lambda>capacity. Inr (fitted_width capacity (dw_width dw) (dw_minimum dw)))))))"

definition doesChildOverflowParent ::
    "(string \<Rightarrow> string) \<Rightarrow> string \<Rightarrow> drop_result \<Rightarrow> layout \<Rightarrow> bool result" where
  "doesChildOverflowParent tr nid dr L =
     rbind (getComponentWidthFromDrop tr nid dr L)
       (\<lambda>w. Inr (case w of Some n \<Rightarrow> n < 0 | None \<Rightarrow> False))"

text \<open>\<open>width || undefined\<close>.\<close>

definition width_or_undefined :: "int option \<Rightarrow> jsval" where
  "width_or_undefined w = (case w of Some n \<Rightarrow> (if n = 0 then JUndef else JNum n) | None \<Rightarrow> JUndef)"

section \<open>Reordering children\<close>

definition reorder :: "'a list \<Rightarrow> int \<Rightarrow> int \<Rightarrow> 'a list result" where
  "reorder xs startIndex endIndex =
     (let k = splice_start (length xs) startIndex
      in if k < length xs
         then Inr (splice_insert (splice_remove xs startIndex) endIndex (xs ! k))
         else Inl UndefinedElement)"

definition set_children :: "string \<Rightarrow> string list \<Rightarrow> layout \<Rightarrow> layout" where
  "set_children k ks L =
     (case obj_get L k of None \<Rightarrow> L | Some c \<Rightarrow> obj_set k (c\<lparr>children := ks\<rparr>) L)"

text \<open>The index within one list. \<open>None\<close>: a tab dropped beside itself, nothing changes.\<close>

definition same_list_index ::
    "bool \<Rightarrow> drop_position option \<Rightarrow> int \<Rightarrow> int \<Rightarrow> int option" where
  "same_list_index isTabs pos srcIndex destIndex =
     (if isTabs then
        (let dropIndex = (if pos = Some DROP_LEFT then max destIndex 0
                          else if pos = Some DROP_RIGHT then destIndex + 1 else destIndex)
         in if (pos = Some DROP_RIGHT \<and> srcIndex = destIndex + 1) \<or>
               (pos = Some DROP_LEFT \<and> srcIndex = destIndex - 1) then None
            else Some (if dropIndex > srcIndex then dropIndex - 1 else dropIndex))
      else Some destIndex)"

definition other_list_index ::
    "bool \<Rightarrow> drop_position option \<Rightarrow> int \<Rightarrow> nat \<Rightarrow> int" where
  "other_list_index isTabs pos destIndex sourceLength =
     (if isTabs then
        (if pos = Some DROP_LEFT then max destIndex 0
         else if pos = Some DROP_RIGHT then min (destIndex + 1) (int sourceLength - 1)
         else destIndex)
      else destIndex)"

definition reorderItem ::
    "layout \<Rightarrow> location \<Rightarrow> location \<Rightarrow> drop_position option \<Rightarrow> layout result" where
  "reorderItem L src dest pos =
     rbind (or_throw TypeError (obj_get L (loc_id src))) (\<lambda>s.
     rbind (or_throw TypeError (obj_get L (loc_id dest))) (\<lambda>d.
       let isTabs = (loc_type dest = TABS_TYPE)
       in if loc_id src = loc_id dest then
            (case same_list_index isTabs pos (loc_index src) (loc_index dest) of
               None \<Rightarrow> Inr L
             | Some i \<Rightarrow> rbind (reorder (children s) (loc_index src) i)
                           (\<lambda>ks. Inr (set_children (loc_id src) ks L)))
          else
            rbind (or_throw UndefinedElement (js_nth (children s) (loc_index src))) (\<lambda>target.
              Inr (set_children (loc_id dest)
                     (splice_insert (children d)
                        (other_list_index isTabs pos (loc_index dest) (length (children s))) target)
                     (set_children (loc_id src) (splice_remove (children s) (loc_index src)) L)))))"

section \<open>The entities of a new component\<close>

text \<open>
  \<open>nid1\<close> names the new component, \<open>nid2\<close> the row around it or the first tab in it. The parents
  of the drop target are taken as they are stored.
\<close>

definition parents_below :: "layout_item \<Rightarrow> string list" where
  "parents_below c = (case parents c of None \<Rightarrow> [] | Some ps \<Rightarrow> ps) @ [item_id c]"

definition newEntitiesFromDrop ::
    "(string \<Rightarrow> string) \<Rightarrow> string \<Rightarrow> string \<Rightarrow> drop_result \<Rightarrow> layout \<Rightarrow> layout result" where
  "newEntitiesFromDrop tr nid1 nid2 dr L =
     (case destination dr of
        None \<Rightarrow> Inr []
      | Some dest \<Rightarrow>
          rbind (or_throw TypeError (obj_get L (loc_id dest))) (\<lambda>dropEntity.
          rbind (if componentIsResizable (drag_type (dragging dr))
                 then rbind (getComponentWidthFromDrop tr nid1 dr L)
                        (\<lambda>w. Inr (obj_set ''width'' (width_or_undefined w)))
                 else Inr (\<lambda>m. m)) (\<lambda>resize.
            let dragType = drag_type (dragging dr);
                base = newComponentFactory tr nid1 dragType (drag_meta (dragging dr));
                child = base\<lparr>parents := Some (parents_below dropEntity), meta := resize (meta base)\<rparr>;
                row = (newComponentFactory tr nid2 ROW_TYPE [])
                        \<lparr>children := [item_id child], parents := Some (parents_below dropEntity)\<rparr>;
                tab = (newComponentFactory tr nid2 TAB_TYPE [])
                        \<lparr>parents := Some (parents_below dropEntity)\<rparr>;
                withParent = (\<lambda>ents k. Inr (obj_set (loc_id dest)
                  (dropEntity\<lparr>children :=
                     splice_insert (children dropEntity) (loc_index dest) k\<rparr>) ents))
            in if shouldWrapChildInRow (Some (item_type dropEntity)) (Some dragType)
               then withParent
                      (obj_set (item_id row) row
                        [(item_id child, child\<lparr>parents := Some (parents_below row)\<rparr>)])
                      (item_id row)
               else if dragType = TABS_TYPE
               then withParent
                      (obj_set (item_id tab) tab
                        [(item_id child, child\<lparr>children := [item_id tab]\<rparr>)])
                      (item_id child)
               else withParent [(item_id child, child)] (item_id child))))"

end
