(* ===== verification/LayoutReducer.thy ===== *)
theory LayoutReducer
  imports LayoutDrag
begin

text \<open>
  The reducer of the dashboard layout (\<open>reducers/dashboardLayout.ts\<close>), its filter for the undo
  history (\<open>reducers/undoableDashboardLayout.ts\<close>) and the actions that dispatch to it
  (\<open>actions/dashboardLayout.ts\<close>). The recursions over components carry a fuel as in
  \<open>LayoutQueries\<close>.
\<close>

section \<open>Parents lists\<close>

fun update_parents_fuel :: "nat \<Rightarrow> layout_item \<Rightarrow> layout \<Rightarrow> layout result" where
  "update_parents_fuel 0 cur L = Inl StackOverflow"
| "update_parents_fuel (Suc n) cur L =
     (case obj_get L (item_id cur) of
        None \<Rightarrow> Inr L
      | Some _ \<Rightarrow>
          rfold (\<lambda>L childId.
                   case obj_get L childId of
                     None \<Rightarrow> Inr L
                   | Some ch \<Rightarrow>
                       (let ch' = ch\<lparr>parents := Some (parents_below cur)\<rparr>
                        in update_parents_fuel n ch' (obj_set childId ch' L)))
            L (children cur))"

definition updateComponentParentsList :: "layout_item option \<Rightarrow> layout \<Rightarrow> layout result" where
  "updateComponentParentsList cur L =
     (case cur of None \<Rightarrow> Inr L | Some c \<Rightarrow> update_parents_fuel (Suc (length L)) c L)"

section \<open>Deleting a component and what is below it\<close>

text \<open>Every nested call deletes a component first, so \<open>Suc (length L)\<close> is always enough
  (\<open>delete_fuel_enough\<close>).\<close>

fun delete_fuel :: "nat \<Rightarrow> string \<Rightarrow> string \<Rightarrow> layout \<Rightarrow> layout" where
  "delete_fuel 0 cid pid L = L"
| "delete_fuel (Suc n) cid pid L =
     (case obj_get L cid of
        None \<Rightarrow> L
      | Some c \<Rightarrow>
          (let L' = foldl (\<lambda>M k. delete_fuel n k cid M) (obj_del cid L) (children c)
           in case obj_get L' pid of
                None \<Rightarrow> L'
              | Some p \<Rightarrow>
                  (case index_of cid (children p) of
                     None \<Rightarrow> L'
                   | Some i \<Rightarrow> obj_set pid (p\<lparr>children := splice_remove (children p) (int i)\<rparr>) L')))"

definition recursivelyDeleteChildren :: "string \<Rightarrow> string \<Rightarrow> layout \<Rightarrow> layout" where
  "recursivelyDeleteChildren cid pid L = delete_fuel (Suc (length L)) cid pid L"

section \<open>The handlers\<close>

datatype layout_action =
    HYDRATE_DASHBOARD layout
  | UPDATE_COMPONENTS "layout option"
  | DELETE_COMPONENT "string option" "string option"
  | CREATE_COMPONENT "drop_result option"
  | MOVE_COMPONENT "drop_result option"
  | CREATE_TOP_LEVEL_TABS "drop_result option"
  | DELETE_TOP_LEVEL_TABS
  | UPDATE_COMPONENTS_PARENTS_LIST
  | DASHBOARD_TITLE_CHANGED jsval
  | RESIZE_COMPONENT
  | HANDLE_COMPONENT_DROP
  | OtherAction

text \<open>
  A handler returns \<open>Inr None\<close> when it returns the very state it was given: the reducer compares
  by reference.
\<close>

type_synonym handler_result = "layout option result"

definition nonempty :: "string option \<Rightarrow> bool" where
  "nonempty s = (s \<noteq> None \<and> s \<noteq> Some [])"

definition delete_component :: "string option \<Rightarrow> string option \<Rightarrow> layout \<Rightarrow> handler_result" where
  "delete_component cid parentId L =
     (case (cid, parentId) of
        (Some i, Some p) \<Rightarrow>
          (if i = [] \<or> p = [] \<or> obj_get L i = None \<or> obj_get L p = None then Inr None
           else (let M = recursivelyDeleteChildren i p L
                 in case obj_get M p of
                      None \<Rightarrow> Inr (Some M)
                    | Some nextParent \<Rightarrow>
                        (if item_type nextParent = ROW_TYPE \<and> children nextParent = []
                         then (case findParentId p M of
                                 None \<Rightarrow> Inr (Some M)
                               | Some g \<Rightarrow> (if g = [] then Inr (Some M)
                                            else Inr (Some (recursivelyDeleteChildren p g M))))
                         else Inr (Some M))))
      | _ \<Rightarrow> Inr None)"

definition create_component ::
    "(string \<Rightarrow> string) \<Rightarrow> string \<Rightarrow> string \<Rightarrow> drop_result option \<Rightarrow> layout \<Rightarrow> handler_result" where
  "create_component tr nid1 nid2 dr L =
     (case dr of
        None \<Rightarrow> Inl TypeError
      | Some d \<Rightarrow> rbind (newEntitiesFromDrop tr nid1 nid2 d L) (\<lambda>ents. Inr (Some (obj_spread L ents))))"

text \<open>The two parts of \<open>MOVE_COMPONENT\<close> after the reordering: the new width, and the row around a
  chart, column or markdown component moved to the grid or to a tab.\<close>

definition move_resize ::
    "(string \<Rightarrow> string) \<Rightarrow> string \<Rightarrow> drop_result \<Rightarrow> layout \<Rightarrow> layout \<Rightarrow> layout result" where
  "move_resize tr nid dr L N =
     rbind (or_throw TypeError (obj_get N (drag_id (dragging dr)))) (\<lambda>c.
       if componentIsResizable (item_type c)
       then rbind (getComponentWidthFromDrop tr nid dr L) (\<lambda>w.
              let nextWidth = width_or_undefined w
              in Inr (if jget (meta c) ''width'' \<noteq> nextWidth
                      then obj_set (drag_id (dragging dr))
                             (c\<lparr>meta := obj_set ''width'' nextWidth (meta c)\<rparr>) N
                      else N))
       else Inr N)"

definition move_wrap ::
    "(string \<Rightarrow> string) \<Rightarrow> string \<Rightarrow> drop_result \<Rightarrow> location \<Rightarrow> layout \<Rightarrow> layout result" where
  "move_wrap tr nid dr dest N =
     (if shouldWrapChildInRow (Some (loc_type dest)) (Some (drag_type (dragging dr)))
      then rbind (or_throw TypeError (obj_get N (loc_id dest))) (\<lambda>d.
             rbind (or_throw UndefinedElement (js_nth (children d) (loc_index dest))) (\<lambda>k.
               let row = (newComponentFactory tr nid ROW_TYPE [])
                     \<lparr>children := [k],
                      parents := Some ((case parents d of None \<Rightarrow> [] | Some ps \<Rightarrow> ps) @ [loc_id dest])\<rparr>
               in Inr (obj_set (item_id row) row
                    (obj_set (loc_id dest)
                       (d\<lparr>children := (children d)[nat (loc_index dest) := item_id row]\<rparr>) N))))
      else Inr N)"

definition move_component ::
    "(string \<Rightarrow> string) \<Rightarrow> string \<Rightarrow> drop_result option \<Rightarrow> layout \<Rightarrow> handler_result" where
  "move_component tr nid dres L =
     (case dres of
        None \<Rightarrow> Inr None
      | Some dr \<Rightarrow>
          (case destination dr of
             None \<Rightarrow> Inr None
           | Some dest \<Rightarrow>
               rbind (reorderItem L (source dr) dest (position dr)) (\<lambda>N.
               rbind (move_resize tr nid dr L N) (\<lambda>N'.
               rbind (move_wrap tr nid dr dest N') (\<lambda>N''.
                 Inr (Some (obj_spread L N'')))))))"

text \<open>The root and the component at the top of the page; the latter may be missing.\<close>

definition top_level :: "layout \<Rightarrow> (layout_item \<times> string \<times> layout_item) result" where
  "top_level L =
     rbind (or_throw TypeError (obj_get L DASHBOARD_ROOT_ID)) (\<lambda>root.
       case children root of
         [] \<Rightarrow> Inl TypeError
       | k # _ \<Rightarrow> rbind (or_throw TypeError (obj_get L k)) (\<lambda>c. Inr (root, k, c)))"

definition find_entry :: "component_type \<Rightarrow> layout \<Rightarrow> (string \<times> layout_item) option" where
  "find_entry t ents = List.find (\<lambda>(k, c). item_type c = t) ents"

definition create_top_level_tabs ::
    "(string \<Rightarrow> string) \<Rightarrow> string \<Rightarrow> string \<Rightarrow> drop_result option \<Rightarrow> layout \<Rightarrow> handler_result" where
  "create_top_level_tabs tr nid1 nid2 dres L =
     (case dres of
        None \<Rightarrow> Inr None
      | Some dr \<Rightarrow>
          rbind (or_throw TypeError (obj_get L DASHBOARD_ROOT_ID)) (\<lambda>root.
          if loc_id (source dr) \<noteq> NEW_COMPONENTS_SOURCE_ID then
            rbind (or_throw TypeError (obj_get L (drag_id (dragging dr)))) (\<lambda>draggingTabs.
            rbind (top_level L) (\<lambda>(_, topLevelId, topLevelComponent).
            case children draggingTabs of
              [] \<Rightarrow> Inl TypeError
            | draggingTabId # _ \<Rightarrow>
                rbind (or_throw TypeError (obj_get L draggingTabId)) (\<lambda>draggingTab.
                  Inr (Some
                    (obj_set draggingTabId
                      (draggingTab\<lparr>children := children draggingTab @
                         filter (\<lambda>i. i \<noteq> drag_id (dragging dr)) (children topLevelComponent)\<rparr>)
                    (obj_set topLevelId (topLevelComponent\<lparr>children := []\<rparr>)
                    (obj_set DASHBOARD_ROOT_ID (root\<lparr>children := [drag_id (dragging dr)]\<rparr>) L)))))))
          else
            rbind (newEntitiesFromDrop tr nid1 nid2 dr L) (\<lambda>ents.
              case (find_entry TAB_TYPE ents, find_entry TABS_TYPE ents) of
                (Some (tabKey, tab), Some (tabsKey, tabs)) \<Rightarrow>
                  rbind (top_level L) (\<lambda>(_, topLevelId, topLevelComponent).
                    Inr (Some (obj_spread L
                      (obj_set DASHBOARD_ROOT_ID (root\<lparr>children := [item_id tabs]\<rparr>)
                      (obj_set topLevelId (topLevelComponent\<lparr>children := []\<rparr>)
                      (obj_set tabKey (tab\<lparr>children := children topLevelComponent\<rparr>) ents))))))
              | _ \<Rightarrow> Inr (Some (obj_spread L ents)))))"

definition delete_top_level_tabs :: "layout \<Rightarrow> handler_result" where
  "delete_top_level_tabs L =
     rbind (top_level L) (\<lambda>(root, topLevelId, topLevelTabs).
       if item_type topLevelTabs \<noteq> TABS_TYPE then Inr None
       else
         rbind (rmap (\<lambda>tabId. rbind (or_throw TypeError (obj_get L tabId)) (\<lambda>tab. Inr (children tab)))
                  (children topLevelTabs)) (\<lambda>childrenToMove.
         rbind (or_throw UndefinedElement (obj_get L DASHBOARD_GRID_ID)) (\<lambda>grid.
           Inr (Some
             (obj_set DASHBOARD_GRID_ID (grid\<lparr>children := concat childrenToMove\<rparr>)
             (obj_set DASHBOARD_ROOT_ID (root\<lparr>children := [DASHBOARD_GRID_ID]\<rparr>)
             (obj_del topLevelId
             (foldl (\<lambda>M k. obj_del k M) L (children topLevelTabs)))))))))"

definition title_changed :: "jsval \<Rightarrow> layout \<Rightarrow> handler_result" where
  "title_changed txt L =
     rbind (or_throw TypeError (obj_get L DASHBOARD_HEADER_ID)) (\<lambda>h.
       Inr (Some (obj_set DASHBOARD_HEADER_ID (h\<lparr>meta := obj_set ''text'' txt (meta h)\<rparr>) L)))"

fun layout_handler ::
    "(string \<Rightarrow> string) \<Rightarrow> string \<Rightarrow> string \<Rightarrow> layout_action \<Rightarrow> layout \<Rightarrow> handler_result" where
  "layout_handler tr n1 n2 (HYDRATE_DASHBOARD new) L = Inr (Some (obj_spread [] new))"
| "layout_handler tr n1 n2 (UPDATE_COMPONENTS next) L =
     Inr (Some (obj_spread L (case next of None \<Rightarrow> [] | Some cs \<Rightarrow> cs)))"
| "layout_handler tr n1 n2 (DELETE_COMPONENT i p) L = delete_component i p L"
| "layout_handler tr n1 n2 (CREATE_COMPONENT dr) L = create_component tr n1 n2 dr L"
| "layout_handler tr n1 n2 (MOVE_COMPONENT dr) L = move_component tr n1 dr L"
| "layout_handler tr n1 n2 (CREATE_TOP_LEVEL_TABS dr) L = create_top_level_tabs tr n1 n2 dr L"
| "layout_handler tr n1 n2 DELETE_TOP_LEVEL_TABS L = delete_top_level_tabs L"
| "layout_handler tr n1 n2 UPDATE_COMPONENTS_PARENTS_LIST L =
     rbind (updateComponentParentsList (obj_get L DASHBOARD_ROOT_ID) L) (\<lambda>M. Inr (Some M))"
| "layout_handler tr n1 n2 (DASHBOARD_TITLE_CHANGED txt) L = title_changed txt L"
| "layout_handler tr n1 n2 RESIZE_COMPONENT L = Inr None"
| "layout_handler tr n1 n2 HANDLE_COMPONENT_DROP L = Inr None"
| "layout_handler tr n1 n2 OtherAction L = Inr None"

definition layoutReducer ::
    "(string \<Rightarrow> string) \<Rightarrow> string \<Rightarrow> string \<Rightarrow> layout_action \<Rightarrow> layout \<Rightarrow> layout result" where
  "layoutReducer tr n1 n2 act L =
     rbind (layout_handler tr n1 n2 act L) (\<lambda>r.
       case r of
         None \<Rightarrow> Inr L
       | Some N \<Rightarrow> updateComponentParentsList (obj_get N DASHBOARD_ROOT_ID) N)"

section \<open>The filter before the undo history\<close>

fun tracked :: "layout_action \<Rightarrow> bool" where
  "tracked UPDATE_COMPONENTS_PARENTS_LIST = False"
| "tracked (DASHBOARD_TITLE_CHANGED _) = False"
| "tracked OtherAction = False"
| "tracked _ = True"

definition layoutOnlyReducer ::
    "(string \<Rightarrow> string) \<Rightarrow> string \<Rightarrow> string \<Rightarrow> layout_action \<Rightarrow> layout \<Rightarrow> layout result" where
  "layoutOnlyReducer tr n1 n2 act L =
     (if \<not> tracked act then Inr L else layoutReducer tr n1 n2 act L)"

section \<open>Actions\<close>

text \<open>
  What the actions touch: the present layout, the flag of unsaved changes, the components handed
  to the filter module by \<open>updateLayoutComponents\<close>, and the warnings shown.
\<close>

record dash =
  present :: layout
  unsaved :: bool
  filter_components :: layout
  toasts :: "string list"

definition setUnsavedChangesAfterAction ::
    "(string \<Rightarrow> string) \<Rightarrow> string \<Rightarrow> string \<Rightarrow> layout_action \<Rightarrow> dash \<Rightarrow> dash result" where
  "setUnsavedChangesAfterAction tr n1 n2 act d =
     rbind (layoutOnlyReducer tr n1 n2 act (present d)) (\<lambda>L.
       let componentLevel = (case act of UPDATE_COMPONENTS (Some _) \<Rightarrow> True | _ \<Rightarrow> False)
       in Inr (d\<lparr>present := L,
                filter_components := (if componentLevel then filter_components d else L),
                unsaved := True\<rparr>))"

definition updateDashboardTitle ::
    "(string \<Rightarrow> string) \<Rightarrow> string \<Rightarrow> dash \<Rightarrow> dash result" where
  "updateDashboardTitle tr txt d =
     (case obj_get (present d) DASHBOARD_HEADER_ID of
        None \<Rightarrow> Inl UndefinedElement
      | Some h \<Rightarrow>
          setUnsavedChangesAfterAction tr [] []
            (UPDATE_COMPONENTS (Some
               [(DASHBOARD_HEADER_ID, h\<lparr>meta := obj_set ''text'' (JStr txt) (meta h)\<rparr>)])) d)"

text \<open>\<open>width && ...\<close>: a width of 0 or no width changes nothing.\<close>

definition size_changed :: "int option \<Rightarrow> jsval \<Rightarrow> bool" where
  "size_changed w old = (case w of Some n \<Rightarrow> n \<noteq> 0 \<and> old \<noteq> JNum n | None \<Rightarrow> False)"

definition size_or :: "int option \<Rightarrow> jsval \<Rightarrow> jsval" where
  "size_or w old = (case w of Some n \<Rightarrow> if n = 0 then old else JNum n | None \<Rightarrow> old)"

definition resizeComponent ::
    "(string \<Rightarrow> string) \<Rightarrow> string \<Rightarrow> int option \<Rightarrow> int option \<Rightarrow> dash \<Rightarrow> dash result" where
  "resizeComponent tr cid width height d =
     (case obj_get (present d) cid of
        None \<Rightarrow> (if num_or width 0 \<noteq> 0 \<or> num_or height 0 \<noteq> 0 then Inl TypeError else Inr d)
      | Some c \<Rightarrow>
          (if size_changed width (jget (meta c) ''width'') \<or>
              size_changed height (jget (meta c) ''height'')
           then setUnsavedChangesAfterAction tr [] []
                  (UPDATE_COMPONENTS (Some
                     [(cid, c\<lparr>meta := obj_set ''height'' (size_or height (jget (meta c) ''height''))
                               (obj_set ''width'' (size_or width (jget (meta c) ''width'')) (meta c))\<rparr>)])) d
           else Inr d))"

text \<open>\<open>isInDifferentFilterScopes\<close>: the scopes of all filters in one list.\<close>

definition isInDifferentFilterScopes ::
    "(string, (string, string list) obj) obj \<Rightarrow> string list \<Rightarrow> string list \<Rightarrow> bool" where
  "isInDifferentFilterScopes dashboardFilters src dest =
     (let allScopes = concat (map (\<lambda>scopes. concat (obj_values scopes)) (obj_values dashboardFilters))
      in \<exists>tab \<in> set allScopes. (tab \<in> set dest) \<noteq> (tab \<in> set src))"

definition add_toast :: "string \<Rightarrow> dash \<Rightarrow> dash" where
  "add_toast msg d = d\<lparr>toasts := toasts d @ [msg]\<rparr>"

definition NOT_ENOUGH_SPACE :: string where
  "NOT_ENOUGH_SPACE = ''There is not enough space for this component. Try decreasing its width, or increasing the destination width.''"
definition TOP_LEVEL_INTO_NESTED :: string where
  "TOP_LEVEL_INTO_NESTED = ''Can not move top level tab into nested tabs''"
definition DIFFERENT_SCOPE :: string where
  "DIFFERENT_SCOPE = ''This chart has been moved to a different filter scope.''"

text \<open>
  The second half of \<open>handleComponentDrop\<close>, for a component that was on the dashboard before: an
  emptied tabs or row source is deleted, and a move to other filter scopes is reported.
\<close>

definition after_drop ::
    "(string \<Rightarrow> string) \<Rightarrow> (string, (string, string list) obj) obj \<Rightarrow> drop_result \<Rightarrow> dash \<Rightarrow> dash result" where
  "after_drop tr filters dr d =
     (let L = present d; srcId = loc_id (source dr);
          srcComp = obj_get L srcId;
          destComp = (case destination dr of None \<Rightarrow> None | Some l \<Rightarrow> obj_get L (loc_id l));
          pars = (\<lambda>c. case c of None \<Rightarrow> [] | Some x \<Rightarrow> (case parents x of None \<Rightarrow> [] | Some ps \<Rightarrow> ps));
          emptied = (case srcComp of
                       None \<Rightarrow> False
                     | Some s \<Rightarrow> item_type s \<in> {TABS_TYPE, ROW_TYPE} \<and> children s = [])
      in rbind (if emptied
                then setUnsavedChangesAfterAction tr [] []
                       (DELETE_COMPONENT (Some srcId) (findParentId srcId L)) d
                else Inr d) (\<lambda>d'.
         Inr (case destination dr of
                None \<Rightarrow> d'
              | Some dest \<Rightarrow>
                  (if isInDifferentFilterScopes filters (pars srcComp @ [srcId])
                        (pars destComp @ [loc_id dest])
                   then add_toast (tr DIFFERENT_SCOPE) d' else d'))))"

definition handleComponentDrop ::
    "(string \<Rightarrow> string) \<Rightarrow> string \<Rightarrow> string \<Rightarrow> (string, (string, string list) obj) obj \<Rightarrow> drop_result
      \<Rightarrow> dash \<Rightarrow> dash result" where
  "handleComponentDrop tr n1 n2 filters dr d =
     rbind (doesChildOverflowParent tr n1 dr (present d)) (\<lambda>overflows.
     if overflows then Inr (add_toast (tr NOT_ENOUGH_SPACE) d)
     else
       (let src = source dr;
            isNew = (loc_id src = NEW_COMPONENTS_SOURCE_ID);
            rootChildId = (case obj_get (present d) DASHBOARD_ROOT_ID of
                             None \<Rightarrow> Some []
                           | Some r \<Rightarrow> (case children r of [] \<Rightarrow> None | k # _ \<Rightarrow> Some k));
            rest = (\<lambda>d'. if isNew then Inr d' else after_drop tr filters dr d')
        in case destination dr of
             None \<Rightarrow> rest d
           | Some dest \<Rightarrow>
               (if loc_id dest = DASHBOARD_ROOT_ID
                then rbind (setUnsavedChangesAfterAction tr n1 n2 (CREATE_TOP_LEVEL_TABS (Some dr)) d) rest
                else if isNew
                then rbind (setUnsavedChangesAfterAction tr n1 n2 (CREATE_COMPONENT (Some dr)) d) rest
                else if loc_type src = TABS_TYPE \<and> loc_type dest = TABS_TYPE \<and>
                        Some (loc_id src) = rootChildId \<and> Some (loc_id dest) \<noteq> rootChildId
                then Inr (add_toast (tr TOP_LEVEL_INTO_NESTED) d)
                else if \<not> (loc_id dest = loc_id src \<and> loc_index dest = loc_index src)
                then rbind (setUnsavedChangesAfterAction tr n1 n2 (MOVE_COMPONENT (Some dr)) d) rest
                else rest d)))"

end
