(* ===== verification/LayoutTree.thy ===== *)
theory LayoutTree
  imports LayoutReducer
begin

text \<open>
  The abstract view of a layout: a tree of ids. \<open>rep L t\<close> says that the components of \<open>L\<close> reached
  from the root of \<open>t\<close> form the tree \<open>t\<close>; \<open>wf_tree L t\<close> that the whole layout is that tree,
  rooted at the dashboard root, and components that contain nothing. The recursions of the reducer
  are shown equal to operations on the tree.
\<close>

datatype ltree = LNode (lid: string) (kids: "ltree list")

fun subtrees :: "ltree \<Rightarrow> ltree list" where
  "subtrees (LNode i ts) = LNode i ts # concat (map subtrees ts)"

fun tree_ids :: "ltree \<Rightarrow> string list" where
  "tree_ids (LNode i ts) = i # concat (map tree_ids ts)"

fun tree_edges :: "ltree \<Rightarrow> (string \<times> string) list" where
  "tree_edges (LNode i ts) = map (\<lambda>t. (i, lid t)) ts @ concat (map tree_edges ts)"

fun height :: "ltree \<Rightarrow> nat" where
  "height (LNode i ts) = Suc (foldr max (map height ts) 0)"

text \<open>Every id with the path from the root to it.\<close>

fun tree_paths :: "string list \<Rightarrow> ltree \<Rightarrow> (string \<times> string list) list" where
  "tree_paths ps (LNode i ts) = (i, ps) # concat (map (tree_paths (ps @ [i])) ts)"

fun rep :: "layout \<Rightarrow> ltree \<Rightarrow> bool" where
  "rep L (LNode i ts) =
     (case obj_get L i of
        None \<Rightarrow> False
      | Some c \<Rightarrow> item_id c = i \<and> children c = map lid ts \<and> (\<forall>t \<in> set ts. rep L t))"

definition wf_tree :: "layout \<Rightarrow> ltree \<Rightarrow> bool" where
  "wf_tree L t =
     (obj_ok L \<and> rep L t \<and> distinct (tree_ids t) \<and> lid t = DASHBOARD_ROOT_ID \<and>
      (\<forall>(k, c) \<in> set L. item_id c = k \<and> (k \<notin> set (tree_ids t) \<longrightarrow> children c = [])))"

text \<open>Replace the subtree that has the root of \<open>u\<close> by \<open>u\<close>.\<close>

fun tree_put :: "ltree \<Rightarrow> ltree \<Rightarrow> ltree" where
  "tree_put u (LNode i ts) = (if i = lid u then u else LNode i (map (tree_put u) ts))"

text \<open>What \<open>updateComponentParentsList\<close> does, without the recursion: every listed component gets
  the listed parents.\<close>

definition put_parents :: "string \<Rightarrow> string list \<Rightarrow> layout \<Rightarrow> layout" where
  "put_parents k ps L =
     (case obj_get L k of None \<Rightarrow> L | Some c \<Rightarrow> obj_set k (c\<lparr>parents := Some ps\<rparr>) L)"

definition apply_paths :: "(string \<times> string list) list \<Rightarrow> layout \<Rightarrow> layout" where
  "apply_paths xs L = foldl (\<lambda>M (k, ps). put_parents k ps M) L xs"

definition same_shape :: "layout_item \<Rightarrow> layout_item \<Rightarrow> bool" where
  "same_shape c d \<longleftrightarrow> item_id c = item_id d \<and> children c = children d"

section \<open>Trees\<close>

lemma lid_tree_put [simp]: "lid (tree_put u t) = lid t"
  by (cases t) simp

lemma lid_in_tree_ids [simp]: "lid t \<in> set (tree_ids t)"
  by (cases t) simp

lemma self_in_subtrees [simp]: "t \<in> set (subtrees t)"
  by (cases t) simp

lemma map_lid_subtrees: "map lid (subtrees t) = tree_ids t"
proof (induction t)
  case (LNode i ts)
  then have "map (map lid) (map subtrees ts) = map tree_ids ts" by simp
  then show ?case by (simp only: subtrees.simps tree_ids.simps list.map map_concat ltree.sel)
qed

lemma tree_ids_mem: "x \<in> set (tree_ids t) \<longleftrightarrow> (\<exists>s \<in> set (subtrees t). lid s = x)"
  by (metis map_lid_subtrees image_iff set_map)

lemma mset_tree_edges: "add_mset (lid t) (mset (map snd (tree_edges t))) = mset (tree_ids t)"
proof (induction t)
  case (LNode i ts)
  have "mset (map lid ts) + mset (map snd (concat (map tree_edges ts)))
      = mset (concat (map tree_ids ts))"
    using LNode.IH
  proof (induction ts)
    case (Cons t ts)
    have a: "mset (tree_ids t) = add_mset (lid t) (mset (map snd (tree_edges t)))"
      using Cons.prems by simp
    have b: "mset (concat (map tree_ids ts)) =
        mset (map lid ts) + mset (map snd (concat (map tree_edges ts)))"
      using Cons.prems by (intro Cons.IH [symmetric]) simp
    show ?case
      by (simp only: list.map concat.simps map_append mset_append mset.simps a b)
         (simp only: union_mset_add_mset_left union_mset_add_mset_right ac_simps)
  qed simp
  then show ?case by (simp add: comp_def)
qed

lemma distinct_edges:
  assumes "distinct (tree_ids t)"
  shows "distinct (map snd (tree_edges t)) \<and> lid t \<notin> snd ` set (tree_edges t)"
proof -
  have "mset (lid t # map snd (tree_edges t)) = mset (tree_ids t)"
    using mset_tree_edges by simp
  then have "distinct (lid t # map snd (tree_edges t))"
    using assms mset_eq_imp_distinct_iff by blast
  then show ?thesis by simp
qed

lemma set_tree_edges: "snd ` set (tree_edges t) \<subseteq> set (tree_ids t)"
proof -
  have "set (lid t # map snd (tree_edges t)) = set (tree_ids t)"
    using mset_tree_edges [of t] by (metis mset.simps(2) mset_eq_setD)
  then show ?thesis by auto
qed

lemma fst_tree_edges: "(p, x) \<in> set (tree_edges t) \<Longrightarrow> p \<in> set (tree_ids t)"
  by (induction t) auto

lemma edge_subtree:
  "(p, x) \<in> set (tree_edges t) \<longleftrightarrow>
     (\<exists>s \<in> set (subtrees t). lid s = p \<and> x \<in> lid ` set (kids s))"
  by (induction t) auto

lemma edge_child_subtree:
  "(p, x) \<in> set (tree_edges t) \<Longrightarrow> \<exists>s \<in> set (subtrees t). lid s = x"
  using set_tree_edges tree_ids_mem by (metis image_eqI snd_conv subsetD)

lemma subtree_ids_subset: "s \<in> set (subtrees t) \<Longrightarrow> set (tree_ids s) \<subseteq> set (tree_ids t)"
  by (induction t) auto

lemma distinct_concat_map:
  "distinct (concat (map f ts)) \<Longrightarrow> t \<in> set ts \<Longrightarrow> distinct (f t)"
  by (induction ts) auto

lemma distinct_concat_disjoint:
  "distinct (concat (map f ts)) \<Longrightarrow> t \<in> set ts \<Longrightarrow> r \<in> set ts \<Longrightarrow> t \<noteq> r \<Longrightarrow>
     set (f t) \<inter> set (f r) = {}"
  by (induction ts) fastforce+

lemma subtree_distinct:
  "distinct (tree_ids t) \<Longrightarrow> s \<in> set (subtrees t) \<Longrightarrow> distinct (tree_ids s)"
  by (induction t) (auto dest: distinct_concat_map)

lemma height_le_length: "height t \<le> length (tree_ids t)"
proof (induction t)
  case (LNode i ts)
  then have "foldr max (map height ts) 0 \<le> length (concat (map tree_ids ts))"
  proof (induction ts)
    case (Cons t ts)
    then have "height t \<le> length (tree_ids t)"
      and "foldr max (map height ts) 0 \<le> length (concat (map tree_ids ts))" by auto
    then show ?case by simp
  qed simp
  then show ?case by simp
qed

lemma height_kid: "t \<in> set ts \<Longrightarrow> height t \<le> foldr max (map height ts) 0"
  by (induction ts) auto

lemma map_fst_tree_paths: "map fst (tree_paths ps t) = tree_ids t"
proof (induction t arbitrary: ps)
  case (LNode i ts)
  then have "map (map fst) (map (tree_paths (ps @ [i])) ts) = map tree_ids ts" by simp
  then show ?case by (simp only: tree_paths.simps tree_ids.simps list.map map_concat fst_conv)
qed

lemma tree_paths_Cons: "tree_paths ps t = (lid t, ps) # tl (tree_paths ps t)"
  by (cases t) simp

lemma tree_put_id: "lid u \<notin> set (tree_ids t) \<Longrightarrow> tree_put u t = t"
proof (induction t)
  case (LNode i ts)
  then have "map (tree_put u) ts = map (\<lambda>t. t) ts"
    by (intro map_cong) auto
  with LNode.prems show ?case by auto
qed

lemma subtree_unique:
  assumes "distinct (tree_ids t)" and "s \<in> set (subtrees t)" "s' \<in> set (subtrees t)" and "lid s = lid s'"
  shows "s = s'"
proof -
  have "distinct (map lid (subtrees t))" using assms(1) by (simp add: map_lid_subtrees)
  then have "inj_on lid (set (subtrees t))" by (simp add: distinct_map)
  with assms(2-4) show ?thesis by (blast dest: inj_onD)
qed

lemma subtree_root:
  "distinct (tree_ids t) \<Longrightarrow> s \<in> set (subtrees t) \<Longrightarrow> lid s = lid t \<Longrightarrow> s = t"
  using subtree_unique self_in_subtrees by blast

text \<open>The ids of a tree with one subtree replaced.\<close>

lemma tree_put_ids:
  assumes "distinct (tree_ids t)" and "s \<in> set (subtrees t)" and "lid s = lid u"
  shows "mset (tree_ids (tree_put u t)) + mset (tree_ids s) = mset (tree_ids t) + mset (tree_ids u)"
  using assms
proof (induction t)
  case (LNode i ts)
  show ?case
  proof (cases "i = lid u")
    case True
    with LNode.prems have "s = LNode i ts" using subtree_root by (metis ltree.sel(1))
    with True show ?thesis by simp
  next
    case False
    with LNode.prems obtain r where r: "r \<in> set ts" "s \<in> set (subtrees r)" by auto
    then obtain us vs where ts: "ts = us @ r # vs" by (meson split_list)
    have lu: "lid u \<in> set (tree_ids r)" using r(2) LNode.prems(3) tree_ids_mem by metis
    with LNode.prems(1) have "\<forall>t \<in> set us \<union> set vs. lid u \<notin> set (tree_ids t)"
      by (auto simp: ts)
    then have "map (tree_put u) us = us" "map (tree_put u) vs = vs"
      by (simp_all add: tree_put_id map_idI)
    moreover have "distinct (tree_ids r)" using LNode.prems(1) ts by simp
    ultimately show ?thesis
      using False LNode.IH [OF r(1) _ r(2) LNode.prems(3)] by (simp add: ts ac_simps)
  qed
qed

lemma subtrees_trans: "s \<in> set (subtrees t) \<Longrightarrow> r \<in> set (subtrees s) \<Longrightarrow> r \<in> set (subtrees t)"
  by (induction t) auto

lemma kid_subtree: "r \<in> set (kids s) \<Longrightarrow> r \<in> set (subtrees s)"
  by (cases s) (auto intro: bexI self_in_subtrees)

lemma kid_length: "r \<in> set (kids s) \<Longrightarrow> length (tree_ids r) < length (tree_ids s)"
  by (cases s) (auto dest!: split_list)

lemma subtree_length: "s \<in> set (subtrees t) \<Longrightarrow> length (tree_ids s) \<le> length (tree_ids t)"
proof (induction t)
  case (LNode i ts)
  show ?case
  proof (cases "s = LNode i ts")
    case False
    with LNode.prems obtain r where r: "r \<in> set ts" "s \<in> set (subtrees r)" by auto
    with LNode.IH have "length (tree_ids s) \<le> length (tree_ids r)" by blast
    also have "\<dots> < length (tree_ids (LNode i ts))" using r(1) by (intro kid_length) simp
    finally show ?thesis by simp
  qed simp
qed

lemma child_not_below:
  assumes "distinct (tree_ids t)" and "u \<in> set (subtrees t)" and "s \<in> set (kids u)"
  shows "lid u \<notin> set (tree_ids s)"
proof
  assume "lid u \<in> set (tree_ids s)"
  then obtain u' where u': "u' \<in> set (subtrees s)" "lid u' = lid u" by (auto simp: tree_ids_mem)
  moreover have "s \<in> set (subtrees t)" using assms(2,3) kid_subtree subtrees_trans by blast
  ultimately have "u' = u" using assms(1,2) subtree_unique subtrees_trans by blast
  with u'(1) have "length (tree_ids u) \<le> length (tree_ids s)" using subtree_length by blast
  with kid_length [OF assms(3)] show False by simp
qed

section \<open>Layouts that represent a tree\<close>

lemma rep_cong:
  assumes "rep L t"
    and "\<And>i c. i \<in> set (tree_ids t) \<Longrightarrow> obj_get L i = Some c \<Longrightarrow>
           \<exists>d. obj_get M i = Some d \<and> same_shape c d"
  shows "rep M t"
  using assms
proof (induction t)
  case (LNode i ts)
  from LNode.prems(1) obtain c where c: "obj_get L i = Some c" "item_id c = i"
      "children c = map lid ts" "\<forall>t \<in> set ts. rep L t"
    by (auto split: option.splits)
  with LNode.prems(2) [of i c] obtain d where d: "obj_get M i = Some d" "item_id d = i"
      "children d = map lid ts"
    by (auto simp: same_shape_def)
  have "rep M t" if t: "t \<in> set ts" for t
  proof (rule LNode.IH [OF t])
    show "rep L t" using t c(4) by blast
    fix j e assume "j \<in> set (tree_ids t)" "obj_get L j = Some e"
    with t show "\<exists>d. obj_get M j = Some d \<and> same_shape e d"
      by (intro LNode.prems(2)) auto
  qed
  with d show ?case by simp
qed

lemma rep_get: "rep L t \<Longrightarrow> \<exists>c. obj_get L (lid t) = Some c \<and> item_id c = lid t \<and> children c = map lid (kids t)"
  by (cases t) (auto split: option.splits)

lemma rep_subtree: "rep L t \<Longrightarrow> s \<in> set (subtrees t) \<Longrightarrow> rep L s"
  by (induction t) (auto split: option.splits)

lemma rep_ids: "rep L t \<Longrightarrow> i \<in> set (tree_ids t) \<Longrightarrow> obj_get L i \<noteq> None"
  by (metis rep_get rep_subtree tree_ids_mem option.distinct(1))

lemma rep_edge:
  assumes "rep L t" and "distinct (tree_ids t)" and "obj_get L p = Some c" and "p \<in> set (tree_ids t)"
  shows "x \<in> set (children c) \<longleftrightarrow> (p, x) \<in> set (tree_edges t)"
proof
  assume x: "x \<in> set (children c)"
  from assms(4) obtain s where s: "s \<in> set (subtrees t)" "lid s = p"
    by (auto simp: tree_ids_mem)
  with assms(1,3) have "children c = map lid (kids s)"
    using rep_get [OF rep_subtree [OF assms(1) s(1)]] by auto
  with s x show "(p, x) \<in> set (tree_edges t)"
    by (auto simp: edge_subtree)
next
  assume "(p, x) \<in> set (tree_edges t)"
  then obtain s where s: "s \<in> set (subtrees t)" "lid s = p" "x \<in> lid ` set (kids s)"
    by (auto simp: edge_subtree)
  with assms(3) have "children c = map lid (kids s)"
    using rep_get [OF rep_subtree [OF assms(1) s(1)]] by auto
  with s(3) show "x \<in> set (children c)" by simp
qed

lemma unique_parent_edge:
  assumes "distinct (tree_ids t)" "(p, x) \<in> set (tree_edges t)" "(q, x) \<in> set (tree_edges t)"
  shows "p = q"
proof -
  have "inj_on snd (set (tree_edges t))"
    using distinct_edges [OF assms(1)] by (simp add: distinct_map)
  from inj_onD [OF this _ assms(2,3)] show ?thesis by simp
qed

lemma no_self_edge: "distinct (tree_ids t) \<Longrightarrow> (p, p) \<notin> set (tree_edges t)"
proof (induction t)
  case (LNode i ts)
  have "lid t \<noteq> i" if "t \<in> set ts" for t
    using LNode.prems that by (auto intro: lid_in_tree_ids)
  moreover have "(p, p) \<notin> set (tree_edges t)" if "t \<in> set ts" for t
    using LNode.IH [OF that] LNode.prems distinct_concat_map [of tree_ids ts] that by simp
  ultimately show ?case by auto
qed

lemma rep_length: "rep L t \<Longrightarrow> distinct (tree_ids t) \<Longrightarrow> length (tree_ids t) \<le> length L"
proof -
  assume r: "rep L t" and d: "distinct (tree_ids t)"
  have "set (tree_ids t) \<subseteq> set (map fst L)"
    using rep_ids [OF r] by (auto simp: map_of_eq_None_iff)
  then have "card (set (tree_ids t)) \<le> card (set (map fst L))"
    by (rule card_mono [OF finite_set])
  also have "\<dots> \<le> length (map fst L)" by (rule card_length)
  finally show ?thesis using d by (simp add: distinct_card)
qed

lemma rep_frame:
  assumes "rep L t" and "\<And>k. k \<in> set (tree_ids t) \<Longrightarrow> obj_get M k = obj_get L k"
  shows "rep M t"
  by (rule rep_cong [OF assms(1)]) (simp add: assms(2) same_shape_def)

lemma rep_tree_put:
  assumes "rep L t" and "distinct (tree_ids t)" and "s \<in> set (subtrees t)" and "lid s = lid u"
    and "rep M u"
    and "\<And>k. k \<in> set (tree_ids t) \<Longrightarrow> k \<notin> set (tree_ids s) \<Longrightarrow>
           rel_option same_shape (obj_get L k) (obj_get M k)"
  shows "rep M (tree_put u t)"
  using assms(1-3,6)
proof (induction t)
  case (LNode i ts)
  show ?case
  proof (cases "i = lid u")
    case True
    then show ?thesis using assms(5) by simp
  next
    case False
    with LNode.prems assms(4) obtain r where r: "r \<in> set ts" "s \<in> set (subtrees r)" by auto
    from LNode.prems(1) obtain c where c: "obj_get L i = Some c" "item_id c = i"
      "children c = map lid ts" "\<forall>t \<in> set ts. rep L t"
      by (auto split: option.splits)
    have "i \<notin> set (tree_ids s)"
      using LNode.prems(2) r subtree_ids_subset by fastforce
    with LNode.prems(4) [of i] c obtain d where d: "obj_get M i = Some d" "item_id d = i"
      "children d = map lid ts"
      by (auto simp: same_shape_def option_rel_Some1)
    have "rep M (tree_put u t)" if t: "t \<in> set ts" for t
    proof (cases "t = r")
      case True
      show ?thesis
        unfolding True
      proof (rule LNode.IH [OF r(1) _ _ r(2)])
        show "rep L r" using c(4) r(1) by blast
        show "distinct (tree_ids r)" using LNode.prems(2) r(1) by (auto intro: distinct_concat_map)
        fix k assume "k \<in> set (tree_ids r)" "k \<notin> set (tree_ids s)"
        with r(1) show "rel_option same_shape (obj_get L k) (obj_get M k)"
          by (intro LNode.prems(4)) auto
      qed
    next
      case False
      have disj: "set (tree_ids t) \<inter> set (tree_ids r) = {}"
        using LNode.prems(2) t r(1) False by (intro distinct_concat_disjoint [of tree_ids ts]) auto
      then have no: "k \<notin> set (tree_ids s)" if "k \<in> set (tree_ids t)" for k
        using subtree_ids_subset [OF r(2)] that by blast
      have "lid u \<in> set (tree_ids s)" using assms(4) lid_in_tree_ids by metis
      with no have "tree_put u t = t" by (intro tree_put_id) blast
      moreover have "rep M t"
      proof (rule rep_cong)
        show "rep L t" using c(4) t by blast
        fix k e assume k: "k \<in> set (tree_ids t)" "obj_get L k = Some e"
        with t no show "\<exists>d. obj_get M k = Some d \<and> same_shape e d"
          using LNode.prems(4) [of k] by (auto simp: option_rel_Some1)
      qed
      ultimately show ?thesis by simp
    qed
    with d False show ?thesis by (simp add: comp_def)
  qed
qed

lemma wf_treeD:
  assumes "wf_tree L t"
  shows "obj_ok L" "rep L t" "distinct (tree_ids t)" "lid t = DASHBOARD_ROOT_ID"
    "\<And>k c. obj_get L k = Some c \<Longrightarrow> item_id c = k"
    "\<And>k c. obj_get L k = Some c \<Longrightarrow> k \<notin> set (tree_ids t) \<Longrightarrow> children c = []"
  using assms by (auto simp: wf_tree_def dest!: map_of_SomeD)

lemma wf_treeI:
  assumes "obj_ok L" "rep L t" "distinct (tree_ids t)" "lid t = DASHBOARD_ROOT_ID"
    "\<And>k c. obj_get L k = Some c \<Longrightarrow> item_id c = k \<and> (k \<notin> set (tree_ids t) \<longrightarrow> children c = [])"
  shows "wf_tree L t"
  using assms unfolding wf_tree_def obj_ok_def by (auto dest: map_of_is_SomeI)

lemma wf_tree_child:
  assumes "wf_tree L t" and "obj_get L p = Some c"
  shows "x \<in> set (children c) \<longleftrightarrow> (p, x) \<in> set (tree_edges t)"
proof (cases "p \<in> set (tree_ids t)")
  case True
  with assms show ?thesis by (intro rep_edge) (auto dest: wf_treeD)
next
  case False
  with assms have "children c = []" by (auto dest: wf_treeD)
  moreover have "(p, x) \<notin> set (tree_edges t)" using False fst_tree_edges by blast
  ultimately show ?thesis by simp
qed

section \<open>The parent search and its cache\<close>

lemma findParentId_SomeD:
  "findParentId x L = Some p \<Longrightarrow> \<exists>c. (p, c) \<in> set L \<and> p \<noteq> x \<and> x \<in> set (children c)"
  by (induction L) (auto split: if_splits)

lemma findParentId_NoneD:
  "findParentId x L = None \<Longrightarrow> (p, c) \<in> set L \<Longrightarrow> p \<noteq> x \<Longrightarrow> x \<notin> set (children c)"
  by (induction L) (auto split: if_splits)

lemma obj_ok_get: "obj_ok L \<Longrightarrow> (k, c) \<in> set L \<longleftrightarrow> obj_get L k = Some c"
  unfolding obj_ok_def by (auto dest: map_of_SomeD intro: map_of_is_SomeI)

text \<open>On a well-formed layout the parent is the source of the only edge to the child.\<close>

lemma findParentId_iff:
  assumes "wf_tree L t"
  shows "findParentId x L = Some p \<longleftrightarrow> (p, x) \<in> set (tree_edges t)"
proof
  assume "findParentId x L = Some p"
  then obtain c where "(p, c) \<in> set L" "x \<in> set (children c)"
    by (auto dest: findParentId_SomeD)
  with assms show "(p, x) \<in> set (tree_edges t)"
    using wf_tree_child obj_ok_get wf_treeD(1) by metis
next
  assume e: "(p, x) \<in> set (tree_edges t)"
  from assms have d: "distinct (tree_ids t)" by (rule wf_treeD)
  from e have "p \<in> set (tree_ids t)" by (rule fst_tree_edges)
  then obtain c where c: "obj_get L p = Some c"
    using rep_ids [OF wf_treeD(2) [OF assms]] by blast
  with e assms have x: "x \<in> set (children c)" by (simp add: wf_tree_child)
  have "p \<noteq> x" using e no_self_edge [OF d] by blast
  with c x have "findParentId x L \<noteq> None"
    using findParentId_NoneD map_of_SomeD by metis
  then obtain q where q: "findParentId x L = Some q" by blast
  then have "(q, x) \<in> set (tree_edges t)"
    using findParentId_SomeD obj_ok_get [OF wf_treeD(1) [OF assms]] wf_tree_child [OF assms] by metis
  with e q show "findParentId x L = Some p" using unique_parent_edge [OF d] by blast
qed

lemma findParentIdWithCache_fst:
  assumes "wf_tree L t"
  shows "fst (findParentIdWithCache x L cache) = findParentId x L"
proof -
  have "findParentId x L = Some (item_id c)"
    if "obj_get L k = Some c" and "x \<in> set (children c)" for k c
    using that assms by (simp add: findParentId_iff wf_tree_child [symmetric] wf_treeD(5))
  then show ?thesis
    unfolding findParentIdWithCache_def by (auto simp: Let_def split: option.splits)
qed

section \<open>Parents lists\<close>

lemma put_parents_get:
  "obj_get (put_parents k ps L) j =
     (if j = k then map_option (parents_update (\<lambda>_. Some ps)) (obj_get L k) else obj_get L j)"
  by (auto simp: put_parents_def split: option.splits)

lemma put_parents_length: "length (put_parents k ps L) = length L"
  by (auto simp: put_parents_def length_obj_set_present split: option.splits)

lemma put_parents_ok [simp]: "obj_ok L \<Longrightarrow> obj_ok (put_parents k ps L)"
  by (auto simp: put_parents_def split: option.splits)

lemma apply_paths_simps [simp]:
  "apply_paths [] L = L"
  "apply_paths ((k, ps) # xs) L = apply_paths xs (put_parents k ps L)"
  "apply_paths (xs @ ys) L = apply_paths ys (apply_paths xs L)"
  by (simp_all add: apply_paths_def)

lemma apply_paths_ok [simp]: "obj_ok L \<Longrightarrow> obj_ok (apply_paths xs L)"
  by (induction xs arbitrary: L) auto

lemma apply_paths_length [simp]: "length (apply_paths xs L) = length L"
  by (induction xs arbitrary: L) (auto simp: put_parents_length)

lemma apply_paths_get:
  assumes "distinct (map fst xs)"
  shows "obj_get (apply_paths xs L) k =
    (case map_of xs k of
       None \<Rightarrow> obj_get L k
     | Some ps \<Rightarrow> map_option (parents_update (\<lambda>_. Some ps)) (obj_get L k))"
  using assms
proof (induction xs arbitrary: L)
  case (Cons e xs)
  obtain j ps where e: "e = (j, ps)" by (cases e)
  with Cons.prems have j: "map_of xs j = None" "distinct (map fst xs)"
    by (auto simp: map_of_eq_None_iff)
  note ih = Cons.IH [OF j(2), of "put_parents j ps L"]
  show ?case
  proof (cases "k = j")
    case True
    with ih j(1) show ?thesis by (simp add: e put_parents_get)
  next
    case False
    then have "obj_get (put_parents j ps L) k = obj_get L k" by (simp add: put_parents_get)
    with ih False show ?thesis by (simp add: e split: option.split)
  qed
qed simp

lemma apply_paths_shape:
  "obj_get L k = Some c \<Longrightarrow> \<exists>d. obj_get (apply_paths xs L) k = Some d \<and> same_shape c d \<and>
     item_type d = item_type c \<and> meta d = meta c"
proof (induction xs arbitrary: L c)
  case Nil
  then show ?case by (simp add: same_shape_def)
next
  case (Cons e xs)
  obtain j ps where e: "e = (j, ps)" by (cases e)
  from Cons.prems obtain c' where c': "obj_get (put_parents j ps L) k = Some c'"
      "same_shape c c'" "item_type c' = item_type c" "meta c' = meta c"
    by (cases "k = j") (auto simp: put_parents_get same_shape_def)
  with Cons.IH [OF c'(1)] e show ?case by (auto simp: same_shape_def)
qed

lemma apply_paths_None [simp]: "obj_get (apply_paths xs L) k = None \<longleftrightarrow> obj_get L k = None"
proof (induction xs arbitrary: L)
  case (Cons e xs)
  then show ?case by (cases e) (simp add: put_parents_get)
qed simp

lemma rep_apply_paths: "rep L t \<Longrightarrow> rep (apply_paths xs L) t"
  by (rule rep_cong) (auto dest: apply_paths_shape)

lemma apply_paths_concat:
  "apply_paths (concat xss) L = foldl (\<lambda>M xs. apply_paths xs M) L xss"
  by (induction xss arbitrary: L) auto

text \<open>The recursion of \<open>updateComponentParentsList\<close> below a subtree is the list of its paths.\<close>

lemma update_parents_fuel_paths:
  assumes "rep L t" and "obj_get L (lid t) = Some cur" and "height t \<le> n"
  shows "update_parents_fuel n cur L =
           Inr (apply_paths (tl (tree_paths (case parents cur of None \<Rightarrow> [] | Some ps \<Rightarrow> ps) t)) L)"
  using assms
proof (induction t arbitrary: L cur n)
  case (LNode i ts)
  from LNode.prems obtain m where n: "n = Suc m" "foldr max (map height ts) 0 \<le> m"
    by (cases n) auto
  from LNode.prems have cur: "item_id cur = i" "children cur = map lid ts"
    and reps: "\<forall>t \<in> set ts. rep L t" by auto
  let ?qs = "parents_below cur"
  let ?step = "\<lambda>M k. case obj_get M k of None \<Rightarrow> Inr M
     | Some ch \<Rightarrow> (let ch' = ch\<lparr>parents := Some ?qs\<rparr> in update_parents_fuel m ch' (obj_set k ch' M))"
  have step: "?step M (lid t) = Inr (apply_paths (tree_paths ?qs t) M)"
    if t: "t \<in> set ts" and M: "rep M t" for M t
  proof -
    from rep_get [OF M] obtain ch where ch: "obj_get M (lid t) = Some ch" by blast
    let ?ch = "ch\<lparr>parents := Some ?qs\<rparr>"
    have eq: "obj_set (lid t) ?ch M = put_parents (lid t) ?qs M"
      by (simp add: put_parents_def ch)
    have "rep (put_parents (lid t) ?qs M) t"
      using rep_apply_paths [OF M, of "[(lid t, ?qs)]"] by simp
    moreover have "height t \<le> m" using height_kid [OF t] n(2) by simp
    ultimately have "update_parents_fuel m ?ch (put_parents (lid t) ?qs M) =
        Inr (apply_paths (tl (tree_paths ?qs t)) (put_parents (lid t) ?qs M))"
      using LNode.IH [OF t, of "put_parents (lid t) ?qs M" ?ch m] by (simp add: put_parents_get ch)
    moreover have "apply_paths (tree_paths ?qs t) M =
        apply_paths (tl (tree_paths ?qs t)) (put_parents (lid t) ?qs M)"
      by (subst tree_paths_Cons) (simp only: apply_paths_simps)
    ultimately show ?thesis by (simp add: ch Let_def eq)
  qed
  have "rfold ?step M (map lid us) = Inr (foldl (\<lambda>M t. apply_paths (tree_paths ?qs t) M) M us)"
    if "set us \<subseteq> set ts" and "\<forall>t \<in> set ts. rep M t" for us M
    using that
  proof (induction us arbitrary: M)
    case (Cons u us)
    then have "?step M (lid u) = Inr (apply_paths (tree_paths ?qs u) M)"
      by (intro step) auto
    moreover have "\<forall>t \<in> set ts. rep (apply_paths (tree_paths ?qs u) M) t"
      using Cons.prems(2) rep_apply_paths by blast
    ultimately show ?case using Cons.IH Cons.prems(1) by simp
  qed simp
  from this [of ts L] reps
  have "rfold ?step L (map lid ts) = Inr (foldl (\<lambda>M t. apply_paths (tree_paths ?qs t) M) L ts)"
    by simp
  moreover have "foldl (\<lambda>M t. apply_paths (tree_paths ?qs t) M) L ts =
      apply_paths (concat (map (tree_paths ?qs) ts)) L"
    by (simp add: apply_paths_concat foldl_map)
  moreover have "?qs = (case parents cur of None \<Rightarrow> [] | Some ps \<Rightarrow> ps) @ [i]"
    by (simp add: parents_below_def cur)
  ultimately show ?case using LNode.prems(2) by (simp add: n cur)
qed

end
