(* ===== verification/LayoutProps.thy ===== *)
theory LayoutProps
  imports LayoutTree
begin

text \<open>
  The reducer on well-formed layouts: \<open>updateComponentParentsList\<close> ends and stores every
  component's path, deleting removes exactly a subtree, and creating, moving and turning into tabs
  replace subtrees, so that every step keeps the layout a tree.
\<close>

section \<open>Parents lists are the paths from the root\<close>

definition root_plain :: "layout \<Rightarrow> bool" where
  "root_plain L = (case obj_get L DASHBOARD_ROOT_ID of None \<Rightarrow> False
                   | Some c \<Rightarrow> parents c = None \<or> parents c = Some [])"

definition parents_ok :: "layout \<Rightarrow> ltree \<Rightarrow> bool" where
  "parents_ok L t = list_all (\<lambda>(k, ps). case obj_get L k of None \<Rightarrow> False
                                | Some c \<Rightarrow> parents c = Some ps) (tl (tree_paths [] t))"

lemma wf_tree_same_shape:
  assumes wf: "wf_tree L t" and ok: "obj_ok M"
    and rel: "\<And>k. rel_option same_shape (obj_get L k) (obj_get M k)"
  shows "wf_tree M t"
proof (rule wf_treeI)
  show "rep M t"
  proof (rule rep_cong [OF wf_treeD(2) [OF wf]])
    fix k c assume "obj_get L k = Some c"
    with rel [of k] show "\<exists>d. obj_get M k = Some d \<and> same_shape c d"
      by (simp add: option_rel_Some1)
  qed
  fix k d
  assume "obj_get M k = Some d"
  then obtain c where "obj_get L k = Some c" "same_shape c d"
    using rel [of k] by (auto simp: option_rel_Some2)
  with wf_treeD(5,6) [OF wf, of k c] show "item_id d = k \<and> (k \<notin> set (tree_ids t) \<longrightarrow> children d = [])"
    by (auto simp: same_shape_def)
qed (use wf_treeD(3,4) [OF wf] ok in auto)

lemma apply_paths_rel: "rel_option same_shape (obj_get L k) (obj_get (apply_paths xs L) k)"
proof (cases "obj_get L k")
  case None
  then have "obj_get (apply_paths xs L) k = None" by simp
  with None show ?thesis by simp
next
  case (Some c)
  with apply_paths_shape [OF Some, of xs] show ?thesis by (auto simp: option_rel_Some1)
qed

lemma wf_tree_apply_paths: "wf_tree L t \<Longrightarrow> wf_tree (apply_paths xs L) t"
  using wf_tree_same_shape [OF _ _ apply_paths_rel] wf_treeD(1) apply_paths_ok by blast

lemma updateComponentParentsList_wf:
  assumes wf: "wf_tree L t" and root: "root_plain L"
  shows "updateComponentParentsList (obj_get L DASHBOARD_ROOT_ID) L =
           Inr (apply_paths (tl (tree_paths [] t)) L)"
proof -
  have r: "rep L t" "distinct (tree_ids t)" "lid t = DASHBOARD_ROOT_ID"
    using wf_treeD(2-4) [OF wf] by simp_all
  from root obtain c where c: "obj_get L (lid t) = Some c" "parents c = None \<or> parents c = Some []"
    by (auto simp: root_plain_def r(3) split: option.splits)
  then have ps: "(case parents c of None \<Rightarrow> [] | Some ps \<Rightarrow> ps) = []" by auto
  have "height t \<le> Suc (length L)"
    using height_le_length [of t] rep_length [OF r(1,2)] by simp
  from update_parents_fuel_paths [OF r(1) c(1) this] ps c(1) r(3) show ?thesis
    by (simp add: updateComponentParentsList_def)
qed

lemma map_of_tl_paths:
  assumes "distinct (tree_ids t)" and "(k, ps) \<in> set (tl (tree_paths qs t))"
  shows "map_of (tl (tree_paths qs t)) k = Some ps" and "k \<noteq> lid t" and "k \<in> set (tree_ids t)"
proof -
  have d: "distinct (map fst (tree_paths qs t))" using assms(1) by (simp add: map_fst_tree_paths)
  have eq: "tree_paths qs t = (lid t, qs) # tl (tree_paths qs t)" by (rule tree_paths_Cons)
  with d have "distinct (map fst (tl (tree_paths qs t)))" by (metis list.map(2) distinct.simps(2))
  with assms(2) show "map_of (tl (tree_paths qs t)) k = Some ps" by simp
  from d eq have "lid t \<notin> fst ` set (tl (tree_paths qs t))"
    by (metis list.map(2) distinct.simps(2) fst_conv set_map)
  with assms(2) show "k \<noteq> lid t" by force
  have "(k, ps) \<in> set (tree_paths qs t)" using assms(2) eq by (metis list.set_intros(2))
  then have "k \<in> set (map fst (tree_paths qs t))" by force
  then show "k \<in> set (tree_ids t)" by (simp add: map_fst_tree_paths)
qed

lemma distinct_tl_paths: "distinct (tree_ids t) \<Longrightarrow> distinct (map fst (tl (tree_paths qs t)))"
  by (metis map_fst_tree_paths distinct_tl map_tl)

lemma parents_ok_apply_paths:
  assumes "wf_tree L t"
  shows "parents_ok (apply_paths (tl (tree_paths [] t)) L) t"
proof -
  have d: "distinct (tree_ids t)" and r: "rep L t" using wf_treeD(2,3) [OF assms] by simp_all
  have "case obj_get (apply_paths (tl (tree_paths [] t)) L) k of None \<Rightarrow> False
        | Some c \<Rightarrow> parents c = Some ps" if m: "(k, ps) \<in> set (tl (tree_paths [] t))" for k ps
  proof -
    from rep_ids [OF r] map_of_tl_paths(3) [OF d m] obtain c where "obj_get L k = Some c" by blast
    then show ?thesis
      using map_of_tl_paths(1) [OF d m] by (simp add: apply_paths_get [OF distinct_tl_paths [OF d]])
  qed
  then show ?thesis by (auto simp: parents_ok_def list_all_iff)
qed

lemma apply_paths_root:
  assumes "wf_tree L t"
  shows "obj_get (apply_paths (tl (tree_paths [] t)) L) DASHBOARD_ROOT_ID = obj_get L DASHBOARD_ROOT_ID"
proof -
  have d: "distinct (tree_ids t)" and l: "lid t = DASHBOARD_ROOT_ID"
    using wf_treeD(3,4) [OF assms] by simp_all
  have "map_of (tl (tree_paths [] t)) DASHBOARD_ROOT_ID = None"
    using map_of_tl_paths(2) [OF d] l by (force simp: map_of_eq_None_iff)
  then show ?thesis by (simp add: apply_paths_get [OF distinct_tl_paths [OF d]])
qed

section \<open>Deleting\<close>

lemma splice_remove_index: "index_of x xs = Some i \<Longrightarrow> splice_remove xs (int i) = remove1 x xs"
proof (induction xs arbitrary: i)
  case (Cons y ys)
  show ?case
  proof (cases "x = y")
    case True
    with Cons.prems have "i = 0" by simp
    with True show ?thesis by (simp add: splice_remove_def splice_start_def)
  next
    case False
    with Cons.prems obtain j where j: "index_of x ys = Some j" "i = Suc j" by auto
    then have "j < length ys" using index_of_Some by fastforce
    moreover have "take j ys @ drop (Suc j) ys = remove1 x ys"
      using Cons.IH [OF j(1)] calculation by (simp add: splice_remove_def)
    ultimately show ?thesis
      using False splice_start_nat [of "Suc j" "length (y # ys)"]
      by (simp add: splice_remove_def j(2) del: splice_start_nat)
  qed
qed simp

text \<open>The last step of the deletion: the parent forgets the child.\<close>

definition forget_child :: "string \<Rightarrow> string \<Rightarrow> layout \<Rightarrow> layout" where
  "forget_child x p L =
     (case obj_get L p of None \<Rightarrow> L
      | Some c \<Rightarrow> if x \<in> set (children c) then obj_set p (c\<lparr>children := remove1 x (children c)\<rparr>) L
                 else L)"

lemma delete_fuel_Suc:
  "delete_fuel (Suc n) x p L =
     (case obj_get L x of None \<Rightarrow> L
      | Some c \<Rightarrow> forget_child x p (foldl (\<lambda>M k. delete_fuel n k x M) (obj_del x L) (children c)))"
proof (cases "obj_get L x")
  case (Some c)
  let ?M = "foldl (\<lambda>M k. delete_fuel n k x M) (obj_del x L) (children c)"
  have "(case obj_get ?M p of None \<Rightarrow> ?M
         | Some q \<Rightarrow> (case index_of x (children q) of None \<Rightarrow> ?M
             | Some i \<Rightarrow> obj_set p (q\<lparr>children := splice_remove (children q) (int i)\<rparr>) ?M)) =
        forget_child x p ?M"
  proof (cases "obj_get ?M p")
    case (Some q)
    then show ?thesis
    proof (cases "index_of x (children q)")
      case None
      then have "x \<notin> set (children q)" by simp
      with Some None show ?thesis by (simp add: forget_child_def del: index_of_None)
    next
      case (Some i)
      moreover have "x \<in> set (children q)" using Some index_of_None [of x "children q"] by force
      ultimately show ?thesis
        using \<open>obj_get ?M p = Some q\<close> by (simp add: forget_child_def splice_remove_index)
    qed
  qed (simp add: forget_child_def)
  with Some show ?thesis by (simp add: Let_def)
qed simp

lemma forget_child_get:
  "obj_get (forget_child x p L) k =
     (if k = p then map_option (children_update (remove1 x)) (obj_get L p) else obj_get L k)"
  by (auto simp: forget_child_def remove1_idem split: option.splits)

lemma forget_child_ok [simp]: "obj_ok L \<Longrightarrow> obj_ok (forget_child x p L)"
  by (auto simp: forget_child_def split: option.splits)

lemma length_forget_child [simp]: "length (forget_child x p L) = length L"
  by (auto simp: forget_child_def length_obj_set_present split: option.splits)

lemma delete_fuel_ok [simp]: "obj_ok L \<Longrightarrow> obj_ok (delete_fuel n x p L)"
proof (induction n arbitrary: x p L)
  case (Suc n)
  have "obj_ok (foldl (\<lambda>M k. delete_fuel n k x M) M ks)" if "obj_ok M" for M ks
    using that by (induction ks arbitrary: M) (auto intro: Suc.IH)
  with Suc.prems show ?case by (auto simp: delete_fuel_Suc split: option.splits simp del: delete_fuel.simps)
qed simp

lemma delete_fuel_length: "length (delete_fuel n x p L) \<le> length L"
proof (induction n arbitrary: x p L)
  case (Suc n)
  have "length (foldl (\<lambda>M k. delete_fuel n k x M) M ks) \<le> length M" for M ks
    by (induction ks arbitrary: M) (auto intro: order_trans [OF _ Suc.IH])
  from order_trans [OF this length_obj_del_le] show ?case
    by (auto simp: delete_fuel_Suc split: option.splits simp del: delete_fuel.simps)
qed simp

text \<open>Any fuel above the number of components gives the same result.\<close>

lemma delete_fuel_enough: "length L < n \<Longrightarrow> length L < m \<Longrightarrow> delete_fuel n x p L = delete_fuel m x p L"
proof (induction "length L" arbitrary: n m x p L rule: less_induct)
  case less
  from less.prems obtain n' m' where nm: "n = Suc n'" "m = Suc m'" by (cases n; cases m) auto
  show ?case
  proof (cases "obj_get L x")
    case (Some c)
    then have l: "length (obj_del x L) < length L" by (rule length_obj_del_less)
    have "foldl (\<lambda>M k. delete_fuel n' k x M) M ks = foldl (\<lambda>M k. delete_fuel m' k x M) M ks"
      if "length M < length L" for M ks
      using that
    proof (induction ks arbitrary: M)
      case (Cons k ks)
      have "delete_fuel n' k x M = delete_fuel m' k x M"
        using less.hyps [OF Cons.prems, of n' m'] Cons.prems less.prems nm by simp
      moreover have "length (delete_fuel m' k x M) < length L"
        using Cons.prems delete_fuel_length le_less_trans by blast
      ultimately show ?case using Cons.IH by simp
    qed simp
    from this [OF l] Some show ?thesis by (simp add: nm delete_fuel_Suc del: delete_fuel.simps)
  qed (simp add: nm)
qed

text \<open>On the tree: the keys of the subtree go, the parent forgets the child, nothing else changes.\<close>

lemma delete_fuel_get:
  assumes "rep L s" and "distinct (tree_ids s)" and "height s \<le> n" and "p \<notin> set (tree_ids s)"
  shows "obj_get (delete_fuel n (lid s) p L) k =
    (if k \<in> set (tree_ids s) then None
     else if k = p then map_option (children_update (remove1 (lid s))) (obj_get L p)
     else obj_get L k)"
  using assms
proof (induction s arbitrary: L n p k)
  case (LNode i ts)
  from LNode.prems obtain m where n: "n = Suc m" "foldr max (map height ts) 0 \<le> m"
    by (cases n) auto
  from LNode.prems(1) obtain c where c: "obj_get L i = Some c" "children c = map lid ts"
      "\<forall>t \<in> set ts. rep L t"
    by (auto split: option.splits)
  let ?del = "\<lambda>M k. delete_fuel m k i M"
  have fold: "obj_get (foldl ?del M (map lid us)) k =
      (if k \<in> \<Union> (set ` tree_ids ` set us) then None else obj_get M k)"
    if "set us \<subseteq> set ts" "distinct (concat (map tree_ids us))" "\<forall>t \<in> set us. rep M t"
      "obj_get M i = None" for us M k
    using that
  proof (induction us arbitrary: M k)
    case (Cons u us)
    from Cons.prems(1) have u: "u \<in> set ts" by simp
    have "height u \<le> m" using height_kid [OF u] n(2) by simp
    moreover have iu: "i \<notin> set (tree_ids u)" using LNode.prems(2) u by auto
    ultimately have get: "obj_get (?del M (lid u)) k =
        (if k \<in> set (tree_ids u) then None else obj_get M k)" for k
      using LNode.IH [OF u, of M m i k] Cons.prems(2,3,4) by simp
    have reps: "\<forall>t \<in> set us. rep (?del M (lid u)) t"
    proof
      fix t assume t: "t \<in> set us"
      with Cons.prems(2) have "set (tree_ids u) \<inter> set (tree_ids t) = {}" by auto
      with get have "\<And>k. k \<in> set (tree_ids t) \<Longrightarrow> obj_get (?del M (lid u)) k = obj_get M k" by auto
      moreover have "rep M t" using Cons.prems(3) t by simp
      ultimately show "rep (?del M (lid u)) t" using rep_frame by blast
    qed
    have "obj_get (foldl ?del (?del M (lid u)) (map lid us)) k =
       (if k \<in> \<Union> (set ` tree_ids ` set us) then None else obj_get (?del M (lid u)) k)"
      using Cons.prems reps get [of i] iu by (intro Cons.IH) auto
    then show ?case by (simp add: get)
  qed simp
  have rep0: "\<forall>t \<in> set ts. rep (obj_del i L) t"
  proof
    fix t assume t: "t \<in> set ts"
    with LNode.prems(2) have "i \<notin> set (tree_ids t)" by auto
    then have "\<And>k. k \<in> set (tree_ids t) \<Longrightarrow> obj_get (obj_del i L) k = obj_get L k" by auto
    then show "rep (obj_del i L) t" using rep_frame c(3) t by blast
  qed
  have "obj_get (foldl ?del (obj_del i L) (map lid ts)) k =
      (if k \<in> \<Union> (set ` tree_ids ` set ts) then None else obj_get (obj_del i L) k)" for k
    using LNode.prems(2) rep0 by (intro fold) auto
  then show ?case
    using LNode.prems(4)
    by (auto simp: n delete_fuel_Suc forget_child_get c simp del: delete_fuel.simps)
qed

lemma map_lid_remove1:
  "distinct (map lid ts) \<Longrightarrow> s \<in> set ts \<Longrightarrow> map lid (remove1 s ts) = remove1 (lid s) (map lid ts)"
  by (induction ts) (auto simp: image_iff)

lemma mset_concat_remove1:
  "s \<in> set ts \<Longrightarrow> mset (concat (map f ts)) = mset (f s) + mset (concat (map f (remove1 s ts)))"
  by (induction ts) (auto simp: ac_simps)

lemma kids_lid_distinct: "distinct (tree_ids u) \<Longrightarrow> distinct (map lid (kids u))"
proof (induction u)
  case (LNode i ts)
  then have "distinct (concat (map tree_ids ts))" by simp
  then have "distinct (map lid ts)"
  proof (induction ts)
    case (Cons t ts)
    have "lid t \<notin> lid ` set ts"
    proof
      assume "lid t \<in> lid ` set ts"
      then obtain r where "r \<in> set ts" "lid t = lid r" by blast
      with Cons.prems show False using lid_in_tree_ids [of t] lid_in_tree_ids [of r] by force
    qed
    with Cons show ?case by simp
  qed simp
  then show ?case by simp
qed

lemma same_shape_refl [simp]: "same_shape c c"
  by (simp add: same_shape_def)

lemma rel_option_same_shape_refl [simp]: "rel_option same_shape x x"
  by (cases x) auto

lemma rep_kid: "rep L u \<Longrightarrow> r \<in> set (kids u) \<Longrightarrow> rep L r"
  using rep_subtree kid_subtree by blast

text \<open>Deleting a child of a node cuts its subtree out of the tree.\<close>

lemma delete_child_wf:
  assumes wf: "wf_tree L t" and u: "u \<in> set (subtrees t)" and s: "s \<in> set (kids u)"
  defines "t' \<equiv> tree_put (LNode (lid u) (remove1 s (kids u))) t"
  shows "wf_tree (recursivelyDeleteChildren (lid s) (lid u) L) t'"
    and "mset (tree_ids t') + mset (tree_ids s) = mset (tree_ids t)"
    and "obj_get (recursivelyDeleteChildren (lid s) (lid u) L) k =
      (if k \<in> set (tree_ids s) then None
       else if k = lid u then map_option (children_update (remove1 (lid s))) (obj_get L k)
       else obj_get L k)"
proof -
  let ?M = "recursivelyDeleteChildren (lid s) (lid u) L"
  let ?u = "LNode (lid u) (remove1 s (kids u))"
  note r = wf_treeD(2) [OF wf] and d = wf_treeD(3) [OF wf]
  have st: "s \<in> set (subtrees t)" using u s kid_subtree subtrees_trans by blast
  have ru: "rep L u" and rs: "rep L s" using rep_subtree [OF r] u st by auto
  have du: "distinct (tree_ids u)" and ds: "distinct (tree_ids s)" using subtree_distinct [OF d] u st by auto
  have ps: "lid u \<notin> set (tree_ids s)" by (rule child_not_below [OF d u s])
  have "height s \<le> Suc (length L)"
    using height_le_length [of s] rep_length [OF rs ds] by simp
  from delete_fuel_get [OF rs ds this ps]
  show get: "obj_get ?M k =
      (if k \<in> set (tree_ids s) then None
       else if k = lid u then map_option (children_update (remove1 (lid s))) (obj_get L k)
       else obj_get L k)" for k
    by (simp add: recursivelyDeleteChildren_def del: delete_fuel.simps)
  have ids: "mset (tree_ids u) = mset (tree_ids s) + mset (tree_ids ?u)"
    using mset_concat_remove1 [OF s, of tree_ids] by (cases u) simp
  have "mset (tree_ids t') + mset (tree_ids u) = mset (tree_ids t) + mset (tree_ids ?u)"
    unfolding t'_def by (rule tree_put_ids [OF d u]) simp
  with ids show mt: "mset (tree_ids t') + mset (tree_ids s) = mset (tree_ids t)"
    by simp
  have setid: "set (tree_ids u) = set (tree_ids s) \<union> set (tree_ids ?u)"
    using arg_cong [OF ids, of set_mset] by simp
  have disj: "set (tree_ids s) \<inter> set (tree_ids ?u) = {}"
  proof -
    have "mset (tree_ids u) = mset (tree_ids s @ tree_ids ?u)" using ids by simp
    then have "distinct (tree_ids s @ tree_ids ?u)" using du mset_eq_imp_distinct_iff by blast
    then show ?thesis by simp
  qed
  have rem: "map lid (remove1 s (kids u)) = remove1 (lid s) (map lid (kids u))"
    using map_lid_remove1 kids_lid_distinct [OF du] s by blast
  have "rep ?M r" if "r \<in> set (remove1 s (kids u))" for r
  proof (rule rep_frame)
    have ru': "r \<in> set (kids u)" using that notin_set_remove1 by fastforce
    then show "rep L r" using rep_kid [OF ru] by blast
    fix k assume k: "k \<in> set (tree_ids r)"
    then have "k \<in> set (tree_ids ?u)" using that by auto
    with disj have "k \<notin> set (tree_ids s)" by blast
    moreover have "k \<noteq> lid u" using child_not_below [OF d u ru'] k by blast
    ultimately show "obj_get ?M k = obj_get L k" by (simp add: get)
  qed
  moreover obtain c where c: "obj_get L (lid u) = Some c" "item_id c = lid u"
      "children c = map lid (kids u)"
    using rep_get [OF ru] by blast
  ultimately have ru': "rep ?M ?u" using ps rem by (simp add: get)
  have frame: "obj_get ?M k = obj_get L k" if "k \<notin> set (tree_ids u)" for k
    using that setid lid_in_tree_ids [of u] by (auto simp: get)
  show "wf_tree ?M t'"
  proof (rule wf_treeI)
    show "obj_ok ?M" using wf_treeD(1) [OF wf] by (simp add: recursivelyDeleteChildren_def del: delete_fuel.simps)
    show "rep ?M t'"
      unfolding t'_def
    proof (rule rep_tree_put [OF r d u _ ru'])
      fix k assume "k \<in> set (tree_ids t)" "k \<notin> set (tree_ids u)"
      with frame show "rel_option same_shape (obj_get L k) (obj_get ?M k)" by simp
    qed simp
    have "distinct (tree_ids t' @ tree_ids s)"
      using mt d mset_eq_imp_distinct_iff [of "tree_ids t' @ tree_ids s" "tree_ids t"] by simp
    then show "distinct (tree_ids t')" by simp
    show "lid t' = DASHBOARD_ROOT_ID" using wf_treeD(4) [OF wf] by (simp add: t'_def)
    fix k e assume k: "obj_get ?M k = Some e"
    then have nk: "k \<notin> set (tree_ids s)" by (auto simp: get)
    with k obtain c where c: "obj_get L k = Some c" "item_id e = item_id c"
      "k \<noteq> lid u \<Longrightarrow> e = c"
      by (cases "k = lid u") (auto simp: get)
    have "children e = []" if "k \<notin> set (tree_ids t')"
    proof -
      have tt: "set (tree_ids t') \<union> set (tree_ids s) = set (tree_ids t)"
        using arg_cong [OF mt, of set_mset] by simp
      with that nk have "k \<notin> set (tree_ids t)" by blast
      moreover have "lid u \<in> set (tree_ids t)" using u tree_ids_mem by blast
      ultimately show ?thesis using wf_treeD(6) [OF wf c(1)] c(3) by auto
    qed
    with c wf_treeD(5) [OF wf c(1)] show "item_id e = k \<and> (k \<notin> set (tree_ids t') \<longrightarrow> children e = [])"
      by simp
  qed
qed

section \<open>Replacing a subtree\<close>

text \<open>\<open>wf_upto E\<close> is \<open>wf_tree\<close> except for the components \<open>E\<close>, which are cut off from the tree for the
  moment.\<close>

definition wf_upto :: "string set \<Rightarrow> layout \<Rightarrow> ltree \<Rightarrow> bool" where
  "wf_upto E L t \<longleftrightarrow> obj_ok L \<and> rep L t \<and> distinct (tree_ids t) \<and> lid t = DASHBOARD_ROOT_ID \<and>
     (\<forall>k c. obj_get L k = Some c \<longrightarrow>
        item_id c = k \<and> (k \<notin> set (tree_ids t) \<longrightarrow> k \<notin> E \<longrightarrow> children c = []))"

lemma wf_upto_empty: "wf_upto {} L t = wf_tree L t"
proof
  assume "wf_upto {} L t"
  then show "wf_tree L t" unfolding wf_upto_def by (intro wf_treeI) auto
next
  assume "wf_tree L t"
  note w = wf_treeD [OF this]
  show "wf_upto {} L t" unfolding wf_upto_def using w(1-4) w(5,6) by blast
qed

lemma mset_distinct_eq:
  "mset xs + mset ys = mset zs \<Longrightarrow> distinct zs \<Longrightarrow> distinct xs \<and> distinct ys \<and> set xs \<inter> set ys = {}"
proof -
  assume "mset xs + mset ys = mset zs" "distinct zs"
  then have "distinct (xs @ ys)" using mset_eq_imp_distinct_iff [of "xs @ ys" zs] by simp
  then show ?thesis by auto
qed

lemma mset_set_eq: "mset xs + mset ys = mset zs + mset ws \<Longrightarrow> set xs \<union> set ys = set zs \<union> set ws"
  by (metis set_mset_mset set_mset_union)

lemma wf_upto_put:
  assumes wf: "wf_upto E L t" and u: "u \<in> set (subtrees t)" and lu: "lid u' = lid u"
    and ok: "obj_ok M" and rep': "rep M u'"
    and d': "distinct (tree_ids u')" and new: "(set (tree_ids u') - set (tree_ids u)) \<inter> set (tree_ids t) = {}"
    and frame: "\<And>k. k \<notin> set (tree_ids u') \<Longrightarrow> rel_option same_shape (obj_get L k) (obj_get M k)"
    and E': "set (tree_ids u) - set (tree_ids u') \<subseteq> E'" "E - set (tree_ids u') \<subseteq> E'"
  shows "wf_upto E' M (tree_put u' t)"
    and "set (tree_ids (tree_put u' t)) = set (tree_ids t) - set (tree_ids u) \<union> set (tree_ids u')"
proof -
  have r: "rep L t" and d: "distinct (tree_ids t)" and l: "lid t = DASHBOARD_ROOT_ID"
    using wf by (simp_all add: wf_upto_def)
  have du: "distinct (tree_ids u)" by (rule subtree_distinct [OF d u])
  have m: "mset (tree_ids (tree_put u' t)) + mset (tree_ids u) = mset (tree_ids t) + mset (tree_ids u')"
    using lu by (intro tree_put_ids [OF d u]) simp
  have sub: "set (tree_ids u) \<subseteq> set (tree_ids t)" by (rule subtree_ids_subset [OF u])
  have "count (mset (tree_ids (tree_put u' t))) k =
      (if k \<in> set (tree_ids t) - set (tree_ids u) \<union> set (tree_ids u') then 1 else 0)" for k
  proof -
    have "count (mset (tree_ids (tree_put u' t))) k + count (mset (tree_ids u)) k =
        count (mset (tree_ids t)) k + count (mset (tree_ids u')) k"
      using arg_cong [OF m, of "\<lambda>m. count m k"] by simp
    then show ?thesis
      using d du d' new sub by (auto simp: distinct_count_atmost_1 split: if_splits)
  qed
  note cnt = this
  have ss: "set (tree_ids (tree_put u' t)) = set (tree_ids t) - set (tree_ids u) \<union> set (tree_ids u')"
  proof (rule set_eqI)
    fix k
    have "k \<in> set (tree_ids (tree_put u' t)) \<longleftrightarrow> count (mset (tree_ids (tree_put u' t))) k \<noteq> 0"
      by (simp only: count_mset_0_iff not_not)
    then show "k \<in> set (tree_ids (tree_put u' t)) \<longleftrightarrow>
        k \<in> set (tree_ids t) - set (tree_ids u) \<union> set (tree_ids u')"
      unfolding cnt by auto
  qed
  have dd: "distinct (tree_ids (tree_put u' t))"
    unfolding distinct_count_atmost_1 cnt ss by simp
  show "set (tree_ids (tree_put u' t)) = set (tree_ids t) - set (tree_ids u) \<union> set (tree_ids u')"
    by (rule ss)
  have "rep M (tree_put u' t)"
  proof (rule rep_tree_put [OF r d u lu [symmetric] rep'])
    fix k assume "k \<in> set (tree_ids t)" "k \<notin> set (tree_ids u)"
    with new have "k \<notin> set (tree_ids u')" by blast
    then show "rel_option same_shape (obj_get L k) (obj_get M k)" by (rule frame)
  qed
  moreover have "item_id e = k \<and> (k \<notin> set (tree_ids (tree_put u' t)) \<longrightarrow> k \<notin> E' \<longrightarrow> children e = [])"
    if e: "obj_get M k = Some e" for k e
  proof (cases "k \<in> set (tree_ids u')")
    case True
    then obtain v where "v \<in> set (subtrees u')" "lid v = k" using tree_ids_mem by metis
    with rep_get [OF rep_subtree [OF rep']] e have "item_id e = k" by fastforce
    with True ss show ?thesis by simp
  next
    case False
    with frame [of k] e obtain c where c: "obj_get L k = Some c" "same_shape c e"
      by (auto simp: option_rel_Some2)
    have "children c = []" if "k \<notin> set (tree_ids (tree_put u' t))" "k \<notin> E'"
    proof -
      from that False E' ss have "k \<notin> set (tree_ids t)" "k \<notin> E" by blast+
      with wf c(1) show ?thesis by (simp add: wf_upto_def)
    qed
    with c wf show ?thesis by (simp add: wf_upto_def same_shape_def)
  qed
  ultimately show "wf_upto E' M (tree_put u' t)"
    using ok dd l by (simp add: wf_upto_def)
qed

end
