(* ===== verification/LayoutSteps.thy ===== *)
theory LayoutSteps
  imports LayoutProps
begin

text \<open>
  The handlers of the layout reducer on well-formed layouts. Every handler is a change of the list
  of children of one or two nodes of the tree; the lemmas of the first section say what such a
  change does to the tree, those of the later sections that the handlers make such a change.
\<close>

section \<open>Changing the children of a node\<close>

lemma set_children_get:
  "obj_get (set_children p ks L) k =
     (if k = p then map_option (children_update (\<lambda>_. ks)) (obj_get L p) else obj_get L k)"
  by (auto simp: set_children_def split: option.splits)

lemma set_children_ok [simp]: "obj_ok L \<Longrightarrow> obj_ok (set_children p ks L)"
  by (auto simp: set_children_def split: option.splits)

lemma map_splice_insert: "map f (splice_insert xs i x) = splice_insert (map f xs) i (f x)"
  by (simp add: splice_insert_def Let_def take_map drop_map)

lemma map_splice_remove: "map f (splice_remove xs i) = splice_remove (map f xs) i"
  by (simp add: splice_remove_def Let_def take_map drop_map)

lemma mset_concat_map_cong: "mset xs = mset ys \<Longrightarrow> mset (concat (map f xs)) = mset (concat (map f ys))"
proof -
  assume m: "mset xs = mset ys"
  have "mset (concat (map f zs)) = sum_mset (image_mset (mset \<circ> f) (mset zs))" for zs
    by (induction zs) simp_all
  then show ?thesis by (simp add: m)
qed

lemma kid_ids: "r \<in> set (kids u) \<Longrightarrow> set (tree_ids r) \<subseteq> set (tree_ids u)"
  by (cases u) auto

lemma wf_uptoD:
  assumes "wf_upto E L t"
  shows "obj_ok L" "rep L t" "distinct (tree_ids t)" "lid t = DASHBOARD_ROOT_ID"
  using assms by (simp_all add: wf_upto_def)

text \<open>A new node or a detached subtree \<open>v\<close> becomes a child of \<open>u\<close>.\<close>

lemma wf_insert_child:
  assumes wf: "wf_upto E L t" and u: "u \<in> set (subtrees t)"
    and v: "rep M v" "distinct (tree_ids v)" "set (tree_ids v) \<inter> set (tree_ids t) = {}" "E \<subseteq> set (tree_ids v)"
    and ok: "obj_ok M"
    and d: "obj_get M (lid u) = Some d" "item_id d = lid u"
      "children d = splice_insert (map lid (kids u)) i (lid v)"
    and frame: "\<And>k. k \<notin> set (tree_ids v) \<Longrightarrow> k \<noteq> lid u \<Longrightarrow>
                  rel_option same_shape (obj_get L k) (obj_get M k)"
  defines "t' \<equiv> tree_put (LNode (lid u) (splice_insert (kids u) i v)) t"
  shows "wf_tree M t'" and "set (tree_ids t') = set (tree_ids t) \<union> set (tree_ids v)"
proof -
  let ?u = "LNode (lid u) (splice_insert (kids u) i v)"
  note w = wf_uptoD [OF wf]
  have ut: "set (tree_ids u) \<subseteq> set (tree_ids t)" by (rule subtree_ids_subset [OF u])
  have ru: "rep L u" by (rule rep_subtree [OF w(2) u])
  have du: "distinct (tree_ids u)" by (rule subtree_distinct [OF w(3) u])
  have "mset (tree_ids ?u) = mset (tree_ids u) + mset (tree_ids v)"
  proof -
    have "mset (concat (map tree_ids (splice_insert (kids u) i v))) = mset (concat (map tree_ids (v # kids u)))"
      by (rule mset_concat_map_cong) simp
    then show ?thesis by (cases u) simp
  qed
  note mu = this
  then have "mset (tree_ids ?u) = mset (tree_ids u @ tree_ids v)" by simp
  then have d': "distinct (tree_ids ?u)"
    using du v(2,3) ut mset_eq_imp_distinct_iff [of "tree_ids ?u" "tree_ids u @ tree_ids v"] by auto
  have su: "set (tree_ids ?u) = set (tree_ids u) \<union> set (tree_ids v)"
    using arg_cong [OF mu, of set_mset] by simp
  have "rep M r" if r: "r \<in> set (kids u)" for r
  proof (rule rep_cong [OF rep_kid [OF ru r]])
    fix k c assume k: "k \<in> set (tree_ids r)" "obj_get L k = Some c"
    from k(1) r have "k \<in> set (tree_ids u)" using kid_ids by blast
    with v(3) ut have "k \<notin> set (tree_ids v)" by blast
    moreover have "k \<noteq> lid u" using child_not_below [OF w(3) u r] k(1) by blast
    ultimately have "rel_option same_shape (obj_get L k) (obj_get M k)" by (rule frame)
    with k(2) show "\<exists>d. obj_get M k = Some d \<and> same_shape c d" by (simp add: option_rel_Some1)
  qed
  then have rep': "rep M ?u" using d v(1) by (simp add: map_splice_insert)
  have fr: "rel_option same_shape (obj_get L k) (obj_get M k)" if "k \<notin> set (tree_ids ?u)" for k
    using that su lid_in_tree_ids [of u] by (intro frame) auto
  have "wf_upto {} M t'"
    unfolding t'_def using v(3,4) su by (intro wf_upto_put(1) [OF wf u _ ok rep' d' _ fr]) auto
  then show "wf_tree M t'" by (simp add: wf_upto_empty)
  show "set (tree_ids t') = set (tree_ids t) \<union> set (tree_ids v)"
    unfolding t'_def using v(3,4) su ut
    by (subst wf_upto_put(2) [OF wf u _ ok rep' d' _ fr, where E' = "{}"]) auto
qed

text \<open>The children of \<open>u\<close> are permuted.\<close>

lemma wf_permute_children:
  assumes wf: "wf_tree L t" and u: "u \<in> set (subtrees t)" and perm: "mset ts = mset (kids u)"
  shows "wf_tree (set_children (lid u) (map lid ts) L) (tree_put (LNode (lid u) ts) t)"
    and "set (tree_ids (tree_put (LNode (lid u) ts) t)) = set (tree_ids t)"
proof -
  let ?M = "set_children (lid u) (map lid ts) L"
  let ?u = "LNode (lid u) ts"
  have wf': "wf_upto {} L t" using wf by (simp add: wf_upto_empty)
  note w = wf_treeD [OF wf]
  have ru: "rep L u" by (rule rep_subtree [OF w(2) u])
  have "mset (concat (map tree_ids ts)) = mset (concat (map tree_ids (kids u)))"
    by (rule mset_concat_map_cong [OF perm])
  then have mu: "mset (tree_ids ?u) = mset (tree_ids u)" by (cases u) simp
  have d': "distinct (tree_ids ?u)"
    using subtree_distinct [OF w(3) u] mset_eq_imp_distinct_iff [OF mu] by simp
  have su: "set (tree_ids ?u) = set (tree_ids u)" by (rule mset_eq_setD [OF mu])
  have "rep ?M r" if "r \<in> set ts" for r
  proof (rule rep_frame)
    have r: "r \<in> set (kids u)" using that mset_eq_setD [OF perm] by simp
    then show "rep L r" by (rule rep_kid [OF ru])
    fix k assume "k \<in> set (tree_ids r)"
    with child_not_below [OF w(3) u r] show "obj_get ?M k = obj_get L k"
      by (auto simp: set_children_get)
  qed
  moreover obtain c where "obj_get L (lid u) = Some c" "item_id c = lid u" using rep_get [OF ru] by blast
  ultimately have rep': "rep ?M ?u" by (simp add: set_children_get)
  have fr: "rel_option same_shape (obj_get L k) (obj_get ?M k)" if "k \<notin> set (tree_ids ?u)" for k
  proof -
    have "k \<noteq> lid u" using that su lid_in_tree_ids [of u] by auto
    then show ?thesis by (simp add: set_children_get)
  qed
  have ok: "obj_ok ?M" using w(1) by simp
  have "wf_upto {} ?M (tree_put ?u t)"
    using su by (intro wf_upto_put(1) [OF wf' u _ ok rep' d' _ fr]) auto
  then show "wf_tree ?M (tree_put ?u t)" by (simp add: wf_upto_empty)
  show "set (tree_ids (tree_put ?u t)) = set (tree_ids t)"
    using su subtree_ids_subset [OF u]
    by (subst wf_upto_put(2) [OF wf' u _ ok rep' d' _ fr, where E' = "{}"]) auto
qed

text \<open>A child of \<open>u\<close> is cut off, its subtree stays in the layout.\<close>

lemma wf_cut_child:
  assumes wf: "wf_tree L t" and u: "u \<in> set (subtrees t)" and s: "s \<in> set (kids u)"
  defines "t' \<equiv> tree_put (LNode (lid u) (remove1 s (kids u))) t"
  shows "wf_upto (set (tree_ids s)) (set_children (lid u) (remove1 (lid s) (map lid (kids u))) L) t'"
    and "set (tree_ids t') = set (tree_ids t) - set (tree_ids s)"
proof -
  let ?M = "set_children (lid u) (remove1 (lid s) (map lid (kids u))) L"
  let ?u = "LNode (lid u) (remove1 s (kids u))"
  have wf': "wf_upto {} L t" using wf by (simp add: wf_upto_empty)
  note w = wf_treeD [OF wf]
  have ru: "rep L u" by (rule rep_subtree [OF w(2) u])
  have du: "distinct (tree_ids u)" by (rule subtree_distinct [OF w(3) u])
  have mu: "mset (tree_ids ?u) + mset (tree_ids s) = mset (tree_ids u)"
    using mset_concat_remove1 [OF s, of tree_ids] by (cases u) simp
  from mset_distinct_eq [OF mu du] have d': "distinct (tree_ids ?u)"
    and disj: "set (tree_ids ?u) \<inter> set (tree_ids s) = {}" by auto
  have su: "set (tree_ids ?u) \<union> set (tree_ids s) = set (tree_ids u)"
    using arg_cong [OF mu, of set_mset] by simp
  have rem: "map lid (remove1 s (kids u)) = remove1 (lid s) (map lid (kids u))"
    using map_lid_remove1 kids_lid_distinct [OF du] s by blast
  have "rep ?M r" if "r \<in> set (remove1 s (kids u))" for r
  proof (rule rep_frame)
    have r: "r \<in> set (kids u)" using that notin_set_remove1 by fastforce
    then show "rep L r" by (rule rep_kid [OF ru])
    fix k assume "k \<in> set (tree_ids r)"
    with child_not_below [OF w(3) u r] show "obj_get ?M k = obj_get L k"
      by (auto simp: set_children_get)
  qed
  moreover obtain c where "obj_get L (lid u) = Some c" "item_id c = lid u" using rep_get [OF ru] by blast
  ultimately have rep': "rep ?M ?u" by (simp add: set_children_get rem)
  have fr: "rel_option same_shape (obj_get L k) (obj_get ?M k)" if "k \<notin> set (tree_ids ?u)" for k
  proof -
    have "k \<noteq> lid u" using that by auto
    then show ?thesis by (simp add: set_children_get)
  qed
  have ok: "obj_ok ?M" using w(1) by simp
  show "wf_upto (set (tree_ids s)) ?M t'"
    unfolding t'_def using su by (intro wf_upto_put(1) [OF wf' u _ ok rep' d' _ fr]) auto
  show "set (tree_ids t') = set (tree_ids t) - set (tree_ids s)"
    unfolding t'_def using su disj subtree_ids_subset [OF u]
    by (subst wf_upto_put(2) [OF wf' u _ ok rep' d' _ fr, where E' = "set (tree_ids s)"]) auto
qed

text \<open>The child at one place of \<open>u\<close> is put into a new node.\<close>

lemma wf_wrap_child:
  assumes wf: "wf_tree L t" and u: "u \<in> set (subtrees t)" and i: "i < length (kids u)"
    and r: "r \<notin> set (tree_ids t)" and ok: "obj_ok M"
    and d: "obj_get M (lid u) = Some d" "item_id d = lid u" "children d = (map lid (kids u))[i := r]"
    and row: "obj_get M r = Some row" "item_id row = r" "children row = [lid (kids u ! i)]"
    and frame: "\<And>k. k \<noteq> r \<Longrightarrow> k \<noteq> lid u \<Longrightarrow> rel_option same_shape (obj_get L k) (obj_get M k)"
  defines "t' \<equiv> tree_put (LNode (lid u) ((kids u)[i := LNode r [kids u ! i]])) t"
  shows "wf_tree M t'" and "set (tree_ids t') = insert r (set (tree_ids t))"
proof -
  let ?ts = "(kids u)[i := LNode r [kids u ! i]]"
  let ?u = "LNode (lid u) ?ts"
  have wf': "wf_upto {} L t" using wf by (simp add: wf_upto_empty)
  note w = wf_treeD [OF wf]
  have ru: "rep L u" by (rule rep_subtree [OF w(2) u])
  have ut: "set (tree_ids u) \<subseteq> set (tree_ids t)" by (rule subtree_ids_subset [OF u])
  have du: "distinct (tree_ids u)" by (rule subtree_distinct [OF w(3) u])
  have "mset (concat (map tree_ids ?ts)) = add_mset r (mset (concat (map tree_ids (kids u))))"
    using i arg_cong [OF id_take_nth_drop [OF i], of "\<lambda>ts. mset (concat (map tree_ids ts))"]
    by (simp add: upd_conv_take_nth_drop)
  then have mu: "mset (tree_ids ?u) = mset (r # tree_ids u)" by (cases u) simp
  have d': "distinct (tree_ids ?u)"
    using du r ut mset_eq_imp_distinct_iff [OF mu] by auto
  have su: "set (tree_ids ?u) = insert r (set (tree_ids u))" using mset_eq_setD [OF mu] by simp
  have rk: "rep M v" if v: "v \<in> set (kids u)" for v
  proof (rule rep_cong [OF rep_kid [OF ru v]])
    fix k c assume k: "k \<in> set (tree_ids v)" "obj_get L k = Some c"
    have "k \<noteq> lid u" using child_not_below [OF w(3) u v] k(1) by blast
    moreover have "k \<noteq> r" using r ut kid_ids [OF v] k(1) by blast
    ultimately show "\<exists>d. obj_get M k = Some d \<and> same_shape c d"
      using frame [of k] k(2) by (simp add: option_rel_Some1)
  qed
  have "rep M (LNode r [kids u ! i])" using row rk i by simp
  then have "\<forall>v \<in> set ?ts. rep M v"
    using rk by (auto dest!: set_update_subset_insert [THEN subsetD])
  then have rep': "rep M ?u" using d by (simp add: map_update)
  have fr: "rel_option same_shape (obj_get L k) (obj_get M k)" if "k \<notin> set (tree_ids ?u)" for k
    using that su lid_in_tree_ids [of u] by (intro frame) auto
  have "wf_upto {} M t'"
    unfolding t'_def using su r by (intro wf_upto_put(1) [OF wf' u _ ok rep' d' _ fr]) auto
  then show "wf_tree M t'" by (simp add: wf_upto_empty)
  show "set (tree_ids t') = insert r (set (tree_ids t))"
    unfolding t'_def using su ut r
    by (subst wf_upto_put(2) [OF wf' u _ ok rep' d' _ fr, where E' = "{}"]) auto
qed

section \<open>Widths on a tree\<close>

text \<open>Paths of the tree: the last id of a path is the parent, whose path is the rest.\<close>

lemma tree_paths_parent:
  "(k, qs) \<in> set (tree_paths ps t) \<Longrightarrow> qs = ps \<and> k = lid t \<or>
     (\<exists>rs p. qs = rs @ [p] \<and> (p, rs) \<in> set (tree_paths ps t) \<and> (p, k) \<in> set (tree_edges t))"
proof (induction t arbitrary: ps)
  case (LNode i ts)
  show ?case
  proof (cases "(k, qs) = (i, ps)")
    case False
    with LNode.prems obtain r where r: "r \<in> set ts" "(k, qs) \<in> set (tree_paths (ps @ [i]) r)" by auto
    from LNode.IH [OF this] r(1) show ?thesis by fastforce
  qed simp
qed

lemma tree_paths_length: "(k, qs) \<in> set (tree_paths ps t) \<Longrightarrow> length qs < length ps + height t"
proof (induction t arbitrary: ps)
  case (LNode i ts)
  show ?case
  proof (cases "(k, qs) = (i, ps)")
    case False
    with LNode.prems obtain r where r: "r \<in> set ts" "(k, qs) \<in> set (tree_paths (ps @ [i]) r)" by auto
    from LNode.IH [OF this] height_kid [OF r(1)] show ?thesis by simp
  qed simp
qed

lemma tree_paths_mem: "k \<in> set (tree_ids t) \<Longrightarrow> \<exists>qs. (k, qs) \<in> set (tree_paths ps t)"
proof -
  assume "k \<in> set (tree_ids t)"
  then have "k \<in> set (map fst (tree_paths ps t))" by (simp only: map_fst_tree_paths)
  then show ?thesis by auto
qed

lemma detailed_width_fuel_total:
  assumes wf: "wf_tree L t" and k: "(k, qs) \<in> set (tree_paths [] t)" and c: "obj_get L k = Some c"
    and n: "length qs + 2 \<le> n"
  shows "\<exists>w. detailed_width_fuel n L (Some c) = Inr w"
  using k c n
proof (induction "length qs" arbitrary: k qs c n rule: less_induct)
  case less
  then obtain m where n: "n = Suc m" by (cases n) auto
  note w = wf_treeD [OF wf]
  have kids: "obj_get L x \<noteq> None" if "x \<in> set (children c)" for x
  proof -
    have "(k, x) \<in> set (tree_edges t)" using wf_tree_child [OF wf less.prems(2)] that by simp
    then show ?thesis using set_tree_edges rep_ids [OF w(2)] by (metis image_eqI snd_conv subsetD)
  qed
  consider (row) "item_type c = ROW_TYPE" | (column) "item_type c = COLUMN_TYPE"
    | (other) "item_type c \<noteq> ROW_TYPE" "item_type c \<noteq> COLUMN_TYPE" by blast
  then show ?case
  proof cases
    case row
    have "\<exists>w. detailed_width_fuel m L
       (case findParentId (item_id c) L of None \<Rightarrow> None | Some p \<Rightarrow> obj_get L p) = Inr w"
    proof (cases "findParentId (item_id c) L")
      case None
      then show ?thesis using less.prems(3) n by (cases m) auto
    next
      case (Some p)
      then have e: "(p, k) \<in> set (tree_edges t)"
        using findParentId_iff [OF wf] w(5) [OF less.prems(2)] by simp
      obtain d where d: "obj_get L p = Some d" using rep_ids [OF w(2) fst_tree_edges [OF e]] by blast
      have "k \<noteq> lid t" using e distinct_edges [OF w(3)] by force
      then obtain rs p' where q: "qs = rs @ [p']" "(p', rs) \<in> set (tree_paths [] t)"
          "(p', k) \<in> set (tree_edges t)"
        using tree_paths_parent [OF less.prems(1)] by auto
      with unique_parent_edge [OF w(3) e] have "p' = p" by blast
      with q d less.hyps [of rs p d m] less.prems(3) n Some show ?thesis by auto
    qed
    with row show ?thesis by (auto simp: n Let_def)
  next
    case column
    have "rmap (\<lambda>k. rbind (or_throw TypeError (obj_get L k))
        (\<lambda>ch. Inr (if item_type ch = ROW_TYPE then [getTotalChildWidth k L] else []))) (children c) =
      Inr (map (\<lambda>k. if item_type (the (obj_get L k)) = ROW_TYPE then [getTotalChildWidth k L] else [])
             (children c))"
      using kids by (intro rmap_Inr) (auto simp: or_throw_def split: option.splits)
    with column show ?thesis by (simp add: n)
  next
    case other
    then show ?thesis by (simp add: n)
  qed
qed

lemma getDetailedComponentWidth_total:
  assumes wf: "wf_tree L t" and c: "obj_get L k = Some c"
  shows "\<exists>w. getDetailedComponentWidth (Some c) L = Inr w"
proof (cases "k \<in> set (tree_ids t)")
  case True
  then obtain qs where qs: "(k, qs) \<in> set (tree_paths [] t)" using tree_paths_mem by blast
  have "length qs + 2 \<le> Suc (Suc (length L))"
    using tree_paths_length [OF qs] height_le_length [of t] rep_length [OF wf_treeD(2) [OF wf] wf_treeD(3) [OF wf]]
    by simp
  with detailed_width_fuel_total [OF wf qs c] show ?thesis by (simp only: getDetailedComponentWidth_def)
next
  case False
  with wf_treeD(6) [OF wf c] have ch: "children c = []" by simp
  have "findParentId (item_id c) L = None"
  proof -
    have "(p, k) \<notin> set (tree_edges t)" for p
      using False set_tree_edges by (metis image_eqI snd_conv subsetD)
    then show ?thesis using findParentId_iff [OF wf] wf_treeD(5) [OF wf c] by (metis option.exhaust)
  qed
  then show ?thesis by (simp add: getDetailedComponentWidth_def ch Let_def)
qed

lemma width_by_id_total: "wf_tree L t \<Longrightarrow> \<exists>w. width_by_id i L = Inr w"
proof -
  assume wf: "wf_tree L t"
  have "\<exists>w. getDetailedComponentWidth c L = Inr w" if "c = None \<or> (\<exists>k. c = obj_get L k)" for c
  proof (cases c)
    case None
    then show ?thesis by (simp add: getDetailedComponentWidth_def)
  next
    case (Some d)
    with that obtain k where "obj_get L k = Some d" by auto
    from getDetailedComponentWidth_total [OF wf this] Some show ?thesis by simp
  qed
  then show ?thesis unfolding width_by_id_def by (cases i) auto
qed

lemma new_component_width_total:
  "wf_tree L t \<Longrightarrow> generateId ty nid \<notin> set (tree_ids t) \<Longrightarrow>
     \<exists>w. getDetailedComponentWidth (Some (newComponentFactory tr nid ty mt)) L = Inr w"
proof -
  assume wf: "wf_tree L t" and new: "generateId ty nid \<notin> set (tree_ids t)"
  have "(p, generateId ty nid) \<notin> set (tree_edges t)" for p
    using new set_tree_edges by (metis image_eqI snd_conv subsetD)
  then have "findParentId (generateId ty nid) L = None"
    using findParentId_iff [OF wf] by (metis option.exhaust)
  then show ?thesis by (cases "ty = ROW_TYPE") (simp_all add: getDetailedComponentWidth_def Let_def)
qed

lemma getComponentWidthFromDrop_total:
  assumes wf: "wf_tree L t"
    and old: "loc_id (source dr) \<noteq> NEW_COMPONENTS_SOURCE_ID \<Longrightarrow> obj_get L (drag_id (dragging dr)) \<noteq> None"
    and new: "loc_id (source dr) = NEW_COMPONENTS_SOURCE_ID \<Longrightarrow>
                generateId (drag_type (dragging dr)) nid \<notin> set (tree_ids t)"
  shows "\<exists>w. getComponentWidthFromDrop tr nid dr L = Inr w"
proof (cases "destination dr")
  case (Some dest)
  let ?comp = "if loc_id (source dr) = NEW_COMPONENTS_SOURCE_ID
     then Some (newComponentFactory tr nid (drag_type (dragging dr)) [])
     else obj_get L (drag_id (dragging dr))"
  obtain c where c: "?comp = Some c"
    using old by (cases "loc_id (source dr) = NEW_COMPONENTS_SOURCE_ID") auto
  have "\<exists>dw. getDetailedComponentWidth (Some c) L = Inr dw"
  proof (cases "loc_id (source dr) = NEW_COMPONENTS_SOURCE_ID")
    case True
    with c new_component_width_total [OF wf new [OF True], of tr "[]"] show ?thesis by simp
  next
    case False
    with c getDetailedComponentWidth_total [OF wf, of "drag_id (dragging dr)" c] show ?thesis by simp
  qed
  with c obtain dw where dw: "getDetailedComponentWidth ?comp L = Inr dw" by auto
  obtain destw where destw: "width_by_id (Some (loc_id dest)) L = Inr destw"
    using width_by_id_total [OF wf] by blast
  obtain gp where gp: "width_by_id (findParentId (loc_id dest) L) L = Inr gp"
    using width_by_id_total [OF wf] by blast
  have d: "getDetailedComponentWidth (Some c) L = Inr dw" using dw c by simp
  have "\<exists>w. (if loc_id (source dr) = loc_id dest
     then rbind (or_throw TypeError (Some c)) (\<lambda>c. Inr (meta_width c))
     else rbind (getDetailedComponentWidth (Some c) L) (\<lambda>dw.
          rbind (width_by_id (Some (loc_id dest)) L) (\<lambda>destw.
          rbind (case num_diff (dw_width destw) (dw_occupied destw) of
                   Some cap \<Rightarrow> Inr (Some cap)
                 | None \<Rightarrow> rbind (width_by_id (findParentId (loc_id dest) L) L)
                             (\<lambda>gp. Inr (num_diff (dw_width gp) (dw_occupied gp))))
            (\<lambda>capacity. Inr (fitted_width capacity (dw_width dw) (dw_minimum dw)))))) = Inr w"
    by (cases "num_diff (dw_width destw) (dw_occupied destw)") (simp_all add: d destw gp)
  then show ?thesis unfolding getComponentWidthFromDrop_def Some Let_def c by simp
qed (simp add: getComponentWidthFromDrop_def)

section \<open>Creating a component\<close>

definition fresh :: "string \<Rightarrow> layout \<Rightarrow> bool" where
  "fresh i L = (obj_get L i = None)"

lemma rep_fresh: "rep L t \<Longrightarrow> obj_get L i = None \<Longrightarrow> i \<notin> set (tree_ids t)"
  using rep_ids by blast

text \<open>The ids that the new component, its row or its first tab get are not in use.\<close>

definition new_ids_ok :: "string \<Rightarrow> string \<Rightarrow> drop_result \<Rightarrow> layout \<Rightarrow> bool" where
  "new_ids_ok n1 n2 dr L =
     (let ty = drag_type (dragging dr)
      in list_all (\<lambda>i. obj_get L i = None)
           [generateId ty n1, generateId ROW_TYPE n2, generateId TAB_TYPE n2] \<and>
         n1 \<noteq> n2)"

lemma distinct_new_ids: "n1 \<noteq> n2 \<Longrightarrow> generateId s n1 \<noteq> generateId u n2"
  by (simp add: generateId_inject)

lemma same_as_spread:
  assumes "obj_ok ents"
  shows "obj_get (obj_spread L ents) k = (case obj_get ents k of None \<Rightarrow> obj_get L k | Some v \<Rightarrow> Some v)"
  using assms by (simp add: obj_get_spread_ok split: option.splits)

text \<open>What \<open>newEntitiesFromDrop\<close> returns: one subtree of fresh components, and the drop target with
  the root of that subtree among its children.\<close>

lemma newEntitiesFromDrop_shape:
  assumes wf: "wf_tree L t" and dest: "destination dr = Some dest"
    and d: "obj_get L (loc_id dest) = Some d" and ids: "new_ids_ok n1 n2 dr L"
    and new: "loc_id (source dr) = NEW_COMPONENTS_SOURCE_ID"
  shows "\<exists>ents v. newEntitiesFromDrop tr n1 n2 dr L = Inr ents \<and> obj_ok ents \<and> rep ents v \<and>
     distinct (tree_ids v) \<and> set (tree_ids v) \<inter> fst ` set L = {} \<and>
     obj_get ents (loc_id dest) =
       Some (d\<lparr>children := splice_insert (children d) (loc_index dest) (lid v)\<rparr>) \<and>
     (\<forall>k. obj_get ents k \<noteq> None \<longleftrightarrow> k = loc_id dest \<or> k \<in> set (tree_ids v)) \<and>
     generateId (drag_type (dragging dr)) n1 \<in> set (tree_ids v)"
proof -
  let ?ty = "drag_type (dragging dr)"
  let ?a = "generateId ?ty n1" and ?r = "generateId ROW_TYPE n2" and ?b = "generateId TAB_TYPE n2"
  from ids have fr: "obj_get L ?a = None" "obj_get L ?r = None"
    "obj_get L ?b = None" "n1 \<noteq> n2"
    by (simp_all add: new_ids_ok_def Let_def)
  have nd: "loc_id dest \<noteq> ?a" "loc_id dest \<noteq> ?r" "loc_id dest \<noteq> ?b" using fr d by auto
  have ne: "?a \<noteq> ?r" "?a \<noteq> ?b" using fr(4) by (simp_all add: generateId_inject)
  have notin: "?a \<notin> fst ` set L" "?r \<notin> fst ` set L" "?b \<notin> fst ` set L"
    using fr by (simp_all add: map_of_eq_None_iff)
  obtain w where w: "getComponentWidthFromDrop tr n1 dr L = Inr w"
    using getComponentWidthFromDrop_total [OF wf] new rep_fresh [OF wf_treeD(2) [OF wf] fr(1)] by blast
  then obtain resize where resize: "(if componentIsResizable ?ty
      then rbind (getComponentWidthFromDrop tr n1 dr L)
             (\<lambda>w. Inr (obj_set ''width'' (width_or_undefined w)))
      else Inr (\<lambda>m. m)) = (Inr resize :: (jsobj \<Rightarrow> jsobj) result)"
    by (cases "componentIsResizable ?ty") auto
  let ?base = "newComponentFactory tr n1 ?ty (drag_meta (dragging dr))"
  define child where "child = ?base\<lparr>parents := Some (parents_below d), meta := resize (meta ?base)\<rparr>"
  define row where "row = (newComponentFactory tr n2 ROW_TYPE [])
      \<lparr>children := [?a], parents := Some (parents_below d)\<rparr>"
  define tab where "tab = (newComponentFactory tr n2 TAB_TYPE [])\<lparr>parents := Some (parents_below d)\<rparr>"
  let ?d = "\<lambda>k. d\<lparr>children := splice_insert (children d) (loc_index dest) k\<rparr>"
  have child: "item_id child = ?a" "children child = []" by (simp_all add: child_def)
  have row: "item_id row = ?r" "children row = [?a]" by (simp_all add: row_def)
  have tab: "item_id tab = ?b" "children tab = []" by (simp_all add: tab_def)
  have e: "newEntitiesFromDrop tr n1 n2 dr L =
      (if shouldWrapChildInRow (Some (item_type d)) (Some ?ty)
       then Inr (obj_set (loc_id dest) (?d ?r)
              (obj_set ?r row [(?a, child\<lparr>parents := Some (parents_below row)\<rparr>)]))
       else if ?ty = TABS_TYPE
       then Inr (obj_set (loc_id dest) (?d ?a) (obj_set ?b tab [(?a, child\<lparr>children := [?b]\<rparr>)]))
       else Inr (obj_set (loc_id dest) (?d ?a) [(?a, child)]))"
    unfolding newEntitiesFromDrop_def dest d option.case or_throw_simps rbind_simps resize Let_def
    by (simp add: child_def row_def tab_def)
  consider "shouldWrapChildInRow (Some (item_type d)) (Some ?ty)"
    | "\<not> shouldWrapChildInRow (Some (item_type d)) (Some ?ty)" "?ty = TABS_TYPE"
    | "\<not> shouldWrapChildInRow (Some (item_type d)) (Some ?ty)" "?ty \<noteq> TABS_TYPE" by blast
  then show ?thesis
  proof cases
    case 1
    then show ?thesis using nd ne notin child row
      by (intro exI [of _ "obj_set (loc_id dest) (?d ?r)
              (obj_set ?r row [(?a, child\<lparr>parents := Some (parents_below row)\<rparr>)])"]
            exI [of _ "LNode ?r [LNode ?a []]"]) (auto simp: e obj_ok_def)
  next
    case 2
    then show ?thesis using nd ne notin child tab
      by (intro exI [of _ "obj_set (loc_id dest) (?d ?a) (obj_set ?b tab [(?a, child\<lparr>children := [?b]\<rparr>)])"]
            exI [of _ "LNode ?a [LNode ?b []]"]) (auto simp: e obj_ok_def)
  next
    case 3
    then show ?thesis using nd ne notin child
      by (intro exI [of _ "obj_set (loc_id dest) (?d ?a) [(?a, child)]"] exI [of _ "LNode ?a []"])
        (auto simp: e obj_ok_def)
  qed
qed

lemma root_plain_cong:
  "root_plain L \<Longrightarrow>
   rel_option (\<lambda>c d. parents d = parents c) (obj_get L DASHBOARD_ROOT_ID) (obj_get M DASHBOARD_ROOT_ID) \<Longrightarrow>
   root_plain M"
  by (auto simp: root_plain_def option_rel_Some1 split: option.splits)

lemma create_component_wf:
  assumes wf: "wf_tree L t" and dest: "destination dr = Some dest"
    and d: "loc_id dest \<in> set (tree_ids t)" and ids: "new_ids_ok n1 n2 dr L"
    and new: "loc_id (source dr) = NEW_COMPONENTS_SOURCE_ID"
  shows "\<exists>M t'. create_component tr n1 n2 (Some dr) L = Inr (Some M) \<and> wf_tree M t' \<and>
     (root_plain L \<longrightarrow> root_plain M) \<and>
     insert (generateId (drag_type (dragging dr)) n1) (set (tree_ids t)) \<subseteq> set (tree_ids t')"
proof -
  note w = wf_treeD [OF wf]
  from rep_ids [OF w(2) d] obtain c where c: "obj_get L (loc_id dest) = Some c" by blast
  from d obtain u where u: "u \<in> set (subtrees t)" "lid u = loc_id dest" by (auto simp: tree_ids_mem)
  have cu: "children c = map lid (kids u)" using rep_get [OF rep_subtree [OF w(2) u(1)]] u(2) c by simp
  obtain ents v where e: "newEntitiesFromDrop tr n1 n2 dr L = Inr ents" "obj_ok ents" "rep ents v"
     "distinct (tree_ids v)" "set (tree_ids v) \<inter> fst ` set L = {}"
     "obj_get ents (loc_id dest) =
        Some (c\<lparr>children := splice_insert (children c) (loc_index dest) (lid v)\<rparr>)"
     "\<And>k. obj_get ents k \<noteq> None \<longleftrightarrow> k = loc_id dest \<or> k \<in> set (tree_ids v)"
     "generateId (drag_type (dragging dr)) n1 \<in> set (tree_ids v)"
    using newEntitiesFromDrop_shape [OF wf dest c ids new, of tr] by blast
  let ?M = "obj_spread L ents"
  have get: "obj_get ?M k = (case obj_get ents k of None \<Rightarrow> obj_get L k | Some v \<Rightarrow> Some v)" for k
    by (rule same_as_spread [OF e(2)])
  have wf': "wf_upto {} L t" using wf by (simp add: wf_upto_empty)
  have rv: "rep ?M v"
  proof (rule rep_frame [OF e(3)])
    fix k assume "k \<in> set (tree_ids v)"
    with e(7) have "obj_get ents k \<noteq> None" by blast
    then show "obj_get ?M k = obj_get ents k" by (auto simp: get)
  qed
  have dj: "set (tree_ids v) \<inter> set (tree_ids t) = {}"
    using e(5) rep_ids [OF w(2)] by (auto simp: map_of_eq_None_iff)
  have ok: "obj_ok ?M" using w(1) by simp
  let ?d = "c\<lparr>children := splice_insert (children c) (loc_index dest) (lid v)\<rparr>"
  have gd: "obj_get ?M (lid u) = Some ?d" using e(6) u(2) by (simp add: get)
  have id: "item_id ?d = lid u" using w(5) [OF c] u(2) by simp
  have ch: "children ?d = splice_insert (map lid (kids u)) (loc_index dest) (lid v)" using cu by simp
  have fr: "rel_option same_shape (obj_get L k) (obj_get ?M k)"
    if "k \<notin> set (tree_ids v)" "k \<noteq> lid u" for k
  proof -
    from that e(7) [of k] u(2) have "obj_get ents k = None" by auto
    then show ?thesis by (simp add: get)
  qed
  note wf_insert_child [OF wf' u(1) rv e(4) dj _ ok gd id ch fr]
  then have "wf_tree ?M (tree_put (LNode (lid u) (splice_insert (kids u) (loc_index dest) v)) t)"
    and "set (tree_ids (tree_put (LNode (lid u) (splice_insert (kids u) (loc_index dest) v)) t)) =
      set (tree_ids t) \<union> set (tree_ids v)"
    by auto
  moreover have "root_plain ?M" if "root_plain L"
  proof (rule root_plain_cong [OF that])
    have "DASHBOARD_ROOT_ID \<notin> set (tree_ids v)"
      using dj w(4) lid_in_tree_ids [of t] by auto
    with e(6) e(7) [of DASHBOARD_ROOT_ID] c
    show "rel_option (\<lambda>c d. parents d = parents c) (obj_get L DASHBOARD_ROOT_ID) (obj_get ?M DASHBOARD_ROOT_ID)"
      by (cases "loc_id dest = DASHBOARD_ROOT_ID") (auto simp: get option.rel_refl)
  qed
  ultimately show ?thesis using e(1,8) by (auto simp: create_component_def)
qed

section \<open>Moving a component\<close>

lemma length_splice_remove:
  "js_nth xs i = Some x \<Longrightarrow> length (splice_remove xs i) = length xs - 1"
  using arg_cong [OF mset_splice_remove [of xs i x], of size] by simp

lemma js_nth_splice_insert:
  "0 \<le> i \<Longrightarrow> i \<le> int (length xs) \<Longrightarrow> js_nth (splice_insert xs i x) i = Some x"
  by (simp add: js_nth_def splice_insert_def splice_start_def Let_def nth_append min_def)

lemma js_nth_map: "js_nth (map f xs) i = map_option f (js_nth xs i)"
  by (auto simp: js_nth_def)

lemma js_nth_range: "js_nth xs i \<noteq> None \<longleftrightarrow> 0 \<le> i \<and> i < int (length xs)"
  by (simp add: js_nth_def)

lemma splice_start_js_nth: "js_nth xs i = Some x \<Longrightarrow> splice_start (length xs) i = nat i \<and> nat i < length xs \<and> xs ! nat i = x"
  by (auto simp: js_nth_def splice_start_def split: if_splits)

lemma reorder_eq:
  "js_nth xs a = Some x \<Longrightarrow> reorder xs a b = Inr (splice_insert (splice_remove xs a) b x)"
  using splice_start_js_nth [of xs a x] by (simp add: reorder_def Let_def)

lemma reorder_mset: "reorder xs a b = Inr ys \<Longrightarrow> mset ys = mset xs"
proof -
  assume r: "reorder xs a b = Inr ys"
  let ?k = "splice_start (length xs) a"
  from r have k: "?k < length xs" and ys: "ys = splice_insert (splice_remove xs a) b (xs ! ?k)"
    by (auto simp: reorder_def Let_def split: if_splits)
  have "mset xs = mset (take ?k xs @ xs ! ?k # drop (Suc ?k) xs)"
    using id_take_nth_drop [OF k] by simp
  then show ?thesis by (simp add: ys splice_remove_def Let_def)
qed

definition keeps_data :: "layout_item \<Rightarrow> layout_item \<Rightarrow> bool" where
  "keeps_data c d \<longleftrightarrow> item_type d = item_type c \<and> meta d = meta c \<and> parents d = parents c \<and> item_id d = item_id c"

lemma keeps_data_refl [simp]: "keeps_data c c"
  by (simp add: keeps_data_def)

lemma set_children_keeps: "rel_option keeps_data (obj_get L k) (obj_get (set_children p ks L) k)"
  by (cases "obj_get L k") (auto simp: set_children_get keeps_data_def)

lemma keeps_data_trans:
  "rel_option keeps_data x y \<Longrightarrow> rel_option keeps_data y z \<Longrightarrow> rel_option keeps_data x z"
  by (cases x; cases y; cases z) (auto simp: keeps_data_def)

lemma remove1_splice: "distinct xs \<Longrightarrow> js_nth xs i = Some x \<Longrightarrow> splice_remove xs i = remove1 x xs"
proof -
  assume d: "distinct xs" and n: "js_nth xs i = Some x"
  from splice_start_js_nth [OF n] have k: "splice_start (length xs) i = nat i" "nat i < length xs"
    "xs ! nat i = x" by auto
  have "index_of x xs = Some (nat i)"
  proof (cases "index_of x xs")
    case None
    then have "x \<notin> set xs" by simp
    then show ?thesis using js_nth_in_set [OF n] by blast
  next
    case (Some j)
    with index_of_Some [OF this] k d show ?thesis by (metis nth_eq_iff_index_eq)
  qed
  then have "splice_remove xs (int (nat i)) = remove1 x xs" by (rule splice_remove_index)
  moreover have "0 \<le> i" using n by (simp add: js_nth_def split: if_splits)
  ultimately show ?thesis by simp
qed

text \<open>Conditions on a drop of a component that is on the dashboard: the source and the destination
  are in the tree, the component is the one at the source's place, and the destination is not inside
  it.\<close>

definition move_ok :: "layout \<Rightarrow> ltree \<Rightarrow> location \<Rightarrow> location \<Rightarrow> string \<Rightarrow> bool" where
  "move_ok L t src dest x =
     (loc_id src \<in> set (tree_ids t) \<and> loc_id dest \<in> set (tree_ids t) \<and>
      (case obj_get L (loc_id src) of None \<Rightarrow> False
       | Some s \<Rightarrow> js_nth (children s) (loc_index src) = Some x) \<and>
      list_all (\<lambda>s. lid s = x \<longrightarrow> loc_id dest \<notin> set (tree_ids s)) (subtrees t))"

lemma move_okE:
  assumes wf: "wf_tree L t" and mv: "move_ok L t src dest x"
  obtains u v s c d where "u \<in> set (subtrees t)" "lid u = loc_id src" "v \<in> set (subtrees t)"
    "lid v = loc_id dest" "s \<in> set (kids u)" "lid s = x" "loc_id dest \<notin> set (tree_ids s)"
    "obj_get L (loc_id src) = Some c" "obj_get L (loc_id dest) = Some d"
    "children c = map lid (kids u)" "children d = map lid (kids v)"
    "js_nth (children c) (loc_index src) = Some x" "js_nth (kids u) (loc_index src) = Some s"
proof -
  note w = wf_treeD [OF wf]
  from mv obtain u v where u: "u \<in> set (subtrees t)" "lid u = loc_id src"
      "v \<in> set (subtrees t)" "lid v = loc_id dest"
    by (auto simp: move_ok_def tree_ids_mem)
  obtain c d where c: "obj_get L (loc_id src) = Some c" "children c = map lid (kids u)"
    "obj_get L (loc_id dest) = Some d" "children d = map lid (kids v)"
    using rep_get [OF rep_subtree [OF w(2) u(1)]] rep_get [OF rep_subtree [OF w(2) u(3)]] u by auto
  with mv have n: "js_nth (children c) (loc_index src) = Some x" by (simp add: move_ok_def)
  then obtain s where s: "js_nth (kids u) (loc_index src) = Some s" "lid s = x"
    by (auto simp: c(2) js_nth_map)
  then have sk: "s \<in> set (kids u)" by (blast dest: js_nth_in_set)
  then have "s \<in> set (subtrees t)" using u(1) kid_subtree subtrees_trans by blast
  with mv s(2) have "loc_id dest \<notin> set (tree_ids s)" by (auto simp: move_ok_def list_all_iff)
  with that u c n s sk show ?thesis by blast
qed

lemma reorderItem_same:
  assumes wf: "wf_tree L t" and mv: "move_ok L t src dest x" and same: "loc_id src = loc_id dest"
  shows "\<exists>N t'. reorderItem L src dest pos = Inr N \<and> wf_tree N t' \<and>
     set (tree_ids t') = set (tree_ids t) \<and> (\<forall>k. rel_option keeps_data (obj_get L k) (obj_get N k)) \<and>
     (loc_type dest \<noteq> TABS_TYPE \<longrightarrow> 0 \<le> loc_index dest \<longrightarrow>
      (\<forall>d. obj_get L (loc_id dest) = Some d \<longrightarrow> loc_index dest < int (length (children d)) \<longrightarrow>
         (\<exists>d'. obj_get N (loc_id dest) = Some d' \<and> js_nth (children d') (loc_index dest) = Some x)))"
proof -
  from move_okE [OF wf mv] obtain u s c where u: "u \<in> set (subtrees t)" "lid u = loc_id src"
    and c: "obj_get L (loc_id src) = Some c" "children c = map lid (kids u)"
    and n: "js_nth (children c) (loc_index src) = Some x" "js_nth (kids u) (loc_index src) = Some s"
      "lid s = x"
    by metis
  let ?i = "same_list_index (loc_type dest = TABS_TYPE) pos (loc_index src) (loc_index dest)"
  show ?thesis
  proof (cases ?i)
    case None
    then have t: "loc_type dest = TABS_TYPE" by (auto simp: same_list_index_def split: if_splits)
    have "reorderItem L src dest pos = Inr L"
      using None c same by (simp add: reorderItem_def Let_def)
    with wf t show ?thesis by (intro exI [of _ L] exI [of _ t]) (auto simp: option.rel_refl)
  next
    case (Some i)
    let ?ts = "splice_insert (splice_remove (kids u) (loc_index src)) i s"
    have ks: "reorder (children c) (loc_index src) i = Inr (map lid ?ts)"
      using reorder_eq [OF n(1)] by (simp add: c(2) map_splice_insert map_splice_remove n(3))
    have m: "mset ?ts = mset (kids u)"
      using reorder_mset reorder_eq [OF n(2)] by blast
    let ?N = "set_children (loc_id src) (map lid ?ts) L"
    have r: "reorderItem L src dest pos = Inr ?N"
      using Some c same ks by (simp add: reorderItem_def Let_def)
    have "js_nth (map lid ?ts) (loc_index dest) = Some x"
      if "loc_type dest \<noteq> TABS_TYPE" "0 \<le> loc_index dest" "loc_index dest < int (length (children c))"
    proof -
      from that(1) Some have i: "i = loc_index dest" by (simp add: same_list_index_def)
      have "loc_index dest \<le> int (length (splice_remove (kids u) (loc_index src)))"
        using that(3) length_splice_remove [OF n(2)] by (simp add: c(2))
      with that(2) show ?thesis by (simp add: i js_nth_map js_nth_splice_insert n(3))
    qed
    with c(1) same have "loc_type dest \<noteq> TABS_TYPE \<longrightarrow> 0 \<le> loc_index dest \<longrightarrow>
      (\<forall>d. obj_get L (loc_id dest) = Some d \<longrightarrow> loc_index dest < int (length (children d)) \<longrightarrow>
         (\<exists>d'. obj_get ?N (loc_id dest) = Some d' \<and> js_nth (children d') (loc_index dest) = Some x))"
      by (simp add: set_children_get)
    with r wf_permute_children [OF wf u(1) m] u(2) set_children_keeps show ?thesis
      by (intro exI [of _ ?N] exI [of _ "tree_put (LNode (lid u) ?ts) t"]) simp
  qed
qed

lemma reorderItem_other:
  assumes wf: "wf_tree L t" and mv: "move_ok L t src dest x" and other: "loc_id src \<noteq> loc_id dest"
  shows "\<exists>N t'. reorderItem L src dest pos = Inr N \<and> wf_tree N t' \<and>
     set (tree_ids t') = set (tree_ids t) \<and> (\<forall>k. rel_option keeps_data (obj_get L k) (obj_get N k)) \<and>
     (loc_type dest \<noteq> TABS_TYPE \<longrightarrow> 0 \<le> loc_index dest \<longrightarrow>
      (\<forall>d. obj_get L (loc_id dest) = Some d \<longrightarrow> loc_index dest \<le> int (length (children d)) \<longrightarrow>
         (\<exists>d'. obj_get N (loc_id dest) = Some d' \<and> js_nth (children d') (loc_index dest) = Some x)))"
proof -
  from move_okE [OF wf mv] obtain u v s c d where u: "u \<in> set (subtrees t)" "lid u = loc_id src"
    and v: "v \<in> set (subtrees t)" "lid v = loc_id dest"
    and s: "s \<in> set (kids u)" "lid s = x" "loc_id dest \<notin> set (tree_ids s)"
    and c: "obj_get L (loc_id src) = Some c" "children c = map lid (kids u)"
    and d: "obj_get L (loc_id dest) = Some d" "children d = map lid (kids v)"
    and n: "js_nth (children c) (loc_index src) = Some x"
    by metis
  note w = wf_treeD [OF wf]
  let ?L1 = "set_children (lid u) (remove1 (lid s) (map lid (kids u))) L"
  let ?u1 = "LNode (lid u) (remove1 s (kids u))"
  let ?t1 = "tree_put ?u1 t"
  let ?i = "other_list_index (loc_type dest = TABS_TYPE) pos (loc_index dest) (length (children c))"
  let ?N = "set_children (loc_id dest) (splice_insert (children d) ?i x) ?L1"
  have "splice_remove (children c) (loc_index src) = remove1 x (children c)"
    using remove1_splice kids_lid_distinct [OF subtree_distinct [OF w(3) u(1)]] n c(2) by simp
  then have r: "reorderItem L src dest pos = Inr ?N"
    using c d n other s(2) u(2) by (simp add: reorderItem_def Let_def)
  note cut = wf_cut_child [OF wf u(1) s(1)]
  note w1 = wf_uptoD [OF cut(1)]
  have "loc_id dest \<in> set (tree_ids ?t1)"
    using cut(2) s(3) v subtree_ids_subset [OF v(1)] lid_in_tree_ids [of v] by auto
  then obtain v1 where v1: "v1 \<in> set (subtrees ?t1)" "lid v1 = loc_id dest" by (auto simp: tree_ids_mem)
  have L1d: "obj_get ?L1 (loc_id dest) = Some d" using d(1) other u(2) by (simp add: set_children_get)
  with rep_get [OF rep_subtree [OF w1(2) v1(1)]] v1(2) have v1k: "children d = map lid (kids v1)" by simp
  have st: "s \<in> set (subtrees t)" using u(1) s(1) kid_subtree subtrees_trans by blast
  have ds: "distinct (tree_ids s)" by (rule subtree_distinct [OF w(3) st])
  have rs: "rep ?N s"
  proof (rule rep_frame [OF rep_subtree [OF w(2) st]])
    fix k assume k: "k \<in> set (tree_ids s)"
    moreover have "lid u \<notin> set (tree_ids s)" by (rule child_not_below [OF w(3) u(1) s(1)])
    ultimately show "obj_get ?N k = obj_get L k" using s(3) by (auto simp: set_children_get)
  qed
  have dj: "set (tree_ids s) \<inter> set (tree_ids ?t1) = {}" using cut(2) by auto
  have ok: "obj_ok ?N" using w1(1) by simp
  let ?d = "d\<lparr>children := splice_insert (children d) ?i x\<rparr>"
  have gd: "obj_get ?N (lid v1) = Some ?d" using L1d v1(2) by (simp add: set_children_get)
  have id: "item_id ?d = lid v1" using w(5) [OF d(1)] v1(2) by simp
  have ch: "children ?d = splice_insert (map lid (kids v1)) ?i (lid s)" using v1k s(2) by simp
  have fr: "rel_option same_shape (obj_get ?L1 k) (obj_get ?N k)"
    if "k \<notin> set (tree_ids s)" "k \<noteq> lid v1" for k
    using that v1(2) by (simp add: set_children_get [of "loc_id dest"])
  let ?t2 = "tree_put (LNode (lid v1) (splice_insert (kids v1) ?i s)) ?t1"
  have w2: "wf_tree ?N ?t2" "set (tree_ids ?t2) = set (tree_ids ?t1) \<union> set (tree_ids s)"
    by (rule wf_insert_child [OF cut(1) v1(1) rs ds dj subset_refl ok gd id ch fr]; assumption)+
  have ids: "set (tree_ids ?t2) = set (tree_ids t)"
    using w2(2) cut(2) subtree_ids_subset [OF st] by auto
  have keeps: "rel_option keeps_data (obj_get L k) (obj_get ?N k)" for k
    by (rule keeps_data_trans [OF set_children_keeps set_children_keeps])
  have nth: "js_nth (children ?d) (loc_index dest) = Some x"
    if "loc_type dest \<noteq> TABS_TYPE" "0 \<le> loc_index dest" "loc_index dest \<le> int (length (children d))"
    using that by (simp add: other_list_index_def js_nth_splice_insert)
  have "loc_type dest \<noteq> TABS_TYPE \<longrightarrow> 0 \<le> loc_index dest \<longrightarrow>
      (\<forall>d. obj_get L (loc_id dest) = Some d \<longrightarrow> loc_index dest \<le> int (length (children d)) \<longrightarrow>
         (\<exists>d'. obj_get ?N (loc_id dest) = Some d' \<and> js_nth (children d') (loc_index dest) = Some x))"
  proof (intro impI allI)
    fix e assume "loc_type dest \<noteq> TABS_TYPE" "0 \<le> loc_index dest" "obj_get L (loc_id dest) = Some e"
      "loc_index dest \<le> int (length (children e))"
    with d(1) have "js_nth (children ?d) (loc_index dest) = Some x" by (intro nth) simp_all
    moreover have "obj_get ?N (loc_id dest) = Some ?d" using gd by (simp only: v1(2))
    ultimately show "\<exists>d'. obj_get ?N (loc_id dest) = Some d' \<and> js_nth (children d') (loc_index dest) = Some x"
      by blast
  qed
  with r w2(1) ids keeps show ?thesis by (intro exI [of _ ?N] exI [of _ ?t2]) blast
qed

text \<open>The place named by the drop result is a place of the destination.\<close>

definition index_ok :: "layout \<Rightarrow> location \<Rightarrow> location \<Rightarrow> bool" where
  "index_ok L src dest =
     (0 \<le> loc_index dest \<and>
      (case obj_get L (loc_id dest) of None \<Rightarrow> False
       | Some d \<Rightarrow> (if loc_id src = loc_id dest then loc_index dest < int (length (children d))
                    else loc_index dest \<le> int (length (children d)))))"

lemma reorderItem_wf:
  assumes wf: "wf_tree L t" and mv: "move_ok L t src dest x"
  obtains N t' where "reorderItem L src dest pos = Inr N" "wf_tree N t'"
     "set (tree_ids t') = set (tree_ids t)" "\<And>k. rel_option keeps_data (obj_get L k) (obj_get N k)"
     "loc_type dest \<noteq> TABS_TYPE \<Longrightarrow> index_ok L src dest \<Longrightarrow>
         \<exists>d'. obj_get N (loc_id dest) = Some d' \<and> js_nth (children d') (loc_index dest) = Some x"
proof (cases "loc_id src = loc_id dest")
  case True
  from reorderItem_same [OF wf mv True, of pos] obtain N t' where
    N: "reorderItem L src dest pos = Inr N" "wf_tree N t'" "set (tree_ids t') = set (tree_ids t)"
      "\<forall>k. rel_option keeps_data (obj_get L k) (obj_get N k)"
      "loc_type dest \<noteq> TABS_TYPE \<longrightarrow> 0 \<le> loc_index dest \<longrightarrow>
       (\<forall>d. obj_get L (loc_id dest) = Some d \<longrightarrow> loc_index dest < int (length (children d)) \<longrightarrow>
         (\<exists>d'. obj_get N (loc_id dest) = Some d' \<and> js_nth (children d') (loc_index dest) = Some x))"
    by blast
  show ?thesis
    using N(4,5) True by (intro that [OF N(1-3)]) (auto simp: index_ok_def split: option.splits)
next
  case False
  from reorderItem_other [OF wf mv False, of pos] obtain N t' where
    N: "reorderItem L src dest pos = Inr N" "wf_tree N t'" "set (tree_ids t') = set (tree_ids t)"
      "\<forall>k. rel_option keeps_data (obj_get L k) (obj_get N k)"
      "loc_type dest \<noteq> TABS_TYPE \<longrightarrow> 0 \<le> loc_index dest \<longrightarrow>
       (\<forall>d. obj_get L (loc_id dest) = Some d \<longrightarrow> loc_index dest \<le> int (length (children d)) \<longrightarrow>
         (\<exists>d'. obj_get N (loc_id dest) = Some d' \<and> js_nth (children d') (loc_index dest) = Some x))"
    by blast
  show ?thesis
    using N(4,5) False by (intro that [OF N(1-3)]) (auto simp: index_ok_def split: option.splits)
qed

definition same_parents :: "layout_item \<Rightarrow> layout_item \<Rightarrow> bool" where
  "same_parents c d \<longleftrightarrow> same_shape c d \<and> parents d = parents c \<and> item_type d = item_type c"

lemma keeps_root:
  assumes "root_plain L" and "\<And>k. rel_option keeps_data (obj_get L k) (obj_get N k)"
  shows "root_plain N"
  by (rule root_plain_cong [OF assms(1)])
    (rule option.rel_mono_strong [OF assms(2)], simp add: keeps_data_def)

text \<open>The width of the moved component changes only its \<open>meta\<close>.\<close>

lemma move_resize_ok:
  assumes wf: "wf_tree L t" and old: "loc_id (source dr) \<noteq> NEW_COMPONENTS_SOURCE_ID"
    and x: "obj_get L (drag_id (dragging dr)) \<noteq> None" "obj_get N (drag_id (dragging dr)) \<noteq> None"
    and N: "wf_tree N t'"
  obtains N' where "move_resize tr nid dr L N = Inr N'" "wf_tree N' t'"
    "\<And>k. rel_option same_parents (obj_get N k) (obj_get N' k)"
proof -
  from x(2) obtain c where c: "obj_get N (drag_id (dragging dr)) = Some c" by blast
  obtain w where w: "getComponentWidthFromDrop tr nid dr L = Inr w"
    using getComponentWidthFromDrop_total [OF wf] old x(1) by blast
  define N' where "N' = (if componentIsResizable (item_type c) \<and>
       jget (meta c) ''width'' \<noteq> width_or_undefined w
     then obj_set (drag_id (dragging dr))
            (c\<lparr>meta := obj_set ''width'' (width_or_undefined w) (meta c)\<rparr>) N else N)"
  have r: "move_resize tr nid dr L N = Inr N'"
    by (simp add: move_resize_def c w N'_def Let_def)
  have rel: "rel_option same_parents (obj_get N k) (obj_get N' k)" for k
  proof -
    have "rel_option same_parents y y" for y :: "layout_item option"
      by (cases y) (auto simp: same_parents_def)
    then show ?thesis using c by (auto simp: N'_def same_parents_def same_shape_def)
  qed
  moreover have "rel_option same_shape (obj_get N k) (obj_get N' k)" for k
    by (rule option.rel_mono_strong [OF rel]) (simp add: same_parents_def)
  moreover have "obj_ok N'" using wf_treeD(1) [OF N] by (simp add: N'_def)
  ultimately show ?thesis using that [OF r] wf_tree_same_shape [OF N] by blast
qed

text \<open>The row around the moved component.\<close>

lemma move_wrap_ok:
  assumes wf: "wf_tree N t" and d: "loc_id dest \<in> set (tree_ids t)" and root: "root_plain N"
    and fr: "obj_get N (generateId ROW_TYPE nid) = None"
    and i: "loc_type dest \<noteq> TABS_TYPE \<Longrightarrow>
       \<exists>e. obj_get N (loc_id dest) = Some e \<and> js_nth (children e) (loc_index dest) \<noteq> None"
  obtains M t' where "move_wrap tr nid dr dest N = Inr M" "wf_tree M t'" "root_plain M"
    "set (tree_ids t) \<subseteq> set (tree_ids t')"
    "set (tree_ids t') \<subseteq> insert (generateId ROW_TYPE nid) (set (tree_ids t))"
    "fst ` set N \<subseteq> fst ` set M"
proof (cases "shouldWrapChildInRow (Some (loc_type dest)) (Some (drag_type (dragging dr)))")
  case False
  then have "move_wrap tr nid dr dest N = Inr N" by (simp add: move_wrap_def)
  with wf root show ?thesis by (intro that [of N t]) auto
next
  case True
  then have "loc_type dest \<noteq> TABS_TYPE" by (auto simp: shouldWrapChildInRow_def)
  with i obtain e x where e: "obj_get N (loc_id dest) = Some e" "js_nth (children e) (loc_index dest) = Some x"
    by auto
  note w = wf_treeD [OF wf]
  from d obtain u where u: "u \<in> set (subtrees t)" "lid u = loc_id dest" by (auto simp: tree_ids_mem)
  have cu: "children e = map lid (kids u)" using rep_get [OF rep_subtree [OF w(2) u(1)]] u(2) e(1) by simp
  let ?i = "nat (loc_index dest)"
  have k: "?i < length (kids u)" "x = lid (kids u ! ?i)"
    using splice_start_js_nth [OF e(2)] by (auto simp: cu)
  let ?r = "generateId ROW_TYPE nid"
  let ?row = "(newComponentFactory tr nid ROW_TYPE [])
     \<lparr>children := [x], parents := Some ((case parents e of None \<Rightarrow> [] | Some ps \<Rightarrow> ps) @ [loc_id dest])\<rparr>"
  let ?d = "e\<lparr>children := (children e)[?i := ?r]\<rparr>"
  let ?M = "obj_set ?r ?row (obj_set (loc_id dest) ?d N)"
  have m: "move_wrap tr nid dr dest N = Inr ?M" by (simp add: move_wrap_def True e Let_def)
  have rn: "?r \<notin> set (tree_ids t)" by (rule rep_fresh [OF w(2) fr])
  have nd: "?r \<noteq> lid u" using rn u d by auto
  have ok: "obj_ok ?M" using w(1) by simp
  have gd: "obj_get ?M (lid u) = Some ?d" using nd u(2) by simp
  have id: "item_id ?d = lid u" using w(5) [OF e(1)] u(2) by simp
  have ch: "children ?d = (map lid (kids u))[?i := ?r]" by (simp add: cu)
  have gr: "obj_get ?M ?r = Some ?row" by simp
  have ir: "item_id ?row = ?r" "children ?row = [lid (kids u ! ?i)]" using k(2) by simp_all
  have frm: "rel_option same_shape (obj_get N k) (obj_get ?M k)" if "k \<noteq> ?r" "k \<noteq> lid u" for k
    using that u(2) by simp
  note wrap = wf_wrap_child [OF wf u(1) k(1) rn ok gd id ch gr ir frm]
  have "root_plain ?M"
  proof (rule root_plain_cong [OF root])
    have "DASHBOARD_ROOT_ID \<noteq> ?r" using rn w(4) lid_in_tree_ids [of t] by auto
    with e(1) show "rel_option (\<lambda>c d. parents d = parents c) (obj_get N DASHBOARD_ROOT_ID) (obj_get ?M DASHBOARD_ROOT_ID)"
      by (cases "loc_id dest = DASHBOARD_ROOT_ID") (auto simp: option.rel_refl)
  qed
  with m wrap show ?thesis by (intro that [OF m wrap(1)]) auto
qed

lemma move_component_wf:
  assumes wf: "wf_tree L t" and root: "root_plain L" and dest: "destination dr = Some dest"
    and mv: "move_ok L t (source dr) dest (drag_id (dragging dr))" and ix: "index_ok L (source dr) dest"
    and old: "loc_id (source dr) \<noteq> NEW_COMPONENTS_SOURCE_ID"
    and fr: "obj_get L (generateId ROW_TYPE nid) = None"
  shows "\<exists>M t'. move_component tr nid (Some dr) L = Inr (Some M) \<and> wf_tree M t' \<and> root_plain M \<and>
     set (tree_ids t) \<subseteq> set (tree_ids t') \<and>
     set (tree_ids t') \<subseteq> insert (generateId ROW_TYPE nid) (set (tree_ids t))"
proof -
  let ?x = "drag_id (dragging dr)"
  note w = wf_treeD [OF wf]
  from reorderItem_wf [OF wf mv, of "position dr"] obtain N t1 where
    N: "reorderItem L (source dr) dest (position dr) = Inr N" "wf_tree N t1"
     "set (tree_ids t1) = set (tree_ids t)" "\<And>k. rel_option keeps_data (obj_get L k) (obj_get N k)"
     "loc_type dest \<noteq> TABS_TYPE \<Longrightarrow> index_ok L (source dr) dest \<Longrightarrow>
         \<exists>d'. obj_get N (loc_id dest) = Some d' \<and> js_nth (children d') (loc_index dest) = Some ?x"
    by metis
  obtain u s where "u \<in> set (subtrees t)" "s \<in> set (kids u)" "lid s = ?x"
    using move_okE [OF wf mv] by metis
  then have xt: "?x \<in> set (tree_ids t)" using kid_subtree subtrees_trans tree_ids_mem by metis
  have xL: "obj_get L ?x \<noteq> None" by (rule rep_ids [OF w(2) xt])
  have xN: "obj_get N ?x \<noteq> None" using rep_ids [OF wf_treeD(2) [OF N(2)]] xt N(3) by simp
  from move_resize_ok [OF wf old xL xN N(2), of tr nid] obtain N' where
    N': "move_resize tr nid dr L N = Inr N'" "wf_tree N' t1"
      "\<And>k. rel_option same_parents (obj_get N k) (obj_get N' k)" by metis
  have rootN: "root_plain N" by (rule keeps_root [OF root N(4)])
  have rootN': "root_plain N'"
    by (rule root_plain_cong [OF rootN])
      (rule option.rel_mono_strong [OF N'(3)], simp add: same_parents_def)
  have none: "obj_get N' k = None \<longleftrightarrow> obj_get L k = None" for k
    using N(4) [of k] N'(3) [of k] by (cases "obj_get L k"; cases "obj_get N k"; cases "obj_get N' k") auto
  have dt: "loc_id dest \<in> set (tree_ids t1)" using mv N(3) by (simp add: move_ok_def)
  have i: "\<exists>e. obj_get N' (loc_id dest) = Some e \<and> js_nth (children e) (loc_index dest) \<noteq> None"
    if "loc_type dest \<noteq> TABS_TYPE"
    using N(5) [OF that ix] N'(3) [of "loc_id dest"]
    by (auto simp: option_rel_Some1 same_parents_def same_shape_def)
  have fr': "obj_get N' (generateId ROW_TYPE nid) = None" using fr none by simp
  from move_wrap_ok [OF N'(2) dt rootN' fr' i, where tr = tr and dr = dr] obtain M t2 where
    M: "move_wrap tr nid dr dest N' = Inr M" "wf_tree M t2" "root_plain M"
    "set (tree_ids t1) \<subseteq> set (tree_ids t2)"
    "set (tree_ids t2) \<subseteq> insert (generateId ROW_TYPE nid) (set (tree_ids t1))"
    "fst ` set N' \<subseteq> fst ` set M" by metis
  have get: "obj_get (obj_spread L M) k = obj_get M k" for k
  proof (cases "obj_get M k")
    case None
    then have "k \<notin> fst ` set N'" using M(6) by (auto simp: map_of_eq_None_iff)
    then have "obj_get L k = None" using none by (simp add: map_of_eq_None_iff)
    with None show ?thesis by (simp add: same_as_spread [OF wf_treeD(1) [OF M(2)]])
  qed (simp add: same_as_spread [OF wf_treeD(1) [OF M(2)]])
  have "wf_tree (obj_spread L M) t2"
    by (rule wf_tree_same_shape [OF M(2)]) (simp_all add: get w(1))
  moreover have "root_plain (obj_spread L M)" using M(3) by (simp add: root_plain_def get)
  moreover have "move_component tr nid (Some dr) L = Inr (Some (obj_spread L M))"
    by (simp add: move_component_def dest N(1) N'(1) M(1))
  ultimately show ?thesis using M(4,5) N(3) by blast
qed

end
