(* ===== verification/LayoutTabs.thy ===== *)
theory LayoutTabs
  imports LayoutSteps
begin

text \<open>
  Deleting components and the tabs at the top of a dashboard, on well-formed layouts; the layout
  reducer as a step relation and what is reachable from the empty dashboard.
\<close>

section \<open>Deleting a component\<close>

lemma edge_node:
  assumes "wf_tree L t" and "(p, x) \<in> set (tree_edges t)"
  obtains u s where "u \<in> set (subtrees t)" "lid u = p" "s \<in> set (kids u)" "lid s = x"
    "s \<in> set (subtrees t)"
proof -
  from assms(2) obtain u where u: "u \<in> set (subtrees t)" "lid u = p" "x \<in> lid ` set (kids u)"
    by (auto simp: edge_subtree)
  then obtain s where "s \<in> set (kids u)" "lid s = x" by blast
  with u show ?thesis using that kid_subtree subtrees_trans by blast
qed

lemma delete_root_plain:
  assumes "wf_tree L t" and "u \<in> set (subtrees t)" and "s \<in> set (kids u)" and "root_plain L"
  shows "root_plain (recursivelyDeleteChildren (lid s) (lid u) L)"
proof (rule root_plain_cong [OF assms(4)])
  note w = wf_treeD [OF assms(1)]
  have st: "s \<in> set (subtrees t)" using assms(2,3) kid_subtree subtrees_trans by blast
  have "DASHBOARD_ROOT_ID \<notin> set (tree_ids s)"
  proof
    assume "DASHBOARD_ROOT_ID \<in> set (tree_ids s)"
    then obtain r where r: "r \<in> set (subtrees s)" "lid r = lid t" using w(4) by (auto simp: tree_ids_mem)
    then have "r = t" using subtree_root [OF w(3)] subtrees_trans [OF st] by blast
    with r(1) have "length (tree_ids t) \<le> length (tree_ids s)" using subtree_length by blast
    with kid_length [OF assms(3)] subtree_length [OF assms(2)] show False by simp
  qed
  then show "rel_option (\<lambda>c d. parents d = parents c) (obj_get L DASHBOARD_ROOT_ID)
      (obj_get (recursivelyDeleteChildren (lid s) (lid u) L) DASHBOARD_ROOT_ID)"
    using delete_child_wf(3) [OF assms(1-3)]
    by (cases "obj_get L DASHBOARD_ROOT_ID") auto
qed

text \<open>The parent of the deleted component is a row that loses its only child: it goes too.\<close>

definition row_emptied :: "string \<Rightarrow> string \<Rightarrow> layout \<Rightarrow> bool" where
  "row_emptied p x L =
     (case obj_get L p of
        None \<Rightarrow> False
      | Some c \<Rightarrow> item_type c = ROW_TYPE \<and> remove1 x (children c) = [] \<and> p \<noteq> DASHBOARD_ROOT_ID)"

lemma delete_component_full:
  assumes wf: "wf_tree L t" and root: "root_plain L" and ne: "obj_get L [] = None"
    and e: "(p, x) \<in> set (tree_edges t)" and s: "s \<in> set (subtrees t)" "lid s = x"
  shows "\<exists>M t'. delete_component (Some x) (Some p) L = Inr (Some M) \<and> wf_tree M t' \<and> root_plain M \<and>
     set (tree_ids t') = set (tree_ids t) - set (tree_ids s) - (if row_emptied p x L then {p} else {}) \<and>
     (\<forall>k. obj_get M k =
        (if k \<in> set (tree_ids s) \<or> row_emptied p x L \<and> k = p then None
         else if k = p then map_option (children_update (remove1 x)) (obj_get L k)
         else if row_emptied p x L \<and> (k, p) \<in> set (tree_edges t)
         then map_option (children_update (remove1 p)) (obj_get L k)
         else obj_get L k))"
proof -
  note w = wf_treeD [OF wf]
  from edge_node [OF wf e] obtain u s' where u: "u \<in> set (subtrees t)" "lid u = p" "s' \<in> set (kids u)"
      "lid s' = x" "s' \<in> set (subtrees t)" by metis
  with s have s': "s' = s" using subtree_unique [OF w(3)] by blast
  with u have sk: "s \<in> set (kids u)" by simp
  let ?M = "recursivelyDeleteChildren x p L"
  let ?t = "tree_put (LNode (lid u) (remove1 s (kids u))) t"
  note del = delete_child_wf [OF wf u(1) sk]
  have wM: "wf_tree ?M ?t" using del(1) u(2) s(2) by simp
  have getM: "obj_get ?M k = (if k \<in> set (tree_ids s) then None
       else if k = p then map_option (children_update (remove1 x)) (obj_get L k)
       else obj_get L k)" for k
    using del(3) [of k] u(2) s(2) by simp
  have rM: "root_plain ?M" using delete_root_plain [OF wf u(1) sk root] u(2) s(2) by simp
  have ids: "set (tree_ids ?t) = set (tree_ids t) - set (tree_ids s)"
    using mset_distinct_eq [OF del(2) w(3)] mset_set_eq [of "tree_ids ?t" "tree_ids s" "tree_ids t" "[]"] del(2)
    by auto
  have pt: "p \<in> set (tree_ids t)" "x \<in> set (tree_ids t)" using u(1,2) s tree_ids_mem by blast+
  obtain cx where cx: "obj_get L x = Some cx" using rep_ids [OF w(2) pt(2)] by blast
  obtain cp where cp: "obj_get L p = Some cp" using rep_ids [OF w(2) pt(1)] by blast
  have nex: "x \<noteq> []" "p \<noteq> []" using ne cx cp by auto
  have ps: "p \<notin> set (tree_ids s)" using child_not_below [OF w(3) u(1) sk] u(2) by simp
  let ?q = "cp\<lparr>children := remove1 x (children cp)\<rparr>"
  have q: "obj_get ?M p = Some ?q" using getM [of p] ps cp by simp
  have re: "row_emptied p x L \<longleftrightarrow> item_type cp = ROW_TYPE \<and> remove1 x (children cp) = [] \<and> p \<noteq> DASHBOARD_ROOT_ID"
    by (simp add: row_emptied_def cp)
  let ?D = "delete_component (Some x) (Some p) L"
  have D: "?D = (if item_type cp = ROW_TYPE \<and> remove1 x (children cp) = []
      then (case findParentId p ?M of None \<Rightarrow> Inr (Some ?M)
            | Some g \<Rightarrow> (if g = [] then Inr (Some ?M) else Inr (Some (recursivelyDeleteChildren p g ?M))))
      else Inr (Some ?M))"
    using nex cx cp q by (simp add: delete_component_def Let_def)
  show ?thesis
  proof (cases "item_type cp = ROW_TYPE \<and> remove1 x (children cp) = []")
    case False
    then have "?D = Inr (Some ?M)" using D by auto
    moreover have "\<not> row_emptied p x L" using False re by blast
    ultimately show ?thesis using wM rM ids getM by (intro exI [of _ ?M] exI [of _ ?t]) auto
  next
    case True
    show ?thesis
    proof (cases "findParentId p ?M")
      case None
      have "\<not> row_emptied p x L"
      proof (rule ccontr)
        assume "\<not> \<not> row_emptied p x L"
        then have np: "p \<noteq> DASHBOARD_ROOT_ID" using re by blast
        have "p \<in> set (tree_ids ?t)" using ids pt(1) ps by simp
        then have "p \<in> set (lid ?t # map snd (tree_edges ?t))"
          using mset_eq_setD [of "lid ?t # map snd (tree_edges ?t)" "tree_ids ?t"] mset_tree_edges [of ?t] by simp
        then obtain g where "(g, p) \<in> set (tree_edges ?t)" using np w(4) by auto
        with findParentId_iff [OF wM] None show False by force
      qed
      moreover have "?D = Inr (Some ?M)" using D True None by simp
      ultimately show ?thesis using wM rM ids getM by (intro exI [of _ ?M] exI [of _ ?t]) auto
    next
      case (Some g)
      then have ge: "(g, p) \<in> set (tree_edges ?t)" using findParentId_iff [OF wM] by blast
      from edge_node [OF wM ge] obtain v r where v: "v \<in> set (subtrees ?t)" "lid v = g" "r \<in> set (kids v)"
        "lid r = p" "r \<in> set (subtrees ?t)" by metis
      have "kids r = []" using rep_get [OF rep_subtree [OF wf_treeD(2) [OF wM] v(5)]] v(4) q True by simp
      then have rids: "tree_ids r = [p]" using v(4) by (cases r) simp
      have "g \<in> set (tree_ids t)" using fst_tree_edges [OF ge] ids by simp
      then have "g \<noteq> []" using rep_ids [OF w(2)] ne by force
      then have D': "?D = Inr (Some (recursivelyDeleteChildren p g ?M))" using D True Some by simp
      let ?M2 = "recursivelyDeleteChildren p g ?M"
      let ?t2 = "tree_put (LNode (lid v) (remove1 r (kids v))) ?t"
      note del2 = delete_child_wf [OF wM v(1) v(3)]
      have w2: "wf_tree ?M2 ?t2" using del2(1) v(2,4) by simp
      have get2: "obj_get ?M2 k = (if k = p then None
         else if k = g then map_option (children_update (remove1 p)) (obj_get ?M k) else obj_get ?M k)" for k
        using del2(3) [of k] v(2,4) rids by simp
      have ids2: "set (tree_ids ?t2) = set (tree_ids t) - set (tree_ids s) - {p}"
        using mset_distinct_eq [OF del2(2) wf_treeD(3) [OF wM]]
          mset_set_eq [of "tree_ids ?t2" "tree_ids r" "tree_ids ?t" "[]"] del2(2) ids rids by auto
      have "root_plain ?M2" using delete_root_plain [OF wM v(1,3) rM] v(2,4) by simp
      moreover have em: "row_emptied p x L"
      proof -
        have "p \<noteq> DASHBOARD_ROOT_ID"
          using distinct_edges [OF wf_treeD(3) [OF wM]] ge wf_treeD(4) [OF wM] by force
        with True re show ?thesis by blast
      qed
      moreover have gt: "(k, p) \<in> set (tree_edges t) \<longleftrightarrow> k = g" if "k \<notin> set (tree_ids s)" "k \<noteq> p" for k
      proof -
        have same: "obj_get ?M k = obj_get L k" using getM that by simp
        have "(k, p) \<in> set (tree_edges t) \<longleftrightarrow> (k, p) \<in> set (tree_edges ?t)"
        proof (cases "obj_get L k")
          case None
          then have "k \<notin> set (tree_ids t)" "k \<notin> set (tree_ids ?t)"
            using same rep_ids [OF w(2), of k] rep_ids [OF wf_treeD(2) [OF wM], of k] by auto
          then show ?thesis using fst_tree_edges by blast
        qed (use same wf_tree_child [OF wM, of k _ p] wf_tree_child [OF wf, of k _ p] in simp)
        then show ?thesis using unique_parent_edge [OF wf_treeD(3) [OF wM] ge] ge by blast
      qed
      moreover have "obj_get ?M2 k =
        (if k \<in> set (tree_ids s) \<or> k = p then None
         else if (k, p) \<in> set (tree_edges t) then map_option (children_update (remove1 p)) (obj_get L k)
         else obj_get L k)" for k
        using get2 [of k] getM [of k] gt [of k] by auto
      ultimately show ?thesis
        by (intro exI [of _ ?M2] exI [of _ ?t2] conjI) (use w2 D' ids2 in simp_all)
    qed
  qed
qed

lemma delete_component_ok:
  assumes wf: "wf_tree L t" and root: "root_plain L" and ne: "obj_get L [] = None"
    and e: "(p, x) \<in> set (tree_edges t)" and s: "s \<in> set (subtrees t)" "lid s = x"
  shows "\<exists>M t'. delete_component (Some x) (Some p) L = Inr (Some M) \<and> wf_tree M t' \<and> root_plain M"
  using delete_component_full [OF assms] by blast

section \<open>Tabs at the top of the dashboard\<close>

text \<open>The root has one child, the component at the top: the grid or the tabs.\<close>

definition one_top :: "layout \<Rightarrow> bool" where
  "one_top L = (case obj_get L DASHBOARD_ROOT_ID of None \<Rightarrow> False | Some c \<Rightarrow> length (children c) = 1)"

lemma one_topE:
  assumes wf: "wf_tree L t" and one: "one_top L"
  obtains g root topc where "t = LNode DASHBOARD_ROOT_ID [g]" "obj_get L DASHBOARD_ROOT_ID = Some root"
    "children root = [lid g]" "obj_get L (lid g) = Some topc" "children topc = map lid (kids g)"
    "top_level L = Inr (root, lid g, topc)" "rep L g" "lid g \<noteq> DASHBOARD_ROOT_ID"
    "distinct (tree_ids g)" "DASHBOARD_ROOT_ID \<notin> set (tree_ids g)" "item_id root = DASHBOARD_ROOT_ID"
    "item_id topc = lid g"
proof -
  note w = wf_treeD [OF wf]
  obtain ts where t: "t = LNode DASHBOARD_ROOT_ID ts" using w(4) by (cases t) simp
  from one obtain root where root: "obj_get L DASHBOARD_ROOT_ID = Some root" "length (children root) = 1"
    by (auto simp: one_top_def split: option.splits)
  have ch: "children root = map lid ts" using w(2) root(1) by (simp add: t)
  then obtain g where g: "ts = [g]" using root(2) by (cases ts) auto
  have rg: "rep L g" using w(2) root(1) by (simp add: t g)
  then obtain topc where topc: "obj_get L (lid g) = Some topc" "children topc = map lid (kids g)"
      "item_id topc = lid g"
    using rep_get by blast
  have d: "distinct (tree_ids g)" "DASHBOARD_ROOT_ID \<notin> set (tree_ids g)" using w(3) by (simp_all add: t g)
  then have "lid g \<noteq> DASHBOARD_ROOT_ID" using lid_in_tree_ids by metis
  with that show ?thesis using t g root ch rg topc d w(5) [OF root(1)] by (simp add: top_level_def)
qed

lemma find_entry_Cons:
  "find_entry ty ((k, c) # ents) = (if item_type c = ty then Some (k, c) else find_entry ty ents)"
  by (simp add: find_entry_def)

text \<open>New tabs: the first tab takes over what was at the top of the page.\<close>

lemma create_top_level_tabs_new:
  assumes wf: "wf_tree L t" and root: "root_plain L" and one: "one_top L"
    and dest: "destination dr = Some dest" "loc_id dest = DASHBOARD_ROOT_ID"
    and dty: "drag_type (dragging dr) = TABS_TYPE"
    and rt: "map_option item_type (obj_get L DASHBOARD_ROOT_ID) = Some DASHBOARD_ROOT_TYPE"
    and new: "loc_id (source dr) = NEW_COMPONENTS_SOURCE_ID" and ids: "new_ids_ok n1 n2 dr L"
  shows "\<exists>M g. t = LNode DASHBOARD_ROOT_ID [g] \<and>
     create_top_level_tabs tr n1 n2 (Some dr) L = Inr (Some M) \<and> root_plain M \<and> one_top M \<and>
     wf_tree M (LNode DASHBOARD_ROOT_ID [LNode (generateId TABS_TYPE n1) [LNode (generateId TAB_TYPE n2) (kids g)]])"
proof -
  from one_topE [OF wf one] obtain g r c where
    t: "t = LNode DASHBOARD_ROOT_ID [g]" and r: "obj_get L DASHBOARD_ROOT_ID = Some r"
    "children r = [lid g]" "item_id r = DASHBOARD_ROOT_ID" and c: "obj_get L (lid g) = Some c" "children c = map lid (kids g)"
    "item_id c = lid g"
    and tl: "top_level L = Inr (r, lid g, c)" and g: "rep L g" "lid g \<noteq> DASHBOARD_ROOT_ID"
    "distinct (tree_ids g)" "DASHBOARD_ROOT_ID \<notin> set (tree_ids g)" by metis
  note w = wf_treeD [OF wf]
  let ?a = "generateId TABS_TYPE n1" and ?b = "generateId TAB_TYPE n2"
  from ids have fr: "obj_get L ?a = None" "obj_get L ?b = None" "n1 \<noteq> n2"
    by (simp_all add: new_ids_ok_def Let_def dty)
  have rty: "item_type r = DASHBOARD_ROOT_TYPE" using rt r(1) by simp
  have ab: "?a \<noteq> ?b" using fr(3) by (simp add: generateId_inject)
  have nr: "?a \<noteq> DASHBOARD_ROOT_ID" "?b \<noteq> DASHBOARD_ROOT_ID" using fr r(1) by auto
  have ng: "?a \<notin> set (tree_ids g)" "?b \<notin> set (tree_ids g)" using fr rep_fresh [OF g(1)] by blast+
  then have nlg: "?a \<noteq> lid g" "?b \<noteq> lid g" using lid_in_tree_ids [of g] by metis+
  define child where "child = (newComponentFactory tr n1 TABS_TYPE (drag_meta (dragging dr)))
      \<lparr>parents := Some (parents_below r), children := [?b]\<rparr>"
  define tab where "tab = (newComponentFactory tr n2 TAB_TYPE [])\<lparr>parents := Some (parents_below r)\<rparr>"
  have child: "item_id child = ?a" "children child = [?b]" "item_type child = TABS_TYPE"
    by (simp_all add: child_def)
  have tab: "item_id tab = ?b" "item_type tab = TAB_TYPE" by (simp_all add: tab_def)
  let ?ents = "[(?a, child), (?b, tab),
     (DASHBOARD_ROOT_ID, r\<lparr>children := splice_insert (children r) (loc_index dest) ?a\<rparr>)]"
  have e: "newEntitiesFromDrop tr n1 n2 dr L = Inr ?ents"
    using ab nr by (simp add: newEntitiesFromDrop_def dest r(1) dty componentIsResizable_def
        shouldWrapChildInRow_def Let_def rty child_def tab_def)
  have f: "find_entry TAB_TYPE ?ents = Some (?b, tab)" "find_entry TABS_TYPE ?ents = Some (?a, child)"
    using child(3) tab(2) by (simp_all add: find_entry_Cons)
  let ?E = "obj_set DASHBOARD_ROOT_ID (r\<lparr>children := [?a]\<rparr>)
     (obj_set (lid g) (c\<lparr>children := []\<rparr>) (obj_set ?b (tab\<lparr>children := children c\<rparr>) ?ents))"
  let ?M = "obj_spread L ?E"
  have m: "create_top_level_tabs tr n1 n2 (Some dr) L = Inr (Some ?M)"
    by (simp add: create_top_level_tabs_def r(1) new e f tl child(1))
  have okE: "obj_ok ?E" using ab nr by (intro obj_ok_set) (simp add: obj_ok_def)
  have get: "obj_get ?M k = (if k = DASHBOARD_ROOT_ID then Some (r\<lparr>children := [?a]\<rparr>)
      else if k = lid g then Some (c\<lparr>children := []\<rparr>)
      else if k = ?b then Some (tab\<lparr>children := children c\<rparr>)
      else if k = ?a then Some child else obj_get L k)" for k
    using same_as_spread [OF okE, of L k] ab nr nlg g(2) by auto
  have okM: "obj_ok ?M" using w(1) by simp
  define M where "M = ?M"
  note m = m [folded M_def] and get = get [folded M_def] and okM = okM [folded M_def]
  let ?t = "LNode DASHBOARD_ROOT_ID [LNode ?a [LNode ?b (kids g)]]"
  have mem: "k \<in> set (tree_ids g) \<longleftrightarrow> k = lid g \<or> k \<in> set (concat (map tree_ids (kids g)))" for k
    by (cases g) auto
  have kids: "rep M s" if s: "s \<in> set (kids g)" for s
  proof (rule rep_frame [OF rep_kid [OF g(1) s]])
    fix k assume k: "k \<in> set (tree_ids s)"
    then have "k \<in> set (tree_ids g)" using kid_ids [OF s] by blast
    moreover have "k \<noteq> lid g" using child_not_below [OF g(3) self_in_subtrees s] k by blast
    ultimately show "obj_get M k = obj_get L k" using g(4) ng by (auto simp: get)
  qed
  have "rep M (LNode ?b (kids g))"
    using kids nr nlg tab(1) c(2) [symmetric] get [of ?b] by simp
  then have "rep M (LNode ?a [LNode ?b (kids g)])"
    using nr nlg ab child get [of ?a] by simp
  then have rt: "rep M ?t" using r(3) get [of DASHBOARD_ROOT_ID] by simp
  have "wf_tree M ?t"
  proof (rule wf_treeI)
    show "obj_ok M" by (rule okM)
    show "rep M ?t" by (rule rt)
    show "distinct (tree_ids ?t)"
      using g(3,4) ng nr ab mem by (cases g) auto
    fix k d assume d: "obj_get M k = Some d"
    show "item_id d = k \<and> (k \<notin> set (tree_ids ?t) \<longrightarrow> children d = [])"
    proof (cases "k \<in> {DASHBOARD_ROOT_ID, lid g, ?b, ?a}")
      case True
      with d r(3) c(3) tab(1) child(1) show ?thesis by (auto simp: get split: if_splits)
    next
      case False
      with d have dL: "obj_get L k = Some d" by (simp add: get)
      have "k \<notin> set (tree_ids t)" if "k \<notin> set (tree_ids ?t)"
        using that False mem [of k] by (auto simp: t)
      with w(5,6) [OF dL] show ?thesis by blast
    qed
  qed simp
  moreover have "root_plain M" "one_top M"
    using root r(1) by (simp_all add: root_plain_def one_top_def get)
  ultimately show ?thesis using t m by blast
qed

text \<open>Deleting the tabs at the top: their tabs' children go to the grid, the tabs go away.\<close>

lemma delete_top_level_tabs_ok:
  assumes wf: "wf_tree L t" and root: "root_plain L" and one: "one_top L"
    and g: "t = LNode DASHBOARD_ROOT_ID [LNode k tabs]"
    and ty: "map_option item_type (obj_get L k) = Some TABS_TYPE"
    and grid: "obj_get L DASHBOARD_GRID_ID \<noteq> None" "DASHBOARD_GRID_ID \<notin> set (tree_ids t)"
  shows "\<exists>M. delete_top_level_tabs L = Inr (Some M) \<and> root_plain M \<and> one_top M \<and>
     wf_tree M (LNode DASHBOARD_ROOT_ID [LNode DASHBOARD_GRID_ID (concat (map kids tabs))]) \<and>
     (\<forall>i \<in> set (k # map lid tabs). obj_get M i = None)"
proof -
  note w = wf_treeD [OF wf]
  from one_topE [OF wf one] obtain g' r c where t: "t = LNode DASHBOARD_ROOT_ID [g']"
    and r': "obj_get L DASHBOARD_ROOT_ID = Some r" "children r = [lid g']" "item_id r = DASHBOARD_ROOT_ID"
    and c': "obj_get L (lid g') = Some c" "children c = map lid (kids g')"
    and tl': "top_level L = Inr (r, lid g', c)" and rg': "rep L g'"
    and dg': "distinct (tree_ids g')" "DASHBOARD_ROOT_ID \<notin> set (tree_ids g')"
    by metis
  have g': "g' = LNode k tabs" using t g by simp
  note r = r' [unfolded g' ltree.sel] and c = c' [unfolded g' ltree.sel]
    and tl = tl' [unfolded g' ltree.sel] and rg = rg' [unfolded g'] and dg = dg' [unfolded g']
  from grid(1) obtain gr where gr: "obj_get L DASHBOARD_GRID_ID = Some gr" by blast
  have rtab: "\<exists>e. obj_get L (lid s) = Some e \<and> children e = map lid (kids s)" if "s \<in> set tabs" for s
    using rep_get rep_kid [OF rg] that by (metis ltree.sel(2))
  have mv: "rmap (\<lambda>tabId. rbind (or_throw TypeError (obj_get L tabId)) (\<lambda>tab. Inr (children tab)))
      (children c) = Inr (map (\<lambda>i. children (the (obj_get L i))) (map lid tabs))"
    unfolding c(2) using rtab by (intro rmap_Inr) fastforce
  have cc: "concat (map (\<lambda>i. children (the (obj_get L i))) (map lid tabs)) = map lid (concat (map kids tabs))"
    using rtab
  proof (induction tabs)
    case (Cons s ss)
    then obtain e where "obj_get L (lid s) = Some e" "children e = map lid (kids s)" by auto
    moreover have "concat (map (\<lambda>i. children (the (obj_get L i))) (map lid ss)) = map lid (concat (map kids ss))"
      using Cons.prems by (intro Cons.IH) simp
    ultimately show ?case by simp
  qed simp
  let ?M = "obj_set DASHBOARD_GRID_ID (gr\<lparr>children := map lid (concat (map kids tabs))\<rparr>)
     (obj_set DASHBOARD_ROOT_ID (r\<lparr>children := [DASHBOARD_GRID_ID]\<rparr>)
     (obj_del k (foldl (\<lambda>M k. obj_del k M) L (map lid tabs))))"
  have cty: "item_type c = TABS_TYPE" using ty c(1) by simp
  have m: "delete_top_level_tabs L = Inr (Some ?M)"
    unfolding delete_top_level_tabs_def tl rbind_simps prod.case
    using mv cc gr cty by (simp add: c(2))
  have gne: "DASHBOARD_GRID_ID \<noteq> DASHBOARD_ROOT_ID" by (simp add: layout_ids)
  have get: "obj_get ?M i = (if i = DASHBOARD_GRID_ID then Some (gr\<lparr>children := map lid (concat (map kids tabs))\<rparr>)
     else if i = DASHBOARD_ROOT_ID then Some (r\<lparr>children := [DASHBOARD_GRID_ID]\<rparr>)
     else if i \<in> set (k # map lid tabs) then None else obj_get L i)" for i
    by (auto simp: od.get_foldl_del)
  have okM: "obj_ok ?M"
  proof -
    have "obj_ok (foldl (\<lambda>M k. obj_del k M) N ks)" if "obj_ok N" for N :: layout and ks
      using that by (induction ks arbitrary: N) auto
    then show ?thesis using w(1) by simp
  qed
  define M where "M = ?M"
  note m = m [folded M_def] and get = get [folded M_def] and okM = okM [folded M_def]
  let ?t = "LNode DASHBOARD_ROOT_ID [LNode DASHBOARD_GRID_ID (concat (map kids tabs))]"
  have ids: "mset (concat (map tree_ids ss)) =
      mset (map lid ss) + mset (concat (map tree_ids (concat (map kids ss))))" for ss
  proof (induction ss)
    case (Cons s ss)
    then show ?case by (cases s) (simp add: ac_simps)
  qed simp
  have dt: "distinct (map lid tabs @ concat (map tree_ids (concat (map kids tabs))))"
    using dg(1) mset_eq_imp_distinct_iff [of "concat (map tree_ids tabs)"
        "map lid tabs @ concat (map tree_ids (concat (map kids tabs)))"] ids [of tabs] by simp
  have st: "set (concat (map tree_ids tabs)) = set (map lid tabs) \<union> set (concat (map tree_ids (concat (map kids tabs))))"
    using arg_cong [OF ids [of tabs], of set_mset] by simp
  have sub: "rep M s" if s: "s \<in> set (concat (map kids tabs))" for s
  proof -
    from s obtain u where u: "u \<in> set tabs" "s \<in> set (kids u)" by auto
    have rs: "rep L s" using rep_kid [OF rep_kid [OF rg]] u by (metis ltree.sel(2))
    show ?thesis
    proof (rule rep_frame [OF rs])
      fix i assume i: "i \<in> set (tree_ids s)"
      then have m: "i \<in> set (concat (map tree_ids (concat (map kids tabs))))" using s by auto
      then have "i \<notin> set (map lid tabs)" using dt by auto
      moreover have "i \<in> set (concat (map tree_ids tabs))" using m st by blast
      ultimately show "obj_get M i = obj_get L i"
        using dg grid(2) g by (auto simp: get)
    qed
  qed
  have rt: "rep M ?t"
    using sub gne r(3) w(5) [OF gr] by (simp add: get comp_def)
  have "wf_tree M ?t"
  proof (rule wf_treeI)
    show "obj_ok M" by (rule okM)
    show "rep M ?t" by (rule rt)
    show "distinct (tree_ids ?t)"
      using dt st dg grid(2) gne by (auto simp: g)
    fix i d assume d: "obj_get M i = Some d"
    show "item_id d = i \<and> (i \<notin> set (tree_ids ?t) \<longrightarrow> children d = [])"
    proof (cases "i \<in> {DASHBOARD_ROOT_ID, DASHBOARD_GRID_ID}")
      case True
      with d r(3) w(5) [OF gr] show ?thesis by (auto simp: get split: if_splits)
    next
      case False
      with d have dL: "obj_get L i = Some d" "i \<notin> set (k # map lid tabs)" by (auto simp: get split: if_splits)
      have "i \<notin> set (tree_ids t)" if "i \<notin> set (tree_ids ?t)"
        using that dL(2) st by (auto simp: g)
      with w(5,6) [OF dL(1)] show ?thesis by blast
    qed
  qed simp
  moreover have "root_plain M" "one_top M"
    using root r(1) gne by (simp_all add: root_plain_def one_top_def get)
  moreover have "\<forall>i \<in> set (k # map lid tabs). obj_get M i = None"
  proof
    fix i assume i: "i \<in> set (k # map lid tabs)"
    then have "i \<in> set (tree_ids (LNode k tabs))" using st by auto
    then have "i \<noteq> DASHBOARD_ROOT_ID" "i \<noteq> DASHBOARD_GRID_ID" using dg(2) grid(2) by (auto simp: g)
    with i show "obj_get M i = None" by (simp add: get)
  qed
  ultimately show ?thesis using m by blast
qed

end
