(* ===== verification/LayoutRun.thy ===== *)
theory LayoutRun
  imports LayoutTabs
begin

text \<open>
  Runs of the layout reducer. \<open>admissible\<close> says which actions the user interface dispatches on a
  layout (the component dropped or deleted is where the action says, new ids are unused);
  \<open>reachable\<close> closes the empty dashboard under them.
\<close>

section \<open>Admissible actions\<close>

fun admissible :: "string \<Rightarrow> string \<Rightarrow> layout_action \<Rightarrow> layout \<Rightarrow> ltree \<Rightarrow> bool" where
  "admissible n1 n2 (CREATE_COMPONENT (Some dr)) L t =
     (loc_id (source dr) = NEW_COMPONENTS_SOURCE_ID \<and> new_ids_ok n1 n2 dr L \<and>
      (case destination dr of None \<Rightarrow> False | Some d \<Rightarrow> loc_id d \<in> set (tree_ids t)))"
| "admissible n1 n2 (MOVE_COMPONENT (Some dr)) L t =
     (loc_id (source dr) \<noteq> NEW_COMPONENTS_SOURCE_ID \<and> obj_get L (generateId ROW_TYPE n1) = None \<and>
      (case destination dr of None \<Rightarrow> False
       | Some d \<Rightarrow> move_ok L t (source dr) d (drag_id (dragging dr)) \<and> index_ok L (source dr) d))"
| "admissible n1 n2 (DELETE_COMPONENT (Some x) (Some p)) L t =
     ((p, x) \<in> set (tree_edges t) \<and> obj_get L [] = None)"
| "admissible n1 n2 (CREATE_TOP_LEVEL_TABS (Some dr)) L t =
     (loc_id (source dr) = NEW_COMPONENTS_SOURCE_ID \<and> drag_type (dragging dr) = TABS_TYPE \<and>
      map_option loc_id (destination dr) = Some DASHBOARD_ROOT_ID \<and> one_top L \<and> new_ids_ok n1 n2 dr L \<and>
      map_option item_type (obj_get L DASHBOARD_ROOT_ID) = Some DASHBOARD_ROOT_TYPE)"
| "admissible n1 n2 DELETE_TOP_LEVEL_TABS L t =
     (one_top L \<and> obj_get L DASHBOARD_GRID_ID \<noteq> None \<and> DASHBOARD_GRID_ID \<notin> set (tree_ids t) \<and>
      list_all (\<lambda>g. map_option item_type (obj_get L (lid g)) = Some TABS_TYPE) (kids t))"
| "admissible n1 n2 (UPDATE_COMPONENTS (Some cs)) L t =
     (obj_ok cs \<and> list_all (\<lambda>(k, c). case obj_get L k of None \<Rightarrow> False
        | Some d \<Rightarrow> item_id c = k \<and> children c = children d \<and> parents c = parents d) cs)"
| "admissible n1 n2 (DASHBOARD_TITLE_CHANGED x) L t = (obj_get L DASHBOARD_HEADER_ID \<noteq> None)"
| "admissible n1 n2 UPDATE_COMPONENTS_PARENTS_LIST L t = True"
| "admissible n1 n2 RESIZE_COMPONENT L t = True"
| "admissible n1 n2 HANDLE_COMPONENT_DROP L t = True"
| "admissible n1 n2 OtherAction L t = True"
| "admissible n1 n2 act L t = False"

definition layout_ok :: "layout \<Rightarrow> ltree \<Rightarrow> bool" where
  "layout_ok L t = (wf_tree L t \<and> root_plain L \<and> parents_ok L t)"

lemma handler_wf:
  assumes wf: "wf_tree L t" and root: "root_plain L" and adm: "admissible n1 n2 act L t"
  shows "layout_handler tr n1 n2 act L = Inr None \<or>
     (\<exists>M t'. layout_handler tr n1 n2 act L = Inr (Some M) \<and> wf_tree M t' \<and> root_plain M)"
proof -
  note w = wf_treeD [OF wf]
  from adm show ?thesis
  proof (cases "(n1, n2, act, L, t)" rule: admissible.cases)
    case (1 n1' n2' dr L' t')
    with adm obtain d where d: "destination dr = Some d" "loc_id d \<in> set (tree_ids t)"
      "new_ids_ok n1 n2 dr L" "loc_id (source dr) = NEW_COMPONENTS_SOURCE_ID"
      by (auto split: option.splits)
    from create_component_wf [OF wf d, of tr] root 1 show ?thesis by auto
  next
    case (2 n1' n2' dr L' t')
    with adm obtain d where d: "destination dr = Some d"
      "move_ok L t (source dr) d (drag_id (dragging dr))" "index_ok L (source dr) d"
      "loc_id (source dr) \<noteq> NEW_COMPONENTS_SOURCE_ID" "obj_get L (generateId ROW_TYPE n1) = None"
      by (auto split: option.splits)
    from move_component_wf [OF wf root d, of tr] 2 show ?thesis by auto
  next
    case (3 n1' n2' x p L' t')
    with adm have e: "(p, x) \<in> set (tree_edges t)" and ne: "obj_get L [] = None" by auto
    from edge_node [OF wf e] obtain s where "s \<in> set (subtrees t)" "lid s = x" by metis
    from delete_component_ok [OF wf root ne e this] 3 show ?thesis by auto
  next
    case (4 n1' n2' dr L' t')
    with adm obtain d where d: "destination dr = Some d" "loc_id d = DASHBOARD_ROOT_ID"
      "drag_type (dragging dr) = TABS_TYPE"
      "map_option item_type (obj_get L DASHBOARD_ROOT_ID) = Some DASHBOARD_ROOT_TYPE"
      "loc_id (source dr) = NEW_COMPONENTS_SOURCE_ID" "new_ids_ok n1 n2 dr L" and one: "one_top L"
      by (cases "destination dr") auto
    from create_top_level_tabs_new [OF wf root one d, of tr] 4 show ?thesis by auto
  next
    case (5 n1' n2' L' t')
    with adm have one: "one_top L" and g: "obj_get L DASHBOARD_GRID_ID \<noteq> None"
        "DASHBOARD_GRID_ID \<notin> set (tree_ids t)"
      and ty: "list_all (\<lambda>g. map_option item_type (obj_get L (lid g)) = Some TABS_TYPE) (kids t)" by auto
    from one_topE [OF wf one] obtain gg where t: "t = LNode DASHBOARD_ROOT_ID [gg]" by metis
    then obtain k tabs where k: "t = LNode DASHBOARD_ROOT_ID [LNode k tabs]" by (cases gg) auto
    with ty have "map_option item_type (obj_get L k) = Some TABS_TYPE" by simp
    from delete_top_level_tabs_ok [OF wf root one k this g] 5 show ?thesis by auto
  next
    case (6 n1' n2' cs L' t')
    with adm have ok: "obj_ok cs" and same: "\<And>k c. (k, c) \<in> set cs \<Longrightarrow>
        \<exists>d. obj_get L k = Some d \<and> item_id c = k \<and> children c = children d \<and> parents c = parents d"
      by (fastforce simp: list_all_iff split: option.splits)+
    let ?M = "obj_spread L cs"
    have get: "rel_option (\<lambda>c d. same_shape c d \<and> parents d = parents c) (obj_get L k) (obj_get ?M k)" for k
    proof (cases "obj_get cs k")
      case None
      then show ?thesis by (cases "obj_get L k") (simp_all add: same_as_spread [OF ok])
    next
      case (Some c)
      with same [OF map_of_SomeD [OF Some]] w(5) show ?thesis
        by (auto simp: same_as_spread [OF ok] same_shape_def)
    qed
    have "wf_tree ?M t"
      by (rule wf_tree_same_shape [OF wf]) (use w(1) option.rel_mono_strong [OF get] in auto)
    moreover have "root_plain ?M"
      by (rule root_plain_cong [OF root]) (rule option.rel_mono_strong [OF get], simp)
    ultimately show ?thesis using 6 by auto
  next
    case (7 n1' n2' x L' t')
    with adm obtain h where h: "obj_get L DASHBOARD_HEADER_ID = Some h" by auto
    let ?M = "obj_set DASHBOARD_HEADER_ID (h\<lparr>meta := obj_set ''text'' x (meta h)\<rparr>) L"
    have get: "rel_option (\<lambda>c d. same_shape c d \<and> parents d = parents c) (obj_get L k) (obj_get ?M k)" for k
      using h by (cases "obj_get L k") (auto simp: same_shape_def)
    have "wf_tree ?M t"
      by (rule wf_tree_same_shape [OF wf]) (use w(1) option.rel_mono_strong [OF get] in auto)
    moreover have "root_plain ?M"
      by (rule root_plain_cong [OF root]) (rule option.rel_mono_strong [OF get], simp)
    ultimately show ?thesis using 7 h by (auto simp: title_changed_def)
  next
    case (8 n1' n2' L' t')
    have "wf_tree (apply_paths (tl (tree_paths [] t)) L) t" by (rule wf_tree_apply_paths [OF wf])
    moreover have "root_plain (apply_paths (tl (tree_paths [] t)) L)"
      using root by (simp add: root_plain_def apply_paths_root [OF wf])
    ultimately show ?thesis using 8 updateComponentParentsList_wf [OF wf root] by auto
  qed (use adm in auto)
qed

text \<open>Every admissible action is answered, with a layout that is a tree again, every component of
  which knows its ancestors.\<close>

lemma layoutReducer_ok:
  assumes "layout_ok L t" and "admissible n1 n2 act L t"
  shows "\<exists>M t'. layoutReducer tr n1 n2 act L = Inr M \<and> layout_ok M t'"
proof -
  from assms(1) have a: "wf_tree L t" "root_plain L" "parents_ok L t" by (simp_all add: layout_ok_def)
  from handler_wf [OF a(1,2) assms(2), of tr] show ?thesis
  proof
    assume "layout_handler tr n1 n2 act L = Inr None"
    with assms(1) show ?thesis by (auto simp: layoutReducer_def)
  next
    assume "\<exists>M t'. layout_handler tr n1 n2 act L = Inr (Some M) \<and> wf_tree M t' \<and> root_plain M"
    then obtain M t' where M: "layout_handler tr n1 n2 act L = Inr (Some M)" "wf_tree M t'" "root_plain M"
      by blast
    let ?N = "apply_paths (tl (tree_paths [] t')) M"
    have "layoutReducer tr n1 n2 act L = Inr ?N"
      using updateComponentParentsList_wf [OF M(2,3)] by (simp add: layoutReducer_def M(1))
    moreover have "layout_ok ?N t'"
      using wf_tree_apply_paths [OF M(2)] parents_ok_apply_paths [OF M(2)] M(3)
      by (simp add: layout_ok_def root_plain_def apply_paths_root [OF M(2)])
    ultimately show ?thesis by blast
  qed
qed

section \<open>Reachable layouts\<close>

inductive reachable :: "(string \<Rightarrow> string) \<Rightarrow> layout \<Rightarrow> bool" for tr where
  empty: "reachable tr (snd getEmptyLayout)"
| step: "reachable tr L \<Longrightarrow> rep L t \<Longrightarrow> lid t = DASHBOARD_ROOT_ID \<Longrightarrow> admissible n1 n2 act L t \<Longrightarrow>
     layoutReducer tr n1 n2 act L = Inr M \<Longrightarrow> reachable tr M"

inductive_cases reachableE: "reachable tr M"

lemma rep_unique: "rep L t \<Longrightarrow> rep L t' \<Longrightarrow> lid t = lid t' \<Longrightarrow> t = t'"
proof (induction t arbitrary: t')
  case (LNode i ts)
  obtain ts' where t': "t' = LNode i ts'" using LNode.prems(3) by (cases t') simp
  from LNode.prems(1) obtain c where c: "obj_get L i = Some c" "children c = map lid ts" "\<forall>t \<in> set ts. rep L t"
    by (auto split: option.splits)
  with LNode.prems(2) have c': "map lid ts = map lid ts'" "\<forall>t \<in> set ts'. rep L t" by (auto simp: t')
  have "ts = ts'"
  proof (rule nth_equalityI)
    show len: "length ts = length ts'" using c'(1) map_eq_imp_length_eq by blast
    fix k assume k: "k < length ts"
    then have "lid (ts ! k) = lid (ts' ! k)" using c'(1) len by (metis nth_map)
    with k len c(3) c'(2) show "ts ! k = ts' ! k" by (intro LNode.IH) auto
  qed
  then show ?case by (simp add: t')
qed

lemma empty_layout_ok: "layout_ok (snd getEmptyLayout) (LNode DASHBOARD_ROOT_ID [LNode DASHBOARD_GRID_ID []])"
  by (simp add: layout_ok_def wf_tree_def obj_ok_def getEmptyLayout_def layout_ids root_plain_def parents_ok_def)

lemma reachable_layout_ok: "reachable tr L \<Longrightarrow> \<exists>t. layout_ok L t"
proof (induction rule: reachable.induct)
  case empty
  then show ?case using empty_layout_ok by blast
next
  case (step L t n1 n2 act M)
  then obtain t0 where t0: "layout_ok L t0" by blast
  then have wf: "wf_tree L t0" by (simp add: layout_ok_def)
  have "rep L t0" "lid t0 = DASHBOARD_ROOT_ID" by (rule wf_treeD [OF wf])+
  with step.hyps(2,3) have "t = t0" using rep_unique by metis
  with t0 layoutReducer_ok [OF t0, of n1 n2 act tr] step.hyps(4,5) show ?case by auto
qed

end
