(* ===== verification/LayoutDrops.thy ===== *)
theory LayoutDrops
  imports LayoutRun
begin

text \<open>
  What a drop leaves on the dashboard, component by component: a specification of
  \<open>MOVE_COMPONENT\<close> that says for every id what the new layout holds under it, and the dispatching
  half of \<open>handleComponentDrop\<close> for a new component that is dropped on a row.
\<close>

section \<open>The children after a move\<close>

text \<open>
  The children of the component \<open>k\<close>: the source loses \<open>x\<close>, then the destination gets \<open>y\<close>
  (\<open>x\<close> itself or the row around it) as its child number \<open>i\<close>; all others keep theirs.
\<close>

definition moved_children ::
    "location \<Rightarrow> location \<Rightarrow> string \<Rightarrow> string \<Rightarrow> nat \<Rightarrow> string \<Rightarrow> string list \<Rightarrow> string list" where
  "moved_children src dest x y i k ks =
     (let rest = (if k = loc_id src then remove1 x ks else ks)
      in if k = loc_id dest then take i rest @ y # drop i rest else rest)"

text \<open>
  The place among the remaining children of the destination, whose children were \<open>ks\<close>: the place of
  the drop result, or, for tabs, the place before the tab that the component was dropped left of.
  After the tab it was dropped right of it only comes within one list
  (\<open>drop_right_of_other_tabs_lands_first\<close> shows what happens otherwise).
\<close>

definition place_ok ::
    "location \<Rightarrow> location \<Rightarrow> drop_position option \<Rightarrow> string \<Rightarrow> string list \<Rightarrow> nat \<Rightarrow> bool" where
  "place_ok src dest pos x ks i =
     (let rest = (if loc_id src = loc_id dest then remove1 x ks else ks)
      in i \<le> length rest \<and>
         (if loc_type dest \<noteq> TABS_TYPE then int i = loc_index dest
          else case js_nth ks (loc_index dest) of
                 None \<Rightarrow> True
               | Some z \<Rightarrow> z = x \<or>
                   (pos = Some DROP_LEFT \<longrightarrow> js_nth rest (int i) = Some z) \<and>
                   (pos = Some DROP_RIGHT \<longrightarrow> loc_id src = loc_id dest \<longrightarrow> js_nth rest (int i - 1) = Some z)))"

lemma js_nth_splice_remove:
  assumes "js_nth ks a = Some x" and "js_nth ks b = Some z" and "a \<noteq> b"
  shows "js_nth (splice_remove ks a) (if b < a then b else b - 1) = Some z"
proof -
  have r: "0 \<le> a" "0 \<le> b" "nat a < length ks" "nat b < length ks" "ks ! nat b = z"
    using assms(1,2) by (auto simp: js_nth_def split: if_splits)
  then have s: "splice_remove ks a = take (nat a) ks @ drop (Suc (nat a)) ks"
    by (simp add: splice_remove_def splice_start_def Let_def)
  show ?thesis
  proof (cases "b < a")
    case True
    with r show ?thesis by (auto simp: s js_nth_def nth_append)
  next
    case False
    with assms(3) have "a < b" by simp
    then have "nat a \<le> nat (b - 1)" "Suc (nat a) + (nat (b - 1) - nat a) = nat b" using r by auto
    with r False \<open>a < b\<close> show ?thesis by (auto simp: s js_nth_def nth_append)
  qed
qed

lemma splice_insert_take:
  "0 \<le> i \<Longrightarrow> i \<le> int (length xs) \<Longrightarrow> splice_insert xs i x = take (nat i) xs @ x # drop (nat i) xs"
  by (simp add: splice_insert_def splice_start_def min_def Let_def)

lemma splice_insert_somewhere:
  "splice_insert xs i x = take (splice_start (length xs) i) xs @ x # drop (splice_start (length xs) i) xs"
  by (simp add: splice_insert_def Let_def)

lemma splice_start_range: "0 \<le> i \<Longrightarrow> i \<le> int n \<Longrightarrow> splice_start n i = nat i"
  by (auto simp: splice_start_def min_def)

text \<open>Within one list.\<close>

lemma same_list_place:
  assumes d: "distinct ks" and x: "js_nth ks (loc_index src) = Some x" and same: "loc_id src = loc_id dest"
    and b: "0 \<le> loc_index dest" "loc_index dest < int (length ks)"
  shows "\<exists>i. place_ok src dest pos x ks i \<and>
     (case same_list_index (loc_type dest = TABS_TYPE) pos (loc_index src) (loc_index dest) of
        None \<Rightarrow> ks = take i (remove1 x ks) @ x # drop i (remove1 x ks)
      | Some j \<Rightarrow> splice_insert (splice_remove ks (loc_index src)) j x =
                    take i (remove1 x ks) @ x # drop i (remove1 x ks))"
proof -
  let ?a = "loc_index src" and ?b = "loc_index dest" and ?r = "splice_remove ks (loc_index src)"
  have r: "remove1 x ks = ?r" using remove1_splice [OF d x] by simp
  have len: "length ?r = length ks - 1" by (rule length_splice_remove [OF x])
  have ar: "0 \<le> ?a" "?a < int (length ks)" "ks ! nat ?a = x"
    using x by (auto simp: js_nth_def split: if_splits)
  obtain z where z: "js_nth ks ?b = Some z" using b js_nth_range [of ks ?b] by auto
  have zx: "z = x \<longleftrightarrow> ?a = ?b"
  proof
    assume "z = x"
    with z ar b d show "?a = ?b"
      by (auto simp: js_nth_def nth_eq_iff_index_eq split: if_splits)
  qed (use x z in simp)
  note nth = js_nth_splice_remove [OF x z]
  have unchanged: "ks = take (nat ?a) ?r @ x # drop (nat ?a) ?r"
  proof -
    have "ks = take (nat ?a) ks @ x # drop (Suc (nat ?a)) ks"
      using id_take_nth_drop [of "nat ?a" ks] ar by simp
    moreover have "?r = take (nat ?a) ks @ drop (Suc (nat ?a)) ks"
      using ar by (simp add: splice_remove_def splice_start_def Let_def)
    ultimately show ?thesis using ar by simp
  qed
  show ?thesis
  proof (cases "same_list_index (loc_type dest = TABS_TYPE) pos ?a ?b")
    case None
    then have t: "loc_type dest = TABS_TYPE"
      and c: "pos = Some DROP_RIGHT \<and> ?a = ?b + 1 \<or> pos = Some DROP_LEFT \<and> ?a = ?b - 1"
      by (auto simp: same_list_index_def Let_def split: if_splits)
    have "place_ok src dest pos x ks (nat ?a)"
      using c nth ar len by (auto simp: place_ok_def same t z r Let_def)
    with unchanged None show ?thesis by (intro exI [of _ "nat ?a"]) (simp add: r)
  next
    case (Some j)
    have j: "0 \<le> j" "j \<le> int (length ?r)"
      using Some b ar len by (auto simp: same_list_index_def Let_def split: if_splits)
    have "place_ok src dest pos x ks (nat j)"
    proof (cases "loc_type dest = TABS_TYPE \<and> z \<noteq> x")
      case True
      then have ne: "?a \<noteq> ?b" using zx by simp
      have l: "pos = Some DROP_LEFT \<Longrightarrow> j = (if ?b < ?a then ?b else ?b - 1)"
        and rt: "pos = Some DROP_RIGHT \<Longrightarrow> j - 1 = (if ?b < ?a then ?b else ?b - 1)"
        using Some True ne b ar by (auto simp: same_list_index_def Let_def split: if_splits)
      show ?thesis using True j nth [OF ne] l rt by (auto simp: place_ok_def same z r Let_def)
    next
      case False
      with Some j show ?thesis
        by (auto simp: place_ok_def same z r Let_def same_list_index_def)
    qed
    with Some j show ?thesis by (intro exI [of _ "nat j"]) (simp add: r splice_insert_take)
  qed
qed

lemma set_children_map:
  "obj_get (set_children p ks L) k =
     map_option (\<lambda>c. if k = p then c\<lparr>children := ks\<rparr> else c) (obj_get L k)"
  by (cases "obj_get L k") (auto simp: set_children_get)

lemma set_children_obj_ok [simp]: "obj_ok L \<Longrightarrow> obj_ok (set_children p ks L)"
  by (simp add: set_children_def split: option.split)

text \<open>What \<open>reorderItem\<close> leaves under every id.\<close>

lemma reorderItem_get:
  assumes ok: "obj_ok L" and c: "obj_get L (loc_id src) = Some c" and d: "obj_get L (loc_id dest) = Some d"
    and x: "js_nth (children c) (loc_index src) = Some x" and dis: "distinct (children c)" and ix: "index_ok L src dest"
  shows "\<exists>N i. reorderItem L src dest pos = Inr N \<and> obj_ok N \<and> place_ok src dest pos x (children d) i \<and>
     (\<forall>k. obj_get N k =
        map_option (\<lambda>c. c\<lparr>children := moved_children src dest x x i k (children c)\<rparr>) (obj_get L k))"
proof (cases "loc_id src = loc_id dest")
  case True
  with c d have cd: "d = c" by simp
  have b: "0 \<le> loc_index dest" "loc_index dest < int (length (children c))"
    using ix d True cd by (auto simp: index_ok_def)
  from same_list_place [OF dis x True b, of pos] obtain i where i: "place_ok src dest pos x (children c) i"
    and s: "case same_list_index (loc_type dest = TABS_TYPE) pos (loc_index src) (loc_index dest) of
        None \<Rightarrow> children c = take i (remove1 x (children c)) @ x # drop i (remove1 x (children c))
      | Some j \<Rightarrow> splice_insert (splice_remove (children c) (loc_index src)) j x =
          take i (remove1 x (children c)) @ x # drop i (remove1 x (children c))"
    by blast
  let ?ks = "take i (remove1 x (children c)) @ x # drop i (remove1 x (children c))"
  have m: "moved_children src dest x x i k (children e) = (if k = loc_id src then ?ks else children e)"
    if "obj_get L k = Some e" for k e
    using that True c by (auto simp: moved_children_def Let_def)
  show ?thesis
  proof (cases "same_list_index (loc_type dest = TABS_TYPE) pos (loc_index src) (loc_index dest)")
    case None
    with s have same: "?ks = children c" by simp
    have "obj_get L k = map_option (\<lambda>c. c\<lparr>children := moved_children src dest x x i k (children c)\<rparr>) (obj_get L k)" for k
      using m [of k] c by (cases "obj_get L k") (auto simp: same)
    moreover have "reorderItem L src dest pos = Inr L"
      using None c True by (simp add: reorderItem_def Let_def)
    ultimately show ?thesis using i ok cd by blast
  next
    case (Some j)
    with s have j: "splice_insert (splice_remove (children c) (loc_index src)) j x = ?ks" by simp
    let ?N = "set_children (loc_id src) ?ks L"
    have "reorderItem L src dest pos = Inr ?N"
      using Some c True by (simp add: reorderItem_def Let_def reorder_eq [OF x] j)
    moreover have "obj_get ?N k =
        map_option (\<lambda>c. c\<lparr>children := moved_children src dest x x i k (children c)\<rparr>) (obj_get L k)" for k
      using m [of k] by (cases "obj_get L k") (auto simp: set_children_map)
    ultimately show ?thesis using i ok cd set_children_obj_ok [OF ok] by blast
  qed
next
  case False
  let ?t = "loc_type dest = TABS_TYPE"
  let ?j = "other_list_index ?t pos (loc_index dest) (length (children c))"
  let ?i = "splice_start (length (children d)) ?j"
  let ?N = "set_children (loc_id dest) (splice_insert (children d) ?j x)
     (set_children (loc_id src) (splice_remove (children c) (loc_index src)) L)"
  have b: "0 \<le> loc_index dest" "loc_index dest \<le> int (length (children d))"
    using ix d False by (auto simp: index_ok_def)
  have r: "reorderItem L src dest pos = Inr ?N"
    using c d x False by (simp add: reorderItem_def Let_def)
  have "?i = nat (loc_index dest)" if "\<not> ?t \<or> pos = Some DROP_LEFT"
    using that splice_start_range [OF b] b(1) by (auto simp: other_list_index_def)
  then have i: "place_ok src dest pos x (children d) ?i"
    using b by (auto simp: place_ok_def False Let_def splice_start_le split: option.splits)
  have "obj_get ?N k =
      map_option (\<lambda>c. c\<lparr>children := moved_children src dest x x ?i k (children c)\<rparr>) (obj_get L k)" for k
    using c d False remove1_splice [OF dis x]
    by (cases "obj_get L k") (auto simp: set_children_map moved_children_def splice_insert_somewhere Let_def)
  with r i ok show ?thesis by (intro exI [of _ ?N] exI [of _ ?i]) simp
qed

section \<open>What a move leaves\<close>

text \<open>The properties of the moved component: only its width may change.\<close>

definition moved_meta :: "int option \<Rightarrow> layout_item \<Rightarrow> jsobj" where
  "moved_meta w c =
     (if componentIsResizable (item_type c) \<and> jget (meta c) ''width'' \<noteq> width_or_undefined w
      then obj_set ''width'' (width_or_undefined w) (meta c) else meta c)"

lemma moved_meta_children [simp]: "moved_meta w (c\<lparr>children := ks\<rparr>) = moved_meta w c"
  by (simp add: moved_meta_def)

lemma move_resize_get:
  assumes "obj_get N (drag_id (dragging dr)) = Some c"
    and "getComponentWidthFromDrop tr nid dr L = Inr w" and "obj_ok N"
  shows "\<exists>N'. move_resize tr nid dr L N = Inr N' \<and> obj_ok N' \<and>
     (\<forall>k. obj_get N' k =
        map_option (\<lambda>c. c\<lparr>meta := if k = drag_id (dragging dr) then moved_meta w c else meta c\<rparr>) (obj_get N k))"
proof -
  let ?x = "drag_id (dragging dr)"
  have m: "map_option (\<lambda>c. c\<lparr>meta := if k = ?x then moved_meta w c else meta c\<rparr>) (obj_get N k) =
      (if k = ?x then Some (c\<lparr>meta := moved_meta w c\<rparr>) else obj_get N k)" for k
    using assms(1) by (cases "obj_get N k") auto
  show ?thesis unfolding m using assms by (auto simp: move_resize_def moved_meta_def Let_def)
qed

text \<open>The row around a moved component; it replaces the component in its new place.\<close>

definition row_around :: "(string \<Rightarrow> string) \<Rightarrow> string \<Rightarrow> string \<Rightarrow> layout_item \<Rightarrow> layout_item" where
  "row_around tr nid x d =
     (newComponentFactory tr nid ROW_TYPE [])\<lparr>children := [x], parents := Some (parents_below d)\<rparr>"

lemma move_wrap_get:
  assumes "shouldWrapChildInRow (Some (loc_type dest)) (Some (drag_type (dragging dr)))"
    and "obj_get N (loc_id dest) = Some d" and "item_id d = loc_id dest"
    and "children d = take i rest @ x # drop i rest" and "i \<le> length rest" and "int i = loc_index dest"
    and "generateId ROW_TYPE nid \<noteq> loc_id dest" and "obj_ok N"
  shows "\<exists>M. move_wrap tr nid dr dest N = Inr M \<and> obj_ok M \<and>
     (\<forall>k. obj_get M k =
        (if k = generateId ROW_TYPE nid then Some (row_around tr nid x d)
         else if k = loc_id dest
         then Some (d\<lparr>children := take i rest @ generateId ROW_TYPE nid # drop i rest\<rparr>)
         else obj_get N k))"
proof -
  have "js_nth (children d) (loc_index dest) = Some x"
    using assms(4-6) by (auto simp: js_nth_def nth_append)
  moreover have "(children d)[nat (loc_index dest) := y] = take i rest @ y # drop i rest" for y
    using assms(4-6) by (auto simp: list_update_append)
  ultimately show ?thesis
    using assms by (auto simp: move_wrap_def row_around_def parents_below_def Let_def)
qed

lemma move_component_get:
  assumes wf: "wf_tree L t" and dest: "destination dr = Some dest"
    and mv: "move_ok L t (source dr) dest (drag_id (dragging dr))" and ix: "index_ok L (source dr) dest"
    and old: "loc_id (source dr) \<noteq> NEW_COMPONENTS_SOURCE_ID"
    and fr: "obj_get L (generateId ROW_TYPE nid) = None"
  shows "\<exists>M w i d. move_component tr nid (Some dr) L = Inr (Some M) \<and>
     getComponentWidthFromDrop tr nid dr L = Inr w \<and> obj_get L (loc_id dest) = Some d \<and>
     place_ok (source dr) dest (position dr) (drag_id (dragging dr)) (children d) i \<and>
     (let x = drag_id (dragging dr);
          wrap = shouldWrapChildInRow (Some (loc_type dest)) (Some (drag_type (dragging dr)));
          row = generateId ROW_TYPE nid
      in \<forall>k. obj_get M k =
           (if wrap \<and> k = row then Some (row_around tr nid x d)
            else map_option (\<lambda>c. c\<lparr>
                children := moved_children (source dr) dest x (if wrap then row else x) i k (children c),
                meta := if k = x then moved_meta w c else meta c\<rparr>) (obj_get L k)))"
proof -
  let ?x = "drag_id (dragging dr)" and ?row = "generateId ROW_TYPE nid" and ?src = "source dr"
  note w = wf_treeD [OF wf]
  obtain u s c d where u: "u \<in> set (subtrees t)" "s \<in> set (kids u)" "lid s = ?x"
    and c: "obj_get L (loc_id ?src) = Some c" "children c = map lid (kids u)"
    and d: "obj_get L (loc_id dest) = Some d" and n: "js_nth (children c) (loc_index ?src) = Some ?x"
    using move_okE [OF wf mv] by metis
  have dis: "distinct (children c)"
    using kids_lid_distinct [OF subtree_distinct [OF w(3) u(1)]] c(2) by simp
  have "?x \<in> set (tree_ids t)" using u kid_subtree subtrees_trans tree_ids_mem by metis
  then obtain cx where cx: "obj_get L ?x = Some cx" using rep_ids [OF w(2)] by blast
  obtain wd where wd: "getComponentWidthFromDrop tr nid dr L = Inr wd"
    using getComponentWidthFromDrop_total [OF wf] old cx by blast
  from reorderItem_get [OF w(1) c(1) d n dis ix, of "position dr"] obtain N i where
    N: "reorderItem L ?src dest (position dr) = Inr N" "obj_ok N" "place_ok ?src dest (position dr) ?x (children d) i"
      "\<And>k. obj_get N k =
        map_option (\<lambda>c. c\<lparr>children := moved_children ?src dest ?x ?x i k (children c)\<rparr>) (obj_get L k)"
    by blast
  obtain N' where N': "move_resize tr nid dr L N = Inr N'" "obj_ok N'" and resized: "\<And>k. obj_get N' k =
      map_option (\<lambda>c. c\<lparr>meta := if k = ?x then moved_meta wd c else meta c\<rparr>) (obj_get N k)"
    using move_resize_get [of N dr _ tr nid L wd] N(2,4) cx wd by force
  have N'3: "obj_get N' k = map_option (\<lambda>c. c\<lparr>
          children := moved_children ?src dest ?x ?x i k (children c),
          meta := if k = ?x then moved_meta wd c else meta c\<rparr>) (obj_get L k)" for k
    using resized [of k] N(4) [of k] by (cases "obj_get L k") auto
  have all: "obj_get (obj_spread L M) k = obj_get M k"
    if "obj_ok M" "\<And>k. obj_get L k \<noteq> None \<Longrightarrow> obj_get M k \<noteq> None" for M k
  proof (cases "obj_get L k")
    case (Some c)
    with that(2) [of k] show ?thesis by (auto simp: same_as_spread [OF that(1)])
  qed (simp add: same_as_spread [OF that(1)] split: option.split)
  show ?thesis
  proof (cases "shouldWrapChildInRow (Some (loc_type dest)) (Some (drag_type (dragging dr)))")
    case False
    then have "move_component tr nid (Some dr) L = Inr (Some (obj_spread L N'))"
      by (simp add: move_component_def dest N(1) N'(1) move_wrap_def)
    with False wd d N(3) N'3 all [OF N'(2)] show ?thesis
      by (intro exI [of _ "obj_spread L N'"] exI [of _ wd] exI [of _ i] exI [of _ d]) (simp add: Let_def)
  next
    case True
    let ?rest = "if loc_id ?src = loc_id dest then remove1 ?x (children d) else children d"
    let ?d = "d\<lparr>children := take i ?rest @ ?x # drop i ?rest,
        meta := if loc_id dest = ?x then moved_meta wd d else meta d\<rparr>"
    have i: "i \<le> length ?rest" "int i = loc_index dest"
      using N(3) True by (auto simp: place_ok_def shouldWrapChildInRow_def Let_def split: if_splits)
    have "obj_get N' (loc_id dest) = Some ?d"
      using N'3 [of "loc_id dest"] d by (auto simp: moved_children_def Let_def)
    moreover have "item_id ?d = loc_id dest" using w(5) [OF d] by simp
    moreover have "?row \<noteq> loc_id dest" using fr d by auto
    ultimately obtain M where M: "move_wrap tr nid dr dest N' = Inr M" "obj_ok M"
      "\<And>k. obj_get M k = (if k = ?row then Some (row_around tr nid ?x ?d) else if k = loc_id dest
         then Some (?d\<lparr>children := take i ?rest @ ?row # drop i ?rest\<rparr>) else obj_get N' k)"
      using move_wrap_get [OF True, of N' ?d i ?rest ?x nid tr] i N'(2) by auto
    have "row_around tr nid ?x ?d = row_around tr nid ?x d" by (simp add: row_around_def parents_below_def)
    then have get: "obj_get M k = (if k = ?row then Some (row_around tr nid ?x d)
        else map_option (\<lambda>c. c\<lparr>children := moved_children ?src dest ?x ?row i k (children c),
                meta := if k = ?x then moved_meta wd c else meta c\<rparr>) (obj_get L k))" for k
      using M(3) [of k] N'3 [of k] d
      by (cases "k = loc_id dest") (auto simp: moved_children_def Let_def)
    have "move_component tr nid (Some dr) L = Inr (Some (obj_spread L M))"
      by (simp add: move_component_def dest N(1) N'(1) M(1))
    with True wd d N(3) get all [OF M(2)] show ?thesis
      by (intro exI [of _ "obj_spread L M"] exI [of _ wd] exI [of _ i] exI [of _ d]) (simp add: Let_def)
  qed
qed

text \<open>The moved layout is a tree whose only new component is the row.\<close>

lemma move_component_full:
  assumes wf: "wf_tree L t" and root: "root_plain L" and dest: "destination dr = Some dest"
    and mv: "move_ok L t (source dr) dest (drag_id (dragging dr))" and ix: "index_ok L (source dr) dest"
    and old: "loc_id (source dr) \<noteq> NEW_COMPONENTS_SOURCE_ID"
    and fr: "obj_get L (generateId ROW_TYPE nid) = None"
  shows "\<exists>M t' w i d. move_component tr nid (Some dr) L = Inr (Some M) \<and> wf_tree M t' \<and> root_plain M \<and>
     getComponentWidthFromDrop tr nid dr L = Inr w \<and> obj_get L (loc_id dest) = Some d \<and>
     place_ok (source dr) dest (position dr) (drag_id (dragging dr)) (children d) i \<and>
     (let x = drag_id (dragging dr);
          wrap = shouldWrapChildInRow (Some (loc_type dest)) (Some (drag_type (dragging dr)));
          row = generateId ROW_TYPE nid
      in set (tree_ids t') = set (tree_ids t) \<union> (if wrap then {row} else {}) \<and>
         (\<forall>k. obj_get M k =
           (if wrap \<and> k = row then Some (row_around tr nid x d)
            else map_option (\<lambda>c. c\<lparr>
                children := moved_children (source dr) dest x (if wrap then row else x) i k (children c),
                meta := if k = x then moved_meta w c else meta c\<rparr>) (obj_get L k))))"
proof -
  let ?row = "generateId ROW_TYPE nid"
  from move_component_wf [OF assms, of tr] obtain M t' where
    M: "move_component tr nid (Some dr) L = Inr (Some M)" "wf_tree M t'" "root_plain M"
      "set (tree_ids t) \<subseteq> set (tree_ids t')" "set (tree_ids t') \<subseteq> insert ?row (set (tree_ids t))" by blast
  let ?wrap = "shouldWrapChildInRow (Some (loc_type dest)) (Some (drag_type (dragging dr)))"
  from move_component_get [OF wf dest mv ix old fr, of tr] M(1) obtain w i d where
    g: "getComponentWidthFromDrop tr nid dr L = Inr w" "obj_get L (loc_id dest) = Some d"
      "place_ok (source dr) dest (position dr) (drag_id (dragging dr)) (children d) i" and
    get: "\<And>k. obj_get M k =
       (if ?wrap \<and> k = ?row then Some (row_around tr nid (drag_id (dragging dr)) d)
        else map_option (\<lambda>c. c\<lparr>
            children := moved_children (source dr) dest (drag_id (dragging dr))
              (if ?wrap then ?row else drag_id (dragging dr)) i k (children c),
            meta := if k = drag_id (dragging dr) then moved_meta w c else meta c\<rparr>) (obj_get L k))"
    unfolding Let_def by auto
  have "set (tree_ids t') = set (tree_ids t) \<union> (if ?wrap then {?row} else {})"
  proof (cases ?wrap)
    case True
    have "?row \<noteq> loc_id dest" using fr g(2) by auto
    with get [of "loc_id dest"] g(2) True obtain e where
      e: "obj_get M (loc_id dest) = Some e" "?row \<in> set (children e)"
      by (auto simp: moved_children_def Let_def)
    then have "(loc_id dest, ?row) \<in> set (tree_edges t')" using wf_tree_child [OF M(2)] by blast
    then have "?row \<in> set (tree_ids t')" using set_tree_edges by (metis image_eqI snd_conv subsetD)
    with M(4,5) True show ?thesis by auto
  next
    case False
    then have "obj_get M ?row = None" using get [of ?row] fr by simp
    then have "?row \<notin> set (tree_ids t')" using rep_ids [OF wf_treeD(2) [OF M(2)]] by blast
    with M(4,5) False show ?thesis by auto
  qed
  with M(1-3) g get show ?thesis
    by (intro exI [of _ M] exI [of _ t'] exI [of _ w] exI [of _ i] exI [of _ d]) (simp add: Let_def)
qed

section \<open>A new component dropped on a row\<close>

text \<open>The width a resizable component has when it is new, and the least it may shrink to.\<close>

definition default_width :: "component_type \<Rightarrow> int" where
  "default_width ty = (if ty = DYNAMIC_TYPE then GRID_COLUMN_COUNT else GRID_DEFAULT_CHART_WIDTH)"

lemma new_component_detailed:
  "componentIsResizable ty \<Longrightarrow>
     \<exists>occ. getDetailedComponentWidth (Some (newComponentFactory tr nid ty [])) L =
       Inr \<lparr>dw_width = Some (default_width ty), dw_occupied = occ, dw_minimum = Some GRID_MIN_COLUMN_COUNT\<rparr>"
  by (cases ty) (simp_all add: componentIsResizable_def getDetailedComponentWidth_def newComponentFactory_def
      typeToDefaultMetaData_def default_width_def meta_num_def jget_def)

lemma row_width:
  assumes "getDetailedComponentWidth (Some c) L = Inr dw" and "item_type c = ROW_TYPE"
  shows "dw_occupied dw = Some (getTotalChildWidth (item_id c) L)"
  using assms by (auto simp: getDetailedComponentWidth_def rbind_eq_Inr Let_def)

lemma new_on_row_width:
  assumes wf: "wf_tree L t" and dest: "destination dr = Some dest"
    and c: "obj_get L (loc_id dest) = Some c" "item_type c = ROW_TYPE"
    and dw: "getDetailedComponentWidth (Some c) L = Inr dw" "dw_width dw = Some W"
    and new: "loc_id (source dr) = NEW_COMPONENTS_SOURCE_ID" "loc_id dest \<noteq> NEW_COMPONENTS_SOURCE_ID"
      "componentIsResizable (drag_type (dragging dr))"
    and free: "free = W - getTotalChildWidth (loc_id dest) L"
  shows "getComponentWidthFromDrop tr nid dr L =
     Inr (Some (if free < GRID_MIN_COLUMN_COUNT then -1 else min (default_width (drag_type (dragging dr))) free))"
proof -
  have occ: "dw_occupied dw = Some (getTotalChildWidth (loc_id dest) L)"
    using row_width [OF dw(1) c(2)] wf_treeD(5) [OF wf c(1)] by simp
  have "width_by_id (Some (loc_id dest)) L = Inr dw" using c(1) dw(1) by (simp add: width_by_id_def)
  moreover obtain o1 where "getDetailedComponentWidth
      (Some (newComponentFactory tr nid (drag_type (dragging dr)) [])) L =
       Inr \<lparr>dw_width = Some (default_width (drag_type (dragging dr))), dw_occupied = o1,
            dw_minimum = Some GRID_MIN_COLUMN_COUNT\<rparr>"
    using new_component_detailed [OF new(3)] by blast
  moreover have "0 < default_width (drag_type (dragging dr))"
    by (simp add: default_width_def GRID_COLUMN_COUNT_def GRID_DEFAULT_CHART_WIDTH_def)
  ultimately show ?thesis using new
    by (auto simp: getComponentWidthFromDrop_def dest dw(2) occ num_diff_def fitted_width_def free
        GRID_MIN_COLUMN_COUNT_def)
qed

lemma sum_list_splice_insert:
  "sum_list (map f (splice_insert xs i x)) = (f x :: int) + sum_list (map f xs)"
proof -
  have "sum_list (map f (splice_insert xs i x)) = sum_mset (image_mset f (mset (splice_insert xs i x)))"
    by (metis mset_map sum_mset_sum_list)
  also have "\<dots> = f x + sum_mset (image_mset f (mset xs))" by simp
  also have "sum_mset (image_mset f (mset xs)) = sum_list (map f xs)" by (metis mset_map sum_mset_sum_list)
  finally show ?thesis .
qed

definition same_but_parents :: "layout_item \<Rightarrow> layout_item \<Rightarrow> bool" where
  "same_but_parents c d \<longleftrightarrow> (\<exists>ps. d = c\<lparr>parents := ps\<rparr>)"

lemma same_but_parents_refl [simp]: "same_but_parents c c"
  unfolding same_but_parents_def by (rule exI [of _ "parents c"]) simp

lemma apply_paths_same:
  assumes "distinct (map fst xs)"
  shows "rel_option same_but_parents (obj_get L k) (obj_get (apply_paths xs L) k)"
  by (cases "obj_get L k") (auto simp: apply_paths_get [OF assms] same_but_parents_def split: option.splits
      intro: exI [of _ "parents c" for c])

lemma getTotalChildWidth_same:
  assumes "\<And>k. rel_option same_but_parents (obj_get L k) (obj_get M k)"
  shows "getTotalChildWidth i M = getTotalChildWidth i L"
proof -
  have w: "(case obj_get M k of None \<Rightarrow> 0 | Some ch \<Rightarrow> num_or (meta_width ch) 0) =
      (case obj_get L k of None \<Rightarrow> 0 | Some ch \<Rightarrow> num_or (meta_width ch) 0)" for k
    using assms [of k] by (cases "obj_get L k"; cases "obj_get M k")
      (auto simp: same_but_parents_def meta_num_def)
  show ?thesis using assms [of i]
    by (cases "obj_get L i"; cases "obj_get M i") (auto simp: getTotalChildWidth_def w same_but_parents_def)
qed

text \<open>What \<open>CREATE_COMPONENT\<close> does with a resizable component on a row.\<close>

lemma create_on_row:
  assumes wf: "wf_tree L t" and dest: "destination dr = Some dest"
    and c: "obj_get L (loc_id dest) = Some c" "item_type c = ROW_TYPE"
    and ids: "new_ids_ok n1 n2 dr L" and ty: "componentIsResizable (drag_type (dragging dr))"
    and w: "getComponentWidthFromDrop tr n1 dr L = Inr (Some w)" "w \<noteq> 0"
  shows "\<exists>M ch. create_component tr n1 n2 (Some dr) L = Inr (Some M) \<and>
     obj_get M (generateId (drag_type (dragging dr)) n1) = Some ch \<and>
     item_type ch = drag_type (dragging dr) \<and> meta_width ch = Some w \<and>
     obj_get M (loc_id dest) = Some (c\<lparr>children :=
       splice_insert (children c) (loc_index dest) (generateId (drag_type (dragging dr)) n1)\<rparr>) \<and>
     (\<forall>k. k \<noteq> loc_id dest \<longrightarrow> k \<noteq> generateId (drag_type (dragging dr)) n1 \<longrightarrow> obj_get M k = obj_get L k) \<and>
     getTotalChildWidth (loc_id dest) M = getTotalChildWidth (loc_id dest) L + w"
proof -
  let ?a = "generateId (drag_type (dragging dr)) n1"
  from ids have fr: "obj_get L ?a = None" by (simp add: new_ids_ok_def Let_def)
  have nt: "drag_type (dragging dr) \<noteq> TABS_TYPE" using ty by (auto simp: componentIsResizable_def)
  let ?base = "newComponentFactory tr n1 (drag_type (dragging dr)) (drag_meta (dragging dr))"
  let ?child = "?base\<lparr>parents := Some (parents_below c), meta := obj_set ''width'' (JNum w) (meta ?base)\<rparr>"
  let ?c = "c\<lparr>children := splice_insert (children c) (loc_index dest) ?a\<rparr>"
  have ne: "loc_id dest \<noteq> ?a" using fr c(1) by auto
  have "newEntitiesFromDrop tr n1 n2 dr L = Inr [(?a, ?child), (loc_id dest, ?c)]"
    using nt ne by (simp add: newEntitiesFromDrop_def dest c shouldWrapChildInRow_def ty w
        width_or_undefined_def Let_def)
  then have m: "create_component tr n1 n2 (Some dr) L = Inr (Some (obj_spread L [(?a, ?child), (loc_id dest, ?c)]))"
    by (simp add: create_component_def)
  let ?M = "obj_set (loc_id dest) ?c (obj_set ?a ?child L)"
  have d: "loc_id dest \<notin> set (children c)"
    using wf_tree_child [OF wf c(1)] no_self_edge [OF wf_treeD(3) [OF wf]] by blast
  have a: "?a \<notin> set (children c)"
  proof
    assume "?a \<in> set (children c)"
    then have "(loc_id dest, ?a) \<in> set (tree_edges t)" using wf_tree_child [OF wf c(1)] by simp
    then have "?a \<in> set (tree_ids t)" using set_tree_edges by (metis image_eqI snd_conv subsetD)
    with rep_ids [OF wf_treeD(2) [OF wf]] fr show False by blast
  qed
  define g where "g = (\<lambda>(N :: layout) k. case obj_get N k of None \<Rightarrow> 0 | Some ch \<Rightarrow> num_or (meta_width ch) 0)"
  have total: "getTotalChildWidth i N = (case obj_get N i of None \<Rightarrow> 0 | Some c \<Rightarrow> sum_list (map (g N) (children c)))"
    for i N by (cases "obj_get N i") (simp_all add: getTotalChildWidth_def g_def)
  have same: "map (g ?M) (children c) = map (g L) (children c)"
    using a d by (intro map_cong) (auto simp: g_def)
  have mw: "meta_width ?child = Some w" by (simp add: meta_num_def)
  then have "g ?M ?a = w" using ne w(2) by (simp add: g_def num_or_def)
  then have "getTotalChildWidth (loc_id dest) ?M = getTotalChildWidth (loc_id dest) L + w"
    unfolding total by (simp add: sum_list_splice_insert c(1) arg_cong [OF same, of sum_list])
  with m mw ne show ?thesis
    by (intro exI [of _ ?M] exI [of _ ?child]) (simp add: obj_spread_def)
qed

text \<open>\<open>handleComponentDrop\<close> with such a component: when the row has no column left it only warns,
  otherwise it creates the component with the width that is left.\<close>

lemma drop_new_on_row:
  assumes lay: "layout_ok (present d) t" and dest: "destination dr = Some dest"
    and c: "obj_get (present d) (loc_id dest) = Some c" "item_type c = ROW_TYPE"
    and it: "loc_id dest \<in> set (tree_ids t)" "loc_id dest \<noteq> DASHBOARD_ROOT_ID"
    and dw: "getDetailedComponentWidth (Some c) (present d) = Inr dw" "dw_width dw = Some W"
    and new: "loc_id (source dr) = NEW_COMPONENTS_SOURCE_ID" "loc_id dest \<noteq> NEW_COMPONENTS_SOURCE_ID"
      "componentIsResizable (drag_type (dragging dr))"
    and ids: "new_ids_ok n1 n2 dr (present d)"
    and free: "free = W - getTotalChildWidth (loc_id dest) (present d)"
  shows "if free < GRID_MIN_COLUMN_COUNT
     then handleComponentDrop tr n1 n2 filters dr d = Inr (add_toast (tr NOT_ENOUGH_SPACE) d)
     else \<exists>d' t' ch r. handleComponentDrop tr n1 n2 filters dr d = Inr d' \<and> layout_ok (present d') t' \<and>
       toasts d' = toasts d \<and> unsaved d' \<and>
       obj_get (present d') (generateId (drag_type (dragging dr)) n1) = Some ch \<and>
       item_type ch = drag_type (dragging dr) \<and>
       meta_width ch = Some (min (default_width (drag_type (dragging dr))) free) \<and>
       obj_get (present d') (loc_id dest) = Some r \<and>
       children r = splice_insert (children c) (loc_index dest) (generateId (drag_type (dragging dr)) n1) \<and>
       (\<forall>k. k \<noteq> loc_id dest \<longrightarrow> k \<noteq> generateId (drag_type (dragging dr)) n1 \<longrightarrow>
          rel_option same_but_parents (obj_get (present d) k) (obj_get (present d') k)) \<and>
       getTotalChildWidth (loc_id dest) (present d') =
         getTotalChildWidth (loc_id dest) (present d) + min (default_width (drag_type (dragging dr))) free"
proof -
  let ?L = "present d" and ?ty = "drag_type (dragging dr)"
  let ?a = "generateId ?ty n1" and ?w = "min (default_width ?ty) free"
  from lay have wf: "wf_tree ?L t" and root: "root_plain ?L" by (simp_all add: layout_ok_def)
  note width = new_on_row_width [OF wf dest c dw new free, of tr n1]
  show ?thesis
  proof (cases "free < GRID_MIN_COLUMN_COUNT")
    case True
    then have "doesChildOverflowParent tr n1 dr ?L = Inr True"
      using width by (simp add: doesChildOverflowParent_def)
    with True show ?thesis by (simp add: handleComponentDrop_def)
  next
    case False
    have pos: "0 < default_width ?ty"
      by (simp add: default_width_def GRID_COLUMN_COUNT_def GRID_DEFAULT_CHART_WIDTH_def)
    with False have w: "getComponentWidthFromDrop tr n1 dr ?L = Inr (Some ?w)" "0 < ?w"
      using width by (simp_all add: GRID_MIN_COLUMN_COUNT_def)
    then have fits: "doesChildOverflowParent tr n1 dr ?L = Inr False"
      by (simp add: doesChildOverflowParent_def del: min_less_iff_conj)
    from create_on_row [OF wf dest c ids new(3) w(1)] w(2) obtain M ch where
      M: "create_component tr n1 n2 (Some dr) ?L = Inr (Some M)" "obj_get M ?a = Some ch" "item_type ch = ?ty"
        "meta_width ch = Some ?w"
        "obj_get M (loc_id dest) = Some (c\<lparr>children := splice_insert (children c) (loc_index dest) ?a\<rparr>)"
        "\<And>k. k \<noteq> loc_id dest \<Longrightarrow> k \<noteq> ?a \<Longrightarrow> obj_get M k = obj_get ?L k"
        "getTotalChildWidth (loc_id dest) M = getTotalChildWidth (loc_id dest) ?L + ?w"
      by (auto simp del: min_less_iff_conj)
    from create_component_wf [OF wf dest it(1) ids new(1), of tr] M(1) root obtain t' where
      t': "wf_tree M t'" "root_plain M" by auto
    let ?N = "apply_paths (tl (tree_paths [] t')) M"
    have red: "layoutReducer tr n1 n2 (CREATE_COMPONENT (Some dr)) ?L = Inr ?N"
      using updateComponentParentsList_wf [OF t'] by (simp add: layoutReducer_def M(1))
    have ok: "layout_ok ?N t'"
      using wf_tree_apply_paths [OF t'(1)] parents_ok_apply_paths [OF t'(1)] t'(2)
      by (simp add: layout_ok_def root_plain_def apply_paths_root [OF t'(1)])
    have same: "rel_option same_but_parents (obj_get M k) (obj_get ?N k)" for k
      by (rule apply_paths_same [OF distinct_tl_paths [OF wf_treeD(3) [OF t'(1)]]])
    obtain ch' where ch': "obj_get ?N ?a = Some ch'" "item_type ch' = ?ty" "meta_width ch' = Some ?w"
      using same [of ?a] M(2-4) by (auto simp: option_rel_Some1 same_but_parents_def meta_num_def)
    obtain r where r: "obj_get ?N (loc_id dest) = Some r"
        "children r = splice_insert (children c) (loc_index dest) ?a"
      using same [of "loc_id dest"] M(5) by (auto simp: option_rel_Some1 same_but_parents_def)
    let ?d = "d\<lparr>present := ?N, filter_components := ?N, unsaved := True\<rparr>"
    have "handleComponentDrop tr n1 n2 filters dr d = Inr ?d"
      using new it(2) by (simp add: handleComponentDrop_def fits dest setUnsavedChangesAfterAction_def
          layoutOnlyReducer_def red)
    moreover have "rel_option same_but_parents (obj_get ?L k) (obj_get ?N k)"
      if "k \<noteq> loc_id dest" "k \<noteq> ?a" for k
      using same [of k] M(6) [OF that] by simp
    moreover have "getTotalChildWidth (loc_id dest) ?N = getTotalChildWidth (loc_id dest) ?L + ?w"
      using getTotalChildWidth_same [OF same] M(7) by simp
    ultimately show ?thesis using False ok ch' r
      by (auto intro!: exI [of _ ?d] exI [of _ t'])
  qed
qed

end
