(* ===== verification/LayoutClaims.thy ===== *)
theory LayoutClaims
  imports LayoutDrops
begin

text \<open>
  The properties of the dashboard layout, over the lemmas of the layout theories: what every
  action keeps, what deleting, moving and creating do, that a component that is accepted fits, and
  where the code does not do what it means to.
\<close>

section \<open>A concrete dashboard\<close>

text \<open>A grid with a row that holds a chart and a column of tabs with one tab.\<close>

definition box :: "component_type \<Rightarrow> string \<Rightarrow> string list \<Rightarrow> string list \<Rightarrow> jsobj \<Rightarrow> layout_item" where
  "box ty i ks ps m = \<lparr>item_type = ty, item_id = i, children = ks, parents = Some ps, meta = m\<rparr>"

definition sample_layout :: layout where
  "sample_layout =
     [(DASHBOARD_ROOT_ID, box DASHBOARD_ROOT_TYPE DASHBOARD_ROOT_ID [DASHBOARD_GRID_ID] [] []),
      (DASHBOARD_GRID_ID, box DASHBOARD_GRID_TYPE DASHBOARD_GRID_ID [''R''] [DASHBOARD_ROOT_ID] []),
      (''R'', box ROW_TYPE ''R'' [''C'', ''K''] [DASHBOARD_ROOT_ID, DASHBOARD_GRID_ID] []),
      (''C'', box CHART_TYPE ''C'' [] [DASHBOARD_ROOT_ID, DASHBOARD_GRID_ID, ''R'']
                [(''width'', JNum 4), (''chartId'', JNum 7)]),
      (''K'', box COLUMN_TYPE ''K'' [''T''] [DASHBOARD_ROOT_ID, DASHBOARD_GRID_ID, ''R'']
                [(''width'', JNum 4)]),
      (''T'', box TABS_TYPE ''T'' [''B''] [DASHBOARD_ROOT_ID, DASHBOARD_GRID_ID, ''R'', ''K''] []),
      (''B'', box TAB_TYPE ''B'' [] [DASHBOARD_ROOT_ID, DASHBOARD_GRID_ID, ''R'', ''K'', ''T''] [])]"

definition sample_tree :: ltree where
  "sample_tree = LNode DASHBOARD_ROOT_ID [LNode DASHBOARD_GRID_ID
     [LNode ''R'' [LNode ''C'' [], LNode ''K'' [LNode ''T'' [LNode ''B'' []]]]]]"

lemmas sample_defs = sample_layout_def sample_tree_def box_def layout_ids

lemma sample_ok: "layout_ok sample_layout sample_tree"
  by (simp add: layout_ok_def wf_tree_def obj_ok_def root_plain_def parents_ok_def sample_defs)

lemma sample_wf: "wf_tree sample_layout sample_tree"
  using sample_ok by (simp add: layout_ok_def)

lemma sample_root_plain: "root_plain sample_layout"
  using sample_ok by (simp add: layout_ok_def)

section \<open>What every action keeps\<close>

text \<open>C1: the layout reducer answers every admissible action (create, move, delete, tabs at the top,
  component updates) on a well-formed layout, and the new layout is a tree rooted at the dashboard
  root in which no component is dangling or shared, and every component's list of parents is its
  path from the root.\<close>

theorem layout_reducer_keeps_tree:
  assumes "layout_ok L t" and "admissible n1 n2 act L t"
  shows "\<exists>M t'. layoutReducer tr n1 n2 act L = Inr M \<and> layout_ok M t'"
  by (rule layoutReducer_ok [OF assms])

theorem layout_reducer_keeps_tree_witness:
  "\<exists>M t'. layoutReducer (\<lambda>s. s) [] [] (DELETE_COMPONENT (Some ''K'') (Some ''R'')) sample_layout = Inr M \<and>
     layout_ok M t'"
proof (rule layout_reducer_keeps_tree [OF sample_ok])
  show "admissible [] [] (DELETE_COMPONENT (Some ''K'') (Some ''R'')) sample_layout sample_tree"
    by (simp add: sample_defs)
qed

text \<open>C2: every layout reachable from the empty dashboard by admissible actions is such a tree with
  correct lists of parents.\<close>

theorem reachable_layouts_are_trees:
  assumes "reachable tr L"
  shows "\<exists>t. layout_ok L t"
  using reachable_layout_ok [OF assms] .

definition drop_row :: drop_result where
  "drop_row = \<lparr>source = \<lparr>loc_id = NEW_COMPONENTS_SOURCE_ID, loc_type = NEW_COMPONENT_SOURCE_TYPE, loc_index = 0\<rparr>,
     dragging = \<lparr>drag_id = ''NEW_ROW'', drag_type = ROW_TYPE, drag_meta = []\<rparr>,
     destination = Some \<lparr>loc_id = DASHBOARD_GRID_ID, loc_type = DASHBOARD_GRID_TYPE, loc_index = 0\<rparr>,
     position = Some DROP_TOP\<rparr>"

lemma reachable_with_row:
  "\<exists>M. reachable (\<lambda>s. s) M \<and>
     layoutReducer (\<lambda>s. s) ''a'' ''b'' (CREATE_COMPONENT (Some drop_row)) (snd getEmptyLayout) = Inr M"
proof -
  let ?t = "LNode DASHBOARD_ROOT_ID [LNode DASHBOARD_GRID_ID []]"
  have adm: "admissible ''a'' ''b'' (CREATE_COMPONENT (Some drop_row)) (snd getEmptyLayout) ?t"
    by (simp add: drop_row_def new_ids_ok_def getEmptyLayout_def layout_ids generateId_def)
  obtain M where M: "layoutReducer (\<lambda>s. s) ''a'' ''b'' (CREATE_COMPONENT (Some drop_row)) (snd getEmptyLayout) = Inr M"
    using layoutReducer_ok [OF empty_layout_ok adm, of "\<lambda>s. s"] by blast
  have "rep (snd getEmptyLayout) ?t" by (simp add: getEmptyLayout_def layout_ids)
  from reachable.step [OF reachable.empty this _ adm M] M show ?thesis by auto
qed

theorem reachable_layouts_are_trees_witness:
  "\<exists>M t. reachable (\<lambda>s. s) M \<and> layout_ok M t"
  using reachable_with_row reachable_layouts_are_trees [of "\<lambda>s. s"] by blast

section \<open>Deleting and moving\<close>

text \<open>C3: on a well-formed layout in which no component has the empty id, deleting a child
  \<open>x\<close> of a component \<open>p\<close> removes exactly the components of its subtree, takes
  \<open>x\<close> from the children of \<open>p\<close> and leaves every other component as it was. Only
  when \<open>p\<close> is a row, not the root, and has no child left, it is removed as well and taken from
  the children of its own parent. The rest is a tree.\<close>

theorem delete_component_removes_subtree:
  assumes "wf_tree L t" and "root_plain L" and "obj_get L [] = None"
    and "(p, x) \<in> set (tree_edges t)" and "s \<in> set (subtrees t)" and "lid s = x"
  shows "\<exists>M t' c. delete_component (Some x) (Some p) L = Inr (Some M) \<and> wf_tree M t' \<and> root_plain M \<and>
     obj_get L p = Some c \<and>
     (let emptied = (item_type c = ROW_TYPE \<and> remove1 x (children c) = [] \<and> p \<noteq> DASHBOARD_ROOT_ID)
      in set (tree_ids t') = set (tree_ids t) - set (tree_ids s) - (if emptied then {p} else {}) \<and>
         (\<forall>k. obj_get M k =
            (if k \<in> set (tree_ids s) \<or> emptied \<and> k = p then None
             else if k = p then Some (c\<lparr>children := remove1 x (children c)\<rparr>)
             else if emptied \<and> (k, p) \<in> set (tree_edges t)
             then map_option (children_update (remove1 p)) (obj_get L k)
             else obj_get L k)))"
proof -
  obtain c where c: "obj_get L p = Some c"
    using rep_ids [OF wf_treeD(2) [OF assms(1)] fst_tree_edges [OF assms(4)]] by blast
  let ?e = "item_type c = ROW_TYPE \<and> remove1 x (children c) = [] \<and> p \<noteq> DASHBOARD_ROOT_ID"
  have e: "row_emptied p x L = ?e" by (simp add: row_emptied_def c)
  from delete_component_full [OF assms] obtain M t' where
    M: "delete_component (Some x) (Some p) L = Inr (Some M)" "wf_tree M t'" "root_plain M"
      "set (tree_ids t') = set (tree_ids t) - set (tree_ids s) - (if ?e then {p} else {})" and
    get: "\<And>k. obj_get M k =
        (if k \<in> set (tree_ids s) \<or> ?e \<and> k = p then None
         else if k = p then map_option (children_update (remove1 x)) (obj_get L k)
         else if ?e \<and> (k, p) \<in> set (tree_edges t)
         then map_option (children_update (remove1 p)) (obj_get L k)
         else obj_get L k)"
    unfolding e by blast
  have "children_update (remove1 x) c = c\<lparr>children := remove1 x (children c)\<rparr>" by (cases c) simp
  with c have p: "map_option (children_update (remove1 x)) (obj_get L p) =
      Some (c\<lparr>children := remove1 x (children c)\<rparr>)" by simp
  show ?thesis unfolding Let_def
    by (intro exI [of _ M] exI [of _ t'] exI [of _ c] conjI M c allI) (simp add: get p)
qed

theorem delete_component_removes_subtree_witness:
  "\<exists>M t' r. delete_component (Some ''K'') (Some ''R'') sample_layout = Inr (Some M) \<and> wf_tree M t' \<and>
     obj_get M ''T'' = None \<and> obj_get M ''B'' = None \<and> obj_get M ''C'' = obj_get sample_layout ''C'' \<and>
     obj_get M ''R'' = Some r \<and> children r = [''C'']"
proof -
  let ?s = "LNode ''K'' [LNode ''T'' [LNode ''B'' []]]"
  have "obj_get sample_layout [] = None" "(''R'', ''K'') \<in> set (tree_edges sample_tree)"
    "?s \<in> set (subtrees sample_tree)" "lid ?s = ''K''"
    by (simp_all add: sample_defs)
  from delete_component_removes_subtree [OF sample_wf sample_root_plain this] obtain M t' c where
    M: "delete_component (Some ''K'') (Some ''R'') sample_layout = Inr (Some M)" "wf_tree M t'"
      "obj_get sample_layout ''R'' = Some c" and
    get: "\<And>k. obj_get M k =
       (let emptied = (item_type c = ROW_TYPE \<and> remove1 ''K'' (children c) = [] \<and> ''R'' \<noteq> DASHBOARD_ROOT_ID)
        in if k \<in> set (tree_ids ?s) \<or> emptied \<and> k = ''R'' then None
           else if k = ''R'' then Some (c\<lparr>children := remove1 ''K'' (children c)\<rparr>)
           else if emptied \<and> (k, ''R'') \<in> set (tree_edges sample_tree)
           then map_option (children_update (remove1 ''R'')) (obj_get sample_layout k)
           else obj_get sample_layout k)"
    unfolding Let_def by blast
  have "children c = [''C'', ''K'']" using M(3) by (simp add: sample_defs) (metis layout_item.select_convs(3))
  with M show ?thesis by (auto simp: get)
qed

text \<open>C4: on a well-formed layout, moving a component \<open>x\<close> from its place to an existing
  place that is not inside it, with an unused id for a new row, keeps the layout a tree of the same
  components and, when \<open>x\<close> needs one, a new row around it. Under every id the component stays
  as it was but for two things: the source loses \<open>x\<close> and the destination gets \<open>x\<close>,
  or the row, with all other children in their order, at the index of the drop, or, for tabs, before the tab
  that \<open>x\<close> was dropped left of, or within one list after the tab that it was dropped right of
  (\<open>place_ok\<close>; nothing is said about other drops among tabs); and \<open>x\<close>, when it is
  resizable, gets the width that \<open>getComponentWidthFromDrop\<close> computed, with its other
  properties as they were.\<close>

theorem move_component_keeps_components:
  assumes "wf_tree L t" and "root_plain L" and "destination dr = Some dest"
    and "move_ok L t (source dr) dest (drag_id (dragging dr))" and "index_ok L (source dr) dest"
    and "loc_id (source dr) \<noteq> NEW_COMPONENTS_SOURCE_ID"
    and "obj_get L (generateId ROW_TYPE nid) = None"
  shows "\<exists>M t' w i d. move_component tr nid (Some dr) L = Inr (Some M) \<and> wf_tree M t' \<and> root_plain M \<and>
     getComponentWidthFromDrop tr nid dr L = Inr w \<and> obj_get L (loc_id dest) = Some d \<and>
     place_ok (source dr) dest (position dr) (drag_id (dragging dr)) (children d) i \<and>
     (let x = drag_id (dragging dr);
          wrap = shouldWrapChildInRow (Some (loc_type dest)) (Some (drag_type (dragging dr)));
          row = generateId ROW_TYPE nid
      in set (tree_ids t') = set (tree_ids t) \<union> (if wrap then {row} else {}) \<and>
         (\<forall>k. obj_get M k =
           (if wrap \<and> k = row then Some (row_around tr nid x d)
            else map_option (\<lambda>c. c\<lparr>
                children := moved_children (source dr) dest x (if wrap then row else x) i k (children c),
                meta := if k = x then moved_meta w c else meta c\<rparr>) (obj_get L k))))"
  by (rule move_component_full [OF assms])

definition drop_chart_on_grid :: drop_result where
  "drop_chart_on_grid =
     \<lparr>source = \<lparr>loc_id = ''R'', loc_type = ROW_TYPE, loc_index = 0\<rparr>,
      dragging = \<lparr>drag_id = ''C'', drag_type = CHART_TYPE, drag_meta = []\<rparr>,
      destination = Some \<lparr>loc_id = DASHBOARD_GRID_ID, loc_type = DASHBOARD_GRID_TYPE, loc_index = 1\<rparr>,
      position = Some DROP_BOTTOM\<rparr>"

theorem move_component_keeps_components_witness:
  "\<exists>M g r. move_component (\<lambda>s. s) ''n'' (Some drop_chart_on_grid) sample_layout = Inr (Some M) \<and>
     obj_get M DASHBOARD_GRID_ID = Some g \<and> children g = [''R'', ''ROW-n''] \<and>
     obj_get M ''R'' = Some r \<and> children r = [''K'']"
proof -
  let ?d = "\<lparr>loc_id = DASHBOARD_GRID_ID, loc_type = DASHBOARD_GRID_TYPE, loc_index = 1\<rparr>"
  have "destination drop_chart_on_grid = Some ?d"
    "move_ok sample_layout sample_tree (source drop_chart_on_grid) ?d (drag_id (dragging drop_chart_on_grid))"
    "index_ok sample_layout (source drop_chart_on_grid) ?d"
    "loc_id (source drop_chart_on_grid) \<noteq> NEW_COMPONENTS_SOURCE_ID"
    "obj_get sample_layout (generateId ROW_TYPE ''n'') = None"
    by (simp_all add: drop_chart_on_grid_def move_ok_def index_ok_def sample_defs js_nth_def generateId_def)
  note drop = this
  have drag: "drag_id (dragging drop_chart_on_grid) = ''C''" "generateId ROW_TYPE ''n'' = ''ROW-n''"
    "shouldWrapChildInRow (Some (loc_type ?d)) (Some (drag_type (dragging drop_chart_on_grid))) = True"
    by (simp_all add: drop_chart_on_grid_def generateId_def shouldWrapChildInRow_def)
  from move_component_keeps_components [OF sample_wf sample_root_plain drop, of "\<lambda>s. s"] obtain M w i d where
    M: "move_component (\<lambda>s. s) ''n'' (Some drop_chart_on_grid) sample_layout = Inr (Some M)"
      "obj_get sample_layout (loc_id ?d) = Some d"
      "place_ok (source drop_chart_on_grid) ?d (position drop_chart_on_grid) ''C'' (children d) i" and
    get: "\<And>k. obj_get M k = (if k = ''ROW-n'' then Some (row_around (\<lambda>s. s) ''n'' ''C'' d)
        else map_option (\<lambda>c. c\<lparr>
            children := moved_children (source drop_chart_on_grid) ?d ''C'' ''ROW-n'' i k (children c),
            meta := if k = ''C'' then moved_meta w c else meta c\<rparr>) (obj_get sample_layout k))"
    unfolding drag Let_def simp_thms if_True by blast
  have "i = 1" using M(3) by (simp add: place_ok_def Let_def)
  then show ?thesis using M(1) get [of DASHBOARD_GRID_ID] get [of "''R''"]
    by (simp add: moved_children_def drop_chart_on_grid_def sample_defs)
qed

section \<open>Parents\<close>

text \<open>C5: on a well-formed layout \<open>updateComponentParentsList\<close> returns without overflowing the
  stack, keeps the tree, and every component below the root then has as \<open>parents\<close> its path.\<close>

theorem updateComponentParentsList_stores_paths:
  assumes "wf_tree L t" and "root_plain L"
  shows "\<exists>M. updateComponentParentsList (obj_get L DASHBOARD_ROOT_ID) L = Inr M \<and> wf_tree M t \<and>
     (\<forall>(k, ps) \<in> set (tree_paths [] t). \<forall>c. obj_get L k = Some c \<longrightarrow>
        obj_get M k = Some (if k = DASHBOARD_ROOT_ID then c else c\<lparr>parents := Some ps\<rparr>))"
proof -
  note w = wf_treeD [OF assms(1)]
  let ?M = "apply_paths (tl (tree_paths [] t)) L"
  have "obj_get ?M k = Some (if k = DASHBOARD_ROOT_ID then c else c\<lparr>parents := Some ps\<rparr>)"
    if k: "(k, ps) \<in> set (tree_paths [] t)" and c: "obj_get L k = Some c" for k ps c
  proof (cases "(k, ps) \<in> set (tl (tree_paths [] t))")
    case True
    from map_of_tl_paths [OF w(3) this] w(4) c show ?thesis
      by (simp add: apply_paths_get [OF distinct_tl_paths [OF w(3)]])
  next
    case False
    with k tree_paths_Cons [of "[]" t] have "k = DASHBOARD_ROOT_ID" using w(4)
      by (metis prod.inject set_ConsD)
    then show ?thesis using apply_paths_root [OF assms(1)] c by simp
  qed
  with updateComponentParentsList_wf [OF assms] wf_tree_apply_paths [OF assms(1)] show ?thesis
    by (intro exI [of _ ?M]) auto
qed

theorem updateComponentParentsList_stores_paths_witness:
  "\<exists>M c. updateComponentParentsList (obj_get sample_layout DASHBOARD_ROOT_ID) sample_layout = Inr M \<and>
     obj_get M ''T'' = Some c \<and> parents c = Some [DASHBOARD_ROOT_ID, DASHBOARD_GRID_ID, ''R'', ''K'']"
proof -
  from updateComponentParentsList_stores_paths [OF sample_wf sample_root_plain] obtain M where
    M: "updateComponentParentsList (obj_get sample_layout DASHBOARD_ROOT_ID) sample_layout = Inr M"
    "\<forall>(k, ps) \<in> set (tree_paths [] sample_tree). \<forall>c. obj_get sample_layout k = Some c \<longrightarrow>
        obj_get M k = Some (if k = DASHBOARD_ROOT_ID then c else c\<lparr>parents := Some ps\<rparr>)" by blast
  have "(''T'', [DASHBOARD_ROOT_ID, DASHBOARD_GRID_ID, ''R'', ''K'']) \<in> set (tree_paths [] sample_tree)"
    by (simp add: sample_defs)
  moreover obtain c where "obj_get sample_layout ''T'' = Some c" by (simp add: sample_defs)
  moreover have "''T'' \<noteq> DASHBOARD_ROOT_ID" by (simp add: layout_ids)
  ultimately have "obj_get M ''T'' = Some (c\<lparr>parents := Some [DASHBOARD_ROOT_ID, DASHBOARD_GRID_ID, ''R'', ''K'']\<rparr>)"
    using M(2) by fastforce
  with M(1) show ?thesis by force
qed

text \<open>C6: the cached parent search returns the only parent the component has in the tree, whatever
  stale entries the module-level cache holds.\<close>

theorem findParentIdWithCache_correct:
  assumes "wf_tree L t"
  shows "fst (findParentIdWithCache x L cache) = findParentId x L \<and>
    (findParentId x L = Some p \<longleftrightarrow> (p, x) \<in> set (tree_edges t))"
  using findParentIdWithCache_fst [OF assms] findParentId_iff [OF assms] by blast

theorem findParentIdWithCache_correct_witness:
  "fst (findParentIdWithCache ''T'' sample_layout [(''T'', Some ''R'')]) = Some ''K''"
proof -
  have "(''K'', ''T'') \<in> set (tree_edges sample_tree)" by (simp add: sample_defs)
  with findParentIdWithCache_correct [OF sample_wf, of "''T''" "[(''T'', Some ''R'')]" "''K''"] show ?thesis
    by simp
qed

section \<open>Widths\<close>

text \<open>C7: when, on a well-formed layout, a new resizable component with unused ids is dropped on a row
  of the tree other than the root, \<open>handleComponentDrop\<close> compares the columns that are free in
  the row with the least width of a component. When there is none, it shows the warning and nothing else
  happens. Otherwise the component is created as a child of the row, its default width cut to the free
  columns, so that the row never has more columns than fit; all other components keep everything but their
  parents lists.\<close>

theorem created_component_fits_row:
  assumes "layout_ok (present d) t" and "destination dr = Some dest"
    and "obj_get (present d) (loc_id dest) = Some c" and "item_type c = ROW_TYPE"
    and "loc_id dest \<in> set (tree_ids t)" and "loc_id dest \<noteq> DASHBOARD_ROOT_ID"
    and "getDetailedComponentWidth (Some c) (present d) = Inr dw" and "dw_width dw = Some W"
    and "loc_id (source dr) = NEW_COMPONENTS_SOURCE_ID" and "loc_id dest \<noteq> NEW_COMPONENTS_SOURCE_ID"
    and "componentIsResizable (drag_type (dragging dr))" and "new_ids_ok n1 n2 dr (present d)"
    and "free = W - getTotalChildWidth (loc_id dest) (present d)"
  shows "if free < GRID_MIN_COLUMN_COUNT
     then handleComponentDrop tr n1 n2 filters dr d = Inr (add_toast (tr NOT_ENOUGH_SPACE) d)
     else \<exists>d' t' ch r. handleComponentDrop tr n1 n2 filters dr d = Inr d' \<and> layout_ok (present d') t' \<and>
       toasts d' = toasts d \<and> unsaved d' \<and>
       obj_get (present d') (generateId (drag_type (dragging dr)) n1) = Some ch \<and>
       item_type ch = drag_type (dragging dr) \<and>
       meta_width ch = Some (min (default_width (drag_type (dragging dr))) free) \<and>
       obj_get (present d') (loc_id dest) = Some r \<and>
       children r = splice_insert (children c) (loc_index dest) (generateId (drag_type (dragging dr)) n1) \<and>
       (\<forall>k. k \<noteq> loc_id dest \<longrightarrow> k \<noteq> generateId (drag_type (dragging dr)) n1 \<longrightarrow>
          rel_option same_but_parents (obj_get (present d) k) (obj_get (present d') k)) \<and>
       getTotalChildWidth (loc_id dest) (present d') =
         getTotalChildWidth (loc_id dest) (present d) + min (default_width (drag_type (dragging dr))) free \<and>
       getTotalChildWidth (loc_id dest) (present d') \<le> W"
proof -
  have "x + min y free \<le> W" if "x = getTotalChildWidth (loc_id dest) (present d)" for x y
    using that assms(13) by simp
  with drop_new_on_row [OF assms, of tr filters] show ?thesis
    by (cases "free < GRID_MIN_COLUMN_COUNT") fastforce+
qed

definition drop_new_chart :: drop_result where
  "drop_new_chart =
     \<lparr>source = \<lparr>loc_id = NEW_COMPONENTS_SOURCE_ID, loc_type = NEW_COMPONENT_SOURCE_TYPE, loc_index = 0\<rparr>,
      dragging = \<lparr>drag_id = ''NEW'', drag_type = CHART_TYPE, drag_meta = [(''chartId'', JNum 9)]\<rparr>,
      destination = Some \<lparr>loc_id = ''R'', loc_type = ROW_TYPE, loc_index = 1\<rparr>,
      position = Some DROP_LEFT\<rparr>"

lemma row_of_sample:
  "getDetailedComponentWidth (obj_get sample_layout ''R'') sample_layout =
     Inr \<lparr>dw_width = Some 12, dw_occupied = Some 8, dw_minimum = Some 8\<rparr>"
  by (simp add: getDetailedComponentWidth_def getTotalChildWidth_def sample_defs num_or_def meta_num_def
      jget_def GRID_COLUMN_COUNT_def no_width_def)

definition sample_dash :: dash where
  "sample_dash = \<lparr>present = sample_layout, unsaved = False, filter_components = [], toasts = []\<rparr>"

theorem created_component_fits_row_witness:
  "\<exists>d'. handleComponentDrop (\<lambda>s. s) ''a'' ''b'' [] drop_new_chart sample_dash = Inr d' \<and>
     getTotalChildWidth ''R'' (present d') \<le> 12"
proof -
  let ?d = "\<lparr>loc_id = ''R'', loc_type = ROW_TYPE, loc_index = 1\<rparr>"
  obtain c where c: "obj_get (present sample_dash) (loc_id ?d) = Some c" "item_type c = ROW_TYPE"
    by (simp add: sample_dash_def sample_defs)
  have r: "destination drop_new_chart = Some ?d" "loc_id ?d \<in> set (tree_ids sample_tree)"
    "loc_id ?d \<noteq> DASHBOARD_ROOT_ID"
    "loc_id (source drop_new_chart) = NEW_COMPONENTS_SOURCE_ID" "loc_id ?d \<noteq> NEW_COMPONENTS_SOURCE_ID"
    "componentIsResizable (drag_type (dragging drop_new_chart))"
    "new_ids_ok ''a'' ''b'' drop_new_chart (present sample_dash)"
    by (simp_all add: sample_dash_def drop_new_chart_def new_ids_ok_def generateId_def sample_defs
        componentIsResizable_def)
  have W: "getDetailedComponentWidth (Some c) (present sample_dash) =
      Inr \<lparr>dw_width = Some 12, dw_occupied = Some 8, dw_minimum = Some 8\<rparr>"
    using row_of_sample c(1) by (simp add: sample_dash_def)
  have total: "4 = (12 :: int) - getTotalChildWidth (loc_id ?d) (present sample_dash)"
    by (simp add: getTotalChildWidth_def sample_dash_def sample_defs num_or_def meta_num_def jget_def)
  have ok: "layout_ok (present sample_dash) sample_tree" using sample_ok by (simp add: sample_dash_def)
  have W': "dw_width \<lparr>dw_width = Some 12, dw_occupied = Some 8, dw_minimum = Some 8\<rparr> = Some (12 :: int)" by simp
  from created_component_fits_row [OF ok r(1) c r(2,3) W W' r(4-7) total, of "\<lambda>s. s" "[]"] show ?thesis
    by (auto simp: GRID_MIN_COLUMN_COUNT_def)
qed

text \<open>C8: the width of a drop is computed without an exception on every well-formed layout, however
  deep rows and columns are nested, for a component of the layout or a new one with an unused id.\<close>

theorem drop_width_always_computed:
  assumes "wf_tree L t"
    and "loc_id (source dr) \<noteq> NEW_COMPONENTS_SOURCE_ID \<Longrightarrow> obj_get L (drag_id (dragging dr)) \<noteq> None"
    and "loc_id (source dr) = NEW_COMPONENTS_SOURCE_ID \<Longrightarrow>
           generateId (drag_type (dragging dr)) nid \<notin> set (tree_ids t)"
  shows "\<exists>w. getComponentWidthFromDrop tr nid dr L = Inr w \<and>
     doesChildOverflowParent tr nid dr L = Inr (case w of None \<Rightarrow> False | Some n \<Rightarrow> n < 0)"
proof -
  obtain w where "getComponentWidthFromDrop tr nid dr L = Inr w"
    using getComponentWidthFromDrop_total [OF assms] by blast
  then show ?thesis by (simp add: doesChildOverflowParent_def)
qed

theorem drop_width_always_computed_witness:
  "\<exists>w. getComponentWidthFromDrop (\<lambda>s. s) ''n'' drop_chart_on_grid sample_layout = Inr w"
  using drop_width_always_computed [OF sample_wf, of drop_chart_on_grid "''n''" "\<lambda>s. s"]
  by (auto simp: drop_chart_on_grid_def sample_defs)

section \<open>Where the code misses its intent\<close>

text \<open>A tab dropped to the right of a tab of other tabs should land after it, within the bounds of
  the destination. The bound is computed from the source's children: when the source has one tab,
  the tab is always inserted first, whatever the place dropped on.\<close>

theorem drop_right_of_other_tabs_lands_first:
  assumes "obj_get L (loc_id src) = Some s" and "obj_get L (loc_id dest) = Some d"
    and "loc_id src \<noteq> loc_id dest" and "loc_type dest = TABS_TYPE"
    and "children s = [x]" and "loc_index src = 0" and "0 \<le> loc_index dest"
  shows "\<exists>N. reorderItem L src dest (Some DROP_RIGHT) = Inr N \<and>
     map_option children (obj_get N (loc_id dest)) = Some (x # children d)"
  using assms
  by (simp add: reorderItem_def js_nth_def other_list_index_def set_children_get
      splice_insert_def splice_start_def Let_def)

definition two_tabs :: layout where
  "two_tabs = [(''A'', box TABS_TYPE ''A'' [''x''] [] []), (''D'', box TABS_TYPE ''D'' [''y'', ''z''] [] [])]"

theorem drop_right_of_other_tabs_lands_first_witness:
  "\<exists>N. reorderItem two_tabs \<lparr>loc_id = ''A'', loc_type = TABS_TYPE, loc_index = 0\<rparr>
       \<lparr>loc_id = ''D'', loc_type = TABS_TYPE, loc_index = 1\<rparr> (Some DROP_RIGHT) = Inr N \<and>
     map_option children (obj_get N ''D'') = Some [''x'', ''y'', ''z'']"
  using drop_right_of_other_tabs_lands_first
    [of two_tabs "\<lparr>loc_id = ''A'', loc_type = TABS_TYPE, loc_index = 0\<rparr>"
      "box TABS_TYPE ''A'' [''x''] [] []" "\<lparr>loc_id = ''D'', loc_type = TABS_TYPE, loc_index = 1\<rparr>"
      "box TABS_TYPE ''D'' [''y'', ''z''] [] []" "''x''"]
  by (simp add: two_tabs_def box_def)

text \<open>Tabs that are nested in a column are dragged to the top of the page: the column keeps them as
  a child, and the row of the column becomes a child of their first tab.\<close>

definition drag_tabs_to_top :: drop_result where
  "drag_tabs_to_top =
     \<lparr>source = \<lparr>loc_id = ''K'', loc_type = COLUMN_TYPE, loc_index = 0\<rparr>,
      dragging = \<lparr>drag_id = ''T'', drag_type = TABS_TYPE, drag_meta = []\<rparr>,
      destination = Some \<lparr>loc_id = DASHBOARD_ROOT_ID, loc_type = DASHBOARD_ROOT_TYPE, loc_index = 0\<rparr>,
      position = Some DROP_TOP\<rparr>"

definition cyclic :: "layout \<Rightarrow> bool" where
  "cyclic M = (\<forall>(i, k) \<in> set [(''T'', ''B''), (''B'', ''R''), (''K'', ''T'')].
     case obj_get M i of None \<Rightarrow> False | Some c \<Rightarrow> item_id c = i \<and> children c = [k])"

lemma cyclic_overflows:
  assumes "cyclic M" and "map_option (\<lambda>c. (item_id c, children c)) (obj_get M ''R'') = Some (''R'', [''C'', ''K''])"
    and "map_option (\<lambda>c. (item_id c, children c)) (obj_get M ''C'') = Some (''C'', [])"
    and "item_id c \<in> {''T'', ''B'', ''K'', ''R''}" and "map_option children (obj_get M (item_id c)) = Some (children c)"
  shows "update_parents_fuel n c M = Inl StackOverflow"
  using assms
proof (induction n arbitrary: c M)
  case (Suc n)
  have step: "update_parents_fuel n (d\<lparr>parents := ps\<rparr>) (obj_set k (d\<lparr>parents := ps\<rparr>) N) = Inl StackOverflow"
    if "cyclic N" "map_option (\<lambda>c. (item_id c, children c)) (obj_get N ''R'') = Some (''R'', [''C'', ''K''])"
      "map_option (\<lambda>c. (item_id c, children c)) (obj_get N ''C'') = Some (''C'', [])"
      "obj_get N k = Some d" "k \<in> {''T'', ''B'', ''K'', ''R''}" for N k d ps
    using that by (intro Suc.IH) (auto simp: cyclic_def split: option.splits)
  from Suc.prems(4) consider (one) k where "(item_id c, k) \<in> {(''T'', ''B''), (''B'', ''R''), (''K'', ''T'')}"
    | (row) "item_id c = ''R''" by auto
  then show ?case
  proof cases
    case one
    then have ch: "children c = [k]" and k: "k \<in> {''T'', ''B'', ''K'', ''R''}"
      using Suc.prems(1,5) by (auto simp: cyclic_def split: option.splits)
    then obtain d where "obj_get M k = Some d" using Suc.prems(1,2) by (auto simp: cyclic_def split: option.splits)
    moreover obtain c' where "obj_get M (item_id c) = Some c'" using Suc.prems(5) by auto
    ultimately show ?thesis using step [OF Suc.prems(1-3) _ k] ch by (simp add: Let_def)
  next
    case row
    with Suc.prems(2,5) have ch: "children c = [''C'', ''K'']" by auto
    from Suc.prems(3) obtain e where e: "obj_get M ''C'' = Some e" "item_id e = ''C''" "children e = []" by auto
    let ?e = "e\<lparr>parents := Some (parents_below c)\<rparr>"
    let ?N = "obj_set ''C'' ?e M"
    obtain d where d: "obj_get ?N ''K'' = Some d" using Suc.prems(1) by (auto simp: cyclic_def split: option.splits)
    have "update_parents_fuel n ?e ?N = Inr ?N \<or> update_parents_fuel n ?e ?N = Inl StackOverflow"
      using e by (cases n) auto
    moreover have "update_parents_fuel n (d\<lparr>parents := Some (parents_below c)\<rparr>)
        (obj_set ''K'' (d\<lparr>parents := Some (parents_below c)\<rparr>) ?N) = Inl StackOverflow"
      using Suc.prems(1,2) e d by (intro step) (auto simp: cyclic_def split: option.splits)
    moreover obtain r where "obj_get M ''R'' = Some r" using Suc.prems(2) by auto
    ultimately show ?thesis using row ch e d by (auto simp: Let_def)
  qed
qed simp

text \<open>C10: dragging tabs out of a column to the top of the page, from a well-formed layout, makes a
  cycle of components, on which \<open>updateComponentParentsList\<close> never ends: however deep the stack may
  grow, the recursion overflows it.\<close>

theorem nested_tabs_to_top_make_a_cycle:
  "layout_ok sample_layout sample_tree \<and>
   (\<exists>M root. create_top_level_tabs tr n1 n2 (Some drag_tabs_to_top) sample_layout = Inr (Some M) \<and>
      obj_get M DASHBOARD_ROOT_ID = Some root \<and>
      (\<forall>n. update_parents_fuel n root M = Inl StackOverflow) \<and>
      layoutReducer tr n1 n2 (CREATE_TOP_LEVEL_TABS (Some drag_tabs_to_top)) sample_layout = Inl StackOverflow)"
proof -
  define M where "M = obj_set ''B'' (box TAB_TYPE ''B'' [''R''] [DASHBOARD_ROOT_ID, DASHBOARD_GRID_ID, ''R'', ''K'', ''T''] [])
    (obj_set DASHBOARD_GRID_ID (box DASHBOARD_GRID_TYPE DASHBOARD_GRID_ID [] [DASHBOARD_ROOT_ID] [])
    (obj_set DASHBOARD_ROOT_ID (box DASHBOARD_ROOT_TYPE DASHBOARD_ROOT_ID [''T''] [] []) sample_layout))"
  have m: "create_top_level_tabs tr n1 n2 (Some drag_tabs_to_top) sample_layout = Inr (Some M)"
    by (simp add: M_def create_top_level_tabs_def drag_tabs_to_top_def top_level_def sample_defs)
  let ?root = "box DASHBOARD_ROOT_TYPE DASHBOARD_ROOT_ID [''T''] [] []"
  have root: "obj_get M DASHBOARD_ROOT_ID = Some ?root"
    by (simp add: M_def layout_ids)
  have cyc: "cyclic (obj_set ''T'' (d\<lparr>parents := ps\<rparr>) M)" "obj_get M ''T'' = Some d"
    if "d = box TABS_TYPE ''T'' [''B''] [DASHBOARD_ROOT_ID, DASHBOARD_GRID_ID, ''R'', ''K''] []" for d ps
    using that by (simp_all add: cyclic_def M_def sample_defs)
  have over: "update_parents_fuel n ?root M = Inl StackOverflow" for n
  proof (cases n)
    case (Suc m)
    let ?d = "box TABS_TYPE ''T'' [''B''] [DASHBOARD_ROOT_ID, DASHBOARD_GRID_ID, ''R'', ''K''] []"
    let ?d' = "?d\<lparr>parents := Some (parents_below ?root)\<rparr>"
    have "update_parents_fuel m ?d' (obj_set ''T'' ?d' M) = Inl StackOverflow"
      by (rule cyclic_overflows [OF cyc(1) [OF refl]]) (simp_all add: M_def sample_defs)
    with cyc(2) [OF refl] root show ?thesis by (simp add: Suc box_def Let_def)
  qed simp
  then have "layoutReducer tr n1 n2 (CREATE_TOP_LEVEL_TABS (Some drag_tabs_to_top)) sample_layout = Inl StackOverflow"
    by (simp add: layoutReducer_def m root updateComponentParentsList_def del: update_parents_fuel.simps)
  with sample_ok m root over show ?thesis by blast
qed

end
