(* ===== verification/FilterDeps.thy ===== *)
theory FilterDeps
  imports Prelude
begin

text \<open>
  Dependencies between native filters: the resolution of all ancestors of a filter
  (\<open>nativeFilters/dependencyGraph.ts\<close>), the check for cycles that guards the configuration
  (\<open>FiltersConfigModal/utils.ts\<close>), and the ids of filters and customizations with their prefixes.
\<close>

section \<open>All ancestors of a filter\<close>

text \<open>\<open>FilterConfigMap\<close>: \<open>None\<close> where \<open>cascadeParentIds\<close> is absent. \<open>ensureIsArray\<close> turns it into no
  parents, as for an unknown filter.\<close>

type_synonym filter_config = "(string, string list option) obj"

definition cascade_parents :: "filter_config \<Rightarrow> string \<Rightarrow> string list" where
  "cascade_parents cfg i = (case obj_get cfg i of Some (Some ps) \<Rightarrow> ps | _ \<Rightarrow> [])"

text \<open>The inner function \<open>visit\<close>: the visited set and the ancestors in order. A nested call visits a
  new id first, so the number of ids in the configuration bounds the depth.\<close>

fun visit_fuel :: "nat \<Rightarrow> filter_config \<Rightarrow> string \<Rightarrow> string list \<times> string list \<Rightarrow> (string list \<times> string list) result" where
  "visit_fuel 0 cfg cur s = Inl StackOverflow"
| "visit_fuel (Suc n) cfg cur s =
     rfold (\<lambda>(visited, ordered) p.
              if p \<in> set visited then Inr (visited, ordered)
              else rbind (visit_fuel n cfg p (p # visited, ordered))
                     (\<lambda>(visited', ordered'). Inr (visited', ordered' @ [p])))
       s (cascade_parents cfg cur)"

definition resolveTransitiveParentIds :: "string \<Rightarrow> filter_config \<Rightarrow> string list result" where
  "resolveTransitiveParentIds i cfg =
     rbind (visit_fuel (Suc (Suc (length (concat (map (cascade_parents cfg \<circ> fst) cfg))))) cfg i ([i], []))
       (\<lambda>(visited, ordered). Inr ordered)"

section \<open>Cycles\<close>

text \<open>\<open>hasCircularDependency\<close>: \<open>some\<close> is \<open>list_ex\<close>. A nested call has one id of the map more in its
  trace.\<close>

function hasCircularDependency :: "(string, string list) obj \<Rightarrow> string \<Rightarrow> string list \<Rightarrow> bool" where
  "hasCircularDependency m i trace =
     (if i \<in> set trace then True
      else (case obj_get m i of
              None \<Rightarrow> False
            | Some ds \<Rightarrow> list_ex (\<lambda>d. hasCircularDependency m d (trace @ [i])) ds))"
  by pat_completeness auto
termination
proof (relation "measure (\<lambda>(m, i, trace). card (set (map fst m) - set trace))", goal_cases)
  case (2 m i trace ds d)
  have "i \<in> set (map fst m)" using 2(2) by (force dest: map_of_SomeD)
  then have "set (map fst m) - set (trace @ [i]) \<subset> set (map fst m) - set trace" using 2(1) by auto
  then show ?case by (simp add: psubset_card_mono)
qed simp

declare hasCircularDependency.simps [simp del]

section \<open>Ids\<close>

definition NATIVE_FILTER_PREFIX :: string where "NATIVE_FILTER_PREFIX = ''NATIVE_FILTER-''"
definition NATIVE_FILTER_DIVIDER_PREFIX :: string where
  "NATIVE_FILTER_DIVIDER_PREFIX = ''NATIVE_FILTER_DIVIDER-''"
definition CHART_CUSTOMIZATION_PREFIX :: string where
  "CHART_CUSTOMIZATION_PREFIX = ''CHART_CUSTOMIZATION-''"
definition CHART_CUSTOMIZATION_DIVIDER_PREFIX :: string where
  "CHART_CUSTOMIZATION_DIVIDER_PREFIX = ''CHART_CUSTOMIZATION_DIVIDER-''"
definition LEGACY_GROUPBY_PREFIX :: string where "LEGACY_GROUPBY_PREFIX = ''groupby_''"

definition starts_with :: "string \<Rightarrow> string \<Rightarrow> bool" where
  "starts_with p s = (take (length p) s = p)"

definition isNativeFilter :: "string \<Rightarrow> bool" where
  "isNativeFilter i = starts_with NATIVE_FILTER_PREFIX i"
definition isNativeFilterDivider :: "string \<Rightarrow> bool" where
  "isNativeFilterDivider i = starts_with NATIVE_FILTER_DIVIDER_PREFIX i"
definition isChartCustomization :: "string \<Rightarrow> bool" where
  "isChartCustomization i =
     (starts_with CHART_CUSTOMIZATION_PREFIX i \<or> starts_with LEGACY_GROUPBY_PREFIX i)"
definition isChartCustomizationDivider :: "string \<Rightarrow> bool" where
  "isChartCustomizationDivider i = starts_with CHART_CUSTOMIZATION_DIVIDER_PREFIX i"
definition isFilterId :: "string \<Rightarrow> bool" where
  "isFilterId i = (starts_with NATIVE_FILTER_PREFIX i \<or> starts_with NATIVE_FILTER_DIVIDER_PREFIX i)"
definition isChartCustomizationId :: "string \<Rightarrow> bool" where
  "isChartCustomizationId i =
     (starts_with CHART_CUSTOMIZATION_PREFIX i \<or> starts_with CHART_CUSTOMIZATION_DIVIDER_PREFIX i \<or>
      starts_with LEGACY_GROUPBY_PREFIX i)"
definition isDivider :: "string \<Rightarrow> bool" where
  "isDivider i = (isNativeFilterDivider i \<or> isChartCustomizationDivider i)"

datatype item_type = FilterItem | CustomizationItem

definition getItemType :: "string \<Rightarrow> item_type result" where
  "getItemType i = (if isFilterId i then Inr FilterItem
                    else if isChartCustomizationId i then Inr CustomizationItem
                    else Inl (ParseError (''Unknown item type for id: '' @ i)))"

definition generateFilterId :: "bool \<Rightarrow> string \<Rightarrow> string" where
  "generateFilterId nativeFilter nid =
     (if nativeFilter then NATIVE_FILTER_PREFIX else NATIVE_FILTER_DIVIDER_PREFIX) @ nid"

definition generateChartCustomizationId :: "bool \<Rightarrow> string \<Rightarrow> string" where
  "generateChartCustomizationId customization nid =
     (if customization then CHART_CUSTOMIZATION_PREFIX else CHART_CUSTOMIZATION_DIVIDER_PREFIX) @ nid"

definition dividerPrefix :: "item_type \<Rightarrow> string" where
  "dividerPrefix ty = (case ty of FilterItem \<Rightarrow> NATIVE_FILTER_DIVIDER_PREFIX
                       | CustomizationItem \<Rightarrow> CHART_CUSTOMIZATION_DIVIDER_PREFIX)"

text \<open>\<open>oldId.split('-').pop()\<close>: what follows the last dash.\<close>

definition after_last_dash :: "string \<Rightarrow> string" where
  "after_last_dash s = rev (takeWhile (\<lambda>c. c \<noteq> CHR ''-'') (rev s))"

definition transformDividerId :: "string \<Rightarrow> item_type \<Rightarrow> string" where
  "transformDividerId oldId targetType = dividerPrefix targetType @ after_last_dash oldId"

lemmas prefix_defs = NATIVE_FILTER_PREFIX_def NATIVE_FILTER_DIVIDER_PREFIX_def
  CHART_CUSTOMIZATION_PREFIX_def CHART_CUSTOMIZATION_DIVIDER_PREFIX_def LEGACY_GROUPBY_PREFIX_def
  starts_with_def

section \<open>The relation of parents\<close>

definition parent_rel :: "filter_config \<Rightarrow> (string \<times> string) set" where
  "parent_rel cfg = {(x, p). p \<in> set (cascade_parents cfg x)}"

lemma parent_rel_iff [simp]: "(x, p) \<in> parent_rel cfg \<longleftrightarrow> p \<in> set (cascade_parents cfg x)"
  by (simp add: parent_rel_def)

definition mentioned :: "filter_config \<Rightarrow> string set" where
  "mentioned cfg = set (concat (map (cascade_parents cfg \<circ> fst) cfg))"

lemma parent_mentioned: "p \<in> set (cascade_parents cfg x) \<Longrightarrow> p \<in> mentioned cfg"
proof -
  assume p: "p \<in> set (cascade_parents cfg x)"
  then have "obj_get cfg x \<noteq> None" by (cases "obj_get cfg x") (simp_all add: cascade_parents_def)
  then obtain o' where "(x, o') \<in> set cfg" by (auto dest: map_of_SomeD)
  moreover have "p \<in> set ((cascade_parents cfg \<circ> fst) (x, o'))" using p by simp
  ultimately show ?thesis unfolding mentioned_def set_concat set_map by blast
qed

text \<open>
  What one call of \<open>visit\<close> does: it succeeds when the fuel exceeds the number of ids not visited
  yet, the new ids are appended to the list once each, they are the ones visited now, they are
  ancestors, their parents are visited, and on an acyclic graph their parents come before them.
\<close>

definition visit_post :: "filter_config \<Rightarrow> string set \<Rightarrow> string list \<times> string list \<Rightarrow> string list \<times> string list \<Rightarrow> bool" where
  "visit_post cfg start s s' \<longleftrightarrow>
     (\<exists>new. snd s' = snd s @ new \<and> set (fst s') = set (fst s) \<union> set new \<and> distinct new \<and>
        set new \<inter> set (fst s) = {} \<and> (\<forall>x \<in> set new. \<exists>y \<in> start. (y, x) \<in> (parent_rel cfg)\<^sup>*) \<and>
        (\<forall>x \<in> set new. set (cascade_parents cfg x) \<subseteq> set (fst s')))"

definition before_ok :: "filter_config \<Rightarrow> string list \<Rightarrow> bool" where
  "before_ok cfg xs \<longleftrightarrow> (\<forall>i < length xs. set (cascade_parents cfg (xs ! i)) \<subseteq> set (take i xs))"

lemma before_ok_snoc:
  "before_ok cfg xs \<Longrightarrow> set (cascade_parents cfg x) \<subseteq> set xs \<Longrightarrow> before_ok cfg (xs @ [x])"
  unfolding before_ok_def by (auto simp: nth_append less_Suc_eq)

lemma visit_post_refl: "visit_post cfg A s s"
  by (simp add: visit_post_def)

lemma visit_post_trans:
  assumes "visit_post cfg A s s'" and "visit_post cfg A s' s''"
  shows "visit_post cfg A s s''"
proof -
  from assms(1) obtain n where n: "snd s' = snd s @ n" "set (fst s') = set (fst s) \<union> set n" "distinct n"
     "set n \<inter> set (fst s) = {}" "\<forall>x \<in> set n. \<exists>y \<in> A. (y, x) \<in> (parent_rel cfg)\<^sup>*"
     "\<forall>x \<in> set n. set (cascade_parents cfg x) \<subseteq> set (fst s')"
    unfolding visit_post_def by blast
  from assms(2) obtain m where m: "snd s'' = snd s' @ m" "set (fst s'') = set (fst s') \<union> set m" "distinct m"
     "set m \<inter> set (fst s') = {}" "\<forall>x \<in> set m. \<exists>y \<in> A. (y, x) \<in> (parent_rel cfg)\<^sup>*"
     "\<forall>x \<in> set m. set (cascade_parents cfg x) \<subseteq> set (fst s'')"
    unfolding visit_post_def by blast
  show ?thesis
    unfolding visit_post_def using n m by (intro exI [of _ "n @ m"]) auto
qed

text \<open>The number of ids that are mentioned but not visited.\<close>

definition unvisited :: "filter_config \<Rightarrow> string list \<Rightarrow> nat" where
  "unvisited cfg vs = card (mentioned cfg - set vs)"

lemma finite_mentioned [simp]: "finite (mentioned cfg)"
  by (simp add: mentioned_def)

lemma unvisited_mono: "set vs \<subseteq> set vs' \<Longrightarrow> unvisited cfg vs' \<le> unvisited cfg vs"
  unfolding unvisited_def by (rule card_mono) auto

lemma unvisited_Cons: "p \<in> mentioned cfg \<Longrightarrow> p \<notin> set vs \<Longrightarrow> unvisited cfg (p # vs) < unvisited cfg vs"
  unfolding unvisited_def by (rule psubset_card_mono) auto

lemma visit_ok:
  assumes "unvisited cfg (fst s) < n"
  shows "\<exists>s'. visit_fuel n cfg cur s = Inr s' \<and> visit_post cfg {cur} s s' \<and>
     set (cascade_parents cfg cur) \<subseteq> set (fst s')"
  using assms
proof (induction n arbitrary: cur s)
  case (Suc n)
  let ?f = "\<lambda>(visited, ordered) p.
     if p \<in> set visited then Inr (visited, ordered)
     else rbind (visit_fuel n cfg p (p # visited, ordered))
            (\<lambda>(visited', ordered'). Inr (visited', ordered' @ [p]))"
  have loop: "\<exists>s'. rfold ?f s ps = Inr s' \<and> visit_post cfg {cur} s s' \<and> set ps \<subseteq> set (fst s')"
    if "set ps \<subseteq> set (cascade_parents cfg cur)" "unvisited cfg (fst s) < Suc n" for ps s
    using that
  proof (induction ps arbitrary: s)
    case Nil
    then show ?case using visit_post_refl by simp
  next
    case (Cons p ps)
    obtain V Ord where s: "s = (V, Ord)" by (cases s)
    have p: "p \<in> set (cascade_parents cfg cur)" using Cons.prems(1) by simp
    have "\<exists>s1. ?f s p = Inr s1 \<and> visit_post cfg {cur} s s1 \<and> p \<in> set (fst s1)"
    proof (cases "p \<in> set V")
      case True
      then show ?thesis using visit_post_refl by (simp add: s)
    next
      case False
      have "unvisited cfg (p # V) < n"
        using unvisited_Cons [OF parent_mentioned [OF p] False] Cons.prems(2) by (simp add: s)
      with Suc.IH [of "(p # V, Ord)" p] obtain V' O' where r: "visit_fuel n cfg p (p # V, Ord) = Inr (V', O')"
        "visit_post cfg {p} (p # V, Ord) (V', O')" "set (cascade_parents cfg p) \<subseteq> set V'" by auto
      from r(2) obtain new where new: "O' = Ord @ new" "set V' = set (p # V) \<union> set new" "distinct new"
         "set new \<inter> set (p # V) = {}" "\<forall>x \<in> set new. (p, x) \<in> (parent_rel cfg)\<^sup>*"
         "\<forall>x \<in> set new. set (cascade_parents cfg x) \<subseteq> set V'"
        unfolding visit_post_def by auto
      have "(cur, x) \<in> (parent_rel cfg)\<^sup>*" if "x \<in> set (new @ [p])" for x
        using that new(5) p by (auto intro: converse_rtrancl_into_rtrancl [of cur p])
      then have "visit_post cfg {cur} s (V', O' @ [p])"
        unfolding visit_post_def using new r(3) False
        by (intro exI [of _ "new @ [p]"]) (auto simp: s)
      moreover have "?f s p = Inr (V', O' @ [p])" using False r(1) by (simp add: s)
      moreover have "p \<in> set V'" using new(2) by simp
      ultimately show ?thesis by auto
    qed
    then obtain s1 where s1: "?f s p = Inr s1" "visit_post cfg {cur} s s1" "p \<in> set (fst s1)" by blast
    have "set (fst s) \<subseteq> set (fst s1)" using s1(2) by (auto simp: visit_post_def)
    then have "unvisited cfg (fst s1) < Suc n"
      using Cons.prems(2) unvisited_mono le_less_trans by blast
    with Cons.IH [of s1] Cons.prems(1) obtain s2 where s2: "rfold ?f s1 ps = Inr s2"
      "visit_post cfg {cur} s1 s2" "set ps \<subseteq> set (fst s2)" by auto
    have "p \<in> set (fst s2)" using s1(3) s2(2) by (auto simp: visit_post_def)
    with s1 s2 visit_post_trans [OF s1(2) s2(2)] show ?case by auto
  qed
  from loop [OF subset_refl Suc.prems] show ?case by (simp add: case_prod_unfold)
qed simp

lemma resolve_ok:
  "\<exists>vs. visit_fuel (Suc (Suc (length (concat (map (cascade_parents cfg \<circ> fst) cfg))))) cfg i ([i], []) = Inr vs \<and>
     resolveTransitiveParentIds i cfg = Inr (snd vs) \<and> visit_post cfg {i} ([i], []) vs \<and>
     set (cascade_parents cfg i) \<subseteq> set (fst vs)"
proof -
  have "unvisited cfg [i] \<le> card (mentioned cfg)" unfolding unvisited_def by (rule card_mono) auto
  also have "\<dots> \<le> length (concat (map (cascade_parents cfg \<circ> fst) cfg))"
    unfolding mentioned_def by (rule card_length)
  finally have "unvisited cfg (fst ([i], [] :: string list)) <
      Suc (Suc (length (concat (map (cascade_parents cfg \<circ> fst) cfg))))" by simp
  from visit_ok [OF this, of i] show ?thesis
    by (auto simp: resolveTransitiveParentIds_def case_prod_unfold simp del: visit_fuel.simps)
qed

lemma resolve_set:
  assumes "resolveTransitiveParentIds i cfg = Inr ys"
  shows "distinct ys" and "set ys = (parent_rel cfg)\<^sup>* `` {i} - {i}"
proof -
  from resolve_ok [of cfg i] assms obtain V where vs: "visit_post cfg {i} ([i], []) (V, ys)"
    "set (cascade_parents cfg i) \<subseteq> set V" by auto
  from vs(1) obtain new where new: "ys = [] @ new" "set V = set [i] \<union> set new" "distinct new"
      "set new \<inter> set [i] = {}" "\<forall>x \<in> set new. \<exists>y \<in> {i}. (y, x) \<in> (parent_rel cfg)\<^sup>*"
      "\<forall>x \<in> set new. set (cascade_parents cfg x) \<subseteq> set V"
    unfolding visit_post_def fst_conv snd_conv by blast
  then have V: "set V = insert i (set ys)" "distinct ys" "i \<notin> set ys"
    and anc: "\<forall>x \<in> set ys. (i, x) \<in> (parent_rel cfg)\<^sup>*"
    and closed: "\<forall>x \<in> set ys. set (cascade_parents cfg x) \<subseteq> set V"
    by (simp_all only: append_Nil) auto
  show "distinct ys" by (rule V(2))
  have "x \<in> set V" if "(i, x) \<in> (parent_rel cfg)\<^sup>*" for x
    using that
  proof (induction rule: rtrancl_induct)
    case base
    then show ?case using V(1) by simp
  next
    case (step y z)
    have "set (cascade_parents cfg y) \<subseteq> set V"
    proof (cases "y = i")
      case False
      with step.IH V(1) have "y \<in> set ys" by simp
      with closed show ?thesis by blast
    qed (use vs(2) in simp)
    with step.hyps(2) show ?case by auto
  qed
  then show "set ys = (parent_rel cfg)\<^sup>* `` {i} - {i}" using V anc by auto
qed

text \<open>On an acyclic graph every ancestor comes after its own parents.\<close>

lemma visit_order:
  assumes ac: "acyclic (parent_rel cfg)"
    and "visit_fuel n cfg cur s = Inr s'" and "before_ok cfg (snd s)"
    and "\<forall>x \<in> set (fst s) - set (snd s). (x, cur) \<in> (parent_rel cfg)\<^sup>*"
    and "unvisited cfg (fst s) < n"
  shows "before_ok cfg (snd s')"
  using assms(2-)
proof (induction n arbitrary: cur s s')
  case (Suc n)
  let ?f = "\<lambda>(visited, ordered) p.
     if p \<in> set visited then Inr (visited, ordered)
     else rbind (visit_fuel n cfg p (p # visited, ordered))
            (\<lambda>(visited', ordered'). Inr (visited', ordered' @ [p]))"
  let ?stack = "\<lambda>s. \<forall>x \<in> set (fst s) - set (snd s). (x, cur) \<in> (parent_rel cfg)\<^sup>*"
  have loop: "before_ok cfg (snd s')"
    if "set ps \<subseteq> set (cascade_parents cfg cur)" "rfold ?f s ps = Inr s'" "before_ok cfg (snd s)"
      "?stack s" "unvisited cfg (fst s) < Suc n" for ps s s'
    using that
  proof (induction ps arbitrary: s)
    case (Cons p ps)
    obtain V Ord where s: "s = (V, Ord)" by (cases s)
    have p: "(cur, p) \<in> parent_rel cfg" using Cons.prems(1) by simp
    from Cons.prems(2) obtain s1 where s1: "?f s p = Inr s1" "rfold ?f s1 ps = Inr s'"
      by (auto simp: rbind_eq_Inr)
    have "before_ok cfg (snd s1) \<and> ?stack s1 \<and> unvisited cfg (fst s1) < Suc n"
    proof (cases "p \<in> set V")
      case True
      with s1(1) Cons.prems(3-5) show ?thesis by (simp add: s)
    next
      case False
      have un: "unvisited cfg (p # V) < n"
        using unvisited_Cons [OF _ False, of cfg] parent_mentioned p Cons.prems(5) by (fastforce simp: s)
      from s1(1) False obtain V' O' where r: "visit_fuel n cfg p (p # V, Ord) = Inr (V', O')" "s1 = (V', O' @ [p])"
        by (auto simp: s rbind_eq_Inr)
      have stack: "\<forall>x \<in> set (p # V) - set Ord. (x, p) \<in> (parent_rel cfg)\<^sup>*"
        using Cons.prems(4) p by (auto simp: s intro: rtrancl_into_rtrancl)
      have bo: "before_ok cfg O'"
        using Suc.IH [OF r(1)] Cons.prems(3) stack un by (simp add: s)
      from visit_ok [of cfg "(p # V, Ord)" n p] un r(1)
      have vp: "visit_post cfg {p} (p # V, Ord) (V', O')" and par: "set (cascade_parents cfg p) \<subseteq> set V'" by auto
      from vp obtain new where new: "O' = Ord @ new" "set V' = insert p (set V) \<union> set new"
        by (auto simp: visit_post_def)
      have "set (cascade_parents cfg p) \<subseteq> set O'"
      proof
        fix q assume q: "q \<in> set (cascade_parents cfg p)"
        with par new have "q \<in> insert p (set V) \<union> set new" by blast
        moreover have "q \<in> set Ord" if "q \<in> insert p (set V)"
        proof (rule ccontr)
          assume "q \<notin> set Ord"
          with that stack have "(q, p) \<in> (parent_rel cfg)\<^sup>*" by auto
          moreover have "(p, q) \<in> parent_rel cfg" using q by simp
          ultimately have "(p, p) \<in> (parent_rel cfg)\<^sup>+" by (rule rtrancl_into_trancl2 [rotated])
          with ac show False by (simp add: acyclic_def)
        qed
        ultimately show "q \<in> set O'" using new(1) by auto
      qed
      then have "before_ok cfg (O' @ [p])" by (rule before_ok_snoc [OF bo])
      moreover have "?stack s1" using Cons.prems(4) new r(2) by (auto simp: s)
      moreover have "unvisited cfg V' \<le> unvisited cfg V" using new(2) by (intro unvisited_mono) auto
      ultimately show ?thesis using r(2) Cons.prems(5) by (simp add: s)
    qed
    with Cons.IH [of s1] Cons.prems(1) s1(2) show ?case by simp
  qed simp
  from loop [OF subset_refl _ Suc.prems(2-4)] Suc.prems(1) show ?case by simp
qed simp

lemma resolve_order:
  assumes "acyclic (parent_rel cfg)" and "resolveTransitiveParentIds i cfg = Inr ys"
  shows "before_ok cfg ys"
proof -
  from resolve_ok [of cfg i] assms(2) obtain V where
    vs: "visit_fuel (Suc (Suc (length (concat (map (cascade_parents cfg \<circ> fst) cfg))))) cfg i ([i], []) = Inr (V, ys)"
    by auto
  have "unvisited cfg [i] \<le> card (mentioned cfg)" unfolding unvisited_def by (rule card_mono) auto
  also have "\<dots> \<le> length (concat (map (cascade_parents cfg \<circ> fst) cfg))"
    unfolding mentioned_def by (rule card_length)
  finally have "unvisited cfg [i] < Suc (Suc (length (concat (map (cascade_parents cfg \<circ> fst) cfg))))" by simp
  from visit_order [OF assms(1) vs] this show ?thesis by (simp add: before_ok_def)
qed

section \<open>The cycle check\<close>

definition dep_rel :: "(string, string list) obj \<Rightarrow> (string \<times> string) set" where
  "dep_rel m = {(a, b). \<exists>ds. obj_get m a = Some ds \<and> b \<in> set ds}"

lemma circular_sound:
  assumes "hasCircularDependency m i trace" and "\<forall>x \<in> set trace. (x, i) \<in> (dep_rel m)\<^sup>+"
  shows "\<exists>x. (i, x) \<in> (dep_rel m)\<^sup>* \<and> (x, x) \<in> (dep_rel m)\<^sup>+"
  using assms
proof (induction m i trace rule: hasCircularDependency.induct)
  case (1 m i trace)
  show ?case
  proof (cases "i \<in> set trace")
    case True
    with "1.prems"(2) show ?thesis by blast
  next
    case False
    with "1.prems"(1) obtain ds d where d: "obj_get m i = Some ds" "d \<in> set ds"
        "hasCircularDependency m d (trace @ [i])"
      by (subst (asm) hasCircularDependency.simps) (auto simp: list_ex_iff split: option.splits)
    then have e: "(i, d) \<in> dep_rel m" by (auto simp: dep_rel_def)
    have "\<forall>x \<in> set (trace @ [i]). (x, d) \<in> (dep_rel m)\<^sup>+"
      using "1.prems"(2) e by (auto intro: trancl_into_trancl)
    from "1.IH" [OF False d(1,2,3) this] e show ?thesis by (meson converse_rtrancl_into_rtrancl)
  qed
qed

lemma circular_complete:
  assumes "\<not> hasCircularDependency m i trace"
  shows "(i, x) \<in> (dep_rel m)\<^sup>* \<Longrightarrow> (x, x) \<notin> (dep_rel m)\<^sup>+"
  using assms
proof (induction m i trace arbitrary: x rule: hasCircularDependency.induct)
  case (1 m i trace)
  from "1.prems"(2) have ni: "i \<notin> set trace" by (subst (asm) hasCircularDependency.simps) auto
  have no: "(y, y) \<notin> (dep_rel m)\<^sup>+" if e: "(i, d) \<in> dep_rel m" and y: "(d, y) \<in> (dep_rel m)\<^sup>*" for d y
  proof -
    from e obtain ds where ds: "obj_get m i = Some ds" "d \<in> set ds" by (auto simp: dep_rel_def)
    with "1.prems"(2) ni have "\<not> hasCircularDependency m d (trace @ [i])"
      by (subst (asm) hasCircularDependency.simps) (auto simp: list_ex_iff)
    from "1.IH" [OF ni ds y this] show ?thesis .
  qed
  show ?case
  proof (cases "x = i")
    case True
    show ?thesis
    proof
      assume "(x, x) \<in> (dep_rel m)\<^sup>+"
      then obtain d where "(i, d) \<in> dep_rel m" "(d, i) \<in> (dep_rel m)\<^sup>*"
        using True by (meson tranclD)
      with no [of d i] \<open>(x, x) \<in> (dep_rel m)\<^sup>+\<close> True show False by simp
    qed
  next
    case False
    with "1.prems"(1) obtain d where "(i, d) \<in> dep_rel m" "(d, x) \<in> (dep_rel m)\<^sup>*"
      by (metis converse_rtranclE)
    then show ?thesis by (rule no)
  qed
qed

lemma circular_iff:
  "hasCircularDependency m i [] \<longleftrightarrow> (\<exists>x. (i, x) \<in> (dep_rel m)\<^sup>* \<and> (x, x) \<in> (dep_rel m)\<^sup>+)"
  using circular_sound [of m i "[]"] circular_complete [of m i "[]"] by auto

section \<open>Ids and their kinds\<close>

lemma generateFilterId_kind:
  "isNativeFilter (generateFilterId b n) = b \<and> isNativeFilterDivider (generateFilterId b n) = (\<not> b) \<and>
   isFilterId (generateFilterId b n) \<and> \<not> isChartCustomizationId (generateFilterId b n)"
  by (cases b) (simp_all add: isNativeFilter_def isNativeFilterDivider_def isFilterId_def
      isChartCustomizationId_def generateFilterId_def prefix_defs)

lemma generateChartCustomizationId_kind:
  "isChartCustomization (generateChartCustomizationId b n) = b \<and>
   isChartCustomizationDivider (generateChartCustomizationId b n) = (\<not> b) \<and>
   isChartCustomizationId (generateChartCustomizationId b n) \<and> \<not> isFilterId (generateChartCustomizationId b n)"
  by (cases b) (simp_all add: isChartCustomization_def isChartCustomizationDivider_def isFilterId_def
      isChartCustomizationId_def generateChartCustomizationId_def prefix_defs)

section \<open>Properties\<close>

text \<open>C11: \<open>resolveTransitiveParentIds\<close> always returns, cycles in the configuration included, and
  lists every proper ancestor of the filter exactly once.\<close>

theorem resolveTransitiveParentIds_all_ancestors:
  "\<exists>ys. resolveTransitiveParentIds i cfg = Inr ys \<and> distinct ys \<and>
     set ys = (parent_rel cfg)\<^sup>* `` {i} - {i}"
  using resolve_ok [of cfg i] resolve_set [of i cfg] by blast

text \<open>C12: on a configuration without cycles the list is in topological order: a filter comes after
  all its own parents, so that the closest parent's scalar values win.\<close>

theorem resolveTransitiveParentIds_topological:
  assumes "\<forall>x. \<not> hasCircularDependency [(k, ps). (k, Some ps) \<leftarrow> cfg] x []"
    and "obj_ok cfg" and "resolveTransitiveParentIds i cfg = Inr ys" and "k < length ys"
  shows "set (cascade_parents cfg (ys ! k)) \<subseteq> set (take k ys)"
proof -
  let ?m = "[(k, ps). (k, Some ps) \<leftarrow> cfg]"
  have "parent_rel cfg \<subseteq> dep_rel ?m"
  proof
    fix e assume "e \<in> parent_rel cfg"
    then obtain x p where e: "e = (x, p)" "p \<in> set (cascade_parents cfg x)" by (cases e) auto
    then have "\<exists>ps. obj_get cfg x = Some (Some ps) \<and> p \<in> set ps"
      unfolding cascade_parents_def by (cases "obj_get cfg x") (auto split: option.splits)
    then obtain ps where ps: "obj_get cfg x = Some (Some ps)" "p \<in> set ps" by blast
    have "obj_get ?m x = Some ps"
      using assms(2) ps(1)
    proof (induction cfg)
      case (Cons c cfg)
      obtain y q where c: "c = (y, q)" by (cases c)
      show ?case
      proof (cases "y = x")
        case True
        with Cons.prems c show ?thesis by simp
      next
        case False
        with Cons c have "obj_get [(k, ps). (k, Some ps) \<leftarrow> cfg] x = Some ps"
          by (auto simp: obj_ok_def)
        with False c show ?thesis by (cases q) auto
      qed
    qed simp
    with ps(2) e(1) show "e \<in> dep_rel ?m" by (auto simp: dep_rel_def)
  qed
  moreover have "acyclic (dep_rel ?m)"
    using assms(1) circular_iff [of ?m] by (auto simp: acyclic_def)
  ultimately have "acyclic (parent_rel cfg)" using acyclic_subset by blast
  from resolve_order [OF this assms(3)] assms(4) show ?thesis by (simp add: before_ok_def)
qed

definition sample_filters :: filter_config where
  "sample_filters = [(''A'', None), (''B'', Some [''A'']), (''C'', Some [''B'', ''A''])]"

lemma sample_filters_acyclic:
  "\<not> hasCircularDependency [(k, ps). (k, Some ps) \<leftarrow> sample_filters] x []"
  by (cases "x = ''B''"; cases "x = ''C''")
    (simp_all add: sample_filters_def hasCircularDependency.simps)

theorem resolveTransitiveParentIds_topological_witness:
  "resolveTransitiveParentIds ''C'' sample_filters = Inr [''A'', ''B''] \<and>
   set (cascade_parents sample_filters ([''A'', ''B''] ! 1)) \<subseteq> set (take 1 [''A'', ''B''])"
proof -
  have r: "resolveTransitiveParentIds ''C'' sample_filters = Inr [''A'', ''B'']"
    by (simp add: resolveTransitiveParentIds_def sample_filters_def cascade_parents_def)
  have "obj_ok sample_filters" by (simp add: obj_ok_def sample_filters_def)
  moreover have "1 < length [''A'', ''B'']" by simp
  ultimately have "set (cascade_parents sample_filters ([''A'', ''B''] ! 1)) \<subseteq> set (take 1 [''A'', ''B''])"
    using r sample_filters_acyclic
      resolveTransitiveParentIds_topological [of sample_filters "''C''" "[''A'', ''B'']" 1] by blast
  with r show ?thesis by blast
qed

text \<open>C13: \<open>hasCircularDependency\<close> terminates on every map and answers whether a cycle of dependencies
  can be reached from the filter, not only whether the filter itself is on one.\<close>

theorem hasCircularDependency_reaches_cycle:
  "hasCircularDependency m i [] \<longleftrightarrow> (\<exists>x. (i, x) \<in> (dep_rel m)\<^sup>* \<and> (x, x) \<in> (dep_rel m)\<^sup>+)"
  by (rule circular_iff)

text \<open>every generated id is recognised as what it was generated for and as nothing else.\<close>

theorem generated_ids_are_recognised:
  "getItemType (generateFilterId b n) = Inr FilterItem \<and>
   getItemType (generateChartCustomizationId b n) = Inr CustomizationItem \<and>
   isDivider (generateFilterId b n) = (\<not> b) \<and> isDivider (generateChartCustomizationId b n) = (\<not> b) \<and>
   isNativeFilter (generateFilterId b n) = b \<and> isChartCustomization (generateChartCustomizationId b n) = b"
  using generateFilterId_kind [of b n] generateChartCustomizationId_kind [of b n]
  by (auto simp: getItemType_def isDivider_def isChartCustomizationDivider_def isNativeFilterDivider_def
      generateFilterId_def generateChartCustomizationId_def prefix_defs)

lemma takeWhile_append_stop: "\<not> P x \<Longrightarrow> takeWhile P (xs @ x # ys) = takeWhile P xs"
  by (induction xs) auto

text \<open>turning a divider of one kind into one of the other keeps only what follows the last dash of
  its id. The random part of an id may contain dashes, so different dividers may get the same
  new id.\<close>

theorem transformDividerId_forgets:
  "transformDividerId (generateFilterId False (a @ CHR ''-'' # b)) ty =
   transformDividerId (generateFilterId False b) ty"
  by (simp add: transformDividerId_def after_last_dash_def generateFilterId_def takeWhile_append_stop
      NATIVE_FILTER_DIVIDER_PREFIX_def)

end
