(* ===== verification/FilterScopes.thy ===== *)
theory FilterScopes
  imports LayoutQueries FilterDeps
begin

text \<open>
  Which charts a filter applies to: the scope of native filters and cross filters
  (\<open>util/getChartIdsInFilterScope.ts\<close>, \<open>util/calculateScopes.ts\<close>, \<open>util/crossFilters.ts\<close>,
  \<open>util/getRelatedCharts.ts\<close>), the keys and the scopes of the older filter boxes
  (\<open>util/getDashboardFilterKey.ts\<close>, \<open>util/activeDashboardFilters.ts\<close>,
  \<open>reducers/dashboardFilters.ts\<close>). Chart ids are integers.
\<close>

section \<open>Keys of filter boxes\<close>

definition getDashboardFilterKey :: "string \<Rightarrow> string \<Rightarrow> string" where
  "getDashboardFilterKey chartId column = chartId @ ''_'' @ column"

text \<open>The expression \<open>/^([0-9]+)_(.*)$/\<close>: digits, an underscore, and no line terminator after it.\<close>

definition getChartIdAndColumnFromFilterKey :: "string \<Rightarrow> (int \<times> string) result" where
  "getChartIdAndColumnFromFilterKey key =
     (let ds = takeWhile is_digit key; rest = dropWhile is_digit key
      in if ds \<noteq> [] \<and> rest \<noteq> [] \<and> hd rest = CHR ''_'' \<and>
            list_all (\<lambda>c. c \<noteq> CHR 0x0A \<and> c \<noteq> CHR 0x0D) (tl rest)
         then Inr (digits_val ds, tl rest)
         else Inl (ParseError ''Cannot parse invalid filter key''))"

section \<open>Charts in the scope of a native filter\<close>

record native_scope =
  root_path :: "string list"
  excluded :: "int list"
  selected_layers :: "string list option"

text \<open>The expression \<open>/^chart-(\d+)-layer-(\d+)$/\<close> and the chart id in it.\<close>

definition layer_chart :: "string \<Rightarrow> int option" where
  "layer_chart s =
     (if \<not> starts_with ''chart-'' s then None
      else (let r = drop 6 s; ds = takeWhile is_digit r; q = dropWhile is_digit r
            in if ds = [] \<or> \<not> starts_with ''-layer-'' q then None
               else (let l = drop 7 q
                     in if l \<noteq> [] \<and> list_all is_digit l then Some (digits_val ds) else None)))"

definition chart_item :: "int \<Rightarrow> layout_item list \<Rightarrow> layout_item option" where
  "chart_item cid items = List.find (\<lambda>c. item_type c = CHART_TYPE \<and> meta_num ''chartId'' c = Some cid) items"

definition in_root_path :: "native_scope \<Rightarrow> int \<Rightarrow> layout_item list \<Rightarrow> bool" where
  "in_root_path sc cid items =
     (case chart_item cid items of
        None \<Rightarrow> False
      | Some c \<Rightarrow> (case parents c of None \<Rightarrow> False
                   | Some ps \<Rightarrow> list_ex (\<lambda>p. p \<in> set (root_path sc)) ps))"

text \<open>\<open>if (!xs.includes(x)) xs.push(x)\<close>.\<close>

definition push_new :: "'a list \<Rightarrow> 'a \<Rightarrow> 'a list" where
  "push_new xs x = (if x \<in> set xs then xs else xs @ [x])"

definition getChartIdsInFilterScope :: "native_scope \<Rightarrow> int list \<Rightarrow> layout_item list \<Rightarrow> int list" where
  "getChartIdsInFilterScope sc chartIds items =
     (case selected_layers sc of
        Some (k # ks) \<Rightarrow>
          (let selected = List.map_filter layer_chart (k # ks);
               target = foldl (\<lambda>ts c. if c \<in> set chartIds then push_new ts c else ts) [] selected;
               regular = filter (\<lambda>c. c \<notin> set (excluded sc) \<and> c \<notin> set selected \<and> in_root_path sc c items)
                           chartIds
           in foldl push_new target regular)
      | _ \<Rightarrow> filter (\<lambda>c. c \<notin> set (excluded sc) \<and> in_root_path sc c items) chartIds)"

definition TAB_PREFIX :: string where "TAB_PREFIX = type_string TAB_TYPE @ ''-''"

definition findTabsWithChartsInScope :: "layout_item list \<Rightarrow> int list \<Rightarrow> string list" where
  "findTabsWithChartsInScope items chartsInScope =
     js_uniq (concat (List.map_filter
       (\<lambda>cid. case List.find (\<lambda>c. meta_num ''chartId'' c = Some cid) items of
                 None \<Rightarrow> None
               | Some c \<Rightarrow> map_option (filter (starts_with TAB_PREFIX)) (parents c))
       chartsInScope))"

text \<open>A filter's scope: absent, with an \<open>excluded\<close> that is no array, or well-typed.\<close>

datatype item_scope = NoScope | MalformedScope | ItemScope native_scope

record scope_item =
  si_id :: string
  si_scope :: item_scope

record calculated_scope =
  cs_id :: string
  charts_in_scope :: "int list"
  tabs_in_scope :: "string list"

definition calculateScopes ::
    "scope_item list \<Rightarrow> int list \<Rightarrow> layout_item list \<Rightarrow> (scope_item \<Rightarrow> bool) \<Rightarrow> calculated_scope list" where
  "calculateScopes scopeItems chartIds layoutItems divider =
     map (\<lambda>it. let empty = \<lparr>cs_id = si_id it, charts_in_scope = [], tabs_in_scope = []\<rparr>
               in if divider it then empty
                  else case si_scope it of
                         ItemScope sc \<Rightarrow>
                           (let cs = getChartIdsInFilterScope sc chartIds layoutItems
                            in \<lparr>cs_id = si_id it, charts_in_scope = cs,
                                tabs_in_scope = findTabsWithChartsInScope layoutItems cs\<rparr>)
                       | _ \<Rightarrow> empty)
       scopeItems"

section \<open>Cross filters\<close>

definition isCrossFiltersEnabled :: "bool option \<Rightarrow> bool" where
  "isCrossFiltersEnabled b = (b = None \<or> b = Some True)"

datatype cross_scope = GlobalScope | ScopedTo native_scope

record chart_config =
  cc_id :: int
  cc_scope :: cross_scope
  cc_charts :: "int list"

record global_config =
  gc_scope :: native_scope
  gc_charts :: "int list"

record cross_chart =
  xc_id :: int
  xc_viz_type :: "string option"

definition DEFAULT_CROSS_FILTER_SCOPING :: native_scope where
  "DEFAULT_CROSS_FILTER_SCOPING = \<lparr>root_path = [DASHBOARD_ROOT_ID], excluded = [], selected_layers = None\<rparr>"

text \<open>
  \<open>interactive\<close> says whether the registered metadata of a visualization type has the behaviour
  \<open>InteractiveChart\<close>: the registry is filled by the plugins.
\<close>

definition cross_config_step ::
    "(string option \<Rightarrow> bool) \<Rightarrow> (int, chart_config) obj option \<Rightarrow> global_config \<Rightarrow> layout_item list
      \<Rightarrow> (int, cross_chart) obj \<Rightarrow> (int, chart_config) obj \<Rightarrow> layout_item \<Rightarrow> (int, chart_config) obj" where
  "cross_config_step interactive saved g items charts conf it =
     (case meta_num ''chartId'' it of
        None \<Rightarrow> conf
      | Some cid \<Rightarrow>
          (if \<not> interactive (case obj_get charts cid of None \<Rightarrow> None | Some c \<Rightarrow> xc_viz_type c)
           then conf
           else (let conf1 = (case (case saved of None \<Rightarrow> None | Some s \<Rightarrow> obj_get s cid) of
                                Some c \<Rightarrow> obj_set cid c conf | None \<Rightarrow> conf);
                     c = (case obj_get conf1 cid of
                            Some c \<Rightarrow> c
                          | None \<Rightarrow> \<lparr>cc_id = cid, cc_scope = GlobalScope, cc_charts = []\<rparr>);
                     inScope = (case cc_scope c of
                                  GlobalScope \<Rightarrow> filter (\<lambda>i. i \<noteq> cid) (gc_charts g)
                                | ScopedTo sc \<Rightarrow>
                                    getChartIdsInFilterScope sc (map xc_id (obj_values charts)) items)
                 in obj_set cid (c\<lparr>cc_charts := inScope\<rparr>) conf1)))"

definition global_cross_config ::
    "native_scope option \<Rightarrow> int list \<Rightarrow> layout_item list \<Rightarrow> global_config" where
  "global_cross_config globalScope ids items =
     (case globalScope of
        Some sc \<Rightarrow> \<lparr>gc_scope = sc, gc_charts = getChartIdsInFilterScope sc ids items\<rparr>
      | None \<Rightarrow> \<lparr>gc_scope = DEFAULT_CROSS_FILTER_SCOPING, gc_charts = ids\<rparr>)"

definition getCrossFiltersConfiguration ::
    "(string option \<Rightarrow> bool) \<Rightarrow> layout \<Rightarrow> (int, chart_config) obj option \<Rightarrow> native_scope option
      \<Rightarrow> (int, cross_chart) obj \<Rightarrow> (int, chart_config) obj \<times> global_config" where
  "getCrossFiltersConfiguration interactive L saved globalScope charts =
     (let items = filter (\<lambda>c. item_type c = CHART_TYPE) (obj_values L);
          g = global_cross_config globalScope (map xc_id (obj_values charts)) items
      in (foldl (cross_config_step interactive saved g items charts) [] items, g))"

section \<open>Related charts\<close>

record slice =
  slice_id :: int
  slice_datasource :: "string option"

definition isGlobalScope :: "int list \<Rightarrow> (string, slice) obj \<Rightarrow> bool" where
  "isGlobalScope scope slices = (length scope = length (obj_keys slices))"

text \<open>\<open>Object.keys(slices).map(Number)\<close>: the keys of the store are the slices' ids, written \<open>number\<close>.\<close>

definition getRelatedChartsForSelectFilter ::
    "(string \<Rightarrow> int) \<Rightarrow> (string, slice) obj \<Rightarrow> int list \<Rightarrow> int list" where
  "getRelatedChartsForSelectFilter number slices chartsInScope =
     (if isGlobalScope chartsInScope slices then map number (obj_keys slices)
      else filter (\<lambda>i. i \<in> set chartsInScope) (map slice_id (obj_values slices)))"

definition getRelatedChartsForCrossFilter ::
    "(string \<Rightarrow> int) \<Rightarrow> string \<Rightarrow> (string, slice) obj \<Rightarrow> int list \<Rightarrow> int list" where
  "getRelatedChartsForCrossFilter number filterKey slices scope =
     (case obj_get slices filterKey of
        None \<Rightarrow> []
      | Some _ \<Rightarrow>
          (let full = filter (\<lambda>s. int_string s \<noteq> filterKey) scope @ [number filterKey]
           in filter (\<lambda>i. i \<noteq> number filterKey \<and> (isGlobalScope full slices \<or> i \<in> set scope))
                (map slice_id (obj_values slices))))"

text \<open>The filter is an applied cross filter, an applied native filter or a native filter; its scope is
  an array of ids, or its \<open>chartsInScope\<close> is taken.\<close>

record related_filter =
  rf_cross :: bool
  rf_applied_native :: bool
  rf_native :: bool
  rf_scope :: "int list option"
  rf_charts :: "int list option"

definition getRelatedCharts ::
    "(string \<Rightarrow> int) \<Rightarrow> string \<Rightarrow> related_filter \<Rightarrow> (string, slice) obj \<Rightarrow> int list" where
  "getRelatedCharts number filterKey f slices =
     (let isCross = (filterKey \<in> set (obj_keys slices) \<and> rf_cross f);
          chartsInScope = (case rf_scope f of Some s \<Rightarrow> s
                           | None \<Rightarrow> (case rf_charts f of Some s \<Rightarrow> s | None \<Rightarrow> []));
          related = (if isCross then getRelatedChartsForCrossFilter number filterKey slices chartsInScope else [])
      in if \<not> isCross \<or> rf_applied_native f \<or> rf_native f
         then getRelatedChartsForSelectFilter number slices chartsInScope
         else related)"

text \<open>\<open>split('__')[0]\<close>.\<close>

fun before_double_underscore :: "string \<Rightarrow> string" where
  "before_double_underscore (a # b # s) =
     (if a = CHR ''_'' \<and> b = CHR ''_'' then [] else a # before_double_underscore (b # s))"
| "before_double_underscore s = s"

definition getRelatedChartsForChartCustomization ::
    "int list option \<Rightarrow> string option \<Rightarrow> (string, slice) obj \<Rightarrow> int list" where
  "getRelatedChartsForChartCustomization chartsInScope dataset slices =
     (case chartsInScope of
        Some cs \<Rightarrow> cs
      | None \<Rightarrow>
          (case dataset of
             None \<Rightarrow> []
           | Some d \<Rightarrow>
               map slice_id (filter (\<lambda>s. case slice_datasource s of None \<Rightarrow> False
                                          | Some ds \<Rightarrow> ds \<noteq> [] \<and> before_double_underscore ds = d)
                               (obj_values slices))))"

section \<open>Scopes of filter boxes\<close>

record box_scope =
  bs_scope :: "string list"
  bs_immune :: "int list"

definition DASHBOARD_FILTER_SCOPE_GLOBAL :: box_scope where
  "DASHBOARD_FILTER_SCOPE_GLOBAL = \<lparr>bs_scope = [DASHBOARD_ROOT_ID], bs_immune = []\<rparr>"

record dashboard_filter =
  df_chart :: int
  df_component :: "string option"
  df_name :: "string option"
  df_datasource :: "int option"
  df_path :: "string list"
  df_date :: bool
  df_instant :: bool
  df_columns :: jsobj
  df_labels :: "(string, string) obj"
  df_scopes :: "(string, box_scope) obj"

record active_filter =
  af_values :: jsval
  af_scope :: "int list"

text \<open>The variables of the module \<open>activeDashboardFilters\<close>.\<close>

record filter_module =
  activeFilters :: "(string, active_filter) obj"
  appliedFilterValuesByChart :: "(int, (string, jsval list) obj) obj"
  allComponents :: layout

text \<open>The inner \<open>traverse\<close> of \<open>getChartIdsInFilterScope\<close>: the charts in the order of the layout.\<close>

fun box_charts_fuel :: "nat \<Rightarrow> layout \<Rightarrow> int list \<Rightarrow> string \<Rightarrow> int list result" where
  "box_charts_fuel 0 L immune k = Inl StackOverflow"
| "box_charts_fuel (Suc n) L immune k =
     (case obj_get L k of
        None \<Rightarrow> Inr []
      | Some c \<Rightarrow>
          (case (if item_type c = CHART_TYPE then chart_id_of c else None) of
             Some cid \<Rightarrow> (if cid \<notin> set immune then Inr [cid]
                          else rbind (rmap (box_charts_fuel n L immune) (children c)) (\<lambda>xs. Inr (concat xs)))
           | None \<Rightarrow> rbind (rmap (box_charts_fuel n L immune) (children c)) (\<lambda>xs. Inr (concat xs))))"

definition box_charts_in_scope :: "layout \<Rightarrow> box_scope option \<Rightarrow> int list result" where
  "box_charts_in_scope L sc =
     (let s = (case sc of None \<Rightarrow> DASHBOARD_FILTER_SCOPE_GLOBAL | Some s \<Rightarrow> s)
      in rbind (rmap (box_charts_fuel (Suc (length L)) L (bs_immune s)) (bs_scope s)) (\<lambda>xs. Inr (concat xs)))"

text \<open>An array counts when it has elements, another value when it is not \<open>undefined\<close>.\<close>

definition active_value :: "jsval \<Rightarrow> bool" where
  "active_value v = (case v of JArr xs \<Rightarrow> xs \<noteq> [] | _ \<Rightarrow> v \<noteq> JUndef)"

definition active_of_filter :: "layout \<Rightarrow> dashboard_filter \<Rightarrow> (string, active_filter) obj result" where
  "active_of_filter L f =
     rfold (\<lambda>acc (column, v).
              if active_value v
              then rbind (box_charts_in_scope L (obj_get (df_scopes f) column)) (\<lambda>cs.
                     Inr (obj_set (getDashboardFilterKey (int_string (df_chart f)) column)
                            \<lparr>af_values = v, af_scope = filter (\<lambda>i. df_chart f \<noteq> i) cs\<rparr> acc))
              else Inr acc)
       [] (df_columns f)"

definition buildActiveFilters ::
    "(string, dashboard_filter) obj \<Rightarrow> layout \<Rightarrow> filter_module \<Rightarrow> filter_module result" where
  "buildActiveFilters filters comps m =
     (let m' = m\<lparr>allComponents := (if comps = [] then allComponents m else comps),
                 appliedFilterValuesByChart := []\<rparr>
      in rbind (rfold (\<lambda>acc f. rbind (active_of_filter (allComponents m') f) (\<lambda>a. Inr (obj_spread acc a)))
                  [] (obj_values filters))
           (\<lambda>a. Inr (m'\<lparr>activeFilters := a\<rparr>)))"

definition applied_values :: "jsval \<Rightarrow> jsval list" where
  "applied_values v = (case v of JArr xs \<Rightarrow> filter (\<lambda>x. \<not> nullish x) xs
                       | _ \<Rightarrow> if nullish v then [] else [v])"

definition getAppliedFilterValues ::
    "int \<Rightarrow> (string, active_filter) obj option \<Rightarrow> filter_module
      \<Rightarrow> ((string, jsval list) obj \<times> filter_module) result" where
  "getAppliedFilterValues chartId filters m =
     (case obj_get (appliedFilterValuesByChart m) chartId of
        Some vs \<Rightarrow> Inr (vs, m)
      | None \<Rightarrow>
          (let fs = (case filters of Some f \<Rightarrow> f | None \<Rightarrow> activeFilters m);
               applicable = filter (\<lambda>(k, f). chartId \<in> set (af_scope f)) fs
           in rbind (rfold (\<lambda>acc (k, f). rbind (getChartIdAndColumnFromFilterKey k)
                              (\<lambda>(_, column). Inr (obj_set column (applied_values (af_values f)) acc)))
                       [] applicable)
                (\<lambda>vs. Inr (vs, m\<lparr>appliedFilterValuesByChart :=
                              obj_set chartId vs (appliedFilterValuesByChart m)\<rparr>))))"

section \<open>The reducer of filter boxes\<close>

datatype filter_action =
    CHANGE_FILTER int "jsobj option" bool
  | UPDATE_DIRECT_PATH_TO_FILTER int "string list option"
  | UPDATE_LAYOUT_COMPONENTS layout
  | UPDATE_DASHBOARD_FILTERS_SCOPE "(string, box_scope) obj option"
  | HYDRATE_FILTERS "(string, dashboard_filter) obj option"
  | OtherFilterAction

definition merge_columns :: "bool \<Rightarrow> jsobj \<Rightarrow> jsobj \<Rightarrow> jsobj" where
  "merge_columns mrg new cols =
     foldl (\<lambda>cols (name, v).
              if \<not> mrg \<or> obj_get cols name = None then obj_set name v cols
              else obj_set name
                     (JArr ((case obj_get cols name of Some (JArr xs) \<Rightarrow> xs | _ \<Rightarrow> []) @
                            (case v of JArr ys \<Rightarrow> ys | _ \<Rightarrow> []))) cols)
       cols new"

type_synonym filters_state = "(string, dashboard_filter) obj \<times> filter_module"

definition dashboardFiltersReducer :: "filter_action \<Rightarrow> filters_state \<Rightarrow> filters_state result" where
  "dashboardFiltersReducer act s =
     (let (filters, m) = s;
          build = (\<lambda>fs. rbind (buildActiveFilters fs [] m) (\<lambda>m'. Inr (fs, m')))
      in case act of
           UPDATE_LAYOUT_COMPONENTS comps \<Rightarrow>
             rbind (buildActiveFilters filters comps m) (\<lambda>m'. Inr (filters, m'))
         | UPDATE_DASHBOARD_FILTERS_SCOPE None \<Rightarrow> Inr s
         | UPDATE_DASHBOARD_FILTERS_SCOPE (Some scopes) \<Rightarrow>
             rbind (rfold (\<lambda>fs (key, sc).
                 rbind (getChartIdAndColumnFromFilterKey key) (\<lambda>(cid, column).
                 rbind (or_throw TypeError (obj_get fs (int_string cid))) (\<lambda>f.
                   Inr (obj_set (int_string cid) (f\<lparr>df_scopes := obj_set column sc (df_scopes f)\<rparr>) fs))))
               filters scopes) build
         | HYDRATE_FILTERS fs \<Rightarrow> Inr (case fs of None \<Rightarrow> [] | Some fs \<Rightarrow> fs, m)
         | CHANGE_FILTER cid new mrg \<Rightarrow>
             rbind (or_throw TypeError (obj_get filters (int_string cid))) (\<lambda>f.
               build (obj_set (int_string cid)
                        (case new of None \<Rightarrow> f | Some vs \<Rightarrow> f\<lparr>df_columns := merge_columns mrg vs (df_columns f)\<rparr>)
                        filters))
         | UPDATE_DIRECT_PATH_TO_FILTER cid path \<Rightarrow>
             rbind (or_throw UndefinedElement (obj_get filters (int_string cid))) (\<lambda>f.
               Inr (obj_set (int_string cid)
                      (f\<lparr>df_path := (case path of None \<Rightarrow> [] | Some p \<Rightarrow> p)\<rparr>) filters, m))
         | OtherFilterAction \<Rightarrow> Inr s)"

section \<open>Saving scopes\<close>

definition serializeFilterScopes ::
    "(string, dashboard_filter) obj \<Rightarrow> (string, (string, box_scope) obj) obj" where
  "serializeFilterScopes filters =
     foldl (\<lambda>acc f. obj_set (int_string (df_chart f))
              (foldl (\<lambda>m (column, sc). obj_set column sc m) [] (df_scopes f)) acc)
       [] (obj_values filters)"

section \<open>Lemmas on numbers and keys\<close>

lemma digit_char: "d < 10 \<Longrightarrow> is_digit (char_of (48 + d :: nat))"
  by (simp add: is_digit_def)

lemma digits_val_snoc: "digits_val (s @ [c]) = 10 * digits_val s + (of_char c - 48)"
  by (simp add: digits_val_def)

lemma nat_string_digits: "list_all is_digit (nat_string n)"
proof (induction n rule: nat_string.induct)
  case (1 n)
  show ?case
  proof (cases "n < 10")
    case True
    then show ?thesis by (subst nat_string.simps) (simp add: digit_char)
  next
    case False
    with 1 show ?thesis by (subst nat_string.simps) (simp add: digit_char)
  qed
qed

lemma nat_string_nonempty: "nat_string n \<noteq> []"
  by (subst nat_string.simps) simp

lemma digits_val_nat_string: "digits_val (nat_string n) = int n"
proof (induction n rule: nat_string.induct)
  case (1 n)
  have d: "(of_char (char_of (48 + m :: nat)) :: int) - 48 = int m" if "m < 10" for m
  proof -
    have "(of_char (char_of (48 + m :: nat)) :: int) = int (of_char (char_of (48 + m)))"
      by (simp only: of_nat_of_char)
    also have "\<dots> = int (48 + m)" using that by (simp only: of_char_of) simp
    finally show ?thesis by simp
  qed
  show ?case
  proof (cases "n < 10")
    case True
    then show ?thesis using d [of n] by (subst nat_string.simps) (simp add: digits_val_def)
  next
    case False
    have "10 * int (n div 10) + int (n mod 10) = int n"
      by (metis of_nat_add of_nat_mult of_nat_numeral mult_div_mod_eq)
    moreover have "nat_string n = nat_string (n div 10) @ [char_of (48 + n mod 10)]"
      using False by (subst nat_string.simps) simp
    ultimately show ?thesis
      using 1 [OF False] d [of "n mod 10"] by (simp only: digits_val_snoc)
  qed
qed

lemma takeWhile_digits: "list_all is_digit ds \<Longrightarrow> takeWhile is_digit (ds @ CHR ''_'' # r) = ds"
  by (induction ds) (auto simp: is_digit_def)

lemma dropWhile_digits: "list_all is_digit ds \<Longrightarrow> dropWhile is_digit (ds @ CHR ''_'' # r) = CHR ''_'' # r"
  by (induction ds) (auto simp: is_digit_def)

lemma key_of_nat:
  "getChartIdAndColumnFromFilterKey (getDashboardFilterKey (nat_string n) column) =
     (if list_all (\<lambda>c. c \<noteq> CHR 0x0A \<and> c \<noteq> CHR 0x0D) column then Inr (int n, column)
      else Inl (ParseError ''Cannot parse invalid filter key''))"
  using takeWhile_digits [OF nat_string_digits] dropWhile_digits [OF nat_string_digits]
  by (simp add: getChartIdAndColumnFromFilterKey_def getDashboardFilterKey_def Let_def
      nat_string_nonempty digits_val_nat_string)

lemma key_of_int:
  assumes "getChartIdAndColumnFromFilterKey (getDashboardFilterKey (int_string n) column) = Inr (c, col)"
  shows "c = n \<and> col = column"
proof (cases "n < 0")
  case True
  have "takeWhile is_digit (''-'' @ s) = []" for s by (simp add: is_digit_def)
  with assms True show ?thesis
    by (simp add: getChartIdAndColumnFromFilterKey_def getDashboardFilterKey_def int_string_def is_digit_def)
next
  case False
  with assms show ?thesis by (simp add: int_string_def key_of_nat split: if_splits)
qed

end
