(* ===== verification/FilterClaims.thy ===== *)
theory FilterClaims
  imports FilterScopes
begin

text \<open>
  The properties of filter scopes and filter boxes: what is in a scope, that no filter applies to
  its own chart, that filter keys can be read back, and the reducer of the filter boxes as an
  instance of the interface of reducers with an invariant.
\<close>

section \<open>Scopes\<close>

lemma foldl_push_new_set: "set (foldl push_new xs ys) = set xs \<union> set ys"
  by (induction ys arbitrary: xs) (auto simp: push_new_def)

lemma foldl_push_new_distinct: "distinct xs \<Longrightarrow> distinct (foldl push_new xs ys)"
  by (induction ys arbitrary: xs) (auto simp: push_new_def)

lemma foldl_push_in:
  "set (foldl (\<lambda>ts c. if c \<in> set A then push_new ts c else ts) xs ys) = set xs \<union> (set ys \<inter> set A)"
  by (induction ys arbitrary: xs) (auto simp: push_new_def)

lemma foldl_push_in_distinct:
  "distinct xs \<Longrightarrow> distinct (foldl (\<lambda>ts c. if c \<in> set A then push_new ts c else ts) xs ys)"
  by (induction ys arbitrary: xs) (auto simp: push_new_def)

text \<open>C16: a chart is in the scope of a native filter exactly when it is one of the charts asked for
  and either one of its layers is selected, or it is not excluded and lies under the root path; on a
  list of charts without duplicates the scope has none.\<close>

theorem getChartIdsInFilterScope_spec:
  "(c \<in> set (getChartIdsInFilterScope sc ids items) \<longleftrightarrow>
     c \<in> set ids \<and>
     ((\<exists>ls l. selected_layers sc = Some ls \<and> l \<in> set ls \<and> layer_chart l = Some c) \<or>
      (c \<notin> set (excluded sc) \<and> in_root_path sc c items))) \<and>
   (\<not> distinct ids \<or> distinct (getChartIdsInFilterScope sc ids items))"
proof -
  consider (plain) "selected_layers sc = None \<or> selected_layers sc = Some []"
    | (layers) k ks where "selected_layers sc = Some (k # ks)"
    by (cases "selected_layers sc") (auto, metis list.exhaust)
  then show ?thesis
  proof cases
    case plain
    then show ?thesis by (auto simp: getChartIdsInFilterScope_def)
  next
    case layers
    define S where "S = List.map_filter layer_chart (k # ks)"
    have mf: "set (List.map_filter layer_chart xs) = {c. \<exists>l \<in> set xs. layer_chart l = Some c}" for xs
      by (induction xs) (auto simp: List.map_filter_def split: option.splits)
    have S: "c \<in> set S \<longleftrightarrow> (\<exists>ls l. selected_layers sc = Some ls \<and> l \<in> set ls \<and> layer_chart l = Some c)"
      unfolding S_def mf using layers by auto
    have eq: "getChartIdsInFilterScope sc ids items =
        foldl push_new (foldl (\<lambda>ts c. if c \<in> set ids then push_new ts c else ts) [] S)
          (filter (\<lambda>c. c \<notin> set (excluded sc) \<and> c \<notin> set S \<and> in_root_path sc c items) ids)"
      by (simp only: getChartIdsInFilterScope_def layers option.case list.case Let_def S_def)
    have "distinct (getChartIdsInFilterScope sc ids items)"
      unfolding eq by (intro foldl_push_new_distinct foldl_push_in_distinct) simp
    moreover have "c \<in> set (getChartIdsInFilterScope sc ids items) \<longleftrightarrow>
        c \<in> set ids \<and> (c \<in> set S \<or> c \<notin> set (excluded sc) \<and> in_root_path sc c items)"
      unfolding eq foldl_push_new_set foldl_push_in by auto
    ultimately show ?thesis using S by blast
  qed
qed

theorem getChartIdsInFilterScope_spec_witness:
  "distinct (getChartIdsInFilterScope
     \<lparr>root_path = [''ROOT_ID''], excluded = [2], selected_layers = Some [''chart-2-layer-0'']\<rparr> [1, 2, 3] [])"
proof -
  have "distinct [1 :: int, 2, 3]" by simp
  with getChartIdsInFilterScope_spec [of 2
      "\<lparr>root_path = [''ROOT_ID''], excluded = [2], selected_layers = Some [''chart-2-layer-0'']\<rparr>"
      "[1, 2, 3]" "[]"]
  show ?thesis by blast
qed

lemma scope_subset: "set (getChartIdsInFilterScope sc ids items) \<subseteq> set ids"
  by (auto simp: getChartIdsInFilterScope_def Let_def foldl_push_new_set foldl_push_in
      split: option.splits list.splits)

definition spares :: "int list \<Rightarrow> (int, chart_config) obj \<Rightarrow> bool" where
  "spares ids conf \<longleftrightarrow> (\<forall>cid c. obj_get conf cid = Some c \<longrightarrow> set (cc_charts c) \<subseteq> set ids \<and>
     (cc_scope c = GlobalScope \<longrightarrow> cid \<notin> set (cc_charts c)))"

lemma cross_config_step_spares:
  assumes "spares (map xc_id (obj_values charts)) conf"
    and "set (gc_charts g) \<subseteq> set (map xc_id (obj_values charts))"
  shows "spares (map xc_id (obj_values charts)) (cross_config_step interactive saved g items charts conf it)"
proof (cases "meta_num ''chartId'' it")
  case (Some cid)
  let ?ids = "map xc_id (obj_values charts)"
  let ?scope = "\<lambda>c. case cc_scope c of GlobalScope \<Rightarrow> filter (\<lambda>i. i \<noteq> cid) (gc_charts g)
     | ScopedTo sc \<Rightarrow> getChartIdsInFilterScope sc ?ids items"
  have new: "set (?scope c) \<subseteq> set ?ids \<and> (cc_scope c = GlobalScope \<longrightarrow> cid \<notin> set (?scope c))" for c
    using assms(2) by (cases "cc_scope c") (auto dest!: subsetD [OF scope_subset])
  have *: "spares ?ids (obj_set cid (c\<lparr>cc_charts := ?scope c\<rparr>) conf')"
    if "\<forall>k d. k \<noteq> cid \<longrightarrow> obj_get conf' k = obj_get conf k" for c conf'
    using assms(1) new [of c] that unfolding spares_def by simp
  show ?thesis
    using assms(1) unfolding cross_config_step_def Some option.case Let_def
    by (split if_split, intro conjI impI, assumption, intro *) (auto split: option.splits)
qed (use assms in \<open>simp add: cross_config_step_def\<close>)

text \<open>C17: a chart whose cross filters apply globally never filters itself, and the ids listed for
  a chart are ids of charts of the dashboard.\<close>

theorem cross_filters_spare_their_chart:
  assumes "getCrossFiltersConfiguration interactive L saved globalScope charts = (conf, g)"
    and "obj_get conf cid = Some c"
  shows "set (cc_charts c) \<subseteq> set (map xc_id (obj_values charts)) \<and>
     (cc_scope c = GlobalScope \<longrightarrow> cid \<notin> set (cc_charts c))"
proof -
  let ?ids = "map xc_id (obj_values charts)"
  let ?items = "filter (\<lambda>c. item_type c = CHART_TYPE) (obj_values L)"
  have g: "g = global_cross_config globalScope ?ids ?items"
    and conf: "conf = foldl (cross_config_step interactive saved g ?items charts) [] ?items"
    using assms(1) by (auto simp: getCrossFiltersConfiguration_def Let_def)
  have gsub: "set (gc_charts g) \<subseteq> set ?ids"
    by (auto simp: g global_cross_config_def split: option.splits dest!: subsetD [OF scope_subset])
  have "spares ?ids (foldl (cross_config_step interactive saved g ?items charts) c0 its)"
    if "spares ?ids c0" for c0 its
    using that by (induction its arbitrary: c0) (auto intro: cross_config_step_spares [OF _ gsub])
  from this [of "[]"] assms(2) show ?thesis by (simp add: spares_def conf)
qed

definition cross_layout :: layout where
  "cross_layout = [(''C1'', \<lparr>item_type = CHART_TYPE, item_id = ''C1'', children = [],
       parents = Some [DASHBOARD_ROOT_ID], meta = [(''chartId'', JNum 1)]\<rparr>)]"

theorem cross_filters_spare_their_chart_witness:
  "1 \<notin> set (cc_charts (the (obj_get (fst (getCrossFiltersConfiguration (\<lambda>_. True) cross_layout None None
      [(1, \<lparr>xc_id = 1, xc_viz_type = None\<rparr>), (2, \<lparr>xc_id = 2, xc_viz_type = None\<rparr>)])) 1)))"
proof -
  let ?charts = "[(1, \<lparr>xc_id = 1, xc_viz_type = None\<rparr>), (2, \<lparr>xc_id = 2, xc_viz_type = None\<rparr>)]"
  let ?g = "\<lparr>gc_scope = DEFAULT_CROSS_FILTER_SCOPING, gc_charts = [1, 2]\<rparr>"
  let ?c = "\<lparr>cc_id = 1, cc_scope = GlobalScope, cc_charts = [2]\<rparr>"
  have "getCrossFiltersConfiguration (\<lambda>_. True) cross_layout None None ?charts = ([(1, ?c)], ?g)"
    by (simp add: getCrossFiltersConfiguration_def cross_layout_def global_cross_config_def
        obj_values_def cross_config_step_def meta_num_def jget_def)
  with cross_filters_spare_their_chart [OF this, of 1 ?c] show ?thesis by simp
qed

section \<open>Keys\<close>

text \<open>A filter key is read back as the chart and the column it was made of, unless the column
  contains a line break: then it is rejected with an exception.\<close>

theorem filter_key_roundtrip:
  "getChartIdAndColumnFromFilterKey (getDashboardFilterKey (int_string (int n)) column) =
     (if list_all (\<lambda>c. c \<noteq> CHR 0x0A \<and> c \<noteq> CHR 0x0D) column then Inr (int n, column)
      else Inl (ParseError ''Cannot parse invalid filter key''))"
  by (simp add: int_string_def key_of_nat)

section \<open>Active filters\<close>

text \<open>No active filter lists the chart it comes from.\<close>

definition spares_entry :: "string \<times> active_filter \<Rightarrow> bool" where
  "spares_entry e = (case getChartIdAndColumnFromFilterKey (fst e) of
      Inl _ \<Rightarrow> True
    | Inr (c, column) \<Rightarrow> c \<notin> set (af_scope (snd e)) \<and> active_value (af_values (snd e)))"

definition spares_own_chart :: "(string, active_filter) obj \<Rightarrow> bool" where
  "spares_own_chart fs = list_all spares_entry fs"

lemma list_all_obj_set: "list_all P ob \<Longrightarrow> P (k, v) \<Longrightarrow> list_all P (obj_set k v ob)"
  by (induction ob) (auto split: if_splits)

lemma list_all_obj_spread: "list_all P a \<Longrightarrow> list_all P b \<Longrightarrow> list_all P (obj_spread a b)"
  unfolding obj_spread_def
proof (induction b arbitrary: a)
  case (Cons x b)
  then show ?case by (cases x) (auto intro: list_all_obj_set)
qed simp

lemma active_of_filter_spares:
  assumes "active_of_filter L f = Inr fs"
  shows "spares_own_chart fs"
proof (rule rfold_inv [OF assms [unfolded active_of_filter_def]])
  show "spares_own_chart []" by (simp add: spares_own_chart_def)
next
  fix acc x acc'
  assume acc: "spares_own_chart acc"
    and step: "(case x of (column, v) \<Rightarrow>
       if active_value v
       then rbind (box_charts_in_scope L (obj_get (df_scopes f) column)) (\<lambda>cs.
              Inr (obj_set (getDashboardFilterKey (int_string (df_chart f)) column)
                     \<lparr>af_values = v, af_scope = filter (\<lambda>i. df_chart f \<noteq> i) cs\<rparr> acc))
       else Inr acc) = Inr acc'"
  obtain column v where x: "x = (column, v)" by (cases x)
  show "spares_own_chart acc'"
  proof (cases "active_value v")
    case True
    with step obtain cs where "acc' = obj_set (getDashboardFilterKey (int_string (df_chart f)) column)
        \<lparr>af_values = v, af_scope = filter (\<lambda>i. df_chart f \<noteq> i) cs\<rparr> acc"
      by (auto simp: x rbind_eq_Inr)
    moreover have "spares_entry (getDashboardFilterKey (int_string (df_chart f)) column,
        \<lparr>af_values = v, af_scope = filter (\<lambda>i. df_chart f \<noteq> i) cs\<rparr>)"
      using True by (auto simp: spares_entry_def dest!: key_of_int split: sum.splits)
    ultimately show ?thesis using acc unfolding spares_own_chart_def by (simp add: list_all_obj_set)
  qed (use acc step in \<open>simp add: x\<close>)
qed

lemma buildActiveFilters_spares:
  assumes "buildActiveFilters filters comps m = Inr m'"
  shows "spares_own_chart (activeFilters m')"
proof -
  from assms obtain a L where a: "rfold (\<lambda>acc f. rbind (active_of_filter L f) (\<lambda>a. Inr (obj_spread acc a)))
      [] (obj_values filters) = Inr a" "activeFilters m' = a"
    by (auto simp: buildActiveFilters_def Let_def rbind_eq_Inr)
  have "spares_own_chart a"
    by (rule rfold_inv [OF a(1)])
      (auto simp: rbind_eq_Inr spares_own_chart_def intro!: list_all_obj_spread
            dest!: active_of_filter_spares [unfolded spares_own_chart_def])
  with a(2) show ?thesis by simp
qed

text \<open>One dispatched action; an exception leaves the store as it was.\<close>

definition filters_step :: "filters_state \<Rightarrow> filter_action \<Rightarrow> filters_state" where
  "filters_step s act = (case dashboardFiltersReducer act s of Inl e \<Rightarrow> s | Inr s' \<Rightarrow> s')"

lemma dashboardFiltersReducer_spares:
  assumes "spares_own_chart (activeFilters (snd s))" and "dashboardFiltersReducer act s = Inr s'"
  shows "spares_own_chart (activeFilters (snd s'))"
proof -
  obtain fs m where s: "s = (fs, m)" by (cases s)
  from assms(2) have "snd s' = m \<or> (\<exists>gs comps. buildActiveFilters gs comps m = Inr (snd s'))"
    by (cases act) (auto simp: s dashboardFiltersReducer_def Let_def rbind_eq_Inr split: option.splits)
  with assms(1) show ?thesis using buildActiveFilters_spares by (auto simp: s)
qed

interpretation fr: reducer_inv filters_step "\<lambda>s. spares_own_chart (activeFilters (snd s))"
proof unfold_locales
  fix s :: filters_state and a
  assume "spares_own_chart (activeFilters (snd s))"
  then show "spares_own_chart (activeFilters (snd (filters_step s a)))"
    by (cases "dashboardFiltersReducer a s") (simp_all add: filters_step_def dashboardFiltersReducer_spares)
qed

definition empty_filters :: filters_state where
  "empty_filters = ([], \<lparr>activeFilters = [], appliedFilterValuesByChart = [], allComponents = []\<rparr>)"

text \<open>Whatever actions are dispatched to the reducer of the filter boxes, an active filter has a
  value and does not apply to the chart it comes from.\<close>

theorem active_filters_spare_their_chart:
  "spares_own_chart (activeFilters (snd (foldl filters_step empty_filters acts)))"
  by (rule fr.run_inv) (simp add: empty_filters_def spares_own_chart_def)

end
