(* ===== verification/DashboardState.thy ===== *)
theory DashboardState
  imports Prelude
begin

text \<open>
  The store of a dashboard beside its layout: \<open>reducers/dashboardState.ts\<close> (edit mode, tabs, charts
  on the dashboard, automatic refresh), \<open>reducers/sliceEntities.ts\<close> and
  \<open>reducers/nativeFilters.ts\<close>. \<open>now\<close> is the value of \<open>Date.now()\<close>. Fields whose values only pass
  through are kept in \<open>flags\<close> as dynamic values; the rest has the types of the source.
\<close>

section \<open>The state\<close>

datatype auto_refresh_status =
    ARIdle | ARSuccess | ARFetching | ARDelayed | ARError | ARPaused

definition ERROR_THRESHOLD_COUNT :: int where "ERROR_THRESHOLD_COUNT = 2"

record chart_state_entry =
  ce_chart :: int
  ce_viz_type :: string
  ce_state :: jsval
  ce_modified :: int

text \<open>\<open>None\<close> is an absent field. \<open>focusedFilterField\<close> may also be \<open>null\<close>: \<open>Some None\<close>.\<close>

record dash_state =
  sliceIds :: "int list option"
  expandedSlices :: "(int, bool) obj option"
  activeTabs :: "string list option"
  inactiveTabs :: "string list option"
  tabActivationTimes :: "(string, int) obj option"
  focusedFilterField :: "(int \<times> string) option option"
  chartStates :: "(int, chart_state_entry) obj option"
  autoRefreshStatus :: "auto_refresh_status option"
  refreshErrorCount :: "int option"
  flags :: jsobj

definition empty_state :: dash_state where
  "empty_state = \<lparr>sliceIds = None, expandedSlices = None, activeTabs = None, inactiveTabs = None,
     tabActivationTimes = None, focusedFilterField = None, chartStates = None,
     autoRefreshStatus = None, refreshErrorCount = None, flags = []\<rparr>"

text \<open>\<open>x || []\<close> and \<open>{...x}\<close> of an optional field.\<close>

definition or_empty :: "'a list option \<Rightarrow> 'a list" where
  "or_empty x = (case x of None \<Rightarrow> [] | Some xs \<Rightarrow> xs)"

definition override :: "'a option \<Rightarrow> 'a option \<Rightarrow> 'a option" where
  "override a b = (case b of Some v \<Rightarrow> Some v | None \<Rightarrow> a)"

text \<open>\<open>{...state, ...data}\<close>.\<close>

definition spread_state :: "dash_state \<Rightarrow> dash_state \<Rightarrow> dash_state" where
  "spread_state s d =
     \<lparr>sliceIds = override (sliceIds s) (sliceIds d),
      expandedSlices = override (expandedSlices s) (expandedSlices d),
      activeTabs = override (activeTabs s) (activeTabs d),
      inactiveTabs = override (inactiveTabs s) (inactiveTabs d),
      tabActivationTimes = override (tabActivationTimes s) (tabActivationTimes d),
      focusedFilterField = override (focusedFilterField s) (focusedFilterField d),
      chartStates = override (chartStates s) (chartStates d),
      autoRefreshStatus = override (autoRefreshStatus s) (autoRefreshStatus d),
      refreshErrorCount = override (refreshErrorCount s) (refreshErrorCount d),
      flags = obj_spread (flags s) (flags d)\<rparr>"

definition set_flag :: "string \<Rightarrow> jsval \<Rightarrow> dash_state \<Rightarrow> dash_state" where
  "set_flag k v s = s\<lparr>flags := obj_set k v (flags s)\<rparr>"

section \<open>Sets of JavaScript\<close>

text \<open>\<open>new Set(xs)\<close> keeps the first occurrences; \<open>add\<close> appends what is new; \<open>delete\<close>.\<close>

definition set_add :: "'a list \<Rightarrow> 'a \<Rightarrow> 'a list" where
  "set_add xs x = (if x \<in> set xs then xs else xs @ [x])"

definition set_delete :: "'a list \<Rightarrow> 'a \<Rightarrow> 'a list" where
  "set_delete xs x = filter (\<lambda>y. y \<noteq> x) xs"

section \<open>The reducer\<close>

datatype dash_action =
    HYDRATE_DASHBOARD "dash_state option"
  | ADD_SLICE int
  | REMOVE_SLICE int
  | TOGGLE_FAVE_STAR jsval
  | TOGGLE_PUBLISHED jsval
  | SET_EDIT_MODE jsval
  | SET_MAX_UNDO_HISTORY_EXCEEDED "bool option"
  | SHOW_BUILDER_PANE
  | SET_COLOR_SCHEME jsval
  | SET_LABELS_COLORMAP_MUST_SYNC bool
  | SET_SHARED_LABELS_COLORS_MUST_SYNC bool
  | TOGGLE_EXPAND_SLICE "int option"
  | ON_CHANGE
  | SAVE_DASHBOARD_STARTED
  | SAVE_DASHBOARD_FINISHED
  | ON_SAVE jsval
  | SET_UNSAVED_CHANGES jsval
  | SET_REFRESH_FREQUENCY jsval jsval
  | ON_REFRESH
  | ON_FILTERS_REFRESH
  | ON_FILTERS_REFRESH_SUCCESS
  | ON_REFRESH_SUCCESS
  | SET_DIRECT_PATH jsval
  | SET_ACTIVE_TAB "string list option" "string list option" "string option"
  | SET_ACTIVE_TABS "string list option"
  | SET_OVERRIDE_CONFIRM jsval
  | SET_FOCUSED_FILTER_FIELD int string
  | UNSET_FOCUSED_FILTER_FIELD int string
  | SET_FULL_SIZE_CHART_ID jsval
  | SET_DATASETS_STATUS jsval
  | TOGGLE_NATIVE_FILTERS_BAR jsval
  | UPDATE_CHART_STATE int string jsval int
  | REMOVE_CHART_STATE int
  | RESTORE_CHART_STATES "(int, chart_state_entry) obj option"
  | CLEAR_ALL_CHART_STATES
  | SET_AUTO_REFRESH_STATUS auto_refresh_status
  | SET_AUTO_REFRESH_PAUSED jsval
  | SET_AUTO_REFRESH_PAUSED_BY_TAB jsval
  | RECORD_AUTO_REFRESH_SUCCESS jsval
  | RECORD_AUTO_REFRESH_ERROR jsval jsval
  | SET_AUTO_REFRESH_FETCH_START_TIME jsval
  | SET_AUTO_REFRESH_PAUSE_ON_INACTIVE_TAB jsval
  | OtherDashAction

definition hydrate_dashboard :: "int \<Rightarrow> dash_state option \<Rightarrow> dash_state \<Rightarrow> dash_state" where
  "hydrate_dashboard now data s =
     (let h = (case data of None \<Rightarrow> s | Some d \<Rightarrow> spread_state s d)
      in case activeTabs h of
           Some (t # ts) \<Rightarrow>
             h\<lparr>tabActivationTimes := Some (foldl (\<lambda>m k. obj_set k now m)
                  (or_empty (tabActivationTimes h)) (t # ts))\<rparr>
         | _ \<Rightarrow> h)"

definition set_active_tab ::
    "int \<Rightarrow> string list option \<Rightarrow> string list option \<Rightarrow> string option \<Rightarrow> dash_state \<Rightarrow> dash_state" where
  "set_active_tab now active inactive prevTab s =
     (let toRemove = or_empty inactive @ [case prevTab of None \<Rightarrow> [] | Some p \<Rightarrow> p];
          newActive = js_uniq (filter (\<lambda>t. t \<notin> set toRemove) (or_empty (activeTabs s)));
          newInactive = js_uniq (filter (\<lambda>t. t \<notin> set (or_empty active)) (or_empty (inactiveTabs s)))
      in s\<lparr>inactiveTabs := Some (foldl set_add newInactive (js_uniq (or_empty inactive))),
          activeTabs := Some (foldl set_add newActive (or_empty active)),
          tabActivationTimes := Some (foldl (\<lambda>m k. obj_set k now m)
             (or_empty (tabActivationTimes s)) (or_empty active))\<rparr>)"

definition toggle_expand_slice :: "int option \<Rightarrow> dash_state \<Rightarrow> dash_state" where
  "toggle_expand_slice sliceId s =
     (let ex = or_empty (expandedSlices s)
      in s\<lparr>expandedSlices := Some
           (case sliceId of
              None \<Rightarrow> ex
            | Some i \<Rightarrow> (if obj_get ex i = Some True then obj_del i ex else obj_set i True ex))\<rparr>)"

definition on_save :: "jsval \<Rightarrow> dash_state \<Rightarrow> dash_state" where
  "on_save modified s =
     s\<lparr>flags := obj_spread (flags s)
        [(''hasUnsavedChanges'', JBool False), (''maxUndoHistoryExceeded'', JBool False),
         (''editMode'', JBool False), (''updatedColorScheme'', JBool False),
         (''lastModifiedTime'', modified)]\<rparr>"

definition unset_focused_filter_field :: "int \<Rightarrow> string \<Rightarrow> dash_state \<Rightarrow> dash_state" where
  "unset_focused_filter_field cid column s =
     (case focusedFilterField s of
        Some (Some (c, k)) \<Rightarrow> (if cid \<noteq> c \<or> column \<noteq> k then s else s\<lparr>focusedFilterField := Some None\<rparr>)
      | _ \<Rightarrow> s)"

definition record_auto_refresh_success :: "jsval \<Rightarrow> dash_state \<Rightarrow> dash_state" where
  "record_auto_refresh_success timestamp s =
     s\<lparr>autoRefreshStatus := Some ARSuccess, refreshErrorCount := Some 0,
      flags := obj_spread (flags s)
        [(''lastSuccessfulRefresh'', timestamp), (''lastAutoRefreshTime'', timestamp),
         (''lastRefreshError'', JNull)]\<rparr>"

definition record_auto_refresh_error :: "jsval \<Rightarrow> jsval \<Rightarrow> dash_state \<Rightarrow> dash_state" where
  "record_auto_refresh_error err timestamp s =
     (let n = (case refreshErrorCount s of None \<Rightarrow> 0 | Some k \<Rightarrow> k) + 1
      in s\<lparr>autoRefreshStatus := Some (if n \<ge> ERROR_THRESHOLD_COUNT then ARError else ARDelayed),
          refreshErrorCount := Some n,
          flags := obj_spread (flags s) [(''lastRefreshError'', err), (''lastAutoRefreshTime'', timestamp)]\<rparr>)"

fun dashboardStateReducer :: "int \<Rightarrow> dash_action \<Rightarrow> dash_state \<Rightarrow> dash_state" where
  "dashboardStateReducer now (HYDRATE_DASHBOARD d) s = hydrate_dashboard now d s"
| "dashboardStateReducer now (ADD_SLICE i) s =
     s\<lparr>sliceIds := Some (set_add (js_uniq (or_empty (sliceIds s))) i)\<rparr>"
| "dashboardStateReducer now (REMOVE_SLICE i) s =
     s\<lparr>sliceIds := Some (set_delete (js_uniq (or_empty (sliceIds s))) i)\<rparr>"
| "dashboardStateReducer now (TOGGLE_FAVE_STAR v) s = set_flag ''isStarred'' v s"
| "dashboardStateReducer now (TOGGLE_PUBLISHED v) s = set_flag ''isPublished'' v s"
| "dashboardStateReducer now (SET_EDIT_MODE v) s = set_flag ''editMode'' v s"
| "dashboardStateReducer now (SET_MAX_UNDO_HISTORY_EXCEEDED b) s =
     set_flag ''maxUndoHistoryExceeded'' (JBool (case b of None \<Rightarrow> True | Some b \<Rightarrow> b)) s"
| "dashboardStateReducer now SHOW_BUILDER_PANE s = s"
| "dashboardStateReducer now (SET_COLOR_SCHEME v) s =
     set_flag ''updatedColorScheme'' (JBool True) (set_flag ''colorScheme'' v s)"
| "dashboardStateReducer now (SET_LABELS_COLORMAP_MUST_SYNC b) s =
     set_flag ''labelsColorMapMustSync'' (JBool b) s"
| "dashboardStateReducer now (SET_SHARED_LABELS_COLORS_MUST_SYNC b) s =
     set_flag ''sharedLabelsColorsMustSync'' (JBool b) s"
| "dashboardStateReducer now (TOGGLE_EXPAND_SLICE i) s = toggle_expand_slice i s"
| "dashboardStateReducer now ON_CHANGE s = set_flag ''hasUnsavedChanges'' (JBool True) s"
| "dashboardStateReducer now SAVE_DASHBOARD_STARTED s = set_flag ''dashboardIsSaving'' (JBool True) s"
| "dashboardStateReducer now SAVE_DASHBOARD_FINISHED s = set_flag ''dashboardIsSaving'' (JBool False) s"
| "dashboardStateReducer now (ON_SAVE t) s = on_save t s"
| "dashboardStateReducer now (SET_UNSAVED_CHANGES v) s = set_flag ''hasUnsavedChanges'' v s"
| "dashboardStateReducer now (SET_REFRESH_FREQUENCY f p) s =
     set_flag ''hasUnsavedChanges'' p (set_flag ''shouldPersistRefreshFrequency'' p
       (set_flag ''refreshFrequency'' f s))"
| "dashboardStateReducer now ON_REFRESH s =
     set_flag ''lastRefreshTime'' (JNum now) (set_flag ''isRefreshing'' (JBool True) s)"
| "dashboardStateReducer now ON_FILTERS_REFRESH s = set_flag ''isFiltersRefreshing'' (JBool True) s"
| "dashboardStateReducer now ON_FILTERS_REFRESH_SUCCESS s = set_flag ''isFiltersRefreshing'' (JBool False) s"
| "dashboardStateReducer now ON_REFRESH_SUCCESS s = set_flag ''isRefreshing'' (JBool False) s"
| "dashboardStateReducer now (SET_DIRECT_PATH p) s =
     set_flag ''directPathLastUpdated'' (JNum now) (set_flag ''directPathToChild'' p s)"
| "dashboardStateReducer now (SET_ACTIVE_TAB act inact prevTab) s = set_active_tab now act inact prevTab s"
| "dashboardStateReducer now (SET_ACTIVE_TABS ts) s = s\<lparr>activeTabs := ts\<rparr>"
| "dashboardStateReducer now (SET_OVERRIDE_CONFIRM v) s = set_flag ''overwriteConfirmMetadata'' v s"
| "dashboardStateReducer now (SET_FOCUSED_FILTER_FIELD c k) s = s\<lparr>focusedFilterField := Some (Some (c, k))\<rparr>"
| "dashboardStateReducer now (UNSET_FOCUSED_FILTER_FIELD c k) s = unset_focused_filter_field c k s"
| "dashboardStateReducer now (SET_FULL_SIZE_CHART_ID v) s = set_flag ''fullSizeChartId'' v s"
| "dashboardStateReducer now (SET_DATASETS_STATUS v) s = set_flag ''datasetsStatus'' v s"
| "dashboardStateReducer now (TOGGLE_NATIVE_FILTERS_BAR v) s = set_flag ''nativeFiltersBarOpen'' v s"
| "dashboardStateReducer now (UPDATE_CHART_STATE c vt st m) s =
     s\<lparr>chartStates := Some (obj_set c \<lparr>ce_chart = c, ce_viz_type = vt, ce_state = st, ce_modified = m\<rparr>
                               (or_empty (chartStates s)))\<rparr>"
| "dashboardStateReducer now (REMOVE_CHART_STATE c) s =
     s\<lparr>chartStates := Some (obj_del c (or_empty (chartStates s)))\<rparr>"
| "dashboardStateReducer now (RESTORE_CHART_STATES cs) s = s\<lparr>chartStates := Some (or_empty cs)\<rparr>"
| "dashboardStateReducer now CLEAR_ALL_CHART_STATES s = s\<lparr>chartStates := Some []\<rparr>"
| "dashboardStateReducer now (SET_AUTO_REFRESH_STATUS st) s = s\<lparr>autoRefreshStatus := Some st\<rparr>"
| "dashboardStateReducer now (SET_AUTO_REFRESH_PAUSED v) s = set_flag ''autoRefreshPaused'' v s"
| "dashboardStateReducer now (SET_AUTO_REFRESH_PAUSED_BY_TAB v) s = set_flag ''autoRefreshPausedByTab'' v s"
| "dashboardStateReducer now (RECORD_AUTO_REFRESH_SUCCESS t) s = record_auto_refresh_success t s"
| "dashboardStateReducer now (RECORD_AUTO_REFRESH_ERROR e t) s = record_auto_refresh_error e t s"
| "dashboardStateReducer now (SET_AUTO_REFRESH_FETCH_START_TIME t) s =
     set_flag ''autoRefreshFetchStartTime'' t s"
| "dashboardStateReducer now (SET_AUTO_REFRESH_PAUSE_ON_INACTIVE_TAB v) s =
     set_flag ''autoRefreshPauseOnInactiveTab'' v s"
| "dashboardStateReducer now OtherDashAction s = s"

section \<open>Slices\<close>

record slice_entities =
  se_slices :: "(string, jsval) obj"
  se_loading :: bool
  se_error :: jsval
  se_updated :: int

definition initSliceEntities :: slice_entities where
  "initSliceEntities = \<lparr>se_slices = [], se_loading = True, se_error = JNull, se_updated = 0\<rparr>"

datatype slice_action =
    HYDRATE_SLICES slice_entities
  | FETCH_ALL_SLICES_STARTED
  | ADD_SLICES "(string, jsval) obj"
  | SET_SLICES "(string, jsval) obj"
  | FETCH_ALL_SLICES_FAILED jsval
  | OtherSliceAction

fun sliceEntitiesReducer ::
    "(string \<Rightarrow> string) \<Rightarrow> int \<Rightarrow> slice_action \<Rightarrow> slice_entities \<Rightarrow> slice_entities" where
  "sliceEntitiesReducer tr now (HYDRATE_SLICES d) s = d"
| "sliceEntitiesReducer tr now FETCH_ALL_SLICES_STARTED s = s\<lparr>se_loading := True\<rparr>"
| "sliceEntitiesReducer tr now (ADD_SLICES new) s =
     s\<lparr>se_loading := False, se_slices := obj_spread (se_slices s) new, se_updated := now\<rparr>"
| "sliceEntitiesReducer tr now (SET_SLICES new) s =
     s\<lparr>se_loading := False, se_slices := obj_spread [] new, se_updated := now\<rparr>"
| "sliceEntitiesReducer tr now (FETCH_ALL_SLICES_FAILED err) s =
     s\<lparr>se_loading := False, se_updated := now,
      se_error := js_or err (JStr (tr ''Could not fetch all saved charts''))\<rparr>"
| "sliceEntitiesReducer tr now OtherSliceAction s = s"

section \<open>Native filters\<close>

text \<open>A filter, a divider or a customization is a dynamic object with an \<open>id\<close>.\<close>

record native_filters =
  nf_filters :: "(string, jsobj) obj"
  nf_ui :: jsobj

datatype native_action =
    HYDRATE_NATIVE "(string, jsobj) obj"
  | SET_IN_SCOPE_STATUS_OF_FILTERS "(string \<times> jsobj) list option"
  | SET_NATIVE_FILTERS_CONFIG_COMPLETE "(string \<times> jsobj) list"
  | SET_FOCUSED_NATIVE_FILTER jsval
  | UNSET_FOCUSED_NATIVE_FILTER
  | SET_HOVERED_NATIVE_FILTER jsval
  | UNSET_HOVERED_NATIVE_FILTER
  | SET_HOVERED_CHART_CUSTOMIZATION jsval
  | UNSET_HOVERED_CHART_CUSTOMIZATION
  | UPDATE_CASCADE_PARENT_IDS string "string list"
  | OtherNativeAction

text \<open>In the lists of configurations every filter stands beside its \<open>id\<close>.\<close>

definition getInitialState :: "(string \<times> jsobj) list option \<Rightarrow> native_filters option \<Rightarrow> native_filters" where
  "getInitialState filterConfig prevState =
     (let old = (case prevState of None \<Rightarrow> [] | Some p \<Rightarrow> nf_filters p)
      in \<lparr>nf_filters = (case filterConfig of
                         None \<Rightarrow> old
                       | Some fs \<Rightarrow> foldl (\<lambda>m (i, f). obj_set i f m) old fs),
          nf_ui = [(''focusedFilterId'', JUndef), (''hoveredChartCustomizationId'', JUndef)]\<rparr>)"

definition existing_value :: "jsobj option \<Rightarrow> string \<Rightarrow> jsval" where
  "existing_value f k = (case f of None \<Rightarrow> JUndef | Some f \<Rightarrow> jget f k)"

definition complete_filter :: "jsobj option \<Rightarrow> jsobj \<Rightarrow> jsobj" where
  "complete_filter existing f =
     (if \<not> nullish (jget f ''chartsInScope'') \<and> \<not> nullish (jget f ''tabsInScope'') then f
      else obj_spread f
        [(''chartsInScope'', js_coalesce (jget f ''chartsInScope'') (existing_value existing ''chartsInScope'')),
         (''tabsInScope'', js_coalesce (jget f ''tabsInScope'') (existing_value existing ''tabsInScope''))])"

definition handleFilterChangesComplete :: "native_filters \<Rightarrow> (string \<times> jsobj) list \<Rightarrow> native_filters" where
  "handleFilterChangesComplete s fs =
     s\<lparr>nf_filters := foldl (\<lambda>m (i, f). obj_set i (complete_filter (obj_get (nf_filters s) i) f) m) [] fs\<rparr>"

definition hydrate_filter :: "jsobj option \<Rightarrow> jsobj \<Rightarrow> jsobj" where
  "hydrate_filter existing f =
     (if nullish (jget f ''chartsInScope'') \<and> \<not> nullish (existing_value existing ''chartsInScope'')
      then obj_spread f
        [(''chartsInScope'', existing_value existing ''chartsInScope''),
         (''tabsInScope'', existing_value existing ''tabsInScope'')]
      else f)"

fun nativeFilterReducer :: "native_action \<Rightarrow> native_filters \<Rightarrow> native_filters" where
  "nativeFilterReducer (HYDRATE_NATIVE incoming) s =
     \<lparr>nf_filters = foldl (\<lambda>m (i, f). obj_set i (hydrate_filter (obj_get (nf_filters s) i) f) m) [] incoming,
      nf_ui = []\<rparr>"
| "nativeFilterReducer (SET_IN_SCOPE_STATUS_OF_FILTERS fs) s = getInitialState fs (Some s)"
| "nativeFilterReducer (SET_NATIVE_FILTERS_CONFIG_COMPLETE fs) s = handleFilterChangesComplete s fs"
| "nativeFilterReducer (SET_FOCUSED_NATIVE_FILTER v) s =
     s\<lparr>nf_ui := obj_set ''focusedFilterId'' v (nf_ui s)\<rparr>"
| "nativeFilterReducer UNSET_FOCUSED_NATIVE_FILTER s =
     s\<lparr>nf_ui := obj_set ''focusedFilterId'' JUndef (nf_ui s)\<rparr>"
| "nativeFilterReducer (SET_HOVERED_NATIVE_FILTER v) s =
     s\<lparr>nf_ui := obj_set ''hoveredFilterId'' v (nf_ui s)\<rparr>"
| "nativeFilterReducer UNSET_HOVERED_NATIVE_FILTER s =
     s\<lparr>nf_ui := obj_set ''hoveredFilterId'' JUndef (nf_ui s)\<rparr>"
| "nativeFilterReducer (SET_HOVERED_CHART_CUSTOMIZATION v) s =
     s\<lparr>nf_ui := obj_set ''hoveredChartCustomizationId'' v (nf_ui s)\<rparr>"
| "nativeFilterReducer UNSET_HOVERED_CHART_CUSTOMIZATION s =
     s\<lparr>nf_ui := obj_set ''hoveredChartCustomizationId'' JUndef (nf_ui s)\<rparr>"
| "nativeFilterReducer (UPDATE_CASCADE_PARENT_IDS i ps) s =
     s\<lparr>nf_filters := obj_set i
        (obj_set ''cascadeParentIds'' (JArr (map JStr ps))
           (case obj_get (nf_filters s) i of None \<Rightarrow> [] | Some f \<Rightarrow> f)) (nf_filters s)\<rparr>"
| "nativeFilterReducer OtherNativeAction s = s"

section \<open>Invariants\<close>

lemma set_set_add [simp]: "set (set_add xs x) = insert x (set xs)"
  by (auto simp: set_add_def)

lemma distinct_set_add [simp]: "distinct xs \<Longrightarrow> distinct (set_add xs x)"
  by (simp add: set_add_def)

lemma set_foldl_set_add [simp]: "set (foldl set_add xs ys) = set xs \<union> set ys"
  by (induction ys arbitrary: xs) auto

lemma distinct_foldl_set_add [simp]: "distinct xs \<Longrightarrow> distinct (foldl set_add xs ys)"
  by (induction ys arbitrary: xs) auto

lemma set_delete_simps [simp]:
  "set (set_delete xs x) = set xs - {x}" "distinct xs \<Longrightarrow> distinct (set_delete xs x)"
  by (auto simp: set_delete_def)

text \<open>
  The tabs that are active and the tabs that are not never overlap, as long as an action does not
  list a tab as both; ids of slices occur once; the error counter and the status of the automatic
  refresh agree.
\<close>

definition tabs_disjoint :: "dash_state \<Rightarrow> bool" where
  "tabs_disjoint s = (set (or_empty (activeTabs s)) \<inter> set (or_empty (inactiveTabs s)) = {})"

definition slices_once :: "dash_state \<Rightarrow> bool" where
  "slices_once s = distinct (or_empty (sliceIds s))"

section \<open>Properties\<close>

lemma get_foldl_times:
  "obj_get (foldl (\<lambda>m k. obj_set k (v :: int) m) m ks) k = (if k \<in> set ks then Some v else obj_get m k)"
  by (induction ks arbitrary: m) auto

text \<open>\<open>SET_ACTIVE_TAB\<close> activates what it lists, deactivates what it lists and the previous tab,
  keeps every other tab as it was, lists no tab twice, stamps the activated tabs with the time, and
  keeps the active and the inactive tabs apart when the action itself does.\<close>

theorem set_active_tab_spec:
  assumes "s' = dashboardStateReducer now (SET_ACTIVE_TAB act inact prevTab) s"
  shows "set (or_empty (activeTabs s')) =
      (set (or_empty (activeTabs s)) - set (or_empty inact) - {case prevTab of None \<Rightarrow> [] | Some p \<Rightarrow> p})
        \<union> set (or_empty act)
    \<and> set (or_empty (inactiveTabs s')) =
        (set (or_empty (inactiveTabs s)) - set (or_empty act)) \<union> set (or_empty inact)
    \<and> distinct (or_empty (activeTabs s')) \<and> distinct (or_empty (inactiveTabs s'))
    \<and> obj_get (or_empty (tabActivationTimes s')) k =
        (if k \<in> set (or_empty act) then Some now else obj_get (or_empty (tabActivationTimes s)) k)
    \<and> (tabs_disjoint s \<and> set (or_empty act) \<inter> set (or_empty inact) = {} \<longrightarrow> tabs_disjoint s')"
proof -
  have a: "or_empty (activeTabs s') = foldl set_add (js_uniq (filter (\<lambda>t. t \<notin>
        set (or_empty inact @ [case prevTab of None \<Rightarrow> [] | Some p \<Rightarrow> p])) (or_empty (activeTabs s)))) (or_empty act)"
    and i: "or_empty (inactiveTabs s') = foldl set_add (js_uniq (filter (\<lambda>t. t \<notin> set (or_empty act))
        (or_empty (inactiveTabs s)))) (js_uniq (or_empty inact))"
    and t: "or_empty (tabActivationTimes s') = foldl (\<lambda>m k. obj_set k now m) (or_empty (tabActivationTimes s)) (or_empty act)"
    by (simp_all add: assms set_active_tab_def Let_def or_empty_def)
  have sa: "set (or_empty (activeTabs s')) =
      (set (or_empty (activeTabs s)) - set (or_empty inact) - {case prevTab of None \<Rightarrow> [] | Some p \<Rightarrow> p})
        \<union> set (or_empty act)"
    unfolding a by auto
  moreover have si: "set (or_empty (inactiveTabs s')) =
        (set (or_empty (inactiveTabs s)) - set (or_empty act)) \<union> set (or_empty inact)"
    unfolding i by auto
  moreover have "distinct (or_empty (activeTabs s'))" "distinct (or_empty (inactiveTabs s'))"
    unfolding a i by simp_all
  moreover have "tabs_disjoint s'"
    if "tabs_disjoint s" "set (or_empty act) \<inter> set (or_empty inact) = {}"
    using that unfolding tabs_disjoint_def sa si by blast
  ultimately show ?thesis by (simp add: t get_foldl_times)
qed

theorem set_active_tab_spec_witness:
  "set (or_empty (activeTabs (dashboardStateReducer 7 (SET_ACTIVE_TAB (Some [''t2'']) None (Some ''t1''))
     (empty_state\<lparr>activeTabs := Some [''t1'', ''t3'']\<rparr>)))) = {''t2'', ''t3''}"
proof -
  let ?s = "empty_state\<lparr>activeTabs := Some [''t1'', ''t3'']\<rparr>"
  have "set (or_empty (activeTabs ?s)) - set (or_empty None) - {''t1''} \<union> set (or_empty (Some [''t2''])) = {''t2'', ''t3''}"
    by (auto simp: or_empty_def)
  with set_active_tab_spec [OF refl, of 7 "Some [''t2'']" None "Some ''t1''" ?s] show ?thesis by simp
qed

definition record_errors :: "int \<Rightarrow> (jsval \<times> jsval) list \<Rightarrow> dash_state \<Rightarrow> dash_state" where
  "record_errors now errs s =
     foldl (\<lambda>s x. dashboardStateReducer now (RECORD_AUTO_REFRESH_ERROR (fst x) (snd x)) s) s errs"

text \<open>The indicator of the automatic refresh counts the consecutive errors since the last
  success: one error shows as delayed, two or more as an error.\<close>

theorem auto_refresh_counts_errors:
  "refreshErrorCount (record_errors now errs (dashboardStateReducer now (RECORD_AUTO_REFRESH_SUCCESS t0) s)) =
     Some (int (length errs)) \<and>
   autoRefreshStatus (record_errors now errs (dashboardStateReducer now (RECORD_AUTO_REFRESH_SUCCESS t0) s)) =
     Some (if errs = [] then ARSuccess else if length errs = 1 then ARDelayed else ARError)"
proof (induction errs rule: rev_induct)
  case (snoc x xs)
  then show ?case
    by (cases xs) (auto simp: record_errors_def record_auto_refresh_error_def ERROR_THRESHOLD_COUNT_def Let_def)
qed (simp add: record_errors_def record_auto_refresh_success_def)

text \<open>Adding and removing charts of the dashboard keeps every id once: after any sequence of
  additions (\<open>Inl\<close>) and removals (\<open>Inr\<close>) a chart is listed exactly when it was listed or added, and
  not removed since.\<close>

fun add_or_remove :: "int + int \<Rightarrow> dash_action" where
  "add_or_remove (Inl i) = ADD_SLICE i"
| "add_or_remove (Inr i) = REMOVE_SLICE i"

theorem slices_after_changes:
  "slices_once (foldl (\<lambda>s a. dashboardStateReducer now (add_or_remove a) s) s (acts @ [a])) \<and>
   (i \<in> set (or_empty (sliceIds (foldl (\<lambda>s a. dashboardStateReducer now (add_or_remove a) s) s acts))) \<longleftrightarrow>
     (case List.find (\<lambda>a. a = Inl i \<or> a = Inr i) (rev acts) of
        None \<Rightarrow> i \<in> set (or_empty (sliceIds s))
      | Some (Inl _) \<Rightarrow> True
      | Some (Inr _) \<Rightarrow> False))"
proof
  show "slices_once (foldl (\<lambda>s a. dashboardStateReducer now (add_or_remove a) s) s (acts @ [a]))"
    by (cases a) (simp_all add: slices_once_def or_empty_def)
next
  show "i \<in> set (or_empty (sliceIds (foldl (\<lambda>s a. dashboardStateReducer now (add_or_remove a) s) s acts))) \<longleftrightarrow>
     (case List.find (\<lambda>a. a = Inl i \<or> a = Inr i) (rev acts) of
        None \<Rightarrow> i \<in> set (or_empty (sliceIds s)) | Some (Inl _) \<Rightarrow> True | Some (Inr _) \<Rightarrow> False)"
  proof (induction acts rule: rev_induct)
    case (snoc x xs)
    then show ?case by (cases x) (auto simp: or_empty_def)
  qed simp
qed

lemma get_foldl_ids:
  "obj_get (foldl (\<lambda>m (i, f). obj_set i (g i f) m) [] fs) i = map_option (g i) (map_of (rev fs) i)"
  by (induction fs rule: rev_induct) (auto simp: map_add_def split: prod.splits)

text \<open>C23: after the backend's answer the filters are exactly those it returned, in particular no
  deleted one. Every property of a filter is the returned one; only the charts and the tabs in scope
  are taken from the filter stored before under the same id, each of them when the answer has no
  value for it. What the user is doing with the filters does not change.\<close>

theorem filter_changes_complete:
  "let s' = nativeFilterReducer (SET_NATIVE_FILTERS_CONFIG_COMPLETE fs) s
   in nf_ui s' = nf_ui s \<and>
      (case map_of (rev fs) i of
         None \<Rightarrow> obj_get (nf_filters s') i = None
       | Some f \<Rightarrow> \<exists>f'. obj_get (nf_filters s') i = Some f' \<and>
           (\<forall>k. jget f' k =
             (if k \<in> {''chartsInScope'', ''tabsInScope''} \<and> nullish (jget f k)
              then (case obj_get (nf_filters s) i of None \<Rightarrow> JUndef | Some old \<Rightarrow> jget old k)
              else jget f k)))"
proof (cases "map_of (rev fs) i")
  case None
  then show ?thesis by (simp add: handleFilterChangesComplete_def get_foldl_ids)
next
  case (Some f)
  then show ?thesis
    by (auto simp: handleFilterChangesComplete_def get_foldl_ids complete_filter_def js_coalesce_def
        existing_value_def Let_def split: option.split)
qed

end
