(* ===== verification/ReduxUtils.thy ===== *)
theory ReduxUtils
  imports Prelude
begin

text \<open>
  The helpers of \<open>src/reduxUtils.ts\<close> that the SQL Lab and data mask reducers update their state
  with. The helpers take a state and the name \<open>arrKey\<close> of one of its fields and return the state
  with that field replaced; here they are the function on the field, and their callers write the
  record update. Entities are dynamic objects: a read of an absent property is \<open>undefined\<close>, and two
  absent identifiers are equal. \<open>nanoid()\<close> is an argument.
\<close>

section \<open>Dictionaries of entities\<close>

definition with_id :: "string \<Rightarrow> jsobj \<Rightarrow> jsobj" where
  "with_id nano ob = (if truthy (jget ob ''id'') then ob else obj_set ''id'' (JStr nano) ob)"

definition addToObject :: "string \<Rightarrow> (string, jsobj) obj \<Rightarrow> jsobj \<Rightarrow> (string, jsobj) obj" where
  "addToObject nano m ob =
     (let copied = with_id nano ob in obj_set (key_of (jget copied ''id'')) copied m)"

definition or_none :: "('a list) option \<Rightarrow> 'a list" where
  "or_none x = (case x of None \<Rightarrow> [] | Some ys \<Rightarrow> ys)"

definition alterInObject ::
    "(string, jsobj) obj \<Rightarrow> jsobj \<Rightarrow> jsobj \<Rightarrow> (string, jsobj) obj" where
  "alterInObject m ob alterations =
     (let k = key_of (jget ob ''id'')
      in obj_set k (obj_spread (or_none (obj_get m k)) alterations) m)"

section \<open>Arrays of entities\<close>

definition alterInArr :: "jsobj list \<Rightarrow> jsobj \<Rightarrow> jsobj \<Rightarrow> string \<Rightarrow> jsobj list" where
  "alterInArr arr ob alterations idKey =
     map (\<lambda>item. if jget ob idKey = jget item idKey then obj_spread item alterations else item) arr"

definition removeFromArr :: "jsobj list \<Rightarrow> jsobj \<Rightarrow> string \<Rightarrow> jsobj list" where
  "removeFromArr arr ob idKey = filter (\<lambda>item. \<not> jget ob idKey = jget item idKey) arr"

text \<open>The last match wins.\<close>

definition getFromArr :: "jsobj list \<Rightarrow> jsval \<Rightarrow> string \<Rightarrow> jsobj option" where
  "getFromArr arr i idKey = foldl (\<lambda>r ob. if jget ob idKey = i then Some ob else r) None arr"

definition addToArr :: "string \<Rightarrow> jsobj list \<Rightarrow> jsobj \<Rightarrow> bool \<Rightarrow> jsobj list" where
  "addToArr nano arr ob prepend =
     (let new = with_id nano ob in if prepend then new # arr else arr @ [new])"

text \<open>\<open>extendArr\<close> asks for an identifier for each new element that has none, in order; the
  identifier of the element at index \<open>i\<close> is \<open>nanos i\<close>.\<close>

definition extendArr :: "(nat \<Rightarrow> string) \<Rightarrow> jsobj list \<Rightarrow> jsobj list \<Rightarrow> bool \<Rightarrow> jsobj list" where
  "extendArr nanos arr xs prepend =
     (let new = map (\<lambda>(i, el). with_id (nanos i) el) (zip [0..<length xs] xs)
      in if prepend then new @ arr else arr @ new)"

section \<open>Comparisons\<close>

text \<open>\<open>===\<close> of the elements is the equality of the element type; \<open>None\<close> is a missing array.\<close>

definition areArraysShallowEqual :: "'a list option \<Rightarrow> 'a list option \<Rightarrow> bool" where
  "areArraysShallowEqual arr1 arr2 =
     (case (arr1, arr2) of
        (Some xs, Some ys) \<Rightarrow>
          (if length xs \<noteq> length ys then False
           else list_all (\<lambda>i. xs ! i = ys ! i) [0..<length xs])
      | _ \<Rightarrow> False)"

record equal_opts =
  ignoreUndefined :: bool
  ignoreNull :: bool
  ignoreFields :: "string list"

definition default_opts :: equal_opts where
  "default_opts = \<lparr>ignoreUndefined = False, ignoreNull = False, ignoreFields = []\<rparr>"

definition omit_value :: "jsval \<Rightarrow> jsval \<Rightarrow> jsval" where
  "omit_value u v = JObj (filter (\<lambda>(_, x). x \<noteq> u) (entries_of v))"

definition omit_fields :: "string list \<Rightarrow> jsval \<Rightarrow> jsval" where
  "omit_fields fs v = JObj (filter (\<lambda>(k, _). k \<notin> set fs) (entries_of v))"

text \<open>
  \<open>is_equal\<close> is lodash's \<open>isEqual\<close>. The customizer given to \<open>isEqualWith\<close> always answers a
  boolean, so the first call, on the two whole values, decides the comparison.
\<close>

definition areObjectsEqual :: "(jsval \<Rightarrow> jsval \<Rightarrow> bool) \<Rightarrow> jsval \<Rightarrow> jsval \<Rightarrow> equal_opts \<Rightarrow> bool" where
  "areObjectsEqual is_equal obj1 obj2 opts =
     (let drop_undef = (\<lambda>v. if ignoreUndefined opts then omit_value JUndef v else v);
          drop_null = (\<lambda>v. if ignoreNull opts then omit_value JNull v else v);
          comp1 = drop_null (drop_undef obj1);
          comp2 = drop_null (drop_undef obj2)
      in if ignoreFields opts \<noteq> []
         then is_equal (JArr (map (omit_fields (ignoreFields opts)) (ensureIsArray comp1)))
                       (JArr (map (omit_fields (ignoreFields opts)) (ensureIsArray comp2)))
         else is_equal comp1 comp2)"

section \<open>Lemmas\<close>

named_theorems redux_simps

lemma truthy_with_id: "nano \<noteq> [] \<Longrightarrow> truthy (jget (with_id nano ob) ''id'')"
  by (simp add: with_id_def)

lemma with_id_id [redux_simps]: "truthy (jget ob ''id'') \<Longrightarrow> with_id nano ob = ob"
  by (simp add: with_id_def)

lemma jget_Nil [simp]: "jget [] k = JUndef"
  by (simp add: jget_def)

lemma jget_Cons [simp]: "jget ((k, v) # ob) k' = (if k = k' then v else jget ob k')"
  by (simp add: jget_def)

lemma jget_spread: "jget (obj_spread a b) k = (case map_of (rev b) k of None \<Rightarrow> jget a k | Some v \<Rightarrow> v)"
  by (simp add: jget_def obj_get_spread split: option.splits)

lemma jget_spread_absent: "k \<notin> fst ` set b \<Longrightarrow> jget (obj_spread a b) k = jget a k"
proof -
  assume "k \<notin> fst ` set b"
  then have "map_of (rev b) k = None" by (simp add: map_of_eq_None_iff)
  then show ?thesis by (simp add: jget_spread)
qed

lemma jget_absent: "k \<notin> fst ` set b \<Longrightarrow> jget b k = JUndef"
proof -
  assume "k \<notin> fst ` set b"
  then have "obj_get b k = None" by (simp add: map_of_eq_None_iff)
  then show ?thesis by (simp add: jget_def)
qed

text \<open>An alteration with the entity's own identifier, or with none, keeps every identifier.\<close>

definition same_key :: "string \<Rightarrow> jsobj \<Rightarrow> jsobj \<Rightarrow> bool" where
  "same_key idKey ob alterations \<longleftrightarrow>
     (case map_of (rev alterations) idKey of None \<Rightarrow> True | Some v \<Rightarrow> v = jget ob idKey)"

lemma alterInArr_keys [redux_simps]:
  assumes "same_key idKey ob alterations"
  shows "map (\<lambda>item. jget item idKey) (alterInArr arr ob alterations idKey) =
         map (\<lambda>item. jget item idKey) arr"
  using assms by (auto simp: alterInArr_def same_key_def jget_spread split: option.splits)

lemma length_alterInArr [simp]: "length (alterInArr arr ob alterations idKey) = length arr"
  by (simp add: alterInArr_def)

lemma alterInArr_other_field:
  assumes "k \<notin> fst ` set alterations"
  shows "map (\<lambda>item. jget item k) (alterInArr arr ob alterations idKey) = map (\<lambda>item. jget item k) arr"
  using assms by (auto simp: alterInArr_def jget_spread_absent)

lemma alterInArr_absent:
  assumes "jget ob idKey \<notin> (\<lambda>item. jget item idKey) ` set arr"
  shows "alterInArr arr ob alterations idKey = arr"
  unfolding alterInArr_def using assms by (intro map_idI) auto

lemma removeFromArr_keys [redux_simps]:
  "map (\<lambda>item. jget item idKey) (removeFromArr arr ob idKey) =
   filter (\<lambda>i. i \<noteq> jget ob idKey) (map (\<lambda>item. jget item idKey) arr)"
  by (induction arr) (auto simp: removeFromArr_def)

lemma getFromArr_snoc:
  "getFromArr (arr @ [ob]) i idKey = (if jget ob idKey = i then Some ob else getFromArr arr i idKey)"
  by (simp add: getFromArr_def)

lemma getFromArr_find:
  assumes "distinct (map (\<lambda>item. jget item idKey) arr)"
  shows "getFromArr arr i idKey = find (\<lambda>item. jget item idKey = i) arr"
proof -
  have "foldl (\<lambda>r ob. if jget ob idKey = i then Some ob else r) r arr =
        (case find (\<lambda>item. jget item idKey = i) arr of None \<Rightarrow> r | Some x \<Rightarrow> Some x)" for r
    using assms
  proof (induction arr arbitrary: r)
    case Nil
    then show ?case by simp
  next
    case (Cons x xs)
    show ?case
    proof (cases "jget x idKey = i")
      case True
      then have "find (\<lambda>item. jget item idKey = i) xs = None"
        using Cons.prems by (auto simp: find_None_iff image_iff)
      with True Cons show ?thesis by simp
    next
      case False
      with Cons show ?thesis by simp
    qed
  qed
  then show ?thesis by (simp add: getFromArr_def split: option.split)
qed

lemma areArraysShallowEqual_iff [redux_simps]:
  "areArraysShallowEqual (Some xs) (Some ys) \<longleftrightarrow> xs = ys"
  by (auto simp: areArraysShallowEqual_def list_all_iff intro: nth_equalityI)

text \<open>Looking an entity up by its identifier after an alteration.\<close>

lemma find_alterInArr:
  assumes "same_key idKey ob alterations"
  shows "find (\<lambda>item. jget item idKey = i) (alterInArr arr ob alterations idKey) =
         map_option (\<lambda>item. if jget ob idKey = i then obj_spread item alterations else item)
           (find (\<lambda>item. jget item idKey = i) arr)"
proof (induction arr)
  case Nil
  then show ?case by (simp add: alterInArr_def)
next
  case (Cons x xs)
  have "jget (obj_spread x alterations) idKey = jget x idKey" if "jget ob idKey = jget x idKey"
    using assms that by (auto simp: same_key_def jget_spread split: option.splits)
  then have k: "jget (if jget ob idKey = jget x idKey then obj_spread x alterations else x) idKey =
      jget x idKey" by simp
  show ?case
  proof (cases "jget x idKey = i")
    case True
    with k show ?thesis by (simp add: alterInArr_def)
  next
    case False
    with k Cons show ?thesis by (simp add: alterInArr_def)
  qed
qed

lemma alterInObject_get [redux_simps]:
  "obj_get (alterInObject m ob alts) k =
     (if k = key_of (jget ob ''id'') then Some (obj_spread (or_none (obj_get m k)) alts)
      else obj_get m k)"
  by (simp add: alterInObject_def Let_def)

lemma or_none_simps [simp]: "or_none None = []" "or_none (Some x) = x"
  by (simp_all add: or_none_def)

end
