(* ===== verification/SqlLabState.thy ===== *)
theory SqlLabState
  imports ReduxUtils
begin

text \<open>
  The state of SQL Lab (\<open>SqlLab/types.ts\<close>) and its reducer (\<open>SqlLab/reducers/sqlLab.ts\<close>): the
  query editors (the tabs), the edits of the active tab that are not yet merged into its editor
  (\<open>unsavedQueryEditor\<close>), the order in which tabs were active, the queries and the table
  previews. Editors, tables and queries are dynamic objects. The browser's local storage, which
  two actions clean up, is outside the state.
\<close>

section \<open>State, environment and actions\<close>

record sql_lab =
  activeSouthPaneTab :: jsval
  alerts :: "jsval list"
  databases :: "(string, jsobj) obj"
  dbConnect :: bool
  offline :: jsval
  queries :: "(string, jsobj) obj"
  queryEditors :: "jsobj list"
  tabHistory :: "jsval list"
  tables :: "jsobj list"
  queriesLastUpdate :: int
  errorMessage :: jsval
  unsavedQueryEditor :: jsobj
  queryCostEstimates :: "(string, jsobj) obj"
  editorTabLastUpdatedAt :: jsval
  lastUpdatedActiveTab :: jsval
  destroyedQueryEditors :: "(string, int) obj"
  isDatasourceLoading :: jsval
  datasource :: jsval

text \<open>
  What the reducer takes from outside the repository: the clock, \<open>nanoid\<close> (its successive
  values), the translated name of a copied tab, \<open>JSON.parse\<close> (\<open>None\<close> when it throws),
  \<open>Date.parse\<close> (\<open>None\<close> for NaN; the format it accepts is up to the engine), \<open>Number(..)\<close>,
  lodash's \<open>isEqual\<close> and \<open>shallowEqual\<close> of react-redux.
\<close>

record env =
  clock :: int
  nano :: "nat \<Rightarrow> string"
  copy_of :: "jsval \<Rightarrow> string"
  json_parse :: "string \<Rightarrow> jsobj option"
  date_parse :: "string \<Rightarrow> int option"
  to_number :: "jsval \<Rightarrow> jsval"
  is_equal :: "jsval \<Rightarrow> jsval \<Rightarrow> bool"
  shallow_equal :: "jsobj \<Rightarrow> jsobj \<Rightarrow> bool"

text \<open>\<open>QueryState\<close> of \<open>@superset-ui/core\<close>: its values are the strings the server sends.\<close>

datatype query_state = Started | Stopped | Failed | Pending | Running | Scheduled | Success
  | Fetching | TimedOut

fun state_string :: "query_state \<Rightarrow> string" where
  "state_string Started = ''started''"
| "state_string Stopped = ''stopped''"
| "state_string Failed = ''failed''"
| "state_string Pending = ''pending''"
| "state_string Running = ''running''"
| "state_string Scheduled = ''scheduled''"
| "state_string Success = ''success''"
| "state_string Fetching = ''fetching''"
| "state_string TimedOut = ''timed_out''"

abbreviation qstate :: "query_state \<Rightarrow> jsval" where
  "qstate s \<equiv> JStr (state_string s)"

text \<open>The setters of the properties of one editor; an \<open>EditorAction\<close> carries the editor's
  identifier and one of them.\<close>

datatype editor_action =
    QUERY_EDITOR_SETDB jsval
  | QUERY_EDITOR_SET_CATALOG jsval
  | QUERY_EDITOR_SET_SCHEMA jsval
  | QUERY_EDITOR_SET_TITLE jsval
  | QUERY_EDITOR_SET_SQL (new_sql: jsval) (query_id: jsval)
  | QUERY_EDITOR_SET_CURSOR_POSITION jsval
  | QUERY_EDITOR_SET_QUERY_LIMIT jsval
  | QUERY_EDITOR_SET_TEMPLATE_PARAMS jsval
  | QUERY_EDITOR_SET_SELECTED_TEXT jsval
  | QUERY_EDITOR_SET_AUTORUN jsval
  | QUERY_EDITOR_PERSIST_HEIGHT (north: jsval) (south: jsval)
  | QUERY_EDITOR_TOGGLE_LEFT_BAR jsval

datatype sql_action =
    ADD_QUERY_EDITOR jsobj
  | QUERY_EDITOR_SAVED (saved_query: jsobj) (saved_result: jsobj) (client_id: jsval)
  | UPDATE_QUERY_EDITOR jsobj
  | CLONE_QUERY_TO_NEW_TAB jsobj
  | REMOVE_QUERY_EDITOR jsobj
  | CLEAR_DESTROYED_QUERY_EDITOR string
  | REMOVE_QUERY jsobj
  | RESET_STATE sql_lab
  | MERGE_TABLE (merged_table: jsobj) (merged_query: "jsobj option") bool
  | EXPAND_TABLE jsobj
  | REMOVE_DATA_PREVIEW jsobj
  | CHANGE_DATA_PREVIEW_ID (old_query_id: jsval) (new_query: jsobj)
  | COLLAPSE_TABLE jsobj
  | REMOVE_TABLES "jsobj list"
  | COST_ESTIMATE_STARTED jsobj
  | COST_ESTIMATE_RETURNED jsobj jsobj
  | COST_ESTIMATE_FAILED jsobj jsval
  | START_QUERY jsobj
  | STOP_QUERY jsobj
  | CLEAR_QUERY_RESULTS jsobj
  | REQUEST_QUERY_RESULTS jsobj
  | QUERY_SUCCESS jsobj jsval
  | QUERY_FAILED (failed_query: jsobj) (errors: jsval) (msg: jsval) (link: jsval)
  | SET_ACTIVE_QUERY_EDITOR jsobj
  | LOAD_QUERY_EDITOR jsobj
  | SET_TABLES "jsobj list"
  | SET_ACTIVE_SOUTHPANE_TAB jsval
  | MIGRATE_QUERY_EDITOR (old_editor: jsobj) (new_editor: jsobj)
  | MIGRATE_TABLE (old_table: jsobj) (new_table: jsobj)
  | MIGRATE_QUERY string jsval
  | EditorAction jsval editor_action
  | SET_DATABASES "jsobj list"
  | REFRESH_QUERIES "(string, jsobj) obj"
  | CLEAR_INACTIVE_QUERIES int
  | SET_USER_OFFLINE jsval
  | CREATE_DATASOURCE_STARTED
  | CREATE_DATASOURCE_SUCCESS jsval
  | CREATE_DATASOURCE_FAILED jsval
  | SET_EDITOR_TAB_LAST_UPDATE jsval
  | SET_LAST_UPDATED_ACTIVE_TAB jsval

section \<open>Query editors\<close>

text \<open>The last entry of the history is the active tab; \<open>undefined\<close> when there is none.\<close>

definition active_tab :: "sql_lab \<Rightarrow> jsval" where
  "active_tab s = (if tabHistory s = [] then JUndef else last (tabHistory s))"

definition find_editor :: "sql_lab \<Rightarrow> jsval \<Rightarrow> jsobj option" where
  "find_editor s i = find (\<lambda>qe. jget qe ''id'' = i) (queryEditors s)"

text \<open>\<open>getUpToDateQuery\<close>: the editor a component sees, its unsaved edits included.\<close>

definition getUpToDateQuery :: "sql_lab \<Rightarrow> jsval \<Rightarrow> jsobj" where
  "getUpToDateQuery s i =
     obj_spread (obj_spread [(''id'', i)] (or_none (find_editor s i)))
       (obj_when (i = jget (unsavedQueryEditor s) ''id'') (unsavedQueryEditor s))"

datatype editor_update = QueryEditors "jsobj list" | UnsavedQueryEditor jsobj

definition alterUnsavedQueryEditorState ::
    "env \<Rightarrow> sql_lab \<Rightarrow> jsobj \<Rightarrow> jsval \<Rightarrow> bool \<Rightarrow> editor_update" where
  "alterUnsavedQueryEditorState e s updatedState i silent =
     (if tabHistory s \<noteq> [] \<and> last (tabHistory s) \<noteq> i
      then QueryEditors (alterInArr (queryEditors s) [(''id'', i)] updatedState ''id'')
      else UnsavedQueryEditor
        (obj_spread
          (obj_spread
            (obj_spread [] (obj_when (jget (unsavedQueryEditor s) ''id'' = i) (unsavedQueryEditor s)))
            (if truthy i then obj_spread [(''id'', i)] updatedState else unsavedQueryEditor s))
          (obj_when (\<not> silent) [(''updatedAt'', JNum (clock e))])))"

definition apply_update :: "editor_update \<Rightarrow> sql_lab \<Rightarrow> sql_lab" where
  "apply_update u s =
     (case u of QueryEditors qes \<Rightarrow> s\<lparr>queryEditors := qes\<rparr>
              | UnsavedQueryEditor qe \<Rightarrow> s\<lparr>unsavedQueryEditor := qe\<rparr>)"

definition set_editor :: "env \<Rightarrow> jsobj \<Rightarrow> jsval \<Rightarrow> bool \<Rightarrow> sql_lab \<Rightarrow> sql_lab" where
  "set_editor e upd i silent s = apply_update (alterUnsavedQueryEditorState e s upd i silent) s"

text \<open>The unsaved edits are merged into the editor they belong to.\<close>

definition merge_unsaved :: "sql_lab \<Rightarrow> jsobj list" where
  "merge_unsaved s =
     alterInArr (queryEditors s) (unsavedQueryEditor s) (obj_spread [] (unsavedQueryEditor s)) ''id''"

definition add_query_editor :: "env \<Rightarrow> jsobj \<Rightarrow> sql_lab \<Rightarrow> sql_lab" where
  "add_query_editor e qe s =
     s\<lparr>queryEditors := addToArr (nano e 0) (merge_unsaved s)
                         (obj_set ''updatedAt'' (JNum (clock e)) qe) False,
       tabHistory := tabHistory s @ [jget qe ''id'']\<rparr>"

text \<open>The action creator \<open>addQueryEditor\<close>, which draws two identifiers.\<close>

definition new_query_editor :: "env \<Rightarrow> jsobj \<Rightarrow> jsobj" where
  "new_query_editor e qe =
     obj_spread qe
       [(''id'', JStr (nano e 0)), (''immutableId'', JStr (nano e 1)),
        (''loaded'', JBool True), (''inLocalStorage'', JBool True)]"

definition addQueryEditor :: "env \<Rightarrow> jsobj \<Rightarrow> sql_action" where
  "addQueryEditor e qe = ADD_QUERY_EDITOR (new_query_editor e qe)"

definition truthy_or_null :: "jsval \<Rightarrow> jsval" where
  "truthy_or_null v = (if truthy v then v else JNull)"

definition clone_query_to_new_tab :: "env \<Rightarrow> jsobj \<Rightarrow> sql_lab \<Rightarrow> sql_lab" where
  "clone_query_to_new_tab e query s =
     (let queryEditor = find_editor s (active_tab s);
          editor_id = (case queryEditor of None \<Rightarrow> JUndef | Some qe \<Rightarrow> jget qe ''id'');
          progenitor = obj_spread (obj_spread [] (or_none queryEditor))
            (obj_when (jget (unsavedQueryEditor s) ''id'' = editor_id) (unsavedQueryEditor s));
          qe = [(''remoteId'', jget progenitor ''remoteId''),
                (''name'', JStr (copy_of e (jget progenitor ''name''))),
                (''dbId'', truthy_or_null (jget query ''dbId'')),
                (''catalog'', truthy_or_null (jget query ''catalog'')),
                (''schema'', truthy_or_null (jget query ''schema'')),
                (''autorun'', JBool True),
                (''sql'', jget query ''sql''),
                (''queryLimit'', jget query ''queryLimit''),
                (''maxRow'', jget query ''maxRow'')]
      in add_query_editor e (new_query_editor e qe) (s\<lparr>unsavedQueryEditor := []\<rparr>))"

definition view_id :: "jsobj \<Rightarrow> jsval" where
  "view_id qe = js_coalesce (jget qe ''tabViewId'') (jget qe ''id'')"

definition remove_query_editor :: "env \<Rightarrow> jsobj \<Rightarrow> sql_lab \<Rightarrow> sql_lab" where
  "remove_query_editor e removed s =
     (let own_unsaved = (jget removed ''id'' = jget (unsavedQueryEditor s) ''id'');
          queryEditor = obj_spread (obj_spread [] removed) (obj_when own_unsaved (unsavedQueryEditor s));
          rest = removeFromArr (queryEditors s) queryEditor ''id'';
          qeIds = map view_id rest;
          history = filter (\<lambda>i. i \<in> set qeIds) (tabHistory s)
      in s\<lparr>queryEditors := rest,
           tabHistory := (if history = [] \<and> rest \<noteq> [] then [jget (last rest) ''id''] else history),
           tables := filter (\<lambda>t. jget t ''queryEditorId'' \<noteq> view_id queryEditor) (tables s),
           queries := filter (\<lambda>(_, q). jget q ''sqlEditorId'' \<in> set qeIds) (queries s),
           unsavedQueryEditor := obj_spread [] (obj_when (\<not> own_unsaved) (unsavedQueryEditor s)),
           destroyedQueryEditors :=
             obj_spread (destroyedQueryEditors s)
               (obj_when (\<not> truthy (jget queryEditor ''inLocalStorage''))
                 [(key_of (view_id queryEditor), clock e)])\<rparr>)"

definition set_active_query_editor :: "jsobj \<Rightarrow> sql_lab \<Rightarrow> sql_lab" where
  "set_active_query_editor qe s =
     (if jget qe ''id'' \<in> (\<lambda>q. jget q ''id'') ` set (queryEditors s) \<and>
         active_tab s \<noteq> jget qe ''id''
      then s\<lparr>queryEditors :=
               (if jget qe ''id'' = jget (unsavedQueryEditor s) ''id''
                then alterInArr (merge_unsaved s) qe (obj_spread qe (unsavedQueryEditor s)) ''id''
                else merge_unsaved s),
             unsavedQueryEditor := [],
             tabHistory := tabHistory s @ [jget qe ''id'']\<rparr>
      else s)"

definition load_query_editor :: "jsobj \<Rightarrow> sql_lab \<Rightarrow> sql_lab" where
  "load_query_editor qe s =
     s\<lparr>queryEditors := alterInArr (merge_unsaved s) qe (obj_spread [] qe) ''id''\<rparr>"

definition query_editor_saved :: "jsobj \<Rightarrow> jsobj \<Rightarrow> jsval \<Rightarrow> sql_lab \<Rightarrow> sql_lab result" where
  "query_editor_saved query result clientId s =
     (case find_editor s clientId of
        None \<Rightarrow> if queryEditors s = [] then Inr s else Inl TypeError
      | Some existing \<Rightarrow>
          Inr (s\<lparr>queryEditors := alterInArr (queryEditors s) existing
                   [(''remoteId'', jget result ''remoteId''), (''name'', jget query ''name'')] ''id''\<rparr>))"

definition update_query_editor :: "jsobj \<Rightarrow> sql_lab \<Rightarrow> sql_lab" where
  "update_query_editor alterations s =
     (case find (\<lambda>qe. jget qe ''remoteId'' = jget alterations ''remoteId'') (queryEditors s) of
        None \<Rightarrow> s
      | Some existing \<Rightarrow>
          s\<lparr>queryEditors := alterInArr (queryEditors s) existing alterations ''remoteId''\<rparr>)"

text \<open>
  \<open>switchQueryEditor\<close>: the editor next to the active one, cyclically. \<open>%\<close> truncates towards
  zero, and an index that is not a number reads \<open>undefined\<close>.
\<close>

definition js_rem :: "int \<Rightarrow> int \<Rightarrow> int" where
  "js_rem a n = sgn a * (\<bar>a\<bar> mod \<bar>n\<bar>)"

definition switch_target :: "bool \<Rightarrow> sql_lab \<Rightarrow> jsobj option" where
  "switch_target goBackward s =
     (let n = int (length (queryEditors s));
          currentIndex = (case find_index (\<lambda>qe. jget qe ''id'' = active_tab s) (queryEditors s) of
                            None \<Rightarrow> -1 | Some i \<Rightarrow> int i);
          nextIndex = (if goBackward then currentIndex - 1 + n else currentIndex + 1)
      in if n = 0 then None else js_nth (queryEditors s) (js_rem nextIndex n))"

text \<open>\<open>dedupeTabHistory\<close> of the initial state: an entry equal to the one before it is dropped.\<close>

definition dedupeTabHistory :: "jsval list \<Rightarrow> jsval list" where
  "dedupeTabHistory history =
     foldl (\<lambda>acc i. if acc \<noteq> [] \<and> last acc = i then acc else acc @ [i]) [] history"

section \<open>Tables\<close>

definition same_table :: "jsobj \<Rightarrow> jsobj \<Rightarrow> bool" where
  "same_table at xt \<longleftrightarrow>
     jget xt ''dbId'' = jget at ''dbId'' \<and>
     jget xt ''queryEditorId'' = jget at ''queryEditorId'' \<and>
     jget xt ''catalog'' = jget at ''catalog'' \<and>
     jget xt ''schema'' = jget at ''schema'' \<and>
     jget xt ''name'' = jget at ''name''"

definition show_expanded :: "jsobj \<Rightarrow> sql_lab \<Rightarrow> sql_lab" where
  "show_expanded at s =
     (if truthy (jget at ''expanded'') then s\<lparr>activeSouthPaneTab := jget at ''id''\<rparr> else s)"

definition merge_table :: "env \<Rightarrow> jsobj \<Rightarrow> jsobj option \<Rightarrow> bool \<Rightarrow> sql_lab \<Rightarrow> sql_lab" where
  "merge_table e at query prepend s =
     (case find_index (same_table at) (tables s) of
        Some i \<Rightarrow>
          (let at' = (case query of None \<Rightarrow> at
                                  | Some q \<Rightarrow> obj_set ''dataPreviewQueryId'' (jget q ''id'') at);
               old = tables s ! i;
               merged = obj_spread (obj_spread old at')
                 (obj_when (truthy (jget old ''initialized'')) [(''id'', jget old ''id'')])
           in show_expanded at' (s\<lparr>tables := take i (tables s) @ merged # drop (Suc i) (tables s)\<rparr>))
      | None \<Rightarrow>
          (let at' = obj_set ''dataPreviewQueryId'' JNull at;
               s' = show_expanded at' (s\<lparr>tables := addToArr (nano e 0) (tables s) at' prepend\<rparr>)
           in case query of
                None \<Rightarrow> s'
              | Some q \<Rightarrow> s'\<lparr>tables := alterInArr (tables s') at'
                               [(''dataPreviewQueryId'', jget q ''id'')] ''id''\<rparr>))"

definition remove_data_preview :: "jsobj \<Rightarrow> sql_lab \<Rightarrow> sql_lab" where
  "remove_data_preview table s =
     s\<lparr>tables := alterInArr (tables s) table [(''dataPreviewQueryId'', JNull)] ''id'',
       queries := obj_del (key_of (jget table ''dataPreviewQueryId'')) (queries s)\<rparr>"

definition change_data_preview_id :: "jsval \<Rightarrow> jsobj \<Rightarrow> sql_lab \<Rightarrow> sql_lab" where
  "change_data_preview_id oldQueryId newQuery s =
     s\<lparr>queries := obj_del (key_of oldQueryId) (queries s),
       tables := map (\<lambda>xt. if jget xt ''dataPreviewQueryId'' = oldQueryId
                           then obj_spread xt [(''dataPreviewQueryId'', jget newQuery ''id'')] else xt)
                   (tables s)\<rparr>"

definition remove_tables :: "jsobj list \<Rightarrow> sql_lab \<Rightarrow> sql_lab" where
  "remove_tables removed s =
     (let tableIds = map (\<lambda>t. jget t ''id'') removed;
          rest = filter (\<lambda>t. jget t ''id'' \<notin> set tableIds) (tables s);
          s' = s\<lparr>tables := rest\<rparr>
      in if activeSouthPaneTab s \<in> set tableIds
         then s'\<lparr>activeSouthPaneTab := js_coalesce
                (case find (\<lambda>t. jget t ''queryEditorId'' = jget (hd removed) ''queryEditorId'') rest of
                   None \<Rightarrow> JUndef | Some t \<Rightarrow> jget t ''id'')
                (JStr ''Results'')\<rparr>
         else s')"

section \<open>Queries\<close>

definition cost_estimate :: "jsobj \<Rightarrow> bool \<Rightarrow> jsval \<Rightarrow> jsval \<Rightarrow> sql_lab \<Rightarrow> sql_lab" where
  "cost_estimate query completed cost error s =
     s\<lparr>queryCostEstimates := obj_set (key_of (jget query ''id''))
         [(''completed'', JBool completed), (''cost'', cost), (''error'', error)]
         (queryCostEstimates s)\<rparr>"

text \<open>The results of the editor's previous query are dropped when a new one starts.\<close>

definition forget_results :: "jsobj \<Rightarrow> (string, jsobj) obj \<Rightarrow> (string, jsobj) obj" where
  "forget_results qe qs =
     (if truthy (jget qe ''latestQueryId'')
      then case obj_get qs (key_of (jget qe ''latestQueryId'')) of
             None \<Rightarrow> qs
           | Some old \<Rightarrow>
               obj_set (key_of (jget old ''id''))
                 (obj_spread old [(''results'',
                    JObj (obj_spread (obj_spread [] (entries_of (jget old ''results'')))
                      [(''data'', JArr []), (''query'', JNull)]))]) qs
      else qs)"

definition query_editor_id :: "sql_lab \<Rightarrow> jsobj \<Rightarrow> jsval" where
  "query_editor_id s query =
     (case getFromArr (queryEditors s) (jget query ''sqlEditorId'') ''tabViewId'' of
        None \<Rightarrow> jget query ''sqlEditorId''
      | Some qe \<Rightarrow> js_coalesce (jget qe ''id'') (jget query ''sqlEditorId''))"

definition start_query :: "env \<Rightarrow> jsobj \<Rightarrow> sql_lab \<Rightarrow> sql_lab" where
  "start_query e query s =
     (let in_editor = truthy (jget query ''sqlEditorId'');
          sqlEditorId = (if in_editor then query_editor_id s query else JUndef);
          qe = obj_spread (obj_spread [] (or_none (getFromArr (queryEditors s) sqlEditorId ''id'')))
                 (obj_when (sqlEditorId = jget (unsavedQueryEditor s) ''id'') (unsavedQueryEditor s));
          qs = (if in_editor then forget_results qe (queries s) else queries s)
      in apply_update
           (alterUnsavedQueryEditorState e s [(''latestQueryId'', jget query ''id'')] sqlEditorId
              (truthy (jget query ''isDataPreview'')))
           (s\<lparr>queries := addToObject (nano e 0) qs query\<rparr>))"

definition alter_query :: "jsobj \<Rightarrow> jsobj \<Rightarrow> sql_lab \<Rightarrow> sql_lab" where
  "alter_query query alts s = s\<lparr>queries := alterInObject (queries s) query alts\<rparr>"

definition query_success :: "env \<Rightarrow> jsobj \<Rightarrow> jsval \<Rightarrow> sql_lab \<Rightarrow> sql_lab" where
  "query_success e query results s =
     (if jget query ''state'' = qstate Stopped \<or> chain results ''status'' \<noteq> qstate Success then s
      else let rq = chain results ''query'';
               resultsKey = chain rq ''resultsKey'';
               alts = [(''endDttm'', JNum (clock e)), (''progress'', JNum 100),
                       (''results'', results),
                       (''rows'', js_or (chain rq ''rows'') (JNum 0)),
                       (''state'', qstate Success),
                       (''executedSql'', chain rq ''executedSql''),
                       (''limitingFactor'', chain rq ''limitingFactor''),
                       (''tempSchema'', chain rq ''tempSchema''),
                       (''tempTable'', chain rq ''tempTable''),
                       (''errorMessage'', JNull),
                       (''cached'', JBool False)]
           in alter_query query
                (alts @ obj_when (truthy resultsKey) [(''resultsKey'', resultsKey)]) s)"

definition query_failed :: "env \<Rightarrow> jsobj \<Rightarrow> jsval \<Rightarrow> jsval \<Rightarrow> jsval \<Rightarrow> sql_lab \<Rightarrow> sql_lab" where
  "query_failed e query errs message lnk s =
     (if jget query ''state'' = qstate Stopped then s
      else alter_query query
             [(''state'', qstate Failed), (''errors'', errs), (''errorMessage'', message),
              (''endDttm'', JNum (clock e)), (''link'', lnk)] s)"

section \<open>Polling the queries\<close>

text \<open>
  \<open>normalizeTimestamp\<close>: the first match of
  \<open>/(\d{4}-\d{2}-\d{2})[\sT](\d{2}:\d{2}:\d{2}\.?\d*).*/\<close>, rewritten in ISO form; a string
  without a match is returned as it is. In the pattern below \<open>9\<close> stands for a digit and
  \<open>_\<close> for a separator.
\<close>

definition is_space :: "char \<Rightarrow> bool" where
  "is_space c = ((of_char c :: nat) \<in> {9, 10, 11, 12, 13, 32, 160})"

definition char_matches :: "char \<Rightarrow> char \<Rightarrow> bool" where
  "char_matches p c =
     (if p = CHR ''9'' then is_digit c
      else if p = CHR ''_'' then is_space c \<or> c = CHR ''T''
      else c = p)"

definition ts_pattern :: string where "ts_pattern = ''9999-99-99_99:99:99''"

definition ts_match :: "string \<Rightarrow> string option" where
  "ts_match s =
     (if length s \<ge> length ts_pattern \<and>
         list_all (\<lambda>(p, c). char_matches p c) (zip ts_pattern s)
      then let rest = drop (length ts_pattern) s;
               frac = (if rest \<noteq> [] \<and> hd rest = CHR ''.''
                       then CHR ''.'' # takeWhile is_digit (tl rest) else takeWhile is_digit rest)
           in Some (take 10 s @ ''T'' @ take 8 (drop 11 s) @ frac @ ''Z'')
      else None)"

fun ts_search :: "string \<Rightarrow> string option" where
  "ts_search [] = None"
| "ts_search (c # cs) = (case ts_match (c # cs) of Some r \<Rightarrow> Some r | None \<Rightarrow> ts_search cs)"

definition normalizeTimestamp :: "string \<Rightarrow> string" where
  "normalizeTimestamp s = (case ts_search s of Some r \<Rightarrow> r | None \<Rightarrow> s)"

text \<open>The time stamp of a changed query; a \<open>changed_on\<close> that is not a string has no \<open>match\<close>.\<close>

definition changed_at :: "env \<Rightarrow> jsobj \<Rightarrow> int option result" where
  "changed_at e changed =
     (case jget changed ''changed_on'' of
        JStr ts \<Rightarrow> Inr (date_parse e (normalizeTimestamp ts))
      | _ \<Rightarrow> Inl TypeError)"

definition polled_state :: "jsval \<Rightarrow> jsval \<Rightarrow> jsval" where
  "polled_state prev current =
     (if current = qstate Success \<and> prev \<in> {qstate Fetching, qstate Success, qstate Running}
      then prev else current)"

definition merge_polled :: "env \<Rightarrow> jsobj option \<Rightarrow> jsobj \<Rightarrow> jsobj" where
  "merge_polled e old changed =
     (let prev = (case old of None \<Rightarrow> JUndef | Some q \<Rightarrow> jget q ''state'');
          time = (\<lambda>k. obj_when (truthy (jget changed k)) [(k, to_number e (jget changed k))]);
          q = obj_spread (or_none old)
                (changed @ time ''startDttm'' @ time ''endDttm'' @
                 [(''state'', polled_state prev (jget changed ''state''))])
      in if jget q ''state'' = qstate Success \<and> jget q ''runAsync'' = JBool False \<and>
            \<not> truthy (jget q ''results'')
         then obj_set ''state'' (qstate Fetching) q else q)"

definition not_polled :: "jsobj option \<Rightarrow> bool" where
  "not_polled old =
     (case old of None \<Rightarrow> False
      | Some q \<Rightarrow> jget q ''state'' = qstate Stopped \<or> jget q ''state'' = qstate Failed)"

definition unchanged_query :: "env \<Rightarrow> jsobj option \<Rightarrow> jsobj \<Rightarrow> bool result" where
  "unchanged_query e old q =
     (if shallow_equal e (obj_del ''extra'' q) (obj_del ''extra'' (or_none old))
      then rbind (or_throw TypeError old) (\<lambda>o'. Inr (is_equal e (jget q ''extra'') (jget o' ''extra'')))
      else Inr False)"

type_synonym polled = "(string, jsobj) obj \<times> bool \<times> int"

definition refresh_query ::
    "env \<Rightarrow> (string, jsobj) obj \<Rightarrow> polled \<Rightarrow> string \<times> jsobj \<Rightarrow> polled result" where
  "refresh_query e qs = (\<lambda>(new, change, updated) (i, changed).
     let old = obj_get qs i
     in if not_polled old then Inr (new, change, updated)
        else rbind (changed_at e changed) (\<lambda>ts.
          let updated' = (case ts of Some t \<Rightarrow> if t > updated then t else updated | None \<Rightarrow> updated);
              q = merge_polled e old changed
          in rbind (unchanged_query e old q) (\<lambda>same.
               Inr (if same then obj_set i (or_none old) new else obj_set i q new,
                    change \<or> \<not> same, updated'))))"

definition refresh_queries :: "env \<Rightarrow> (string, jsobj) obj \<Rightarrow> sql_lab \<Rightarrow> sql_lab result" where
  "refresh_queries e altered s =
     rbind (rfold (refresh_query e (queries s)) (queries s, False, queriesLastUpdate s) altered)
       (\<lambda>(new, change, updated).
          Inr (s\<lparr>queries := (if change then new else queries s), queriesLastUpdate := updated\<rparr>))"

text \<open>A comparison with NaN is false, so a query without a start time never expires.\<close>

definition expired :: "env \<Rightarrow> int \<Rightarrow> jsobj \<Rightarrow> bool" where
  "expired e interval q \<longleftrightarrow>
     jget q ''state'' \<in> {JStr ''running'', JStr ''pending''} \<and>
     (case to_number e (jget q ''startDttm'') of JNum t \<Rightarrow> clock e - t > interval | _ \<Rightarrow> False) \<and>
     jget q ''progress'' = JNum 0"

definition settled_state :: "jsobj \<Rightarrow> jsval" where
  "settled_state q =
     (if truthy (jget q ''resultsKey'') \<and> truthy (chain (jget q ''results'') ''status'')
      then chain (jget q ''results'') ''status'' else jget q ''state'')"

definition clear_inactive_queries :: "env \<Rightarrow> int \<Rightarrow> sql_lab \<Rightarrow> sql_lab" where
  "clear_inactive_queries e interval s =
     s\<lparr>queries :=
         map (\<lambda>(i, q). (i, obj_spread q [(''state'', settled_state q)]))
           (filter (\<lambda>(_, q). \<not> expired e interval q) (queries s))\<rparr>"

text \<open>\<open>JSON.parse\<close> throws on text that is not JSON, the empty string included.\<close>

definition set_databases :: "env \<Rightarrow> jsobj list \<Rightarrow> sql_lab \<Rightarrow> sql_lab result" where
  "set_databases e dbs s =
     rbind (rfold (\<lambda>acc db.
         let text = (if truthy (jget db ''extra'') then key_of (jget db ''extra'') else [])
         in rbind (or_throw (ParseError ''SyntaxError'') (json_parse e text)) (\<lambda>extra.
              Inr (obj_set (key_of (jget db ''id'')) (obj_spread db [(''extra_json'', JObj extra)]) acc)))
        [] dbs)
       (\<lambda>new. Inr (s\<lparr>databases := new\<rparr>))"

section \<open>The reducer\<close>

text \<open>What a setter writes, and whether it leaves the time of the last edit alone.\<close>

definition or_undefined :: "jsval \<Rightarrow> jsval" where
  "or_undefined v = js_coalesce v JUndef"

fun setter_values :: "editor_action \<Rightarrow> jsobj" where
  "setter_values (QUERY_EDITOR_SETDB v) = [(''dbId'', v)]"
| "setter_values (QUERY_EDITOR_SET_CATALOG v) = [(''catalog'', v)]"
| "setter_values (QUERY_EDITOR_SET_SCHEMA v) = [(''schema'', or_undefined v)]"
| "setter_values (QUERY_EDITOR_SET_TITLE v) = [(''name'', v)]"
| "setter_values (QUERY_EDITOR_SET_SQL v q) =
     (''sql'', or_undefined v) # obj_when (truthy q) [(''latestQueryId'', q)]"
| "setter_values (QUERY_EDITOR_SET_CURSOR_POSITION v) = [(''cursorPosition'', v)]"
| "setter_values (QUERY_EDITOR_SET_QUERY_LIMIT v) = [(''queryLimit'', v)]"
| "setter_values (QUERY_EDITOR_SET_TEMPLATE_PARAMS v) = [(''templateParams'', v)]"
| "setter_values (QUERY_EDITOR_SET_SELECTED_TEXT v) = [(''selectedText'', or_undefined v)]"
| "setter_values (QUERY_EDITOR_SET_AUTORUN v) = [(''autorun'', v)]"
| "setter_values (QUERY_EDITOR_PERSIST_HEIGHT n m) = [(''northPercent'', n), (''southPercent'', m)]"
| "setter_values (QUERY_EDITOR_TOGGLE_LEFT_BAR v) = [(''hideLeftBar'', v)]"

definition is_silent :: "editor_action \<Rightarrow> bool" where
  "is_silent a = is_QUERY_EDITOR_SET_SELECTED_TEXT a"

text \<open>Setting the text that the unsaved edits already hold is no edit.\<close>

definition no_edit :: "sql_lab \<Rightarrow> jsval \<Rightarrow> editor_action \<Rightarrow> bool" where
  "no_edit s i a \<longleftrightarrow>
     is_QUERY_EDITOR_SET_SQL a \<and> jget (unsavedQueryEditor s) ''id'' = i \<and>
     jget (unsavedQueryEditor s) ''sql'' = new_sql a"

definition editor_step :: "env \<Rightarrow> jsval \<Rightarrow> editor_action \<Rightarrow> sql_lab \<Rightarrow> sql_lab" where
  "editor_step e i a s =
     (if no_edit s i a then s else set_editor e (setter_values a) i (is_silent a) s)"

fun sqlLabReducer :: "env \<Rightarrow> sql_action \<Rightarrow> sql_lab \<Rightarrow> sql_lab result" where
  "sqlLabReducer e (ADD_QUERY_EDITOR qe) s = Inr (add_query_editor e qe s)"
| "sqlLabReducer e (QUERY_EDITOR_SAVED q r c) s = query_editor_saved q r c s"
| "sqlLabReducer e (UPDATE_QUERY_EDITOR alts) s = Inr (update_query_editor alts s)"
| "sqlLabReducer e (CLONE_QUERY_TO_NEW_TAB q) s = Inr (clone_query_to_new_tab e q s)"
| "sqlLabReducer e (REMOVE_QUERY_EDITOR qe) s = Inr (remove_query_editor e qe s)"
| "sqlLabReducer e (CLEAR_DESTROYED_QUERY_EDITOR i) s =
     Inr (s\<lparr>destroyedQueryEditors := obj_del i (destroyedQueryEditors s)\<rparr>)"
| "sqlLabReducer e (REMOVE_QUERY q) s =
     Inr (s\<lparr>queries := obj_del (key_of (jget q ''id'')) (queries s)\<rparr>)"
| "sqlLabReducer e (RESET_STATE init) s = Inr init"
| "sqlLabReducer e (MERGE_TABLE t q p) s = Inr (merge_table e t q p s)"
| "sqlLabReducer e (EXPAND_TABLE t) s =
     Inr (s\<lparr>tables := alterInArr (tables s) t [(''expanded'', JBool True)] ''id''\<rparr>)"
| "sqlLabReducer e (REMOVE_DATA_PREVIEW t) s = Inr (remove_data_preview t s)"
| "sqlLabReducer e (CHANGE_DATA_PREVIEW_ID i q) s = Inr (change_data_preview_id i q s)"
| "sqlLabReducer e (COLLAPSE_TABLE t) s =
     Inr (s\<lparr>tables := alterInArr (tables s) t [(''expanded'', JBool False)] ''id''\<rparr>)"
| "sqlLabReducer e (REMOVE_TABLES ts) s = Inr (remove_tables ts s)"
| "sqlLabReducer e (COST_ESTIMATE_STARTED q) s = Inr (cost_estimate q False JNull JNull s)"
| "sqlLabReducer e (COST_ESTIMATE_RETURNED q json) s =
     Inr (cost_estimate q True (jget json ''result'') JNull s)"
| "sqlLabReducer e (COST_ESTIMATE_FAILED q err) s = Inr (cost_estimate q False JNull err s)"
| "sqlLabReducer e (START_QUERY q) s = Inr (start_query e q s)"
| "sqlLabReducer e (STOP_QUERY q) s =
     Inr (alter_query q [(''state'', qstate Stopped), (''results'', JArr [])] s)"
| "sqlLabReducer e (CLEAR_QUERY_RESULTS q) s =
     Inr (alter_query q
       [(''results'', JObj (obj_set ''data'' (JArr []) (obj_spread [] (entries_of (jget q ''results''))))),
        (''cached'', JBool True)] s)"
| "sqlLabReducer e (REQUEST_QUERY_RESULTS q) s =
     Inr (alter_query q [(''state'', qstate Fetching)] s)"
| "sqlLabReducer e (QUERY_SUCCESS q r) s = Inr (query_success e q r s)"
| "sqlLabReducer e (QUERY_FAILED q err m l) s = Inr (query_failed e q err m l s)"
| "sqlLabReducer e (SET_ACTIVE_QUERY_EDITOR qe) s = Inr (set_active_query_editor qe s)"
| "sqlLabReducer e (LOAD_QUERY_EDITOR qe) s = Inr (load_query_editor qe s)"
| "sqlLabReducer e (SET_TABLES ts) s =
     Inr (s\<lparr>tables := extendArr (nano e) (tables s) ts False\<rparr>)"
| "sqlLabReducer e (SET_ACTIVE_SOUTHPANE_TAB i) s = Inr (s\<lparr>activeSouthPaneTab := i\<rparr>)"
| "sqlLabReducer e (MIGRATE_QUERY_EDITOR old new) s =
     Inr (s\<lparr>queryEditors := alterInArr (queryEditors s) old new ''id''\<rparr>)"
| "sqlLabReducer e (MIGRATE_TABLE old new) s =
     Inr (s\<lparr>tables := addToArr (nano e 0) (removeFromArr (tables s) old ''id'') new False\<rparr>)"
| "sqlLabReducer e (MIGRATE_QUERY i editor) s =
     Inr (let q = obj_spread (or_none (obj_get (queries s) i)) [(''sqlEditorId'', editor)]
          in s\<lparr>queries := obj_set (key_of (jget q ''id'')) q (queries s)\<rparr>)"
| "sqlLabReducer e (SET_DATABASES dbs) s = set_databases e dbs s"
| "sqlLabReducer e (REFRESH_QUERIES altered) s = refresh_queries e altered s"
| "sqlLabReducer e (CLEAR_INACTIVE_QUERIES interval) s = Inr (clear_inactive_queries e interval s)"
| "sqlLabReducer e (SET_USER_OFFLINE v) s = Inr (s\<lparr>offline := v\<rparr>)"
| "sqlLabReducer e CREATE_DATASOURCE_STARTED s =
     Inr (s\<lparr>isDatasourceLoading := JBool True, errorMessage := JNull\<rparr>)"
| "sqlLabReducer e (CREATE_DATASOURCE_SUCCESS ds) s =
     Inr (s\<lparr>isDatasourceLoading := JBool False, errorMessage := JNull, datasource := ds\<rparr>)"
| "sqlLabReducer e (CREATE_DATASOURCE_FAILED err) s =
     Inr (s\<lparr>isDatasourceLoading := JBool False, errorMessage := err\<rparr>)"
| "sqlLabReducer e (SET_EDITOR_TAB_LAST_UPDATE t) s = Inr (s\<lparr>editorTabLastUpdatedAt := t\<rparr>)"
| "sqlLabReducer e (SET_LAST_UPDATED_ACTIVE_TAB i) s = Inr (s\<lparr>lastUpdatedActiveTab := i\<rparr>)"
| "sqlLabReducer e (EditorAction i a) s = Inr (editor_step e i a s)"

end
