(* ===== verification/SqlLabTabs.thy ===== *)
theory SqlLabTabs
  imports SqlLabState
begin

text \<open>
  The tabs of SQL Lab: the invariant that editors are distinct and the history names only open
  tabs, which every admissible action keeps, and the refinement of the setters to updates of the
  editor that a component sees.
\<close>

section \<open>The invariant of the tabs\<close>

definition editor_ids :: "sql_lab \<Rightarrow> jsval list" where
  "editor_ids s = map (\<lambda>qe. jget qe ''id'') (queryEditors s)"

text \<open>An identifier given by the server never is the identifier of another tab.\<close>

definition views_ok :: "jsobj list \<Rightarrow> bool" where
  "views_ok qes \<longleftrightarrow>
     (\<forall>qe \<in> set qes. \<forall>qe' \<in> set qes. view_id qe = jget qe' ''id'' \<longrightarrow> jget qe ''id'' = jget qe' ''id'')"

definition editors_ok :: "jsobj list \<Rightarrow> bool" where
  "editors_ok qes \<longleftrightarrow>
     distinct (map (\<lambda>qe. jget qe ''id'') qes) \<and> (\<forall>qe \<in> set qes. truthy (jget qe ''id'')) \<and> views_ok qes"

definition unsaved_ok :: "jsobj \<Rightarrow> bool" where
  "unsaved_ok qe \<longleftrightarrow> obj_ok qe \<and> ''tabViewId'' \<notin> fst ` set qe"

definition history_ok :: "jsobj list \<Rightarrow> jsval list \<Rightarrow> bool" where
  "history_ok qes history \<longleftrightarrow>
     set history \<subseteq> (\<lambda>qe. jget qe ''id'') ` set qes \<and> (qes \<noteq> [] \<longrightarrow> history \<noteq> [])"

definition tabs_ok :: "sql_lab \<Rightarrow> bool" where
  "tabs_ok s \<longleftrightarrow>
     editors_ok (queryEditors s) \<and> history_ok (queryEditors s) (tabHistory s) \<and>
     unsaved_ok (unsavedQueryEditor s)"

definition view_free :: "jsobj \<Rightarrow> sql_lab \<Rightarrow> bool" where
  "view_free qe s \<longleftrightarrow>
     nullish (jget qe ''tabViewId'') \<or> jget qe ''tabViewId'' \<notin> set (editor_ids s)"

fun tab_admissible :: "env \<Rightarrow> sql_action \<Rightarrow> sql_lab \<Rightarrow> bool" where
  "tab_admissible e (ADD_QUERY_EDITOR qe) s =
     (truthy (jget qe ''id'') \<and> nullish (jget qe ''tabViewId'') \<and>
      jget qe ''id'' \<notin> set (editor_ids s) \<union> view_id ` set (queryEditors s))"
| "tab_admissible e (CLONE_QUERY_TO_NEW_TAB q) s =
     (nano e 0 \<noteq> [] \<and> JStr (nano e 0) \<notin> set (editor_ids s) \<union> view_id ` set (queryEditors s))"
| "tab_admissible e (UPDATE_QUERY_EDITOR alts) s =
     (''id'' \<notin> fst ` set alts \<and> ''tabViewId'' \<notin> fst ` set alts)"
| "tab_admissible e (SET_ACTIVE_QUERY_EDITOR qe) s = (obj_ok qe \<and> view_free qe s)"
| "tab_admissible e (LOAD_QUERY_EDITOR qe) s = (obj_ok qe \<and> view_free qe s)"
| "tab_admissible e (MIGRATE_QUERY_EDITOR old new) s =
     (obj_ok new \<and> jget new ''id'' = jget old ''id'' \<and> view_free new s)"
| "tab_admissible e (RESET_STATE init) s = tabs_ok init"
| "tab_admissible e a s = True"

lemmas tabs_defs = tabs_ok_def editors_ok_def history_ok_def unsaved_ok_def

section \<open>Altering editors\<close>

text \<open>What an alteration may do to the identifiers of the editor it is applied to.\<close>

definition alt_ok :: "jsobj list \<Rightarrow> jsobj \<Rightarrow> jsobj \<Rightarrow> bool" where
  "alt_ok qes ob alts \<longleftrightarrow>
     same_key ''id'' ob alts \<and>
     (case map_of (rev alts) ''tabViewId'' of None \<Rightarrow> True
      | Some v \<Rightarrow> nullish v \<or> v \<notin> (\<lambda>qe. jget qe ''id'') ` set qes)"

lemma ids_alter:
  "alt_ok qes ob alts \<Longrightarrow>
   map (\<lambda>qe. jget qe ''id'') (alterInArr qes ob alts ''id'') = map (\<lambda>qe. jget qe ''id'') qes"
  by (rule alterInArr_keys) (simp add: alt_ok_def)

lemma ids_set_alter:
  assumes "alt_ok qes ob alts"
  shows "(\<lambda>qe. jget qe ''id'') ` set (alterInArr qes ob alts ''id'') = (\<lambda>qe. jget qe ''id'') ` set qes"
  using ids_alter [OF assms] by (metis list.set_map)

lemma alter_id:
  assumes "alt_ok qes ob alts" and "jget ob ''id'' = jget x ''id''"
  shows "jget (obj_spread x alts) ''id'' = jget x ''id''"
  using assms by (simp add: alt_ok_def same_key_def jget_spread split: option.splits)

lemma view_id_alter:
  assumes ok: "alt_ok qes ob alts" and x: "x \<in> set qes" and id: "jget ob ''id'' = jget x ''id''"
    and v: "view_id (obj_spread x alts) \<in> (\<lambda>qe. jget qe ''id'') ` set qes"
  shows "view_id (obj_spread x alts) = view_id x \<or> view_id (obj_spread x alts) = jget x ''id''"
proof -
  have i: "jget (obj_spread x alts) ''id'' = jget x ''id''" by (rule alter_id [OF ok id])
  show ?thesis
  proof (cases "map_of (rev alts) ''tabViewId''")
    case None
    then show ?thesis using i by (simp add: view_id_def jget_spread)
  next
    case (Some v')
    with ok v i show ?thesis
      by (auto simp: view_id_def jget_spread alt_ok_def js_coalesce_def split: if_splits)
  qed
qed

lemma views_ok_alter:
  assumes v: "views_ok qes" and ok: "alt_ok qes ob alts"
  shows "views_ok (alterInArr qes ob alts ''id'')"
  unfolding views_ok_def
proof (intro ballI impI)
  fix a b
  assume a: "a \<in> set (alterInArr qes ob alts ''id'')" and b: "b \<in> set (alterInArr qes ob alts ''id'')"
    and eq: "view_id a = jget b ''id''"
  from b have "jget b ''id'' \<in> (\<lambda>qe. jget qe ''id'') ` set (alterInArr qes ob alts ''id'')" by simp
  then have bi: "jget b ''id'' \<in> (\<lambda>qe. jget qe ''id'') ` set qes" by (simp only: ids_set_alter [OF ok])
  from a obtain x where x: "x \<in> set qes"
    and ax: "a = (if jget ob ''id'' = jget x ''id'' then obj_spread x alts else x)"
    unfolding alterInArr_def set_map by blast
  consider (changed) "jget ob ''id'' = jget x ''id''" "a = obj_spread x alts" | (same) "a = x"
    using ax by presburger
  then have av: "jget a ''id'' = jget x ''id'' \<and> (view_id a = view_id x \<or> view_id a = jget x ''id'')"
  proof cases
    case changed
    have "view_id (obj_spread x alts) \<in> (\<lambda>qe. jget qe ''id'') ` set qes"
      using bi unfolding eq [symmetric] changed(2) .
    from view_id_alter [OF ok x changed(1) this] alter_id [OF ok changed(1)] show ?thesis
      unfolding changed(2) by blast
  next
    case same
    then show ?thesis by blast
  qed
  then have ai: "jget a ''id'' = jget x ''id''" by blast
  from av have "view_id a = view_id x \<or> view_id a = jget x ''id''" by blast
  then show "jget a ''id'' = jget b ''id''"
  proof
    assume "view_id a = view_id x"
    moreover from bi obtain y where "y \<in> set qes" "jget b ''id'' = jget y ''id''" by blast
    ultimately show ?thesis using eq v x ai unfolding views_ok_def by metis
  next
    assume "view_id a = jget x ''id''"
    with eq ai show ?thesis by metis
  qed
qed

lemma editors_ok_alter:
  assumes "editors_ok qes" and "alt_ok qes ob alts"
  shows "editors_ok (alterInArr qes ob alts ''id'')"
proof -
  have "(\<forall>qe \<in> set qes'. truthy (jget qe ''id'')) \<longleftrightarrow> (\<forall>i \<in> (\<lambda>qe. jget qe ''id'') ` set qes'. truthy i)"
    for qes' by simp
  then show ?thesis
    using assms views_ok_alter [of qes ob alts] ids_alter [OF assms(2)] ids_set_alter [OF assms(2)]
    unfolding editors_ok_def by metis
qed

lemma history_ok_alter:
  assumes "history_ok qes history" and "alt_ok qes ob alts"
  shows "history_ok (alterInArr qes ob alts ''id'') history"
  using assms ids_set_alter [OF assms(2)] unfolding history_ok_def
  by (metis length_0_conv length_alterInArr)

lemma alt_ok_plain:
  "''id'' \<notin> fst ` set alts \<Longrightarrow> ''tabViewId'' \<notin> fst ` set alts \<Longrightarrow> alt_ok qes ob alts"
proof -
  assume "''id'' \<notin> fst ` set alts" "''tabViewId'' \<notin> fst ` set alts"
  then have "map_of (rev alts) ''id'' = None" "map_of (rev alts) ''tabViewId'' = None"
    by (simp_all add: map_of_eq_None_iff)
  then show ?thesis by (simp add: alt_ok_def same_key_def)
qed

lemma alt_ok_own:
  assumes "obj_ok alts" and "jget alts ''id'' = jget ob ''id''"
    and "nullish (jget alts ''tabViewId'') \<or> jget alts ''tabViewId'' \<notin> (\<lambda>qe. jget qe ''id'') ` set qes"
  shows "alt_ok qes ob alts"
  using assms by (auto simp: alt_ok_def same_key_def map_of_rev_ok jget_def split: option.splits)

lemma spread_Nil_ok: "obj_ok b \<Longrightarrow> obj_spread [] b = b"
proof -
  have "obj_ok (a @ b) \<Longrightarrow> obj_spread a b = a @ b" for a
  proof (induction b arbitrary: a)
    case Nil
    then show ?case by simp
  next
    case (Cons x b)
    obtain k v where x: "x = (k, v)" by (cases x)
    have "obj_set k v c = c @ [(k, v)]" if "k \<notin> fst ` set c" for c
      using that by (induction c) auto
    then have "obj_set k v a = a @ [x]"
      using Cons.prems x by (auto simp: obj_ok_def)
    with Cons x show ?case by simp
  qed
  then show "obj_ok b \<Longrightarrow> obj_spread [] b = b" by simp
qed

lemma alt_ok_unsaved:
  assumes "unsaved_ok u"
  shows "alt_ok qes u (obj_spread [] u)"
proof -
  have "jget u ''tabViewId'' = JUndef" using assms jget_absent by (auto simp: unsaved_ok_def)
  then show ?thesis
    using assms by (intro alt_ok_own) (auto simp: unsaved_ok_def spread_Nil_ok)
qed

lemma merge_unsaved_ok:
  assumes "tabs_ok s"
  shows "editors_ok (merge_unsaved s) \<and> history_ok (merge_unsaved s) (tabHistory s)"
  using assms editors_ok_alter history_ok_alter alt_ok_unsaved
  unfolding merge_unsaved_def tabs_ok_def by blast

lemma merge_unsaved_ids:
  "unsaved_ok (unsavedQueryEditor s) \<Longrightarrow>
   map (\<lambda>qe. jget qe ''id'') (merge_unsaved s) = editor_ids s"
  unfolding merge_unsaved_def editor_ids_def by (rule ids_alter) (rule alt_ok_unsaved)

lemma merge_unsaved_views:
  assumes "unsaved_ok (unsavedQueryEditor s)"
  shows "map view_id (merge_unsaved s) = map view_id (queryEditors s)"
proof -
  have "''tabViewId'' \<notin> fst ` set (obj_spread [] (unsavedQueryEditor s))"
    using assms by (simp add: unsaved_ok_def spread_Nil_ok)
  then have "map (\<lambda>qe. jget qe ''tabViewId'') (merge_unsaved s) = map (\<lambda>qe. jget qe ''tabViewId'') (queryEditors s)"
    unfolding merge_unsaved_def by (rule alterInArr_other_field)
  with merge_unsaved_ids [OF assms] show ?thesis
    unfolding view_id_def editor_ids_def
    by (simp add: list_eq_iff_nth_eq merge_unsaved_def)
qed

section \<open>The handlers keep the invariant\<close>

lemma tabs_ok_with_editors:
  "tabs_ok s \<Longrightarrow> alt_ok (queryEditors s) ob alts \<Longrightarrow>
   tabs_ok (s\<lparr>queryEditors := alterInArr (queryEditors s) ob alts ''id''\<rparr>)"
  using editors_ok_alter history_ok_alter by (simp add: tabs_ok_def)

lemma views_ok_snoc:
  assumes "views_ok qes" and "jget qe ''id'' \<notin> view_id ` set qes" and "view_id qe = jget qe ''id''"
  shows "views_ok (qes @ [qe])"
  unfolding views_ok_def
proof (intro ballI impI)
  fix a b
  assume ab: "a \<in> set (qes @ [qe])" "b \<in> set (qes @ [qe])" and eq: "view_id a = jget b ''id''"
  consider "a \<in> set qes" "b \<in> set qes" | "a = qe" | "a \<in> set qes" "b = qe" using ab by fastforce
  then show "jget a ''id'' = jget b ''id''"
  proof cases
    case 1
    with assms(1) eq show ?thesis unfolding views_ok_def by blast
  next
    case 2
    with assms(3) eq show ?thesis by metis
  next
    case 3
    then have "jget qe ''id'' \<in> view_id ` set qes" using eq by (metis image_eqI)
    with assms(2) show ?thesis by blast
  qed
qed

lemma add_ok:
  assumes ok: "tabs_ok s" and t: "truthy (jget qe ''id'')" and n: "nullish (jget qe ''tabViewId'')"
    and fresh: "jget qe ''id'' \<notin> set (editor_ids s) \<union> view_id ` set (queryEditors s)"
  shows "tabs_ok (add_query_editor e qe s)"
proof -
  let ?qe = "obj_set ''updatedAt'' (JNum (clock e)) qe"
  let ?m = "merge_unsaved s"
  have u: "unsaved_ok (unsavedQueryEditor s)" using ok by (simp add: tabs_ok_def)
  have ids: "(\<lambda>qe. jget qe ''id'') ` set ?m = set (editor_ids s)"
    using merge_unsaved_ids [OF u] by (metis list.set_map)
  have views: "view_id ` set ?m = view_id ` set (queryEditors s)"
    using merge_unsaved_views [OF u] by (metis list.set_map)
  have m: "editors_ok ?m" "history_ok ?m (tabHistory s)" using merge_unsaved_ok [OF ok] by auto
  have qe: "jget ?qe ''id'' = jget qe ''id''" "view_id ?qe = jget qe ''id''"
    using n by (simp_all add: view_id_def js_coalesce_def)
  have "editors_ok (?m @ [?qe])"
    using m(1) t fresh ids views qe views_ok_snoc [of ?m ?qe] by (auto simp: editors_ok_def)
  moreover have "history_ok (?m @ [?qe]) (tabHistory s @ [jget qe ''id''])"
    using m(2) qe by (auto simp: history_ok_def)
  ultimately show ?thesis
    using u t by (simp add: tabs_ok_def add_query_editor_def addToArr_def with_id_id)
qed

lemma clone_ok:
  assumes "tabs_ok s" and "nano e 0 \<noteq> []"
    and "JStr (nano e 0) \<notin> set (editor_ids s) \<union> view_id ` set (queryEditors s)"
  shows "tabs_ok (clone_query_to_new_tab e q s)"
proof -
  let ?s = "s\<lparr>unsavedQueryEditor := []\<rparr>"
  have ok: "tabs_ok ?s" using assms(1) by (simp add: tabs_ok_def unsaved_ok_def)
  have new: "jget (new_query_editor e qe) ''id'' = JStr (nano e 0)" for qe
    by (simp add: new_query_editor_def)
  have view: "jget (new_query_editor e qe) ''tabViewId'' = jget qe ''tabViewId''" for qe
    by (simp add: new_query_editor_def)
  show ?thesis
    unfolding clone_query_to_new_tab_def Let_def
    by (rule add_ok [OF ok]) (use assms(2,3) in \<open>simp_all add: new view editor_ids_def\<close>)
qed

lemma remove_ok:
  assumes ok: "tabs_ok s"
  shows "tabs_ok (remove_query_editor e qe s)"
proof -
  define rest where "rest = queryEditors (remove_query_editor e qe s)"
  have rest: "set rest \<subseteq> set (queryEditors s)" "distinct (map (\<lambda>qe. jget qe ''id'') rest)"
    using ok by (auto simp: rest_def remove_query_editor_def Let_def removeFromArr_def tabs_ok_def
        editors_ok_def distinct_map_filter)
  have ed: "editors_ok rest" using ok rest unfolding tabs_ok_def editors_ok_def views_ok_def by blast
  define history where "history = filter (\<lambda>i. i \<in> set (map view_id rest)) (tabHistory s)"
  have h: "tabHistory (remove_query_editor e qe s) =
      (if history = [] \<and> rest \<noteq> [] then [jget (last rest) ''id''] else history)"
    by (simp add: rest_def history_def remove_query_editor_def Let_def)
  have "i \<in> (\<lambda>qe. jget qe ''id'') ` set rest" if "i \<in> set history" for i
  proof -
    from that obtain a where a: "a \<in> set rest" "view_id a = i" by (auto simp: history_def)
    from that ok obtain b where b: "b \<in> set (queryEditors s)" "i = jget b ''id''"
      by (auto simp: history_def tabs_ok_def history_ok_def)
    have "jget a ''id'' = jget b ''id''"
      using ok a b rest(1) unfolding tabs_ok_def editors_ok_def views_ok_def by blast
    with a b show ?thesis by (metis image_eqI)
  qed
  then have "history_ok rest (tabHistory (remove_query_editor e qe s))"
    unfolding h history_ok_def by auto
  moreover have "unsaved_ok (unsavedQueryEditor (remove_query_editor e qe s))"
    using ok by (auto simp: remove_query_editor_def Let_def tabs_ok_def unsaved_ok_def obj_when_def
        spread_Nil_ok)
  ultimately show ?thesis using ed by (simp add: tabs_ok_def rest_def)
qed

lemma set_active_ok:
  assumes ok: "tabs_ok s" and qe: "obj_ok qe" "view_free qe s"
  shows "tabs_ok (set_active_query_editor qe s)"
proof (cases "jget qe ''id'' \<in> (\<lambda>q. jget q ''id'') ` set (queryEditors s) \<and> active_tab s \<noteq> jget qe ''id''")
  case False
  then show ?thesis using ok by (simp only: set_active_query_editor_def if_False)
next
  case True
  let ?u = "unsavedQueryEditor s" and ?m = "merge_unsaved s"
  have u: "unsaved_ok ?u" using ok by (simp add: tabs_ok_def)
  have ids: "(\<lambda>q. jget q ''id'') ` set ?m = (\<lambda>q. jget q ''id'') ` set (queryEditors s)"
    using merge_unsaved_ids [OF u] unfolding editor_ids_def by (metis list.set_map)
  have m: "editors_ok ?m" "history_ok ?m (tabHistory s)" using merge_unsaved_ok [OF ok] by auto
  have push: "history_ok qes (tabHistory s @ [jget qe ''id''])"
    if "history_ok qes (tabHistory s)" "(\<lambda>q. jget q ''id'') ` set qes = (\<lambda>q. jget q ''id'') ` set ?m" for qes
    using that True ids unfolding history_ok_def by auto
  have empty: "unsaved_ok []" by (simp add: unsaved_ok_def)
  show ?thesis
  proof (cases "jget qe ''id'' = jget ?u ''id''")
    case own: True
    have sp: "jget (obj_spread qe ?u) k = (if obj_get ?u k \<noteq> None then jget ?u k else jget qe k)" for k
      using u by (simp add: jget_spread_ok unsaved_ok_def)
    have "obj_get ?u ''tabViewId'' = None" using u by (simp add: unsaved_ok_def map_of_eq_None_iff)
    then have alt: "alt_ok ?m qe (obj_spread qe ?u)"
      using qe own ids by (intro alt_ok_own) (auto simp: sp view_free_def editor_ids_def)
    have "editors_ok (alterInArr ?m qe (obj_spread qe ?u) ''id'')" by (rule editors_ok_alter [OF m(1) alt])
    moreover have "history_ok (alterInArr ?m qe (obj_spread qe ?u) ''id'') (tabHistory s @ [jget qe ''id''])"
      by (rule push [OF history_ok_alter [OF m(2) alt] ids_set_alter [OF alt]])
    ultimately show ?thesis using True own empty by (simp add: set_active_query_editor_def tabs_ok_def)
  next
    case other: False
    then show ?thesis using True m empty push by (simp add: set_active_query_editor_def tabs_ok_def)
  qed
qed

lemma load_ok:
  assumes ok: "tabs_ok s" and qe: "obj_ok qe" "view_free qe s"
  shows "tabs_ok (load_query_editor qe s)"
proof -
  have u: "unsaved_ok (unsavedQueryEditor s)" using ok by (simp add: tabs_ok_def)
  have ids: "(\<lambda>q. jget q ''id'') ` set (merge_unsaved s) = (\<lambda>q. jget q ''id'') ` set (queryEditors s)"
    using merge_unsaved_ids [OF u] unfolding editor_ids_def by (metis list.set_map)
  have m: "editors_ok (merge_unsaved s)" "history_ok (merge_unsaved s) (tabHistory s)"
    using merge_unsaved_ok [OF ok] by auto
  have alt: "alt_ok (merge_unsaved s) qe (obj_spread [] qe)"
    using qe ids by (intro alt_ok_own) (auto simp: spread_Nil_ok view_free_def editor_ids_def)
  show ?thesis
    using ok editors_ok_alter [OF m(1) alt] history_ok_alter [OF m(2) alt]
    by (simp add: load_query_editor_def tabs_ok_def)
qed

lemma saved_ok:
  assumes "tabs_ok s" and "query_editor_saved q r c s = Inr s'"
  shows "tabs_ok s'"
proof (cases "find_editor s c")
  case None
  with assms show ?thesis by (simp add: query_editor_saved_def split: if_splits)
next
  case (Some existing)
  then have "s' = s\<lparr>queryEditors := alterInArr (queryEditors s) existing
      [(''remoteId'', jget r ''remoteId''), (''name'', jget q ''name'')] ''id''\<rparr>"
    using assms(2) by (simp add: query_editor_saved_def)
  then show ?thesis using tabs_ok_with_editors [OF assms(1) alt_ok_plain] by simp
qed

text \<open>An alteration by another key than the identifier may reach several editors.\<close>

lemma alter_plain_ok:
  assumes "editors_ok qes" and "''id'' \<notin> fst ` set alts" "''tabViewId'' \<notin> fst ` set alts"
  shows "editors_ok (alterInArr qes ob alts key) \<and>
         (\<lambda>qe. jget qe ''id'') ` set (alterInArr qes ob alts key) = (\<lambda>qe. jget qe ''id'') ` set qes"
proof -
  define f where "f = (\<lambda>x. if jget ob key = jget x key then obj_spread x alts else x)"
  have id: "jget (f x) ''id'' = jget x ''id''" "view_id (f x) = view_id x" for x
    using assms(2,3) unfolding f_def by (simp_all add: jget_spread_absent view_id_def)
  have arr: "alterInArr qes ob alts key = map f qes" unfolding alterInArr_def f_def by (rule refl)
  have ids: "map (\<lambda>qe. jget qe ''id'') (map f qes) = map (\<lambda>qe. jget qe ''id'') qes"
    unfolding map_map by (rule map_cong) (simp_all only: o_apply id)
  have "views_ok (map f qes)"
    using assms(1) unfolding views_ok_def editors_ok_def set_map ball_simps id by blast
  moreover have "\<forall>qe \<in> set (map f qes). truthy (jget qe ''id'')"
    using assms(1) unfolding editors_ok_def set_map ball_simps id by blast
  moreover have "distinct (map (\<lambda>qe. jget qe ''id'') (map f qes))"
    using assms(1) unfolding editors_ok_def ids by blast
  moreover from ids have "(\<lambda>qe. jget qe ''id'') ` set (map f qes) = (\<lambda>qe. jget qe ''id'') ` set qes"
    by (metis list.set_map)
  ultimately show ?thesis unfolding arr editors_ok_def by blast
qed

lemma update_ok:
  assumes ok: "tabs_ok s" and "''id'' \<notin> fst ` set alts" "''tabViewId'' \<notin> fst ` set alts"
  shows "tabs_ok (update_query_editor alts s)"
proof (cases "find (\<lambda>qe. jget qe ''remoteId'' = jget alts ''remoteId'') (queryEditors s)")
  case None
  then show ?thesis using ok by (simp add: update_query_editor_def)
next
  case (Some x)
  define new where "new = alterInArr (queryEditors s) x alts ''remoteId''"
  have "length new = length (queryEditors s)" by (simp add: new_def)
  then have "new \<noteq> [] \<longleftrightarrow> queryEditors s \<noteq> []" by auto
  moreover have "editors_ok new"
      "(\<lambda>qe. jget qe ''id'') ` set new = (\<lambda>qe. jget qe ''id'') ` set (queryEditors s)"
    using alter_plain_ok [OF _ assms(2,3), of "queryEditors s" x "''remoteId''"] ok
    unfolding new_def tabs_ok_def by blast+
  ultimately have "tabs_ok (s\<lparr>queryEditors := new\<rparr>)"
    using ok unfolding tabs_ok_def history_ok_def by simp
  with Some show ?thesis by (simp add: update_query_editor_def new_def)
qed

lemma keys_obj_when: "k \<notin> fst ` set b \<Longrightarrow> k \<notin> fst ` set (obj_when c b)"
  by (cases c) auto

definition plain_values :: "jsobj \<Rightarrow> bool" where
  "plain_values upd \<longleftrightarrow> {''id'', ''tabViewId'', ''updatedAt''} \<inter> fst ` set upd = {}"

lemma plain_setter_values: "plain_values (setter_values a)"
  by (cases a) (auto simp: plain_values_def obj_when_def)

lemma alter_unsaved_ok:
  assumes ok: "tabs_ok s" and upd: "plain_values upd"
    and s': "queryEditors s' = queryEditors s" "tabHistory s' = tabHistory s"
      "unsavedQueryEditor s' = unsavedQueryEditor s"
  shows "tabs_ok (apply_update (alterUnsavedQueryEditorState e s upd i silent) s')"
proof (cases "tabHistory s \<noteq> [] \<and> last (tabHistory s) \<noteq> i")
  case True
  have "alt_ok (queryEditors s) [(''id'', i)] upd"
    using upd by (intro alt_ok_plain) (auto simp: plain_values_def)
  with tabs_ok_with_editors [OF ok this] True s' show ?thesis
    by (simp add: apply_update_def alterUnsavedQueryEditorState_def tabs_ok_def)
next
  case False
  let ?u = "unsavedQueryEditor s"
  have "''tabViewId'' \<notin> fst ` set ?u" using ok by (simp add: tabs_ok_def unsaved_ok_def)
  then have "unsaved_ok (obj_spread (obj_spread (obj_spread [] (obj_when (jget ?u ''id'' = i) ?u))
      (if truthy i then obj_spread [(''id'', i)] upd else ?u))
      (obj_when (\<not> silent) [(''updatedAt'', JNum (clock e))]))"
    using upd by (auto simp: unsaved_ok_def keys_spread plain_values_def obj_when_def)
  with ok False s' show ?thesis
    by (auto simp: apply_update_def alterUnsavedQueryEditorState_def tabs_ok_def)
qed

lemma editor_step_ok: "tabs_ok s \<Longrightarrow> tabs_ok (editor_step e i a s)"
  using alter_unsaved_ok [OF _ plain_setter_values] by (simp add: editor_step_def set_editor_def)

lemma start_ok: "tabs_ok s \<Longrightarrow> tabs_ok (start_query e q s)"
  unfolding start_query_def Let_def by (rule alter_unsaved_ok) (auto simp: plain_values_def)

lemma migrate_ok:
  assumes "tabs_ok s" and "obj_ok new" and "jget new ''id'' = jget old ''id''" and "view_free new s"
  shows "tabs_ok (s\<lparr>queryEditors := alterInArr (queryEditors s) old new ''id''\<rparr>)"
  using assms by (intro tabs_ok_with_editors alt_ok_own) (auto simp: view_free_def editor_ids_def)

text \<open>The actions that leave the tabs alone.\<close>

lemma tabs_ok_cong:
  assumes "tabs_ok s" and "queryEditors s' = queryEditors s" and "tabHistory s' = tabHistory s"
    and "unsavedQueryEditor s' = unsavedQueryEditor s"
  shows "tabs_ok s'"
  using assms by (simp add: tabs_ok_def)

lemmas other_handlers = merge_table_def show_expanded_def remove_data_preview_def
  change_data_preview_id_def remove_tables_def cost_estimate_def alter_query_def query_success_def
  query_failed_def clear_inactive_queries_def Let_def

lemma merge_table_tabs:
  "queryEditors (merge_table e t q p s) = queryEditors s \<and>
   tabHistory (merge_table e t q p s) = tabHistory s \<and>
   unsavedQueryEditor (merge_table e t q p s) = unsavedQueryEditor s"
  by (simp add: merge_table_def show_expanded_def Let_def split: option.splits)

lemma tab_step_ok:
  assumes ok: "tabs_ok s" and adm: "tab_admissible e a s" and step: "sqlLabReducer e a s = Inr s'"
  shows "tabs_ok s'"
proof (cases a)
  case (ADD_QUERY_EDITOR qe)
  then show ?thesis using assms add_ok by auto
next
  case (QUERY_EDITOR_SAVED q r c)
  then show ?thesis using assms saved_ok by simp
next
  case (UPDATE_QUERY_EDITOR alts)
  then show ?thesis using assms update_ok by auto
next
  case (CLONE_QUERY_TO_NEW_TAB q)
  then show ?thesis using assms clone_ok by auto
next
  case (REMOVE_QUERY_EDITOR qe)
  then show ?thesis using assms remove_ok by auto
next
  case (SET_ACTIVE_QUERY_EDITOR qe)
  then show ?thesis using assms set_active_ok by auto
next
  case (LOAD_QUERY_EDITOR qe)
  then show ?thesis using assms load_ok by auto
next
  case (MIGRATE_QUERY_EDITOR old new)
  then show ?thesis using assms migrate_ok by auto
next
  case (START_QUERY q)
  then show ?thesis using assms start_ok by auto
next
  case (EditorAction i b)
  then show ?thesis using assms editor_step_ok by auto
next
  case (MERGE_TABLE t q p)
  then show ?thesis using ok step merge_table_tabs [of e t q p s] tabs_ok_cong by auto
next
  case (SET_DATABASES dbs)
  then show ?thesis using ok step tabs_ok_cong by (auto simp: set_databases_def rbind_eq_Inr)
next
  case (REFRESH_QUERIES altered)
  then show ?thesis using ok step tabs_ok_cong by (auto simp: refresh_queries_def rbind_eq_Inr)
qed (use assms tabs_ok_cong in \<open>auto simp: other_handlers\<close>)

interpretation tabs: guarded_reducer "\<lambda>a s. sqlLabReducer e a s" "tab_admissible e" tabs_ok for e
  by unfold_locales (rule tab_step_ok)

end
