(* ===== verification/SqlLabClaims.thy ===== *)
theory SqlLabClaims
  imports SqlLabTabs
begin

text \<open>
  The properties of the SQL Lab reducer: its tabs (opening, closing, activating, editing), the
  life cycle of queries (start, stop, success, polling, clean-up) and the table previews.
\<close>

section \<open>What a component sees of an editor\<close>

lemma jget_spread_case:
  "obj_ok b \<Longrightarrow> jget (obj_spread a b) k = (case obj_get b k of Some v \<Rightarrow> v | None \<Rightarrow> jget a k)"
  by (auto simp: jget_def obj_get_spread_ok split: option.splits)

lemma obj_ok_setter_values: "obj_ok (setter_values a)"
  by (cases a) (auto simp: obj_ok_def obj_when_def)

definition unsaved_active :: "sql_lab \<Rightarrow> bool" where
  "unsaved_active s \<longleftrightarrow>
     jget (unsavedQueryEditor s) ''id'' = JUndef \<or> jget (unsavedQueryEditor s) ''id'' = active_tab s"

definition objects_ok :: "sql_lab \<Rightarrow> bool" where
  "objects_ok s \<longleftrightarrow> list_all obj_ok (queryEditors s)"

lemma find_editor_ok: "objects_ok s \<Longrightarrow> obj_ok (or_none (find_editor s i))"
  by (auto simp: objects_ok_def list_all_iff find_editor_def or_none_def find_Some_iff
      split: option.splits)

lemma seen_value:
  assumes "objects_ok s" and "obj_ok (unsavedQueryEditor s)"
  shows "jget (getUpToDateQuery s i) k =
    (case (if i = jget (unsavedQueryEditor s) ''id'' then obj_get (unsavedQueryEditor s) k else None) of
       Some v \<Rightarrow> v
     | None \<Rightarrow> (case obj_get (or_none (find_editor s i)) k of
                 Some v \<Rightarrow> v | None \<Rightarrow> if k = ''id'' then i else JUndef))"
  using assms find_editor_ok [OF assms(1), of i]
  by (auto simp: getUpToDateQuery_def jget_spread_case split: option.split)

text \<open>What every setter is for: the setting it is to change, and the value that it is to have.\<close>

definition meant_setting :: "editor_action \<Rightarrow> string \<Rightarrow> jsval option" where
  "meant_setting a k =
     (case a of
        QUERY_EDITOR_SETDB v \<Rightarrow> if k = ''dbId'' then Some v else None
      | QUERY_EDITOR_SET_CATALOG v \<Rightarrow> if k = ''catalog'' then Some v else None
      | QUERY_EDITOR_SET_SCHEMA v \<Rightarrow> if k = ''schema'' then Some (if nullish v then JUndef else v) else None
      | QUERY_EDITOR_SET_TITLE v \<Rightarrow> if k = ''name'' then Some v else None
      | QUERY_EDITOR_SET_SQL v q \<Rightarrow>
          if k = ''sql'' then Some (if nullish v then JUndef else v)
          else if k = ''latestQueryId'' \<and> truthy q then Some q else None
      | QUERY_EDITOR_SET_CURSOR_POSITION v \<Rightarrow> if k = ''cursorPosition'' then Some v else None
      | QUERY_EDITOR_SET_QUERY_LIMIT v \<Rightarrow> if k = ''queryLimit'' then Some v else None
      | QUERY_EDITOR_SET_TEMPLATE_PARAMS v \<Rightarrow> if k = ''templateParams'' then Some v else None
      | QUERY_EDITOR_SET_SELECTED_TEXT v \<Rightarrow>
          if k = ''selectedText'' then Some (if nullish v then JUndef else v) else None
      | QUERY_EDITOR_SET_AUTORUN v \<Rightarrow> if k = ''autorun'' then Some v else None
      | QUERY_EDITOR_PERSIST_HEIGHT n m \<Rightarrow>
          if k = ''northPercent'' then Some n else if k = ''southPercent'' then Some m else None
      | QUERY_EDITOR_TOGGLE_LEFT_BAR v \<Rightarrow> if k = ''hideLeftBar'' then Some v else None)"

lemma setter_values_meant: "obj_get (setter_values a) k = meant_setting a k"
  by (cases a) (auto simp: meant_setting_def or_undefined_def js_coalesce_def obj_when_def)

text \<open>The settings of the edited tab afterwards. An edit of the active tab also stores its time, but
  for a change of the selected text.\<close>

definition seen_after :: "env \<Rightarrow> editor_action \<Rightarrow> bool \<Rightarrow> (string \<Rightarrow> jsval) \<Rightarrow> string \<Rightarrow> jsval" where
  "seen_after e a active seen k =
     (case meant_setting a k of
        Some v \<Rightarrow> v
      | None \<Rightarrow> if k = ''updatedAt'' \<and> active \<and> \<not> is_QUERY_EDITOR_SET_SELECTED_TEXT a
                then JNum (clock e) else seen k)"

lemma find_editor_alter:
  assumes "plain_values upd"
  shows "find_editor (s\<lparr>queryEditors := alterInArr (queryEditors s) [(''id'', i)] upd ''id''\<rparr>) j =
         map_option (\<lambda>qe. if i = j then obj_spread qe upd else qe) (find_editor s j)"
proof -
  have "map_of (rev upd) ''id'' = None"
    using assms by (auto simp: plain_values_def map_of_eq_None_iff)
  then have "same_key ''id'' [(''id'', i)] upd" by (simp add: same_key_def)
  from find_alterInArr [OF this] show ?thesis by (simp add: find_editor_def)
qed

lemma find_editor_id: "find_editor s i = Some qe \<Longrightarrow> jget qe ''id'' = i"
  by (auto simp: find_editor_def find_Some_iff)

lemma find_editor_mem: "i \<in> set (editor_ids s) \<Longrightarrow> \<exists>qe. find_editor s i = Some qe"
  by (cases "find_editor s i") (auto simp: find_editor_def find_None_iff editor_ids_def)

lemma editor_truthy: "tabs_ok s \<Longrightarrow> i \<in> set (editor_ids s) \<Longrightarrow> truthy i"
  by (auto simp: tabs_ok_def editors_ok_def editor_ids_def)

lemma editor_history: "tabs_ok s \<Longrightarrow> i \<in> set (editor_ids s) \<Longrightarrow> tabHistory s \<noteq> []"
  by (auto simp: tabs_ok_def history_ok_def editor_ids_def)

lemma setter_inactive:
  assumes ok: "tabs_ok s" and objs: "objects_ok s" and un: "unsaved_active s"
    and i: "i \<in> set (editor_ids s)" and inactive: "active_tab s \<noteq> i"
    and upd: "plain_values upd" "obj_ok upd"
  shows "jget (getUpToDateQuery (set_editor e upd i silent s) j) k =
    (if j = i then (case obj_get upd k of Some v \<Rightarrow> v | None \<Rightarrow> jget (getUpToDateQuery s i) k)
     else jget (getUpToDateQuery s j) k)"
proof -
  let ?s = "s\<lparr>queryEditors := alterInArr (queryEditors s) [(''id'', i)] upd ''id''\<rparr>"
  have s': "set_editor e upd i silent s = ?s"
    using editor_history [OF ok i] inactive
    by (simp add: set_editor_def apply_update_def alterUnsavedQueryEditorState_def active_tab_def)
  have objs': "objects_ok ?s"
    using objs by (auto simp: objects_ok_def list_all_iff alterInArr_def)
  have u: "obj_ok (unsavedQueryEditor s)" using ok by (simp add: tabs_ok_def unsaved_ok_def)
  then have u': "obj_ok (unsavedQueryEditor ?s)" by simp
  have notu: "i \<noteq> jget (unsavedQueryEditor s) ''id''"
    using un inactive editor_truthy [OF ok i] by (auto simp: unsaved_active_def)
  obtain qe where qe: "find_editor s i = Some qe" using find_editor_mem [OF i] ..
  note seen = s' seen_value [OF objs' u'] seen_value [OF objs u]
  show ?thesis
  proof (cases "j = i")
    case True
    show ?thesis
      unfolding seen True find_editor_alter [OF upd(1)] using notu qe upd(2)
      by (cases "obj_get upd k") (simp_all add: obj_get_spread_ok)
  next
    case False
    then have "find_editor ?s j = find_editor s j"
      unfolding find_editor_alter [OF upd(1)] by (cases "find_editor s j") simp_all
    then have same: "find_editor ?s j = find_editor s j" .
    show ?thesis unfolding seen same using False by simp
  qed
qed

lemma setter_active:
  assumes ok: "tabs_ok s" and objs: "objects_ok s" and un: "unsaved_active s"
    and i: "i \<in> set (editor_ids s)" and j: "j \<in> set (editor_ids s)" and active: "active_tab s = i"
    and upd: "plain_values upd" "obj_ok upd"
  shows "jget (getUpToDateQuery (set_editor e upd i silent s) j) k =
    (if j = i then (case obj_get upd k of Some v \<Rightarrow> v
       | None \<Rightarrow> if k = ''updatedAt'' \<and> \<not> silent then JNum (clock e) else jget (getUpToDateQuery s i) k)
     else jget (getUpToDateQuery s j) k)"
proof -
  define u where "u = unsavedQueryEditor s"
  define time where "time = obj_when (\<not> silent) [(''updatedAt'', JNum (clock e))]"
  define u' where "u' = obj_spread (obj_spread (obj_spread [] (obj_when (jget u ''id'' = i) u))
      (obj_spread [(''id'', i)] upd)) time"
  have s': "set_editor e upd i silent s = s\<lparr>unsavedQueryEditor := u'\<rparr>"
    using editor_history [OF ok i] active editor_truthy [OF ok i]
    by (simp add: set_editor_def apply_update_def alterUnsavedQueryEditorState_def active_tab_def
        u'_def u_def time_def)
  have uok: "obj_ok u" using ok by (simp add: tabs_ok_def unsaved_ok_def u_def)
  have tok: "obj_ok time" by (simp add: time_def obj_when_def obj_ok_def)
  have iok: "obj_ok (obj_spread [(''id'', i)] upd)" by (simp add: obj_ok_def [of "[_]"])
  have wok: "obj_ok (obj_when c u)" for c using uok by (simp add: obj_when_def)
  have "obj_ok u'" unfolding u'_def by simp
  have get: "obj_get u' k = (case obj_get time k of Some v \<Rightarrow> Some v | None \<Rightarrow>
      (case obj_get upd k of Some v \<Rightarrow> Some v | None \<Rightarrow> if k = ''id'' then Some i
        else if jget u ''id'' = i then obj_get u k else None))" for k
    unfolding u'_def
    by (simp add: obj_get_spread_ok tok iok wok upd(2) obj_when_def spread_Nil_ok [OF uok]
        split: option.split)
  have "obj_get upd ''id'' = None" using upd(1) by (simp add: plain_values_def map_of_eq_None_iff)
  then have id: "jget u' ''id'' = i" by (simp add: jget_def get time_def obj_when_def)
  have objs': "objects_ok (s\<lparr>unsavedQueryEditor := u'\<rparr>)" using objs by (simp add: objects_ok_def)
  have find: "find_editor (s\<lparr>unsavedQueryEditor := u'\<rparr>) j = find_editor s j" for j
    by (simp add: find_editor_def)
  note seen = seen_value [OF objs', simplified, OF \<open>obj_ok u'\<close>] seen_value [OF objs uok [unfolded u_def]]
  show ?thesis
  proof (cases "j = i")
    case True
    from un active have u: "jget u ''id'' = i \<or> jget u ''id'' = JUndef"
      by (auto simp: unsaved_active_def u_def)
    have iu: "i \<noteq> JUndef" using editor_truthy [OF ok i] by auto
    obtain qe where qe: "find_editor s i = Some qe" using find_editor_mem [OF i] ..
    show ?thesis
    proof (cases "k = ''id''")
      case k: True
      have "obj_get qe ''id'' = Some i"
        using find_editor_id [OF qe] iu by (auto simp: jget_def split: option.splits)
      moreover have "obj_get u ''id'' = Some i" if "jget u ''id'' = i"
        using that iu by (auto simp: jget_def split: option.splits)
      moreover have "obj_get upd ''id'' = None" "obj_get time ''id'' = None"
        using upd(1) by (auto simp: plain_values_def map_of_eq_None_iff time_def obj_when_def)
      ultimately show ?thesis
        unfolding s' seen find True k using id qe by (auto simp: get u_def)
    next
      case k: False
      have "obj_get upd ''updatedAt'' = None"
        using upd(1) by (auto simp: plain_values_def map_of_eq_None_iff)
      then have "obj_get u' k = (case obj_get upd k of Some v \<Rightarrow> Some v
          | None \<Rightarrow> if k = ''updatedAt'' \<and> \<not> silent then Some (JNum (clock e))
              else if jget u ''id'' = i then obj_get u k else None)"
        unfolding get using k by (auto simp: time_def obj_when_def split: option.split)
      then show ?thesis
        unfolding s' seen find True using k id u iu
        by (cases "obj_get upd k") (auto simp: u_def)
    qed
  next
    case False
    have "truthy j" using editor_truthy [OF ok j] .
    then have "j \<noteq> jget u ''id''" using un active False by (auto simp: unsaved_active_def u_def)
    with False show ?thesis unfolding s' seen find id by (simp add: u_def)
  qed
qed

section \<open>Editing and switching tabs\<close>

text \<open>A state with three tabs, the second active and with unsaved edits.\<close>

definition no_sql_lab :: sql_lab where
  "no_sql_lab = \<lparr>activeSouthPaneTab = JStr ''Results'', alerts = [], databases = [], dbConnect = False,
     offline = JBool False, queries = [], queryEditors = [], tabHistory = [], tables = [],
     queriesLastUpdate = 0, errorMessage = JNull, unsavedQueryEditor = [], queryCostEstimates = [],
     editorTabLastUpdatedAt = JNum 0, lastUpdatedActiveTab = JStr [], destroyedQueryEditors = [],
     isDatasourceLoading = JUndef, datasource = JUndef\<rparr>"

definition tab :: "string \<Rightarrow> string \<Rightarrow> jsobj" where
  "tab i n = [(''id'', JStr i), (''name'', JStr n)]"

definition sample_lab :: sql_lab where
  "sample_lab = no_sql_lab\<lparr>queryEditors := [tab ''a'' ''A'', tab ''b'' ''B'', tab ''c'' ''C''],
     tabHistory := [JStr ''a'', JStr ''b''], unsavedQueryEditor := [(''id'', JStr ''b''), (''sql'', JStr ''x'')]\<rparr>"

definition sample_env :: env where
  "sample_env = \<lparr>clock = 100, nano = (\<lambda>n. if n = 0 then ''n0'' else ''n1''), copy_of = (\<lambda>v. ''copy''),
     json_parse = (\<lambda>s. None), date_parse = (\<lambda>s. Some (int (length s))), to_number = (\<lambda>v. v),
     is_equal = (=), shallow_equal = (=)\<rparr>"

lemmas sample_simps = sample_lab_def no_sql_lab_def tab_def sample_env_def

lemma sample_lab_ok: "tabs_ok sample_lab" "objects_ok sample_lab" "unsaved_active sample_lab"
  by (simp_all add: sample_simps tabs_ok_def editors_ok_def views_ok_def view_id_def js_coalesce_def
      history_ok_def unsaved_ok_def obj_ok_def objects_ok_def unsaved_active_def active_tab_def)

text \<open>C24: provided that the unsaved edits belong to the active tab (opening a tab breaks this, see
  \<open>renaming_in_the_background_is_hidden\<close>), a setter that does not repeat the text of the unsaved edits
  changes, of what components see of its tab, active or not, exactly the setting it is for, to the
  value it is given, and, when the tab is active, the time of the edit; of the other tabs components
  see the same as before. The proviso and the order of the tabs are kept.\<close>

theorem editor_settings_take_effect:
  assumes "tabs_ok s" and "objects_ok s" and "unsaved_active s"
    and "i \<in> set (editor_ids s)" and "j \<in> set (editor_ids s)" and "\<not> no_edit s i a"
  shows "\<exists>s'. sqlLabReducer e (EditorAction i a) s = Inr s' \<and> tabs_ok s' \<and> unsaved_active s' \<and>
    jget (getUpToDateQuery s' j) k =
      (if j = i then seen_after e a (active_tab s = i) (jget (getUpToDateQuery s i)) k
       else jget (getUpToDateQuery s j) k)"
proof -
  let ?s = "set_editor e (setter_values a) i (is_silent a) s"
  have step: "sqlLabReducer e (EditorAction i a) s = Inr ?s" using assms(6) by (simp add: editor_step_def)
  moreover have "tabs_ok ?s" using tab_step_ok [OF assms(1) _ step] by simp
  moreover have "unsaved_active ?s"
  proof (cases "active_tab s = i")
    case True
    have id: "obj_get (setter_values a) ''id'' = None"
      using plain_setter_values [of a] by (simp add: plain_values_def map_of_eq_None_iff)
    show ?thesis
      using True editor_history [OF assms(1,4)] editor_truthy [OF assms(1,4)]
      by (simp add: set_editor_def apply_update_def alterUnsavedQueryEditorState_def active_tab_def
          unsaved_active_def jget_def obj_get_spread_ok obj_ok_setter_values obj_ok_def [of "[_]"]
          obj_when_def id split: option.split)
  next
    case False
    then show ?thesis
      using assms(3) editor_history [OF assms(1,4)]
      by (simp add: set_editor_def apply_update_def alterUnsavedQueryEditorState_def active_tab_def
          unsaved_active_def)
  qed
  moreover have "jget (getUpToDateQuery ?s j) k =
      (if j = i then seen_after e a (active_tab s = i) (jget (getUpToDateQuery s i)) k
       else jget (getUpToDateQuery s j) k)"
    using setter_active [OF assms(1-5) _ plain_setter_values obj_ok_setter_values]
      setter_inactive [OF assms(1-4) _ plain_setter_values obj_ok_setter_values]
    by (cases "active_tab s = i"; cases "meant_setting a k")
      (auto simp: seen_after_def setter_values_meant is_silent_def)
  ultimately show ?thesis by blast
qed

theorem editor_settings_take_effect_witness:
  "\<exists>s'. sqlLabReducer sample_env (EditorAction (JStr ''c'') (QUERY_EDITOR_SET_TITLE (JStr ''new''))) sample_lab
       = Inr s' \<and> jget (getUpToDateQuery s' (JStr ''c'')) ''name'' = JStr ''new''"
proof -
  have "JStr ''c'' \<in> set (editor_ids sample_lab)" by (simp add: sample_simps editor_ids_def)
  moreover have "\<not> no_edit sample_lab (JStr ''c'') (QUERY_EDITOR_SET_TITLE (JStr ''new''))"
    by (simp add: no_edit_def)
  ultimately show ?thesis
    using editor_settings_take_effect [OF sample_lab_ok, of "JStr ''c''" "JStr ''c''"
        "QUERY_EDITOR_SET_TITLE (JStr ''new'')" sample_env "''name''"]
    by (auto simp: seen_after_def meant_setting_def)
qed

text \<open>C25: every run of admissible actions (new tabs get unused identifiers, updates and
  migrations keep the identifiers of tabs, no view identifier is set to the identifier of a tab, a reset
  brings a state whose tabs are in order) from a state whose tabs are in order leads to such a state:
  the identifiers of the tabs are distinct, the history names open tabs only (a tab that was activated
  again is named again), and while a tab is open the history is not empty, so that one of the tabs is
  active.\<close>

theorem tabs_stay_in_order:
  assumes "tabs_ok s" and "run_ok (tab_admissible e) (\<lambda>a s. sqlLabReducer e a s) as s"
    and "rfold (\<lambda>s a. sqlLabReducer e a s) s as = Inr s'"
  shows "tabs_ok s' \<and> (queryEditors s' = [] \<or> active_tab s' \<in> set (editor_ids s'))"
proof -
  have ok: "tabs_ok s'" by (rule tabs.run_inv [OF assms(2,1,3)])
  then have "active_tab s' \<in> set (editor_ids s')" if "queryEditors s' \<noteq> []"
    using that last_in_set [of "tabHistory s'"]
    by (auto simp: tabs_ok_def history_ok_def active_tab_def editor_ids_def subset_iff)
  with ok show ?thesis by blast
qed

theorem tabs_stay_in_order_witness:
  "\<exists>s'. rfold (\<lambda>s a. sqlLabReducer sample_env a s) sample_lab
       [ADD_QUERY_EDITOR (tab ''d'' ''D''), REMOVE_QUERY_EDITOR (tab ''b'' ''B'')] = Inr s' \<and> tabs_ok s'"
proof -
  let ?as = "[ADD_QUERY_EDITOR (tab ''d'' ''D''), REMOVE_QUERY_EDITOR (tab ''b'' ''B'')]"
  have "run_ok (tab_admissible sample_env) (\<lambda>a s. sqlLabReducer sample_env a s) ?as sample_lab"
    by (simp add: sample_simps editor_ids_def view_id_def js_coalesce_def)
  moreover obtain s' where "rfold (\<lambda>s a. sqlLabReducer sample_env a s) sample_lab ?as = Inr s'" by simp
  ultimately show ?thesis using tabs_stay_in_order [OF sample_lab_ok(1)] by blast
qed

section \<open>Closing tabs\<close>

lemma removed_tab:
  assumes "unsaved_ok (unsavedQueryEditor s)" and "obj_ok qe"
  defines "full \<equiv> obj_spread (obj_spread [] qe)
    (obj_when (jget qe ''id'' = jget (unsavedQueryEditor s) ''id'') (unsavedQueryEditor s))"
  shows "jget full ''id'' = jget qe ''id''" and "jget full ''tabViewId'' = jget qe ''tabViewId''"
    and "view_id full = view_id qe"
proof -
  let ?u = "unsavedQueryEditor s"
  have u: "obj_ok ?u" "obj_get ?u ''tabViewId'' = None"
    using assms(1) by (simp_all add: unsaved_ok_def map_of_eq_None_iff)
  show id: "jget full ''id'' = jget qe ''id''"
    unfolding full_def spread_Nil_ok [OF assms(2)] using u(1)
    by (cases "jget qe ''id'' = jget ?u ''id''"; cases "obj_get ?u ''id''")
      (auto simp: obj_when_def jget_spread_case jget_def [of ?u])
  show view: "jget full ''tabViewId'' = jget qe ''tabViewId''"
    unfolding full_def spread_Nil_ok [OF assms(2)] using u
    by (simp add: obj_when_def jget_spread_case)
  show "view_id full = view_id qe" by (simp only: view_id_def id view)
qed

lemma last_map_id: "qes \<noteq> [] \<Longrightarrow> jget (last qes) ''id'' = last (map (\<lambda>qe. jget qe ''id'') qes)"
  by (simp add: last_map)

lemma removed_state:
  fixes e :: env
  assumes ok: "tabs_ok s" and qe: "obj_ok qe"
  defines "s' \<equiv> remove_query_editor e qe s"
  shows "queryEditors s' = filter (\<lambda>x. jget x ''id'' \<noteq> jget qe ''id'') (queryEditors s)"
    and "tabHistory s' =
      (let h = filter (\<lambda>i. i \<in> view_id ` set (queryEditors s')) (tabHistory s)
       in if h = [] \<and> queryEditors s' \<noteq> [] then [jget (last (queryEditors s')) ''id''] else h)"
    and "tables s' = filter (\<lambda>t. jget t ''queryEditorId'' \<noteq> view_id qe) (tables s)"
    and "queries s' = filter (\<lambda>(_, q). jget q ''sqlEditorId'' \<in> view_id ` set (queryEditors s')) (queries s)"
    and "unsavedQueryEditor s' =
      (if jget qe ''id'' = jget (unsavedQueryEditor s) ''id'' then [] else unsavedQueryEditor s)"
proof -
  have u: "unsaved_ok (unsavedQueryEditor s)" using ok by (simp add: tabs_ok_def)
  note full = removed_tab [OF u qe]
  show rest: "queryEditors s' = filter (\<lambda>x. jget x ''id'' \<noteq> jget qe ''id'') (queryEditors s)"
    unfolding s'_def remove_query_editor_def Let_def removeFromArr_def
    by (simp add: full) (metis (no_types))
  show "tabHistory s' =
      (let h = filter (\<lambda>i. i \<in> view_id ` set (queryEditors s')) (tabHistory s)
       in if h = [] \<and> queryEditors s' \<noteq> [] then [jget (last (queryEditors s')) ''id''] else h)"
    unfolding s'_def remove_query_editor_def Let_def by simp
  show "tables s' = filter (\<lambda>t. jget t ''queryEditorId'' \<noteq> view_id qe) (tables s)"
    unfolding s'_def remove_query_editor_def Let_def by (simp add: full)
  show "queries s' = filter (\<lambda>(_, q). jget q ''sqlEditorId'' \<in> view_id ` set (queryEditors s')) (queries s)"
    unfolding s'_def remove_query_editor_def Let_def by simp
  show "unsavedQueryEditor s' =
      (if jget qe ''id'' = jget (unsavedQueryEditor s) ''id'' then [] else unsavedQueryEditor s)"
    using u unfolding s'_def remove_query_editor_def Let_def
    by (simp add: obj_when_def spread_Nil_ok unsaved_ok_def)
qed

text \<open>C26: in a state whose tabs are in order, when no tab has a view identifier other than its
  own identifier (the tabs are not stored on the server, or were loaded from it), closing a tab removes
  it from the editors and from the history, and with it its table previews and the queries of no open
  tab; the history of the other tabs stays, so the tab that was active last before becomes active, or
  the last one when there is none; the other tabs and their unsaved edits stay.\<close>

theorem closing_a_tab:
  assumes "tabs_ok s" and "obj_ok qe"
    and "list_all (\<lambda>x. view_id x = jget x ''id'') (qe # queryEditors s)"
    and "sqlLabReducer e (REMOVE_QUERY_EDITOR qe) s = Inr s'"
  shows "queryEditors s' = filter (\<lambda>x. jget x ''id'' \<noteq> jget qe ''id'') (queryEditors s) \<and>
    tabHistory s' =
      (let h = filter (\<lambda>i. i \<noteq> jget qe ''id'') (tabHistory s)
       in if h = [] \<and> queryEditors s' \<noteq> [] then [last (editor_ids s')] else h) \<and>
    tables s' = filter (\<lambda>t. jget t ''queryEditorId'' \<noteq> jget qe ''id'') (tables s) \<and>
    queries s' = filter (\<lambda>(_, q). jget q ''sqlEditorId'' \<in> set (editor_ids s')) (queries s) \<and>
    unsavedQueryEditor s' =
      (if jget qe ''id'' = jget (unsavedQueryEditor s) ''id'' then [] else unsavedQueryEditor s)"
proof -
  have s': "s' = remove_query_editor e qe s" using assms(4) by simp
  note st = removed_state [OF assms(1,2), of e, folded s']
  have "view_id x = jget x ''id''" if "x \<in> set (queryEditors s')" for x
    using that assms(3) unfolding st(1) by (auto simp: list_all_iff)
  then have views: "view_id ` set (queryEditors s') = set (editor_ids s')"
    unfolding editor_ids_def by (simp cong: image_cong_simp)
  have own: "view_id qe = jget qe ''id''" using assms(3) by simp
  have "filter (\<lambda>i. i \<in> set (editor_ids s')) (tabHistory s) = filter (\<lambda>i. i \<noteq> jget qe ''id'') (tabHistory s)"
    using assms(1) by (intro filter_cong) (auto simp: editor_ids_def st(1) tabs_ok_def history_ok_def)
  then have "tabHistory s' =
      (let h = filter (\<lambda>i. i \<noteq> jget qe ''id'') (tabHistory s)
       in if h = [] \<and> queryEditors s' \<noteq> [] then [last (editor_ids s')] else h)"
    unfolding st(2) views Let_def using last_map_id by (simp add: editor_ids_def)
  then show ?thesis using st(1,3,4,5) unfolding views own by simp
qed

theorem closing_a_tab_witness:
  "\<exists>s'. sqlLabReducer sample_env (REMOVE_QUERY_EDITOR (tab ''b'' ''B'')) sample_lab = Inr s' \<and>
     tabHistory s' = [JStr ''a'']"
proof -
  let ?s = "remove_query_editor sample_env (tab ''b'' ''B'') sample_lab"
  have "obj_ok (tab ''b'' ''B'')" "list_all (\<lambda>x. view_id x = jget x ''id'') (tab ''b'' ''B'' # queryEditors sample_lab)"
    by (simp_all add: sample_simps obj_ok_def view_id_def js_coalesce_def)
  moreover have "sqlLabReducer sample_env (REMOVE_QUERY_EDITOR (tab ''b'' ''B'')) sample_lab = Inr ?s" by simp
  ultimately have "tabHistory ?s =
      (let h = filter (\<lambda>i. i \<noteq> jget (tab ''b'' ''B'') ''id'') (tabHistory sample_lab)
       in if h = [] \<and> queryEditors ?s \<noteq> [] then [last (editor_ids ?s)] else h)"
    using closing_a_tab [OF sample_lab_ok(1)] by blast
  then show ?thesis by (simp add: sample_simps)
qed

text \<open>C27: the history holds the identifiers of the tabs, but closing a tab keeps the entries that
  are the view identifiers of the tabs left. So when, in a state whose tabs are in order, every tab has
  a view identifier other than its own identifier, as the tabs have that were opened in the page and
  then stored on the server (not those loaded from it), closing any tab, an inactive one too, empties
  the history and activates the last tab.\<close>

theorem closing_a_saved_tab_forgets_history:
  assumes "tabs_ok s" and "obj_ok qe"
    and "list_all (\<lambda>x. view_id x \<noteq> jget x ''id'') (queryEditors s)"
    and "sqlLabReducer e (REMOVE_QUERY_EDITOR qe) s = Inr s'" and "queryEditors s' \<noteq> []"
  shows "tabHistory s' = [last (editor_ids s')]"
proof -
  have s': "s' = remove_query_editor e qe s" using assms(4) by simp
  note st = removed_state [OF assms(1,2), of e, folded s']
  have "i \<notin> view_id ` set (queryEditors s')" if i: "i \<in> set (tabHistory s)" for i
  proof
    assume "i \<in> view_id ` set (queryEditors s')"
    then obtain x where x: "x \<in> set (queryEditors s)" "i = view_id x" by (auto simp: st(1))
    from i assms(1) obtain y where y: "y \<in> set (queryEditors s)" "i = jget y ''id''"
      by (auto simp: tabs_ok_def history_ok_def)
    have "jget x ''id'' = jget y ''id''"
      using assms(1) x y unfolding tabs_ok_def editors_ok_def views_ok_def by metis
    with assms(3) x y show False by (simp add: list_all_iff) metis
  qed
  then have "filter (\<lambda>i. i \<in> view_id ` set (queryEditors s')) (tabHistory s) = []"
    by (simp add: filter_empty_conv)
  then show ?thesis using st(2) assms(5) last_map_id by (simp add: editor_ids_def)
qed

definition saved_lab :: sql_lab where
  "saved_lab = no_sql_lab\<lparr>queryEditors := [(''tabViewId'', JStr ''1'') # tab ''a'' ''A'',
       (''tabViewId'', JStr ''2'') # tab ''b'' ''B'', (''tabViewId'', JStr ''3'') # tab ''c'' ''C''],
     tabHistory := [JStr ''a'', JStr ''b'']\<rparr>"

theorem closing_a_saved_tab_forgets_history_witness:
  "active_tab saved_lab = JStr ''b'' \<and>
   (\<exists>s'. sqlLabReducer sample_env (REMOVE_QUERY_EDITOR (tab ''a'' ''A'')) saved_lab = Inr s' \<and>
         active_tab s' = JStr ''c'')"
proof -
  let ?s = "remove_query_editor sample_env (tab ''a'' ''A'') saved_lab"
  have ok: "tabs_ok saved_lab" "obj_ok (tab ''a'' ''A'')"
      "list_all (\<lambda>x. view_id x \<noteq> jget x ''id'') (queryEditors saved_lab)"
    by (simp_all add: saved_lab_def sample_simps tabs_ok_def editors_ok_def views_ok_def view_id_def
        js_coalesce_def history_ok_def unsaved_ok_def obj_ok_def)
  have rest: "editor_ids ?s = [JStr ''b'', JStr ''c'']"
    unfolding editor_ids_def removed_state(1) [OF ok(1,2)] by (simp add: saved_lab_def sample_simps)
  then have "queryEditors ?s \<noteq> []" by (auto simp: editor_ids_def)
  with closing_a_saved_tab_forgets_history [OF ok, of sample_env ?s] rest
  show ?thesis by (simp add: active_tab_def saved_lab_def no_sql_lab_def)
qed

text \<open>opening a tab merges the unsaved edits of the tab that was active but does not clear them.
  If that tab was renamed while it was active and is renamed again in the background, the editor gets
  the new name while components still see the old one.\<close>

theorem renaming_in_the_background_is_hidden:
  "\<exists>s'. rfold (\<lambda>s a. sqlLabReducer e a s) sample_lab
      [EditorAction (JStr ''b'') (QUERY_EDITOR_SET_TITLE first), ADD_QUERY_EDITOR (tab ''d'' ''D''),
       EditorAction (JStr ''b'') (QUERY_EDITOR_SET_TITLE second)] = Inr s' \<and>
    map_option (\<lambda>qe. jget qe ''name'') (find_editor s' (JStr ''b'')) = Some second \<and>
    jget (getUpToDateQuery s' (JStr ''b'')) ''name'' = first"
  by (simp add: sample_simps editor_step_def no_edit_def set_editor_def apply_update_def is_silent_def
      alterUnsavedQueryEditorState_def add_query_editor_def merge_unsaved_def alterInArr_def
      addToArr_def with_id_def find_editor_def getUpToDateQuery_def)

end
