(* ===== verification/SqlLabQueries.thy ===== *)
theory SqlLabQueries
  imports SqlLabClaims
begin

text \<open>
  The properties of SQL Lab's queries, from their start over their success, failure or cancellation
  to polling and clean-up, of the table previews, and of switching between tabs.
\<close>

section \<open>The life cycle of a query\<close>

definition query_state_of :: "sql_lab \<Rightarrow> jsobj \<Rightarrow> jsval" where
  "query_state_of s q = jget (or_none (obj_get (queries s) (key_of (jget q ''id'')))) ''state''"

lemma alter_query_get:
  "obj_get (queries (alter_query q alts s)) k =
     (if k = key_of (jget q ''id'') then Some (obj_spread (or_none (obj_get (queries s) k)) alts)
      else obj_get (queries s) k)"
  by (simp add: alter_query_def alterInObject_get)

lemma query_success_state:
  assumes "jget q ''state'' \<noteq> qstate Stopped" and "chain r ''status'' = qstate Success"
  shows "query_state_of (query_success e q r s) q = qstate Success"
  using assms by (simp add: query_success_def query_state_of_def Let_def alter_query_get obj_when_def)

text \<open>A query that is stopped and answered by the server afterwards ends as a success: the guard
  against this race looks at the query that the action carries, which is the one the request was
  made for, and not at the query in the state.\<close>

theorem late_success_overwrites_stop:
  assumes "jget q ''state'' \<noteq> qstate Stopped" and "chain r ''status'' = qstate Success"
  shows "\<exists>s1 s2. sqlLabReducer e (STOP_QUERY q) s = Inr s1 \<and> query_state_of s1 q = qstate Stopped \<and>
    sqlLabReducer e (QUERY_SUCCESS q r) s1 = Inr s2 \<and> query_state_of s2 q = qstate Success"
  using query_success_state [OF assms] by (simp add: query_state_of_def alter_query_get)

definition sample_query :: jsobj where
  "sample_query = [(''id'', JStr ''q1''), (''state'', qstate Pending), (''sqlEditorId'', JStr ''b'')]"

theorem late_success_overwrites_stop_witness:
  "\<exists>s1 s2. sqlLabReducer sample_env (STOP_QUERY sample_query) sample_lab = Inr s1 \<and>
    sqlLabReducer sample_env (QUERY_SUCCESS sample_query (JObj [(''status'', qstate Success)])) s1 = Inr s2 \<and>
    query_state_of s2 sample_query = qstate Success"
proof -
  have "jget sample_query ''state'' \<noteq> qstate Stopped" by (simp add: sample_query_def)
  moreover have "chain (JObj [(''status'', qstate Success)]) ''status'' = qstate Success" by simp
  ultimately show ?thesis using late_success_overwrites_stop by blast
qed

section \<open>Polling\<close>

definition agrees :: "jsobj \<Rightarrow> jsobj \<Rightarrow> bool" where
  "agrees a b \<longleftrightarrow> (\<forall>k. jget a k = jget b k)"

text \<open>What the polling relies on of \<open>shallowEqual\<close> and \<open>isEqual\<close>: objects that compare equal have
  the same properties.\<close>

definition equality_laws :: "env \<Rightarrow> bool" where
  "equality_laws e \<longleftrightarrow>
     (\<forall>a b. shallow_equal e a b \<longrightarrow> agrees a b) \<and> (\<forall>v w. is_equal e v w \<longrightarrow> v = w)"

lemma unchanged_agrees:
  assumes "equality_laws e" and "unchanged_query e old q = Inr True"
  shows "\<exists>q'. old = Some q' \<and> agrees q' q"
proof -
  from assms(2) obtain q' where old: "old = Some q'" and sh: "shallow_equal e (obj_del ''extra'' q) (obj_del ''extra'' q')"
    and ex: "is_equal e (jget q ''extra'') (jget q' ''extra'')"
    by (auto simp: unchanged_query_def rbind_eq_Inr split: if_splits)
  from assms(1) sh have "agrees (obj_del ''extra'' q) (obj_del ''extra'' q')" by (simp add: equality_laws_def)
  then have "jget q k = jget q' k" if "k \<noteq> ''extra''" for k
    using that unfolding agrees_def jget_obj_del by (metis (full_types))
  moreover have "jget q ''extra'' = jget q' ''extra''" using assms(1) ex by (simp add: equality_laws_def)
  ultimately show ?thesis using old unfolding agrees_def by metis
qed

text \<open>The effect of polling on one query, given how it was and what the server says of it.\<close>

definition polled_ok ::
    "env \<Rightarrow> jsobj option \<Rightarrow> jsobj option \<Rightarrow> jsobj option \<Rightarrow> bool \<Rightarrow> bool" where
  "polled_ok e old changed new change \<longleftrightarrow>
     (case changed of
        None \<Rightarrow> True
      | Some ch \<Rightarrow> not_polled old \<or>
          (\<exists>q. new = Some q \<and> agrees q (merge_polled e old ch) \<and> (change \<or> old = Some q)))"

lemma refresh_query_cases:
  assumes "equality_laws e" and "refresh_query e qs (new, c, u) (i, ch) = Inr (new', c', u')"
  shows "u \<le> u' \<and> (c' \<or> \<not> c) \<and> (\<forall>k. k \<noteq> i \<longrightarrow> obj_get new' k = obj_get new k) \<and>
    (if not_polled (obj_get qs i) then new' = new \<and> c' = c
     else polled_ok e (obj_get qs i) (Some ch) (obj_get new' i) c')"
proof (cases "not_polled (obj_get qs i)")
  case True
  with assms(2) show ?thesis by (simp add: refresh_query_def)
next
  case False
  define q where "q = merge_polled e (obj_get qs i) ch"
  obtain ts where ts: "changed_at e ch = Inr ts"
    using False assms(2) by (cases "changed_at e ch") (auto simp: refresh_query_def Let_def)
  obtain same where same: "unchanged_query e (obj_get qs i) q = Inr same"
    using False assms(2) ts
    by (cases "unchanged_query e (obj_get qs i) q") (auto simp: refresh_query_def Let_def q_def)
  have eq: "(new', c', u') =
      (if same then obj_set i (or_none (obj_get qs i)) new else obj_set i q new, c \<or> \<not> same,
       case ts of Some t \<Rightarrow> if t > u then t else u | None \<Rightarrow> u)"
    using False assms(2) ts same by (auto simp: refresh_query_def Let_def q_def)
  then have new': "new' = (if same then obj_set i (or_none (obj_get qs i)) new else obj_set i q new)"
    and c': "c' = (c \<or> \<not> same)"
    and u': "u' = (case ts of Some t \<Rightarrow> if t > u then t else u | None \<Rightarrow> u)"
    by blast+
  have "u \<le> u'" by (simp add: u' split: option.split)
  moreover have "polled_ok e (obj_get qs i) (Some ch) (obj_get new' i) c'"
  proof (cases same)
    case True
    with unchanged_agrees [OF assms(1)] same obtain q' where "obj_get qs i = Some q'" "agrees q' q" by auto
    with True show ?thesis by (simp add: polled_ok_def new' q_def)
  next
    case same: False
    then show ?thesis by (simp add: polled_ok_def new' c' q_def [symmetric] agrees_def)
  qed
  ultimately show ?thesis using False by (auto simp: new' c')
qed

lemma refresh_fold:
  assumes laws: "equality_laws e"
  shows "rfold (refresh_query e qs) (new, c, u) xs = Inr (new', c', u') \<Longrightarrow> obj_ok xs \<Longrightarrow>
    u \<le> u' \<and> (c' \<or> \<not> c) \<and>
    (\<forall>i. if obj_get xs i = None \<or> not_polled (obj_get qs i) then obj_get new' i = obj_get new i
         else polled_ok e (obj_get qs i) (obj_get xs i) (obj_get new' i) c')"
proof (induction xs arbitrary: new c u)
  case Nil
  then show ?case by simp
next
  case (Cons x xs)
  obtain i0 ch where x: "x = (i0, ch)" by (cases x)
  from Cons.prems(1) obtain new1 c1 u1 where step: "refresh_query e qs (new, c, u) (i0, ch) = Inr (new1, c1, u1)"
    and rest: "rfold (refresh_query e qs) (new1, c1, u1) xs = Inr (new', c', u')"
    by (auto simp: rbind_eq_Inr x)
  have oki: "obj_ok xs" "obj_get xs i0 = None"
    using Cons.prems(2) by (auto simp: obj_ok_def x map_of_eq_None_iff)
  note IH = Cons.IH [OF rest oki(1)] and first = refresh_query_cases [OF laws step]
  have "if obj_get (x # xs) i = None \<or> not_polled (obj_get qs i) then obj_get new' i = obj_get new i
         else polled_ok e (obj_get qs i) (obj_get (x # xs) i) (obj_get new' i) c'" for i
  proof (cases "i = i0")
    case True
    have same: "obj_get new' i0 = obj_get new1 i0" using IH oki(2) by metis
    show ?thesis
    proof (cases "not_polled (obj_get qs i0)")
      case np: True
      then have "new1 = new" using first by (simp only: if_True)
      then show ?thesis using np same True by simp
    next
      case np: False
      then have "polled_ok e (obj_get qs i0) (Some ch) (obj_get new1 i0) c1"
        using first by (simp only: if_False)
      moreover have "c' \<or> \<not> c1" using IH by blast
      ultimately have "polled_ok e (obj_get qs i0) (Some ch) (obj_get new' i0) c'"
        unfolding same polled_ok_def option.case by blast
      then show ?thesis using np True x by simp
    qed
  next
    case False
    then show ?thesis using first IH unfolding x by auto
  qed
  then have "\<forall>i. if obj_get (x # xs) i = None \<or> not_polled (obj_get qs i)
         then obj_get new' i = obj_get new i
         else polled_ok e (obj_get qs i) (obj_get (x # xs) i) (obj_get new' i) c'" by blast
  moreover have "u \<le> u'" "c' \<or> \<not> c" using first IH by auto
  ultimately show ?case by blast
qed

text \<open>Polling leaves queries that were stopped or that failed, and queries the server does not
  mention, as they are; every other query gets the merge of its properties with the server's; and the
  time stamp of the last update never goes back.\<close>

theorem polling_updates_queries:
  assumes "equality_laws e" and "obj_ok altered" and "sqlLabReducer e (REFRESH_QUERIES altered) s = Inr s'"
  shows "queriesLastUpdate s \<le> queriesLastUpdate s' \<and>
    (if obj_get altered i = None \<or> not_polled (obj_get (queries s) i)
     then obj_get (queries s') i = obj_get (queries s) i
     else \<exists>q. obj_get (queries s') i = Some q \<and>
            agrees q (merge_polled e (obj_get (queries s) i) (the (obj_get altered i))))"
proof -
  from assms(3) obtain new c u where
    fold: "rfold (refresh_query e (queries s)) (queries s, False, queriesLastUpdate s) altered = Inr (new, c, u)"
    and s': "s' = s\<lparr>queries := (if c then new else queries s), queriesLastUpdate := u\<rparr>"
    by (auto simp: refresh_queries_def rbind_eq_Inr)
  note R = refresh_fold [OF assms(1) fold assms(2)]
  have "if obj_get altered i = None \<or> not_polled (obj_get (queries s) i)
     then obj_get (queries s') i = obj_get (queries s) i
     else \<exists>q. obj_get (queries s') i = Some q \<and>
            agrees q (merge_polled e (obj_get (queries s) i) (the (obj_get altered i)))"
    using spec [OF R [THEN conjunct2, THEN conjunct2], of i]
    by (auto simp: s' polled_ok_def split: if_splits)
  with R show ?thesis by (simp add: s')
qed

theorem polling_updates_queries_witness:
  "\<exists>s'. sqlLabReducer sample_env (REFRESH_QUERIES [(''q1'', [(''changed_on'', JStr ''x''), (''state'', qstate Running)])])
      (sample_lab\<lparr>queries := [(''q1'', [(''state'', qstate Stopped)])]\<rparr>) = Inr s' \<and>
    obj_get (queries s') ''q1'' = Some [(''state'', qstate Stopped)]"
proof -
  let ?alt = "[(''q1'', [(''changed_on'', JStr ''x''), (''state'', qstate Running)])]"
  let ?s = "sample_lab\<lparr>queries := [(''q1'', [(''state'', qstate Stopped)])]\<rparr>"
  have "equality_laws sample_env" by (simp add: equality_laws_def sample_env_def agrees_def)
  moreover have "obj_ok ?alt" by (simp add: obj_ok_def)
  moreover obtain s' where s': "sqlLabReducer sample_env (REFRESH_QUERIES ?alt) ?s = Inr s'"
    by (simp add: refresh_queries_def refresh_query_def not_polled_def)
  moreover have "not_polled (obj_get (queries ?s) ''q1'')" by (simp add: not_polled_def)
  ultimately have "obj_get (queries s') ''q1'' = obj_get (queries ?s) ''q1''"
    using polling_updates_queries [of sample_env ?alt ?s s' "''q1''"] by metis
  with s' show ?thesis by simp
qed

section \<open>Clean-up\<close>

text \<open>The clean-up drops exactly the queries that are running or pending without progress for
  longer than the interval; of every other query it changes at most the state, to the status of
  results that are stored on the server.\<close>

theorem clearing_inactive_queries:
  assumes "obj_ok (queries s)" and "sqlLabReducer e (CLEAR_INACTIVE_QUERIES interval) s = Inr s'"
  shows "obj_get (queries s') i =
      (case obj_get (queries s) i of
         None \<Rightarrow> None
       | Some q \<Rightarrow> if expired e interval q then None
                   else Some (obj_spread q [(''state'', settled_state q)]))"
proof -
  have "obj_get (map (\<lambda>(i, q). (i, f q)) (filter (\<lambda>(_, q). \<not> P q) qs)) i =
      (case obj_get qs i of None \<Rightarrow> None | Some q \<Rightarrow> if P q then None else Some (f q))"
    if "obj_ok qs" for qs :: "(string, jsobj) obj" and f :: "jsobj \<Rightarrow> jsobj" and P
    using that
  proof (induction qs)
    case Nil
    then show ?case by simp
  next
    case (Cons x qs)
    obtain k q where x: "x = (k, q)" by (cases x)
    with Cons.prems have ok: "obj_ok qs" "obj_get qs k = None"
      by (auto simp: obj_ok_def map_of_eq_None_iff)
    with Cons.IH show ?case unfolding x by auto
  qed
  note lookup = this [OF assms(1)]
  have s': "s' = clear_inactive_queries e interval s" using assms(2) by simp
  show ?thesis
    unfolding obj_spread_Cons obj_spread_Nil
    using lookup [of "\<lambda>q. obj_set ''state'' (settled_state q) q" "expired e interval"]
    by (simp add: s' clear_inactive_queries_def)
qed

theorem clearing_inactive_queries_witness:
  "\<exists>s'. sqlLabReducer sample_env (CLEAR_INACTIVE_QUERIES 10)
      (sample_lab\<lparr>queries := [(''q1'', [(''state'', JStr ''running''), (''startDttm'', JNum 1), (''progress'', JNum 0)]),
         (''q2'', [(''state'', JStr ''success'')])]\<rparr>) = Inr s' \<and>
    obj_get (queries s') ''q1'' = None \<and> obj_get (queries s') ''q2'' = Some [(''state'', JStr ''success'')]"
proof -
  let ?s = "sample_lab\<lparr>queries := [(''q1'', [(''state'', JStr ''running''), (''startDttm'', JNum 1), (''progress'', JNum 0)]),
         (''q2'', [(''state'', JStr ''success'')])]\<rparr>"
  let ?t = "clear_inactive_queries sample_env 10 ?s"
  have "obj_ok (queries ?s)" by (simp add: obj_ok_def)
  moreover have step: "sqlLabReducer sample_env (CLEAR_INACTIVE_QUERIES 10) ?s = Inr ?t" by simp
  ultimately have r: "obj_get (queries ?t) i = (case obj_get (queries ?s) i of None \<Rightarrow> None
       | Some q \<Rightarrow> if expired sample_env 10 q then None else Some (obj_spread q [(''state'', settled_state q)]))" for i
    using clearing_inactive_queries by blast
  show ?thesis
    unfolding step using r [of "''q1''"] r [of "''q2''"]
    by (simp add: expired_def settled_state_def sample_env_def)
qed

section \<open>Table previews\<close>

definition table_key :: "jsobj \<Rightarrow> jsval list" where
  "table_key t = map (jget t) [''dbId'', ''queryEditorId'', ''catalog'', ''schema'', ''name'']"

lemma same_table_key: "same_table at xt \<longleftrightarrow> table_key xt = table_key at"
  by (auto simp: same_table_def table_key_def)

lemma table_key_cong: "(\<And>k. k \<noteq> ''id'' \<Longrightarrow> k \<noteq> ''dataPreviewQueryId'' \<Longrightarrow> jget t k = jget t' k) \<Longrightarrow>
    table_key t = table_key t'"
  by (simp add: table_key_def)

lemma table_key_alter:
  "map table_key (alterInArr ts ob [(''dataPreviewQueryId'', v)] ''id'') = map table_key ts"
  by (auto simp: alterInArr_def intro!: table_key_cong)

lemma merged_table_key:
  assumes "table_key old = table_key at" and "obj_ok at'"
    and "\<And>k. k \<noteq> ''dataPreviewQueryId'' \<Longrightarrow> jget at' k = jget at k"
  shows "table_key (obj_spread (obj_spread old at') (obj_when c [(''id'', v)])) = table_key at"
proof -
  have "table_key (obj_spread (obj_spread old at') (obj_when c [(''id'', v)])) = table_key (obj_spread old at')"
    by (rule table_key_cong) (simp add: obj_when_def)
  moreover have "jget (obj_spread old at') k = jget at k" if "jget old k = jget at k" "k \<noteq> ''dataPreviewQueryId''" for k
  proof (cases "obj_get at' k")
    case None
    then show ?thesis using that by (simp add: jget_spread_case [OF assms(2)])
  next
    case (Some v)
    then have "jget at' k = v" by (simp add: jget_def)
    then show ?thesis using Some assms(3) [OF that(2)] by (simp add: jget_spread_case [OF assms(2)])
  qed
  ultimately show ?thesis using assms(1) by (simp add: table_key_def)
qed

lemma show_expanded_tables [simp]: "tables (show_expanded at s) = tables s"
  by (simp add: show_expanded_def)

text \<open>A table is listed once per database, editor, catalog, schema and name: merging a table
  updates the entry with its key in place, or adds one when there is none.\<close>

theorem merged_tables_stay_unique:
  assumes "distinct (map table_key (tables s))" and "obj_ok at"
    and "sqlLabReducer e (MERGE_TABLE at q p) s = Inr s'"
  shows "distinct (map table_key (tables s')) \<and>
    (if table_key at \<in> set (map table_key (tables s)) then map table_key (tables s') = map table_key (tables s)
     else set (map table_key (tables s')) = insert (table_key at) (set (map table_key (tables s))))"
proof (cases "find_index (same_table at) (tables s)")
  case None
  then have new: "table_key at \<notin> set (map table_key (tables s))" by (auto simp: same_table_key)
  let ?at = "obj_set ''dataPreviewQueryId'' JNull at"
  have key: "table_key (with_id n ?at) = table_key at" for n
    by (rule table_key_cong) (simp add: with_id_def)
  have "map table_key (tables s') = map table_key (addToArr (nano e 0) (tables s) ?at p)"
    using assms(3) None by (auto simp: merge_table_def Let_def table_key_alter split: option.splits)
  with assms(1) new key show ?thesis by (auto simp: addToArr_def Let_def)
next
  case (Some i)
  let ?old = "tables s ! i"
  define at' where "at' = (case q of None \<Rightarrow> at | Some q \<Rightarrow> obj_set ''dataPreviewQueryId'' (jget q ''id'') at)"
  from find_index_Some [OF Some] have i: "i < length (tables s)" and old: "table_key ?old = table_key at"
    by (auto simp: same_table_key)
  have at': "obj_ok at'" "\<And>k. k \<noteq> ''dataPreviewQueryId'' \<Longrightarrow> jget at' k = jget at k"
    using assms(2) by (auto simp: at'_def split: option.split)
  let ?m = "obj_spread (obj_spread ?old at') (obj_when (truthy (jget ?old ''initialized'')) [(''id'', jget ?old ''id'')])"
  have "tables s' = take i (tables s) @ ?m # drop (Suc i) (tables s)"
    using assms(3) Some by (auto simp: merge_table_def Let_def at'_def)
  then have "tables s' = (tables s)[i := ?m]" using i by (simp add: upd_conv_take_nth_drop)
  then have "map table_key (tables s') = map table_key (tables s)"
    using merged_table_key [OF old at'] old i by (simp add: map_update list_update_same_conv)
  moreover have "table_key at \<in> set (map table_key (tables s))" using old i by (metis length_map nth_map nth_mem)
  ultimately show ?thesis using assms(1) by simp
qed

theorem merged_tables_stay_unique_witness:
  "\<exists>s'. sqlLabReducer sample_env (MERGE_TABLE [(''name'', JStr ''t'')] None False)
      (sample_lab\<lparr>tables := [[(''id'', JStr ''1''), (''name'', JStr ''t'')]]\<rparr>) = Inr s' \<and> length (tables s') = 1"
proof -
  let ?s = "sample_lab\<lparr>tables := [[(''id'', JStr ''1''), (''name'', JStr ''t'')]]\<rparr>"
  let ?at = "[(''name'', JStr ''t'')]"
  let ?t = "merge_table sample_env ?at None False ?s"
  have d: "distinct (map table_key (tables ?s))" and ok: "obj_ok ?at" by (simp_all add: obj_ok_def)
  have step: "sqlLabReducer sample_env (MERGE_TABLE ?at None False) ?s = Inr ?t"
    by (simp only: sqlLabReducer.simps)
  have k: "table_key ?at \<in> set (map table_key (tables ?s))" by (simp add: table_key_def)
  have "map table_key (tables ?t) = map table_key (tables ?s)"
    using merged_tables_stay_unique [OF d ok step] unfolding if_P [OF k] by (rule conjunct2)
  from arg_cong [OF this, of length]
  have "length (tables ?t) = 1" by (simp only: length_map) simp
  with step show ?thesis by blast
qed

section \<open>Starting a query\<close>

lemma getFromArr_None: "list_all (\<lambda>x. jget x idKey \<noteq> i) arr \<Longrightarrow> getFromArr arr i idKey = None"
  by (induction arr rule: rev_induct) (simp_all add: getFromArr_snoc, simp add: getFromArr_def)

lemma seen_after_queries:
  "getUpToDateQuery (apply_update u (s\<lparr>queries := qs\<rparr>)) i = getUpToDateQuery (apply_update u s) i"
  by (cases u) (simp_all add: getUpToDateQuery_def apply_update_def find_editor_def)

lemma seen_without_id:
  assumes "objects_ok s" and "unsaved_ok (unsavedQueryEditor s)" and "k \<noteq> ''id''"
  shows "jget (obj_spread (obj_spread [] (or_none (find_editor s i)))
      (obj_when (i = jget (unsavedQueryEditor s) ''id'') (unsavedQueryEditor s))) k =
    jget (getUpToDateQuery s i) k"
proof -
  have w: "obj_ok (obj_when c (unsavedQueryEditor s))" for c
    using assms(2) by (simp add: obj_when_def unsaved_ok_def)
  show ?thesis
    unfolding getUpToDateQuery_def jget_spread_case [OF w] jget_spread_case [OF find_editor_ok [OF assms(1)]]
    using assms(3) by (simp split: option.split)
qed

text \<open>A query started in a tab is stored, becomes the latest query of the tab as components see
  it, and the rows of the tab's previous query are dropped; no other query is touched.\<close>

theorem starting_a_query:
  assumes "tabs_ok s" and "objects_ok s" and "unsaved_active s" and "i \<in> set (editor_ids s)"
    and "list_all (\<lambda>x. jget x ''tabViewId'' \<noteq> i) (queryEditors s)"
    and "jget q ''sqlEditorId'' = i" and "truthy (jget q ''id'')"
    and "jget (getUpToDateQuery s i) ''latestQueryId'' = l" and "truthy l"
    and "obj_get (queries s) (key_of l) = Some old" and "jget old ''id'' = l"
    and "key_of l \<noteq> key_of (jget q ''id'')" and "sqlLabReducer e (START_QUERY q) s = Inr s'"
  shows "obj_get (queries s') (key_of (jget q ''id'')) = Some q \<and>
    (\<exists>r. obj_get (queries s') (key_of l) = Some (obj_set ''results'' (JObj r) old) \<and>
         jget r ''data'' = JArr [] \<and> jget r ''query'' = JNull) \<and>
    (k \<in> {key_of l, key_of (jget q ''id'')} \<or> obj_get (queries s') k = obj_get (queries s) k) \<and>
    jget (getUpToDateQuery s' i) ''latestQueryId'' = jget q ''id''"
proof -
  have u: "unsaved_ok (unsavedQueryEditor s)" using assms(1) by (simp add: tabs_ok_def)
  have ti: "truthy i" by (rule editor_truthy [OF assms(1,4)])
  have ed: "query_editor_id s q = i" using assms(5,6) by (simp add: query_editor_id_def getFromArr_None)
  have find: "getFromArr (queryEditors s) i ''id'' = find_editor s i"
    using assms(1) by (simp add: getFromArr_find tabs_ok_def editors_ok_def find_editor_def)
  define qe where "qe = obj_spread (obj_spread [] (or_none (find_editor s i)))
      (obj_when (i = jget (unsavedQueryEditor s) ''id'') (unsavedQueryEditor s))"
  define upd where "upd = [(''latestQueryId'', jget q ''id'')]"
  define silent where "silent = truthy (jget q ''isDataPreview'')"
  have "jget qe ''latestQueryId'' = l"
    unfolding qe_def using seen_without_id [OF assms(2) u] assms(8) by simp
  then have qs: "forget_results qe (queries s) =
      obj_set (key_of l) (obj_set ''results'' (JObj (obj_spread (obj_spread [] (entries_of (jget old ''results'')))
        [(''data'', JArr []), (''query'', JNull)])) old) (queries s)" (is "_ = obj_set _ (obj_set _ (JObj ?r) _) _")
    using assms(9-11) by (simp add: forget_results_def)
  have s': "s' = apply_update (alterUnsavedQueryEditorState e s upd i silent)
      (s\<lparr>queries := addToObject (nano e 0) (forget_results qe (queries s)) q\<rparr>)"
    using assms(6,13) ti ed by (simp add: start_query_def Let_def find qe_def upd_def silent_def)
  then have qs': "queries s' = addToObject (nano e 0) (forget_results qe (queries s)) q"
    by (simp add: apply_update_def split: editor_update.split)
  have "getUpToDateQuery s' i = getUpToDateQuery (set_editor e upd i silent s) i"
    unfolding s' seen_after_queries by (simp add: set_editor_def)
  moreover have "jget (getUpToDateQuery (set_editor e upd i silent s) i) ''latestQueryId'' = jget q ''id''"
    using setter_active [OF assms(1-4,4), of upd] setter_inactive [OF assms(1-4), of upd]
    by (cases "active_tab s = i") (simp_all add: upd_def plain_values_def obj_ok_def)
  moreover have "jget ?r ''data'' = JArr []" "jget ?r ''query'' = JNull" by simp_all
  ultimately show ?thesis
    using assms(7,12) unfolding qs' qs by (auto simp: addToObject_def with_id_id)
qed

theorem starting_a_query_witness:
  "\<exists>s'. sqlLabReducer sample_env (START_QUERY sample_query)
     (sample_lab\<lparr>unsavedQueryEditor := [(''id'', JStr ''b''), (''latestQueryId'', JStr ''q0'')],
        queries := [(''q0'', [(''id'', JStr ''q0'')])]\<rparr>) = Inr s' \<and>
     jget (getUpToDateQuery s' (JStr ''b'')) ''latestQueryId'' = JStr ''q1''"
proof -
  let ?s = "sample_lab\<lparr>unsavedQueryEditor := [(''id'', JStr ''b''), (''latestQueryId'', JStr ''q0'')],
        queries := [(''q0'', [(''id'', JStr ''q0'')])]\<rparr>"
  let ?t = "start_query sample_env sample_query ?s"
  have "tabs_ok ?s" "objects_ok ?s" "unsaved_active ?s"
    using sample_lab_ok
    by (simp_all add: tabs_ok_def objects_ok_def unsaved_active_def unsaved_ok_def obj_ok_def active_tab_def sample_simps)
  moreover have "JStr ''b'' \<in> set (editor_ids ?s)" "list_all (\<lambda>x. jget x ''tabViewId'' \<noteq> JStr ''b'') (queryEditors ?s)"
    by (simp_all add: editor_ids_def sample_simps)
  moreover have "jget (getUpToDateQuery ?s (JStr ''b'')) ''latestQueryId'' = JStr ''q0''"
    by (simp add: getUpToDateQuery_def find_editor_def sample_simps)
  moreover have step: "sqlLabReducer sample_env (START_QUERY sample_query) ?s = Inr ?t"
    by (simp only: sqlLabReducer.simps)
  ultimately have "jget (getUpToDateQuery ?t (JStr ''b'')) ''latestQueryId'' = jget sample_query ''id''"
    using starting_a_query [of ?s "JStr ''b''" sample_query "JStr ''q0''" "[(''id'', JStr ''q0'')]" sample_env ?t]
    by (simp add: sample_query_def)
  with step show ?thesis by (simp add: sample_query_def)
qed

section \<open>Switching between tabs\<close>

lemma find_index_nth:
  assumes "distinct (map f xs)" and "m < length xs"
  shows "find_index (\<lambda>x. f x = f (xs ! m)) xs = Some m"
  using assms
proof (induction xs arbitrary: m)
  case Nil
  then show ?case by simp
next
  case (Cons x xs)
  show ?case
  proof (cases m)
    case 0
    then show ?thesis by simp
  next
    case (Suc k)
    then have "f (xs ! k) \<in> f ` set xs" using Cons.prems(2) by simp
    then have "f x \<noteq> f (xs ! k)" using Cons.prems(1) by auto
    then show ?thesis using Cons Suc by simp
  qed
qed

lemma switch_target_nth:
  assumes "distinct (editor_ids s)" and "m < length (queryEditors s)"
    and "active_tab s = editor_ids s ! m"
  shows "switch_target back s =
    Some (queryEditors s ! ((if back then m + length (queryEditors s) - 1 else m + 1) mod length (queryEditors s)))"
proof -
  let ?n = "length (queryEditors s)"
  have idx: "find_index (\<lambda>qe. jget qe ''id'' = active_tab s) (queryEditors s) = Some m"
    using find_index_nth [of "\<lambda>qe. jget qe ''id''" "queryEditors s" m] assms
    by (simp add: editor_ids_def)
  have next_idx: "(if back then int m - 1 + int ?n else int m + 1) =
      int (if back then m + ?n - 1 else m + 1)" using assms(2) by auto
  have rem: "js_rem (int a) (int ?n) = int (a mod ?n)" for a
    by (simp add: js_rem_def sgn_if zmod_int)
  have "a mod ?n < ?n" for a by (rule mod_less_divisor) (use assms(2) in linarith)
  then have "js_nth (queryEditors s) (int (a mod ?n)) = Some (queryEditors s ! (a mod ?n))" for a
    by (simp add: js_nth_def)
  then show ?thesis
    using assms(2) by (simp only: switch_target_def Let_def idx option.case next_idx rem) auto
qed

lemma set_active_editor_ids:
  assumes ok: "tabs_ok s" and qe: "obj_ok qe" and i: "jget qe ''id'' \<in> set (editor_ids s)"
    and new: "active_tab s \<noteq> jget qe ''id''"
  shows "editor_ids (set_active_query_editor qe s) = editor_ids s \<and>
    active_tab (set_active_query_editor qe s) = jget qe ''id''"
proof -
  let ?u = "unsavedQueryEditor s"
  have u: "unsaved_ok ?u" using ok by (simp add: tabs_ok_def)
  have "same_key ''id'' qe (obj_spread qe ?u)" if "jget qe ''id'' = jget ?u ''id''"
    using that qe u
    by (cases "obj_get ?u ''id''")
      (auto simp: same_key_def map_of_rev_ok obj_get_spread_ok unsaved_ok_def jget_def split: option.split)
  then show ?thesis
    using i new merge_unsaved_ids [OF u]
    by (auto simp: set_active_query_editor_def editor_ids_def alterInArr_keys active_tab_def)
qed

text \<open>switching to the next tab and back again activates the tab one came from, around the end
  of the tab bar too.\<close>

theorem switching_forth_and_back:
  assumes "tabs_ok s" and "queryEditors s \<noteq> []" and "switch_target False s = Some qe" and "obj_ok qe"
    and "jget qe ''id'' \<noteq> active_tab s" and "sqlLabReducer e (SET_ACTIVE_QUERY_EDITOR qe) s = Inr s'"
  shows "map_option (\<lambda>x. jget x ''id'') (switch_target True s') = Some (active_tab s)"
proof -
  let ?n = "length (queryEditors s)"
  have d: "distinct (editor_ids s)" using assms(1) by (simp add: tabs_ok_def editors_ok_def editor_ids_def)
  have "active_tab s \<in> set (editor_ids s)"
    using assms(1,2) last_in_set [of "tabHistory s"]
    by (auto simp: tabs_ok_def history_ok_def active_tab_def editor_ids_def subset_iff)
  then obtain m where m: "m < ?n" "active_tab s = editor_ids s ! m"
    by (auto simp: in_set_conv_nth editor_ids_def)
  have len: "length (editor_ids s) = ?n" by (simp add: editor_ids_def)
  define m' where "m' = (m + 1) mod ?n"
  have m': "m' < ?n" unfolding m'_def by (rule mod_less_divisor) (use m(1) in linarith)
  have qe: "qe = queryEditors s ! m'" using switch_target_nth [OF d m, of False] assms(3) by (simp add: m'_def)
  have s': "s' = set_active_query_editor qe s" using assms(6) by simp
  have "jget qe ''id'' \<in> set (editor_ids s)" using qe m' by (simp add: editor_ids_def)
  then have ids: "editor_ids s' = editor_ids s" and act: "active_tab s' = jget qe ''id''"
    using set_active_editor_ids [OF assms(1,4)] assms(5) unfolding s' by metis+
  have n': "length (queryEditors s') = ?n" using arg_cong [OF ids, of length] by (simp add: editor_ids_def)
  have "active_tab s' = editor_ids s' ! m'" unfolding act ids using qe m' by (simp add: editor_ids_def)
  then have "switch_target True s' = Some (queryEditors s' ! ((m' + ?n - 1) mod ?n))"
    using switch_target_nth [of s' m' True] d m' ids n' by simp
  moreover have "(m' + ?n - 1) mod ?n = m"
  proof (cases "m + 1 = ?n")
    case True
    then have "m' = 0" by (simp add: m'_def)
    then show ?thesis using True m(1) by simp
  next
    case False
    then have "m' = m + 1" using m(1) by (simp add: m'_def)
    then show ?thesis using m(1) by simp
  qed
  ultimately show ?thesis using m ids n' by (simp add: editor_ids_def) (metis nth_map)
qed

theorem switching_forth_and_back_witness:
  "map_option (\<lambda>x. jget x ''id'') (switch_target True (set_active_query_editor (tab ''c'' ''C'') sample_lab)) = Some (JStr ''b'')"
proof -
  have "queryEditors sample_lab \<noteq> []" "obj_ok (tab ''c'' ''C'')" "active_tab sample_lab = JStr ''b''"
    "jget (tab ''c'' ''C'') ''id'' \<noteq> active_tab sample_lab"
    by (simp_all add: sample_simps obj_ok_def active_tab_def)
  moreover have "switch_target False sample_lab = Some (tab ''c'' ''C'')"
    by (simp add: switch_target_def js_rem_def js_nth_def sample_simps active_tab_def)
  moreover have "sqlLabReducer sample_env (SET_ACTIVE_QUERY_EDITOR (tab ''c'' ''C'')) sample_lab =
      Inr (set_active_query_editor (tab ''c'' ''C'') sample_lab)" by (simp only: sqlLabReducer.simps)
  ultimately show ?thesis using switching_forth_and_back [OF sample_lab_ok(1)] by metis
qed

section \<open>Time stamps\<close>

lemma takeWhile_stop: "\<not> P z \<Longrightarrow> takeWhile P (takeWhile P xs @ z # ys) = takeWhile P xs"
  by (induction xs) auto

lemma ts_match_idem:
  assumes "ts_match s = Some r"
  shows "ts_match r = Some r"
proof -
  have Z: "\<not> is_digit CHR ''Z''" "\<not> is_digit CHR ''.''" by (simp_all add: is_digit_def)
  from assms have len: "length s \<ge> 19" by (auto simp: ts_match_def ts_pattern_def split: if_splits)
  obtain a0 a1 a2 a3 a4 a5 a6 a7 a8 a9 b c0 c1 c2 c3 c4 c5 c6 c7 t where
    s: "s = a0 # a1 # a2 # a3 # a4 # a5 # a6 # a7 # a8 # a9 # b # c0 # c1 # c2 # c3 # c4 # c5 # c6 # c7 # t"
    using len by (auto simp: Suc_le_length_iff numeral_eq_Suc)
  define frac where "frac = (if t \<noteq> [] \<and> hd t = CHR ''.''
      then CHR ''.'' # takeWhile is_digit (tl t) else takeWhile is_digit t)"
  have m: "list_all (\<lambda>(p, c). char_matches p c) (zip ts_pattern s)"
    and r: "r = a0 # a1 # a2 # a3 # a4 # a5 # a6 # a7 # a8 # a9 # CHR ''T'' # c0 # c1 # c2 # c3 # c4 # c5 # c6 # c7 # frac @ ''Z''"
    using assms unfolding ts_match_def s by (auto simp: ts_pattern_def frac_def split: if_splits)
  have "list_all (\<lambda>(p, c). char_matches p c) (zip ts_pattern r)"
    using m unfolding r s by (simp add: ts_pattern_def char_matches_def)
  moreover have "(if frac @ ''Z'' \<noteq> [] \<and> hd (frac @ ''Z'') = CHR ''.''
      then CHR ''.'' # takeWhile is_digit (tl (frac @ ''Z'')) else takeWhile is_digit (frac @ ''Z'')) = frac"
    using Z takeWhile_stop [of is_digit "CHR ''Z''" "tl t" "[]"] takeWhile_stop [of is_digit "CHR ''Z''" t "[]"]
    by (cases t) (auto simp: frac_def)
  ultimately show ?thesis unfolding r ts_match_def by (simp add: ts_pattern_def Let_def)
qed

lemma ts_search_match: "ts_search s = Some r \<Longrightarrow> \<exists>s'. ts_match s' = Some r"
  by (induction s) (auto split: option.splits)

text \<open>normalising a time stamp twice is normalising it once.\<close>

theorem normalizeTimestamp_idempotent: "normalizeTimestamp (normalizeTimestamp s) = normalizeTimestamp s"
proof (cases "ts_search s")
  case None
  then show ?thesis by (simp add: normalizeTimestamp_def)
next
  case (Some r)
  then have "ts_match r = Some r" using ts_search_match ts_match_idem by blast
  then have "ts_search r = Some r" by (cases r) (simp_all add: ts_match_def ts_pattern_def)
  with Some show ?thesis by (simp add: normalizeTimestamp_def)
qed

end
