(* ===== verification/ChartState.thy ===== *)
theory ChartState
  imports ReduxUtils
begin

text \<open>
  The charts of a dashboard or of Explore (\<open>components/Chart/chartReducer.ts\<close>): one dynamic object
  per chart id, with the status of its query, the query's controller and the annotation layers.
  A controller is a dynamic value that stands for its identity. The translations, with and without
  an argument, and the clock are parameters; \<open>charts[key]\<close> may be \<open>undefined\<close>, which a handler
  either spreads as no entries or fails on.
\<close>

record chart_env =
  msg :: "string \<Rightarrow> string"
  msg_with :: "string \<Rightarrow> jsval \<Rightarrow> string"
  clock :: int

type_synonym charts = "(string, jsobj) obj"

definition chart :: jsobj where
  "chart =
     [(''id'', JNum 0), (''chartAlert'', JNull), (''chartStatus'', JStr ''loading''),
      (''chartStackTrace'', JNull), (''chartUpdateEndTime'', JNull), (''chartUpdateStartTime'', JNum 0),
      (''latestQueryFormData'', JObj []), (''sliceFormData'', JNull), (''queryController'', JNull),
      (''queriesResponse'', JNull), (''triggerQuery'', JBool True), (''lastRendered'', JNum 0)]"

datatype chart_action =
    ADD_CHART jsobj
  | CHART_UPDATE_SUCCEEDED jsval
  | CHART_UPDATE_STARTED jsval
  | CHART_UPDATE_STOPPED jsval
  | CHART_RENDERING_SUCCEEDED
  | CHART_RENDERING_FAILED (render_error: jsval) (stack_trace: jsval)
  | CHART_UPDATE_FAILED jsval
  | DYNAMIC_PLUGIN_CONTROLS_READY "(string, jsobj) obj"
  | TRIGGER_QUERY jsval
  | RENDER_TRIGGERED jsval
  | UPDATE_QUERY_FORM_DATA jsval
  | ANNOTATION_QUERY_STARTED string jsval
  | ANNOTATION_QUERY_SUCCESS string jsobj
  | ANNOTATION_QUERY_FAILED string "jsobj option"

datatype charts_action =
    ChartAction string chart_action
  | REMOVE_CHART string
  | UPDATE_CHART_ID int string
  | HYDRATE_CHARTS charts
  | SetDatasources

definition getFormDataFromControls :: "(string, jsobj) obj \<Rightarrow> jsobj" where
  "getFormDataFromControls controls =
     foldl (\<lambda>fd (name, control). obj_set name (jget control ''value'') fd) [] controls"

text \<open>\<open>queriesResponse?.[0]?.k\<close>.\<close>

definition first_response :: "jsval \<Rightarrow> string \<Rightarrow> jsval" where
  "first_response v k = (case v of JArr (x # xs) \<Rightarrow> chain x k | _ \<Rightarrow> JUndef)"

text \<open>The handlers. \<open>None\<close> is the \<open>undefined\<close> state of a chart that is not in the store.\<close>

definition update_chart :: "jsobj option \<Rightarrow> jsobj \<Rightarrow> jsobj result" where
  "update_chart state upd = Inr (obj_spread (obj_spread [] (or_none state)) upd)"

definition chart_update_stopped :: "chart_env \<Rightarrow> jsval \<Rightarrow> jsobj option \<Rightarrow> jsobj result" where
  "chart_update_stopped e controller state =
     rbind (if truthy controller
            then rbind (or_throw TypeError state) (\<lambda>s.
              Inr (truthy (jget s ''queryController'') \<and> controller \<noteq> jget s ''queryController''))
            else Inr False)
       (\<lambda>stale.
          if stale then Inr (or_none state)
          else update_chart state
            [(''chartStatus'', JStr ''stopped''),
             (''chartAlert'', JStr (msg e ''Updating chart was stopped'')),
             (''chartUpdateEndTime'', JNum (clock e)), (''queryController'', JNull)])"

definition chart_update_failed :: "chart_env \<Rightarrow> jsval \<Rightarrow> jsobj option \<Rightarrow> jsobj result" where
  "chart_update_failed e response state =
     update_chart state
       [(''chartStatus'', JStr ''failed''),
        (''chartAlert'', if truthy response then first_response response ''error''
                         else JStr (msg e ''Network error.'')),
        (''chartUpdateEndTime'', JNum (clock e)),
        (''queriesResponse'', response),
        (''chartStackTrace'', if truthy response then first_response response ''stacktrace'' else JNull)]"

text \<open>The annotation layers of a chart: the data, the errors and the running queries by layer.\<close>

definition layers :: "string \<Rightarrow> jsobj \<Rightarrow> jsobj" where
  "layers k s = obj_spread [] (entries_of (jget s k))"

definition annotation_query_started ::
    "string \<Rightarrow> jsval \<Rightarrow> jsobj option \<Rightarrow> (jsobj \<times> jsval list) result" where
  "annotation_query_started name controller state =
     rbind (or_throw TypeError state) (\<lambda>s.
       let running = chain (jget s ''annotationQuery'') name
       in Inr (obj_spread (obj_spread [] s)
                 [(''annotationQuery'', JObj (obj_set name controller (layers ''annotationQuery'' s)))],
               if truthy running then [running] else []))"

definition annotation_query_success :: "string \<Rightarrow> jsobj \<Rightarrow> jsobj option \<Rightarrow> jsobj result" where
  "annotation_query_success name response state =
     rbind (or_throw TypeError state) (\<lambda>s.
       update_chart (Some s)
         [(''annotationData'', JObj (obj_set name (jget response ''data'') (layers ''annotationData'' s))),
          (''annotationError'', JObj (obj_del name (layers ''annotationError'' s))),
          (''annotationQuery'', JObj (obj_del name (layers ''annotationQuery'' s)))])"

definition annotation_query_failed ::
    "chart_env \<Rightarrow> string \<Rightarrow> jsobj option \<Rightarrow> jsobj option \<Rightarrow> jsobj result" where
  "annotation_query_failed e name response state =
     rbind (or_throw TypeError state) (\<lambda>s.
       update_chart (Some s)
         [(''annotationData'', JObj (obj_del name (layers ''annotationData'' s))),
          (''annotationError'', JObj (obj_set name
             (case response of Some r \<Rightarrow> jget r ''error'' | None \<Rightarrow> JStr (msg e ''Network error.''))
             (layers ''annotationError'' s))),
          (''annotationQuery'', JObj (obj_del name (layers ''annotationQuery'' s)))])"

text \<open>A handler returns the new state of the chart and the controllers it aborted.\<close>

definition quiet :: "jsobj result \<Rightarrow> (jsobj \<times> jsval list) result" where
  "quiet r = rbind r (\<lambda>s. Inr (s, []))"

fun chart_handler :: "chart_env \<Rightarrow> chart_action \<Rightarrow> jsobj option \<Rightarrow> (jsobj \<times> jsval list) result" where
  "chart_handler e (ADD_CHART c) s = quiet (Inr (obj_spread chart c))"
| "chart_handler e (CHART_UPDATE_SUCCEEDED response) s = quiet (update_chart s
     [(''chartStatus'', JStr ''success''), (''chartAlert'', JNull), (''queriesResponse'', response),
      (''chartUpdateEndTime'', JNum (clock e))])"
| "chart_handler e (CHART_UPDATE_STARTED controller) s = quiet (update_chart s
     [(''chartStatus'', JStr ''loading''), (''chartStackTrace'', JNull), (''chartAlert'', JNull),
      (''chartUpdateEndTime'', JNull), (''chartUpdateStartTime'', JNum (clock e)),
      (''queryController'', controller)])"
| "chart_handler e (CHART_UPDATE_STOPPED controller) s = quiet (chart_update_stopped e controller s)"
| "chart_handler e CHART_RENDERING_SUCCEEDED s = quiet (update_chart s
     [(''chartStatus'', JStr ''rendered''), (''chartUpdateEndTime'', JNum (clock e))])"
| "chart_handler e (CHART_RENDERING_FAILED err trace) s = quiet (update_chart s
     [(''chartStatus'', JStr ''failed''), (''chartStackTrace'', trace),
      (''chartAlert'', JStr (msg_with e ''An error occurred while rendering the visualization: %s'' err))])"
| "chart_handler e (CHART_UPDATE_FAILED response) s = quiet (chart_update_failed e response s)"
| "chart_handler e (DYNAMIC_PLUGIN_CONTROLS_READY controls) s = quiet (update_chart s
     [(''sliceFormData'', JObj (getFormDataFromControls controls))])"
| "chart_handler e (TRIGGER_QUERY v) s = quiet (update_chart s
     [(''triggerQuery'', v), (''chartStatus'', JStr ''loading'')])"
| "chart_handler e (RENDER_TRIGGERED v) s = quiet (update_chart s [(''lastRendered'', v)])"
| "chart_handler e (UPDATE_QUERY_FORM_DATA v) s = quiet (update_chart s [(''latestQueryFormData'', v)])"
| "chart_handler e (ANNOTATION_QUERY_STARTED name c) s = annotation_query_started name c s"
| "chart_handler e (ANNOTATION_QUERY_SUCCESS name r) s = quiet (annotation_query_success name r s)"
| "chart_handler e (ANNOTATION_QUERY_FAILED name r) s = quiet (annotation_query_failed e name r s)"

definition retry_failed :: "jsobj \<Rightarrow> jsobj" where
  "retry_failed c =
     (if jget c ''chartStatus'' = JStr ''failed'' \<and> truthy (jget c ''chartStackTrace'')
      then obj_spread c [(''chartStatus'', JStr []), (''chartStackTrace'', JNull), (''chartAlert'', JNull)]
      else c)"

definition chartReducer :: "chart_env \<Rightarrow> charts_action \<Rightarrow> charts \<Rightarrow> (charts \<times> jsval list) result" where
  "chartReducer e a cs =
     (case a of
        REMOVE_CHART key \<Rightarrow> Inr (obj_del key cs, [])
      | UPDATE_CHART_ID newId key \<Rightarrow>
          Inr (obj_del key
                 (obj_set (int_string newId)
                    (obj_spread (obj_spread [] (or_none (obj_get cs key))) [(''id'', JNum newId)]) cs), [])
      | HYDRATE_CHARTS new \<Rightarrow> Inr (obj_spread [] new, [])
      | SetDatasources \<Rightarrow> Inr (map (\<lambda>(i, c). (i, retry_failed c)) cs, [])
      | ChartAction key b \<Rightarrow>
          rbind (chart_handler e b (obj_get cs key)) (\<lambda>(c, aborted).
            Inr (obj_set key c cs, aborted)))"

section \<open>Annotation layers\<close>

text \<open>No layer of a chart has data and an error at the same time.\<close>

definition layers_ok :: "jsobj \<Rightarrow> bool" where
  "layers_ok c \<longleftrightarrow>
     (\<forall>n. obj_get (layers ''annotationData'' c) n = None \<or> obj_get (layers ''annotationError'' c) n = None)"

definition charts_ok :: "charts \<Rightarrow> bool" where
  "charts_ok cs \<longleftrightarrow> (\<forall>i c. obj_get cs i = Some c \<longrightarrow> obj_ok c \<and> layers_ok c)"

fun chart_admissible :: "charts_action \<Rightarrow> charts \<Rightarrow> bool" where
  "chart_admissible (ChartAction key (ADD_CHART c)) cs = (obj_ok c \<and> layers_ok c)"
| "chart_admissible (HYDRATE_CHARTS new) cs = (obj_ok new \<and> charts_ok new)"
| "chart_admissible a cs = True"

definition charts_step :: "chart_env \<Rightarrow> charts_action \<Rightarrow> charts \<Rightarrow> charts result" where
  "charts_step e a cs = rbind (chartReducer e a cs) (\<lambda>(cs', aborted). Inr cs')"

lemma obj_ok_layers [simp]: "obj_ok (layers k c)"
  by (simp add: layers_def)

lemma spread_Nil_get: "obj_ok b \<Longrightarrow> obj_get (obj_spread [] b) k = obj_get b k"
  by (simp add: obj_get_spread_ok split: option.split)

lemma layers_cong: "jget c k = jget c' k \<Longrightarrow> layers k c = layers k c'"
  by (simp add: layers_def)

lemma layers_ok_cong:
  assumes "jget c ''annotationData'' = jget c' ''annotationData''"
    and "jget c ''annotationError'' = jget c' ''annotationError''"
  shows "layers_ok c = layers_ok c'"
  unfolding layers_ok_def layers_cong [OF assms(1)] layers_cong [OF assms(2)] ..

lemma layers_JObj: "jget c k = JObj m \<Longrightarrow> obj_ok m \<Longrightarrow> obj_get (layers k c) n = obj_get m n"
  by (simp add: layers_def spread_Nil_get)

lemma empty_ok: "layers_ok []"
  by (simp add: layers_ok_def layers_def)

lemma spread_Nil_jget: "obj_ok s \<Longrightarrow> jget (obj_spread [] s) k = jget s k"
  by (simp add: jget_def spread_Nil_get)

text \<open>An update that does not write the layers keeps them.\<close>

lemma update_plain_ok:
  assumes "obj_ok s" and "layers_ok s"
    and "''annotationData'' \<notin> fst ` set upd" "''annotationError'' \<notin> fst ` set upd"
  shows "obj_ok (obj_spread (obj_spread [] s) upd) \<and> layers_ok (obj_spread (obj_spread [] s) upd)"
proof -
  have "layers_ok (obj_spread (obj_spread [] s) upd) = layers_ok s"
    by (rule layers_ok_cong) (simp_all add: jget_spread_absent assms(3,4) spread_Nil_jget [OF assms(1)])
  with assms(2) show ?thesis by simp
qed

lemma add_chart_ok:
  assumes "obj_ok c" and "layers_ok c"
  shows "obj_ok (obj_spread chart c) \<and> layers_ok (obj_spread chart c)"
proof -
  have "jget (obj_spread chart c) k = jget c k" if "k \<notin> fst ` set chart" for k
    using that assms(1) jget_absent [OF that]
    by (cases "obj_get c k") (simp_all add: jget_def obj_get_spread_ok)
  then have "layers_ok (obj_spread chart c) = layers_ok c"
    by (intro layers_ok_cong) (simp_all add: chart_def)
  moreover have "obj_ok chart" by (simp add: chart_def obj_ok_def)
  ultimately show ?thesis using assms(2) by simp
qed

lemma annotation_written_ok:
  assumes "obj_ok s" and "layers_ok s" and "upd = [(''annotationData'', JObj d), (''annotationError'', JObj er), q]"
    and "fst q = ''annotationQuery''" and "obj_ok d" and "obj_ok er"
    and "\<And>n. obj_get d n = None \<or> obj_get er n = None"
  shows "obj_ok (obj_spread (obj_spread [] s) upd) \<and> layers_ok (obj_spread (obj_spread [] s) upd)"
proof -
  obtain v where q: "q = (''annotationQuery'', v)" using assms(4) by (cases q) simp
  have "jget (obj_spread (obj_spread [] s) upd) ''annotationData'' = JObj d"
    "jget (obj_spread (obj_spread [] s) upd) ''annotationError'' = JObj er"
    by (simp_all add: assms(3) q)
  then have "layers_ok (obj_spread (obj_spread [] s) upd)"
    using assms(5-7) by (simp add: layers_ok_def layers_JObj)
  then show ?thesis by simp
qed

lemma chart_handler_ok:
  assumes state: "\<And>c. s = Some c \<Longrightarrow> obj_ok c \<and> layers_ok c"
    and adm: "\<And>c. a = ADD_CHART c \<Longrightarrow> obj_ok c \<and> layers_ok c"
    and step: "chart_handler e a s = Inr (c', ab)"
  shows "obj_ok c' \<and> layers_ok c'"
proof -
  have st: "obj_ok (or_none s)" "layers_ok (or_none s)" using state by (cases s; simp add: empty_ok)+
  note plain = update_plain_ok [OF st]
  show ?thesis
  proof (cases a)
    case (ADD_CHART c)
    then show ?thesis using adm step add_chart_ok by (auto simp: quiet_def)
  next
    case (CHART_UPDATE_STOPPED controller)
    with step st plain show ?thesis
      by (auto simp: quiet_def chart_update_stopped_def update_chart_def rbind_eq_Inr or_none_def
          simp del: obj_spread_Cons split: if_splits option.splits)
  next
    case (ANNOTATION_QUERY_STARTED name controller)
    with step obtain c where "s = Some c" by (auto simp: annotation_query_started_def rbind_eq_Inr)
    with ANNOTATION_QUERY_STARTED step plain show ?thesis
      by (auto simp: annotation_query_started_def Let_def simp del: obj_spread_Cons)
  next
    case (ANNOTATION_QUERY_SUCCESS name r)
    with step obtain c where c: "s = Some c" by (auto simp: quiet_def annotation_query_success_def rbind_eq_Inr)
    have "obj_get (layers ''annotationData'' c) n = None \<or> obj_get (layers ''annotationError'' c) n = None" for n
      using state [OF c] by (simp add: layers_ok_def)
    then show ?thesis
      using ANNOTATION_QUERY_SUCCESS step state [OF c] c
        annotation_written_ok [of c _ "obj_set name (jget r ''data'') (layers ''annotationData'' c)"
          "obj_del name (layers ''annotationError'' c)"]
      by (auto simp: quiet_def annotation_query_success_def update_chart_def simp del: obj_spread_Cons)
  next
    case (ANNOTATION_QUERY_FAILED name r)
    with step obtain c where c: "s = Some c" by (auto simp: quiet_def annotation_query_failed_def rbind_eq_Inr)
    have "obj_get (layers ''annotationData'' c) n = None \<or> obj_get (layers ''annotationError'' c) n = None" for n
      using state [OF c] by (simp add: layers_ok_def)
    then show ?thesis
      using ANNOTATION_QUERY_FAILED step state [OF c] c
        annotation_written_ok [of c _ "obj_del name (layers ''annotationData'' c)" "obj_set name _ (layers ''annotationError'' c)"]
      by (auto simp: quiet_def annotation_query_failed_def update_chart_def simp del: obj_spread_Cons)
  qed (use step plain in \<open>auto simp: quiet_def update_chart_def chart_update_failed_def simp del: obj_spread_Cons\<close>)
qed

lemma charts_step_ok:
  assumes ok: "charts_ok cs" and adm: "chart_admissible a cs" and step: "charts_step e a cs = Inr cs'"
  shows "charts_ok cs'"
proof (cases a)
  case (ChartAction key b)
  then obtain c ab where h: "chart_handler e b (obj_get cs key) = Inr (c, ab)" and cs': "cs' = obj_set key c cs"
    using step by (auto simp: charts_step_def chartReducer_def rbind_eq_Inr)
  have "obj_ok c \<and> layers_ok c"
    by (rule chart_handler_ok [OF _ _ h]) (use ok adm ChartAction in \<open>auto simp: charts_ok_def\<close>)
  with ok show ?thesis by (auto simp: charts_ok_def cs')
next
  case (REMOVE_CHART key)
  with step ok show ?thesis
    by (auto simp: charts_step_def chartReducer_def charts_ok_def split: if_splits)
next
  case (UPDATE_CHART_ID newId key)
  have "obj_ok (or_none (obj_get cs key))" "layers_ok (or_none (obj_get cs key))"
    using ok by (cases "obj_get cs key"; simp add: charts_ok_def empty_ok)+
  from update_plain_ok [OF this, of "[(''id'', JNum newId)]"] UPDATE_CHART_ID step ok show ?thesis
    by (auto simp: charts_step_def chartReducer_def charts_ok_def simp del: obj_spread_Cons
        split: if_splits)
next
  case (HYDRATE_CHARTS new)
  with step adm show ?thesis by (auto simp: charts_step_def chartReducer_def charts_ok_def spread_Nil_get)
next
  case SetDatasources
  have "obj_ok (retry_failed c) \<and> layers_ok (retry_failed c)" if "obj_ok c" "layers_ok c" for c
    using update_plain_ok [OF that, of "[(''chartStatus'', JStr []), (''chartStackTrace'', JNull), (''chartAlert'', JNull)]"]
      that by (auto simp: retry_failed_def spread_Nil_get jget_def layers_ok_def layers_def)
  moreover have "obj_get (map (\<lambda>(i, c). (i, retry_failed c)) cs) k = map_option retry_failed (obj_get cs k)" for k
    by (induction cs) auto
  ultimately show ?thesis using SetDatasources step ok
    by (auto simp: charts_step_def chartReducer_def charts_ok_def)
qed

interpretation charts: guarded_reducer "charts_step e" chart_admissible charts_ok for e
  by unfold_locales (rule charts_step_ok)

section \<open>Properties\<close>

text \<open>Stopping a query that a newer one has replaced changes nothing, while stopping the current
  query, or stopping without naming one, leaves the chart stopped and without a query.\<close>

theorem stopping_a_replaced_query:
  assumes "chartReducer e (ChartAction k (CHART_UPDATE_STARTED new)) cs = Inr (cs1, ab)"
    and "truthy new" and "chartReducer e (ChartAction k (CHART_UPDATE_STOPPED old)) cs1 = Inr (cs2, ab')"
  shows "ab' = [] \<and>
    (if truthy old \<and> old \<noteq> new then obj_get cs2 i = obj_get cs1 i
     else \<exists>c. obj_get cs2 k = Some c \<and> jget c ''chartStatus'' = JStr ''stopped'' \<and>
              jget c ''queryController'' = JNull)"
proof -
  from assms(1) obtain c1 where c1: "obj_get cs1 k = Some c1" "jget c1 ''queryController'' = new"
    by (auto simp: chartReducer_def quiet_def update_chart_def)
  show ?thesis
  proof (cases "truthy old \<and> old \<noteq> new")
    case True
    with assms(2,3) c1 have "cs2 = obj_set k c1 cs1" "ab' = []"
      by (auto simp: chartReducer_def quiet_def chart_update_stopped_def)
    then show ?thesis using True c1 by simp
  next
    case False
    with assms(2,3) c1 show ?thesis
      by (auto simp: chartReducer_def quiet_def chart_update_stopped_def update_chart_def)
  qed
qed

definition chart_sample_env :: chart_env where
  "chart_sample_env = \<lparr>msg = (\<lambda>s. s), msg_with = (\<lambda>s v. s), clock = 5\<rparr>"

theorem stopping_a_replaced_query_witness:
  "\<exists>cs1 cs2 ab'. chartReducer chart_sample_env (ChartAction ''1'' (CHART_UPDATE_STOPPED (JStr ''c1''))) cs1 = Inr (cs2, ab') \<and>
     obj_get cs2 ''1'' = obj_get cs1 ''1'' \<and> obj_get cs1 ''1'' \<noteq> None"
proof -
  obtain cs1 ab where s1: "chartReducer chart_sample_env (ChartAction ''1'' (CHART_UPDATE_STARTED (JStr ''c2''))) [] = Inr (cs1, ab)"
    and c: "obj_get cs1 ''1'' \<noteq> None" "jget (the (obj_get cs1 ''1'')) ''queryController'' = JStr ''c2''"
    by (auto simp: chartReducer_def quiet_def update_chart_def)
  obtain cs2 ab' where s2: "chartReducer chart_sample_env (ChartAction ''1'' (CHART_UPDATE_STOPPED (JStr ''c1''))) cs1 = Inr (cs2, ab')"
    using c by (auto simp: chartReducer_def quiet_def chart_update_stopped_def)
  from stopping_a_replaced_query [OF s1 _ s2, of "''1''"] s2 c show ?thesis by auto
qed

text \<open>Whatever actions are dispatched on the charts, charts added or loaded in order included, no
  annotation layer of a chart has data and an error at the same time; and a layer's query that is
  still running is aborted when the layer is queried again.\<close>

theorem annotation_layers_in_order:
  assumes "charts_ok cs" and "run_ok chart_admissible (charts_step e) as cs"
    and "rfold (\<lambda>cs a. charts_step e a cs) cs as = Inr cs'" and "obj_get cs' i = Some c"
  shows "(obj_get (layers ''annotationData'' c) n = None \<or> obj_get (layers ''annotationError'' c) n = None) \<and>
    (\<exists>c'. chart_handler e (ANNOTATION_QUERY_STARTED n new) (Some c) =
       Inr (c', if truthy (chain (jget c ''annotationQuery'') n)
                then [chain (jget c ''annotationQuery'') n] else []) \<and>
       obj_get (layers ''annotationQuery'' c') n = Some new)"
proof -
  have "charts_ok cs'" by (rule charts.run_inv [OF assms(2,1,3)])
  with assms(4) have "layers_ok c" by (simp add: charts_ok_def)
  moreover have "obj_get (layers ''annotationQuery''
      (obj_spread (obj_spread [] c) [(''annotationQuery'', JObj (obj_set n new (layers ''annotationQuery'' c)))])) n = Some new"
    by (subst layers_JObj [of _ _ "obj_set n new (layers ''annotationQuery'' c)"]) simp_all
  ultimately show ?thesis
    by (simp add: layers_ok_def annotation_query_started_def Let_def del: obj_spread_Cons)
qed

theorem annotation_layers_in_order_witness:
  "\<exists>cs' c. rfold (\<lambda>cs a. charts_step chart_sample_env a cs) []
      [ChartAction ''1'' (ADD_CHART []), ChartAction ''1'' (ANNOTATION_QUERY_SUCCESS ''l'' []),
       ChartAction ''1'' (ANNOTATION_QUERY_FAILED ''l'' None)] = Inr cs' \<and> obj_get cs' ''1'' = Some c \<and>
    (obj_get (layers ''annotationData'' c) ''l'' = None \<or> obj_get (layers ''annotationError'' c) ''l'' = None)"
proof -
  let ?as = "[ChartAction ''1'' (ADD_CHART []), ChartAction ''1'' (ANNOTATION_QUERY_SUCCESS ''l'' []),
       ChartAction ''1'' (ANNOTATION_QUERY_FAILED ''l'' None)]"
  have init: "charts_ok []" by (simp add: charts_ok_def)
  have adm: "run_ok chart_admissible (charts_step chart_sample_env) ?as []"
    by (simp add: charts_step_def chartReducer_def quiet_def empty_ok annotation_query_success_def
        annotation_query_failed_def update_chart_def)
  obtain cs' c where run: "rfold (\<lambda>cs a. charts_step chart_sample_env a cs) [] ?as = Inr cs'"
    and c: "obj_get cs' ''1'' = Some c"
    by (simp add: charts_step_def chartReducer_def quiet_def annotation_query_success_def
        annotation_query_failed_def update_chart_def)
  have "obj_get (layers ''annotationData'' c) ''l'' = None \<or> obj_get (layers ''annotationError'' c) ''l'' = None"
    by (rule annotation_layers_in_order [OF init adm run c, THEN conjunct1])
  with run c show ?thesis by blast
qed

end
