(* ===== verification/DataMask.thy ===== *)
theory DataMask
  imports ReduxUtils FilterDeps LayoutModel
begin

text \<open>
  The data masks (\<open>dataMask/reducer.ts\<close>): what every native filter, chart customization and chart
  currently selects, by id. The reducer runs on an \<open>immer\<close> draft, so assigning to the draft is a
  new state. The migration of legacy chart customizations
  (\<open>dashboard/util/migrateChartCustomization.ts\<close>) is part of loading a dashboard.
  lodash's \<open>isEqual\<close> is a parameter.
\<close>

type_synonym masks = "(string, jsobj) obj"

section \<open>Migration of legacy chart customizations\<close>

definition has_key :: "string \<Rightarrow> jsobj \<Rightarrow> bool" where
  "has_key k ob = (obj_get ob k \<noteq> None)"

definition isLegacyChartCustomizationFormat :: "jsval \<Rightarrow> bool" where
  "isLegacyChartCustomizationFormat item =
     (case item of JObj ob \<Rightarrow> has_key ''customization'' ob \<and> \<not> has_key ''type'' ob | _ \<Rightarrow> False)"

text \<open>\<open>Number.parseInt(s, 10)\<close>: leading white space and a sign are allowed, what follows the digits
  is ignored, and without digits the result is NaN.\<close>

definition parse_int :: "string \<Rightarrow> int option" where
  "parse_int s =
     (let t = dropWhile is_blank s;
          negative = (t \<noteq> [] \<and> hd t = CHR ''-'');
          u = (if t \<noteq> [] \<and> hd t \<in> {CHR ''-'', CHR ''+''} then tl t else t);
          ds = takeWhile is_digit u
      in if ds = [] then None else Some (if negative then - digits_val ds else digits_val ds))"

definition or_zero :: "int option \<Rightarrow> int" where
  "or_zero n = (case n of None \<Rightarrow> 0 | Some i \<Rightarrow> i)"

fun extractDatasetId :: "jsval \<Rightarrow> int" where
  "extractDatasetId (JNum n) = n"
| "extractDatasetId (JStr s) = or_zero (parse_int s)"
| "extractDatasetId (JObj ob) =
     (case jget ob ''value'' of JNum n \<Rightarrow> n | v \<Rightarrow> or_zero (parse_int (key_of v)))"
| "extractDatasetId v = 0"

fun extractColumnName :: "jsval \<Rightarrow> jsval" where
  "extractColumnName JNull = JStr []"
| "extractColumnName (JArr xs) = (case xs of [] \<Rightarrow> JStr [] | x # _ \<Rightarrow> js_or x (JStr []))"
| "extractColumnName v = v"

text \<open>\<open>xs.join(', ')\<close>.\<close>

definition join_values :: "jsval list \<Rightarrow> string" where
  "join_values xs =
     (case map (\<lambda>x. if nullish x then [] else key_of x) xs of
        [] \<Rightarrow> []
      | s # ss \<Rightarrow> s @ concat (map (\<lambda>t. '', '' @ t) ss))"

definition migrate_mask :: "jsobj \<Rightarrow> jsobj" where
  "migrate_mask dm =
     (let v = chain (jget dm ''filterState'') ''value''
      in if truthy v
         then let groupby = (case v of JArr xs \<Rightarrow> xs | _ \<Rightarrow> [v]);
                  extra = entries_of (jget dm ''extraFormData'');
                  custom = entries_of (chain (jget dm ''extraFormData'') ''custom_form_data'');
                  state = entries_of (jget dm ''filterState'')
              in obj_spread (obj_spread [] dm)
                   [(''extraFormData'', JObj (obj_spread (obj_spread [] extra)
                      [(''custom_form_data'', JObj (obj_spread (obj_spread [] custom)
                         [(''groupby'', JArr groupby)]))])),
                    (''filterState'', JObj (obj_spread (obj_spread [] state)
                      [(''label'', js_or (chain (jget dm ''filterState'') ''label'')
                                     (JStr (join_values groupby))),
                       (''value'', v)]))]
         else dm)"

text \<open>A legacy item whose \<open>customization\<close> is \<open>null\<close> throws on the first property read.\<close>

definition migrateChartCustomization :: "jsobj \<Rightarrow> jsobj result" where
  "migrateChartCustomization legacy =
    (if nullish (jget legacy ''customization'') then Inl TypeError
     else let c = entries_of (jget legacy ''customization'');
          controlValues = obj_spread
            [(''sortAscending'', jget c ''sortAscending''), (''sortMetric'', jget c ''sortMetric''),
             (''canSelectMultiple'', jget c ''canSelectMultiple'')]
            (if truthy (jget c ''controlValues'') then entries_of (jget c ''controlValues'') else []);
          dm = (if truthy (jget c ''defaultDataMask'') then entries_of (jget c ''defaultDataMask'')
                  else [(''extraFormData'', JObj []), (''filterState'', JObj [])])
      in Inr [(''id'', jget legacy ''id''),
          (''type'', JStr ''CHART_CUSTOMIZATION''),
          (''name'', js_or (js_or (jget c ''name'') (jget legacy ''title'')) (JStr [])),
          (''filterType'', JStr ''chart_customization_dynamic_groupby''),
          (''targets'', JArr [JObj [(''datasetId'', JNum (extractDatasetId (jget c ''dataset''))),
             (''column'', JObj [(''name'', extractColumnName (jget c ''column''))])]]),
          (''scope'', JObj [(''rootPath'', JArr [JStr DASHBOARD_ROOT_ID]), (''excluded'', JArr [])]),
          (''chartsInScope'', if truthy (jget legacy ''chartId'') then JArr [jget legacy ''chartId''] else JUndef),
          (''tabsInScope'', JUndef),
          (''cascadeParentIds'', JArr []),
          (''defaultDataMask'', JObj (migrate_mask dm)),
          (''controlValues'', JObj controlValues),
          (''description'', jget c ''description''),
          (''removed'', jget legacy ''removed'')])"

definition migrateChartCustomizationArray :: "jsval list \<Rightarrow> jsval list result" where
  "migrateChartCustomizationArray items =
     rmap (\<lambda>item. if isLegacyChartCustomizationFormat item
                  then rbind (migrateChartCustomization (entries_of item)) (\<lambda>m. Inr (JObj m))
                  else Inr item) items"

section \<open>The reducer\<close>

definition getInitialDataMask :: "jsval \<Rightarrow> jsobj \<Rightarrow> jsobj" where
  "getInitialDataMask i moreProps =
     obj_spread
       (obj_when (i \<noteq> JUndef) [(''id'', i)] @
        [(''extraFormData'', JObj []), (''filterState'', JObj []), (''ownState'', JObj [])])
       moreProps"

definition ignoring_undefined :: equal_opts where
  "ignoring_undefined = \<lparr>ignoreUndefined = True, ignoreNull = False, ignoreFields = []\<rparr>"

text \<open>The mask of a native filter: the initial one, what the backend gives as a default, what was
  loaded with the dashboard, and the default again when it has changed.\<close>

definition loaded_mask ::
    "(jsval \<Rightarrow> jsval \<Rightarrow> bool) \<Rightarrow> masks option \<Rightarrow> masks option \<Rightarrow> jsobj \<Rightarrow> jsobj" where
  "loaded_mask is_equal initial current f =
     (let i = key_of (jget f ''id'');
          loaded = (case initial of None \<Rightarrow> [] | Some m \<Rightarrow> or_none (obj_get m i));
          dm = obj_spread (obj_spread (getInitialDataMask (jget f ''id'') [])
                 (entries_of (jget f ''defaultDataMask''))) loaded
      in case current of
           None \<Rightarrow> dm
         | Some fs \<Rightarrow>
             if areObjectsEqual is_equal (jget f ''defaultDataMask'')
                  (case obj_get fs i of None \<Rightarrow> JUndef | Some g \<Rightarrow> jget g ''defaultDataMask'') ignoring_undefined
             then dm else obj_spread (obj_spread [] dm) (entries_of (jget f ''defaultDataMask'')))"

text \<open>Every mask of the draft that is not a native filter's is stored under its own id.\<close>

definition keep_by_id :: "(string \<Rightarrow> bool) \<Rightarrow> masks \<Rightarrow> masks \<Rightarrow> masks" where
  "keep_by_id skip draft merged =
     foldl (\<lambda>acc (k, m). let i = key_of (jget m ''id'') in if skip i then acc else obj_set i m acc)
       merged draft"

definition fillNativeFilters ::
    "(jsval \<Rightarrow> jsval \<Rightarrow> bool) \<Rightarrow> jsobj list \<Rightarrow> masks \<Rightarrow> masks \<Rightarrow> masks option \<Rightarrow> masks option \<Rightarrow> masks" where
  "fillNativeFilters is_equal filterConfig merged draft initial current =
     keep_by_id (starts_with NATIVE_FILTER_PREFIX) draft
       (foldl (\<lambda>acc f. obj_set (key_of (jget f ''id'')) (loaded_mask is_equal initial current f) acc)
          merged filterConfig)"

record filter_changes =
  modified :: "jsobj list"
  deleted :: "string list"

definition preserves_state :: "(jsval \<Rightarrow> jsval \<Rightarrow> bool) \<Rightarrow> masks \<Rightarrow> masks option \<Rightarrow> jsobj \<Rightarrow> bool" where
  "preserves_state is_equal draft initial f \<longleftrightarrow>
     (let i = key_of (jget f ''id'');
          prev = (case initial of None \<Rightarrow> JUndef
                  | Some m \<Rightarrow> (case obj_get m i of None \<Rightarrow> JUndef | Some g \<Rightarrow> jget g ''targets''))
      in obj_get draft i \<noteq> None \<and> is_equal prev (jget f ''targets'') \<and>
         (truthy (chain (jget f ''controlValues'') ''enableEmptyFilter'') \<or>
          truthy (chain (jget f ''controlValues'') ''defaultToFirstItem'')))"

definition modified_mask :: "(jsval \<Rightarrow> jsval \<Rightarrow> bool) \<Rightarrow> masks \<Rightarrow> masks option \<Rightarrow> jsobj \<Rightarrow> jsobj" where
  "modified_mask is_equal draft initial f =
     (let existing = or_none (obj_get draft (key_of (jget f ''id'')))
      in obj_spread (obj_spread (obj_spread (getInitialDataMask (jget f ''id'') [])
            (entries_of (jget f ''defaultDataMask''))) f)
          (obj_when (preserves_state is_equal draft initial f)
            [(''extraFormData'', jget existing ''extraFormData''),
             (''filterState'', jget existing ''filterState'')]))"

text \<open>The masks of native filters that were neither modified nor deleted.\<close>

definition keep_native :: "filter_changes \<Rightarrow> masks \<Rightarrow> masks \<Rightarrow> masks" where
  "keep_native changes draft merged =
     foldl (\<lambda>acc (k, m).
         if starts_with NATIVE_FILTER_PREFIX (key_of (jget m ''id'')) \<and> k \<notin> set (deleted changes) \<and>
            \<not> list_ex (\<lambda>f. jget f ''id'' = JStr k) (modified changes)
         then obj_set k m acc else acc)
       merged draft"

definition updateDataMaskForFilterChanges ::
    "(jsval \<Rightarrow> jsval \<Rightarrow> bool) \<Rightarrow> filter_changes \<Rightarrow> masks \<Rightarrow> masks \<Rightarrow> masks option \<Rightarrow> bool \<Rightarrow> masks" where
  "updateDataMaskForFilterChanges is_equal changes merged draft initial isCustomizationChanges =
     (let m1 = foldl (\<lambda>acc i. obj_del i acc) merged (deleted changes);
          m2 = foldl (\<lambda>acc f. obj_set (key_of (jget f ''id'')) (modified_mask is_equal draft initial f) acc)
                 m1 (modified changes)
      in keep_by_id (if isCustomizationChanges then isChartCustomization else starts_with NATIVE_FILTER_PREFIX)
           draft (keep_native changes draft m2))"

text \<open>Loading a dashboard.\<close>

record hydrate_data =
  chart_configuration :: "string list"
  native_filter_configuration :: "jsobj list"
  chart_customization_config :: "jsval list"
  loaded_data_mask :: "masks option"

definition isChartCustomizationItem :: "jsval \<Rightarrow> bool" where
  "isChartCustomizationItem item =
     (case item of
        JObj ob \<Rightarrow> (case obj_get ob ''id'' of Some (JStr s) \<Rightarrow> True | _ \<Rightarrow> False) \<and>
                   has_key ''type'' ob \<and> has_key ''defaultDataMask'' ob
      | _ \<Rightarrow> False)"

definition customization_mask ::
    "(jsval \<Rightarrow> jsval \<Rightarrow> bool) \<Rightarrow> masks \<Rightarrow> masks option \<Rightarrow> jsobj \<Rightarrow> jsobj" where
  "customization_mask is_equal draft loaded item =
     (let i = key_of (jget item ''id''); dflt = jget item ''defaultDataMask'';
          dm = obj_spread (obj_spread (getInitialDataMask (jget item ''id'') []) (entries_of dflt))
                 (case loaded of None \<Rightarrow> [] | Some m \<Rightarrow> or_none (obj_get m i));
          dm' = (if obj_get draft i \<noteq> None \<and> truthy dflt \<and>
                    \<not> areObjectsEqual is_equal dflt (JObj (or_none (obj_get draft i))) ignoring_undefined
                 then obj_spread (obj_spread [] dm) (entries_of dflt) else dm);
          column = chain (jget item ''controlValues'') ''column''
      in if truthy column
         then obj_set ''ownState''
                (JObj (obj_spread (obj_spread [] (entries_of (jget dm' ''ownState''))) [(''column'', column)])) dm'
         else dm')"

definition add_customization ::
    "(jsval \<Rightarrow> jsval \<Rightarrow> bool) \<Rightarrow> masks \<Rightarrow> masks option \<Rightarrow> masks \<Rightarrow> jsval \<Rightarrow> masks" where
  "add_customization is_equal draft loaded acc item =
     (if isChartCustomizationItem item
      then obj_set (key_of (jget (entries_of item) ''id''))
             (customization_mask is_equal draft loaded (entries_of item)) acc
      else acc)"

definition hydrate_dashboard_masks :: "(jsval \<Rightarrow> jsval \<Rightarrow> bool) \<Rightarrow> hydrate_data \<Rightarrow> masks \<Rightarrow> masks result" where
  "hydrate_dashboard_masks is_equal d draft =
     (let m1 = foldl (\<lambda>acc i. obj_set i (obj_spread [] (getInitialDataMask (JStr i) [])) acc) []
                 (chart_configuration d);
          m2 = fillNativeFilters is_equal (native_filter_configuration d) m1 draft (loaded_data_mask d) None;
          raw = chart_customization_config d
      in rbind (if list_ex isLegacyChartCustomizationFormat raw
                then migrateChartCustomizationArray raw else Inr raw)
           (\<lambda>config.
             let m3 = foldl (add_customization is_equal draft (loaded_data_mask d)) m2 config
             in Inr (foldl (\<lambda>acc (k, m).
                    let i = key_of (jget m ''id'')
                    in if truthy (jget m ''id'') \<and> \<not> isChartCustomization i \<and> obj_get acc i = None
                       then obj_set i m acc else acc) m3 draft)))"

datatype mask_action =
    CLEAR_DATA_MASK_STATE
  | UPDATE_DATA_MASK (filter_id: jsval) (data_mask: jsobj)
  | HYDRATE_DASHBOARD hydrate_data
  | HYDRATE_EXPLORE "masks option"
  | SET_DATA_MASK_FOR_FILTER_CHANGES_COMPLETE filter_changes "masks option" bool
  | REMOVE_DATA_MASK jsval

fun dataMaskReducer :: "(jsval \<Rightarrow> jsval \<Rightarrow> bool) \<Rightarrow> mask_action \<Rightarrow> masks \<Rightarrow> masks result" where
  "dataMaskReducer is_equal CLEAR_DATA_MASK_STATE draft = Inr []"
| "dataMaskReducer is_equal (UPDATE_DATA_MASK i dm) draft =
     Inr (obj_set (key_of i)
       (obj_spread (obj_spread (getInitialDataMask i []) (or_none (obj_get draft (key_of i)))) dm) draft)"
| "dataMaskReducer is_equal (HYDRATE_DASHBOARD d) draft = hydrate_dashboard_masks is_equal d draft"
| "dataMaskReducer is_equal (HYDRATE_EXPLORE loaded) draft =
     Inr (case loaded of None \<Rightarrow> draft
          | Some ms \<Rightarrow> foldl (\<lambda>acc (i, m). obj_set i
              (obj_spread (obj_spread (getInitialDataMask (JStr i) []) (or_none (obj_get acc i))) m) acc) draft ms)"
| "dataMaskReducer is_equal (SET_DATA_MASK_FOR_FILTER_CHANGES_COMPLETE changes fs cust) draft =
     Inr (updateDataMaskForFilterChanges is_equal changes [] draft fs cust)"
| "dataMaskReducer is_equal (REMOVE_DATA_MASK i) draft = Inr (obj_del (key_of i) draft)"

section \<open>Masks are stored under their own ids\<close>

text \<open>The entries of an object that may be spread over a mask with id \<open>k\<close>: they carry that id, or
  none.\<close>

definition own_id :: "string \<Rightarrow> jsobj \<Rightarrow> bool" where
  "own_id k ob = (case map_of (rev ob) ''id'' of None \<Rightarrow> True | Some v \<Rightarrow> key_of v = k)"

definition mask_at :: "string \<Rightarrow> jsobj \<Rightarrow> bool" where
  "mask_at k m \<longleftrightarrow> obj_ok m \<and> key_of (jget m ''id'') = k"

definition masks_keyed :: "masks \<Rightarrow> bool" where
  "masks_keyed s \<longleftrightarrow> obj_ok s \<and> list_all (\<lambda>(k, m). mask_at k m) s"

text \<open>The payloads the reducer is dispatched with: masks that do not carry another mask's id.\<close>

definition masks_own :: "masks option \<Rightarrow> bool" where
  "masks_own ms = (case ms of None \<Rightarrow> True | Some l \<Rightarrow> list_all (\<lambda>(k, m). own_id k m) l)"

definition default_own :: "jsobj \<Rightarrow> bool" where
  "default_own f = own_id (key_of (jget f ''id'')) (entries_of (jget f ''defaultDataMask''))"

definition customization_own :: "jsval \<Rightarrow> bool" where
  "customization_own item =
     (if isLegacyChartCustomizationFormat item
      then own_id (key_of (jget (entries_of item) ''id''))
             (entries_of (jget (entries_of (jget (entries_of item) ''customization'')) ''defaultDataMask''))
      else default_own (entries_of item))"

fun mask_admissible :: "mask_action \<Rightarrow> masks \<Rightarrow> bool" where
  "mask_admissible CLEAR_DATA_MASK_STATE s = True"
| "mask_admissible (UPDATE_DATA_MASK i dm) s = own_id (key_of i) dm"
| "mask_admissible (HYDRATE_DASHBOARD d) s =
     (masks_own (loaded_data_mask d) \<and> list_all default_own (native_filter_configuration d) \<and>
      list_all customization_own (chart_customization_config d))"
| "mask_admissible (HYDRATE_EXPLORE loaded) s = masks_own loaded"
| "mask_admissible (SET_DATA_MASK_FOR_FILTER_CHANGES_COMPLETE changes fs cust) s =
     list_all (\<lambda>f. obj_ok f \<and> default_own f) (modified changes)"
| "mask_admissible (REMOVE_DATA_MASK i) s = True"

named_theorems mask_intros

lemma own_id_Nil [simp]: "own_id k []"
  by (simp add: own_id_def)

lemma masks_keyed_Nil [simp]: "masks_keyed []"
  by (simp add: masks_keyed_def)

lemma own_id_ok: "obj_ok ob \<Longrightarrow> own_id k ob \<longleftrightarrow> (obj_get ob ''id'' = None \<or> key_of (jget ob ''id'') = k)"
  by (simp add: own_id_def map_of_rev_ok jget_def split: option.splits)

lemma mask_at_own: "mask_at k m \<Longrightarrow> own_id k m"
  by (simp add: mask_at_def own_id_ok)

lemma own_id_absent: "''id'' \<notin> fst ` set ob \<Longrightarrow> own_id k ob"
proof -
  assume "''id'' \<notin> fst ` set ob"
  then have "map_of (rev ob) ''id'' = None" by (simp add: map_of_eq_None_iff)
  then show ?thesis by (simp add: own_id_def)
qed

lemma mask_at_spread [mask_intros]: "mask_at k m \<Longrightarrow> own_id k ob \<Longrightarrow> mask_at k (obj_spread m ob)"
  unfolding mask_at_def own_id_def jget_spread by (auto split: option.splits)

lemma mask_at_initial [mask_intros]: "k = key_of i \<Longrightarrow> mask_at k (getInitialDataMask i [])"
  by (simp add: mask_at_def getInitialDataMask_def obj_when_def obj_ok_def)

lemma mask_at_copy [mask_intros]: "mask_at k m \<Longrightarrow> mask_at k (obj_spread [] m)"
proof -
  assume m: "mask_at k m"
  then have ok: "obj_ok m" by (simp add: mask_at_def)
  have "jget (obj_spread [] m) ''id'' = jget m ''id''"
    unfolding jget_spread map_of_rev_ok [OF ok] by (simp add: jget_def split: option.split)
  with m show ?thesis by (simp add: mask_at_def)
qed

lemma mask_at_obj_set [mask_intros]: "mask_at k m \<Longrightarrow> k' \<noteq> ''id'' \<Longrightarrow> mask_at k (obj_set k' v m)"
  by (simp add: mask_at_def)

lemma masks_keyed_get: "masks_keyed s \<Longrightarrow> obj_get s k = Some m \<Longrightarrow> mask_at k m"
  by (auto simp: masks_keyed_def list_all_iff dest!: map_of_SomeD)

lemma masks_keyed_get_own: "masks_keyed s \<Longrightarrow> own_id k (or_none (obj_get s k))"
  by (cases "obj_get s k") (auto dest: masks_keyed_get mask_at_own)

lemma masks_own_get: "masks_own (Some l) \<Longrightarrow> own_id k (or_none (obj_get l k))"
  by (cases "obj_get l k") (auto simp: masks_own_def list_all_iff dest!: map_of_SomeD)

lemma set_obj_set_subset: "set (obj_set k v ob) \<subseteq> insert (k, v) (set ob)"
  by (induction ob) (auto split: if_splits)

lemma masks_keyed_set [mask_intros]: "masks_keyed s \<Longrightarrow> mask_at k m \<Longrightarrow> masks_keyed (obj_set k m s)"
  using set_obj_set_subset [of k m s] by (auto simp: masks_keyed_def list_all_iff)

lemma masks_keyed_del [mask_intros]: "masks_keyed s \<Longrightarrow> masks_keyed (obj_del k s)"
  by (auto simp: masks_keyed_def list_all_iff obj_del_def obj_ok_def distinct_map_filter)

lemma masks_keyed_fold:
  assumes "masks_keyed s" and "\<And>s x. x \<in> set xs \<Longrightarrow> masks_keyed s \<Longrightarrow> masks_keyed (f s x)"
  shows "masks_keyed (foldl f s xs)"
  using assms by (induction xs arbitrary: s) auto

lemma keep_by_id_keyed [mask_intros]:
  "masks_keyed draft \<Longrightarrow> masks_keyed merged \<Longrightarrow> masks_keyed (keep_by_id skip draft merged)"
  unfolding keep_by_id_def
  by (rule masks_keyed_fold)
     (auto simp: masks_keyed_def list_all_iff mask_at_def Let_def dest!: subsetD [OF set_obj_set_subset])

lemma keep_native_keyed [mask_intros]:
  "masks_keyed draft \<Longrightarrow> masks_keyed merged \<Longrightarrow> masks_keyed (keep_native changes draft merged)"
  unfolding keep_native_def
  by (rule masks_keyed_fold)
     (auto simp: masks_keyed_def list_all_iff mask_at_def dest!: subsetD [OF set_obj_set_subset])

lemma loaded_own:
  "masks_own loaded \<Longrightarrow> own_id k (case loaded of None \<Rightarrow> [] | Some l \<Rightarrow> or_none (obj_get l k))"
  by (cases loaded) (auto intro: masks_own_get)

lemma loaded_mask_at:
  assumes "masks_own initial" and "default_own f"
  shows "mask_at (key_of (jget f ''id'')) (loaded_mask is_equal initial current f)"
  using assms unfolding loaded_mask_def Let_def default_own_def
  by (auto split: option.split intro!: mask_intros masks_own_get)

lemma fillNativeFilters_keyed [mask_intros]:
  assumes "masks_own initial" and "list_all default_own filters" and "masks_keyed merged" and "masks_keyed draft"
  shows "masks_keyed (fillNativeFilters is_equal filters merged draft initial current)"
  unfolding fillNativeFilters_def using assms
  by (auto simp: list_all_iff intro!: mask_intros masks_keyed_fold loaded_mask_at)

lemma preserved_own [simp]: "own_id k (obj_when c [(''extraFormData'', v), (''filterState'', w)])"
  by (cases c) (auto intro!: own_id_absent)

lemma modified_mask_at:
  assumes "obj_ok f" and "default_own f"
  shows "mask_at (key_of (jget f ''id'')) (modified_mask is_equal draft initial f)"
  using assms unfolding modified_mask_def Let_def default_own_def
  by (auto simp: own_id_ok intro!: mask_intros)

lemma filter_changes_keyed:
  assumes "list_all (\<lambda>f. obj_ok f \<and> default_own f) (modified changes)" and "masks_keyed draft" and "masks_keyed merged"
  shows "masks_keyed (updateDataMaskForFilterChanges is_equal changes merged draft initial cust)"
  unfolding updateDataMaskForFilterChanges_def Let_def using assms
  by (auto simp: list_all_iff intro!: mask_intros masks_keyed_fold modified_mask_at)

lemma customization_mask_at:
  assumes "masks_own loaded" and "default_own item"
  shows "mask_at (key_of (jget item ''id'')) (customization_mask is_equal draft loaded item)"
proof -
  let ?k = "key_of (jget item ''id'')"
  let ?base = "obj_spread (obj_spread (getInitialDataMask (jget item ''id'') [])
      (entries_of (jget item ''defaultDataMask'')))
    (case loaded of None \<Rightarrow> [] | Some l \<Rightarrow> or_none (obj_get l ?k))"
  have own: "own_id ?k (entries_of (jget item ''defaultDataMask''))"
    using assms(2) by (simp add: default_own_def)
  have base: "mask_at ?k ?base"
    using own assms(1) by (auto intro!: mask_intros loaded_own)
  have again: "mask_at ?k (obj_spread (obj_spread [] ?base) (entries_of (jget item ''defaultDataMask'')))"
    using own base by (auto intro!: mask_intros)
  show ?thesis
    unfolding customization_mask_def Let_def using base again
    by (auto intro!: mask_at_obj_set)
qed

lemma own_id_spread:
  assumes "obj_ok a" and "own_id k a" and "own_id k b" shows "own_id k (obj_spread a b)"
proof -
  from assms(1) have "obj_ok (obj_spread a b)" by simp
  with assms show ?thesis
    by (auto simp: own_id_ok own_id_def [of k b] jget_def obj_get_spread split: option.splits)
qed

lemma migrate_mask_own:
  assumes "own_id k dm" shows "own_id k (migrate_mask dm)"
proof (cases "truthy (chain (jget dm ''filterState'') ''value'')")
  case False
  with assms show ?thesis by (simp add: migrate_mask_def)
next
  case True
  have "own_id k (obj_spread (obj_spread [] dm) [(''extraFormData'', v), (''filterState'', w)])" for v w
    using assms by (intro own_id_spread) (auto intro: own_id_absent)
  with True show ?thesis by (simp add: migrate_mask_def Let_def)
qed

lemma migrated_own:
  assumes "customization_own (JObj ob)" and "isLegacyChartCustomizationFormat (JObj ob)"
    and "migrateChartCustomization ob = Inr m"
  shows "default_own m"
proof -
  have "own_id k [(''extraFormData'', v), (''filterState'', w)]" for k v w
    by (rule own_id_absent) simp
  with assms show ?thesis
    by (auto simp: migrateChartCustomization_def default_own_def customization_own_def Let_def
        split: if_splits intro!: migrate_mask_own)
qed

lemma migrated_array_own:
  assumes "list_all customization_own items"
    and "rmap (\<lambda>item. if isLegacyChartCustomizationFormat item
                  then rbind (migrateChartCustomization (entries_of item)) (\<lambda>m. Inr (JObj m))
                  else Inr item) items = Inr config"
  shows "list_all (\<lambda>item. default_own (entries_of item)) config"
  using assms
proof (induction items arbitrary: config)
  case Nil
  then show ?case by simp
next
  case (Cons item items)
  show ?case
  proof (cases "isLegacyChartCustomizationFormat item")
    case True
    then obtain ob where item: "item = JObj ob"
      by (auto simp: isLegacyChartCustomizationFormat_def split: jsval.splits)
    with True Cons show ?thesis
      by (auto simp: rbind_eq_Inr intro: migrated_own)
  next
    case False
    with Cons show ?thesis by (auto simp: rbind_eq_Inr customization_own_def)
  qed
qed

lemma customizations_own:
  assumes "list_all customization_own raw"
    and "(if list_ex isLegacyChartCustomizationFormat raw then migrateChartCustomizationArray raw else Inr raw)
         = Inr config"
  shows "list_all (\<lambda>item. default_own (entries_of item)) config"
proof (cases "list_ex isLegacyChartCustomizationFormat raw")
  case True
  with assms show ?thesis
    by (auto simp: migrateChartCustomizationArray_def intro: migrated_array_own)
next
  case False
  with assms show ?thesis by (auto simp: customization_own_def list_all_iff list_ex_iff)
qed

lemma add_customization_keyed [mask_intros]:
  assumes "masks_keyed acc" and "masks_own loaded" and "default_own (entries_of item)"
  shows "masks_keyed (add_customization is_equal draft loaded acc item)"
  using assms by (auto simp: add_customization_def intro!: masks_keyed_set customization_mask_at)

lemma hydrate_dashboard_keyed:
  assumes "mask_admissible (HYDRATE_DASHBOARD d) draft" and "masks_keyed draft"
    and "hydrate_dashboard_masks is_equal d draft = Inr s"
  shows "masks_keyed s"
proof -
  let ?m1 = "foldl (\<lambda>acc i. obj_set i (obj_spread [] (getInitialDataMask (JStr i) [])) acc) []
               (chart_configuration d)"
  let ?m2 = "fillNativeFilters is_equal (native_filter_configuration d) ?m1 draft (loaded_data_mask d) None"
  from assms(1) have adm: "masks_own (loaded_data_mask d)"
      "list_all default_own (native_filter_configuration d)"
      "list_all customization_own (chart_customization_config d)"
    by simp_all
  from assms(3) obtain config where
    config: "(if list_ex isLegacyChartCustomizationFormat (chart_customization_config d)
        then migrateChartCustomizationArray (chart_customization_config d)
        else Inr (chart_customization_config d)) = Inr config"
    and s: "s = foldl (\<lambda>acc (k, m).
                    let i = key_of (jget m ''id'')
                    in if truthy (jget m ''id'') \<and> \<not> isChartCustomization i \<and> obj_get acc i = None
                       then obj_set i m acc else acc)
           (foldl (add_customization is_equal draft (loaded_data_mask d)) ?m2 config) draft"
    unfolding hydrate_dashboard_masks_def Let_def rbind_eq_Inr by blast
  have "masks_keyed ?m1"
    by (rule masks_keyed_fold) (auto intro!: mask_intros)
  then have m2: "masks_keyed ?m2"
    using adm assms(2) by (auto intro!: mask_intros)
  have "masks_keyed (foldl (add_customization is_equal draft (loaded_data_mask d)) ?m2 config)"
    using customizations_own [OF adm(3) config] m2 adm(1)
    by (auto simp: list_all_iff intro!: masks_keyed_fold add_customization_keyed)
  then show ?thesis
    unfolding s using assms(2)
    by (rule_tac masks_keyed_fold)
       (auto simp: masks_keyed_def list_all_iff mask_at_def Let_def dest!: subsetD [OF set_obj_set_subset])
qed

lemma mask_step_keyed:
  assumes "masks_keyed s" and "mask_admissible a s" and "dataMaskReducer is_equal a s = Inr s'"
  shows "masks_keyed s'"
proof (cases a)
  case (UPDATE_DATA_MASK i dm)
  with assms show ?thesis
    by (auto intro!: mask_intros masks_keyed_get_own)
next
  case (HYDRATE_DASHBOARD d)
  with assms hydrate_dashboard_keyed show ?thesis by auto
next
  case (HYDRATE_EXPLORE loaded)
  with assms show ?thesis
    by (cases loaded)
       (auto simp: masks_own_def list_all_iff intro!: mask_intros masks_keyed_get_own masks_keyed_fold)
next
  case (SET_DATA_MASK_FOR_FILTER_CHANGES_COMPLETE changes fs cust)
  with assms filter_changes_keyed show ?thesis by auto
qed (use assms in \<open>auto intro: mask_intros\<close>)

interpretation masks: guarded_reducer "dataMaskReducer is_equal" mask_admissible masks_keyed for is_equal
  by unfold_locales (rule mask_step_keyed)

text \<open>Under every run of the data mask reducer's actions (updates, loading a dashboard with
  legacy or new customizations, loading a chart, saving filter changes, removals) whose payloads carry no foreign
  id, every mask is stored once and under its own id, whatever lodash's comparison answers.\<close>

theorem masks_stored_under_their_ids:
  assumes "run_ok mask_admissible (dataMaskReducer is_equal) as []"
    and "rfold (\<lambda>s a. dataMaskReducer is_equal a s) [] as = Inr s"
  shows "distinct (map fst s) \<and> (\<forall>k m. obj_get s k = Some m \<longrightarrow> key_of (jget m ''id'') = k)"
proof -
  from masks.run_inv [OF assms(1) masks_keyed_Nil assms(2)] have "masks_keyed s" .
  then show ?thesis by (auto simp: masks_keyed_def obj_ok_def list_all_iff mask_at_def dest!: map_of_SomeD)
qed

theorem masks_stored_under_their_ids_witness:
  "\<exists>s. rfold (\<lambda>s a. dataMaskReducer (\<lambda>x y. x = y) a s) []
      [UPDATE_DATA_MASK (JNum 7) [(''filterState'', JObj [(''value'', JNum 1)])],
       HYDRATE_DASHBOARD \<lparr>chart_configuration = [''7''],
         native_filter_configuration = [[(''id'', JStr ''NATIVE_FILTER-a'')]],
         chart_customization_config = [JObj [(''customization'', JObj [(''dataset'', JStr '' 12x'')]),
                                             (''id'', JStr ''CHART_CUSTOMIZATION-b'')]],
         loaded_data_mask = None\<rparr>,
       SET_DATA_MASK_FOR_FILTER_CHANGES_COMPLETE
         \<lparr>modified = [[(''id'', JStr ''NATIVE_FILTER-c'')]], deleted = [''NATIVE_FILTER-a'']\<rparr> None False,
       REMOVE_DATA_MASK (JNum 8)] = Inr s \<and>
    distinct (map fst s) \<and> key_of (jget (or_none (obj_get s ''CHART_CUSTOMIZATION-b'')) ''id'') = ''CHART_CUSTOMIZATION-b''"
proof -
  let ?as = "[UPDATE_DATA_MASK (JNum 7) [(''filterState'', JObj [(''value'', JNum 1)])],
       HYDRATE_DASHBOARD \<lparr>chart_configuration = [''7''],
         native_filter_configuration = [[(''id'', JStr ''NATIVE_FILTER-a'')]],
         chart_customization_config = [JObj [(''customization'', JObj [(''dataset'', JStr '' 12x'')]),
                                             (''id'', JStr ''CHART_CUSTOMIZATION-b'')]],
         loaded_data_mask = None\<rparr>,
       SET_DATA_MASK_FOR_FILTER_CHANGES_COMPLETE
         \<lparr>modified = [[(''id'', JStr ''NATIVE_FILTER-c'')]], deleted = [''NATIVE_FILTER-a'']\<rparr> None False,
       REMOVE_DATA_MASK (JNum 8)]"
  have ok: "run_ok mask_admissible (dataMaskReducer (\<lambda>x y. x = y)) ?as []" by code_simp
  obtain s m where s: "rfold (\<lambda>s a. dataMaskReducer (\<lambda>x y. x = y) a s) [] ?as = Inr s"
    and m: "obj_get s ''CHART_CUSTOMIZATION-b'' = Some m"
  proof -
    have "(case rfold (\<lambda>s a. dataMaskReducer (\<lambda>x y. x = y) a s) [] ?as of Inl e \<Rightarrow> False
        | Inr s \<Rightarrow> obj_get s ''CHART_CUSTOMIZATION-b'' \<noteq> None)" by code_simp
    with that show thesis by (auto split: sum.splits)
  qed
  have d: "distinct (map fst s) \<and> (\<forall>k m. obj_get s k = Some m \<longrightarrow> key_of (jget m ''id'') = k)"
    by (rule masks_stored_under_their_ids [OF ok s])
  with m have "key_of (jget (or_none (obj_get s ''CHART_CUSTOMIZATION-b'')) ''id'') = ''CHART_CUSTOMIZATION-b''"
    by (simp add: or_none_def)
  with s d show ?thesis
    by (rule_tac exI [of _ s]) (rule conjI [OF s conjI [OF conjunct1 [OF d]]])
qed

section \<open>Saving the changes of filters\<close>

lemma keep_by_id_get:
  assumes "masks_keyed draft"
  shows "obj_get (keep_by_id skip draft merged) k =
    (if \<not> skip k \<and> obj_get draft k \<noteq> None then obj_get draft k else obj_get merged k)"
  using assms unfolding keep_by_id_def masks_keyed_def
proof (induction draft arbitrary: merged)
  case Nil
  then show ?case by simp
next
  case (Cons e draft)
  obtain k' m where e: "e = (k', m)" by (cases e)
  with Cons.prems have m: "key_of (jget m ''id'') = k'" and fresh: "obj_get draft k' = None"
    and rest: "obj_ok draft \<and> list_all (\<lambda>(k, m). mask_at k m) draft"
    by (auto simp: mask_at_def obj_ok_def map_of_eq_None_iff)
  show ?case
    using Cons.IH [OF rest] fresh by (auto simp: e m Let_def)
qed

lemma keep_native_get:
  assumes "masks_keyed draft"
  shows "obj_get (keep_native changes draft merged) k =
    (if starts_with NATIVE_FILTER_PREFIX k \<and> k \<notin> set (deleted changes) \<and>
        \<not> list_ex (\<lambda>f. jget f ''id'' = JStr k) (modified changes) \<and> obj_get draft k \<noteq> None
     then obj_get draft k else obj_get merged k)"
  using assms unfolding keep_native_def masks_keyed_def
proof (induction draft arbitrary: merged)
  case Nil
  then show ?case by simp
next
  case (Cons e draft)
  obtain k' m where e: "e = (k', m)" by (cases e)
  with Cons.prems have m: "key_of (jget m ''id'') = k'" and fresh: "obj_get draft k' = None"
    and rest: "obj_ok draft \<and> list_all (\<lambda>(k, m). mask_at k m) draft"
    by (auto simp: mask_at_def obj_ok_def map_of_eq_None_iff)
  show ?case
    using Cons.IH [OF rest] fresh by (auto simp: e m)
qed

lemma modified_get:
  assumes "distinct (map (\<lambda>f. jget f ''id'') fs)" and "\<forall>f \<in> set fs. \<exists>i. jget f ''id'' = JStr i"
  shows "obj_get (foldl (\<lambda>acc f. obj_set (key_of (jget f ''id'')) (g f) acc) m fs) k =
    (case find (\<lambda>f. jget f ''id'' = JStr k) fs of None \<Rightarrow> obj_get m k | Some f \<Rightarrow> Some (g f))"
proof (cases "find (\<lambda>f. jget f ''id'' = JStr k) fs")
  case None
  have "k \<notin> (\<lambda>f. key_of (jget f ''id'')) ` set fs"
  proof
    assume "k \<in> (\<lambda>f. key_of (jget f ''id'')) ` set fs"
    then obtain f where f: "f \<in> set fs" "k = key_of (jget f ''id'')" by blast
    with assms(2) obtain i where "jget f ''id'' = JStr i" by blast
    with f None show False by (auto simp: find_None_iff)
  qed
  with None show ?thesis by (simp add: od.get_foldl_put_notin)
next
  case (Some f)
  then have f: "f \<in> set fs" "jget f ''id'' = JStr k" by (auto simp: find_Some_iff)
  have "inj_on key_of ((\<lambda>f. jget f ''id'') ` set fs)"
  proof (rule inj_onI)
    fix x y
    assume "x \<in> (\<lambda>f. jget f ''id'') ` set fs" "y \<in> (\<lambda>f. jget f ''id'') ` set fs" "key_of x = key_of y"
    moreover from calculation assms(2) obtain i j where "x = JStr i" "y = JStr j" by blast
    ultimately show "x = y" by simp
  qed
  with assms(1) have "distinct (map (\<lambda>f. key_of (jget f ''id'')) fs)"
    by (simp add: distinct_map inj_on_def)
  from od.get_foldl_put_map [OF this f(1)] f(2) Some show ?thesis by simp
qed

text \<open>C39: What a mask is after filter changes were saved, when the ids of the modified filters are distinct
  strings: a mask of a skipped kind is the modified filter's, or, for an unmodified native filter that was
  not deleted, the old one, or absent. Every other old mask stays, even when the changes delete or modify it:
  the deletion of a divider, whose id has a prefix of its own, is undone. The skipped kind is the native filters or,
  for changes of chart customizations, the chart customizations; of the latter those that are not
  among the changes lose their mask.\<close>

theorem masks_after_filter_changes:
  assumes "masks_keyed draft" and "distinct (map (\<lambda>f. jget f ''id'') (modified changes))"
    and "\<forall>f \<in> set (modified changes). \<exists>i. jget f ''id'' = JStr i"
    and "dataMaskReducer is_equal (SET_DATA_MASK_FOR_FILTER_CHANGES_COMPLETE changes fs cust) draft = Inr s"
  shows "obj_get s k =
    (if \<not> (if cust then isChartCustomization k else starts_with NATIVE_FILTER_PREFIX k) \<and>
        obj_get draft k \<noteq> None
     then obj_get draft k
     else case find (\<lambda>f. jget f ''id'' = JStr k) (modified changes) of
            Some f \<Rightarrow> Some (modified_mask is_equal draft fs f)
          | None \<Rightarrow> if starts_with NATIVE_FILTER_PREFIX k \<and> k \<notin> set (deleted changes)
                    then obj_get draft k else None)"
proof -
  let ?m = "foldl (\<lambda>acc f. obj_set (key_of (jget f ''id'')) (modified_mask is_equal draft fs f) acc)
              (foldl (\<lambda>acc i. obj_del i acc) [] (deleted changes)) (modified changes)"
  have s: "s = keep_by_id (if cust then isChartCustomization else starts_with NATIVE_FILTER_PREFIX) draft
      (keep_native changes draft ?m)"
    using assms(4) by (simp add: updateDataMaskForFilterChanges_def Let_def)
  have "obj_get (foldl (\<lambda>acc i. obj_del i acc) ([] :: masks) (deleted changes)) k = None"
    by (simp add: od.get_foldl_del)
  then have m: "obj_get ?m k = (case find (\<lambda>f. jget f ''id'' = JStr k) (modified changes) of None \<Rightarrow> None
      | Some f \<Rightarrow> Some (modified_mask is_equal draft fs f))"
    by (simp add: modified_get [OF assms(2,3)] split: option.split)
  have ex: "list_ex (\<lambda>f. jget f ''id'' = JStr k) (modified changes) \<longleftrightarrow>
      find (\<lambda>f. jget f ''id'' = JStr k) (modified changes) \<noteq> None"
    by (auto simp: list_ex_iff find_None_iff)
  show ?thesis
    unfolding s keep_by_id_get [OF assms(1)] keep_native_get [OF assms(1)] m ex
    by (auto split: option.splits)
qed

theorem masks_after_filter_changes_witness:
  "\<exists>s. dataMaskReducer (\<lambda>x y. x = y)
     (SET_DATA_MASK_FOR_FILTER_CHANGES_COMPLETE
       \<lparr>modified = [], deleted = [''NATIVE_FILTER_DIVIDER-b'']\<rparr> None False)
     [(''NATIVE_FILTER_DIVIDER-b'', [(''id'', JStr ''NATIVE_FILTER_DIVIDER-b'')])] = Inr s \<and>
     obj_get s ''NATIVE_FILTER_DIVIDER-b'' \<noteq> None"
proof -
  let ?draft = "[(''NATIVE_FILTER_DIVIDER-b'', [(''id'', JStr ''NATIVE_FILTER_DIVIDER-b'')])]"
  let ?changes = "\<lparr>modified = [], deleted = [''NATIVE_FILTER_DIVIDER-b'']\<rparr>"
  obtain s where s: "dataMaskReducer (\<lambda>x y. x = y)
      (SET_DATA_MASK_FOR_FILTER_CHANGES_COMPLETE ?changes None False) ?draft = Inr s" by simp
  have "masks_keyed ?draft" by code_simp
  then have "obj_get s ''NATIVE_FILTER_DIVIDER-b'' = obj_get ?draft ''NATIVE_FILTER_DIVIDER-b''"
    by (subst masks_after_filter_changes [OF _ _ _ s]) (simp_all add: starts_with_def NATIVE_FILTER_PREFIX_def)
  with s show ?thesis by (intro exI [of _ s]) simp
qed

end
