(* ===== verification/Folders.thy ===== *)
theory Folders
  imports Prelude
begin

text \<open>
  The folders that group the metrics and columns of a dataset
  (\<open>components/Datasource/FoldersEditor\<close>: \<open>constants.ts\<close>, \<open>treeUtils.ts\<close>,
  \<open>folderOperations.ts\<close>, \<open>folderValidation.ts\<close>). The editor keeps a tree; for dragging it works on the
  flattened list of the tree and builds the tree again. Fresh identifiers and translated texts are
  arguments. A drag offset is a number of whole pixels. The flattened items' \<open>collapsed\<close>, which no
  tree item has and nothing reads, is left out.
\<close>

section \<open>Trees and flattened trees\<close>

text \<open>What the API sends for an item may lack the type and the name. \<open>None\<close> is an absent property:
  a folder can come without \<open>children\<close>.\<close>

datatype leaf_type = MetricLeaf | ColumnLeaf | UntypedLeaf

datatype tree_item =
    Folder string "string option" "string option" "tree_item list option"
  | Leaf leaf_type string "string option"

datatype editor_type = FolderType | LeafType leaf_type

fun uuid_of :: "tree_item \<Rightarrow> string" where
  "uuid_of (Folder u n d cs) = u"
| "uuid_of (Leaf t u n) = u"

fun name_of :: "tree_item \<Rightarrow> string option" where
  "name_of (Folder u n d cs) = n"
| "name_of (Leaf t u n) = n"

fun kids_of :: "tree_item \<Rightarrow> tree_item list option" where
  "kids_of (Folder u n d cs) = cs"
| "kids_of (Leaf t u n) = None"

fun is_folder :: "tree_item \<Rightarrow> bool" where
  "is_folder (Folder u n d cs) = True"
| "is_folder (Leaf t u n) = False"

record flat_item =
  uuid :: string
  editor_type :: editor_type
  item_name :: "string option"
  item_description :: "string option"
  item_children :: "tree_item list option"
  parentId :: "string option"
  depth :: int
  index :: nat

definition DEFAULT_METRICS_FOLDER_UUID :: string where
  "DEFAULT_METRICS_FOLDER_UUID = ''255b537d-58c8-443d-9fc1-4e4dc75047e2''"
definition DEFAULT_COLUMNS_FOLDER_UUID :: string where
  "DEFAULT_COLUMNS_FOLDER_UUID = ''83a7ae8f-2e8a-4f2b-a8cb-ebaebef95b9b''"
definition DRAG_INDENTATION_WIDTH :: int where "DRAG_INDENTATION_WIDTH = 64"
definition MAX_DEPTH :: int where "MAX_DEPTH = 3"

definition isDefaultFolder :: "string \<Rightarrow> bool" where
  "isDefaultFolder folderId \<longleftrightarrow>
     folderId = DEFAULT_METRICS_FOLDER_UUID \<or> folderId = DEFAULT_COLUMNS_FOLDER_UUID"

fun flat_of :: "tree_item \<Rightarrow> string option \<Rightarrow> int \<Rightarrow> nat \<Rightarrow> flat_item" where
  "flat_of (Folder u n d cs) p k i =
     \<lparr>uuid = u, editor_type = FolderType, item_name = n, item_description = d, item_children = cs,
      parentId = p, depth = k, index = i\<rparr>"
| "flat_of (Leaf t u n) p k i =
     \<lparr>uuid = u, editor_type = LeafType t, item_name = n, item_description = None, item_children = None,
      parentId = p, depth = k, index = i\<rparr>"

fun flatten :: "tree_item list \<Rightarrow> string option \<Rightarrow> int \<Rightarrow> nat \<Rightarrow> flat_item list" where
  "flatten [] p k i = []"
| "flatten (Folder u n d (Some cs) # items) p k i =
     flat_of (Folder u n d (Some cs)) p k i # flatten cs (Some u) (k + 1) 0 @ flatten items p k (Suc i)"
| "flatten (Folder u n d None # items) p k i =
     flat_of (Folder u n d None) p k i # flatten items p k (Suc i)"
| "flatten (Leaf t u n # items) p k i = flat_of (Leaf t u n) p k i # flatten items p k (Suc i)"

definition flattenTree :: "tree_item list \<Rightarrow> flat_item list" where
  "flattenTree items = flatten items None 0 0"

text \<open>
  \<open>buildTree\<close> first makes a node for every item (of items with one identifier the last wins), then links
  the nodes: the roots and the children of every folder, in the order of the items. Items whose parent is not a
  folder are linked nowhere. An empty parent identifier is none.
\<close>

datatype node = FolderNode "string option" "string option" | LeafNode leaf_type "string option"

definition node_of :: "flat_item \<Rightarrow> node" where
  "node_of x =
     (case editor_type x of
        FolderType \<Rightarrow> FolderNode (item_name x) (item_description x)
      | LeafType t \<Rightarrow> LeafNode t (item_name x))"

definition nodes_of :: "flat_item list \<Rightarrow> (string, node) obj" where
  "nodes_of xs = foldl (\<lambda>m x. obj_set (uuid x) (node_of x) m) [] xs"

definition parent_of :: "flat_item \<Rightarrow> string option" where
  "parent_of x = (case parentId x of Some p \<Rightarrow> if p = [] then None else Some p | None \<Rightarrow> None)"

record links =
  roots :: "string list"
  kids :: "(string, string list) obj"

definition kids_in :: "links \<Rightarrow> string \<Rightarrow> string list" where
  "kids_in l u = (case obj_get (kids l) u of None \<Rightarrow> [] | Some us \<Rightarrow> us)"

definition link_item :: "(string, node) obj \<Rightarrow> links \<Rightarrow> flat_item \<Rightarrow> links" where
  "link_item nodes l x =
     (case parent_of x of
        None \<Rightarrow> l\<lparr>roots := roots l @ [uuid x]\<rparr>
      | Some p \<Rightarrow>
          (case obj_get nodes p of
             None \<Rightarrow> l\<lparr>roots := roots l @ [uuid x]\<rparr>
           | Some (FolderNode n d) \<Rightarrow> l\<lparr>kids := obj_set p (kids_in l p @ [uuid x]) (kids l)\<rparr>
           | Some (LeafNode t n) \<Rightarrow> l))"

definition links_of :: "flat_item list \<Rightarrow> links" where
  "links_of xs = foldl (link_item (nodes_of xs)) \<lparr>roots = [], kids = []\<rparr> xs"

text \<open>
  The nodes are shared objects; their tree is read off the links. The fuel is the number of nodes, and reading runs out of it
  only when a root leads to a cycle, on which every function on trees overflows the stack.
\<close>

fun read_tree :: "nat \<Rightarrow> (string, node) obj \<Rightarrow> links \<Rightarrow> string \<Rightarrow> tree_item result" where
  "read_tree 0 nodes l u = Inl StackOverflow"
| "read_tree (Suc k) nodes l u =
     (case obj_get nodes u of
        None \<Rightarrow> Inl TypeError
      | Some (LeafNode t n) \<Rightarrow> Inr (Leaf t u n)
      | Some (FolderNode n d) \<Rightarrow>
          rbind (rmap (read_tree k nodes l) (kids_in l u)) (\<lambda>cs. Inr (Folder u n d (Some cs))))"

definition buildTree :: "flat_item list \<Rightarrow> tree_item list result" where
  "buildTree xs = rmap (read_tree (Suc (length xs)) (nodes_of xs) (links_of xs)) (roots (links_of xs))"

definition remove_step :: "string list \<times> flat_item list \<Rightarrow> flat_item \<Rightarrow> string list \<times> flat_item list" where
  "remove_step acc x =
     (let (excluded, kept) = acc
      in case parent_of x of
           Some p \<Rightarrow>
             if p \<in> set excluded
             then (if item_children x \<noteq> None \<and> item_children x \<noteq> Some [] then excluded @ [uuid x] else excluded, kept)
             else (excluded, kept @ [x])
         | None \<Rightarrow> (excluded, kept @ [x]))"

definition removeChildrenOf :: "flat_item list \<Rightarrow> string list \<Rightarrow> flat_item list" where
  "removeChildrenOf items ids = snd (foldl remove_step (ids, []) items)"

section \<open>Where a dragged item would go\<close>

text \<open>\<open>Math.round\<close> of the quotient.\<close>

definition getDragDepth :: "int \<Rightarrow> int \<Rightarrow> int" where
  "getDragDepth offset indentationWidth = (2 * offset + indentationWidth) div (2 * indentationWidth)"

definition getMaxDepth :: "flat_item option \<Rightarrow> int" where
  "getMaxDepth previousItem =
     (case previousItem of
        None \<Rightarrow> 0
      | Some x \<Rightarrow> if editor_type x = FolderType then min (depth x + 1) MAX_DEPTH else depth x)"

definition getMinDepth :: "flat_item option \<Rightarrow> flat_item \<Rightarrow> int" where
  "getMinDepth nextItem activeItem =
     (if editor_type activeItem \<noteq> FolderType then 1
      else case nextItem of None \<Rightarrow> 0 | Some x \<Rightarrow> depth x)"

record projection =
  at_depth :: int
  maxDepth :: int
  minDepth :: int
  target :: "string option"

definition index_in :: "(string, nat) obj option \<Rightarrow> flat_item list \<Rightarrow> string \<Rightarrow> nat option" where
  "index_in indexMap items i =
     (case indexMap of
        None \<Rightarrow> find_index (\<lambda>x. uuid x = i) items
      | Some m \<Rightarrow> obj_get m i)"

text \<open>The items before and after the place, without the dragged one.\<close>

definition previous_item :: "flat_item list \<Rightarrow> string \<Rightarrow> nat \<Rightarrow> nat \<Rightarrow> flat_item option" where
  "previous_item items active activeIndex overIndex =
     (let i = (if activeIndex < overIndex then int overIndex else int overIndex - 1)
      in case js_nth items i of
           None \<Rightarrow> None
         | Some x \<Rightarrow> if uuid x = active then js_nth items (i - 1) else Some x)"

definition next_item :: "flat_item list \<Rightarrow> string \<Rightarrow> nat \<Rightarrow> nat \<Rightarrow> flat_item option" where
  "next_item items active activeIndex overIndex =
     (let i = (if activeIndex > overIndex then int overIndex else int overIndex + 1)
      in case js_nth items i of
           None \<Rightarrow> None
         | Some x \<Rightarrow> if uuid x = active then js_nth items (i + 1) else Some x)"

definition projected_parent :: "flat_item list \<Rightarrow> string \<Rightarrow> nat \<Rightarrow> nat \<Rightarrow> int \<Rightarrow> string option" where
  "projected_parent items active activeIndex overIndex d =
     (case previous_item items active activeIndex overIndex of
        None \<Rightarrow> None
      | Some prev \<Rightarrow>
          if d \<le> 0 then None
          else if d = depth prev then parentId prev
          else if d > depth prev then Some (uuid prev)
          else (let searched = (if activeIndex < overIndex then overIndex + 1 else overIndex)
                in case find (\<lambda>x. uuid x \<noteq> active \<and> depth x = d) (rev (take searched items)) of
                     None \<Rightarrow> None
                   | Some x \<Rightarrow> parentId x))"

definition getProjection ::
    "flat_item list \<Rightarrow> string \<Rightarrow> string \<Rightarrow> int \<Rightarrow> int \<Rightarrow> (string, nat) obj option \<Rightarrow> projection option" where
  "getProjection items active over dragOffset indentationWidth indexMap =
     (case (index_in indexMap items active, index_in indexMap items over) of
        (Some a, Some b) \<Rightarrow>
          (case js_nth items (int a) of
             None \<Rightarrow> None
           | Some activeItem \<Rightarrow>
               let projected = depth activeItem + getDragDepth dragOffset indentationWidth;
                   mx = getMaxDepth (previous_item items active a b);
                   mn = getMinDepth (next_item items active a b) activeItem;
                   d = (if projected \<ge> mx then mx else if projected < mn then mn else projected)
               in Some \<lparr>at_depth = d, maxDepth = mx, minDepth = mn,
                        target = projected_parent items active a b d\<rparr>)
      | _ \<Rightarrow> None)"

section \<open>Storing the folders\<close>

text \<open>
  Empty folders are not stored, and of an item only its identifier and type. A folder without the property
  \<open>children\<close> below another folder is taken for an item.
\<close>

fun serialize_children :: "tree_item list \<Rightarrow> tree_item list" where
  "serialize_children [] = []"
| "serialize_children (Folder u n d (Some cs) # rest) =
     (let ks = serialize_children cs
      in if ks = [] then serialize_children rest else Folder u n d (Some ks) # serialize_children rest)"
| "serialize_children (Folder u n d None # rest) = Folder u None None None # serialize_children rest"
| "serialize_children (Leaf t u n # rest) = Leaf t u None # serialize_children rest"

fun serializeForAPI :: "tree_item list \<Rightarrow> tree_item list" where
  "serializeForAPI [] = []"
| "serializeForAPI (Folder u n d cs # rest) =
     (let ks = (case cs of None \<Rightarrow> [] | Some ts \<Rightarrow> serialize_children ts)
      in if ks = [] then serializeForAPI rest else Folder u n d (Some ks) # serializeForAPI rest)"
| "serializeForAPI (Leaf t u n # rest) = serializeForAPI rest"

text \<open>\<open>filterChildren\<close> answers its argument itself when nothing was removed; the flag says whether it did.\<close>

fun filterChildren :: "string set \<Rightarrow> tree_item list \<Rightarrow> bool \<times> tree_item list" where
  "filterChildren valid [] = (False, [])"
| "filterChildren valid (Folder u n d (Some cs) # rest) =
     (let (ch, ks) = filterChildren valid cs; (ch', rs) = filterChildren valid rest
      in (ch \<or> ch', (if ch then Folder u n d (Some ks) else Folder u n d (Some cs)) # rs))"
| "filterChildren valid (Folder u n d None # rest) =
     (let (ch', rs) = filterChildren valid rest
      in if u \<in> valid then (ch', Folder u n d None # rs) else (True, rs))"
| "filterChildren valid (Leaf t u n # rest) =
     (let (ch', rs) = filterChildren valid rest
      in if u \<in> valid then (ch', Leaf t u n # rs) else (True, rs))"

fun filter_folder :: "string set \<Rightarrow> tree_item \<Rightarrow> tree_item" where
  "filter_folder valid (Folder u n d (Some cs)) =
     (let (ch, ks) = filterChildren valid cs in Folder u n d (Some (if ch then ks else cs)))"
| "filter_folder valid x = x"

definition filterFoldersByValidUuids :: "tree_item list \<Rightarrow> string set \<Rightarrow> tree_item list" where
  "filterFoldersByValidUuids folders valid = map (filter_folder valid) folders"

lemma size_list_filter_le: "size_list f (filter P xs) \<le> size_list f xs"
  by (induction xs) auto

function countAllFolders :: "tree_item list \<Rightarrow> nat" where
  "countAllFolders [] = 0"
| "countAllFolders (Folder u n d (Some cs) # rest) =
     Suc (countAllFolders (filter (\<lambda>c. kids_of c \<noteq> None) cs) + countAllFolders rest)"
| "countAllFolders (Folder u n d None # rest) = Suc (countAllFolders rest)"
| "countAllFolders (Leaf t u n # rest) = Suc (countAllFolders rest)"
  by pat_completeness auto
termination
  by (relation "measure (size_list size)") (auto simp: less_Suc_eq_le intro!: le_SucI trans_le_add1 size_list_filter_le)

end
