(* ===== verification/FolderOps.thy ===== *)
theory FolderOps
  imports Folders
begin

text \<open>
  Creating and completing the folders (\<open>folderOperations.ts\<close>) and the checks on them
  (\<open>folderValidation.ts\<close>). \<open>t\<close> is the translation of a text with its arguments; identifiers from
  \<open>uuidv4()\<close> are arguments. Lower case and white space are those of the characters up to code 255.
\<close>

text \<open>A metric or a column of the dataset; \<open>own_name\<close> is its \<open>metric_name\<close> or \<open>column_name\<close>.\<close>

record dataset_item =
  own_uuid :: string
  own_name :: "string option"
  verbose_name :: "string option"
  expression :: "string option"

definition or_blank :: "string option \<Rightarrow> string" where
  "or_blank s = (case s of None \<Rightarrow> [] | Some x \<Rightarrow> x)"

definition leaf_for :: "leaf_type \<Rightarrow> dataset_item \<Rightarrow> tree_item" where
  "leaf_for ty m = Leaf ty (own_uuid m) (Some (or_blank (own_name m)))"

definition createFolder :: "string \<Rightarrow> string \<Rightarrow> tree_item" where
  "createFolder fresh name = Folder fresh (Some name) None (Some [])"

definition resetToDefault ::
    "(string \<Rightarrow> string list \<Rightarrow> string) \<Rightarrow> dataset_item list \<Rightarrow> dataset_item list \<Rightarrow> tree_item list" where
  "resetToDefault t metrics columns =
     [Folder DEFAULT_METRICS_FOLDER_UUID (Some (t ''Metrics'' [])) None (Some (map (leaf_for MetricLeaf) metrics)),
      Folder DEFAULT_COLUMNS_FOLDER_UUID (Some (t ''Columns'' [])) None (Some (map (leaf_for ColumnLeaf) columns))]"

definition lower_char :: "char \<Rightarrow> char" where
  "lower_char c =
     (let n = (of_char c :: nat)
      in if 65 \<le> n \<and> n \<le> 90 \<or> 192 \<le> n \<and> n \<le> 222 \<and> n \<noteq> 215 then char_of (n + 32) else c)"

definition toLowerCase :: "string \<Rightarrow> string" where
  "toLowerCase s = map lower_char s"

fun js_includes :: "string \<Rightarrow> string \<Rightarrow> bool" where
  "js_includes [] needle = (needle = [])"
| "js_includes (c # s) needle = (take (length needle) (c # s) = needle \<or> js_includes s needle)"

definition trim :: "string \<Rightarrow> string" where
  "trim s = rev (dropWhile is_blank (rev (dropWhile is_blank s)))"

definition mentions :: "string option \<Rightarrow> string \<Rightarrow> bool" where
  "mentions s needle = (case s of None \<Rightarrow> False | Some x \<Rightarrow> js_includes (toLowerCase x) needle)"

definition filterItemsBySearch :: "string \<Rightarrow> dataset_item list \<Rightarrow> string list" where
  "filterItemsBySearch searchTerm items =
     (let needle = toLowerCase searchTerm
      in js_uniq (map own_uuid (filter (\<lambda>m. mentions (own_name m) needle \<or> mentions (verbose_name m) needle \<or>
                                            mentions (expression m) needle) items)))"

text \<open>\<open>new Map(items.map(m => [m.uuid, m]))\<close>.\<close>

definition by_uuid :: "dataset_item list \<Rightarrow> (string, dataset_item) obj" where
  "by_uuid items = foldl (\<lambda>acc m. obj_set (own_uuid m) m acc) [] items"

definition enrich_leaf :: "dataset_item list \<Rightarrow> dataset_item list \<Rightarrow> tree_item \<Rightarrow> tree_item" where
  "enrich_leaf metrics columns child =
     (if or_blank (name_of child) = [] \<or> (case child of Leaf UntypedLeaf u n \<Rightarrow> True | _ \<Rightarrow> False)
      then case obj_get (by_uuid metrics) (uuid_of child) of
             Some m \<Rightarrow> leaf_for MetricLeaf m
           | None \<Rightarrow>
               (case obj_get (by_uuid columns) (uuid_of child) of
                  Some c \<Rightarrow> leaf_for ColumnLeaf c
                | None \<Rightarrow> child)
      else child)"

fun enrich_child :: "dataset_item list \<Rightarrow> dataset_item list \<Rightarrow> tree_item \<Rightarrow> tree_item" where
  "enrich_child metrics columns (Folder u n d (Some cs)) =
     Folder u n d (Some (map (enrich_child metrics columns) cs))"
| "enrich_child metrics columns child = enrich_leaf metrics columns child"

fun with_children :: "(tree_item list \<Rightarrow> tree_item list) \<Rightarrow> tree_item \<Rightarrow> tree_item" where
  "with_children f (Folder u n d cs) = Folder u n d (Some (f (case cs of None \<Rightarrow> [] | Some ts \<Rightarrow> ts)))"
| "with_children f (Leaf t u n) = Leaf t u n"

definition enrichFolderChildren ::
    "tree_item list \<Rightarrow> dataset_item list \<Rightarrow> dataset_item list \<Rightarrow> tree_item list" where
  "enrichFolderChildren folders metrics columns =
     map (with_children (map (enrich_child metrics columns))) folders"

fun collectAssignedIds :: "tree_item \<Rightarrow> string list" where
  "collectAssignedIds (Folder u n d (Some cs)) = concat (map (\<lambda>c. uuid_of c # collectAssignedIds c) cs)"
| "collectAssignedIds x = []"

definition unassigned :: "leaf_type \<Rightarrow> tree_item list \<Rightarrow> dataset_item list \<Rightarrow> tree_item list" where
  "unassigned ty folders items =
     map (leaf_for ty)
       (filter (\<lambda>m. own_uuid m \<notin> set (concat (map collectAssignedIds folders))) items)"

definition add_unassigned :: "tree_item list \<Rightarrow> tree_item list \<Rightarrow> tree_item \<Rightarrow> tree_item" where
  "add_unassigned ms cs folder =
     (if uuid_of folder = DEFAULT_METRICS_FOLDER_UUID \<and> ms \<noteq> [] then with_children (\<lambda>ks. ks @ ms) folder
      else if uuid_of folder = DEFAULT_COLUMNS_FOLDER_UUID \<and> cs \<noteq> [] then with_children (\<lambda>ks. ks @ cs) folder
      else folder)"

definition ensureDefaultFolders ::
    "(string \<Rightarrow> string list \<Rightarrow> string) \<Rightarrow> tree_item list \<Rightarrow> dataset_item list \<Rightarrow> dataset_item list \<Rightarrow> tree_item list" where
  "ensureDefaultFolders t folders metrics columns =
     (if folders = [] then resetToDefault t metrics columns
      else let enriched = enrichFolderChildren folders metrics columns;
               ms = unassigned MetricLeaf enriched metrics;
               cs = unassigned ColumnLeaf enriched columns
           in map (add_unassigned ms cs) enriched @
              (if list_ex (\<lambda>f. uuid_of f = DEFAULT_METRICS_FOLDER_UUID) enriched then []
               else [Folder DEFAULT_METRICS_FOLDER_UUID (Some (t ''Metrics'' [])) None (Some ms)]) @
              (if list_ex (\<lambda>f. uuid_of f = DEFAULT_COLUMNS_FOLDER_UUID) enriched then []
               else [Folder DEFAULT_COLUMNS_FOLDER_UUID (Some (t ''Columns'' [])) None (Some cs)]))"

section \<open>Checks\<close>

record validation =
  isValid :: bool
  errors :: "string list"
  warnings :: "string list"

definition title :: "tree_item \<Rightarrow> string" where
  "title folder = trim (or_blank (name_of folder))"

fun collectFolderNames :: "tree_item \<Rightarrow> string list" where
  "collectFolderNames (Folder u n d cs) =
     (if title (Folder u n d cs) = [] then [] else [toLowerCase (title (Folder u n d cs))]) @
     (case cs of None \<Rightarrow> []
      | Some ks \<Rightarrow> concat (map (\<lambda>c. if is_folder c then collectFolderNames c else []) ks))"
| "collectFolderNames (Leaf t u n) = []"

definition has_leaf :: "leaf_type \<Rightarrow> tree_item list \<Rightarrow> bool" where
  "has_leaf ty ks = list_ex (\<lambda>c. case c of Leaf t u n \<Rightarrow> t = ty | _ \<Rightarrow> False) ks"

definition folder_errors :: "(string \<Rightarrow> string list \<Rightarrow> string) \<Rightarrow> tree_item \<Rightarrow> string list" where
  "folder_errors t folder =
     (let ks = (case kids_of folder of None \<Rightarrow> [] | Some xs \<Rightarrow> xs)
      in (if ks \<noteq> [] \<and> title folder = [] then [t ''Folder with content must have a name'' []] else []) @
         (if uuid_of folder = DEFAULT_METRICS_FOLDER_UUID \<and> has_leaf ColumnLeaf ks
          then [t ''Metrics folder can only contain metric items'' []] else []) @
         (if uuid_of folder = DEFAULT_COLUMNS_FOLDER_UUID \<and> has_leaf MetricLeaf ks
          then [t ''Columns folder can only contain column items'' []] else []))"

fun validateRecursive :: "(string \<Rightarrow> string list \<Rightarrow> string) \<Rightarrow> tree_item \<Rightarrow> string list" where
  "validateRecursive t (Folder u n d cs) =
     folder_errors t (Folder u n d cs) @
     (case cs of None \<Rightarrow> []
      | Some ks \<Rightarrow> concat (map (\<lambda>c. if is_folder c then validateRecursive t c else []) ks))"
| "validateRecursive t (Leaf ty u n) = []"

definition nameCounts :: "string list \<Rightarrow> (string, nat) obj" where
  "nameCounts ns =
     foldl (\<lambda>m n. obj_set n ((case obj_get m n of None \<Rightarrow> 0 | Some k \<Rightarrow> k) + 1) m) [] ns"

definition validateFolders :: "(string \<Rightarrow> string list \<Rightarrow> string) \<Rightarrow> tree_item list \<Rightarrow> validation" where
  "validateFolders t folders =
     (let counts = nameCounts (concat (map collectFolderNames folders));
          es = map (\<lambda>(n, k). t ''Duplicate folder name: %s'' [n]) (filter (\<lambda>(n, k). k > 1) counts) @
               concat (map (validateRecursive t) folders)
      in \<lparr>isValid = (es = []), errors = es, warnings = []\<rparr>)"

end
