(* ===== verification/FolderTree.thy ===== *)
theory FolderTree
  imports FolderOps
begin

text \<open>
  What flattening and building a tree do: the links of a list of items, when a list describes a
  forest, and the tree that is built of it.
\<close>

section \<open>Identifiers of a tree\<close>

fun ids :: "tree_item \<Rightarrow> string list" where
  "ids (Folder u n d None) = [u]"
| "ids (Folder u n d (Some cs)) = u # concat (map ids cs)"
| "ids (Leaf t u n) = [u]"

abbreviation forest_ids :: "tree_item list \<Rightarrow> string list" where
  "forest_ids ts \<equiv> concat (map ids ts)"

definition forest_ok :: "tree_item list \<Rightarrow> bool" where
  "forest_ok ts \<longleftrightarrow> distinct (forest_ids ts) \<and> [] \<notin> set (forest_ids ts)"

text \<open>A built folder always has its children.\<close>

fun tidy :: "tree_item \<Rightarrow> tree_item" where
  "tidy (Folder u n d None) = Folder u n d (Some [])"
| "tidy (Folder u n d (Some cs)) = Folder u n d (Some (map tidy cs))"
| "tidy (Leaf t u n) = Leaf t u n"

fun kid_list :: "tree_item \<Rightarrow> tree_item list" where
  "kid_list (Folder u n d (Some cs)) = cs"
| "kid_list t = []"

fun subs :: "tree_item \<Rightarrow> tree_item set" where
  "subs (Folder u n d None) = {Folder u n d None}"
| "subs (Folder u n d (Some cs)) = insert (Folder u n d (Some cs)) (\<Union> (subs ` set cs))"
| "subs (Leaf t u n) = {Leaf t u n}"

lemma uuid_in_ids: "uuid_of t \<in> set (ids t)"
  by (cases t rule: ids.cases) auto

lemma flat_of_simps [simp]:
  "uuid (flat_of t p k i) = uuid_of t"
  "parentId (flat_of t p k i) = p"
  "depth (flat_of t p k i) = k"
  "item_children (flat_of t p k i) = kids_of t"
  "item_name (flat_of t p k i) = name_of t"
  by (cases t; simp)+

lemma editor_type_flat [simp]:
  "editor_type (flat_of t p k i) = (case t of Folder u n d cs \<Rightarrow> FolderType | Leaf ty u n \<Rightarrow> LeafType ty)"
  "item_description (flat_of t p k i) = (case t of Folder u n d cs \<Rightarrow> d | Leaf ty u n \<Rightarrow> None)"
  by (cases t; simp)+

declare flat_of.simps [simp del]

lemma parent_of_flat [simp]: "p \<noteq> Some [] \<Longrightarrow> parent_of (flat_of t p k i) = p"
  by (simp add: parent_of_def split: option.split)

lemma flatten_ids [simp]: "map uuid (flatten ts p k i) = forest_ids ts"
  by (induction ts p k i rule: flatten.induct) auto

lemma flatten_uuids: "uuid ` set (flatten ts p k i) = set (forest_ids ts)"
  by (metis flatten_ids set_map)

lemma subs_ids: "s \<in> subs t \<Longrightarrow> set (ids s) \<subseteq> set (ids t)"
  by (induction t rule: ids.induct) auto

lemma subs_kids: "s \<in> subs t \<Longrightarrow> c \<in> set (kid_list s) \<Longrightarrow> c \<in> subs t"
proof (induction t rule: ids.induct)
  case (2 u n d cs)
  have self: "c \<in> subs c" for c by (cases c rule: ids.cases) auto
  from 2 show ?case by (auto intro: self)
qed auto

lemma flatten_parents:
  assumes "x \<in> set (flatten ts p k i)"
  shows "parentId x = p \<or> (\<exists>u \<in> set (forest_ids ts). parentId x = Some u)"
  using assms by (induction ts p k i rule: flatten.induct) auto

lemma depth_flatten: "x \<in> set (flatten ts p k i) \<Longrightarrow> k \<le> depth x"
  by (induction ts p k i rule: flatten.induct) fastforce+

lemma filter_parent_none:
  assumes "u \<notin> set (forest_ids ts)" and "p \<noteq> Some u"
  shows "filter (\<lambda>x. parent_of x = Some u) (flatten ts p k i) = []"
proof -
  have "parent_of x \<noteq> Some u" if "x \<in> set (flatten ts p k i)" for x
    using flatten_parents [OF that] assms by (auto simp: parent_of_def split: if_splits option.splits)
  then show ?thesis by (simp add: filter_empty_conv)
qed

lemma filter_parent_top:
  assumes "u \<notin> set (forest_ids ts)" and "u \<noteq> []"
  shows "map uuid (filter (\<lambda>x. parent_of x = Some u) (flatten ts (Some u) k i)) = map uuid_of ts"
  using assms
proof (induction ts "Some u" k i rule: flatten.induct)
  case (2 u' n d cs items k i)
  then show ?case using filter_parent_none [of u cs "Some u'"] by auto
qed auto

lemma filter_parent_sub:
  assumes "distinct (forest_ids ts)" and "[] \<notin> set (forest_ids ts)"
    and "\<forall>u \<in> set (forest_ids ts). p \<noteq> Some u" and "p \<noteq> Some []"
    and "t \<in> \<Union> (subs ` set ts)"
  shows "map uuid (filter (\<lambda>x. parent_of x = Some (uuid_of t)) (flatten ts p k i)) =
         map uuid_of (kid_list t)"
  using assms
proof (induction ts p k i rule: flatten.induct)
  case (1 p k i)
  then show ?case by simp
next
  case (2 u n d cs items p k i)
  let ?f = "Folder u n d (Some cs)"
  from "2.prems"(5) consider "t = ?f" | "t \<in> \<Union> (subs ` set cs)" | "t \<in> \<Union> (subs ` set items)" by auto
  then show ?case
  proof cases
    case 1
    have "map uuid (filter (\<lambda>x. parent_of x = Some u) (flatten cs (Some u) (k + 1) 0)) = map uuid_of cs"
      using "2.prems" by (intro filter_parent_top) auto
    moreover have "filter (\<lambda>x. parent_of x = Some u) (flatten items p k (Suc i)) = []"
      using "2.prems" by (intro filter_parent_none) auto
    ultimately show ?thesis using 1 "2.prems"(3,4) by simp
  next
    case 2
    then have t: "uuid_of t \<in> set (forest_ids cs)" using subs_ids uuid_in_ids by fastforce
    have "map uuid (filter (\<lambda>x. parent_of x = Some (uuid_of t)) (flatten cs (Some u) (k + 1) 0)) =
        map uuid_of (kid_list t)"
      using "2.prems" 2 by (intro "2.IH"(1)) auto
    moreover have "filter (\<lambda>x. parent_of x = Some (uuid_of t)) (flatten items p k (Suc i)) = []"
      using "2.prems" t by (intro filter_parent_none) auto
    ultimately show ?thesis using "2.prems"(3,4) t by auto
  next
    case 3
    then have t: "uuid_of t \<in> set (forest_ids items)" using subs_ids uuid_in_ids by fastforce
    have "map uuid (filter (\<lambda>x. parent_of x = Some (uuid_of t)) (flatten items p k (Suc i))) =
        map uuid_of (kid_list t)"
      using "2.prems" 3 by (intro "2.IH"(2)) auto
    moreover have "filter (\<lambda>x. parent_of x = Some (uuid_of t)) (flatten cs (Some u) (k + 1) 0) = []"
      using "2.prems" t by (intro filter_parent_none) auto
    ultimately show ?thesis using "2.prems"(3,4) t by auto
  qed
next
  case (3 u n d items p k i)
  show ?case
  proof (cases "t = Folder u n d None")
    case True
    then show ?thesis
      using "3.prems" filter_parent_none [of u items p k "Suc i"] by simp
  next
    case False
    with "3.prems"(5) have t: "t \<in> \<Union> (subs ` set items)" by auto
    then have "uuid_of t \<in> set (forest_ids items)" using subs_ids uuid_in_ids by fastforce
    with "3.prems" t show ?thesis using "3.IH" by auto
  qed
next
  case (4 ty u n items p k i)
  show ?case
  proof (cases "t = Leaf ty u n")
    case True
    then show ?thesis
      using "4.prems" filter_parent_none [of u items p k "Suc i"] by simp
  next
    case False
    with "4.prems"(5) have t: "t \<in> \<Union> (subs ` set items)" by auto
    then have "uuid_of t \<in> set (forest_ids items)" using subs_ids uuid_in_ids by fastforce
    with "4.prems" t show ?thesis using "4.IH" by auto
  qed
qed

section \<open>The links of a list of items\<close>

text \<open>A list describes links between its items: identifiers are distinct, and every parent is one of its
  folders.\<close>

definition linked :: "flat_item list \<Rightarrow> bool" where
  "linked xs \<longleftrightarrow> distinct (map uuid xs) \<and>
     (\<forall>x \<in> set xs. \<forall>p. parent_of x = Some p \<longrightarrow> (\<exists>y \<in> set xs. uuid y = p \<and> editor_type y = FolderType))"

lemma nodes_of_get: "distinct (map uuid xs) \<Longrightarrow> x \<in> set xs \<Longrightarrow> obj_get (nodes_of xs) (uuid x) = Some (node_of x)"
  unfolding nodes_of_def by (rule od.get_foldl_put_map)

lemma nodes_of_absent: "u \<notin> uuid ` set xs \<Longrightarrow> obj_get (nodes_of xs) u = None"
  unfolding nodes_of_def by (simp add: od.get_foldl_put_notin)

lemma linked_node:
  assumes "linked xs" and "x \<in> set xs" and "parent_of x = Some p"
  obtains n d where "obj_get (nodes_of xs) p = Some (FolderNode n d)"
proof -
  from assms obtain y where y: "y \<in> set xs" "uuid y = p" "editor_type y = FolderType"
    unfolding linked_def by blast
  with assms(1) nodes_of_get [of xs y] that show ?thesis by (simp add: linked_def node_of_def)
qed

lemma fold_links:
  assumes "linked xs" and "set ys \<subseteq> set xs"
  shows "roots (foldl (link_item (nodes_of xs)) l ys) =
           roots l @ map uuid (filter (\<lambda>x. parent_of x = None) ys) \<and>
         kids_in (foldl (link_item (nodes_of xs)) l ys) u =
           kids_in l u @ map uuid (filter (\<lambda>x. parent_of x = Some u) ys)"
  using assms(2)
proof (induction ys arbitrary: l)
  case Nil
  then show ?case by simp
next
  case (Cons y ys)
  show ?case
  proof (cases "parent_of y")
    case None
    with Cons show ?thesis by (simp add: link_item_def kids_in_def)
  next
    case (Some p)
    with assms(1) Cons.prems obtain n d where "obj_get (nodes_of xs) p = Some (FolderNode n d)"
      by (auto elim: linked_node)
    with Some Cons show ?thesis by (auto simp: link_item_def kids_in_def)
  qed
qed

lemma links_of_linked:
  assumes "linked xs"
  shows "roots (links_of xs) = map uuid (filter (\<lambda>x. parent_of x = None) xs)"
    and "kids_in (links_of xs) u = map uuid (filter (\<lambda>x. parent_of x = Some u) xs)"
  using fold_links [OF assms subset_refl] unfolding links_of_def by (auto simp: kids_in_def)

section \<open>Building what was flattened\<close>

lemma subs_flat: "t \<in> \<Union> (subs ` set ts) \<Longrightarrow> \<exists>q j m. flat_of t q j m \<in> set (flatten ts p k i)"
  by (induction ts p k i rule: flatten.induct) (auto; blast)+

lemma rmap_map: "rmap f (map g xs) = rmap (\<lambda>x. f (g x)) xs"
  by (induction xs) auto

lemma flatten_parent_folder:
  assumes "x \<in> set (flatten ts p k i)" and "parentId x \<noteq> p"
  shows "\<exists>y \<in> set (flatten ts p k i). parentId x = Some (uuid y) \<and> editor_type y = FolderType"
  using assms
proof (induction ts p k i rule: flatten.induct)
  case (2 u n d cs items p k i)
  then show ?case
    by (cases "parentId x = Some u") auto
qed auto

lemma flattenTree_linked:
  assumes "forest_ok ts" shows "linked (flattenTree ts)"
  unfolding linked_def flattenTree_def
proof (intro conjI ballI allI impI)
  show "distinct (map uuid (flatten ts None 0 0))"
    using assms by (simp add: forest_ok_def)
  fix x p
  assume x: "x \<in> set (flatten ts None 0 0)" and "parent_of x = Some p"
  then have "parentId x = Some p" by (auto simp: parent_of_def split: option.splits if_splits)
  with flatten_parent_folder [OF x] show "\<exists>y \<in> set (flatten ts None 0 0). uuid y = p \<and> editor_type y = FolderType"
    by auto
qed

lemma flatten_roots:
  assumes "[] \<notin> set (forest_ids ts)"
  shows "map uuid (filter (\<lambda>x. parent_of x = None) (flatten ts None k i)) = map uuid_of ts"
proof -
  have inner: "filter (\<lambda>x. parent_of x = None) (flatten cs (Some u) k i) = []"
    if "u \<noteq> []" "[] \<notin> set (forest_ids cs)" for cs u k i
  proof -
    have "parent_of x \<noteq> None" if "x \<in> set (flatten cs (Some u) k i)" for x
      using flatten_parents [OF that] \<open>u \<noteq> []\<close> \<open>[] \<notin> set (forest_ids cs)\<close> by (auto simp: parent_of_def)
    then show ?thesis by (simp add: filter_empty_conv)
  qed
  from assms show ?thesis
    by (induction ts "None :: string option" k i rule: flatten.induct) (auto simp: inner)
qed

fun tree_height :: "tree_item \<Rightarrow> nat" where
  "tree_height (Folder u n d None) = 0"
| "tree_height (Folder u n d (Some cs)) = Suc (Max (insert 0 (set (map tree_height cs))))"
| "tree_height (Leaf t u n) = 0"

lemma kid_height: "c \<in> set (kid_list t) \<Longrightarrow> tree_height c < tree_height t"
  by (cases t rule: ids.cases) (auto simp: less_Suc_eq_le intro: Max_ge)

lemma ids_length_sub: "c \<in> set cs \<Longrightarrow> length (ids c) \<le> length (forest_ids cs)"
  by (induction cs) auto

lemma tree_height_ids: "tree_height t \<le> length (ids t)"
proof (induction t rule: ids.induct)
  case (2 u n d cs)
  have "Max (insert 0 (set (map tree_height cs))) \<le> length (forest_ids cs)"
    using 2 ids_length_sub by (auto intro: order.trans)
  then show ?case by simp
qed auto

lemma read_flattened:
  assumes ok: "forest_ok ts" and t: "t \<in> \<Union> (subs ` set ts)" and "tree_height t < k"
  shows "read_tree k (nodes_of (flattenTree ts)) (links_of (flattenTree ts)) (uuid_of t) = Inr (tidy t)"
  using t assms(3)
proof (induction k arbitrary: t)
  case 0
  then show ?case by simp
next
  case (Suc k)
  let ?L = "flattenTree ts"
  obtain q j m where x: "flat_of t q j m \<in> set ?L"
    using subs_flat [OF Suc.prems(1)] unfolding flattenTree_def by blast
  have node: "obj_get (nodes_of ?L) (uuid_of t) = Some (node_of (flat_of t q j m))"
    using nodes_of_get [OF _ x] flattenTree_linked [OF ok] by (simp add: linked_def)
  have kids: "kids_in (links_of ?L) (uuid_of t) = map uuid_of (kid_list t)"
    unfolding links_of_linked(2) [OF flattenTree_linked [OF ok]] unfolding flattenTree_def
    using ok Suc.prems(1) by (intro filter_parent_sub) (auto simp: forest_ok_def)
  have rec: "rmap (read_tree k (nodes_of ?L) (links_of ?L)) (map uuid_of (kid_list t)) =
      Inr (map tidy (kid_list t))"
  proof -
    have "read_tree k (nodes_of ?L) (links_of ?L) (uuid_of c) = Inr (tidy c)" if "c \<in> set (kid_list t)" for c
      using Suc.prems that kid_height [OF that] by (intro Suc.IH) (auto dest: subs_kids)
    then show ?thesis unfolding rmap_map by (intro rmap_Inr)
  qed
  show ?case
    using node kids rec by (cases t rule: ids.cases) (auto simp: node_of_def)
qed

lemma self_sub: "t \<in> subs t"
  by (cases t rule: ids.cases) auto

lemma build_flattened:
  assumes "forest_ok ts"
  shows "buildTree (flattenTree ts) = Inr (map tidy ts)"
proof -
  let ?L = "flattenTree ts"
  have roots: "roots (links_of ?L) = map uuid_of ts"
    unfolding links_of_linked(1) [OF flattenTree_linked [OF assms]] unfolding flattenTree_def
    using assms by (intro flatten_roots) (simp add: forest_ok_def)
  have len: "length ?L = length (forest_ids ts)"
    by (metis flattenTree_def flatten_ids length_map)
  have "read_tree (Suc (length ?L)) (nodes_of ?L) (links_of ?L) (uuid_of t) = Inr (tidy t)" if "t \<in> set ts" for t
  proof (rule read_flattened [OF assms])
    show "t \<in> \<Union> (subs ` set ts)" using that self_sub by blast
    show "tree_height t < Suc (length ?L)"
      using tree_height_ids [of t] ids_length_sub [OF that] len by linarith
  qed
  then show ?thesis
    unfolding buildTree_def roots rmap_map by (intro rmap_Inr)
qed

text \<open>Building the flattened tree gives the tree back, when its identifiers are distinct and not empty; a
  folder without a list of children has an empty one then.\<close>

theorem build_flattened_tree:
  assumes "forest_ok ts"
  shows "buildTree (flattenTree ts) = Inr (map tidy ts)"
  by (rule build_flattened [OF assms])

theorem build_flattened_tree_witness:
  "buildTree (flattenTree
     [Folder ''f'' (Some ''Mine'') None (Some [Leaf MetricLeaf ''a'' (Some ''A''), Folder ''g'' None None None]),
      Leaf ColumnLeaf ''b'' None]) =
   Inr [Folder ''f'' (Some ''Mine'') None (Some [Leaf MetricLeaf ''a'' (Some ''A''), Folder ''g'' None None (Some [])]),
        Leaf ColumnLeaf ''b'' None]"
proof -
  let ?ts = "[Folder ''f'' (Some ''Mine'') None (Some [Leaf MetricLeaf ''a'' (Some ''A''), Folder ''g'' None None None]),
      Leaf ColumnLeaf ''b'' None]"
  have "forest_ok ?ts" by code_simp
  from build_flattened_tree [OF this] show ?thesis by simp
qed

section \<open>Building any forest\<close>

text \<open>Which item is a child of which, and the items below one.\<close>

definition child_rel :: "flat_item list \<Rightarrow> (string \<times> string) set" where
  "child_rel xs = {(uuid x, p) | x p. x \<in> set xs \<and> parent_of x = Some p}"

definition below :: "flat_item list \<Rightarrow> string \<Rightarrow> string set" where
  "below xs u = {v. (v, u) \<in> (child_rel xs)\<^sup>*}"

text \<open>A list without cycles: the rank grows from a parent to its children.\<close>

definition ranked :: "(string \<Rightarrow> nat) \<Rightarrow> flat_item list \<Rightarrow> bool" where
  "ranked r xs \<longleftrightarrow> (\<forall>x \<in> set xs. \<forall>p. parent_of x = Some p \<longrightarrow> r p < r (uuid x))"

fun tree_node :: "tree_item \<Rightarrow> node" where
  "tree_node (Folder u n d cs) = FolderNode n d"
| "tree_node (Leaf t u n) = LeafNode t n"

lemma node_of_flat [simp]: "node_of (flat_of t p k i) = tree_node t"
  by (cases t) (simp_all add: node_of_def)

lemma rank_trancl:
  assumes "ranked r xs" and "(a, b) \<in> (child_rel xs)\<^sup>+"
  shows "r b < r a"
  using assms(2)
proof (induction rule: trancl_induct)
  case (base y)
  with assms(1) show ?case by (auto simp: ranked_def child_rel_def)
next
  case (step y z)
  with assms(1) have "r z < r y" by (auto simp: ranked_def child_rel_def)
  with step show ?case by simp
qed

lemma child_rel_single: "distinct (map uuid xs) \<Longrightarrow> single_valued (child_rel xs)"
  unfolding single_valued_def child_rel_def by (auto simp: distinct_map inj_on_def)

lemma below_cases: "v \<in> below xs u \<longleftrightarrow> v = u \<or> (\<exists>c. (c, u) \<in> child_rel xs \<and> v \<in> below xs c)"
  unfolding below_def mem_Collect_eq by (metis rtrancl.rtrancl_refl rtrancl.rtrancl_into_rtrancl rtrancl.cases)

lemma below_items: "v \<in> below xs u \<Longrightarrow> u \<in> uuid ` set xs \<Longrightarrow> v \<in> uuid ` set xs"
  unfolding below_def mem_Collect_eq by (erule converse_rtranclE) (auto simp: child_rel_def)

lemma finite_below: "u \<in> uuid ` set xs \<Longrightarrow> finite (below xs u)"
  by (rule finite_subset [of _ "uuid ` set xs"]) (blast intro: below_items, simp)

lemma self_below: "u \<in> below xs u"
  by (simp add: below_def)

lemma below_child:
  assumes "ranked r xs" and "(c, u) \<in> child_rel xs" and "u \<in> uuid ` set xs"
  shows "card (below xs c) < card (below xs u)"
proof (rule psubset_card_mono)
  show "finite (below xs u)" by (rule finite_below [OF assms(3)])
  have "u \<notin> below xs c"
  proof
    assume "u \<in> below xs c"
    then have "(u, u) \<in> (child_rel xs)\<^sup>+" using assms(2) by (auto simp: below_def)
    from rank_trancl [OF assms(1) this] show False by simp
  qed
  moreover have "u \<in> below xs u" by (simp add: below_def)
  moreover have "below xs c \<subseteq> below xs u" using below_cases assms(2) by blast
  ultimately show "below xs c \<subset> below xs u" by blast
qed

text \<open>Two items neither of which is below the other have nothing below them in common.\<close>

lemma below_disjoint:
  assumes "distinct (map uuid xs)" and "a \<notin> below xs b" and "b \<notin> below xs a"
  shows "below xs a \<inter> below xs b = {}"
  using assms single_valued_confluent [OF child_rel_single [OF assms(1)]] by (auto simp: below_def)

lemma siblings_apart:
  assumes "distinct (map uuid xs)" and "ranked r xs"
    and "(a, u) \<in> child_rel xs" and "(b, u) \<in> child_rel xs" and "a \<noteq> b"
  shows "a \<notin> below xs b"
proof
  assume "a \<in> below xs b"
  with assms(5) obtain v where v: "(a, v) \<in> child_rel xs" "(v, b) \<in> (child_rel xs)\<^sup>*"
    unfolding below_def mem_Collect_eq by (auto elim: converse_rtranclE)
  with child_rel_single [OF assms(1)] assms(3) have "v = u" by (auto dest: single_valuedD)
  with v assms(4) have "(u, u) \<in> (child_rel xs)\<^sup>+" by (auto intro: rtrancl_into_trancl1)
  from rank_trancl [OF assms(2) this] show False by simp
qed

lemma distinct_concat_apart:
  assumes "distinct us" and "\<And>u. u \<in> set us \<Longrightarrow> distinct (f u)"
    and "\<And>u v. u \<in> set us \<Longrightarrow> v \<in> set us \<Longrightarrow> u \<noteq> v \<Longrightarrow> set (f u) \<inter> set (f v) = {}"
  shows "distinct (concat (map f us))"
  using assms
proof (induction us)
  case (Cons u us)
  have "set (f u) \<inter> set (f v) = {}" if "v \<in> set us" for v
    using Cons.prems(1) that by (intro Cons.prems(3)) auto
  with Cons show ?case by auto
qed simp

lemma kids_linked:
  assumes "linked xs"
  shows "distinct (kids_in (links_of xs) u)" and "set (kids_in (links_of xs) u) = {c. (c, u) \<in> child_rel xs}"
  using assms unfolding links_of_linked(2) [OF assms] linked_def child_rel_def
  by (auto simp: distinct_map_filter)

lemma read_below:
  assumes xs: "linked xs" and r: "ranked r xs" and "u \<in> uuid ` set xs" and "card (below xs u) \<le> k"
  shows "\<exists>t. read_tree k (nodes_of xs) (links_of xs) u = Inr t \<and> uuid_of t = u \<and> distinct (ids t) \<and>
    set (ids t) = below xs u \<and> (\<forall>s \<in> subs t. obj_get (nodes_of xs) (uuid_of s) = Some (tree_node s))"
  using assms(3,4)
proof (induction k arbitrary: u)
  case 0
  with finite_below [OF 0(1)] have "below xs u = {}" by simp
  with self_below show ?case by blast
next
  case (Suc k)
  from xs have d: "distinct (map uuid xs)" by (simp add: linked_def)
  from Suc.prems obtain x where x: "x \<in> set xs" "uuid x = u" by auto
  have node: "obj_get (nodes_of xs) u = Some (node_of x)" using nodes_of_get [OF d x(1)] x(2) by simp
  show ?case
  proof (cases "node_of x")
    case (LeafNode t n)
    have "(c, u) \<notin> child_rel xs" for c
      using linked_node [OF xs] node LeafNode by (force simp: child_rel_def)
    then have "below xs u = {u}" using below_cases by blast
    with node LeafNode show ?thesis by simp
  next
    case (FolderNode n d)
    let ?K = "kids_in (links_of xs) u"
    have "\<exists>t. read_tree k (nodes_of xs) (links_of xs) c = Inr t \<and> distinct (ids t) \<and>
        set (ids t) = below xs c \<and> (\<forall>s \<in> subs t. obj_get (nodes_of xs) (uuid_of s) = Some (tree_node s))"
      if "c \<in> set ?K" for c
    proof -
      from that have c: "(c, u) \<in> child_rel xs" by (simp add: kids_linked [OF xs])
      then have "c \<in> uuid ` set xs" by (auto simp: child_rel_def)
      moreover have "card (below xs c) \<le> k"
        using below_child [OF r c Suc.prems(1)] Suc.prems(2) by simp
      ultimately show ?thesis using Suc.IH [of c] by blast
    qed
    then obtain g where g: "\<And>c. c \<in> set ?K \<Longrightarrow> read_tree k (nodes_of xs) (links_of xs) c = Inr (g c) \<and>
        distinct (ids (g c)) \<and> set (ids (g c)) = below xs c \<and>
        (\<forall>s \<in> subs (g c). obj_get (nodes_of xs) (uuid_of s) = Some (tree_node s))"
      by metis
    then have "rmap (read_tree k (nodes_of xs) (links_of xs)) ?K = Inr (map g ?K)" by (intro rmap_Inr) blast
    then have read: "read_tree (Suc k) (nodes_of xs) (links_of xs) u = Inr (Folder u n d (Some (map g ?K)))"
      using node FolderNode by simp
    have apart: "distinct (concat (map (\<lambda>c. ids (g c)) ?K))"
    proof (rule distinct_concat_apart [OF kids_linked(1) [OF xs]])
      fix a b assume ab: "a \<in> set ?K" "b \<in> set ?K" "a \<noteq> b"
      then have "a \<notin> below xs b" "b \<notin> below xs a"
        using siblings_apart [OF \<open>distinct (map uuid xs)\<close> r] kids_linked [OF xs] by auto
      with below_disjoint [OF \<open>distinct (map uuid xs)\<close>] g ab
      show "set (ids (g a)) \<inter> set (ids (g b)) = {}" by simp
    qed (simp add: g)
    have all: "set (concat (map (\<lambda>c. ids (g c)) ?K)) = (\<Union>c \<in> set ?K. below xs c)" using g by simp
    have fresh: "u \<notin> (\<Union>c \<in> set ?K. below xs c)"
    proof
      assume "u \<in> (\<Union>c \<in> set ?K. below xs c)"
      then obtain c where "(c, u) \<in> child_rel xs" "(u, c) \<in> (child_rel xs)\<^sup>*"
        using kids_linked [OF xs] by (auto simp: below_def)
      then have "(u, u) \<in> (child_rel xs)\<^sup>+" by (auto intro: rtrancl_into_trancl1)
      from rank_trancl [OF r this] show False by simp
    qed
    have bel: "below xs u = insert u (\<Union>c \<in> set ?K. below xs c)"
      unfolding kids_linked(2) [OF xs] using below_cases [of _ xs u] by (intro set_eqI) auto
    let ?t = "Folder u n d (Some (map g ?K))"
    have ids: "ids ?t = u # concat (map (\<lambda>c. ids (g c)) ?K)" by (simp add: comp_def)
    have "distinct (ids ?t)" unfolding ids using apart fresh all by simp
    moreover have "set (ids ?t) = below xs u" unfolding ids bel using all by simp
    moreover have "\<forall>s \<in> subs ?t. obj_get (nodes_of xs) (uuid_of s) = Some (tree_node s)"
      using g node FolderNode by auto
    ultimately show ?thesis using read by (intro exI [of _ ?t]) simp
  qed
qed

lemma reaches_root:
  assumes "linked xs" and "ranked r xs" and "v \<in> uuid ` set xs"
  shows "\<exists>u \<in> set (roots (links_of xs)). v \<in> below xs u"
  using assms(3)
proof (induction "r v" arbitrary: v rule: less_induct)
  case less
  then obtain x where x: "x \<in> set xs" "uuid x = v" by auto
  show ?case
  proof (cases "parent_of x")
    case None
    then have "v \<in> set (roots (links_of xs))" using x by (auto simp: links_of_linked [OF assms(1)])
    with self_below show ?thesis by blast
  next
    case (Some p)
    then have "(v, p) \<in> child_rel xs" using x by (auto simp: child_rel_def)
    moreover have "p \<in> uuid ` set xs" using assms(1) x Some unfolding linked_def by blast
    moreover have "r p < r v" using assms(2) x Some by (auto simp: ranked_def)
    ultimately obtain u where "u \<in> set (roots (links_of xs))" "p \<in> below xs u" using less(1) by blast
    with \<open>(v, p) \<in> child_rel xs\<close> show ?thesis
      by (auto simp: below_def intro: converse_rtrancl_into_rtrancl)
  qed
qed

lemma roots_apart:
  assumes "linked xs" and "a \<in> set (roots (links_of xs))" and "b \<noteq> a"
  shows "a \<notin> below xs b"
proof
  assume "a \<in> below xs b"
  with assms(3) obtain p where "(a, p) \<in> child_rel xs"
    unfolding below_def mem_Collect_eq by (metis converse_rtranclE)
  then obtain y where "y \<in> set xs" "uuid y = a" "parent_of y = Some p" by (auto simp: child_rel_def)
  moreover from assms(1,2) obtain x where "x \<in> set xs" "uuid x = a" "parent_of x = None"
    by (auto simp: links_of_linked)
  ultimately show False using assms(1) by (auto simp: linked_def distinct_map inj_on_def)
qed

lemma build_forest:
  assumes "linked xs" and "ranked r xs"
  shows "\<exists>ts. buildTree xs = Inr ts \<and> mset (forest_ids ts) = mset (map uuid xs) \<and>
    (\<forall>s \<in> \<Union> (subs ` set ts). obj_get (nodes_of xs) (uuid_of s) = Some (tree_node s))"
proof -
  let ?R = "roots (links_of xs)" and ?read = "read_tree (Suc (length xs)) (nodes_of xs) (links_of xs)"
  have d: "distinct (map uuid xs)" using assms(1) by (simp add: linked_def)
  have R: "set ?R \<subseteq> uuid ` set xs" "distinct ?R"
    using d by (auto simp: links_of_linked [OF assms(1)] distinct_map_filter)
  have "\<exists>t. ?read u = Inr t \<and> distinct (ids t) \<and> set (ids t) = below xs u \<and>
      (\<forall>s \<in> subs t. obj_get (nodes_of xs) (uuid_of s) = Some (tree_node s))" if "u \<in> set ?R" for u
  proof -
    have u: "u \<in> uuid ` set xs" using R that by blast
    then have "below xs u \<subseteq> uuid ` set xs" using below_items by blast
    then have "card (below xs u) \<le> card (uuid ` set xs)" by (intro card_mono) auto
    also have "\<dots> \<le> length xs" using card_length [of "map uuid xs"] by simp
    finally have "card (below xs u) \<le> Suc (length xs)" by simp
    from read_below [OF assms u this] show ?thesis by blast
  qed
  then obtain g where g: "\<And>u. u \<in> set ?R \<Longrightarrow> ?read u = Inr (g u) \<and> distinct (ids (g u)) \<and>
      set (ids (g u)) = below xs u \<and> (\<forall>s \<in> subs (g u). obj_get (nodes_of xs) (uuid_of s) = Some (tree_node s))"
    by metis
  then have "rmap ?read ?R = Inr (map g ?R)" by (intro rmap_Inr) blast
  then have build: "buildTree xs = Inr (map g ?R)" by (simp only: buildTree_def)
  have ids: "forest_ids (map g ?R) = concat (map (\<lambda>u. ids (g u)) ?R)" by (simp add: comp_def)
  have apart: "distinct (concat (map (\<lambda>u. ids (g u)) ?R))"
  proof (rule distinct_concat_apart [OF R(2)])
    fix a b assume "a \<in> set ?R" "b \<in> set ?R" "a \<noteq> b"
    with roots_apart [OF assms(1)] below_disjoint [OF d] g
    show "set (ids (g a)) \<inter> set (ids (g b)) = {}" by simp
  qed (simp add: g)
  have "set (concat (map (\<lambda>u. ids (g u)) ?R)) = (\<Union>u \<in> set ?R. below xs u)" using g by simp
  also have "\<dots> = uuid ` set xs"
  proof (intro equalityI subsetI)
    fix v assume "v \<in> (\<Union>u \<in> set ?R. below xs u)"
    then obtain u where u: "u \<in> set ?R" "v \<in> below xs u" by blast
    with R(1) have "u \<in> uuid ` set xs" by blast
    from below_items [OF u(2) this] show "v \<in> uuid ` set xs" .
  next
    fix v assume "v \<in> uuid ` set xs"
    from reaches_root [OF assms this] show "v \<in> (\<Union>u \<in> set ?R. below xs u)" by blast
  qed
  finally have "set (forest_ids (map g ?R)) = set (map uuid xs)" unfolding ids by simp
  then have "mset (forest_ids (map g ?R)) = mset (map uuid xs)"
    using apart [folded ids] d set_eq_iff_mset_eq_distinct by blast
  then show ?thesis using build g by (intro exI [of _ "map g ?R"]) auto
qed

lemma flat_sub: "x \<in> set (flatten ts p k i) \<Longrightarrow> \<exists>t \<in> \<Union> (subs ` set ts). \<exists>q j m. x = flat_of t q j m"
proof (induction ts p k i rule: flatten.induct)
  case (2 u n d cs items p k i)
  then show ?case by auto blast+
qed auto

text \<open>What an item is, apart from its place.\<close>

definition payload :: "flat_item \<Rightarrow> string \<times> node" where
  "payload x = (uuid x, node_of x)"

lemma build_forest_payload:
  assumes "linked xs" and "ranked r xs"
  shows "\<exists>ts. buildTree xs = Inr ts \<and> mset (map payload (flattenTree ts)) = mset (map payload xs)"
proof -
  obtain ts where ts: "buildTree xs = Inr ts" "mset (forest_ids ts) = mset (map uuid xs)"
      "\<forall>s \<in> \<Union> (subs ` set ts). obj_get (nodes_of xs) (uuid_of s) = Some (tree_node s)"
    using build_forest [OF assms] by blast
  let ?P = "\<lambda>u. (u, the (obj_get (nodes_of xs) u))"
  have d: "distinct (map uuid xs)" using assms(1) by (simp add: linked_def)
  have "payload x = ?P (uuid x)" if x: "x \<in> set (flattenTree ts)" for x
  proof -
    obtain t q j m where t: "t \<in> \<Union> (subs ` set ts)" and x: "x = flat_of t q j m"
      using flat_sub [OF x [unfolded flattenTree_def]] by blast
    from bspec [OF ts(3) t] show ?thesis by (simp add: payload_def x)
  qed
  then have "map payload (flattenTree ts) = map ?P (map uuid (flattenTree ts))" by simp
  also have "map uuid (flattenTree ts) = forest_ids ts" by (simp add: flattenTree_def)
  finally have "mset (map payload (flattenTree ts)) = image_mset ?P (mset (map uuid xs))"
    using ts(2) by simp
  also have "\<dots> = mset (map ?P (map uuid xs))" by (simp only: mset_map)
  also have "map ?P (map uuid xs) = map payload xs"
    using nodes_of_get [OF d] by (simp add: payload_def)
  finally show ?thesis using ts(1) by blast
qed

text \<open>The top level of a tree that was built.\<close>

lemma read_tree_node:
  "read_tree k nodes l u = Inr t \<Longrightarrow> uuid_of t = u \<and> obj_get nodes u = Some (tree_node t)"
  by (cases k) (auto simp: rbind_eq_Inr split: option.splits node.splits)

lemma rmap_mem: "rmap f xs = Inr ys \<Longrightarrow> y \<in> set ys \<Longrightarrow> \<exists>x \<in> set xs. f x = Inr y"
  by (induction xs arbitrary: ys) (auto simp: rbind_eq_Inr)

lemma build_top:
  assumes "linked xs" and "buildTree xs = Inr ts" and "t \<in> set ts"
  shows "\<exists>x \<in> set xs. uuid x = uuid_of t \<and> parent_of x = None \<and> node_of x = tree_node t"
proof -
  from rmap_mem [OF assms(2) [unfolded buildTree_def] assms(3)] obtain u where
    u: "u \<in> set (roots (links_of xs))" "read_tree (Suc (length xs)) (nodes_of xs) (links_of xs) u = Inr t" by blast
  from u(1) obtain x where x: "x \<in> set xs" "parent_of x = None" "uuid x = u"
    unfolding links_of_linked(1) [OF assms(1)] by auto
  from read_tree_node [OF u(2)] nodes_of_get [of xs x] assms(1) x show ?thesis by (auto simp: linked_def)
qed

lemma folder_node: "node_of x = tree_node t \<Longrightarrow> is_folder t \<longleftrightarrow> editor_type x = FolderType"
  by (cases t) (auto simp: node_of_def split: editor_type.splits)

end
