(* ===== verification/FolderDrag.thy ===== *)
theory FolderDrag
  imports FolderTree
begin

text \<open>
  Dragging in the folders editor (\<open>FoldersEditor/hooks/useDragHandlers.ts\<close>): the state of the
  hook, the handlers of a drag, and what a drop does to the tree. \<open>setItems(newTree)\<close> and
  \<open>onChange(serializeForAPI(newTree))\<close> are the outcome of a drop, a toast is its warning. The items
  shown outside of a drag, which depend on the search and the collapsed folders, are the function
  \<open>compute\<close>. Toasts are their texts before translation.
\<close>

section \<open>The state of a drag\<close>

record drag =
  activeId :: "string option"
  overId :: "string option"
  dropTargetId :: "string option"
  draggedItemIds :: "string list"
  draggedFolderChildIds :: "string list"
  offsetLeft :: int
  startItems :: "flat_item list option"

definition no_drag :: drag where
  "no_drag = \<lparr>activeId = None, overId = None, dropTargetId = None, draggedItemIds = [],
              draggedFolderChildIds = [], offsetLeft = 0, startItems = None\<rparr>"

text \<open>An empty identifier counts as none.\<close>

definition present :: "string option \<Rightarrow> string option" where
  "present i = (case i of Some [] \<Rightarrow> None | _ \<Rightarrow> i)"

definition flattenedItems :: "(string option \<Rightarrow> flat_item list) \<Rightarrow> drag \<Rightarrow> flat_item list" where
  "flattenedItems compute s =
     (case (present (activeId s), startItems s) of
        (Some a, Some items) \<Rightarrow> items
      | _ \<Rightarrow> compute (activeId s))"

definition projectionItems :: "(string option \<Rightarrow> flat_item list) \<Rightarrow> drag \<Rightarrow> flat_item list" where
  "projectionItems compute s =
     filter (\<lambda>x. uuid x \<notin> set (draggedFolderChildIds s)) (flattenedItems compute s)"

definition index_map :: "flat_item list \<Rightarrow> (string, nat) obj" where
  "index_map items = foldl (\<lambda>m (x, i). obj_set (uuid x) i m) [] (zip items [0..<length items])"

definition items_by_uuid :: "flat_item list \<Rightarrow> (string, flat_item) obj" where
  "items_by_uuid items = foldl (\<lambda>m x. obj_set (uuid x) x m) [] items"

definition children_of :: "flat_item list \<Rightarrow> string \<Rightarrow> flat_item list" where
  "children_of items p = filter (\<lambda>x. parent_of x = Some p) items"

text \<open>The identifier of the zone of an empty folder is the folder's with \<open>-empty\<close>; \<open>replace\<close> removes the
  first occurrence.\<close>

definition ends_with :: "string \<Rightarrow> string \<Rightarrow> bool" where
  "ends_with e s = (length e \<le> length s \<and> drop (length s - length e) s = e)"

fun remove_first :: "string \<Rightarrow> string \<Rightarrow> string" where
  "remove_first e [] = []"
| "remove_first e (c # s) =
     (if take (length e) (c # s) = e then drop (length e) (c # s) else c # remove_first e s)"

definition empty_zone :: "string \<Rightarrow> string option" where
  "empty_zone over = (if ends_with ''-empty'' over then Some (remove_first ''-empty'' over) else None)"

text \<open>The folder that is highlighted while the item is over a place.\<close>

definition drop_target_at ::
    "(string option \<Rightarrow> flat_item list) \<Rightarrow> drag \<Rightarrow> string \<Rightarrow> string \<Rightarrow> int \<Rightarrow> string option" where
  "drop_target_at compute s active over offset =
     (case empty_zone over of
        Some folder \<Rightarrow> Some folder
      | None \<Rightarrow>
          (let items = projectionItems compute s
           in case getProjection items active over offset DRAG_INDENTATION_WIDTH (Some (index_map items)) of
                None \<Rightarrow> None
              | Some p \<Rightarrow> target p))"

definition handleDragStart :: "(string option \<Rightarrow> flat_item list) \<Rightarrow> string list \<Rightarrow> string \<Rightarrow> drag \<Rightarrow> drag" where
  "handleDragStart compute selected active s =
     (let snapshot = compute None;
          below = (case find_index (\<lambda>x. uuid x = active) snapshot of
                     None \<Rightarrow> draggedFolderChildIds s
                   | Some i \<Rightarrow>
                       if editor_type (snapshot ! i) = FolderType
                       then js_uniq (map uuid (takeWhile (\<lambda>x. depth x > depth (snapshot ! i)) (drop (Suc i) snapshot)))
                       else draggedFolderChildIds s)
      in s\<lparr>startItems := Some snapshot, activeId := Some active,
           draggedItemIds := (if active \<in> set selected then selected else [active]),
           draggedFolderChildIds := below\<rparr>)"

definition handleDragMove :: "(string option \<Rightarrow> flat_item list) \<Rightarrow> int \<Rightarrow> drag \<Rightarrow> drag" where
  "handleDragMove compute delta s =
     (let s' = s\<lparr>offsetLeft := delta\<rparr>
      in case (present (activeId s), present (overId s)) of
           (Some a, Some b) \<Rightarrow> s'\<lparr>dropTargetId := drop_target_at compute s a b delta\<rparr>
         | _ \<Rightarrow> s')"

definition handleDragOver :: "(string option \<Rightarrow> flat_item list) \<Rightarrow> string option \<Rightarrow> drag \<Rightarrow> drag" where
  "handleDragOver compute over s =
     s\<lparr>overId := over,
       dropTargetId := (case (present (activeId s), over) of
                          (Some a, Some b) \<Rightarrow> drop_target_at compute s a b (offsetLeft s)
                        | _ \<Rightarrow> None)\<rparr>"

definition handleDragCancel :: "drag \<Rightarrow> drag" where
  "handleDragCancel s = no_drag"

section \<open>Whether a drop is allowed\<close>

fun max_folder_depth :: "nat \<Rightarrow> flat_item list \<Rightarrow> string \<Rightarrow> int \<Rightarrow> int result" where
  "max_folder_depth 0 full p base = Inl StackOverflow"
| "max_folder_depth (Suc k) full p base =
     rfold (\<lambda>m c. if editor_type c = FolderType
                  then rbind (max_folder_depth k full (uuid c) (depth c)) (\<lambda>d. Inr (max (max m (depth c)) d))
                  else Inr m) base (children_of full p)"

definition getMaxFolderDescendantDepth :: "flat_item list \<Rightarrow> string \<Rightarrow> int \<Rightarrow> int result" where
  "getMaxFolderDescendantDepth full p base = max_folder_depth (Suc (length full)) full p base"

definition add_id :: "'a \<Rightarrow> 'a list \<Rightarrow> 'a list" where
  "add_id x xs = (if x \<in> set xs then xs else xs @ [x])"

text \<open>Folders all of whose children are dragged go with them; the deepest are looked at first.\<close>

definition promoted_folders :: "flat_item list \<Rightarrow> string list \<Rightarrow> string list" where
  "promoted_folders full dragged =
     foldl (\<lambda>acc f. let cs = children_of full (uuid f)
                    in if cs \<noteq> [] \<and> list_all (\<lambda>c. uuid c \<in> set dragged \<or> uuid c \<in> set acc) cs
                       then add_id (uuid f) acc else acc)
       []
       (sort_key (\<lambda>x. - depth x)
         (filter (\<lambda>x. editor_type x = FolderType \<and> \<not> isDefaultFolder (uuid x) \<and> uuid x \<notin> set dragged) full))"

definition has_type :: "editor_type \<Rightarrow> flat_item list \<Rightarrow> bool" where
  "has_type ty items = list_ex (\<lambda>x. editor_type x = ty) items"

definition warnItemsOutsideFolders :: "bool \<Rightarrow> bool \<Rightarrow> string option" where
  "warnItemsOutsideFolders hasDraggedColumn hasDraggedMetric =
     (if hasDraggedColumn \<and> hasDraggedMetric then Some ''Columns and metrics should be inside folders''
      else if hasDraggedColumn then Some ''Columns should be inside folders''
      else if hasDraggedMetric then Some ''Metrics should be inside folders''
      else None)"

definition default_folder_warning :: "string \<Rightarrow> flat_item \<Rightarrow> string option" where
  "default_folder_warning folder x =
     (if editor_type x = FolderType then Some ''Cannot nest folders in default folders''
      else if folder = DEFAULT_METRICS_FOLDER_UUID \<and> editor_type x = LeafType ColumnLeaf
      then Some ''This folder only supports metrics''
      else if folder = DEFAULT_COLUMNS_FOLDER_UUID \<and> editor_type x = LeafType MetricLeaf
      then Some ''This folder only supports columns''
      else None)"

definition into_default_warning :: "flat_item list \<Rightarrow> string list \<Rightarrow> flat_item list \<Rightarrow> string option \<Rightarrow> string option" where
  "into_default_warning full promoted draggedItems parent =
     (case parent of
        None \<Rightarrow> None
      | Some p \<Rightarrow>
          if obj_get (items_by_uuid full) p = None \<or> \<not> isDefaultFolder p then None
          else if promoted \<noteq> [] then Some ''Cannot nest folders in default folders''
          else case find (\<lambda>x. default_folder_warning p x \<noteq> None) draggedItems of
                 None \<Rightarrow> None
               | Some x \<Rightarrow> default_folder_warning p x)"

text \<open>Whether a folder and the folders below it get too deep when the folder goes to depth \<open>d\<close>.\<close>

definition too_deep :: "flat_item list \<Rightarrow> int \<Rightarrow> flat_item \<Rightarrow> bool result" where
  "too_deep full d x =
     rbind (getMaxFolderDescendantDepth full (uuid x) (depth x)) (\<lambda>mx. Inr (d + (mx - depth x) \<ge> MAX_DEPTH))"

fun any_too_deep :: "flat_item list \<Rightarrow> int \<Rightarrow> flat_item list \<Rightarrow> bool result" where
  "any_too_deep full d [] = Inr False"
| "any_too_deep full d (x # xs) =
     rbind (too_deep full d x) (\<lambda>b. if b then Inr True else any_too_deep full d xs)"

definition promoted_items :: "flat_item list \<Rightarrow> string list \<Rightarrow> flat_item list" where
  "promoted_items full promoted =
     concat (map (\<lambda>i. case obj_get (items_by_uuid full) i of None \<Rightarrow> [] | Some x \<Rightarrow> [x]) promoted)"

datatype verdict = Allowed | Refused "string option"

definition drop_verdict ::
    "flat_item list \<Rightarrow> string list \<Rightarrow> flat_item list \<Rightarrow> projection option \<Rightarrow> verdict result" where
  "drop_verdict full promoted draggedItems p =
     (let parent = (case p of None \<Rightarrow> None | Some q \<Rightarrow> present (target q));
          folders = filter (\<lambda>x. editor_type x = FolderType) draggedItems
      in if list_ex (\<lambda>x. editor_type x \<noteq> FolderType) draggedItems \<and> parent = None
         then Inr (Refused (warnItemsOutsideFolders (has_type (LeafType ColumnLeaf) draggedItems)
                                                    (has_type (LeafType MetricLeaf) draggedItems)))
         else if into_default_warning full promoted draggedItems parent \<noteq> None
         then Inr (Refused (into_default_warning full promoted draggedItems parent))
         else if list_ex (\<lambda>x. isDefaultFolder (uuid x)) folders \<and> parent \<noteq> None
         then Inr (Refused (Some ''Default folders cannot be nested''))
         else case p of
                None \<Rightarrow> Inr Allowed
              | Some q \<Rightarrow>
                  rbind (any_too_deep full (at_depth q) (folders @ promoted_items full promoted))
                    (\<lambda>deep. Inr (if deep then Refused (Some ''Maximum folder nesting depth reached'') else Allowed)))"

section \<open>What a drop moves\<close>

text \<open>The new depth of an item, and its new parent, if it changes.\<close>

record placement =
  to_depth :: int
  to_parent :: "string option option"

type_synonym placements = "(string, placement) obj"

definition is_topmost :: "string list \<Rightarrow> flat_item \<Rightarrow> bool" where
  "is_topmost promoted f = (case parent_of f of None \<Rightarrow> True | Some p \<Rightarrow> p \<notin> set promoted)"

text \<open>The topmost promoted folders go to the target; the depth changes of the promoted folders are kept by folder.\<close>

definition place_top ::
    "projection \<Rightarrow> placements \<times> (string, int) obj \<Rightarrow> flat_item \<Rightarrow> placements \<times> (string, int) obj" where
  "place_top p acc f =
     (obj_set (uuid f) \<lparr>to_depth = at_depth p, to_parent = Some (target p)\<rparr> (fst acc),
      obj_set (uuid f) (at_depth p - depth f) (snd acc))"

definition place_topmost ::
    "flat_item list \<Rightarrow> string list \<Rightarrow> projection \<Rightarrow> placements \<times> (string, int) obj" where
  "place_topmost full promoted p =
     foldl (place_top p) ([], []) (filter (is_topmost promoted) (promoted_items full promoted))"

text \<open>The walk from a nested promoted folder towards its topmost one.\<close>

fun climb :: "nat \<Rightarrow> flat_item list \<Rightarrow> string list \<Rightarrow> (string, int) obj \<Rightarrow> flat_item \<Rightarrow> flat_item result" where
  "climb 0 full promoted ch x = Inl StackOverflow"
| "climb (Suc k) full promoted ch x =
     (case parent_of x of
        Some p \<Rightarrow>
          if p \<in> set promoted \<and> obj_get ch p = None
          then rbind (or_throw TypeError (obj_get (items_by_uuid full) p)) (climb k full promoted ch)
          else Inr x
      | None \<Rightarrow> Inr x)"

definition change_of :: "(string, int) obj \<Rightarrow> int \<Rightarrow> string option \<Rightarrow> int" where
  "change_of ch depthChange i =
     (case i of None \<Rightarrow> depthChange
      | Some p \<Rightarrow> (case obj_get ch p of None \<Rightarrow> depthChange | Some c \<Rightarrow> c))"

definition place_nested ::
    "flat_item list \<Rightarrow> string list \<Rightarrow> int \<Rightarrow> placements \<times> (string, int) obj \<Rightarrow> flat_item \<Rightarrow>
     (placements \<times> (string, int) obj) result" where
  "place_nested full promoted depthChange acc f =
     (let (u, ch) = acc
      in if obj_get u (uuid f) \<noteq> None then Inr acc
         else rbind (climb (Suc (length full)) full promoted ch f) (\<lambda>ancestor.
           let c = change_of ch depthChange (parent_of ancestor)
           in Inr (obj_set (uuid f) \<lparr>to_depth = depth f + c, to_parent = None\<rparr> u, obj_set (uuid f) c ch)))"

definition place_dragged ::
    "string list \<Rightarrow> (string, int) obj \<Rightarrow> string \<Rightarrow> int \<Rightarrow> projection \<Rightarrow> placements \<Rightarrow> flat_item \<Rightarrow> placements" where
  "place_dragged promoted ch active depthChange p u x =
     obj_set (uuid x)
       (case parent_of x of
          Some q \<Rightarrow>
            if q \<in> set promoted
            then \<lparr>to_depth = depth x + change_of ch depthChange (Some q), to_parent = None\<rparr>
            else \<lparr>to_depth = (if uuid x = active then at_depth p else depth x + depthChange),
                  to_parent = Some (target p)\<rparr>
        | None \<Rightarrow> \<lparr>to_depth = (if uuid x = active then at_depth p else depth x + depthChange),
                   to_parent = Some (target p)\<rparr>) u"

text \<open>What is below a moved folder moves along, unless it already has its place. Every call places an item, so the number of
  items bounds the depth of the calls.\<close>

fun place_below :: "nat \<Rightarrow> flat_item list \<Rightarrow> int \<Rightarrow> string \<Rightarrow> placements \<Rightarrow> placements result" where
  "place_below 0 full change p u = Inl StackOverflow"
| "place_below (Suc k) full change p u =
     rfold (\<lambda>u x. if obj_get u (uuid x) \<noteq> None then Inr u
                  else let u' = obj_set (uuid x) \<lparr>to_depth = depth x + change, to_parent = None\<rparr> u
                       in if editor_type x = FolderType then place_below k full change (uuid x) u' else Inr u')
       u (children_of full p)"

definition collectDescendants :: "flat_item list \<Rightarrow> int \<Rightarrow> string \<Rightarrow> placements \<Rightarrow> placements result" where
  "collectDescendants full change p u = place_below (Suc (length full)) full change p u"

definition itemsToUpdate ::
    "flat_item list \<Rightarrow> string list \<Rightarrow> flat_item list \<Rightarrow> string \<Rightarrow> int \<Rightarrow> projection \<Rightarrow> placements result" where
  "itemsToUpdate full promoted draggedItems active depthChange p =
     rbind (rfold (place_nested full promoted depthChange) (place_topmost full promoted p)
              (promoted_items full promoted)) (\<lambda>(u, ch).
     rbind (rfold (\<lambda>u x. if editor_type x = FolderType then collectDescendants full depthChange (uuid x) u
                         else Inr u)
              (foldl (place_dragged promoted ch active depthChange p) u draggedItems) draggedItems) (\<lambda>u.
     rfold (\<lambda>u i. collectDescendants full (change_of ch depthChange (Some i)) i u) u promoted))"

definition update_item :: "placements \<Rightarrow> flat_item \<Rightarrow> flat_item" where
  "update_item u x =
     (case obj_get u (uuid x) of
        None \<Rightarrow> x
      | Some m \<Rightarrow> x\<lparr>depth := to_depth m,
                    parentId := (case to_parent m of None \<Rightarrow> parentId x | Some q \<Rightarrow> q)\<rparr>)"

fun ids_below :: "nat \<Rightarrow> flat_item list \<Rightarrow> string \<Rightarrow> string list \<Rightarrow> string list result" where
  "ids_below 0 full p s = Inl StackOverflow"
| "ids_below (Suc k) full p s =
     rfold (\<lambda>s x. if uuid x \<in> set s then Inr s
                  else if editor_type x = FolderType then ids_below k full (uuid x) (s @ [uuid x])
                  else Inr (s @ [uuid x]))
       s (children_of full p)"

definition collectDescendantIds :: "flat_item list \<Rightarrow> string \<Rightarrow> string list \<Rightarrow> string list result" where
  "collectDescendantIds full p s = ids_below (Suc (length full)) full p s"

text \<open>The identifiers of what moves: what is dragged, the promoted folders when there is a place to go, and all below them.\<close>

definition itemsToMove ::
    "flat_item list \<Rightarrow> string list \<Rightarrow> string list \<Rightarrow> flat_item list \<Rightarrow> projection option \<Rightarrow> string list result" where
  "itemsToMove full dragged promoted draggedItems p =
     rbind (rfold (\<lambda>s x. if editor_type x = FolderType then collectDescendantIds full (uuid x) s else Inr s)
              (js_uniq dragged) draggedItems) (\<lambda>s.
     case p of
       None \<Rightarrow> Inr s
     | Some q \<Rightarrow> rfold (\<lambda>s i. collectDescendantIds full i (add_id i s)) s promoted)"

definition insertion_index ::
    "flat_item list \<Rightarrow> flat_item list \<Rightarrow> string list \<Rightarrow> projection option \<Rightarrow> bool \<Rightarrow> string \<Rightarrow> nat \<Rightarrow> nat \<Rightarrow> nat" where
  "insertion_index full remaining moved p isEmptyDrop over activeIndex overIndex =
     (case (case p of None \<Rightarrow> None | Some q \<Rightarrow> present (target q)) of
        Some parent \<Rightarrow>
          (case find_index (\<lambda>x. uuid x = parent) remaining of
             None \<Rightarrow> 0
           | Some i \<Rightarrow>
               if isEmptyDrop then Suc i
               else case find_index (\<lambda>x. uuid x = over) remaining of
                      None \<Rightarrow> Suc i
                    | Some j \<Rightarrow>
                        if parentId (remaining ! j) = Some parent \<and> \<not> activeIndex < overIndex then j else Suc j)
      | None \<Rightarrow> overIndex - length (filter (\<lambda>x. uuid x \<in> set moved) (take overIndex full)))"

text \<open>The list after the drop: what moves is taken out and inserted as one block.\<close>

definition moved_list ::
    "flat_item list \<Rightarrow> string list \<Rightarrow> string list \<Rightarrow> flat_item list \<Rightarrow> projection option \<Rightarrow> bool \<Rightarrow>
     string \<Rightarrow> flat_item \<Rightarrow> string \<Rightarrow> nat \<Rightarrow> nat \<Rightarrow> flat_item list result" where
  "moved_list full dragged promoted draggedItems p isEmptyDrop active activeItem over activeIndex overIndex =
     rbind (case p of
              None \<Rightarrow> Inr []
            | Some q \<Rightarrow> itemsToUpdate full promoted draggedItems active (at_depth q - depth activeItem) q) (\<lambda>u.
     rbind (itemsToMove full dragged promoted draggedItems p) (\<lambda>moved.
       let newItems = map (update_item u) full;
           subtree = filter (\<lambda>x. uuid x \<in> set moved) newItems;
           remaining = filter (\<lambda>x. uuid x \<notin> set moved) newItems;
           i = insertion_index full remaining moved p isEmptyDrop over activeIndex overIndex
       in Inr (take i remaining @ subtree @ drop i remaining)))"

section \<open>The drop\<close>

datatype drop_outcome =
    NothingDropped
  | Warned string
  | Dropped "tree_item list" "tree_item list"

definition refused :: "string option \<Rightarrow> drop_outcome" where
  "refused w = (case w of None \<Rightarrow> NothingDropped | Some text \<Rightarrow> Warned text)"

text \<open>Where the dragged items go; \<open>isEmptyDrop\<close> is a drop on the zone of an empty folder.\<close>

definition drop_place ::
    "flat_item list \<Rightarrow> flat_item list \<Rightarrow> string \<Rightarrow> string \<Rightarrow> int \<Rightarrow> bool \<Rightarrow> nat \<Rightarrow> projection option" where
  "drop_place full visible active over offset isEmptyDrop overIndex =
     (if isEmptyDrop
      then let d = depth (full ! overIndex) + 1
           in Some \<lparr>at_depth = d, maxDepth = d, minDepth = d, target = Some over\<rparr>
      else getProjection visible active over offset DRAG_INDENTATION_WIDTH (Some (index_map visible)))"

text \<open>A drop on an item of the list.\<close>

definition drop_on ::
    "flat_item list \<Rightarrow> string list \<Rightarrow> flat_item list \<Rightarrow> string \<Rightarrow> string \<Rightarrow> int \<Rightarrow> bool \<Rightarrow> nat \<Rightarrow> nat \<Rightarrow>
     drop_outcome result" where
  "drop_on full dragged visible active over offset isEmptyDrop activeIndex overIndex =
     (let draggedItems = filter (\<lambda>x. uuid x \<in> set dragged) full;
          p = drop_place full visible active over offset isEmptyDrop overIndex;
          activeItem = full ! activeIndex;
          newParentId = (case p of None \<Rightarrow> None | Some q \<Rightarrow> target q);
          promoted = promoted_folders full dragged
      in if active = over \<and> newParentId = parentId activeItem then Inr NothingDropped
         else rbind (drop_verdict full promoted draggedItems p) (\<lambda>v.
           case v of
             Refused w \<Rightarrow> Inr (refused w)
           | Allowed \<Rightarrow>
               rbind (moved_list full dragged promoted draggedItems p isEmptyDrop active activeItem over
                        activeIndex overIndex) (\<lambda>sorted_items.
               if length sorted_items \<noteq> length full then Inr NothingDropped
               else rbind (buildTree sorted_items) (\<lambda>newTree.
                 Inr (Dropped newTree (serializeForAPI newTree))))))"

definition handleDragEnd ::
    "(string option \<Rightarrow> flat_item list) \<Rightarrow> flat_item list \<Rightarrow> string \<Rightarrow> string option \<Rightarrow> drag \<Rightarrow>
     (drag \<times> drop_outcome) result" where
  "handleDragEnd compute full active over s =
     (let dragged = draggedItemIds s;
          draggedItems = filter (\<lambda>x. uuid x \<in> set dragged) full
      in rbind
       (if dragged = [] then Inr NothingDropped
        else case over of
          None \<Rightarrow> Inr (refused (warnItemsOutsideFolders (has_type (LeafType ColumnLeaf) draggedItems)
                                                           (has_type (LeafType MetricLeaf) draggedItems)))
        | Some zone \<Rightarrow>
            (let isEmptyDrop = (empty_zone zone \<noteq> None);
                 over' = (case empty_zone zone of None \<Rightarrow> zone | Some folder \<Rightarrow> folder)
             in if isEmptyDrop \<and> over' \<in> set dragged then Inr NothingDropped
                else if over' \<in> set (draggedFolderChildIds s) then Inr NothingDropped
                else case (obj_get (index_map full) active, obj_get (index_map full) over') of
                       (Some i, Some j) \<Rightarrow>
                         drop_on full dragged (projectionItems compute s) active over' (offsetLeft s) isEmptyDrop i j
                     | _ \<Rightarrow> Inr NothingDropped))
       (\<lambda>outcome. Inr (no_drag, outcome)))"

section \<open>The folders that a drag may not be dropped on\<close>

definition dragged_offset :: "flat_item list \<Rightarrow> flat_item list \<Rightarrow> int result" where
  "dragged_offset full draggedItems =
     rfold (\<lambda>m x. if editor_type x = FolderType
                  then rbind (getMaxFolderDescendantDepth full (uuid x) (depth x)) (\<lambda>d. Inr (max m (d - depth x)))
                  else Inr m) 0 draggedItems"

definition forbidden_folder :: "flat_item list \<Rightarrow> int \<Rightarrow> flat_item \<Rightarrow> bool" where
  "forbidden_folder draggedItems offset x =
     (let hasFolder = has_type FolderType draggedItems;
          hasDefault = list_ex (\<lambda>y. editor_type y = FolderType \<and> isDefaultFolder (uuid y)) draggedItems;
          metrics = (uuid x = DEFAULT_METRICS_FOLDER_UUID);
          columns = (uuid x = DEFAULT_COLUMNS_FOLDER_UUID)
      in editor_type x = FolderType \<and>
         (hasDefault \<and> \<not> isDefaultFolder (uuid x) \<or>
          (metrics \<or> columns) \<and> hasFolder \<or>
          metrics \<and> has_type (LeafType ColumnLeaf) draggedItems \<or>
          columns \<and> has_type (LeafType MetricLeaf) draggedItems \<or>
          hasFolder \<and> depth x + 1 + offset \<ge> MAX_DEPTH))"

definition forbiddenDropFolderIds :: "flat_item list \<Rightarrow> drag \<Rightarrow> string list result" where
  "forbiddenDropFolderIds full s =
     (let draggedItems = promoted_items full (draggedItemIds s)
      in if draggedItemIds s = [] then Inr []
         else rbind (dragged_offset full draggedItems) (\<lambda>offset.
           Inr (js_uniq (map uuid (filter (forbidden_folder draggedItems offset) full)))))"

section \<open>What is drawn under the pointer\<close>

text \<open>The dragged folder with what is shown below it, or at most three of the dragged items.\<close>

definition dragOverlayItems ::
    "(string option \<Rightarrow> flat_item list) \<Rightarrow> flat_item list \<Rightarrow> drag \<Rightarrow> flat_item list" where
  "dragOverlayItems compute full s =
     (case present (activeId s) of
        None \<Rightarrow> []
      | Some a \<Rightarrow>
          if draggedItemIds s = [] then []
          else if (case obj_get (items_by_uuid full) a of None \<Rightarrow> False | Some x \<Rightarrow> editor_type x = FolderType) \<and>
                  draggedFolderChildIds s \<noteq> []
          then filter (\<lambda>x. uuid x = a \<or> uuid x \<in> set (draggedFolderChildIds s)) (flattenedItems compute s)
          else take 3 (filter (\<lambda>x. uuid x \<in> set (draggedItemIds s)) full))"

end
