(* ===== verification/FolderDrops.thy ===== *)
theory FolderDrops
  imports FolderDrag
begin

text \<open>
  What a drop does to the tree of folders: what moves is closed under children, the places only change
  the parents of what moves, and so the list after the drop describes a tree with the same items.
\<close>

section \<open>What moves\<close>

definition closed_in :: "flat_item list \<Rightarrow> string set \<Rightarrow> string \<Rightarrow> bool" where
  "closed_in full S v \<longleftrightarrow> (\<forall>x \<in> set (children_of full v). uuid x \<in> S)"

lemma closed_mono: "closed_in full S v \<Longrightarrow> S \<subseteq> T \<Longrightarrow> closed_in full T v"
  by (auto simp: closed_in_def)

lemma no_children_closed:
  assumes "linked full" and "\<not> (\<exists>y \<in> set full. uuid y = v \<and> editor_type y = FolderType)"
  shows "closed_in full S v"
  using assms by (auto simp: closed_in_def children_of_def linked_def)

lemma leaf_closed: "linked full \<Longrightarrow> x \<in> set full \<Longrightarrow> editor_type x \<noteq> FolderType \<Longrightarrow> closed_in full S (uuid x)"
  by (rule no_children_closed) (auto simp: linked_def distinct_map inj_on_def)

text \<open>What a walk adds has all its children in the result.\<close>

definition grown :: "flat_item list \<Rightarrow> string list \<Rightarrow> string list \<Rightarrow> bool" where
  "grown full s s' \<longleftrightarrow> set s \<subseteq> set s' \<and> (\<forall>v \<in> set s' - set s. closed_in full (set s') v)"

lemma grown_refl: "grown full s s"
  by (simp add: grown_def)

lemma grown_trans: "grown full s t \<Longrightarrow> grown full t u \<Longrightarrow> grown full s u"
  unfolding grown_def by (meson Diff_iff closed_mono order.trans subset_iff)

lemma ids_below_grown:
  assumes "linked full" and "ids_below k full p s = Inr s'"
  shows "grown full s s' \<and> closed_in full (set s') p"
  using assms(2)
proof (induction k arbitrary: p s s')
  case 0
  then show ?case by simp
next
  case (Suc k)
  let ?f = "\<lambda>s x. if uuid x \<in> set s then Inr s
      else if editor_type x = FolderType then ids_below k full (uuid x) (s @ [uuid x])
      else Inr (s @ [uuid x])"
  have fold: "grown full s s' \<and> uuid ` set xs \<subseteq> set s'"
    if "rfold ?f s xs = Inr s'" "set xs \<subseteq> set full" for xs s s'
    using that
  proof (induction xs arbitrary: s)
    case Nil
    then show ?case by (simp add: grown_refl)
  next
    case (Cons x xs)
    from Cons.prems(1) obtain t where t: "?f s x = Inr t" "rfold ?f t xs = Inr s'"
      by (auto simp: rbind_eq_Inr simp del: split_paired_All)
    have step: "grown full s t \<and> uuid x \<in> set t"
    proof (cases "uuid x \<in> set s")
      case True
      with t(1) show ?thesis by (simp add: grown_refl)
    next
      case False
      show ?thesis
      proof (cases "editor_type x = FolderType")
        case True
        with t(1) False have "ids_below k full (uuid x) (s @ [uuid x]) = Inr t" by simp
        from Suc.IH [OF this] show ?thesis by (auto simp: grown_def)
      next
        case leaf: False
        with t(1) False have "t = s @ [uuid x]" by simp
        with leaf_closed [OF assms(1) _ leaf] Cons.prems(2) show ?thesis by (auto simp: grown_def)
      qed
    qed
    have rest: "grown full t s' \<and> uuid ` set xs \<subseteq> set s'"
      using Cons.IH [OF t(2)] Cons.prems(2) by simp
    have "grown full s s'" by (rule grown_trans [OF conjunct1 [OF step] conjunct1 [OF rest]])
    with step rest show ?case by (auto simp: grown_def)
  qed
  have "set (children_of full p) \<subseteq> set full" by (auto simp: children_of_def)
  with fold [of s "children_of full p" s'] Suc.prems show ?case by (auto simp: closed_in_def)
qed

lemma collect_grown:
  "linked full \<Longrightarrow> collectDescendantIds full p s = Inr s' \<Longrightarrow> grown full s s' \<and> closed_in full (set s') p"
  unfolding collectDescendantIds_def by (rule ids_below_grown)

definition moves_ok :: "flat_item list \<Rightarrow> string set \<Rightarrow> bool" where
  "moves_ok full S \<longleftrightarrow> (\<forall>v \<in> S. closed_in full S v)"

lemma dragged_folders_grown:
  assumes "linked full"
    and "rfold (\<lambda>s x. if editor_type x = FolderType then collectDescendantIds full (uuid x) s else Inr s) s xs = Inr s'"
    and "set xs \<subseteq> set full"
  shows "grown full s s' \<and> (\<forall>x \<in> set xs. closed_in full (set s') (uuid x))"
  using assms(2,3)
proof (induction xs arbitrary: s)
  case Nil
  then show ?case by (simp add: grown_refl)
next
  case (Cons x xs)
  from Cons.prems(1) obtain t where
    t: "(if editor_type x = FolderType then collectDescendantIds full (uuid x) s else Inr s) = Inr t"
      "rfold (\<lambda>s x. if editor_type x = FolderType then collectDescendantIds full (uuid x) s else Inr s) t xs = Inr s'"
    by (auto simp: rbind_eq_Inr)
  have step: "grown full s t \<and> closed_in full (set t) (uuid x)"
    using t(1) Cons.prems(2) collect_grown [OF assms(1)] leaf_closed [OF assms(1)]
    by (auto simp: grown_refl split: if_splits)
  have rest: "grown full t s' \<and> (\<forall>x \<in> set xs. closed_in full (set s') (uuid x))"
    using Cons.IH [OF t(2)] Cons.prems(2) by simp
  have "grown full s s'" by (rule grown_trans [OF conjunct1 [OF step] conjunct1 [OF rest]])
  moreover have "closed_in full (set s') (uuid x)"
    using step rest closed_mono [of full "set t" "uuid x" "set s'"] by (simp add: grown_def)
  ultimately show ?case using rest by simp
qed

lemma promoted_grown:
  assumes "linked full"
    and "rfold (\<lambda>s i. collectDescendantIds full i (add_id i s)) s is = Inr s'" and "moves_ok full (set s)"
  shows "set s \<subseteq> set s' \<and> set is \<subseteq> set s' \<and> moves_ok full (set s')"
  using assms(2,3)
proof (induction "is" arbitrary: s)
  case Nil
  then show ?case by simp
next
  case (Cons i "is")
  from Cons.prems(1) obtain t where t: "collectDescendantIds full i (add_id i s) = Inr t"
      "rfold (\<lambda>s i. collectDescendantIds full i (add_id i s)) t is = Inr s'"
    by (auto simp: rbind_eq_Inr)
  from collect_grown [OF assms(1) t(1)]
  have g: "grown full (add_id i s) t" "closed_in full (set t) i" by simp_all
  have add: "set (add_id i s) = insert i (set s)" by (auto simp: add_id_def)
  have "closed_in full (set t) v" if v: "v \<in> set t" for v
  proof (cases "v \<in> set (add_id i s)")
    case True
    then have "v = i \<or> v \<in> set s" by (auto simp: add)
    moreover have "set s \<subseteq> set t" using g(1) by (auto simp: grown_def add)
    ultimately show ?thesis using g(2) Cons.prems(2) closed_mono by (auto simp: moves_ok_def)
  next
    case False
    with g(1) v show ?thesis by (simp add: grown_def)
  qed
  then have "moves_ok full (set t)" by (simp add: moves_ok_def)
  from Cons.IH [OF t(2) this] g(1) show ?case by (auto simp: grown_def add)
qed

lemma itemsToMove_ok:
  assumes "linked full" and "itemsToMove full dragged promoted (filter (\<lambda>x. uuid x \<in> set dragged) full) p = Inr moved"
  shows "set dragged \<subseteq> set moved \<and> (p \<noteq> None \<longrightarrow> set promoted \<subseteq> set moved) \<and> moves_ok full (set moved)"
proof -
  let ?D = "filter (\<lambda>x. uuid x \<in> set dragged) full"
  from assms(2) obtain s where s:
    "rfold (\<lambda>s x. if editor_type x = FolderType then collectDescendantIds full (uuid x) s else Inr s)
       (js_uniq dragged) ?D = Inr s"
    and m: "(case p of None \<Rightarrow> Inr s | Some q \<Rightarrow> rfold (\<lambda>s i. collectDescendantIds full i (add_id i s)) s promoted)
      = Inr moved"
    unfolding itemsToMove_def rbind_eq_Inr by blast
  have g: "grown full (js_uniq dragged) s" "\<And>x. x \<in> set ?D \<Longrightarrow> closed_in full (set s) (uuid x)"
    using dragged_folders_grown [OF assms(1) s] by auto
  have "closed_in full (set s) v" if v: "v \<in> set s" for v
  proof (cases "v \<in> set dragged")
    case False
    with g(1) v show ?thesis by (simp add: grown_def)
  next
    case True
    show ?thesis
    proof (cases "\<exists>y \<in> set full. uuid y = v")
      case True
      with g(2) \<open>v \<in> set dragged\<close> show ?thesis by auto
    next
      case False
      with no_children_closed [OF assms(1)] show ?thesis by blast
    qed
  qed
  then have ok: "moves_ok full (set s)" by (simp add: moves_ok_def)
  have sub: "set dragged \<subseteq> set s" using g(1) by (simp add: grown_def)
  show ?thesis
  proof (cases p)
    case None
    with m ok sub show ?thesis by simp
  next
    case (Some q)
    with m have "rfold (\<lambda>s i. collectDescendantIds full i (add_id i s)) s promoted = Inr moved" by simp
    from promoted_grown [OF assms(1) this ok] sub show ?thesis by auto
  qed
qed

section \<open>Whose parent changes\<close>

text \<open>Only items of a set of identifiers get a new parent, the target.\<close>

definition placed :: "projection \<Rightarrow> string set \<Rightarrow> placements \<Rightarrow> bool" where
  "placed q S u \<longleftrightarrow>
     (\<forall>v m. obj_get u v = Some m \<longrightarrow> to_parent m = None \<or> to_parent m = Some (target q) \<and> v \<in> S)"

lemma placed_set:
  "placed q S u \<Longrightarrow> to_parent m = None \<or> to_parent m = Some (target q) \<and> v \<in> S \<Longrightarrow> placed q S (obj_set v m u)"
  by (auto simp: placed_def)

lemma place_below_placed: "place_below k full c p u = Inr u' \<Longrightarrow> placed q S u \<Longrightarrow> placed q S u'"
proof (induction k arbitrary: p u u')
  case 0
  then show ?case by simp
next
  case (Suc k)
  let ?f = "\<lambda>u x. if obj_get u (uuid x) \<noteq> None then Inr u
     else let u' = obj_set (uuid x) \<lparr>to_depth = depth x + c, to_parent = None\<rparr> u
          in if editor_type x = FolderType then place_below k full c (uuid x) u' else Inr u'"
  from Suc.prems(1) have "rfold ?f u (children_of full p) = Inr u'" by simp
  then show ?case
  proof (rule rfold_inv [where P = "placed q S"])
    show "placed q S u" by (rule Suc.prems(2))
    fix s x s' assume "placed q S s" "?f s x = Inr s'"
    then show "placed q S s'" using Suc.IH by (auto simp: Let_def placed_set split: if_splits)
  qed
qed

lemma promoted_items_mem: "x \<in> set (promoted_items full promoted) \<Longrightarrow> linked full \<Longrightarrow> uuid x \<in> set promoted \<and> x \<in> set full"
proof -
  assume x: "x \<in> set (promoted_items full promoted)" and l: "linked full"
  then obtain i where i: "i \<in> set promoted" "obj_get (items_by_uuid full) i = Some x"
    by (auto simp: promoted_items_def split: option.splits)
  have "i \<in> uuid ` set full"
  proof (rule ccontr)
    assume "i \<notin> uuid ` set full"
    then have "obj_get (items_by_uuid full) i = None"
      unfolding items_by_uuid_def by (simp add: od.get_foldl_put_notin)
    with i show False by simp
  qed
  then obtain y where y: "y \<in> set full" "uuid y = i" by auto
  have "obj_get (items_by_uuid full) (uuid y) = Some y"
    unfolding items_by_uuid_def using l y(1) by (intro od.get_foldl_put_map) (simp_all add: linked_def)
  with y i show ?thesis by auto
qed

lemma place_dragged_placed:
  "placed q S u \<Longrightarrow> uuid x \<in> S \<Longrightarrow> placed q S (place_dragged promoted ch active c q u x)"
  by (auto simp: place_dragged_def intro!: placed_set split: option.splits)

lemma itemsToUpdate_placed:
  assumes "linked full"
    and "itemsToUpdate full promoted (filter (\<lambda>x. uuid x \<in> set dragged) full) active c q = Inr u"
  shows "placed q (set promoted \<union> set dragged) u"
proof -
  let ?S = "set promoted \<union> set dragged" and ?D = "filter (\<lambda>x. uuid x \<in> set dragged) full"
  let ?P = "promoted_items full promoted"
  have "placed q ?S (fst (place_topmost full promoted q))"
    unfolding place_topmost_def
  proof (rule foldl_inv [where P = "\<lambda>a. placed q ?S (fst a)"])
    fix a :: "placements \<times> (string, int) obj" and x assume "x \<in> set (filter (is_topmost promoted) ?P)" "placed q ?S (fst a)"
    then show "placed q ?S (fst (place_top q a x))"
      using promoted_items_mem [OF _ assms(1), of x promoted] by (simp add: place_top_def placed_set)
  qed (simp add: placed_def)
  moreover from assms(2) obtain u1 ch u2 where
    n: "rfold (place_nested full promoted c) (place_topmost full promoted q) ?P = Inr (u1, ch)"
    and d: "rfold (\<lambda>u x. if editor_type x = FolderType then collectDescendants full c (uuid x) u else Inr u)
       (foldl (place_dragged promoted ch active c q) u1 ?D) ?D = Inr u2"
    and p: "rfold (\<lambda>u i. collectDescendants full (change_of ch c (Some i)) i u) u2 promoted = Inr u"
    unfolding itemsToUpdate_def rbind_eq_Inr by (auto simp: rbind_eq_Inr split: prod.splits)
  ultimately have "placed q ?S (fst (u1, ch))"
    by (rule_tac rfold_inv [OF n, where P = "\<lambda>a. placed q ?S (fst a)"])
       (auto simp: place_nested_def Let_def rbind_eq_Inr intro!: placed_set split: if_splits)
  moreover have "placed q ?S (foldl (place_dragged promoted ch active c q) u xs)"
    if "placed q ?S u" "set xs \<subseteq> set ?D" for u xs
    using that by (intro foldl_inv [where P = "placed q ?S"]) (auto intro!: place_dragged_placed)
  ultimately have "placed q ?S (foldl (place_dragged promoted ch active c q) u1 ?D)" by simp
  then have "placed q ?S u2"
    by (rule_tac rfold_inv [OF d, where P = "placed q ?S"])
       (auto simp: collectDescendants_def simp del: place_below.simps intro: place_below_placed split: if_splits)
  then show ?thesis
    by (rule_tac rfold_inv [OF p, where P = "placed q ?S"])
       (auto simp: collectDescendants_def simp del: place_below.simps intro: place_below_placed)
qed

section \<open>The tree after a drop\<close>

lemma update_item_uuid [simp]: "uuid (update_item u x) = uuid x"
  by (simp add: update_item_def split: option.split)

lemma update_item_type [simp]: "editor_type (update_item u x) = editor_type x"
  by (simp add: update_item_def split: option.split)

lemma payload_update [simp]: "payload (update_item u x) = payload x"
  by (cases "editor_type x") (simp_all add: payload_def node_of_def update_item_def split: option.split)

lemma find_uuid: "distinct (map uuid xs) \<Longrightarrow> x \<in> set xs \<Longrightarrow> find (\<lambda>y. uuid y = uuid x) xs = Some x"
  by (induction xs) (auto simp: image_iff)

text \<open>A drop on a place: the items keep their parents or, when they move, go to the target.\<close>

lemma update_item_parent:
  fixes u :: placements and p :: "projection option"
  assumes "case p of None \<Rightarrow> u = [] | Some q \<Rightarrow> placed q S u"
  shows "parent_of (update_item u x) = parent_of x \<or>
    uuid x \<in> S \<and> (\<exists>q. p = Some q \<and> parent_of (update_item u x) = present (target q))"
proof (cases "obj_get u (uuid x)")
  case None
  then show ?thesis by (simp add: update_item_def)
next
  case (Some m)
  with assms obtain q where q: "p = Some q" "placed q S u" by (cases p) auto
  with Some have m: "to_parent m = None \<or> to_parent m = Some (target q) \<and> uuid x \<in> S"
    unfolding placed_def by blast
  show ?thesis
  proof (cases "to_parent m")
    case None
    with Some show ?thesis by (simp add: update_item_def parent_of_def)
  next
    case (Some t)
    with m have "t = target q" "uuid x \<in> S" by auto
    with Some \<open>obj_get u (uuid x) = Some m\<close> q(1) show ?thesis
      by (auto simp: update_item_def parent_of_def present_def split: option.splits list.splits)
  qed
qed

lemma ranked_flatten:
  "\<forall>x \<in> set (flatten ts p k i). parentId x = p \<and> depth x = k \<or>
     (\<exists>y \<in> set (flatten ts p k i). parentId x = Some (uuid y) \<and> depth x = depth y + 1)"
  by (induction ts p k i rule: flatten.induct) fastforce+

lemma flattenTree_ranked:
  assumes "forest_ok ts"
  shows "\<exists>r. ranked r (flattenTree ts)"
proof -
  let ?L = "flattenTree ts"
  let ?r = "\<lambda>v. case find (\<lambda>x. uuid x = v) ?L of None \<Rightarrow> 0 | Some x \<Rightarrow> nat (depth x)"
  have d: "distinct (map uuid ?L)" using flattenTree_linked [OF assms] by (simp add: linked_def)
  have r: "?r (uuid x) = nat (depth x)" if "x \<in> set ?L" for x
    by (simp add: find_uuid [OF d that])
  have "?r p < ?r (uuid x)" if x: "x \<in> set ?L" and p: "parent_of x = Some p" for x p
  proof -
    from p have "parentId x = Some p" by (auto simp: parent_of_def split: option.splits if_splits)
    with ranked_flatten [of ts None 0 0] x obtain y where
      y: "y \<in> set ?L" "p = uuid y" "depth x = depth y + 1" by (force simp: flattenTree_def)
    have "0 \<le> depth y" using depth_flatten y(1) unfolding flattenTree_def by fastforce
    with y r [OF x] r [OF y(1)] show ?thesis by simp
  qed
  then have "ranked ?r ?L" by (auto simp: ranked_def)
  then show ?thesis by blast
qed

text \<open>The target of a drop that does not tear the tree: a folder that stays where it is, or none.\<close>

definition target_stays :: "flat_item list \<Rightarrow> string list \<Rightarrow> projection option \<Rightarrow> bool" where
  "target_stays full moved p =
     (case p of
        None \<Rightarrow> True
      | Some q \<Rightarrow>
          (case present (target q) of
             None \<Rightarrow> True
           | Some t \<Rightarrow> t \<notin> set moved \<and> list_ex (\<lambda>x. uuid x = t \<and> editor_type x = FolderType) full))"

lemma mset_block:
  "mset (take k (filter (\<lambda>x. \<not> P x) xs) @ filter P xs @ drop k (filter (\<lambda>x. \<not> P x) xs)) = mset xs"
proof -
  let ?no = "filter (\<lambda>x. \<not> P x) xs"
  have "mset (take k ys @ zs @ drop k ys) = mset (ys @ zs)" for ys zs :: "'a list"
  proof -
    have "mset (take k ys) + mset (drop k ys) = mset ys"
      unfolding mset_append [symmetric] by simp
    then show ?thesis by (simp add: ac_simps)
  qed
  then have "mset (take k ?no @ filter P xs @ drop k ?no) = mset (?no @ filter P xs)" .
  also have "\<dots> = mset xs" by (induction xs) auto
  finally show ?thesis .
qed

lemma moved_list_tree:
  assumes l: "linked full" and r: "ranked r full"
    and L: "moved_list full dragged promoted (filter (\<lambda>x. uuid x \<in> set dragged) full) p z active a over i j = Inr L"
    and m: "itemsToMove full dragged promoted (filter (\<lambda>x. uuid x \<in> set dragged) full) p = Inr moved"
    and t: "target_stays full moved p"
  shows "linked L \<and> (\<exists>r. ranked r L) \<and> mset (map payload L) = mset (map payload full) \<and>
    (\<forall>x \<in> set L. \<exists>y \<in> set full. uuid y = uuid x \<and> editor_type y = editor_type x \<and>
       (parent_of x = parent_of y \<or>
        uuid y \<in> set promoted \<union> set dragged \<and> (\<exists>q. p = Some q \<and> parent_of x = present (target q))))"
proof -
  from L m obtain u k where
    u: "(case p of None \<Rightarrow> Inr [] | Some q \<Rightarrow> itemsToUpdate full promoted (filter (\<lambda>x. uuid x \<in> set dragged) full)
           active (at_depth q - depth a) q) = Inr u"
    and L: "L = take k (filter (\<lambda>x. uuid x \<notin> set moved) (map (update_item u) full)) @
        filter (\<lambda>x. uuid x \<in> set moved) (map (update_item u) full) @
        drop k (filter (\<lambda>x. uuid x \<notin> set moved) (map (update_item u) full))"
    unfolding moved_list_def rbind_eq_Inr Let_def by auto
  let ?new = "map (update_item u) full"
  have perm: "mset L = mset ?new" unfolding L by (rule mset_block)
  then have set_L: "set L = set ?new" by (rule mset_eq_setD)
  have "mset (map uuid L) = mset (map uuid full)" using perm by (simp add: comp_def image_mset.compositionality)
  then have d: "distinct (map uuid L)" using l mset_eq_imp_distinct_iff unfolding linked_def by blast
  from itemsToMove_ok [OF l m] have moved: "set dragged \<subseteq> set moved" "p \<noteq> None \<Longrightarrow> set promoted \<subseteq> set moved"
      "moves_ok full (set moved)" by auto
  have "case p of None \<Rightarrow> u = [] | Some q \<Rightarrow> placed q (set promoted \<union> set dragged) u"
    using u itemsToUpdate_placed [OF l] by (auto split: option.splits)
  then have parent': "parent_of (update_item u x) = parent_of x \<or>
      uuid x \<in> set promoted \<union> set dragged \<and> (\<exists>q. p = Some q \<and> parent_of (update_item u x) = present (target q))" for x
    using update_item_parent [where p = p and u = u and S = "set promoted \<union> set dragged" and x = x] by blast
  have parent: "parent_of (update_item u x) = parent_of x \<or>
      uuid x \<in> set moved \<and> (\<exists>q. p = Some q \<and> parent_of (update_item u x) = present (target q))" for x
    using parent' [of x] moved(1,2) by (metis (no_types, lifting) Un_iff option.distinct(1) subsetD)
  have origin: "\<exists>y \<in> set full. uuid y = uuid x \<and> editor_type y = editor_type x \<and>
      (parent_of x = parent_of y \<or>
       uuid y \<in> set promoted \<union> set dragged \<and> (\<exists>q. p = Some q \<and> parent_of x = present (target q)))"
    if "x \<in> set L" for x
  proof -
    from that set_L obtain x0 where x0: "x0 \<in> set full" "x = update_item u x0" by auto
    have "uuid x0 = uuid x" "editor_type x0 = editor_type x" unfolding x0(2) by simp_all
    with parent' [of x0] x0 show ?thesis by metis
  qed
  have "\<exists>y \<in> set L. uuid y = q \<and> editor_type y = FolderType" if x: "x \<in> set L" and q: "parent_of x = Some q" for x q
  proof -
    from x set_L obtain x0 where x0: "x0 \<in> set full" "x = update_item u x0" by auto
    have "\<exists>y \<in> set full. uuid y = q \<and> editor_type y = FolderType"
      using parent [of x0] q x0 l t
      by (auto simp: linked_def target_stays_def list_ex_iff split: option.splits)
    then show ?thesis using set_L by auto
  qed
  then have link: "linked L" using d by (auto simp: linked_def)
  let ?K = "Suc (sum_list (map (\<lambda>x. r (uuid x)) full))"
  let ?r = "\<lambda>v. if v \<in> set moved then r v + ?K else r v"
  have bound: "r (uuid x) < ?K" if "x \<in> set full" for x
    using member_le_sum_list [of "r (uuid x)" "map (\<lambda>x. r (uuid x)) full"] that by (simp add: less_Suc_eq_le)
  have "?r q < ?r (uuid x)" if x: "x \<in> set L" and q: "parent_of x = Some q" for x q
  proof -
    from x set_L obtain x0 where x0: "x0 \<in> set full" "x = update_item u x0" by auto
    consider "parent_of x0 = Some q" | q' where "uuid x0 \<in> set moved" "p = Some q'" "present (target q') = Some q"
      using parent [of x0] q x0 by auto
    then show ?thesis
    proof cases
      case 1
      have "uuid x0 \<in> set moved" if "q \<in> set moved"
        using moved(3) that 1 x0(1) by (auto simp: moves_ok_def closed_in_def children_of_def)
      moreover have "r q < r (uuid x0)" using r 1 x0(1) by (simp add: ranked_def)
      ultimately show ?thesis using x0(2) by auto
    next
      case (2 q')
      with t obtain y where "q \<notin> set moved" "y \<in> set full" "uuid y = q"
        by (auto simp: target_stays_def list_ex_iff)
      with bound [of y] 2(1) x0(2) show ?thesis by simp
    qed
  qed
  then have "ranked ?r L" by (auto simp: ranked_def)
  moreover have "mset (map payload L) = mset (map payload full)"
    using perm by (simp add: comp_def image_mset.compositionality)
  ultimately show ?thesis using link origin by blast
qed

section \<open>The walks of a drop end\<close>

lemma children_child_rel: "x \<in> set (children_of full p) \<Longrightarrow> x \<in> set full \<and> (uuid x, p) \<in> child_rel full"
  by (auto simp: children_of_def child_rel_def)

lemma child_below_le:
  assumes "ranked r full" and "p \<in> uuid ` set full" and "card (below full p) \<le> Suc k" and "x \<in> set (children_of full p)"
  shows "uuid x \<in> uuid ` set full \<and> card (below full (uuid x)) \<le> k"
  using children_child_rel [OF assms(4)] below_child [OF assms(1) _ assms(2), of "uuid x"] assms(3) by auto

lemma below_pos: "p \<in> uuid ` set full \<Longrightarrow> 0 < card (below full p)"
  using finite_below [of p full] self_below [of p full] by (metis card_gt_0_iff empty_iff)

lemma below_length: "p \<in> uuid ` set full \<Longrightarrow> card (below full p) \<le> Suc (length full)"
proof -
  assume p: "p \<in> uuid ` set full"
  have "card (below full p) \<le> card (uuid ` set full)"
    using below_items [OF _ p] by (intro card_mono) auto
  also have "\<dots> \<le> length full" using card_length [of "map uuid full"] by simp
  finally show ?thesis by simp
qed

lemma max_folder_depth_total:
  assumes "ranked r full"
  shows "p \<in> uuid ` set full \<Longrightarrow> card (below full p) \<le> k \<Longrightarrow> \<exists>d. max_folder_depth k full p base = Inr d"
proof (induction k arbitrary: p base)
  case 0
  with below_pos [OF 0(1)] show ?case by simp
next
  case (Suc k)
  have "\<exists>d. rfold (\<lambda>m c. if editor_type c = FolderType
      then rbind (max_folder_depth k full (uuid c) (depth c)) (\<lambda>d. Inr (max (max m (depth c)) d))
      else Inr m) base (children_of full p) = Inr d \<and> True"
  proof (rule rfold_total)
    fix s x assume "x \<in> set (children_of full p)"
    with child_below_le [OF assms Suc.prems] Suc.IH [of "uuid x" "depth x"]
    show "\<exists>s'. (if editor_type x = FolderType
      then rbind (max_folder_depth k full (uuid x) (depth x)) (\<lambda>d. Inr (max (max s (depth x)) d))
      else Inr s) = Inr s' \<and> True" by auto
  qed simp
  then show ?case by simp
qed

lemma place_below_total:
  assumes "ranked r full"
  shows "p \<in> uuid ` set full \<Longrightarrow> card (below full p) \<le> k \<Longrightarrow> \<exists>u'. place_below k full c p u = Inr u'"
proof (induction k arbitrary: p u)
  case 0
  with below_pos [OF 0(1)] show ?case by simp
next
  case (Suc k)
  have "\<exists>d. rfold (\<lambda>u x. if obj_get u (uuid x) \<noteq> None then Inr u
      else let u' = obj_set (uuid x) \<lparr>to_depth = depth x + c, to_parent = None\<rparr> u
           in if editor_type x = FolderType then place_below k full c (uuid x) u' else Inr u')
      u (children_of full p) = Inr d \<and> True"
  proof (rule rfold_total)
    fix s x assume "x \<in> set (children_of full p)"
    with child_below_le [OF assms Suc.prems] Suc.IH [of "uuid x"]
    show "\<exists>s'. (if obj_get s (uuid x) \<noteq> None then Inr s
      else let u' = obj_set (uuid x) \<lparr>to_depth = depth x + c, to_parent = None\<rparr> s
           in if editor_type x = FolderType then place_below k full c (uuid x) u' else Inr u') = Inr s' \<and> True"
      by (auto simp: Let_def)
  qed simp
  then show ?case by simp
qed

lemma ids_below_total:
  assumes "ranked r full"
  shows "p \<in> uuid ` set full \<Longrightarrow> card (below full p) \<le> k \<Longrightarrow> \<exists>s'. ids_below k full p s = Inr s'"
proof (induction k arbitrary: p s)
  case 0
  with below_pos [OF 0(1)] show ?case by simp
next
  case (Suc k)
  have "\<exists>d. rfold (\<lambda>s x. if uuid x \<in> set s then Inr s
      else if editor_type x = FolderType then ids_below k full (uuid x) (s @ [uuid x])
      else Inr (s @ [uuid x])) s (children_of full p) = Inr d \<and> True"
  proof (rule rfold_total)
    fix s x assume "x \<in> set (children_of full p)"
    with child_below_le [OF assms Suc.prems] Suc.IH [of "uuid x" "s @ [uuid x]"]
    show "\<exists>s'. (if uuid x \<in> set s then Inr s
      else if editor_type x = FolderType then ids_below k full (uuid x) (s @ [uuid x])
      else Inr (s @ [uuid x])) = Inr s' \<and> True"
      by auto
  qed simp
  then show ?case by simp
qed

lemma walks_total:
  assumes "ranked r full" and "p \<in> uuid ` set full"
  shows "\<exists>d. getMaxFolderDescendantDepth full p base = Inr d"
    and "\<exists>u'. collectDescendants full c p u = Inr u'"
    and "\<exists>s'. collectDescendantIds full p s = Inr s'"
  unfolding getMaxFolderDescendantDepth_def collectDescendants_def collectDescendantIds_def
  using max_folder_depth_total [OF assms(1,2) below_length [OF assms(2)]]
    place_below_total [OF assms(1,2) below_length [OF assms(2)]]
    ids_below_total [OF assms(1,2) below_length [OF assms(2)]] by blast+

lemma any_too_deep_total:
  "ranked r full \<Longrightarrow> set xs \<subseteq> set full \<Longrightarrow> \<exists>b. any_too_deep full d xs = Inr b"
proof (induction xs)
  case Nil
  then show ?case by auto
next
  case (Cons x xs)
  then obtain mx where "getMaxFolderDescendantDepth full (uuid x) (depth x) = Inr mx"
    using walks_total(1) [of r full "uuid x" "depth x"] by auto
  with Cons show ?case by (auto simp: too_deep_def)
qed

text \<open>The walk up: the items above one get fewer with every step.\<close>

definition above :: "flat_item list \<Rightarrow> string \<Rightarrow> string set" where
  "above xs u = {v. (u, v) \<in> (child_rel xs)\<^sup>*}"

lemma above_items:
  assumes "linked xs" and "v \<in> above xs u" and "u \<in> uuid ` set xs"
  shows "v \<in> uuid ` set xs"
proof -
  from assms(2) have "(u, v) \<in> (child_rel xs)\<^sup>*" by (simp add: above_def)
  then show ?thesis
  proof (cases rule: rtranclE)
    case base
    with assms(3) show ?thesis by simp
  next
    case (step y)
    then obtain z where "z \<in> set xs" "parent_of z = Some v" by (auto simp: child_rel_def)
    with assms(1) show ?thesis unfolding linked_def by blast
  qed
qed

lemma above_parent:
  assumes "linked xs" and "ranked r xs" and "(c, p) \<in> child_rel xs"
  shows "card (above xs p) < card (above xs c)"
proof (rule psubset_card_mono)
  have "c \<in> uuid ` set xs" using assms(3) by (auto simp: child_rel_def)
  then have "above xs c \<subseteq> uuid ` set xs" using above_items [OF assms(1)] by blast
  then show "finite (above xs c)" by (rule finite_subset) simp
  have "c \<notin> above xs p"
  proof
    assume "c \<in> above xs p"
    then have "(c, c) \<in> (child_rel xs)\<^sup>+" using assms(3) by (auto simp: above_def)
    from rank_trancl [OF assms(2) this] show False by simp
  qed
  moreover have "above xs p \<subseteq> above xs c"
    using assms(3) by (auto simp: above_def intro: converse_rtrancl_into_rtrancl)
  moreover have "c \<in> above xs c" by (simp add: above_def)
  ultimately show "above xs p \<subset> above xs c" by blast
qed

lemma items_by_uuid_get:
  assumes "linked full" and "p \<in> uuid ` set full"
  obtains x where "x \<in> set full" "uuid x = p" "obj_get (items_by_uuid full) p = Some x"
proof -
  from assms(2) obtain x where x: "x \<in> set full" "uuid x = p" by auto
  have "obj_get (items_by_uuid full) (uuid x) = Some x"
    unfolding items_by_uuid_def using assms(1) x(1) by (intro od.get_foldl_put_map) (simp_all add: linked_def)
  with x that show thesis by blast
qed

lemma climb_total:
  assumes "linked full" and "ranked r full"
  shows "x \<in> set full \<Longrightarrow> card (above full (uuid x)) \<le> k \<Longrightarrow> \<exists>y. climb (Suc k) full promoted ch x = Inr y"
proof (induction k arbitrary: x)
  case (Suc k)
  show ?case
  proof (cases "parent_of x")
    case None
    then show ?thesis by simp
  next
    case (Some p)
    then have c: "(uuid x, p) \<in> child_rel full" using Suc.prems(1) by (auto simp: child_rel_def)
    have "p \<in> uuid ` set full" using assms(1) Some Suc.prems(1) unfolding linked_def by blast
    then obtain y where y: "y \<in> set full" "uuid y = p" "obj_get (items_by_uuid full) p = Some y"
      by (rule items_by_uuid_get [OF assms(1)])
    have "card (above full (uuid y)) \<le> k"
      using above_parent [OF assms c] Suc.prems(2) y(2) by simp
    with Suc.IH [OF y(1)] Some y(3) show ?thesis by simp
  qed
next
  case 0
  have "parent_of x = None"
  proof (rule ccontr)
    assume "parent_of x \<noteq> None"
    then obtain p where "parent_of x = Some p" by auto
    then have "(uuid x, p) \<in> child_rel full" using 0(1) by (auto simp: child_rel_def)
    from above_parent [OF assms this] 0(2) show False by simp
  qed
  then show ?case by simp
qed

lemma above_length:
  assumes "linked xs" and "x \<in> set xs"
  shows "card (above xs (uuid x)) \<le> length xs"
proof -
  have "card (above xs (uuid x)) \<le> card (uuid ` set xs)"
    using above_items [OF assms(1), of _ "uuid x"] assms(2) by (intro card_mono) auto
  also have "\<dots> \<le> length xs" using card_length [of "map uuid xs"] by simp
  finally show ?thesis .
qed

lemma place_nested_total:
  assumes "linked full" and "ranked r full" and "x \<in> set full"
  shows "\<exists>a'. place_nested full promoted c a x = Inr a'"
proof -
  obtain y where "climb (Suc (length full)) full promoted (snd a) x = Inr y"
    using climb_total [OF assms above_length [OF assms(1,3)]] by blast
  then show ?thesis by (cases a) (auto simp: place_nested_def Let_def)
qed

lemma itemsToUpdate_total:
  assumes "linked full" and "ranked r full" and "set promoted \<subseteq> uuid ` set full"
  shows "\<exists>u. itemsToUpdate full promoted (filter (\<lambda>x. uuid x \<in> set dragged) full) active c q = Inr u"
proof -
  let ?D = "filter (\<lambda>x. uuid x \<in> set dragged) full"
  have "\<exists>a. rfold (place_nested full promoted c) (place_topmost full promoted q) (promoted_items full promoted) = Inr a \<and> True"
  proof (rule rfold_total)
    fix s x assume "x \<in> set (promoted_items full promoted)"
    then have "x \<in> set full" using promoted_items_mem [OF _ assms(1)] by blast
    from place_nested_total [OF assms(1,2) this]
    show "\<exists>s'. place_nested full promoted c s x = Inr s' \<and> True" by blast
  qed simp
  then obtain u1 ch where 1: "rfold (place_nested full promoted c) (place_topmost full promoted q)
      (promoted_items full promoted) = Inr (u1, ch)" by auto
  have "\<exists>u. rfold (\<lambda>u x. if editor_type x = FolderType then collectDescendants full c (uuid x) u else Inr u)
      (foldl (place_dragged promoted ch active c q) u1 ?D) ?D = Inr u \<and> True"
    by (rule rfold_total) (use walks_total(2) [OF assms(2)] in auto)
  then obtain u2 where 2: "rfold (\<lambda>u x. if editor_type x = FolderType then collectDescendants full c (uuid x) u else Inr u)
      (foldl (place_dragged promoted ch active c q) u1 ?D) ?D = Inr u2" by auto
  have "\<exists>u. rfold (\<lambda>u i. collectDescendants full (change_of ch c (Some i)) i u) u2 promoted = Inr u \<and> True"
  proof (rule rfold_total)
    fix s i assume "i \<in> set promoted"
    with assms(3) have "i \<in> uuid ` set full" by blast
    from walks_total(2) [OF assms(2) this]
    show "\<exists>u. collectDescendants full (change_of ch c (Some i)) i s = Inr u \<and> True" by blast
  qed simp
  with 1 2 show ?thesis by (auto simp: itemsToUpdate_def)
qed

lemma promoted_subset: "set (promoted_folders full dragged) \<subseteq> uuid ` set full"
  unfolding promoted_folders_def
  by (rule foldl_inv [where P = "\<lambda>s. set s \<subseteq> uuid ` set full"]) (auto simp: Let_def add_id_def)

lemma promoted_folder:
  "u \<in> set (promoted_folders full dragged) \<Longrightarrow> \<exists>x \<in> set full. uuid x = u \<and> editor_type x = FolderType"
proof -
  let ?F = "uuid ` {x \<in> set full. editor_type x = FolderType}"
  have "set (promoted_folders full dragged) \<subseteq> ?F"
    unfolding promoted_folders_def
    by (rule foldl_inv [where P = "\<lambda>s. set s \<subseteq> ?F"]) (auto simp: Let_def add_id_def)
  then show "u \<in> set (promoted_folders full dragged) \<Longrightarrow> ?thesis" by auto
qed

end
