(* ===== verification/FolderCycles.thy ===== *)
theory FolderCycles
  imports FolderDrops
begin

text \<open>
  Drops whose target is among what moves. Everything that moves then hangs on the target, and the
  target on itself, so that no root of the new list leads to any of it: \<open>buildTree\<close> returns the
  tree of what did not move.
\<close>

section \<open>Where the moved items go\<close>

definition keeps :: "placements \<Rightarrow> placements \<Rightarrow> bool" where
  "keeps u u' \<longleftrightarrow> (\<forall>v m. obj_get u v = Some m \<longrightarrow> obj_get u' v = Some m)"

definition going :: "projection \<Rightarrow> placements \<Rightarrow> string \<Rightarrow> bool" where
  "going q u v \<longleftrightarrow> (\<exists>m. obj_get u v = Some m \<and> to_parent m = Some (target q))"

lemma keeps_refl [simp]: "keeps u u"
  by (simp add: keeps_def)

lemma keeps_trans: "keeps u v \<Longrightarrow> keeps v w \<Longrightarrow> keeps u w"
  by (simp add: keeps_def)

lemma keeps_new: "obj_get u v = None \<Longrightarrow> keeps u (obj_set v m u)"
  by (auto simp: keeps_def)

lemma keeps_put: "keeps w u \<Longrightarrow> obj_get u v = None \<Longrightarrow> keeps w (obj_set v m u)"
  using keeps_trans keeps_new by blast

lemma going_keeps: "going q u v \<Longrightarrow> keeps u u' \<Longrightarrow> going q u' v"
  by (auto simp: going_def keeps_def)

lemma place_below_keeps: "place_below k full c p u = Inr u' \<Longrightarrow> keeps u u'"
proof (induction k arbitrary: p u u')
  case 0
  then show ?case by simp
next
  case (Suc k)
  let ?f = "\<lambda>u x. if obj_get u (uuid x) \<noteq> None then Inr u
     else let u' = obj_set (uuid x) \<lparr>to_depth = depth x + c, to_parent = None\<rparr> u
          in if editor_type x = FolderType then place_below k full c (uuid x) u' else Inr u'"
  from Suc.prems have "rfold ?f u (children_of full p) = Inr u'" by simp
  then show ?case
  proof (rule rfold_inv [where P = "keeps u"])
    fix s x s' assume s: "keeps u s" "?f s x = Inr s'"
    then have "keeps s s'"
      using Suc.IH keeps_new keeps_trans by (auto simp: Let_def split: if_splits) blast+
    with s(1) show "keeps u s'" by (rule keeps_trans)
  qed simp
qed

lemma collect_keeps: "collectDescendants full c p u = Inr u' \<Longrightarrow> keeps u u'"
  unfolding collectDescendants_def by (rule place_below_keeps)

lemma rfold_keeps:
  assumes "rfold f u xs = Inr u'" and "\<And>s x s'. x \<in> set xs \<Longrightarrow> f s x = Inr s' \<Longrightarrow> keeps s s'"
  shows "keeps u u'"
proof (rule rfold_inv [OF assms(1), where P = "keeps u"])
  fix s x s' assume "x \<in> set xs" "keeps u s" "f s x = Inr s'"
  then show "keeps u s'" using assms(2) keeps_trans by blast
qed simp

text \<open>The topmost promoted folders and what is dragged go to the target, but for the children of
  promoted folders, which stay in them.\<close>

lemma itemsToUpdate_going:
  assumes l: "linked full" and apart: "set promoted \<inter> set dragged = {}"
    and u: "itemsToUpdate full promoted (filter (\<lambda>x. uuid x \<in> set dragged) full) active c q = Inr u"
  shows "x \<in> set (promoted_items full promoted) \<Longrightarrow> is_topmost promoted x \<Longrightarrow> going q u (uuid x)"
    and "x \<in> set full \<Longrightarrow> uuid x \<in> set dragged \<Longrightarrow>
           going q u (uuid x) \<or> (\<exists>p \<in> set promoted. parent_of x = Some p)"
proof -
  let ?D = "filter (\<lambda>x. uuid x \<in> set dragged) full" and ?P = "promoted_items full promoted"
  obtain u1 ch u2 where
    n: "rfold (place_nested full promoted c) (place_topmost full promoted q) ?P = Inr (u1, ch)"
    and d: "rfold (\<lambda>u x. if editor_type x = FolderType then collectDescendants full c (uuid x) u else Inr u)
       (foldl (place_dragged promoted ch active c q) u1 ?D) ?D = Inr u2"
    and p: "rfold (\<lambda>u i. collectDescendants full (change_of ch c (Some i)) i u) u2 promoted = Inr u"
    using u unfolding itemsToUpdate_def rbind_eq_Inr by (auto simp: rbind_eq_Inr split: prod.splits)
  let ?u = "foldl (place_dragged promoted ch active c q) u1 ?D"
  have 1: "keeps (fst (place_topmost full promoted q)) u1"
  proof -
    have "keeps (fst (place_topmost full promoted q)) (fst (u1, ch))"
      by (rule rfold_inv [OF n, where P = "\<lambda>a. keeps (fst (place_topmost full promoted q)) (fst a)"])
        (auto simp: place_nested_def Let_def rbind_eq_Inr simp del: climb.simps intro!: keeps_put split: if_splits)
    then show ?thesis by simp
  qed
  have 2: "keeps ?u u2"
    by (rule rfold_keeps [OF d]) (auto split: if_splits intro: collect_keeps)
  have 3: "keeps u2 u"
    by (rule rfold_keeps [OF p]) (rule collect_keeps)
  have keep: "keeps ?u u" by (rule keeps_trans [OF 2 3])
  have dist: "distinct (map uuid ?D)" using l by (simp add: linked_def distinct_map_filter)
  define g where "g x = (case parent_of x of
      Some q' \<Rightarrow>
        if q' \<in> set promoted
        then \<lparr>to_depth = depth x + change_of ch c (Some q'), to_parent = None\<rparr>
        else \<lparr>to_depth = (if uuid x = active then at_depth q else depth x + c), to_parent = Some (target q)\<rparr>
    | None \<Rightarrow> \<lparr>to_depth = (if uuid x = active then at_depth q else depth x + c), to_parent = Some (target q)\<rparr>)" for x
  have f: "place_dragged promoted ch active c q = (\<lambda>u x. obj_set (uuid x) (g x) u)"
    by (intro ext) (simp add: place_dragged_def g_def)
  show "going q u (uuid x) \<or> (\<exists>p \<in> set promoted. parent_of x = Some p)"
    if x: "x \<in> set full" "uuid x \<in> set dragged"
  proof (cases "\<exists>p \<in> set promoted. parent_of x = Some p")
    case False
    have "obj_get ?u (uuid x) = Some (g x)"
      unfolding f using x by (intro od.get_foldl_put_map [OF dist]) simp
    moreover have "to_parent (g x) = Some (target q)" using False by (auto simp: g_def split: option.splits)
    ultimately have "going q ?u (uuid x)" by (simp add: going_def)
    then show ?thesis using going_keeps [OF _ keep] by blast
  qed simp
  show "going q u (uuid x)" if x: "x \<in> set ?P" "is_topmost promoted x"
  proof -
    let ?top = "filter (is_topmost promoted) ?P"
    have "going q (fst (foldl (place_top q) a xs)) (uuid x)"
      if "x \<in> set xs \<or> going q (fst a) (uuid x)" for xs and a :: "placements \<times> (string, int) obj"
      using that
    proof (induction xs arbitrary: a)
      case (Cons y ys)
      have "x \<in> set ys \<or> going q (fst (place_top q a y)) (uuid x)"
        using Cons.prems by (auto simp: place_top_def going_def)
      from Cons.IH [OF this] show ?case by simp
    qed simp
    then have "going q (fst (place_topmost full promoted q)) (uuid x)"
      using x by (simp add: place_topmost_def)
    from going_keeps [OF this 1] have g1: "going q u1 (uuid x)" .
    have "uuid x \<notin> uuid ` set ?D" using promoted_items_mem [OF x(1) l] apart by auto
    then have "obj_get ?u (uuid x) = obj_get u1 (uuid x)"
      unfolding f by (rule od.get_foldl_put_notin)
    with g1 have "going q ?u (uuid x)" by (simp add: going_def)
    then show ?thesis using keep by (rule going_keeps)
  qed
qed

lemma promoted_apart: "set (promoted_folders full dragged) \<inter> set dragged = {}"
proof -
  have "set (promoted_folders full dragged) \<subseteq> - set dragged"
    unfolding promoted_folders_def
    by (rule foldl_inv [where P = "\<lambda>s. set s \<subseteq> - set dragged"]) (auto simp: Let_def add_id_def)
  then show ?thesis by blast
qed

section \<open>Everything that moves hangs on something that moves\<close>

text \<open>What a walk from \<open>p\<close> adds is a child of \<open>p\<close> or of something the walk added.\<close>

definition hangs :: "flat_item list \<Rightarrow> string \<Rightarrow> string set \<Rightarrow> string \<Rightarrow> bool" where
  "hangs full p S v \<longleftrightarrow> (\<exists>x \<in> set full. uuid x = v \<and> (\<exists>q. parent_of x = Some q \<and> (q = p \<or> q \<in> S)))"

lemma hangs_mono: "hangs full p S v \<Longrightarrow> S \<subseteq> T \<Longrightarrow> hangs full p T v"
  by (auto simp: hangs_def)

lemma ids_below_hangs:
  "ids_below k full p s = Inr s' \<Longrightarrow>
     set s \<subseteq> set s' \<and> (\<forall>v \<in> set s' - set s. hangs full p (set s') v)"
proof (induction k arbitrary: p s s')
  case 0
  then show ?case by simp
next
  case (Suc k)
  let ?f = "\<lambda>s x. if uuid x \<in> set s then Inr s
      else if editor_type x = FolderType then ids_below k full (uuid x) (s @ [uuid x])
      else Inr (s @ [uuid x])"
  have fold: "set s \<subseteq> set s' \<and> (\<forall>v \<in> set s' - set s. hangs full p (set s') v)"
    if "rfold ?f s xs = Inr s'" "set xs \<subseteq> set (children_of full p)" for xs s s'
    using that
  proof (induction xs arbitrary: s)
    case Nil
    then show ?case by simp
  next
    case (Cons x xs)
    from Cons.prems(1) obtain t where t: "?f s x = Inr t" "rfold ?f t xs = Inr s'"
      by (auto simp: rbind_eq_Inr simp del: split_paired_All)
    from Cons.prems(2) have own: "hangs full p S (uuid x)" for S
      by (auto simp: children_of_def hangs_def)
    have step: "set s \<subseteq> set t \<and> (\<forall>v \<in> set t - set s. hangs full p (set t) v)"
    proof (cases "uuid x \<in> set s \<or> editor_type x \<noteq> FolderType")
      case True
      with t(1) own show ?thesis by (auto split: if_splits)
    next
      case False
      with t(1) have "ids_below k full (uuid x) (s @ [uuid x]) = Inr t" by simp
      from Suc.IH [OF this] have ih: "set s \<subseteq> set t" "uuid x \<in> set t"
        "\<And>v. v \<in> set t \<Longrightarrow> v \<notin> set s \<Longrightarrow> v \<noteq> uuid x \<Longrightarrow> hangs full (uuid x) (set t) v" by auto
      have "hangs full p (set t) v" if "v \<in> set t" "v \<notin> set s" for v
        using ih(2) ih(3) [OF that] own [of "set t"] by (cases "v = uuid x") (auto simp: hangs_def)
      with ih(1) show ?thesis by blast
    qed
    have rest: "set t \<subseteq> set s' \<and> (\<forall>v \<in> set s' - set t. hangs full p (set s') v)"
      using Cons.IH [OF t(2)] Cons.prems(2) by simp
    have "hangs full p (set s') v" if "v \<in> set s'" "v \<notin> set s" for v
      using that step rest hangs_mono [of full p "set t" v "set s'"] by (cases "v \<in> set t") auto
    with step rest show ?case by blast
  qed
  from Suc.prems show ?case using fold [of s "children_of full p" s'] by simp
qed

text \<open>Of what moves only the dragged items and the promoted folders may have a parent that does not move.\<close>

definition hung :: "flat_item list \<Rightarrow> string set \<Rightarrow> string set \<Rightarrow> bool" where
  "hung full R S \<longleftrightarrow>
     (\<forall>v \<in> S - R. \<exists>x \<in> set full. uuid x = v \<and> (\<exists>q \<in> S. parent_of x = Some q))"

lemma collect_hung:
  assumes "collectDescendantIds full p s = Inr s'" and "p \<in> set s" and "hung full R (set s)"
  shows "set s \<subseteq> set s' \<and> hung full R (set s')"
proof -
  from ids_below_hangs [OF assms(1) [unfolded collectDescendantIds_def]] have
    g: "set s \<subseteq> set s'" "\<And>v. v \<in> set s' \<Longrightarrow> v \<notin> set s \<Longrightarrow> hangs full p (set s') v" by auto
  have "\<exists>x \<in> set full. uuid x = v \<and> (\<exists>q \<in> set s'. parent_of x = Some q)" if v: "v \<in> set s'" "v \<notin> R" for v
  proof (cases "v \<in> set s")
    case True
    with assms(3) v(2) g(1) show ?thesis unfolding hung_def by blast
  next
    case False
    from g(2) [OF v(1) this] g(1) assms(2) show ?thesis by (auto simp: hangs_def)
  qed
  with g(1) show ?thesis by (auto simp: hung_def)
qed

lemma itemsToMove_hung:
  assumes "itemsToMove full dragged promoted (filter (\<lambda>x. uuid x \<in> set dragged) full) p = Inr moved"
  shows "hung full (set dragged \<union> set promoted) (set moved)"
proof -
  let ?D = "filter (\<lambda>x. uuid x \<in> set dragged) full" and ?R = "set dragged \<union> set promoted"
  from assms obtain s where s:
    "rfold (\<lambda>s x. if editor_type x = FolderType then collectDescendantIds full (uuid x) s else Inr s)
       (js_uniq dragged) ?D = Inr s"
    and m: "(case p of None \<Rightarrow> Inr s | Some q \<Rightarrow> rfold (\<lambda>s i. collectDescendantIds full i (add_id i s)) s promoted)
      = Inr moved"
    unfolding itemsToMove_def rbind_eq_Inr by blast
  let ?P = "\<lambda>s. set dragged \<subseteq> set s \<and> hung full ?R (set s)"
  have "?P s"
  proof (rule rfold_inv [OF s, where P = ?P])
    show "?P (js_uniq dragged)" by (auto simp: hung_def)
    fix s x s' assume "x \<in> set ?D" "?P s"
      "(if editor_type x = FolderType then collectDescendantIds full (uuid x) s else Inr s) = Inr s'"
    then show "?P s'" using collect_hung [of full "uuid x" s s' ?R] by (auto split: if_splits)
  qed
  show ?thesis
  proof (cases p)
    case None
    with m \<open>?P s\<close> show ?thesis by simp
  next
    case (Some q)
    with m have m: "rfold (\<lambda>s i. collectDescendantIds full i (add_id i s)) s promoted = Inr moved" by simp
    have "?P moved"
    proof (rule rfold_inv [where P = ?P, OF m])
      show "?P s" by (rule \<open>?P s\<close>)
      fix s i s' assume i: "i \<in> set promoted" "?P s" "collectDescendantIds full i (add_id i s) = Inr s'"
      have add: "set (add_id i s) = insert i (set s)" by (auto simp: add_id_def)
      have "\<exists>x \<in> set full. uuid x = v \<and> (\<exists>q \<in> insert i (set s). parent_of x = Some q)"
        if "v \<in> insert i (set s) - ?R" for v
      proof -
        from that i(1) have "v \<in> set s - ?R" by blast
        with i(2) show ?thesis unfolding hung_def by blast
      qed
      then have "hung full ?R (set (add_id i s))" unfolding hung_def add by blast
      from collect_hung [OF i(3) _ this] add i(2) show "?P s'" by auto
    qed
    then show ?thesis by blast
  qed
qed

section \<open>Building a list part of which hangs on itself\<close>

lemma rmap_cong_Inr:
  "rmap f xs = Inr ys \<Longrightarrow> (\<And>x y. x \<in> set xs \<Longrightarrow> f x = Inr y \<Longrightarrow> g x = Inr y) \<Longrightarrow> rmap g xs = Inr ys"
  by (induction xs arbitrary: ys) (auto simp: rbind_eq_Inr)

lemma build_without:
  fixes M :: "string set"
  assumes l: "linked L" and r: "ranked r (filter (\<lambda>x. uuid x \<notin> M) L)"
    and inside: "\<And>x. x \<in> set L \<Longrightarrow> uuid x \<in> M \<Longrightarrow> \<exists>p \<in> M. parent_of x = Some p"
    and outside: "\<And>x p. x \<in> set L \<Longrightarrow> uuid x \<notin> M \<Longrightarrow> parent_of x = Some p \<Longrightarrow> p \<notin> M"
  shows "\<exists>ts. buildTree L = Inr ts \<and>
     mset (map payload (flattenTree ts)) = mset (map payload (filter (\<lambda>x. uuid x \<notin> M) L))"
proof -
  let ?K = "filter (\<lambda>x. uuid x \<notin> M) L"
  have d: "distinct (map uuid L)" using l by (simp add: linked_def)
  have "\<exists>y \<in> set ?K. uuid y = p \<and> editor_type y = FolderType"
    if x: "x \<in> set ?K" and p: "parent_of x = Some p" for x p
  proof -
    from l x p obtain y where "y \<in> set L" "uuid y = p" "editor_type y = FolderType"
      unfolding linked_def by auto
    moreover have "p \<notin> M" using outside [of x p] x p by simp
    ultimately show ?thesis by auto
  qed
  then have lK: "linked ?K" using d by (auto simp: linked_def distinct_map_filter)
  have no_root: "filter (\<lambda>x. parent_of x = None) ?K = filter (\<lambda>x. parent_of x = None) L"
    unfolding filter_filter using inside by (intro filter_cong) fastforce+
  have same_roots: "roots (links_of L) = roots (links_of ?K)"
    unfolding links_of_linked(1) [OF l] links_of_linked(1) [OF lK] no_root ..
  have same_kids: "kids_in (links_of L) u = kids_in (links_of ?K) u" if "u \<notin> M" for u
  proof -
    have "filter (\<lambda>x. parent_of x = Some u) ?K = filter (\<lambda>x. parent_of x = Some u) L"
      unfolding filter_filter using inside that by (intro filter_cong) fastforce+
    then show ?thesis unfolding links_of_linked(2) [OF l] links_of_linked(2) [OF lK] by simp
  qed
  have same_node: "obj_get (nodes_of L) u = obj_get (nodes_of ?K) u" if "u \<in> uuid ` set ?K" for u
  proof -
    from that obtain x where x: "x \<in> set L" "x \<in> set ?K" "uuid x = u" by auto
    with nodes_of_get [OF d x(1)] nodes_of_get [of ?K x] lK show ?thesis by (simp add: linked_def)
  qed
  have read: "read_tree (j + k) (nodes_of L) (links_of L) u = Inr t"
    if "read_tree k (nodes_of ?K) (links_of ?K) u = Inr t" "u \<in> uuid ` set ?K" for j k u t
    using that
  proof (induction k arbitrary: u t)
    case (Suc k)
    from Suc.prems(2) have u: "u \<notin> M" by auto
    have sub: "c \<in> uuid ` set ?K" if "c \<in> set (kids_in (links_of ?K) u)" for c
      using that by (auto simp: kids_linked [OF lK] child_rel_def)
    show ?case
    proof (cases "obj_get (nodes_of ?K) u")
      case (Some nd)
      show ?thesis
      proof (cases nd)
        case (FolderNode n ds)
        with Suc.prems(1) Some obtain cs where cs: "t = Folder u n ds (Some cs)"
          "rmap (read_tree k (nodes_of ?K) (links_of ?K)) (kids_in (links_of ?K) u) = Inr cs"
          by (auto simp: rbind_eq_Inr)
        have "rmap (read_tree (j + k) (nodes_of L) (links_of L)) (kids_in (links_of ?K) u) = Inr cs"
          using Suc.IH sub by (intro rmap_cong_Inr [OF cs(2)]) blast
        then show ?thesis
          using Some FolderNode cs(1) by (simp add: same_node [OF Suc.prems(2)] same_kids [OF u])
      next
        case LeafNode
        with Suc.prems(1) Some show ?thesis by (simp add: same_node [OF Suc.prems(2)])
      qed
    qed (use Suc.prems(1) in simp)
  qed simp
  obtain ts where ts: "buildTree ?K = Inr ts"
      "mset (map payload (flattenTree ts)) = mset (map payload ?K)"
    using build_forest_payload [OF lK r] by blast
  have len: "Suc (length L) = (length L - length ?K) + Suc (length ?K)"
    using length_filter_le [of "\<lambda>x. uuid x \<notin> M" L] by simp
  have "buildTree L = Inr ts"
    unfolding buildTree_def same_roots
  proof (rule rmap_cong_Inr [OF ts(1) [unfolded buildTree_def]])
    fix u t assume u: "u \<in> set (roots (links_of ?K))"
      and t: "read_tree (Suc (length ?K)) (nodes_of ?K) (links_of ?K) u = Inr t"
    from u have "u \<in> uuid ` set ?K" by (auto simp: links_of_linked(1) [OF lK])
    from read [OF t this] show "read_tree (Suc (length L)) (nodes_of L) (links_of L) u = Inr t"
      unfolding len .
  qed
  with ts(2) show ?thesis by blast
qed

section \<open>A drop into what moves\<close>

lemma promoted_item:
  assumes "linked full" and "x \<in> set full" and "uuid x \<in> set promoted"
  shows "x \<in> set (promoted_items full promoted)"
proof -
  have "obj_get (items_by_uuid full) (uuid x) = Some x"
    unfolding items_by_uuid_def using assms(1,2) by (intro od.get_foldl_put_map) (simp_all add: linked_def)
  with assms(3) show ?thesis by (force simp: promoted_items_def)
qed

lemma moved_list_cycle:
  assumes l: "linked full" and r: "ranked r full"
    and L: "moved_list full dragged (promoted_folders full dragged) (filter (\<lambda>x. uuid x \<in> set dragged) full)
              (Some q) z active a over i j = Inr L"
    and m: "itemsToMove full dragged (promoted_folders full dragged) (filter (\<lambda>x. uuid x \<in> set dragged) full)
              (Some q) = Inr moved"
    and t: "present (target q) = Some t" "t \<in> set moved"
    and folder: "y \<in> set full" "uuid y = t" "editor_type y = FolderType"
  shows "\<exists>ts. buildTree L = Inr ts \<and>
     mset (map payload (flattenTree ts)) = mset (map payload (filter (\<lambda>x. uuid x \<notin> set moved) full))"
proof -
  let ?P = "promoted_folders full dragged" and ?D = "filter (\<lambda>x. uuid x \<in> set dragged) full"
  from L m obtain u k where
    u: "itemsToUpdate full ?P ?D active (at_depth q - depth a) q = Inr u"
    and L: "L = take k (filter (\<lambda>x. uuid x \<notin> set moved) (map (update_item u) full)) @
        filter (\<lambda>x. uuid x \<in> set moved) (map (update_item u) full) @
        drop k (filter (\<lambda>x. uuid x \<notin> set moved) (map (update_item u) full))"
    unfolding moved_list_def rbind_eq_Inr Let_def by auto
  let ?new = "map (update_item u) full"
  have perm: "mset L = mset ?new" unfolding L by (rule mset_block)
  then have set_L: "set L = set ?new" by (rule mset_eq_setD)
  have "mset (map uuid L) = mset (map uuid full)" using perm by (simp add: comp_def image_mset.compositionality)
  then have d: "distinct (map uuid L)" using l mset_eq_imp_distinct_iff unfolding linked_def by blast
  from itemsToMove_ok [OF l m] have moved: "set dragged \<subseteq> set moved" "set ?P \<subseteq> set moved"
      "moves_ok full (set moved)" by auto
  have "placed q (set ?P \<union> set dragged) u" by (rule itemsToUpdate_placed [OF l u])
  then have parent: "parent_of (update_item u x) = parent_of x \<or>
      uuid x \<in> set moved \<and> parent_of (update_item u x) = Some t" for x
    using update_item_parent [where p = "Some q" and u = u and S = "set ?P \<union> set dragged" and x = x] moved(1,2) t(1)
    by auto
  have gone: "parent_of (update_item u x) = Some t" if "going q u (uuid x)" for x
    using that t(1) by (auto simp: going_def update_item_def parent_of_def present_def split: option.splits list.splits)
  note going = itemsToUpdate_going [OF l promoted_apart u]
  have inside: "\<exists>p \<in> set moved. parent_of x = Some p" if x: "x \<in> set L" "uuid x \<in> set moved" for x
  proof -
    from x set_L obtain x0 where x0: "x0 \<in> set full" "x = update_item u x0" by auto
    have "going q u (uuid x0) \<or> (\<exists>p \<in> set moved. parent_of x0 = Some p)"
    proof (cases "uuid x0 \<in> set dragged \<union> set ?P")
      case True
      show ?thesis
      proof (cases "uuid x0 \<in> set dragged")
        case True
        with going(2) [OF x0(1)] moved(2) show ?thesis by blast
      next
        case False
        with True have "uuid x0 \<in> set ?P" by blast
        from going(1) [OF promoted_item [OF l x0(1) this]] moved(2) show ?thesis
          by (cases "parent_of x0") (auto simp: is_topmost_def)
      qed
    next
      case False
      with x(2) x0 itemsToMove_hung [OF m] obtain x1 p where
        "x1 \<in> set full" "uuid x1 = uuid x0" "p \<in> set moved" "parent_of x1 = Some p"
        unfolding hung_def by fastforce
      moreover have "x1 = x0"
        using l x0(1) calculation(1,2) by (auto simp: linked_def distinct_map dest: inj_onD)
      ultimately show ?thesis by blast
    qed
    with gone [of x0] parent [of x0] t(2) x0(2) show ?thesis by auto
  qed
  have outside: "p \<notin> set moved" if x: "x \<in> set L" "uuid x \<notin> set moved" "parent_of x = Some p" for x p
  proof
    assume p: "p \<in> set moved"
    from x set_L obtain x0 where x0: "x0 \<in> set full" "x = update_item u x0" by auto
    with parent [of x0] x have "x0 \<in> set (children_of full p)" by (auto simp: children_of_def)
    with moved(3) p x x0(2) show False by (auto simp: moves_ok_def closed_in_def)
  qed
  have "\<exists>y \<in> set L. uuid y = p \<and> editor_type y = FolderType" if x: "x \<in> set L" "parent_of x = Some p" for x p
  proof -
    from x set_L obtain x0 where x0: "x0 \<in> set full" "x = update_item u x0" by auto
    have "\<exists>y \<in> set full. uuid y = p \<and> editor_type y = FolderType"
      using parent [of x0] x x0 l folder by (auto simp: linked_def)
    then show ?thesis using set_L by auto
  qed
  then have link: "linked L" using d by (auto simp: linked_def)
  have "ranked r (filter (\<lambda>x. uuid x \<notin> set moved) L)"
    unfolding ranked_def
  proof (intro ballI allI impI)
    fix x p assume x: "x \<in> set (filter (\<lambda>x. uuid x \<notin> set moved) L)" "parent_of x = Some p"
    with set_L obtain x0 where x0: "x0 \<in> set full" "x = update_item u x0" by auto
    with parent [of x0] x have "parent_of x0 = Some p" by auto
    with r x0 show "r p < r (uuid x)" by (auto simp: ranked_def)
  qed
  then have "\<exists>ts. buildTree L = Inr ts \<and>
      mset (map payload (flattenTree ts)) = mset (map payload (filter (\<lambda>x. uuid x \<notin> set moved) L))"
    by (intro build_without [where r = r] link) (use inside outside in blast)+
  then obtain ts where ts: "buildTree L = Inr ts"
      "mset (map payload (flattenTree ts)) = mset (map payload (filter (\<lambda>x. uuid x \<notin> set moved) L))" by blast
  have "mset (map payload (filter (\<lambda>x. uuid x \<notin> set moved) L)) =
      image_mset payload (filter_mset (\<lambda>x. uuid x \<notin> set moved) (mset L))"
    by (simp add: mset_filter)
  also have "\<dots> = mset (map payload (filter (\<lambda>x. uuid x \<notin> set moved) (map (update_item u) full)))"
    unfolding perm by (simp add: mset_filter)
  also have "map payload (filter (\<lambda>x. uuid x \<notin> set moved) (map (update_item u) full)) =
      map payload (filter (\<lambda>x. uuid x \<notin> set moved) full)"
    by (simp add: filter_map comp_def)
  finally show ?thesis using ts by auto
qed

text \<open>A folder of the user's all of whose children are dragged moves along.\<close>

lemma children_dragged_moves:
  assumes "f \<in> set full" and "editor_type f = FolderType" and "\<not> isDefaultFolder (uuid f)"
    and "uuid f \<notin> set dragged" and "children_of full (uuid f) \<noteq> []"
    and "\<forall>c \<in> set (children_of full (uuid f)). uuid c \<in> set dragged"
  shows "uuid f \<in> set (promoted_folders full dragged)"
proof -
  let ?step = "\<lambda>acc g. let cs = children_of full (uuid g)
     in if cs \<noteq> [] \<and> list_all (\<lambda>c. uuid c \<in> set dragged \<or> uuid c \<in> set acc) cs
        then add_id (uuid g) acc else acc"
  have "uuid f \<in> set (foldl ?step acc gs)" if "f \<in> set gs \<or> uuid f \<in> set acc" for gs acc
    using that
  proof (induction gs arbitrary: acc)
    case (Cons g gs)
    have "f \<in> set gs \<or> uuid f \<in> set (?step acc g)"
      using Cons.prems assms(5,6) by (auto simp: Let_def add_id_def list_all_iff)
    from Cons.IH [OF this] show ?case by simp
  qed simp
  then show ?thesis using assms(1-4) unfolding promoted_folders_def by simp
qed

end
