(* ===== verification/FolderClaims.thy ===== *)
theory FolderClaims
  imports FolderCycles
begin

text \<open>The properties of dragging in the folders editor.\<close>

section \<open>A drop returns and keeps every item\<close>

lemma drop_verdict_total:
  assumes "linked full" and "ranked r full" and "set draggedItems \<subseteq> set full"
  shows "\<exists>v. drop_verdict full promoted draggedItems p = Inr v"
proof -
  have "set (filter (\<lambda>x. editor_type x = FolderType) draggedItems @ promoted_items full promoted) \<subseteq> set full"
    using assms(3) promoted_items_mem [OF _ assms(1)] by auto
  then have deep: "\<exists>b. any_too_deep full d (filter (\<lambda>x. editor_type x = FolderType) draggedItems @
      promoted_items full promoted) = Inr b" for d
    by (rule any_too_deep_total [OF assms(2)])
  show ?thesis
  proof (cases p)
    case None
    then show ?thesis by (simp add: drop_verdict_def Let_def)
  next
    case (Some q)
    with deep [of "at_depth q"] obtain b where
      "any_too_deep full (at_depth q) (filter (\<lambda>x. editor_type x = FolderType) draggedItems @
        promoted_items full promoted) = Inr b" by blast
    with Some show ?thesis by (simp add: drop_verdict_def Let_def)
  qed
qed

lemma itemsToMove_total:
  assumes "ranked r full" and "set promoted \<subseteq> uuid ` set full"
  shows "\<exists>moved. itemsToMove full dragged promoted (filter (\<lambda>x. uuid x \<in> set dragged) full) p = Inr moved"
proof -
  let ?D = "filter (\<lambda>x. uuid x \<in> set dragged) full"
  have "\<exists>s. rfold (\<lambda>s x. if editor_type x = FolderType then collectDescendantIds full (uuid x) s else Inr s)
      (js_uniq dragged) ?D = Inr s \<and> True"
    by (rule rfold_total) (use walks_total(3) [OF assms(1)] in auto)
  then obtain s where 1: "rfold (\<lambda>s x. if editor_type x = FolderType then collectDescendantIds full (uuid x) s else Inr s)
      (js_uniq dragged) ?D = Inr s" by blast
  have "\<exists>m. rfold (\<lambda>s i. collectDescendantIds full i (add_id i s)) s promoted = Inr m \<and> True"
  proof (rule rfold_total)
    fix t i assume "i \<in> set promoted"
    with assms(2) have "i \<in> uuid ` set full" by blast
    from walks_total(3) [OF assms(1) this]
    show "\<exists>u. collectDescendantIds full i (add_id i t) = Inr u \<and> True" by blast
  qed simp
  with 1 show ?thesis unfolding itemsToMove_def by (cases p) auto
qed

lemma moved_list_total:
  assumes "linked full" and "ranked r full"
  shows "\<exists>L. moved_list full dragged (promoted_folders full dragged) (filter (\<lambda>x. uuid x \<in> set dragged) full)
    p z active a over i j = Inr L"
proof -
  obtain moved where "itemsToMove full dragged (promoted_folders full dragged)
      (filter (\<lambda>x. uuid x \<in> set dragged) full) p = Inr moved"
    using itemsToMove_total [OF assms(2) promoted_subset] by blast
  moreover obtain u where "(case p of None \<Rightarrow> Inr [] | Some q \<Rightarrow> itemsToUpdate full (promoted_folders full dragged)
      (filter (\<lambda>x. uuid x \<in> set dragged) full) active (at_depth q - depth a) q) = Inr u"
  proof (cases p)
    case None
    with that show thesis by simp
  next
    case (Some q)
    with itemsToUpdate_total [OF assms promoted_subset, of dragged dragged active "at_depth q - depth a" q] that
    show thesis by auto
  qed
  ultimately show ?thesis by (simp add: moved_list_def Let_def)
qed

text \<open>The drop of a drag on a zone goes to a folder that stays where it is, or to none.\<close>

definition target_of_drop_stays ::
    "(string option \<Rightarrow> flat_item list) \<Rightarrow> flat_item list \<Rightarrow> string \<Rightarrow> string \<Rightarrow> drag \<Rightarrow> bool" where
  "target_of_drop_stays compute full active zone s =
     (let over = (case empty_zone zone of None \<Rightarrow> zone | Some folder \<Rightarrow> folder);
          dragged = draggedItemIds s;
          j = (case obj_get (index_map full) over of None \<Rightarrow> 0 | Some k \<Rightarrow> k);
          p = drop_place full (projectionItems compute s) active over (offsetLeft s) (empty_zone zone \<noteq> None) j
      in case itemsToMove full dragged (promoted_folders full dragged)
                (filter (\<lambda>x. uuid x \<in> set dragged) full) p of
           Inl e \<Rightarrow> False
         | Inr moved \<Rightarrow> target_stays full moved p)"

definition top_folders :: "flat_item list \<Rightarrow> bool" where
  "top_folders full \<longleftrightarrow> (\<forall>x \<in> set full. parent_of x = None \<longrightarrow> editor_type x = FolderType)"

lemma top_folders_tree:
  assumes "linked full" and "top_folders full"
    and "drop_verdict full (promoted_folders full dragged) (filter (\<lambda>x. uuid x \<in> set dragged) full) p = Inr Allowed"
    and "linked L" and "buildTree L = Inr ts"
    and "\<forall>x \<in> set L. \<exists>y \<in> set full. uuid y = uuid x \<and> editor_type y = editor_type x \<and>
       (parent_of x = parent_of y \<or> uuid y \<in> set (promoted_folders full dragged) \<union> set dragged \<and>
        (\<exists>q. p = Some q \<and> parent_of x = present (target q)))"
  shows "list_all is_folder ts"
  unfolding list_all_iff
proof
  fix t assume "t \<in> set ts"
  from build_top [OF assms(4,5) this] obtain x where
    x: "x \<in> set L" "parent_of x = None" "node_of x = tree_node t" by blast
  from assms(6) x(1) obtain y where y: "y \<in> set full" "editor_type y = editor_type x"
      "parent_of x = parent_of y \<or> uuid y \<in> set (promoted_folders full dragged) \<union> set dragged \<and>
        (\<exists>q. p = Some q \<and> parent_of x = present (target q))" by blast
  have "editor_type y = FolderType"
  proof (cases "parent_of y = None")
    case True
    with assms(2) y(1) show ?thesis by (simp add: top_folders_def)
  next
    case False
    with x(2) y(3) obtain q where q: "uuid y \<in> set (promoted_folders full dragged) \<or> uuid y \<in> set dragged"
        "p = Some q" "present (target q) = None" by auto
    from q(1) show ?thesis
    proof
      assume "uuid y \<in> set (promoted_folders full dragged)"
      from promoted_folder [OF this] obtain z where z: "z \<in> set full" "uuid z = uuid y" "editor_type z = FolderType" by blast
      moreover have "z = y" using assms(1) z y(1) by (intro inj_onD [of uuid "set full"]) (simp_all add: linked_def distinct_map)
      ultimately show ?thesis by simp
    next
      assume "uuid y \<in> set dragged"
      with assms(3) q(2,3) y(1) show ?thesis
        by (auto simp: drop_verdict_def list_ex_iff Let_def split: if_splits)
    qed
  qed
  with y(2) folder_node [OF x(3)] show "is_folder t" by simp
qed

definition outcome_keeps :: "flat_item list \<Rightarrow> drop_outcome \<Rightarrow> bool" where
  "outcome_keeps full out =
     (case out of
        Dropped ts api \<Rightarrow>
          mset (map payload (flattenTree ts)) = mset (map payload full) \<and> api = serializeForAPI ts \<and>
          (top_folders full \<longrightarrow> list_all is_folder ts)
      | _ \<Rightarrow> True)"

lemma drop_on_keeps:
  assumes "linked full" and "ranked r full"
    and "itemsToMove full dragged (promoted_folders full dragged) (filter (\<lambda>x. uuid x \<in> set dragged) full)
      (drop_place full visible active over offset z j) = Inr moved"
    and "target_stays full moved (drop_place full visible active over offset z j)"
  shows "\<exists>out. drop_on full dragged visible active over offset z i j = Inr out \<and> outcome_keeps full out"
proof -
  let ?D = "filter (\<lambda>x. uuid x \<in> set dragged) full" and ?P = "promoted_folders full dragged"
  let ?p = "drop_place full visible active over offset z j"
  obtain v where v: "drop_verdict full ?P ?D ?p = Inr v"
    using drop_verdict_total [OF assms(1,2)] by fastforce
  obtain L where L: "moved_list full dragged ?P ?D ?p z active (full ! i) over i j = Inr L"
    using moved_list_total [OF assms(1,2)] by blast
  from moved_list_tree [OF assms(1,2) L assms(3,4)] obtain r' where
    l: "linked L" "ranked r' L" "mset (map payload L) = mset (map payload full)"
      "\<forall>x \<in> set L. \<exists>y \<in> set full. uuid y = uuid x \<and> editor_type y = editor_type x \<and>
       (parent_of x = parent_of y \<or> uuid y \<in> set ?P \<union> set dragged \<and>
        (\<exists>q. ?p = Some q \<and> parent_of x = present (target q)))" by blast
  from build_forest_payload [OF l(1,2)] l(3) obtain ts where
    ts: "buildTree L = Inr ts" "mset (map payload (flattenTree ts)) = mset (map payload full)" by auto
  show ?thesis
  proof (cases v)
    case Allowed
    with top_folders_tree [OF assms(1) _ _ l(1) ts(1) l(4)] v
    have "top_folders full \<longrightarrow> list_all is_folder ts" by blast
    with Allowed v L ts show ?thesis
      unfolding drop_on_def Let_def by (auto simp: outcome_keeps_def)
  next
    case (Refused w)
    with v show ?thesis
      unfolding drop_on_def Let_def by (auto simp: outcome_keeps_def refused_def split: option.split)
  qed
qed

lemma handleDragEnd_keeps:
  assumes "forest_ok ts" and "target_of_drop_stays compute (flattenTree ts) active zone s"
  shows "\<exists>out. handleDragEnd compute (flattenTree ts) active (Some zone) s = Inr (no_drag, out) \<and>
    outcome_keeps (flattenTree ts) out"
proof -
  let ?full = "flattenTree ts"
  obtain r where r: "ranked r ?full" using flattenTree_ranked [OF assms(1)] by blast
  have none: "outcome_keeps ?full NothingDropped" by (simp add: outcome_keeps_def)
  let ?over = "case empty_zone zone of None \<Rightarrow> zone | Some folder \<Rightarrow> folder"
  have "\<exists>out. drop_on ?full (draggedItemIds s) (projectionItems compute s) active ?over (offsetLeft s)
      (empty_zone zone \<noteq> None) i j = Inr out \<and> outcome_keeps ?full out"
    if "obj_get (index_map ?full) ?over = Some j" for i j
    using assms(2) that drop_on_keeps [OF flattenTree_linked [OF assms(1)] r]
    by (auto simp: target_of_drop_stays_def Let_def split: sum.splits)
  note on = this
  show ?thesis
  proof (cases "draggedItemIds s = [] \<or> empty_zone zone \<noteq> None \<and> ?over \<in> set (draggedItemIds s) \<or>
      ?over \<in> set (draggedFolderChildIds s) \<or> obj_get (index_map ?full) active = None \<or>
      obj_get (index_map ?full) ?over = None")
    case True
    with none show ?thesis unfolding handleDragEnd_def Let_def by (auto split: option.split)
  next
    case False
    then obtain i j where ij: "obj_get (index_map ?full) active = Some i" "obj_get (index_map ?full) ?over = Some j"
      by auto
    from on [OF ij(2), of i] obtain out where "drop_on ?full (draggedItemIds s) (projectionItems compute s) active
        ?over (offsetLeft s) (empty_zone zone \<noteq> None) i j = Inr out" "outcome_keeps ?full out" by blast
    with False ij none show ?thesis unfolding handleDragEnd_def Let_def by simp
  qed
qed

text \<open>C15: A drop on a tree whose identifiers are distinct and not empty, when the target folder is not among
  what moves, returns, none of its recursive walks overflowing the stack, and ends the drag. The tree after it
  has the same folders and items as before, each once with its name, description and type, only
  folders at its top level if there were only folders, and the folders that are stored are those of the new tree.\<close>

theorem drop_keeps_every_item:
  assumes "forest_ok ts" and "target_of_drop_stays compute (flattenTree ts) active zone s"
  shows "\<exists>out. handleDragEnd compute (flattenTree ts) active (Some zone) s = Inr (no_drag, out) \<and>
    outcome_keeps (flattenTree ts) out"
  by (rule handleDragEnd_keeps [OF assms])

section \<open>An example\<close>

text \<open>A folder of the user's with two metrics, and the default folder with a third.\<close>

definition sample_folders :: "tree_item list" where
  "sample_folders =
     [Folder ''f'' (Some ''Mine'') None (Some [Leaf MetricLeaf ''a'' (Some ''A''), Leaf MetricLeaf ''b'' (Some ''B'')]),
      Folder DEFAULT_METRICS_FOLDER_UUID (Some ''Metrics'') None (Some [Leaf MetricLeaf ''c'' (Some ''C'')])]"

definition shown :: "string option \<Rightarrow> flat_item list" where
  "shown dragged_id = flattenTree sample_folders"

lemma sample_folders_ok: "forest_ok sample_folders"
  by code_simp

text \<open>The drag of \<open>a\<close>, with what is selected, over another item.\<close>

definition drag_a_over :: "string list \<Rightarrow> string \<Rightarrow> drag" where
  "drag_a_over selected over =
     handleDragOver shown (Some over) (handleDragMove shown 0 (handleDragStart shown selected ''a'' no_drag))"

theorem drop_keeps_every_item_witness:
  "\<exists>out. handleDragEnd shown (flattenTree sample_folders) ''a'' (Some ''b'') (drag_a_over [''a''] ''b'') =
      Inr (no_drag, out) \<and> outcome_keeps (flattenTree sample_folders) out"
proof (rule drop_keeps_every_item [OF sample_folders_ok])
  show "target_of_drop_stays shown (flattenTree sample_folders) ''a'' ''b'' (drag_a_over [''a''] ''b'')"
    by code_simp
qed

section \<open>A drop into what moves\<close>

definition place_of_drop ::
    "(string option \<Rightarrow> flat_item list) \<Rightarrow> flat_item list \<Rightarrow> string \<Rightarrow> string \<Rightarrow> drag \<Rightarrow> projection option" where
  "place_of_drop compute full active zone s =
     (let over = (case empty_zone zone of None \<Rightarrow> zone | Some folder \<Rightarrow> folder);
          j = (case obj_get (index_map full) over of None \<Rightarrow> 0 | Some k \<Rightarrow> k)
      in drop_place full (projectionItems compute s) active over (offsetLeft s) (empty_zone zone \<noteq> None) j)"

lemma dropped_list:
  assumes "handleDragEnd compute full active (Some zone) s = Inr (s', Dropped ts' api)"
  obtains z a over i j L where
    "moved_list full (draggedItemIds s) (promoted_folders full (draggedItemIds s))
       (filter (\<lambda>x. uuid x \<in> set (draggedItemIds s)) full) (place_of_drop compute full active zone s)
       z active a over i j = Inr L"
    "buildTree L = Inr ts'" "api = serializeForAPI ts'"
proof -
  let ?over = "case empty_zone zone of None \<Rightarrow> zone | Some folder \<Rightarrow> folder"
  from assms obtain i j where
    j: "obj_get (index_map full) ?over = Some j" and
    on: "drop_on full (draggedItemIds s) (projectionItems compute s) active ?over (offsetLeft s)
       (empty_zone zone \<noteq> None) i j = Inr (Dropped ts' api)"
    unfolding handleDragEnd_def rbind_eq_Inr Let_def
    by (auto simp: refused_def split: if_splits option.splits)
  have p: "place_of_drop compute full active zone s =
      drop_place full (projectionItems compute s) active ?over (offsetLeft s) (empty_zone zone \<noteq> None) j"
    by (simp add: place_of_drop_def j)
  let ?rest = "\<lambda>v. case v of
      Refused w \<Rightarrow> Inr (refused w)
    | Allowed \<Rightarrow>
        rbind (moved_list full (draggedItemIds s) (promoted_folders full (draggedItemIds s))
           (filter (\<lambda>x. uuid x \<in> set (draggedItemIds s)) full) (place_of_drop compute full active zone s)
           (empty_zone zone \<noteq> None) active (full ! i) ?over i j) (\<lambda>sorted_items.
         if length sorted_items \<noteq> length full then Inr NothingDropped
         else rbind (buildTree sorted_items) (\<lambda>newTree. Inr (Dropped newTree (serializeForAPI newTree))))"
  from on have "rbind (drop_verdict full (promoted_folders full (draggedItemIds s))
      (filter (\<lambda>x. uuid x \<in> set (draggedItemIds s)) full) (place_of_drop compute full active zone s)) ?rest =
      Inr (Dropped ts' api)"
    unfolding drop_on_def Let_def p [symmetric]
    by (simp only: sum.inject drop_outcome.distinct simp_thms split: if_split_asm)
  then obtain v where "?rest v = Inr (Dropped ts' api)" by (simp only: rbind_eq_Inr) blast
  then show thesis
    by (cases v) (auto simp: rbind_eq_Inr refused_def split: if_splits option.splits intro: that)
qed

text \<open>C28: A drag of all children of a folder of the user's that is dropped where the projected parent is
  this folder, so at another place of the folder itself, takes the folder along as if its children left
  it, and makes it its own parent. When such a drop is carried out, the tree that is shown and stored is
  without the folder, all its children and everything else that moves; the rest is there, each folder and
  item once with its name, description and type.\<close>

theorem reordering_all_items_loses_the_folder:
  assumes "forest_ok ts" and "full = flattenTree ts" and "dragged = draggedItemIds s"
    and "f \<in> set full" and "editor_type f = FolderType" and "\<not> isDefaultFolder (uuid f)"
    and "uuid f \<notin> set dragged" and "children_of full (uuid f) \<noteq> []"
    and "\<forall>c \<in> set (children_of full (uuid f)). uuid c \<in> set dragged"
    and "place_of_drop compute full active zone s = Some q" and "present (target q) = Some (uuid f)"
    and "handleDragEnd compute full active (Some zone) s = Inr (s', Dropped ts' api)"
  shows "\<exists>moved. itemsToMove full dragged (promoted_folders full dragged)
       (filter (\<lambda>x. uuid x \<in> set dragged) full) (Some q) = Inr moved \<and>
     uuid f \<in> set moved \<and> set dragged \<subseteq> set moved \<and>
     mset (map payload (flattenTree ts')) = mset (map payload (filter (\<lambda>x. uuid x \<notin> set moved) full)) \<and>
     api = serializeForAPI ts'"
proof -
  have l: "linked full" using flattenTree_linked [OF assms(1)] assms(2) by simp
  obtain r where r: "ranked r full" using flattenTree_ranked [OF assms(1)] assms(2) by blast
  from dropped_list [OF assms(12)] obtain z a over i j L where
    L: "moved_list full dragged (promoted_folders full dragged) (filter (\<lambda>x. uuid x \<in> set dragged) full)
       (Some q) z active a over i j = Inr L" "buildTree L = Inr ts'" "api = serializeForAPI ts'"
    unfolding assms(3,10) by metis
  from L(1) obtain moved where m: "itemsToMove full dragged (promoted_folders full dragged)
       (filter (\<lambda>x. uuid x \<in> set dragged) full) (Some q) = Inr moved"
    unfolding moved_list_def rbind_eq_Inr by blast
  from itemsToMove_ok [OF l m] have moved: "set dragged \<subseteq> set moved"
      "set (promoted_folders full dragged) \<subseteq> set moved" by auto
  with children_dragged_moves [OF assms(4-9)] have f: "uuid f \<in> set moved" by blast
  from moved_list_cycle [OF l r L(1) m assms(11) f assms(4) refl assms(5)] L(2,3) m moved(1) f
  show ?thesis by auto
qed

text \<open>The two metrics of the folder are dragged on the second of them: the folder is gone.\<close>

theorem reordering_all_items_loses_the_folder_witness:
  "\<exists>ts' api. handleDragEnd shown (flattenTree sample_folders) ''a'' (Some ''b'') (drag_a_over [''a'', ''b''] ''b'') =
      Inr (no_drag, Dropped ts' api) \<and>
    (\<exists>moved. {''f'', ''a'', ''b''} \<subseteq> set moved \<and> mset (map payload (flattenTree ts')) =
       mset (map payload (filter (\<lambda>x. uuid x \<notin> set moved) (flattenTree sample_folders))))"
proof -
  let ?full = "flattenTree sample_folders" and ?s = "drag_a_over [''a'', ''b''] ''b''"
  let ?q = "\<lparr>at_depth = 1, maxDepth = 1, minDepth = 1, target = Some ''f''\<rparr>"
  let ?f = "flat_of (hd sample_folders) None 0 0"
  have dragged: "draggedItemIds ?s = [''a'', ''b'']" by code_simp
  have f: "?f \<in> set ?full" "editor_type ?f = FolderType" "\<not> isDefaultFolder (uuid ?f)"
    "uuid ?f \<notin> set (draggedItemIds ?s)" "uuid ?f = ''f''"
    by (simp_all add: sample_folders_def flattenTree_def dragged isDefaultFolder_def
        DEFAULT_METRICS_FOLDER_UUID_def DEFAULT_COLUMNS_FOLDER_UUID_def)
  have kids: "map uuid (children_of ?full (uuid ?f)) = [''a'', ''b'']" by code_simp
  then have "children_of ?full (uuid ?f) \<noteq> []" by auto
  have "\<forall>c \<in> set (children_of ?full (uuid ?f)). uuid c \<in> set (draggedItemIds ?s)"
    using arg_cong [OF kids, of set] by (auto simp: dragged)
  note kids = \<open>children_of ?full (uuid ?f) \<noteq> []\<close> this
  have place: "place_of_drop shown ?full ''a'' ''b'' ?s = Some ?q" by code_simp
  have target: "present (target ?q) = Some (uuid ?f)" unfolding f(5) by (simp add: present_def)
  have out: "handleDragEnd shown ?full ''a'' (Some ''b'') ?s =
     Inr (no_drag,
       Dropped [Folder DEFAULT_METRICS_FOLDER_UUID (Some ''Metrics'') None (Some [Leaf MetricLeaf ''c'' (Some ''C'')])]
               [Folder DEFAULT_METRICS_FOLDER_UUID (Some ''Metrics'') None (Some [Leaf MetricLeaf ''c'' None])])"
    by code_simp
  from reordering_all_items_loses_the_folder [OF sample_folders_ok refl refl f(1-4) kids place target out]
  show ?thesis using out unfolding f(5) dragged by auto
qed

end
