(* ===== verification/FolderDefaults.thy ===== *)
theory FolderDefaults
  imports FolderOps
begin

text \<open>
  Completing the folders: every metric and every column of the dataset ends up in one folder.
\<close>

abbreviation assigned :: "tree_item list \<Rightarrow> string list" where
  "assigned folders \<equiv> concat (map collectAssignedIds folders)"

lemma by_uuid_key: "obj_get (by_uuid items) u = Some m \<Longrightarrow> own_uuid m = u"
proof -
  have "\<forall>m. obj_get (by_uuid items) u = Some m \<longrightarrow> own_uuid m = u"
    unfolding by_uuid_def
    by (rule foldl_inv [where P = "\<lambda>acc. \<forall>m. obj_get acc u = Some m \<longrightarrow> own_uuid m = u"]) auto
  then show "obj_get (by_uuid items) u = Some m \<Longrightarrow> own_uuid m = u" by blast
qed

lemma leaf_for_simps [simp]: "uuid_of (leaf_for ty m) = own_uuid m" "collectAssignedIds (leaf_for ty m) = []"
  by (simp_all add: leaf_for_def)

lemma enrich_leaf_uuid [simp]: "uuid_of (enrich_leaf ms cs x) = uuid_of x"
  by (auto simp: enrich_leaf_def dest: by_uuid_key split: option.split)

lemma enrich_leaf_assigned: "collectAssignedIds x = [] \<Longrightarrow> collectAssignedIds (enrich_leaf ms cs x) = []"
  by (auto simp: enrich_leaf_def split: option.split)

lemma enrich_child_ids [simp]:
  "uuid_of (enrich_child ms cs x) = uuid_of x"
  "collectAssignedIds (enrich_child ms cs x) = collectAssignedIds x"
proof -
  show "uuid_of (enrich_child ms cs x) = uuid_of x"
    by (induction ms cs x rule: enrich_child.induct) auto
  show "collectAssignedIds (enrich_child ms cs x) = collectAssignedIds x"
  proof (induction ms cs x rule: enrich_child.induct)
    case (1 ms cs u n d ks)
    have "uuid_of (enrich_child ms cs c) = uuid_of c" for c
      by (induction ms cs c rule: enrich_child.induct) auto
    with 1 show ?case by (auto simp: comp_def intro!: arg_cong [where f = concat])
  qed (auto intro!: enrich_leaf_assigned)
qed

lemma enriched_assigned: "collectAssignedIds (with_children (map (enrich_child ms cs)) f) = collectAssignedIds f"
  by (cases f rule: collectAssignedIds.cases) (simp_all add: comp_def)

lemma enriched_uuid [simp]: "uuid_of (with_children g f) = uuid_of f"
  by (cases f) simp_all

lemma enrichFolderChildren_ids:
  "assigned (enrichFolderChildren folders ms cs) = assigned folders"
  "map uuid_of (enrichFolderChildren folders ms cs) = map uuid_of folders"
  by (simp_all add: enrichFolderChildren_def comp_def enriched_assigned)

lemma appended_assigned:
  "is_folder f \<Longrightarrow> collectAssignedIds (with_children (\<lambda>ks. ks @ map (leaf_for ty) xs) f) =
     collectAssignedIds f @ map own_uuid xs"
  by (cases f rule: collectAssignedIds.cases) (simp_all add: comp_def)

lemma default_uuids_differ [simp]: "DEFAULT_METRICS_FOLDER_UUID \<noteq> DEFAULT_COLUMNS_FOLDER_UUID"
  "DEFAULT_COLUMNS_FOLDER_UUID \<noteq> DEFAULT_METRICS_FOLDER_UUID"
  by (simp_all add: DEFAULT_METRICS_FOLDER_UUID_def DEFAULT_COLUMNS_FOLDER_UUID_def)

lemma add_unassigned_uuid [simp]: "uuid_of (add_unassigned ms cs f) = uuid_of f"
  by (simp add: add_unassigned_def)

lemma add_unassigned_ids:
  assumes "is_folder f"
  shows "collectAssignedIds (add_unassigned (map (leaf_for t1) xs) (map (leaf_for t2) ys) f) =
    collectAssignedIds f @
    (if uuid_of f = DEFAULT_METRICS_FOLDER_UUID then map own_uuid xs
     else if uuid_of f = DEFAULT_COLUMNS_FOLDER_UUID then map own_uuid ys else [])"
  using appended_assigned [OF assms] by (simp add: add_unassigned_def)

lemma add_unassigned_all:
  assumes "distinct (map uuid_of folders)" and "list_all is_folder folders"
  shows "mset (assigned (map (add_unassigned (map (leaf_for t1) xs) (map (leaf_for t2) ys)) folders)) =
    mset (assigned folders) +
    (if DEFAULT_METRICS_FOLDER_UUID \<in> uuid_of ` set folders then mset (map own_uuid xs) else {#}) +
    (if DEFAULT_COLUMNS_FOLDER_UUID \<in> uuid_of ` set folders then mset (map own_uuid ys) else {#})"
  using assms
proof (induction folders)
  case Nil
  then show ?case by simp
next
  case (Cons f folders)
  then have "uuid_of f \<notin> uuid_of ` set folders" by auto
  with Cons show ?case by (auto simp: add_unassigned_ids)
qed

lemma unassigned_eq:
  "unassigned ty folders items =
   map (leaf_for ty) (filter (\<lambda>m. own_uuid m \<notin> set (assigned folders)) items)"
  by (simp add: unassigned_def)

lemma unassigned_collected [simp]: "assigned (map (leaf_for ty) xs) = []"
  by (induction xs) auto

lemma ensureDefaultFolders_assigned:
  assumes "distinct (map uuid_of folders)" and "list_all is_folder folders" and "folders \<noteq> []"
    and "result = ensureDefaultFolders t folders metrics columns"
  shows "mset (assigned result) =
      mset (assigned folders) +
      mset (filter (\<lambda>u. u \<notin> set (assigned folders)) (map own_uuid (metrics @ columns))) \<and>
    {DEFAULT_METRICS_FOLDER_UUID, DEFAULT_COLUMNS_FOLDER_UUID} \<subseteq> uuid_of ` set result \<and>
    take (length folders) (map uuid_of result) = map uuid_of folders"
proof -
  let ?E = "enrichFolderChildren folders metrics columns"
  let ?fresh = "\<lambda>items. filter (\<lambda>m. own_uuid m \<notin> set (assigned folders)) items"
  have ids: "assigned ?E = assigned folders" "map uuid_of ?E = map uuid_of folders"
    by (rule enrichFolderChildren_ids)+
  have folder: "list_all is_folder ?E"
    using assms(2) by (induction folders) (auto simp: enrichFolderChildren_def elim: is_folder.elims)
  have un: "unassigned ty ?E items = map (leaf_for ty) (?fresh items)" for ty items
    by (simp only: unassigned_eq ids(1))
  have ex: "list_ex (\<lambda>f. uuid_of f = u) ?E \<longleftrightarrow> u \<in> uuid_of ` set ?E" for u
    by (auto simp: list_ex_iff)
  have result: "result =
      map (add_unassigned (map (leaf_for MetricLeaf) (?fresh metrics)) (map (leaf_for ColumnLeaf) (?fresh columns))) ?E @
      (if DEFAULT_METRICS_FOLDER_UUID \<in> uuid_of ` set ?E then []
       else [Folder DEFAULT_METRICS_FOLDER_UUID (Some (t ''Metrics'' [])) None
              (Some (map (leaf_for MetricLeaf) (?fresh metrics)))]) @
      (if DEFAULT_COLUMNS_FOLDER_UUID \<in> uuid_of ` set ?E then []
       else [Folder DEFAULT_COLUMNS_FOLDER_UUID (Some (t ''Columns'' [])) None
              (Some (map (leaf_for ColumnLeaf) (?fresh columns)))])"
    using assms(3) unfolding assms(4) ensureDefaultFolders_def Let_def un ex by simp
  have "distinct (map uuid_of ?E)" using assms(1) ids(2) by simp
  note add = add_unassigned_all [OF this folder, of MetricLeaf "?fresh metrics" ColumnLeaf "?fresh columns"]
  have new: "assigned [Folder u n d (Some (map (leaf_for ty) xs))] = map own_uuid xs" for u n d ty xs
    by (simp add: comp_def)
  have "mset (assigned result) = mset (assigned folders) + mset (map own_uuid (?fresh metrics)) +
      mset (map own_uuid (?fresh columns))"
    using add unfolding result ids(1) by (auto simp: new comp_def)
  also have "\<dots> = mset (assigned folders) +
      mset (filter (\<lambda>u. u \<notin> set (assigned folders)) (map own_uuid (metrics @ columns)))"
    by (simp add: filter_map comp_def)
  finally have all: "mset (assigned result) = mset (assigned folders) +
      mset (filter (\<lambda>u. u \<notin> set (assigned folders)) (map own_uuid (metrics @ columns)))" .
  have "map uuid_of ?E = map uuid_of folders" by (rule ids(2))
  then have "take (length folders) (map uuid_of result) = map uuid_of folders"
    unfolding result by (simp add: comp_def enrichFolderChildren_def)
  moreover have "{DEFAULT_METRICS_FOLDER_UUID, DEFAULT_COLUMNS_FOLDER_UUID} \<subseteq> uuid_of ` set result"
    unfolding result by (auto simp: image_iff)
  ultimately show ?thesis using all by blast
qed

lemma ensureDefaultFolders_uuids:
  assumes "folders \<noteq> []"
  shows "map uuid_of (ensureDefaultFolders t folders metrics columns) = map uuid_of folders @
    (if DEFAULT_METRICS_FOLDER_UUID \<in> uuid_of ` set folders then [] else [DEFAULT_METRICS_FOLDER_UUID]) @
    (if DEFAULT_COLUMNS_FOLDER_UUID \<in> uuid_of ` set folders then [] else [DEFAULT_COLUMNS_FOLDER_UUID])"
proof -
  let ?E = "enrichFolderChildren folders metrics columns"
  have E: "map uuid_of ?E = map uuid_of folders" by (rule enrichFolderChildren_ids)
  then have "uuid_of ` set ?E = uuid_of ` set folders" by (metis list.set_map)
  moreover have "list_ex (\<lambda>f. uuid_of f = u) ?E \<longleftrightarrow> u \<in> uuid_of ` set ?E" for u
    by (auto simp: list_ex_iff)
  ultimately have "list_ex (\<lambda>f. uuid_of f = u) ?E \<longleftrightarrow> u \<in> uuid_of ` set folders" for u by simp
  moreover have "map (\<lambda>x. uuid_of (add_unassigned ms cs x)) ?E = map uuid_of folders" for ms cs using E by simp
  ultimately show ?thesis using assms by (simp add: ensureDefaultFolders_def Let_def comp_def)
qed

text \<open>C14: Completing the folders that are stored for a dataset adds exactly the metrics and columns that are in
  no folder, each once, to what the folders hold, and loses nothing; both default folders are there
  afterwards, and the folders that were there come first, in their order.\<close>

theorem default_folders_hold_everything:
  assumes "distinct (map uuid_of folders)" and "list_all is_folder folders" and "folders \<noteq> []"
    and "result = ensureDefaultFolders t folders metrics columns"
  shows "mset (assigned result) =
      mset (assigned folders) +
      mset (filter (\<lambda>u. u \<notin> set (assigned folders)) (map own_uuid (metrics @ columns))) \<and>
    {DEFAULT_METRICS_FOLDER_UUID, DEFAULT_COLUMNS_FOLDER_UUID} \<subseteq> uuid_of ` set result \<and>
    take (length folders) (map uuid_of result) = map uuid_of folders"
  by (rule ensureDefaultFolders_assigned [OF assms])

theorem default_folders_hold_everything_witness:
  "mset (assigned (ensureDefaultFolders (\<lambda>s _. s)
      [Folder ''f'' (Some ''Mine'') None (Some [Leaf UntypedLeaf ''m1'' None])]
      [\<lparr>own_uuid = ''m1'', own_name = Some ''M'', verbose_name = None, expression = None\<rparr>,
       \<lparr>own_uuid = ''m2'', own_name = None, verbose_name = None, expression = None\<rparr>]
      [\<lparr>own_uuid = ''c1'', own_name = Some ''C'', verbose_name = None, expression = None\<rparr>])) =
   {#''m1'', ''m2'', ''c1''#}"
proof -
  let ?folders = "[Folder ''f'' (Some ''Mine'') None (Some [Leaf UntypedLeaf ''m1'' None])]"
  let ?ms = "[\<lparr>own_uuid = ''m1'', own_name = Some ''M'', verbose_name = None, expression = None\<rparr>,
       \<lparr>own_uuid = ''m2'', own_name = None, verbose_name = None, expression = None\<rparr>]"
  let ?cs = "[\<lparr>own_uuid = ''c1'', own_name = Some ''C'', verbose_name = None, expression = None\<rparr>]"
  have "mset (assigned (ensureDefaultFolders (\<lambda>s _. s) ?folders ?ms ?cs)) =
      mset (assigned ?folders) + mset (filter (\<lambda>u. u \<notin> set (assigned ?folders)) (map own_uuid (?ms @ ?cs)))"
    by (rule conjunct1 [OF default_folders_hold_everything [OF _ _ _ refl]]) simp_all
  then show ?thesis by simp
qed

end
