(* ===== verification/FolderProjection.thy ===== *)
theory FolderProjection
  imports FolderDrag
begin

text \<open>
  Where a dragged item would go: the projected depth and parent fit the list.
\<close>

section \<open>Nested lists\<close>

text \<open>An item is a root, or the child of a folder before it, one level above; what lies between the
  two is deeper than the folder.\<close>

definition child_of_last :: "flat_item list \<Rightarrow> flat_item \<Rightarrow> bool" where
  "child_of_last xs z \<longleftrightarrow>
     (\<exists>pre y post. xs = pre @ y # post \<and> editor_type y = FolderType \<and> parentId z = Some (uuid y) \<and>
        depth z = depth y + 1 \<and> 0 \<le> depth y \<and> (\<forall>w \<in> set post. depth y < depth w))"

definition nested :: "flat_item list \<Rightarrow> bool" where
  "nested xs \<longleftrightarrow>
     (\<forall>pre z post. xs = pre @ z # post \<longrightarrow> parentId z = None \<and> depth z = 0 \<or> child_of_last pre z)"

lemma nested_Nil [simp]: "nested []"
  by (simp add: nested_def)

lemma nested_snoc: "nested (xs @ [z]) \<longleftrightarrow> nested xs \<and> (parentId z = None \<and> depth z = 0 \<or> child_of_last xs z)"
proof
  assume n: "nested (xs @ [z])"
  have "nested xs"
    unfolding nested_def
  proof (intro allI impI)
    fix pre y post assume "xs = pre @ y # post"
    then have "xs @ [z] = pre @ y # (post @ [z])" by simp
    with n show "parentId y = None \<and> depth y = 0 \<or> child_of_last pre y" unfolding nested_def by blast
  qed
  with n show "nested xs \<and> (parentId z = None \<and> depth z = 0 \<or> child_of_last xs z)" unfolding nested_def by blast
next
  assume n: "nested xs \<and> (parentId z = None \<and> depth z = 0 \<or> child_of_last xs z)"
  show "nested (xs @ [z])"
    unfolding nested_def
  proof (intro allI impI)
    fix pre y post assume e: "xs @ [z] = pre @ y # post"
    show "parentId y = None \<and> depth y = 0 \<or> child_of_last pre y"
    proof (cases post rule: rev_cases)
      case Nil
      with e n show ?thesis by simp
    next
      case (snoc post' w)
      with e have "xs = pre @ y # post'" by simp
      with n show ?thesis unfolding nested_def by blast
    qed
  qed
qed

lemma nested_prefix: "nested (xs @ ys) \<Longrightarrow> nested xs"
  by (induction ys rule: rev_induct) (auto simp: nested_snoc simp flip: append_assoc)

text \<open>Going back from the end of a nested list, every smaller depth is met.\<close>

lemma last_at_depth:
  assumes "nested xs" and "xs \<noteq> []" and "0 \<le> d" and "d \<le> depth (last xs)"
  shows "\<exists>pre y post. xs = pre @ y # post \<and> depth y = d \<and> (\<forall>w \<in> set post. d < depth w)"
  using assms
proof (induction "length xs" arbitrary: xs rule: less_induct)
  case less
  obtain ys z where xs: "xs = ys @ [z]" using less.prems(2) by (cases xs rule: rev_cases) auto
  show ?case
  proof (cases "depth z = d")
    case True
    with xs show ?thesis by (intro exI [of _ ys] exI [of _ z] exI [of _ "[]"]) simp
  next
    case False
    with less.prems xs have d: "d < depth z" by simp
    with less.prems(1,3) xs have "child_of_last ys z" by (auto simp: nested_snoc)
    then obtain pre y post where y: "ys = pre @ y # post" "depth z = depth y + 1" "\<forall>w \<in> set post. depth y < depth w"
      unfolding child_of_last_def by blast
    have "nested ((pre @ [y]) @ (post @ [z]))" using less.prems(1) xs y(1) by simp
    from nested_prefix [OF this] have "nested (pre @ [y])" .
    moreover have "length (pre @ [y]) < length xs" using xs y(1) by simp
    ultimately obtain pre' x post' where x: "pre @ [y] = pre' @ x # post'" "depth x = d" "\<forall>w \<in> set post'. d < depth w"
      using less.hyps [of "pre @ [y]"] less.prems(3) d y(2) by auto
    have "xs = pre' @ x # (post' @ post @ [z])" using x(1) xs y(1) by (metis append.assoc append_Cons append_Nil)
    moreover have "\<forall>w \<in> set (post' @ post @ [z]). d < depth w" using x(3) y d by fastforce
    ultimately show ?thesis using x(2) by blast
  qed
qed

lemma find_last:
  assumes "xs = pre @ y # post" and "P y" and "\<forall>w \<in> set post. \<not> P w"
  shows "find P (rev xs) = Some y"
proof -
  have "find P (rev post @ ys) = find P ys" if "\<forall>w \<in> set post. \<not> P w" for ys
    using that by (induction post arbitrary: ys) auto
  with assms show ?thesis by simp
qed

text \<open>An item at depth \<open>d\<close> at the end of a list fits below the folder \<open>p\<close>.\<close>

definition fits :: "flat_item list \<Rightarrow> int \<Rightarrow> string option \<Rightarrow> bool" where
  "fits xs d p \<longleftrightarrow>
     (\<exists>pre y post. xs = pre @ y # post \<and> p = Some (uuid y) \<and> editor_type y = FolderType \<and> depth y = d - 1 \<and>
        (\<forall>w \<in> set post. d \<le> depth w))"

lemma fits_at:
  assumes "nested xs" and "xs = pre @ x # post" and "depth x = d" and "0 < d" and "\<forall>w \<in> set post. d < depth w"
  shows "fits xs d (parentId x)"
proof -
  from assms(1,2) have "parentId x = None \<and> depth x = 0 \<or> child_of_last pre x"
    unfolding nested_def by blast
  with assms(3,4) obtain pre' y post' where y: "pre = pre' @ y # post'" "editor_type y = FolderType"
      "parentId x = Some (uuid y)" "depth x = depth y + 1" "\<forall>w \<in> set post'. depth y < depth w"
    unfolding child_of_last_def by auto
  have "xs = pre' @ y # (post' @ x # post)" using assms(2) y(1) by simp
  moreover have "\<forall>w \<in> set (post' @ x # post). d \<le> depth w" using y assms(3,5) by fastforce
  ultimately show ?thesis unfolding fits_def using y assms(3) by fastforce
qed

lemma nested_depth:
  assumes "nested xs" and "x \<in> set xs"
  shows "0 \<le> depth x"
proof -
  from split_list [OF assms(2)] obtain pre post where "xs = pre @ x # post" by blast
  with assms(1) have "parentId x = None \<and> depth x = 0 \<or> child_of_last pre x" unfolding nested_def by blast
  then show ?thesis by (auto simp: child_of_last_def)
qed

section \<open>The neighbours of the place\<close>

text \<open>The list is \<open>pre @ x # post\<close> with the dragged item \<open>x\<close>.\<close>

lemma js_nth_nat: "js_nth xs (int n) = (if n < length xs then Some (xs ! n) else None)"
  by (simp add: js_nth_def)

lemma other_uuid:
  assumes "distinct (map uuid (pre @ x # post))" and "y \<in> set pre \<union> set post"
  shows "uuid y \<noteq> uuid x"
proof -
  have "uuid y \<in> uuid ` (set pre \<union> set post)" using assms(2) by (rule imageI)
  moreover have "uuid x \<notin> uuid ` (set pre \<union> set post)" using assms(1) by auto
  ultimately show ?thesis by metis
qed

lemma previous_item_eq:
  assumes "distinct (map uuid (pre @ x # post))" and "b < length (pre @ x # post)"
  shows "previous_item (pre @ x # post) (uuid x) (length pre) b =
    (if take b (pre @ post) = [] then None else Some (last (take b (pre @ post))))"
proof (cases "length pre < b")
  case True
  then obtain k where b: "b = Suc (length pre + k)" using less_iff_Suc_add by auto
  with assms(2) have k: "k < length post" by simp
  then have n: "uuid (post ! k) \<noteq> uuid x" using other_uuid [OF assms(1), of "post ! k"] by simp
  have "js_nth (pre @ x # post) (int b) = Some (post ! k)"
    unfolding js_nth_nat using assms(2) by (simp add: b nth_append)
  then have "previous_item (pre @ x # post) (uuid x) (length pre) b = Some (post ! k)"
    using True n by (simp add: previous_item_def)
  moreover have "last (take b (pre @ post)) = post ! k"
    using k by (simp add: b take_Suc_conv_app_nth)
  ultimately show ?thesis using k by (auto simp: b)
next
  case False
  show ?thesis
  proof (cases b)
    case 0
    then show ?thesis by (simp add: previous_item_def js_nth_def)
  next
    case (Suc k)
    with False have k: "k < length pre" by simp
    then have n: "uuid (pre ! k) \<noteq> uuid x" using other_uuid [OF assms(1), of "pre ! k"] by simp
    have "js_nth (pre @ x # post) (int b - 1) = Some (pre ! k)"
      using k by (simp add: js_nth_def Suc nth_append)
    then have "previous_item (pre @ x # post) (uuid x) (length pre) b = Some (pre ! k)"
      using False n by (simp add: previous_item_def)
    moreover have "last (take b (pre @ post)) = pre ! k"
      using k by (simp add: Suc take_Suc_conv_app_nth)
    ultimately show ?thesis using k by (auto simp: Suc)
  qed
qed

lemma next_item_eq:
  assumes "distinct (map uuid (pre @ x # post))" and "b < length (pre @ x # post)"
  shows "next_item (pre @ x # post) (uuid x) (length pre) b =
    (if b < length (pre @ post) then Some ((pre @ post) ! b) else None)"
proof (cases "length pre > b")
  case True
  then have "uuid (pre ! b) \<noteq> uuid x" using other_uuid [OF assms(1), of "pre ! b"] by simp
  with True show ?thesis by (simp add: next_item_def js_nth_def nth_append)
next
  case False
  then obtain k where b: "b = length pre + k" using le_Suc_ex not_less by blast
  show ?thesis
  proof (cases "k < length post")
    case True
    then have "uuid (post ! k) \<noteq> uuid x" using other_uuid [OF assms(1), of "post ! k"] by simp
    moreover have "js_nth (pre @ x # post) (int (Suc b)) = Some (post ! k)"
      unfolding js_nth_nat using True by (simp add: b nth_append)
    ultimately show ?thesis using True by (simp add: next_item_def Let_def b nth_append ac_simps)
  next
    case False
    then have "js_nth (pre @ x # post) (int (Suc b)) = None"
      unfolding js_nth_nat by (simp add: b)
    with False show ?thesis by (simp add: next_item_def Let_def b ac_simps)
  qed
qed

lemma find_and: "find (\<lambda>x. P x \<and> Q x) xs = find Q (filter P xs)"
  by (induction xs) auto

lemma searched_eq:
  assumes "distinct (map uuid (pre @ x # post))"
  shows "filter (\<lambda>y. uuid y \<noteq> uuid x) (take (if length pre < b then b + 1 else b) (pre @ x # post)) =
    take b (pre @ post)"
proof -
  have pre: "filter (\<lambda>y. uuid y \<noteq> uuid x) (take n pre) = take n pre" for n
    by (rule filter_True) (use other_uuid [OF assms] in \<open>auto dest: in_set_takeD\<close>)
  have post: "filter (\<lambda>y. uuid y \<noteq> uuid x) (take n post) = take n post" for n
    by (rule filter_True) (use other_uuid [OF assms] in \<open>auto dest: in_set_takeD\<close>)
  show ?thesis
  proof (cases "length pre < b")
    case True
    then obtain k where b: "b = Suc (length pre + k)" using less_iff_Suc_add by auto
    show ?thesis using True pre [of "length pre"] post by (simp add: b)
  next
    case False
    with pre show ?thesis by simp
  qed
qed

lemma projected_parent_fits:
  assumes d: "distinct (map uuid (pre @ x # post))" and b: "b < length (pre @ x # post)"
    and n: "nested (pre @ post)"
    and D: "0 < D" "D \<le> getMaxDepth (previous_item (pre @ x # post) (uuid x) (length pre) b)"
  shows "fits (take b (pre @ post)) D (projected_parent (pre @ x # post) (uuid x) (length pre) b D)"
proof -
  let ?P = "take b (pre @ post)"
  have nP: "nested ?P" by (rule nested_prefix [of _ "drop b (pre @ post)"]) (simp only: append_take_drop_id n)
  have ne: "?P \<noteq> []"
    using D unfolding previous_item_eq [OF d b] by (auto simp: getMaxDepth_def split: if_splits)
  then have prev: "previous_item (pre @ x # post) (uuid x) (length pre) b = Some (last ?P)"
    unfolding previous_item_eq [OF d b] by simp
  obtain ys where P: "?P = ys @ [last ?P]" using ne by (metis append_butlast_last_id)
  consider "D = depth (last ?P)" | "D > depth (last ?P)" | "D < depth (last ?P)" by linarith
  then show ?thesis
  proof cases
    case 1
    then have "projected_parent (pre @ x # post) (uuid x) (length pre) b D = parentId (last ?P)"
      using D(1) by (simp add: projected_parent_def prev)
    moreover have "fits ?P D (parentId (last ?P))"
      by (rule fits_at [OF nP P]) (use 1 D(1) in auto)
    ultimately show ?thesis by simp
  next
    case 2
    then have par: "projected_parent (pre @ x # post) (uuid x) (length pre) b D = Some (uuid (last ?P))"
      using D(1) by (simp add: projected_parent_def prev)
    from 2 D(2) have "editor_type (last ?P) = FolderType" "depth (last ?P) = D - 1"
      by (auto simp: prev getMaxDepth_def split: if_splits)
    with P show ?thesis unfolding par fits_def by (intro exI [of _ ys] exI [of _ "last ?P"] exI [of _ "[]"]) simp
  next
    case 3
    from last_at_depth [OF nP ne, of D] D(1) 3 obtain pre' y post' where
      y: "?P = pre' @ y # post'" "depth y = D" "\<forall>w \<in> set post'. D < depth w" by auto
    have "find (\<lambda>z. depth z = D) (rev ?P) = Some y"
      by (rule find_last [OF y(1)]) (use y in auto)
    then have "find (\<lambda>z. uuid z \<noteq> uuid x \<and> depth z = D)
        (rev (take (if length pre < b then b + 1 else b) (pre @ x # post))) = Some y"
      unfolding find_and rev_filter [symmetric] searched_eq [OF d] .
    then have "projected_parent (pre @ x # post) (uuid x) (length pre) b D = parentId y"
      using D(1) 3 by (simp add: projected_parent_def prev Let_def cong: if_cong)
    moreover have "fits ?P D (parentId y)" by (rule fits_at [OF nP y(1,2) D(1) y(3)])
    ultimately show ?thesis by simp
  qed
qed

section \<open>The lists the editor drags in are nested\<close>

definition under :: "flat_item list \<Rightarrow> string option \<Rightarrow> int \<Rightarrow> bool" where
  "under xs p k \<longleftrightarrow> p = None \<and> k = 0 \<or>
     (\<exists>pre y post. xs = pre @ y # post \<and> editor_type y = FolderType \<and> p = Some (uuid y) \<and>
        k = depth y + 1 \<and> 0 \<le> depth y \<and> (\<forall>w \<in> set post. depth y < depth w))"

lemma nested_add: "nested xs \<Longrightarrow> under xs (parentId z) (depth z) \<Longrightarrow> nested (xs @ [z])"
  by (auto simp: nested_snoc under_def child_of_last_def)

lemma under_append:
  assumes "under xs p k" and "\<forall>w \<in> set ys. k \<le> depth w"
  shows "under (xs @ ys) p k"
proof -
  from assms(1) consider "p = None" "k = 0" | pre y post where "xs = pre @ y # post" "editor_type y = FolderType"
      "p = Some (uuid y)" "k = depth y + 1" "0 \<le> depth y" "\<forall>w \<in> set post. depth y < depth w"
    unfolding under_def by blast
  then show ?thesis
  proof cases
    case 1
    then show ?thesis by (simp add: under_def)
  next
    case 2
    then have "xs @ ys = pre @ y # (post @ ys)" "\<forall>w \<in> set (post @ ys). depth y < depth w"
      using assms(2) by auto
    with 2 show ?thesis unfolding under_def by blast
  qed
qed

lemma nested_flatten: "nested xs \<Longrightarrow> under xs p k \<Longrightarrow> nested (xs @ flatten ts p k i)"
proof (induction ts p k i arbitrary: xs rule: flatten.induct)
  case (1 p k i)
  then show ?case by simp
next
  case (2 u n d cs items p k i)
  let ?f = "flat_of (Folder u n d (Some cs)) p k i"
  have f: "nested (xs @ [?f])" using "2.prems" by (intro nested_add) simp_all
  have k: "0 \<le> k" using "2.prems"(2) by (auto simp: under_def)
  have "under (xs @ [?f]) (Some u) (k + 1)"
    unfolding under_def using k
    by (intro disjI2 exI [of _ xs] exI [of _ ?f] exI [of _ "[]"]) simp
  from "2.IH"(1) [OF f this] have cs: "nested ((xs @ [?f]) @ flatten cs (Some u) (k + 1) 0)" .
  have "under (xs @ (?f # flatten cs (Some u) (k + 1) 0)) p k"
    using "2.prems"(2) depth_flatten [of _ cs "Some u" "k + 1" 0] by (intro under_append) fastforce+
  with "2.IH"(2) [OF cs] show ?case by simp
next
  case (3 u n d items p k i)
  let ?f = "flat_of (Folder u n d None) p k i"
  have "nested (xs @ [?f])" using "3.prems" by (intro nested_add) simp_all
  moreover have "under (xs @ [?f]) p k" using "3.prems"(2) by (intro under_append) simp_all
  ultimately show ?case using "3.IH" by fastforce
next
  case (4 ty u n items p k i)
  let ?f = "flat_of (Leaf ty u n) p k i"
  have "nested (xs @ [?f])" using "4.prems" by (intro nested_add) simp_all
  moreover have "under (xs @ [?f]) p k" using "4.prems"(2) by (intro under_append) simp_all
  ultimately show ?case using "4.IH" by fastforce
qed

lemma nested_flattenTree: "nested (flattenTree ts)"
  using nested_flatten [of "[]" None 0 ts 0] by (simp add: flattenTree_def under_def)

text \<open>Hiding items along with all that is below them keeps a list nested.\<close>

lemma nested_filter:
  assumes "nested xs" and "\<forall>x \<in> set xs. \<forall>y \<in> set xs. parentId x = Some (uuid y) \<longrightarrow> P x \<longrightarrow> P y"
  shows "nested (filter P xs)"
  using assms
proof (induction xs rule: rev_induct)
  case Nil
  then show ?case by simp
next
  case (snoc z xs)
  from snoc.prems have n: "nested xs" "parentId z = None \<and> depth z = 0 \<or> child_of_last xs z"
    by (simp_all add: nested_snoc)
  have IH: "nested (filter P xs)" using snoc.IH n(1) snoc.prems(2) by simp
  have "child_of_last (filter P xs) z" if c: "child_of_last xs z" and z: "P z"
  proof -
    from c obtain pre y post where y: "xs = pre @ y # post" "editor_type y = FolderType"
        "parentId z = Some (uuid y)" "depth z = depth y + 1" "0 \<le> depth y" "\<forall>w \<in> set post. depth y < depth w"
      unfolding child_of_last_def by blast
    then have "P y" using snoc.prems(2) z by auto
    then have "filter P xs = filter P pre @ y # filter P post" using y(1) by simp
    with y show ?thesis unfolding child_of_last_def by fastforce
  qed
  with n(2) IH show ?case by (auto simp: nested_snoc)
qed

lemma find_index_of:
  "distinct (map f xs) \<Longrightarrow> i < length xs \<Longrightarrow> find_index (\<lambda>x. f x = f (xs ! i)) xs = Some i"
proof (induction xs arbitrary: i)
  case Nil
  then show ?case by simp
next
  case (Cons x xs)
  then show ?case by (cases i) (auto simp: image_iff)
qed

lemma index_map_get:
  assumes "distinct (map uuid items)" and "i < length items"
  shows "obj_get (index_map items) (uuid (items ! i)) = Some i"
proof -
  let ?ps = "zip items [0..<length items]"
  have "index_map items = foldl (\<lambda>m q. obj_set (uuid (fst q)) (snd q) m) [] ?ps"
    unfolding index_map_def by (rule foldl_cong) auto
  moreover have "distinct (map (\<lambda>q. uuid (fst q)) ?ps)"
    using assms(1) by (simp add: comp_def flip: map_map [of uuid fst, unfolded comp_def])
  moreover have "(items ! i, i) \<in> set ?ps" using assms(2) by (force simp: set_zip)
  ultimately show ?thesis
    using od.get_foldl_put_map [of "\<lambda>q. uuid (fst q)" ?ps "(items ! i, i)" snd "[]"] by simp
qed

lemma neighbours_in_set:
  "\<forall>y. previous_item items active a b = Some y \<longrightarrow> y \<in> set items"
  "\<forall>y. next_item items active a b = Some y \<longrightarrow> y \<in> set items"
  by (auto simp: previous_item_def next_item_def Let_def split: option.splits if_splits dest: js_nth_in_set)

lemma index_in_get:
  assumes "distinct (map uuid items)" and "m = None \<or> m = Some (index_map items)" and "index_in m items u = Some i"
  shows "i < length items \<and> uuid (items ! i) = u"
proof (cases m)
  case None
  with assms(3) find_index_Some [of "\<lambda>x. uuid x = u" items i] show ?thesis by (simp add: index_in_def)
next
  case (Some m')
  with assms have u: "obj_get (index_map items) u = Some i" by (auto simp: index_in_def)
  have "u \<in> uuid ` set items"
  proof (rule ccontr)
    assume no: "u \<notin> uuid ` set items"
    have "index_map items = foldl (\<lambda>m q. obj_set (uuid (fst q)) (snd q) m) [] (zip items [0..<length items])"
      unfolding index_map_def by (rule foldl_cong) auto
    moreover have "u \<notin> (\<lambda>q. uuid (fst q)) ` set (zip items [0..<length items])"
      using no by (auto dest: set_zip_leftD)
    ultimately have "obj_get (index_map items) u = None" by (simp add: od.get_foldl_put_notin)
    with u show False by simp
  qed
  then obtain j where "j < length items" "uuid (items ! j) = u" by (metis imageE in_set_conv_nth)
  with index_map_get [OF assms(1), of j] u show ?thesis by simp
qed

text \<open>Where an item would go when it is dragged in a list of the tree, with hidden what is below
  the dragged item and below hidden items: the depth is between the least and the greatest allowed one
  whenever there is one, it is never negative, and an item below the top level has as its parent the folder one
  level above it that it stands in: after that folder and only items at least as deep.\<close>

lemma projection_fits_the_list:
  assumes "forest_ok ts" and "items = filter (\<lambda>x. uuid x \<notin> hidden) (flattenTree ts)"
    and "\<forall>x \<in> set (flattenTree ts). \<forall>y. parentId x = Some y \<longrightarrow> y = active \<or> y \<in> hidden \<longrightarrow> uuid x \<in> hidden"
    and "getProjection items active over offset w m = Some q" and "m = None \<or> m = Some (index_map items)"
  shows "0 \<le> at_depth q \<and>
    (minDepth q \<le> maxDepth q \<longrightarrow> minDepth q \<le> at_depth q \<and> at_depth q \<le> maxDepth q) \<and>
    (0 < at_depth q \<and> at_depth q \<le> maxDepth q \<longrightarrow>
      (\<exists>b. index_in m items over = Some b \<and>
        fits (take b (filter (\<lambda>x. uuid x \<noteq> active) items)) (at_depth q) (target q)))"
proof -
  have d: "distinct (map uuid items)"
    using flattenTree_linked [OF assms(1)] by (simp add: assms(2) linked_def distinct_map_filter)
  have n: "nested items"
    unfolding assms(2) by (rule nested_filter [OF nested_flattenTree]) (use assms(3) in blast)
  have n': "nested (filter (\<lambda>x. uuid x \<noteq> active) items)"
    by (rule nested_filter [OF n]) (use assms(2,3) in auto)
  from assms(4) obtain a b where ab: "index_in m items active = Some a" "index_in m items over = Some b"
    by (auto simp: getProjection_def split: option.splits)
  from index_in_get [OF d assms(5) ab(1)] index_in_get [OF d assms(5) ab(2)]
  have a: "a < length items" "uuid (items ! a) = active" and b: "b < length items" by auto
  define pre x post where "pre = take a items" and "x = items ! a" and "post = drop (Suc a) items"
  have items: "items = pre @ x # post" and len: "a = length pre" and act: "active = uuid x"
    using a by (auto simp: pre_def x_def post_def id_take_nth_drop)
  have d': "distinct (map uuid (pre @ x # post))" using d items by simp
  have rest: "filter (\<lambda>y. uuid y \<noteq> active) items = pre @ post"
  proof -
    have "\<forall>y \<in> set pre \<union> set post. uuid y \<noteq> uuid x" using other_uuid [OF d'] by blast
    then show ?thesis unfolding items act by (simp add: filter_id_conv)
  qed
  let ?prev = "previous_item items active a b" and ?next = "next_item items active a b"
  let ?mx = "getMaxDepth ?prev" and ?mn = "getMinDepth ?next x"
  have q: "maxDepth q = ?mx" "minDepth q = ?mn"
      "target q = projected_parent items active a b (at_depth q)"
      "at_depth q = ?mx \<or> at_depth q = ?mn \<or> ?mn \<le> at_depth q"
      "?mn \<le> ?mx \<longrightarrow> ?mn \<le> at_depth q \<and> at_depth q \<le> ?mx"
    using assms(4) a(1) unfolding getProjection_def ab
    by (auto simp: js_nth_nat Let_def x_def split: if_splits)
  have "0 \<le> ?mx" using nested_depth [OF n] neighbours_in_set(1) by (fastforce simp: getMaxDepth_def MAX_DEPTH_def split: option.split)
  have "0 \<le> ?mn" using nested_depth [OF n] neighbours_in_set(2) by (fastforce simp: getMinDepth_def split: option.split)
  with \<open>0 \<le> ?mx\<close> q(4) have "0 \<le> at_depth q" by auto
  moreover have "fits (take b (filter (\<lambda>y. uuid y \<noteq> active) items)) (at_depth q) (target q)"
    if "0 < at_depth q" "at_depth q \<le> maxDepth q"
    unfolding rest q(3) unfolding items act len
    by (rule projected_parent_fits [OF d']) (use that b n' rest q(1) items act len in auto)
  ultimately show ?thesis using q(1,2,5) ab(2) by auto
qed

end
