(* ===== verification/FolderEditor.thy ===== *)
theory FolderEditor
  imports FolderClaims FolderDefaults FolderProjection
begin

text \<open>
  The folders editor (\<open>FoldersEditor/index.tsx\<close>): the state of the component and its handlers.
  A step gives the next state, the folders handed to \<open>onChange\<close> and the toast, if any. The metrics and columns of the
  dataset are properties that the parent may change. The sets of identifiers are lists without
  repetition in insertion order. What is rendered, and the timing of the debounced search, are not modelled:
  the search takes the state that its closure saw as an argument of its own.
\<close>

section \<open>The state\<close>

record editor =
  ds_metrics :: "dataset_item list"
  ds_columns :: "dataset_item list"
  folder_items :: "tree_item list"
  selectedItemIds :: "string list"
  lastSelectedItemId :: "string option"
  searchTerm :: string
  collapsedIds :: "string list"
  editingFolderId :: "string option"
  preSearchCollapsedIds :: "string list option"
  showResetConfirm :: bool
  dragging :: drag

definition dataset_ids :: "editor \<Rightarrow> string list" where
  "dataset_ids s = map own_uuid (ds_metrics s @ ds_columns s)"

definition fullFlattenedItems :: "editor \<Rightarrow> flat_item list" where
  "fullFlattenedItems s = flattenTree (folder_items s)"

section \<open>Searching\<close>

definition folderMatches :: "string \<Rightarrow> tree_item \<Rightarrow> bool" where
  "folderMatches lowerSearch folder = (is_folder folder \<and> mentions (name_of folder) lowerSearch)"

fun folderContainsMatches :: "string \<Rightarrow> string list \<Rightarrow> tree_item \<Rightarrow> bool" where
  "folderContainsMatches lowerSearch matching (Folder u n d cs) =
     (folderMatches lowerSearch (Folder u n d cs) \<or>
      (case cs of
         None \<Rightarrow> False
       | Some ks \<Rightarrow> list_ex (\<lambda>c. if is_folder c then folderContainsMatches lowerSearch matching c
                                else uuid_of c \<in> set matching) ks))"
| "folderContainsMatches lowerSearch matching (Leaf t u n) = False"

fun getAllItemsInFolder :: "tree_item \<Rightarrow> string list" where
  "getAllItemsInFolder (Folder u n d (Some cs)) =
     concat (map (\<lambda>c. if is_folder c then getAllItemsInFolder c else [uuid_of c]) cs)"
| "getAllItemsInFolder t = []"

fun expandAllSubfolders :: "tree_item \<Rightarrow> string list" where
  "expandAllSubfolders (Folder u n d (Some cs)) =
     concat (map (\<lambda>c. if is_folder c then uuid_of c # expandAllSubfolders c else []) cs)"
| "expandAllSubfolders t = []"

fun expandMatchingSubfolders :: "string \<Rightarrow> string list \<Rightarrow> tree_item \<Rightarrow> string list" where
  "expandMatchingSubfolders lowerSearch matching (Folder u n d (Some cs)) =
     concat (map (\<lambda>c. if is_folder c \<and> folderContainsMatches lowerSearch matching c
                      then uuid_of c # expandMatchingSubfolders lowerSearch matching c else []) cs)"
| "expandMatchingSubfolders lowerSearch matching t = []"

record search_view =
  visibleItemIds :: "string list"
  searchExpandedFolderIds :: "string list"
  foldersWithMatches :: "string list"

definition search_folders :: "string \<Rightarrow> string list \<Rightarrow> tree_item \<Rightarrow> string list" where
  "search_folders lowerSearch matching folder =
     (if folderMatches lowerSearch folder then uuid_of folder # expandAllSubfolders folder
      else if folderContainsMatches lowerSearch matching folder
      then uuid_of folder # expandMatchingSubfolders lowerSearch matching folder
      else [])"

definition searched :: "editor \<Rightarrow> search_view" where
  "searched s =
     (if searchTerm s = [] then
        \<lparr>visibleItemIds = js_uniq (dataset_ids s), searchExpandedFolderIds = [], foldersWithMatches = []\<rparr>
      else
        (let matching = filterItemsBySearch (searchTerm s) (ds_metrics s @ ds_columns s);
             lowerSearch = toLowerCase (searchTerm s);
             found = js_uniq (concat (map (search_folders lowerSearch matching) (folder_items s)))
         in \<lparr>visibleItemIds = js_uniq (matching @ concat (map getAllItemsInFolder
                                       (filter (folderMatches lowerSearch) (folder_items s)))),
             searchExpandedFolderIds = found, foldersWithMatches = found\<rparr>))"

section \<open>What is shown\<close>

definition has_children :: "flat_item \<Rightarrow> bool" where
  "has_children x = (case item_children x of None \<Rightarrow> False | Some ks \<Rightarrow> ks \<noteq> [])"

definition collapsedFolderIds :: "editor \<Rightarrow> string list" where
  "collapsedFolderIds s =
     map uuid (filter (\<lambda>x. editor_type x = FolderType \<and> has_children x \<and>
                           (if searchTerm s \<noteq> [] then uuid x \<notin> set (searchExpandedFolderIds (searched s))
                            else uuid x \<in> set (collapsedIds s)))
                (fullFlattenedItems s))"

definition itemsToProcess :: "editor \<Rightarrow> flat_item list" where
  "itemsToProcess s =
     (if searchTerm s = [] then fullFlattenedItems s
      else filter (\<lambda>x. if editor_type x = FolderType then uuid x \<in> set (foldersWithMatches (searched s))
                       else uuid x \<in> set (visibleItemIds (searched s)))
             (fullFlattenedItems s))"

definition computeFlattenedItems :: "editor \<Rightarrow> string option \<Rightarrow> flat_item list" where
  "computeFlattenedItems s active =
     removeChildrenOf (itemsToProcess s)
       (case active of None \<Rightarrow> collapsedFolderIds s | Some a \<Rightarrow> a # collapsedFolderIds s)"

definition shown_items :: "editor \<Rightarrow> flat_item list" where
  "shown_items s = flattenedItems (computeFlattenedItems s) (dragging s)"

text \<open>\<open>childrenByParent\<close> keeps the children in order, of which the last is taken.\<close>

definition childrenByParent :: "flat_item list \<Rightarrow> (string option, string list) obj" where
  "childrenByParent items =
     foldl (\<lambda>m x. obj_set (parentId x) ((case obj_get m (parentId x) of None \<Rightarrow> [] | Some us \<Rightarrow> us) @ [uuid x]) m)
       [] items"

definition lastChildIds :: "flat_item list \<Rightarrow> string list" where
  "lastChildIds items = js_uniq (map last (filter (\<lambda>us. us \<noteq> []) (obj_values (childrenByParent items))))"

datatype separator = Visible | Transparent

definition separator_after :: "flat_item list \<Rightarrow> nat \<Rightarrow> separator option" where
  "separator_after items i =
     (let x = items ! i
      in if editor_type x = FolderType \<or> uuid x \<notin> set (lastChildIds items) then None
         else case js_nth items (int i + 1) of
                None \<Rightarrow> None
              | Some y \<Rightarrow>
                  if editor_type y = FolderType \<and> depth y = 0 then Some Visible
                  else if depth x > 1 \<and> depth y < depth x \<and> editor_type y \<noteq> FolderType then Some Transparent
                  else None)"

definition itemSeparatorInfo :: "flat_item list \<Rightarrow> (string, separator) obj" where
  "itemSeparatorInfo items =
     foldl (\<lambda>m i. case separator_after items i of None \<Rightarrow> m | Some k \<Rightarrow> obj_set (uuid (items ! i)) k m)
       [] [0..<length items]"

definition sortableItemIds :: "editor \<Rightarrow> string list" where
  "sortableItemIds s =
     map uuid (filter (\<lambda>x. uuid x \<notin> set (draggedFolderChildIds (dragging s))) (shown_items s))"

definition selectedMetricsCount :: "editor \<Rightarrow> nat" where
  "selectedMetricsCount s =
     length (filter (\<lambda>i. i \<in> own_uuid ` set (ds_metrics s)) (selectedItemIds s))"

definition folderChildCounts :: "flat_item list \<Rightarrow> (string, nat) obj" where
  "folderChildCounts items =
     foldl (\<lambda>m x. case parent_of x of
                    None \<Rightarrow> m
                  | Some p \<Rightarrow> (case obj_get m p of None \<Rightarrow> m | Some n \<Rightarrow> obj_set p (n + 1) m))
       (foldl (\<lambda>m x. if editor_type x = FolderType then obj_set (uuid x) 0 m else m) [] items) items"

text \<open>Which of the places under the pointer counts (\<open>sensors.ts\<close>); the three lists are the answers of dnd-kit's
  algorithms.\<close>

definition getCollisionDetection ::
    "string option \<Rightarrow> string list \<Rightarrow> string list \<Rightarrow> string list \<Rightarrow> string list" where
  "getCollisionDetection active rectIntersection pointerWithin closestCenter =
     (case present active of
        None \<Rightarrow> rectIntersection
      | Some a \<Rightarrow>
          (case rectIntersection of
             [] \<Rightarrow> []
           | c # cs \<Rightarrow>
               if c \<noteq> a then c # cs
               else case find (\<lambda>i. i \<noteq> a) pointerWithin of
                      Some i \<Rightarrow> i # c # cs
                    | None \<Rightarrow>
                        if pointerWithin \<noteq> [] then c # cs
                        else case find (\<lambda>i. i \<noteq> a) closestCenter of
                               Some i \<Rightarrow> i # c # cs
                             | None \<Rightarrow> c # cs))"

section \<open>The handlers\<close>

text \<open>What \<open>useState\<close> starts with.\<close>

definition init_editor ::
    "(string \<Rightarrow> string list \<Rightarrow> string) \<Rightarrow> tree_item list \<Rightarrow> dataset_item list \<Rightarrow> dataset_item list \<Rightarrow> editor" where
  "init_editor t initialFolders metrics columns =
     \<lparr>ds_metrics = metrics, ds_columns = columns, folder_items = ensureDefaultFolders t initialFolders metrics columns,
      selectedItemIds = [], lastSelectedItemId = None, searchTerm = [], collapsedIds = [], editingFolderId = None,
      preSearchCollapsedIds = None, showResetConfirm = False, dragging = no_drag\<rparr>"

text \<open>The effect that runs when the component appears and whenever the metrics or columns change.\<close>

definition syncFolders :: "editor \<Rightarrow> editor" where
  "syncFolders s =
     s\<lparr>folder_items :=
         filterFoldersByValidUuids (folder_items s) (set (filter (\<lambda>u. u \<noteq> []) (dataset_ids s)))\<rparr>"

text \<open>\<open>seen\<close> is the state that the closure of the debounced function saw.\<close>

definition debouncedSearch :: "editor \<Rightarrow> string \<Rightarrow> editor \<Rightarrow> editor" where
  "debouncedSearch seen wanted s =
     (let s1 = (if searchTerm seen = [] \<and> wanted \<noteq> []
                then s\<lparr>preSearchCollapsedIds := Some (collapsedIds seen)\<rparr> else s);
          s2 = (case preSearchCollapsedIds seen of
                  Some saved \<Rightarrow> if searchTerm seen \<noteq> [] \<and> wanted = []
                              then s1\<lparr>collapsedIds := saved, preSearchCollapsedIds := None\<rparr> else s1
                | None \<Rightarrow> s1)
      in s2\<lparr>searchTerm := wanted\<rparr>)"

record effects =
  stored :: "tree_item list option"
  toast :: "string option"

definition silent :: effects where
  "silent = \<lparr>stored = None, toast = None\<rparr>"

definition handleAddFolder :: "string \<Rightarrow> editor \<Rightarrow> editor \<times> effects" where
  "handleAddFolder fresh s =
     (let updatedItems = createFolder fresh [] # folder_items s
      in (s\<lparr>folder_items := updatedItems, editingFolderId := Some fresh\<rparr>,
          silent\<lparr>stored := Some (serializeForAPI updatedItems)\<rparr>))"

definition selectable :: "editor \<Rightarrow> string \<Rightarrow> bool" where
  "selectable s i =
     (case obj_get (items_by_uuid (fullFlattenedItems s)) i of
        None \<Rightarrow> False
      | Some x \<Rightarrow> editor_type x \<noteq> FolderType)"

definition allVisibleSelected :: "editor \<Rightarrow> bool" where
  "allVisibleSelected s =
     (let selectableItems = filter (selectable s) (visibleItemIds (searched s))
      in selectableItems \<noteq> [] \<and> list_all (\<lambda>i. i \<in> set (selectedItemIds s)) selectableItems)"

definition parentMap :: "flat_item list \<Rightarrow> (string, string option) obj" where
  "parentMap full = foldl (\<lambda>m x. obj_set (uuid x) (parentId x) m) [] full"

text \<open>The \<open>while\<close> loop over the ancestors ends unless an item is its own ancestor; each turn goes to another
  item, so the number of items bounds them.\<close>

fun ancestors_from :: "nat \<Rightarrow> (string, string option) obj \<Rightarrow> string option \<Rightarrow> string list result" where
  "ancestors_from 0 m i = Inl StackOverflow"
| "ancestors_from (Suc k) m i =
     (case i of
        None \<Rightarrow> Inr []
      | Some p \<Rightarrow>
          if p = [] then Inr []
          else rbind (ancestors_from k m (case obj_get m p of None \<Rightarrow> None | Some q \<Rightarrow> q)) (\<lambda>ps. Inr (p # ps)))"

definition foldersToExpand :: "flat_item list \<Rightarrow> string list \<Rightarrow> string list result" where
  "foldersToExpand full selected =
     rbind (rmap (\<lambda>i. ancestors_from (Suc (length full)) (parentMap full)
                        (case obj_get (parentMap full) i of None \<Rightarrow> None | Some q \<Rightarrow> q)) selected)
       (\<lambda>pss. Inr (js_uniq (concat pss)))"

definition handleSelectAll :: "editor \<Rightarrow> editor result" where
  "handleSelectAll s =
     (let itemsToSelect = filter (selectable s) (visibleItemIds (searched s))
      in if allVisibleSelected s then Inr (s\<lparr>selectedItemIds := []\<rparr>)
         else rbind (foldersToExpand (fullFlattenedItems s) itemsToSelect) (\<lambda>expand.
           Inr (s\<lparr>selectedItemIds := itemsToSelect,
                  collapsedIds := filter (\<lambda>i. i \<notin> set expand) (collapsedIds s)\<rparr>)))"

definition handleConfirmReset :: "(string \<Rightarrow> string list \<Rightarrow> string) \<Rightarrow> editor \<Rightarrow> editor \<times> effects" where
  "handleConfirmReset t s =
     (let resetFolders = resetToDefault t (ds_metrics s) (ds_columns s)
      in (s\<lparr>folder_items := resetFolders, selectedItemIds := [], editingFolderId := None, showResetConfirm := False\<rparr>,
          silent\<lparr>stored := Some (serializeForAPI resetFolders)\<rparr>))"

definition handleToggleCollapse :: "string \<Rightarrow> editor \<Rightarrow> editor" where
  "handleToggleCollapse folderId s =
     s\<lparr>collapsedIds := (if folderId \<in> set (collapsedIds s) then filter (\<lambda>i. i \<noteq> folderId) (collapsedIds s)
                        else collapsedIds s @ [folderId])\<rparr>"

text \<open>With the shift key the items between the last selected one and this one are added.\<close>

definition range_between :: "flat_item list \<Rightarrow> string \<Rightarrow> string \<Rightarrow> string list" where
  "range_between items a b =
     (case (find_index (\<lambda>x. uuid x = a) items, find_index (\<lambda>x. uuid x = b) items) of
        (Some i, Some j) \<Rightarrow> map uuid (take (Suc (max i j) - min i j) (drop (min i j) items))
      | _ \<Rightarrow> [])"

definition handleSelect :: "string \<Rightarrow> bool \<Rightarrow> bool \<Rightarrow> editor \<Rightarrow> editor" where
  "handleSelect itemId sel shiftKey s =
     (let selectableItems = filter (\<lambda>x. editor_type x \<noteq> FolderType \<and> uuid x \<in> set (visibleItemIds (searched s)))
                              (shown_items s)
      in s\<lparr>lastSelectedItemId := (if sel then Some itemId else lastSelectedItemId s),
           selectedItemIds :=
             (case (if shiftKey \<and> sel then present (lastSelectedItemId s) else None) of
                Some l \<Rightarrow> foldl (\<lambda>ids i. add_id i ids) (selectedItemIds s) (range_between selectableItems itemId l)
              | None \<Rightarrow> if sel then add_id itemId (selectedItemIds s)
                        else filter (\<lambda>i. i \<noteq> itemId) (selectedItemIds s))\<rparr>)"

definition rename_item :: "string \<Rightarrow> string \<Rightarrow> flat_item \<Rightarrow> flat_item" where
  "rename_item folderId newName x = (if uuid x = folderId then x\<lparr>item_name := Some newName\<rparr> else x)"

definition handleFinishEdit :: "string \<Rightarrow> string \<Rightarrow> editor \<Rightarrow> (editor \<times> effects) result" where
  "handleFinishEdit folderId newName s =
     (if trim newName \<noteq> [] \<and> newName \<noteq> folderId
      then rbind (buildTree (map (rename_item folderId newName) (flattenTree (folder_items s)))) (\<lambda>newTree.
        Inr (s\<lparr>folder_items := newTree, editingFolderId := None\<rparr>,
             silent\<lparr>stored := Some (serializeForAPI newTree)\<rparr>))
      else Inr (s\<lparr>editingFolderId := None\<rparr>, silent))"

section \<open>A step of the editor\<close>

datatype folders_action =
    DatasetChanged "dataset_item list" "dataset_item list"
  | SearchFor editor string
  | AddFolder string
  | SelectAll
  | AskReset
  | ConfirmReset
  | CancelReset
  | ToggleCollapse string
  | Select string bool bool
  | StartEdit string
  | FinishEdit string string
  | DragStart string
  | DragMove int
  | DragOver "string option"
  | DragEnd string "string option"
  | DragCancel

definition drag_step :: "(drag \<Rightarrow> drag) \<Rightarrow> editor \<Rightarrow> (editor \<times> effects) result" where
  "drag_step f s = Inr (s\<lparr>dragging := f (dragging s)\<rparr>, silent)"

definition drop_step :: "string \<Rightarrow> string option \<Rightarrow> editor \<Rightarrow> (editor \<times> effects) result" where
  "drop_step active over s =
     rbind (handleDragEnd (computeFlattenedItems s) (fullFlattenedItems s) active over (dragging s)) (\<lambda>(d, out).
       Inr (case out of
              NothingDropped \<Rightarrow> (s\<lparr>dragging := d\<rparr>, silent)
            | Warned w \<Rightarrow> (s\<lparr>dragging := d\<rparr>, silent\<lparr>toast := Some w\<rparr>)
            | Dropped newTree api \<Rightarrow> (s\<lparr>dragging := d, folder_items := newTree\<rparr>, silent\<lparr>stored := Some api\<rparr>)))"

fun folders_step ::
    "(string \<Rightarrow> string list \<Rightarrow> string) \<Rightarrow> folders_action \<Rightarrow> editor \<Rightarrow> (editor \<times> effects) result" where
  "folders_step t (DatasetChanged ms cs) s = Inr (syncFolders (s\<lparr>ds_metrics := ms, ds_columns := cs\<rparr>), silent)"
| "folders_step t (SearchFor seen wanted) s = Inr (debouncedSearch seen wanted s, silent)"
| "folders_step t (AddFolder fresh) s = Inr (handleAddFolder fresh s)"
| "folders_step t SelectAll s = rbind (handleSelectAll s) (\<lambda>s'. Inr (s', silent))"
| "folders_step t AskReset s = Inr (s\<lparr>showResetConfirm := True\<rparr>, silent)"
| "folders_step t ConfirmReset s = Inr (handleConfirmReset t s)"
| "folders_step t CancelReset s = Inr (s\<lparr>showResetConfirm := False\<rparr>, silent)"
| "folders_step t (ToggleCollapse i) s = Inr (handleToggleCollapse i s, silent)"
| "folders_step t (Select i sel shift) s = Inr (handleSelect i sel shift s, silent)"
| "folders_step t (StartEdit i) s = Inr (s\<lparr>editingFolderId := Some i\<rparr>, silent)"
| "folders_step t (FinishEdit i n) s = handleFinishEdit i n s"
| "folders_step t (DragStart i) s = drag_step (handleDragStart (computeFlattenedItems s) (selectedItemIds s) i) s"
| "folders_step t (DragMove x) s = drag_step (handleDragMove (computeFlattenedItems s) x) s"
| "folders_step t (DragOver i) s = drag_step (handleDragOver (computeFlattenedItems s) i) s"
| "folders_step t (DragEnd i over) s = drop_step i over s"
| "folders_step t DragCancel s = drag_step handleDragCancel s"

end
