(* ===== verification/FolderView.thy ===== *)
theory FolderView
  imports FolderEditor
begin

text \<open>
  What the folders editor shows: below collapsed folders nothing, everything else; where a dragged item can go in
  that list; and what selecting all does.
\<close>

section \<open>What is above an item\<close>

lemma above_child:
  assumes "distinct (map uuid xs)" and "z \<in> set xs" and "parent_of z = Some p"
  shows "(uuid z, a) \<in> (child_rel xs)\<^sup>+ \<longleftrightarrow> a = p \<or> (p, a) \<in> (child_rel xs)\<^sup>+"
proof -
  have zp: "(uuid z, p) \<in> child_rel xs" using assms(2,3) by (auto simp: child_rel_def)
  have only: "q = p" if "(uuid z, q) \<in> child_rel xs" for q
    using child_rel_single [OF assms(1)] zp that by (auto dest: single_valuedD)
  show ?thesis
  proof
    assume "(uuid z, a) \<in> (child_rel xs)\<^sup>+"
    then obtain q where "(uuid z, q) \<in> child_rel xs" "q = a \<or> (q, a) \<in> (child_rel xs)\<^sup>+"
      by (metis tranclD rtranclD)
    with only show "a = p \<or> (p, a) \<in> (child_rel xs)\<^sup>+" by blast
  next
    assume "a = p \<or> (p, a) \<in> (child_rel xs)\<^sup>+"
    with zp show "(uuid z, a) \<in> (child_rel xs)\<^sup>+" by (metis r_into_trancl trancl_into_trancl2)
  qed
qed

lemma above_root:
  assumes "distinct (map uuid xs)" and "z \<in> set xs" and "parent_of z = None"
  shows "(uuid z, a) \<notin> (child_rel xs)\<^sup>+"
proof
  assume "(uuid z, a) \<in> (child_rel xs)\<^sup>+"
  then obtain q where "(uuid z, q) \<in> child_rel xs" by (metis tranclD)
  then obtain x where "x \<in> set xs" "uuid x = uuid z" "parent_of x = Some q" by (auto simp: child_rel_def)
  moreover have "x = z" using assms(1,2) calculation(1,2) by (auto simp: distinct_map dest: inj_onD)
  ultimately show False using assms(3) by simp
qed

section \<open>Removing what is below some items\<close>

lemma nested_parent:
  assumes "nested (pre @ z # post)"
  shows "parentId z = None \<or> (\<exists>y \<in> set pre. editor_type y = FolderType \<and> parentId z = Some (uuid y))"
  using assms unfolding nested_def child_of_last_def by fastforce

text \<open>A list of items that are shown in a tree: parents come first, and have their children listed.\<close>

definition listed :: "flat_item list \<Rightarrow> bool" where
  "listed xs \<longleftrightarrow> nested xs \<and> distinct (map uuid xs) \<and> [] \<notin> uuid ` set xs \<and>
     (\<forall>x \<in> set xs. \<forall>y \<in> set xs. parentId x = Some (uuid y) \<longrightarrow> has_children y)"

definition free_of :: "flat_item list \<Rightarrow> string set \<Rightarrow> flat_item \<Rightarrow> bool" where
  "free_of xs C x \<longleftrightarrow> (\<forall>a. (uuid x, a) \<in> (child_rel xs)\<^sup>+ \<longrightarrow> a \<notin> C)"

lemma remove_step_eq:
  "remove_step (ex, kept) z =
    (case parent_of z of
       None \<Rightarrow> (ex, kept @ [z])
     | Some p \<Rightarrow> if p \<in> set ex then (if has_children z then ex @ [uuid z] else ex, kept) else (ex, kept @ [z]))"
  by (auto simp: remove_step_def has_children_def split: option.splits)

lemma collect_snoc:
  "{f x | x. x \<in> set (pre @ [z]) \<and> P x} = {f x | x. x \<in> set pre \<and> P x} \<union> (if P z then {f z} else {})"
  by auto

lemma remove_steps:
  assumes "listed xs" and "xs = pre @ post"
  shows "\<exists>ex. foldl remove_step (gone, []) pre = (ex, filter (free_of xs (set gone)) pre) \<and>
    set ex = set gone \<union> {uuid x | x. x \<in> set pre \<and> \<not> free_of xs (set gone) x \<and> has_children x}"
  using assms(2)
proof (induction pre arbitrary: post rule: rev_induct)
  case Nil
  then show ?case by simp
next
  case (snoc z pre)
  note l = assms(1) [unfolded listed_def]
  from snoc.prems have xs: "xs = pre @ z # post" by simp
  from snoc.IH [OF xs] obtain ex where
    ex: "foldl remove_step (gone, []) pre = (ex, filter (free_of xs (set gone)) pre)"
      "set ex = set gone \<union> {uuid x | x. x \<in> set pre \<and> \<not> free_of xs (set gone) x \<and> has_children x}" by blast
  have z: "z \<in> set xs" using xs by simp
  have inj: "inj_on uuid (set xs)" using l by (simp add: distinct_map)
  note collect = collect_snoc [of uuid pre z "\<lambda>x. \<not> free_of xs (set gone) x \<and> has_children x"]
  have go: "foldl remove_step (gone, []) (pre @ [z]) = remove_step (ex, filter (free_of xs (set gone)) pre) z"
    by (simp add: ex(1))
  from nested_parent [of pre z post] l xs
  consider "parentId z = None" | y where "y \<in> set pre" "parentId z = Some (uuid y)" by auto
  then show ?case
  proof cases
    case 1
    then have p: "parent_of z = None" by (simp add: parent_of_def)
    with above_root [of xs z] l z have "free_of xs (set gone) z" by (auto simp: free_of_def)
    with p show ?thesis unfolding go collect by (simp add: remove_step_eq ex(2))
  next
    case 2
    from 2(1) xs have y: "y \<in> set xs" by simp
    with l 2(2) have p: "parent_of z = Some (uuid y)" by (auto simp: parent_of_def image_iff)
    from l y z 2(2) have hy: "has_children y" by blast
    have same: "x = y" if "x \<in> set pre" "uuid x = uuid y" for x
      by (rule inj_onD [OF inj that(2)]) (use that(1) xs y in simp_all)
    have zf: "free_of xs (set gone) z \<longleftrightarrow> uuid y \<notin> set gone \<and> free_of xs (set gone) y"
      using above_child [OF _ z p] l by (auto simp: free_of_def)
    have "uuid y \<in> {uuid x | x. x \<in> set pre \<and> \<not> free_of xs (set gone) x \<and> has_children x} \<longleftrightarrow>
        \<not> free_of xs (set gone) y" (is "_ \<in> ?H \<longleftrightarrow> _")
    proof
      assume "uuid y \<in> ?H"
      then obtain x where "x \<in> set pre" "uuid x = uuid y" "\<not> free_of xs (set gone) x" by auto
      with same [of x] show "\<not> free_of xs (set gone) y" by simp
    next
      assume "\<not> free_of xs (set gone) y"
      with 2(1) hy show "uuid y \<in> ?H" by blast
    qed
    then have "uuid y \<in> set ex \<longleftrightarrow> uuid y \<in> set gone \<or> \<not> free_of xs (set gone) y"
      unfolding ex(2) by simp
    with zf have "uuid y \<in> set ex \<longleftrightarrow> \<not> free_of xs (set gone) z" by simp
    with p have step: "remove_step (ex, filter (free_of xs (set gone)) pre) z =
        (if free_of xs (set gone) z then (ex, filter (free_of xs (set gone)) pre @ [z])
         else (if has_children z then ex @ [uuid z] else ex, filter (free_of xs (set gone)) pre))"
      by (simp add: remove_step_eq)
    show ?thesis unfolding go step collect by (simp add: ex(2) Un_commute)
  qed
qed

lemma removeChildrenOf_listed:
  assumes "listed xs"
  shows "removeChildrenOf xs gone = filter (free_of xs (set gone)) xs"
proof -
  have "xs = xs @ []" by simp
  from remove_steps [OF assms this, of gone] show ?thesis unfolding removeChildrenOf_def by (metis snd_conv)
qed

lemma flattenTree_listed:
  assumes "forest_ok ts"
  shows "listed (flattenTree ts)"
proof -
  note d = assms [unfolded forest_ok_def]
  have kids: "has_children y" if x: "x \<in> set (flattenTree ts)" and y: "y \<in> set (flattenTree ts)"
    and p: "parentId x = Some (uuid y)" for x y
  proof -
    from flat_sub [OF y [unfolded flattenTree_def]]
    obtain t q j m where t: "t \<in> \<Union> (subs ` set ts)" "y = flat_of t q j m" by metis
    from y have "uuid y \<in> set (forest_ids ts)" unfolding flattenTree_def
      using flatten_uuids [of ts None 0 0] by (metis imageI)
    with p d t(2) have "parent_of x = Some (uuid_of t)" by (auto simp: parent_of_def)
    moreover have "map uuid (filter (\<lambda>x. parent_of x = Some (uuid_of t)) (flattenTree ts)) = map uuid_of (kid_list t)"
      unfolding flattenTree_def by (rule filter_parent_sub) (use d t in auto)
    ultimately have "kid_list t \<noteq> []" using x by (auto simp: filter_empty_conv)
    then show ?thesis unfolding t(2) by (cases t rule: kid_list.cases) (auto simp: has_children_def)
  qed
  moreover have "distinct (map uuid (flattenTree ts))" and "[] \<notin> uuid ` set (flattenTree ts)"
    using d by (auto simp: flattenTree_def flatten_uuids)
  ultimately show ?thesis
    using nested_flattenTree [of ts] unfolding listed_def by (intro conjI ballI impI) (assumption | rule kids)+
qed

section \<open>The list that is shown\<close>

lemma has_children_type:
  "x \<in> set (flattenTree ts) \<Longrightarrow> has_children x \<Longrightarrow> editor_type x = FolderType"
proof -
  assume x: "x \<in> set (flattenTree ts)" and h: "has_children x"
  from flat_sub [OF x [unfolded flattenTree_def]] obtain t q j m where "x = flat_of t q j m" by metis
  with h show "editor_type x = FolderType" by (cases t) (auto simp: has_children_def)
qed

lemma above_listed:
  assumes "listed xs" and "(u, a) \<in> (child_rel xs)\<^sup>+"
  shows "\<exists>y \<in> set xs. uuid y = a \<and> has_children y"
proof -
  from assms(2) obtain v where "(v, a) \<in> child_rel xs" by (metis tranclD2)
  then obtain x where x: "x \<in> set xs" "parent_of x = Some a" by (auto simp: child_rel_def)
  then have p: "parentId x = Some a" by (auto simp: parent_of_def split: option.splits if_splits)
  from x(1) obtain pre post where xs: "xs = pre @ x # post" by (meson split_list)
  with assms(1) have "nested (pre @ x # post)" by (simp add: listed_def)
  from nested_parent [OF this] p obtain y where y: "y \<in> set pre" "parentId x = Some (uuid y)" by auto
  with xs have "y \<in> set xs" by simp
  with assms(1) x(1) y(2) have "has_children y" unfolding listed_def by blast
  with p y \<open>y \<in> set xs\<close> show ?thesis by auto
qed

lemma computeFlattenedItems_eq:
  assumes "forest_ok (folder_items s)" and "searchTerm s = []"
  shows "computeFlattenedItems s active =
    filter (\<lambda>x. \<forall>a. (uuid x, a) \<in> (child_rel (fullFlattenedItems s))\<^sup>+ \<longrightarrow>
                    a \<notin> set (collapsedIds s) \<and> Some a \<noteq> active) (fullFlattenedItems s)"
proof -
  let ?full = "fullFlattenedItems s"
  let ?gone = "case active of None \<Rightarrow> collapsedFolderIds s | Some a \<Rightarrow> a # collapsedFolderIds s"
  have l: "listed ?full" unfolding fullFlattenedItems_def by (rule flattenTree_listed [OF assms(1)])
  have gone: "a \<in> set ?gone \<longleftrightarrow> a \<in> set (collapsedIds s) \<or> Some a = active"
    if "(u, a) \<in> (child_rel ?full)\<^sup>+" for u a
  proof -
    from above_listed [OF l that] obtain y where y: "y \<in> set ?full" "uuid y = a" "has_children y" by blast
    with has_children_type have "editor_type y = FolderType" unfolding fullFlattenedItems_def by blast
    with y have "a \<in> set (collapsedFolderIds s) \<longleftrightarrow> a \<in> set (collapsedIds s)"
      unfolding collapsedFolderIds_def using assms(2) by auto
    then show ?thesis by (auto split: option.split)
  qed
  have free: "free_of ?full (set ?gone) =
      (\<lambda>x. \<forall>a. (uuid x, a) \<in> (child_rel ?full)\<^sup>+ \<longrightarrow> a \<notin> set (collapsedIds s) \<and> Some a \<noteq> active)"
    unfolding free_of_def by (intro ext) (use gone in blast)
  show ?thesis
    unfolding computeFlattenedItems_def itemsToProcess_def
    using assms(2) removeChildrenOf_listed [OF l, of ?gone] by (simp add: free)
qed

section \<open>Dragging in the list\<close>

lemma listed_filter:
  assumes "listed xs" and "\<And>x y. x \<in> set xs \<Longrightarrow> y \<in> set xs \<Longrightarrow> parentId x = Some (uuid y) \<Longrightarrow> P x \<Longrightarrow> P y"
  shows "listed (filter P xs)"
proof -
  note l = assms(1) [unfolded listed_def]
  have "nested (filter P xs)" by (rule nested_filter) (use l assms(2) in blast)+
  moreover have "distinct (map uuid (filter P xs))" using l by (simp add: distinct_map_filter)
  moreover have "[] \<notin> uuid ` set (filter P xs)" using l by auto
  moreover have "has_children y" if "x \<in> set (filter P xs)" "y \<in> set (filter P xs)" "parentId x = Some (uuid y)" for x y
    using l that by auto
  ultimately show ?thesis unfolding listed_def by blast
qed

lemma drag_block:
  assumes "listed (pre @ a # post)" and "x \<in> set (pre @ a # post)" and "parentId x = Some (uuid y)"
    and "y = a \<or> y \<in> set (takeWhile (\<lambda>x. depth a < depth x) post)"
  shows "x \<in> set (takeWhile (\<lambda>x. depth a < depth x) post)"
proof -
  let ?xs = "pre @ a # post" and ?P = "\<lambda>x. depth a < depth x"
  note l = assms(1) [unfolded listed_def]
  from l have d: "distinct ?xs" and inj: "inj_on uuid (set ?xs)" and n: "nested ?xs" by (simp_all only: distinct_map)
  from assms(2) obtain p q where xs: "?xs = p @ x # q" by (meson split_list)
  with n assms(3) have "child_of_last p x" unfolding nested_def by force
  then obtain p1 y' p2 where p: "p = p1 @ y' # p2" "parentId x = Some (uuid y')" "depth x = depth y' + 1"
      "\<forall>w \<in> set p2. depth y' < depth w" unfolding child_of_last_def by blast
  have y: "y \<in> set ?xs" using assms(4) by (auto dest: set_takeWhileD)
  have y': "y' \<in> set ?xs" unfolding xs p(1) by simp
  have "y' = y" by (rule inj_onD [OF inj _ y' y]) (use assms(3) p(2) in simp)
  with p have p: "p = p1 @ y # p2" "depth x = depth y + 1" "\<forall>w \<in> set p2. depth y < depth w" by simp_all
  from assms(4) show ?thesis
  proof
    assume a: "y = a"
    from xs p(1) a have "pre @ a # post = p1 @ a # (p2 @ x # q)" by simp
    with d have "post = p2 @ x # q" by (subst (asm) append_Cons_eq_iff) auto
    with p a show ?thesis by (simp add: takeWhile_append2)
  next
    assume "y \<in> set (takeWhile ?P post)"
    then obtain t1 t2 where t: "takeWhile ?P post = t1 @ y # t2" by (meson split_list)
    then have P: "\<forall>w \<in> set (t1 @ [y]). ?P w" by (metis set_takeWhileD Un_iff append.assoc append_Cons append_Nil set_append)
    obtain r where post: "post = t1 @ y # r"
      using t takeWhile_dropWhile_id [of ?P post] by (metis append.assoc append_Cons)
    from xs p(1) post have "(pre @ a # t1) @ y # r = p1 @ y # (p2 @ x # q)" by simp
    moreover from d post have "y \<notin> set (pre @ a # t1)" "y \<notin> set r" by auto
    ultimately have "r = p2 @ x # q" by (subst (asm) append_Cons_eq_iff) auto
    with post have post: "post = (t1 @ y # p2) @ x # q" by simp
    have "\<forall>w \<in> set (t1 @ y # p2). ?P w" and "?P x" using P p(2,3) by auto
    then show ?thesis unfolding post by (subst takeWhile_append2) auto
  qed
qed

text \<open>A drag of an item, with what the pointer did since its start.\<close>

datatype drag_move = MovedBy int | MovedOver "string option"

fun drag_moved :: "editor \<Rightarrow> drag \<Rightarrow> drag_move \<Rightarrow> drag" where
  "drag_moved s d (MovedBy x) = handleDragMove (computeFlattenedItems s) x d"
| "drag_moved s d (MovedOver i) = handleDragOver (computeFlattenedItems s) i d"

definition drag_since :: "editor \<Rightarrow> string \<Rightarrow> drag_move list \<Rightarrow> drag" where
  "drag_since s active moves =
     foldl (drag_moved s) (handleDragStart (computeFlattenedItems s) (selectedItemIds s) active no_drag) moves"

definition dragged_below :: "flat_item list \<Rightarrow> string \<Rightarrow> string list" where
  "dragged_below shown_list active =
     (case find_index (\<lambda>x. uuid x = active) shown_list of
        None \<Rightarrow> []
      | Some i \<Rightarrow>
          if editor_type (shown_list ! i) = FolderType
          then js_uniq (map uuid (takeWhile (\<lambda>x. depth (shown_list ! i) < depth x) (drop (Suc i) shown_list)))
          else [])"

lemma drag_since_start:
  "startItems (drag_since s active moves) = Some (computeFlattenedItems s None) \<and>
   activeId (drag_since s active moves) = Some active \<and>
   draggedFolderChildIds (drag_since s active moves) = dragged_below (computeFlattenedItems s None) active"
  unfolding drag_since_def
proof (rule foldl_inv, goal_cases)
  case 1
  then show ?case
    by (simp add: handleDragStart_def no_drag_def dragged_below_def Let_def del: find_index_None split: option.split)
next
  case (2 d m)
  show ?case
    using 2(2) by (cases m) (auto simp: handleDragMove_def handleDragOver_def Let_def split: option.split)
qed

lemma drag_since_items:
  assumes "active \<noteq> []"
  shows "projectionItems (computeFlattenedItems s) (drag_since s active moves) =
    filter (\<lambda>x. uuid x \<notin> set (dragged_below (computeFlattenedItems s None) active)) (computeFlattenedItems s None)"
  using drag_since_start [of s active moves] assms
  by (cases active) (auto simp: projectionItems_def flattenedItems_def present_def)

lemma shown_below:
  assumes "listed V" and "x \<in> set V" and "y \<in> set V" and "parentId x = Some (uuid y)" and "editor_type y = FolderType"
    and "uuid y = active \<or> uuid y \<in> set (dragged_below V active)"
  shows "uuid x \<in> set (dragged_below V active)"
proof -
  note l = assms(1) [unfolded listed_def]
  have "find_index (\<lambda>x. uuid x = active) V \<noteq> None"
  proof
    assume n: "find_index (\<lambda>x. uuid x = active) V = None"
    then have "dragged_below V active = []" by (simp add: dragged_below_def del: find_index_None)
    moreover from n have "\<forall>x \<in> set V. uuid x \<noteq> active" by simp
    ultimately show False using assms(3,6) by auto
  qed
  then obtain i where i: "find_index (\<lambda>x. uuid x = active) V = Some i" by blast
  define a pre post where "a = V ! i" and "pre = take i V" and "post = drop (Suc i) V"
  from find_index_Some [OF i] have a: "i < length V" "uuid a = active" by (auto simp: a_def)
  have V: "V = pre @ a # post" using a(1) by (simp add: a_def pre_def post_def id_take_nth_drop)
  from l have inj: "inj_on uuid (set V)" by (simp add: distinct_map)
  have below: "set (dragged_below V active) =
      (if editor_type a = FolderType then uuid ` set (takeWhile (\<lambda>x. depth a < depth x) post) else {})"
    by (simp add: dragged_below_def i a_def post_def)
  have aV: "a \<in> set V" using a(1) by (simp add: a_def)
  have "editor_type a = FolderType \<and> (y = a \<or> y \<in> set (takeWhile (\<lambda>x. depth a < depth x) post))"
  proof (cases "uuid y = active")
    case True
    then have "y = a" using inj_onD [OF inj, of y a] aV assms(3) a(2) by simp
    with assms(5) show ?thesis by simp
  next
    case False
    with assms(6) below obtain z where z: "editor_type a = FolderType" "z \<in> set (takeWhile (\<lambda>x. depth a < depth x) post)"
        "uuid y = uuid z" by (auto split: if_splits)
    from z(2) have "z \<in> set V" unfolding V by (auto dest: set_takeWhileD)
    then have "y = z" using inj_onD [OF inj z(3)] assms(3) by simp
    with z show ?thesis by simp
  qed
  moreover from this have "x \<in> set (takeWhile (\<lambda>x. depth a < depth x) post)"
    using drag_block [of pre a post x y] assms(1,2,4) V by simp
  ultimately show ?thesis unfolding below by simp
qed

text \<open>C36: Where an item would go while it is dragged and nothing is searched, whatever the pointer did since:
  the depth is never negative, it is between the least and the greatest allowed one unless the least is above the
  greatest, and an item that goes below the top level, not deeper than the greatest depth, has as its parent the
  folder one level above it that the place is in: in the list that is shown without the dragged item, that folder
  comes before the place and only items at least as deep as the dragged one come in between.\<close>

theorem drag_goes_where_it_fits:
  assumes "forest_ok (folder_items s)" and "searchTerm s = []" and "active \<noteq> []"
    and "items = projectionItems (computeFlattenedItems s) (drag_since s active moves)"
    and "getProjection items active over offset w m = Some q" and "m = None \<or> m = Some (index_map items)"
  shows "0 \<le> at_depth q \<and>
    (minDepth q \<le> maxDepth q \<longrightarrow> minDepth q \<le> at_depth q \<and> at_depth q \<le> maxDepth q) \<and>
    (0 < at_depth q \<and> at_depth q \<le> maxDepth q \<longrightarrow>
      (\<exists>b. index_in m items over = Some b \<and>
        fits (take b (filter (\<lambda>x. uuid x \<noteq> active) items)) (at_depth q) (target q)))"
proof -
  let ?full = "fullFlattenedItems s"
  define P where "P x = (\<forall>a. (uuid x, a) \<in> (child_rel ?full)\<^sup>+ \<longrightarrow> a \<notin> set (collapsedIds s) \<and> Some a \<noteq> None)"
    for x :: flat_item
  define V where "V = computeFlattenedItems s None"
  define B where "B = set (dragged_below V active)"
  have l: "listed ?full" unfolding fullFlattenedItems_def by (rule flattenTree_listed [OF assms(1)])
  then have inj: "inj_on uuid (set ?full)" and dd: "distinct (map uuid ?full)" by (simp_all add: listed_def distinct_map)
  have V: "V = filter P ?full" unfolding V_def P_def by (rule computeFlattenedItems_eq [OF assms(1,2)])
  have up: "P y" if "x \<in> set ?full" "y \<in> set ?full" "parentId x = Some (uuid y)" "P x" for x y
  proof -
    have "uuid y \<noteq> []" using l that(2) unfolding listed_def by (metis imageI)
    with that(3) have "parent_of x = Some (uuid y)" by (simp add: parent_of_def)
    from above_child [OF dd that(1) this] that(4) show ?thesis unfolding P_def by blast
  qed
  have lV: "listed V" unfolding V by (rule listed_filter [OF l up])
  let ?hidden = "{u. \<forall>x \<in> set V. uuid x \<noteq> u} \<union> B"
  have items: "items = filter (\<lambda>x. uuid x \<notin> ?hidden) (flattenTree (folder_items s))"
  proof -
    have "(\<exists>x' \<in> set V. uuid x' = uuid x) \<longleftrightarrow> P x" if "x \<in> set ?full" for x
      using inj_onD [OF inj] that unfolding V by auto
    then have "filter (\<lambda>x. uuid x \<notin> B) V = filter (\<lambda>x. uuid x \<notin> ?hidden) ?full"
      unfolding V filter_filter by (intro filter_cong) auto
    then show ?thesis
      unfolding assms(4) drag_since_items [OF assms(3)] fullFlattenedItems_def [symmetric] by (simp add: V_def B_def)
  qed
  have closed: "uuid x \<in> ?hidden" if x: "x \<in> set (flattenTree (folder_items s))" and p: "parentId x = Some u"
    and u: "u = active \<or> u \<in> ?hidden" for x u
  proof (rule ccontr)
    assume no: "uuid x \<notin> ?hidden"
    then obtain x' where "x' \<in> set V" "uuid x' = uuid x" by auto
    moreover have x: "x \<in> set ?full" using x by (simp add: fullFlattenedItems_def)
    ultimately have xV: "x \<in> set V" using inj_onD [OF inj] unfolding V by auto
    from x obtain pre post where full: "?full = pre @ x # post" by (meson split_list)
    with l have "nested (pre @ x # post)" by (simp add: listed_def)
    from nested_parent [OF this] p obtain y where y: "y \<in> set pre" "editor_type y = FolderType" "u = uuid y" by auto
    from y(1) full have yf: "y \<in> set ?full" by simp
    from up [OF x yf] p y(3) xV have yV: "y \<in> set V" unfolding V using yf by auto
    from u y(3) yV have "uuid y = active \<or> uuid y \<in> set (dragged_below V active)" by (auto simp: B_def)
    from shown_below [OF lV xV yV _ y(2) this] p y(3) have "uuid x \<in> B" by (simp add: B_def)
    with no show False by simp
  qed
  show ?thesis
    by (rule projection_fits_the_list [OF assms(1) items _ assms(5,6)]) (use closed in blast)
qed

text \<open>An editor with two folders; the item of the second is dragged over that folder.\<close>

definition two_folders :: editor where
  "two_folders =
     \<lparr>ds_metrics = [], ds_columns = [],
      folder_items =
        [Folder ''f'' (Some ''F'') None (Some [Leaf MetricLeaf ''a'' (Some ''A'')]),
         Folder ''g'' (Some ''G'') None (Some [Leaf MetricLeaf ''b'' (Some ''B'')])],
      selectedItemIds = [], lastSelectedItemId = None, searchTerm = [], collapsedIds = [], editingFolderId = None,
      preSearchCollapsedIds = None, showResetConfirm = False, dragging = no_drag\<rparr>"

theorem drag_goes_where_it_fits_witness:
  "\<exists>q items. items = projectionItems (computeFlattenedItems two_folders) (drag_since two_folders ''b'' [MovedOver (Some ''g'')]) \<and>
     getProjection items ''b'' ''g'' 0 64 None = Some q \<and> at_depth q = 1 \<and> target q = Some ''f'' \<and>
     (\<exists>b. index_in None items ''g'' = Some b \<and>
        fits (take b (filter (\<lambda>x. uuid x \<noteq> ''b'') items)) 1 (Some ''f''))"
proof -
  let ?items = "projectionItems (computeFlattenedItems two_folders) (drag_since two_folders ''b'' [MovedOver (Some ''g'')])"
  define q where "q = \<lparr>at_depth = 1, maxDepth = 1, minDepth = 1, target = Some ''f''\<rparr>"
  have "forest_ok (folder_items two_folders)" and "searchTerm two_folders = []" by code_simp+
  moreover have q: "getProjection ?items ''b'' ''g'' 0 64 None = Some q"
    unfolding q_def by code_simp
  moreover have "''b'' \<noteq> []" by simp
  ultimately have "0 < at_depth q \<and> at_depth q \<le> maxDepth q \<longrightarrow>
      (\<exists>b. index_in None ?items ''g'' = Some b \<and>
        fits (take b (filter (\<lambda>x. uuid x \<noteq> ''b'') ?items)) (at_depth q) (target q))"
    using drag_goes_where_it_fits [OF _ _ _ refl q disjI1 [OF refl]] by blast
  with q show ?thesis by (auto simp: q_def)
qed

section \<open>Selecting all\<close>

lemma parentMap_get: "linked full \<Longrightarrow> x \<in> set full \<Longrightarrow> obj_get (parentMap full) (uuid x) = Some (parentId x)"
  unfolding parentMap_def linked_def by (rule od.get_foldl_put_map) simp_all

lemma parent_of_Some: "parent_of x = Some p \<longleftrightarrow> parentId x = Some p \<and> p \<noteq> []"
  by (auto simp: parent_of_def split: option.splits)

lemma ancestors_from_above:
  assumes "linked full" and "ranked r full"
  shows "x \<in> set full \<Longrightarrow> card (above full (uuid x)) \<le> k \<Longrightarrow>
    \<exists>ps. ancestors_from k (parentMap full) (parentId x) = Inr ps \<and> set ps = {a. (uuid x, a) \<in> (child_rel full)\<^sup>+}"
proof (induction k arbitrary: x)
  case 0
  have "above full (uuid x) \<subseteq> uuid ` set full" using above_items [OF assms(1)] 0(1) by blast
  then have "finite (above full (uuid x))" by (rule finite_subset) simp
  moreover have "uuid x \<in> above full (uuid x)" by (simp add: above_def)
  ultimately show ?case using 0(2) by auto
next
  case (Suc k)
  have d: "distinct (map uuid full)" using assms(1) by (simp add: linked_def)
  show ?case
  proof (cases "parent_of x")
    case None
    then have "\<nexists>p. parentId x = Some p \<and> p \<noteq> []" by (simp add: parent_of_Some flip: not_Some_eq)
    then have "ancestors_from (Suc k) (parentMap full) (parentId x) = Inr []" by (auto split: option.split)
    with above_root [OF d Suc.prems(1) None] show ?thesis by auto
  next
    case (Some p)
    then have c: "(uuid x, p) \<in> child_rel full" using Suc.prems(1) by (auto simp: child_rel_def)
    from Some have p: "parentId x = Some p" "p \<noteq> []" by (simp_all add: parent_of_Some)
    from assms(1) Some Suc.prems(1) obtain y where y: "y \<in> set full" "uuid y = p" unfolding linked_def by blast
    have "card (above full (uuid y)) \<le> k"
      using above_parent [OF assms c] Suc.prems(2) y(2) by simp
    from Suc.IH [OF y(1) this] obtain ps where
      ps: "ancestors_from k (parentMap full) (parentId y) = Inr ps" "set ps = {a. (uuid y, a) \<in> (child_rel full)\<^sup>+}"
      by blast
    have "ancestors_from (Suc k) (parentMap full) (parentId x) = Inr (p # ps)"
      using p ps(1) parentMap_get [OF assms(1) y(1)] y(2) by simp
    moreover have "set (p # ps) = {a. (uuid x, a) \<in> (child_rel full)\<^sup>+}"
      using above_child [OF d Suc.prems(1) Some] ps(2) y(2) by auto
    ultimately show ?thesis by blast
  qed
qed

lemma foldersToExpand_above:
  assumes "linked full" and "ranked r full" and "set is \<subseteq> uuid ` set full"
  shows "\<exists>ps. foldersToExpand full is = Inr ps \<and> set ps = {a. \<exists>i \<in> set is. (i, a) \<in> (child_rel full)\<^sup>+}"
proof -
  let ?f = "\<lambda>i. ancestors_from (Suc (length full)) (parentMap full)
      (case obj_get (parentMap full) i of None \<Rightarrow> None | Some q \<Rightarrow> q)"
  have "\<forall>i \<in> set is. \<exists>ps. ?f i = Inr ps \<and> set ps = {a. (i, a) \<in> (child_rel full)\<^sup>+}"
  proof
    fix i assume "i \<in> set is"
    with assms(3) obtain x where x: "x \<in> set full" "i = uuid x" by blast
    have "card (above full (uuid x)) \<le> Suc (length full)" using above_length [OF assms(1) x(1)] by simp
    from ancestors_from_above [OF assms(1,2) x(1) this] parentMap_get [OF assms(1) x(1)]
    show "\<exists>ps. ?f i = Inr ps \<and> set ps = {a. (i, a) \<in> (child_rel full)\<^sup>+}" unfolding x(2) by simp
  qed
  then obtain g where g: "\<forall>i \<in> set is. ?f i = Inr (g i) \<and> set (g i) = {a. (i, a) \<in> (child_rel full)\<^sup>+}" by metis
  then have "rmap ?f is = Inr (map g is)" by (intro rmap_Inr) blast
  then have "foldersToExpand full is = Inr (js_uniq (concat (map g is)))" unfolding foldersToExpand_def by simp
  moreover have "set (js_uniq (concat (map g is))) = {a. \<exists>i \<in> set is. (i, a) \<in> (child_rel full)\<^sup>+}" using g by auto
  ultimately show ?thesis by blast
qed

lemma items_by_uuid_mem: "obj_get (items_by_uuid xs) u = Some y \<Longrightarrow> uuid y = u \<and> y \<in> set xs"
proof (induction xs rule: rev_induct)
  case (snoc x xs)
  then show ?case by (simp add: items_by_uuid_def split: if_splits)
qed (simp add: items_by_uuid_def)

lemma selectable_item:
  assumes "selectable s i"
  shows "\<exists>x \<in> set (fullFlattenedItems s). uuid x = i \<and> editor_type x \<noteq> FolderType"
proof (cases "obj_get (items_by_uuid (fullFlattenedItems s)) i")
  case None
  with assms show ?thesis by (simp add: selectable_def)
next
  case (Some x)
  from items_by_uuid_mem [OF this] have "uuid x = i" "x \<in> set (fullFlattenedItems s)" by simp_all
  moreover have "editor_type x \<noteq> FolderType" using assms Some by (simp add: selectable_def)
  ultimately show ?thesis by (intro bexI [of _ x]) simp_all
qed

text \<open>C18: Selecting all always returns: the walks to the ancestors end. It deselects everything when all that is visible
  was selected before; otherwise it selects exactly the metrics and columns that are in the folders and pass the
  search, and of the collapsed folders it expands exactly those they are in, so that, when nothing is searched,
  every selected item is shown.\<close>

theorem select_all_shows_the_selection:
  assumes "forest_ok (folder_items s)"
    and "chosen = filter (selectable s) (visibleItemIds (searched s))"
  shows "\<exists>s'. handleSelectAll s = Inr s' \<and>
    (if allVisibleSelected s then s' = s\<lparr>selectedItemIds := []\<rparr>
     else s' = s\<lparr>selectedItemIds := chosen,
            collapsedIds := filter (\<lambda>c. \<forall>i \<in> set chosen. (i, c) \<notin> (child_rel (fullFlattenedItems s))\<^sup>+) (collapsedIds s)\<rparr> \<and>
          (searchTerm s = [] \<longrightarrow> set chosen \<subseteq> uuid ` set (computeFlattenedItems s' None)))"
proof (cases "allVisibleSelected s")
  case True
  then show ?thesis by (simp add: handleSelectAll_def Let_def)
next
  case False
  let ?full = "fullFlattenedItems s"
  have l: "linked ?full" unfolding fullFlattenedItems_def by (rule flattenTree_linked [OF assms(1)])
  obtain r where r: "ranked r ?full"
    unfolding fullFlattenedItems_def using flattenTree_ranked [OF assms(1)] by metis
  have chosen: "set chosen \<subseteq> uuid ` set ?full"
  proof
    fix i assume "i \<in> set chosen"
    then have "selectable s i" by (simp add: assms(2))
    from selectable_item [OF this] show "i \<in> uuid ` set ?full" by (metis imageI)
  qed
  from foldersToExpand_above [OF l r chosen] obtain ps where
    ps: "foldersToExpand ?full chosen = Inr ps" "set ps = {a. \<exists>i \<in> set chosen. (i, a) \<in> (child_rel ?full)\<^sup>+}" by metis
  let ?s' = "s\<lparr>selectedItemIds := chosen, collapsedIds := filter (\<lambda>c. c \<notin> set ps) (collapsedIds s)\<rparr>"
  have "handleSelectAll s = Inr ?s'"
    using False ps(1) by (simp add: handleSelectAll_def Let_def flip: assms(2))
  moreover have "(\<lambda>c. c \<notin> set ps) = (\<lambda>c. \<forall>i \<in> set chosen. (i, c) \<notin> (child_rel ?full)\<^sup>+)"
    unfolding ps(2) by auto
  moreover have "set chosen \<subseteq> uuid ` set (computeFlattenedItems ?s' None)" if "searchTerm s = []"
  proof
    fix i assume i: "i \<in> set chosen"
    with chosen obtain x where x: "x \<in> set ?full" "i = uuid x" by blast
    have full: "fullFlattenedItems ?s' = ?full" by (simp add: fullFlattenedItems_def)
    have "x \<in> set (computeFlattenedItems ?s' None)"
      by (subst computeFlattenedItems_eq) (use assms(1) that full x i ps(2) in auto)
    then show "i \<in> uuid ` set (computeFlattenedItems ?s' None)" using x(2) by simp
  qed
  ultimately show ?thesis using False by simp
qed

definition collapsed_folders :: editor where
  "collapsed_folders =
     two_folders\<lparr>ds_metrics := [\<lparr>own_uuid = ''a'', own_name = None, verbose_name = None, expression = None\<rparr>],
                 collapsedIds := [''f'', ''g'']\<rparr>"

theorem select_all_shows_the_selection_witness:
  "\<exists>s'. handleSelectAll collapsed_folders = Inr s' \<and> selectedItemIds s' = [''a''] \<and>
    {''a''} \<subseteq> uuid ` set (computeFlattenedItems s' None)"
proof -
  have "forest_ok (folder_items collapsed_folders)" by code_simp
  moreover have "[''a''] = filter (selectable collapsed_folders) (visibleItemIds (searched collapsed_folders))"
    by code_simp
  ultimately obtain s' where s': "handleSelectAll collapsed_folders = Inr s'"
      "if allVisibleSelected collapsed_folders then s' = collapsed_folders\<lparr>selectedItemIds := []\<rparr>
       else s' = collapsed_folders\<lparr>selectedItemIds := [''a''],
            collapsedIds := filter (\<lambda>c. \<forall>i \<in> set [''a'']. (i, c) \<notin> (child_rel (fullFlattenedItems collapsed_folders))\<^sup>+)
              (collapsedIds collapsed_folders)\<rparr> \<and>
          (searchTerm collapsed_folders = [] \<longrightarrow> set [''a''] \<subseteq> uuid ` set (computeFlattenedItems s' None))"
    using select_all_shows_the_selection [of collapsed_folders "[''a'']"] by blast
  have "\<not> allVisibleSelected collapsed_folders" "searchTerm collapsed_folders = []" by code_simp+
  with s'(2) have "selectedItemIds s' = [''a'']" "set [''a''] \<subseteq> uuid ` set (computeFlattenedItems s' None)"
    by auto
  with s'(1) show ?thesis by simp
qed

end
