(* ===== verification/FolderRun.thy ===== *)
theory FolderRun
  imports FolderView
begin

text \<open>
  Runs of the folders editor: every metric and column of the dataset stays in exactly one folder, whatever the
  user does; renaming changes a name only; and folders that were stored are found again.
\<close>

section \<open>The items in a tree\<close>

fun leaves :: "tree_item \<Rightarrow> string list" where
  "leaves (Folder u n d None) = []"
| "leaves (Folder u n d (Some cs)) = concat (map leaves cs)"
| "leaves (Leaf t u n) = [u]"

abbreviation forest_leaves :: "tree_item list \<Rightarrow> string list" where
  "forest_leaves ts \<equiv> concat (map leaves ts)"

lemma leaves_flatten:
  "map uuid (filter (\<lambda>x. editor_type x \<noteq> FolderType) (flatten ts p k i)) = forest_leaves ts"
  by (induction ts p k i rule: flatten.induct) auto

lemma leaves_subset: "set (leaves t) \<subseteq> set (ids t)"
  by (induction t rule: leaves.induct) auto

lemma distinct_of_subset:
  assumes "mset xs \<subseteq># mset ys" and "distinct ys"
  shows "distinct xs"
proof -
  from assms(1) obtain C where "mset ys = mset xs + C" by (auto simp: mset_subset_eq_exists_conv)
  moreover obtain zs where "mset zs = C" using ex_mset by blast
  ultimately have "mset (xs @ zs) = mset ys" by simp
  then have "distinct (xs @ zs)" using assms(2) mset_eq_imp_distinct_iff by blast
  then show ?thesis by simp
qed

lemma forest_ok_subset:
  assumes "mset (forest_ids ts) \<subseteq># mset (forest_ids us)" and "forest_ok us"
  shows "forest_ok ts"
proof -
  have "set (forest_ids ts) \<subseteq> set (forest_ids us)" using assms(1) by (metis set_mset_mono set_mset_mset)
  with assms distinct_of_subset [OF assms(1)] show ?thesis by (auto simp: forest_ok_def)
qed

lemma forest_ok_mset: "mset (forest_ids ts) = mset (forest_ids us) \<Longrightarrow> forest_ok us \<Longrightarrow> forest_ok ts"
  by (rule forest_ok_subset) simp_all

text \<open>What a tree holds is read off its flattened list.\<close>

lemma payload_ids:
  assumes "mset (map payload (flattenTree ts)) = mset (map payload (flattenTree us))"
  shows "mset (forest_ids ts) = mset (forest_ids us)"
    and "mset (forest_leaves ts) = mset (forest_leaves us)"
proof -
  let ?leaf = "\<lambda>(u :: string, n). case n of FolderNode _ _ \<Rightarrow> False | LeafNode _ _ \<Rightarrow> True"
  have ids: "map uuid (flattenTree vs) = map fst (map payload (flattenTree vs))" for vs
    by (simp add: payload_def comp_def)
  have "?leaf (payload x) \<longleftrightarrow> editor_type x \<noteq> FolderType" for x
    by (auto simp: payload_def node_of_def split: editor_type.splits)
  then have lv: "forest_leaves vs = map fst (filter ?leaf (map payload (flattenTree vs)))" for vs
    unfolding leaves_flatten [of vs None 0 0, symmetric] flattenTree_def
    by (simp add: filter_map comp_def payload_def)
  have "mset (map uuid (flattenTree ts)) = mset (map uuid (flattenTree us))"
    unfolding ids using assms by (metis mset_map)
  then show "mset (forest_ids ts) = mset (forest_ids us)" by (simp add: flattenTree_def)
  show "mset (forest_leaves ts) = mset (forest_leaves us)"
    unfolding lv using assms by (metis mset_filter mset_map)
qed

section \<open>Removing items that are gone\<close>

lemma filterChildren_facts:
  assumes "filterChildren V cs = (ch, ks)"
  shows "(\<not> ch \<longrightarrow> ks = cs) \<and> forest_leaves ks = filter (\<lambda>u. u \<in> V) (forest_leaves cs) \<and>
    mset (forest_ids ks) \<subseteq># mset (forest_ids cs)"
  using assms
proof (induction V cs arbitrary: ch ks rule: filterChildren.induct)
  case (2 V u n d cs rest)
  obtain c1 k1 where 1: "filterChildren V cs = (c1, k1)" by (metis surj_pair)
  obtain c2 k2 where 2: "filterChildren V rest = (c2, k2)" by (metis surj_pair)
  from "2.IH"(1) [OF 1] have cs: "\<not> c1 \<longrightarrow> k1 = cs" "forest_leaves k1 = filter (\<lambda>u. u \<in> V) (forest_leaves cs)"
    "mset (forest_ids k1) \<subseteq># mset (forest_ids cs)" by blast+
  from "2.IH"(2) [OF refl 1 [symmetric] 2] have rest: "\<not> c2 \<longrightarrow> k2 = rest" "forest_leaves k2 = filter (\<lambda>u. u \<in> V) (forest_leaves rest)"
    "mset (forest_ids k2) \<subseteq># mset (forest_ids rest)" by blast+
  from "2.prems" 1 2 have r: "ch = (c1 \<or> c2)" "ks = Folder u n d (Some k1) # k2" using cs(1) by auto
  show ?case unfolding r using cs rest by (auto intro: subset_mset.add_mono)
next
  case (3 V u n d rest)
  obtain c2 k2 where 2: "filterChildren V rest = (c2, k2)" by (metis surj_pair)
  from "3.IH" [OF 2] "3.prems" 2 show ?case
    by (auto split: if_splits intro: subset_mset.trans)
next
  case (4 V t u n rest)
  obtain c2 k2 where 2: "filterChildren V rest = (c2, k2)" by (metis surj_pair)
  from "4.IH" [OF 2] "4.prems" 2 show ?case
    by (auto split: if_splits intro: subset_mset.trans)
qed simp

lemma filter_folder_facts:
  "is_folder f \<Longrightarrow> leaves (filter_folder V f) = filter (\<lambda>u. u \<in> V) (leaves f)"
  "mset (ids (filter_folder V f)) \<subseteq># mset (ids f)"
  "is_folder (filter_folder V f) = is_folder f"
proof -
  have "(is_folder f \<longrightarrow> leaves (filter_folder V f) = filter (\<lambda>u. u \<in> V) (leaves f)) \<and>
      mset (ids (filter_folder V f)) \<subseteq># mset (ids f) \<and> is_folder (filter_folder V f) = is_folder f"
  proof (cases "(V, f)" rule: filter_folder.cases)
    case (1 V' u n d cs)
    obtain ch ks where c: "filterChildren V cs = (ch, ks)" by (metis surj_pair)
    from filterChildren_facts [OF c] 1 c show ?thesis by auto
  qed auto
  then show "is_folder f \<Longrightarrow> leaves (filter_folder V f) = filter (\<lambda>u. u \<in> V) (leaves f)"
    "mset (ids (filter_folder V f)) \<subseteq># mset (ids f)"
    "is_folder (filter_folder V f) = is_folder f" by blast+
qed

lemma filter_folders_facts:
  assumes "list_all is_folder fs"
  shows "forest_leaves (filterFoldersByValidUuids fs V) = filter (\<lambda>u. u \<in> V) (forest_leaves fs) \<and>
    mset (forest_ids (filterFoldersByValidUuids fs V)) \<subseteq># mset (forest_ids fs) \<and>
    list_all is_folder (filterFoldersByValidUuids fs V)"
  unfolding filterFoldersByValidUuids_def using assms
  by (induction fs) (auto simp: filter_folder_facts intro: subset_mset.add_mono)

section \<open>Renaming\<close>

fun rename_tree :: "string \<Rightarrow> string \<Rightarrow> tree_item \<Rightarrow> tree_item" where
  "rename_tree i new (Folder u n d None) = Folder u (if u = i then Some new else n) d None"
| "rename_tree i new (Folder u n d (Some cs)) =
     Folder u (if u = i then Some new else n) d (Some (map (rename_tree i new) cs))"
| "rename_tree i new (Leaf t u n) = Leaf t u (if u = i then Some new else n)"

lemma rename_tree_ids [simp]:
  "ids (rename_tree i new t) = ids t"
  "leaves (rename_tree i new t) = leaves t"
  "is_folder (rename_tree i new t) = is_folder t"
  "uuid_of (rename_tree i new t) = uuid_of t"
proof -
  show "ids (rename_tree i new t) = ids t"
    by (induction t rule: rename_tree.induct) (auto simp: comp_def cong: map_cong)
  show "leaves (rename_tree i new t) = leaves t"
    by (induction t rule: rename_tree.induct) (auto simp: comp_def cong: map_cong)
  show "is_folder (rename_tree i new t) = is_folder t" "uuid_of (rename_tree i new t) = uuid_of t"
    by (cases t rule: ids.cases; simp)+
qed

lemma tidy_ids [simp]: "ids (tidy t) = ids t" "leaves (tidy t) = leaves t" "is_folder (tidy t) = is_folder t"
proof -
  show "ids (tidy t) = ids t" by (induction t rule: tidy.induct) (auto simp: comp_def cong: map_cong)
  show "leaves (tidy t) = leaves t" by (induction t rule: tidy.induct) (auto simp: comp_def cong: map_cong)
  show "is_folder (tidy t) = is_folder t" by (cases t rule: ids.cases) simp_all
qed

text \<open>What \<open>buildTree\<close> reads of an item.\<close>

definition link_data :: "flat_item \<Rightarrow> string \<times> node \<times> string option" where
  "link_data x = (uuid x, node_of x, parent_of x)"

lemma nodes_of_data: "nodes_of xs = foldl (\<lambda>m (u, n, p). obj_set u n m) [] (map link_data xs)"
  unfolding nodes_of_def by (induction xs rule: rev_induct) (simp_all add: link_data_def)

lemma link_item_data: "link_data x = link_data y \<Longrightarrow> link_item nodes l x = link_item nodes l y"
proof -
  assume "link_data x = link_data y"
  then have eq: "uuid x = uuid y" "parent_of x = parent_of y" by (simp_all add: link_data_def)
  show ?thesis unfolding link_item_def eq ..
qed

lemma buildTree_data:
  assumes "map link_data xs = map link_data ys"
  shows "buildTree xs = buildTree ys"
proof -
  have "nodes_of xs = nodes_of ys" unfolding nodes_of_data using assms by simp
  moreover have "foldl (link_item nodes) l xs = foldl (link_item nodes) l ys" for nodes l
    using assms
  proof (induction xs arbitrary: l ys)
    case (Cons x xs)
    then obtain y ys' where ys: "ys = y # ys'" "link_data x = link_data y" "map link_data xs = map link_data ys'" by auto
    with Cons.IH [OF ys(3)] link_item_data [OF ys(2)] show ?case by simp
  qed simp
  moreover have "length xs = length ys" using assms by (rule map_eq_imp_length_eq)
  ultimately show ?thesis by (simp add: buildTree_def links_of_def)
qed

lemma rename_flatten:
  "map link_data (map (rename_item i new) (flatten ts p k j)) = map link_data (flatten (map (rename_tree i new) ts) p k j)"
proof (induction ts p k j rule: flatten.induct)
  case (2 u n d cs items p k j)
  then show ?case by (simp add: rename_item_def link_data_def node_of_def parent_of_def)
next
  case (3 u n d items p k j)
  then show ?case by (simp add: rename_item_def link_data_def node_of_def parent_of_def)
next
  case (4 t u n items p k j)
  then show ?case by (simp add: rename_item_def link_data_def node_of_def parent_of_def)
qed simp

lemma renamed_tree:
  assumes "forest_ok ts"
  shows "buildTree (map (rename_item i new) (flattenTree ts)) = Inr (map (tidy \<circ> rename_tree i new) ts)"
proof -
  have "forest_ok (map (rename_tree i new) ts)" using assms by (simp add: forest_ok_def comp_def)
  from build_flattened [OF this]
  have "buildTree (flattenTree (map (rename_tree i new) ts)) = Inr (map tidy (map (rename_tree i new) ts))" .
  with buildTree_data [OF rename_flatten [of i new ts None 0 0]] show ?thesis by (simp add: flattenTree_def comp_def)
qed

section \<open>The invariant of the editor\<close>

text \<open>The identifiers of folders and items are distinct and not empty, only folders are at the top, and the items are
  exactly the metrics and columns of the dataset.\<close>

definition dataset_ok :: "editor \<Rightarrow> bool" where
  "dataset_ok s \<longleftrightarrow> distinct (dataset_ids s) \<and> [] \<notin> set (dataset_ids s) \<and>
     DEFAULT_METRICS_FOLDER_UUID \<notin> set (dataset_ids s) \<and> DEFAULT_COLUMNS_FOLDER_UUID \<notin> set (dataset_ids s)"

definition folders_ok :: "editor \<Rightarrow> bool" where
  "folders_ok s \<longleftrightarrow> forest_ok (folder_items s) \<and> list_all is_folder (folder_items s) \<and>
     set (forest_leaves (folder_items s)) = set (dataset_ids s)"

definition editor_ok :: "editor \<Rightarrow> bool" where
  "editor_ok s \<longleftrightarrow> dataset_ok s \<and> folders_ok s"

text \<open>Which actions are dispatched: a dataset that lost items, new folders with new identifiers, drops whose
  target is not among what moves.\<close>

fun folders_admissible :: "folders_action \<Rightarrow> editor \<Rightarrow> bool" where
  "folders_admissible (DatasetChanged ms cs) s =
     (dataset_ok (s\<lparr>ds_metrics := ms, ds_columns := cs\<rparr>) \<and>
      set (map own_uuid (ms @ cs)) \<subseteq> set (dataset_ids s))"
| "folders_admissible (AddFolder fresh) s = (fresh \<noteq> [] \<and> fresh \<notin> set (forest_ids (folder_items s)))"
| "folders_admissible (DragEnd i (Some zone)) s =
     target_of_drop_stays (computeFlattenedItems s) (fullFlattenedItems s) i zone (dragging s)"
| "folders_admissible a s = True"

lemma folders_okI:
  "forest_ok (folder_items s') \<Longrightarrow> list_all is_folder (folder_items s') \<Longrightarrow>
   set (forest_leaves (folder_items s')) = set (dataset_ids s') \<Longrightarrow>
   dataset_ok s' \<Longrightarrow> editor_ok s'"
  by (simp add: editor_ok_def folders_ok_def)

lemma editor_ok_cong:
  "editor_ok s \<Longrightarrow> folder_items s' = folder_items s \<Longrightarrow> ds_metrics s' = ds_metrics s \<Longrightarrow> ds_columns s' = ds_columns s \<Longrightarrow>
   editor_ok s'"
  by (simp add: editor_ok_def folders_ok_def dataset_ok_def dataset_ids_def)

lemma sync_ok:
  assumes "forest_ok (folder_items s)" and "list_all is_folder (folder_items s)" and "dataset_ok s"
    and "set (dataset_ids s) \<subseteq> set (forest_leaves (folder_items s))"
  shows "editor_ok (syncFolders s)"
proof -
  let ?V = "set (filter (\<lambda>u. u \<noteq> []) (dataset_ids s))"
  have V: "?V = set (dataset_ids s)" using assms(3) by (auto simp: dataset_ok_def)
  note f = filter_folders_facts [OF assms(2), of ?V]
  show ?thesis
  proof (rule folders_okI)
    show "forest_ok (folder_items (syncFolders s))"
      using f by (auto simp: syncFolders_def intro: forest_ok_subset [OF _ assms(1)])
    show "list_all is_folder (folder_items (syncFolders s))" using f by (simp add: syncFolders_def)
    have "set (filter (\<lambda>u. u \<in> ?V) (forest_leaves (folder_items s))) = set (dataset_ids s)"
      unfolding V using assms(4) by auto
    with f show "set (forest_leaves (folder_items (syncFolders s))) = set (dataset_ids (syncFolders s))"
      by (simp add: syncFolders_def dataset_ids_def)
    show "dataset_ok (syncFolders s)" using assms(3) by (simp add: syncFolders_def dataset_ok_def dataset_ids_def)
  qed
qed

lemma leaf_for_ids [simp]: "ids \<circ> leaf_for ty = (\<lambda>m. [own_uuid m])" "leaves \<circ> leaf_for ty = (\<lambda>m. [own_uuid m])"
  by (auto simp: leaf_for_def)

lemma default_uuids_not_empty [simp]:
  "DEFAULT_METRICS_FOLDER_UUID \<noteq> []" "[] \<noteq> DEFAULT_METRICS_FOLDER_UUID"
  "DEFAULT_COLUMNS_FOLDER_UUID \<noteq> []" "[] \<noteq> DEFAULT_COLUMNS_FOLDER_UUID"
  by (simp_all add: DEFAULT_METRICS_FOLDER_UUID_def DEFAULT_COLUMNS_FOLDER_UUID_def)

lemma reset_ok:
  assumes "dataset_ok s"
  shows "forest_ok (resetToDefault t (ds_metrics s) (ds_columns s)) \<and>
    list_all is_folder (resetToDefault t (ds_metrics s) (ds_columns s)) \<and>
    forest_leaves (resetToDefault t (ds_metrics s) (ds_columns s)) = dataset_ids s"
proof -
  let ?ts = "resetToDefault t (ds_metrics s) (ds_columns s)"
  have "forest_ids ?ts = DEFAULT_METRICS_FOLDER_UUID # map own_uuid (ds_metrics s) @
      DEFAULT_COLUMNS_FOLDER_UUID # map own_uuid (ds_columns s)"
    by (simp add: resetToDefault_def)
  moreover have "forest_leaves ?ts = dataset_ids s" by (simp add: resetToDefault_def dataset_ids_def)
  moreover have "list_all is_folder ?ts" by (simp add: resetToDefault_def)
  ultimately show ?thesis using assms by (auto simp: forest_ok_def dataset_ok_def dataset_ids_def)
qed

lemma drop_ok:
  assumes "editor_ok s" and "case over of None \<Rightarrow> True
      | Some zone \<Rightarrow> target_of_drop_stays (computeFlattenedItems s) (fullFlattenedItems s) i zone (dragging s)"
    and "drop_step i over s = Inr (s', e)"
  shows "editor_ok s'"
proof -
  let ?run = "handleDragEnd (computeFlattenedItems s) (fullFlattenedItems s) i over (dragging s)"
  note ok = assms(1) [unfolded editor_ok_def folders_ok_def]
  from assms(3) obtain d out where run: "?run = Inr (d, out)"
    unfolding drop_step_def rbind_eq_Inr by auto
  have s': "s' = (case out of Dropped newTree api \<Rightarrow> s\<lparr>dragging := d, folder_items := newTree\<rparr> | _ \<Rightarrow> s\<lparr>dragging := d\<rparr>)"
    using assms(3) unfolding drop_step_def run by (auto split: drop_outcome.splits)
  show ?thesis
  proof (cases out)
    case (Dropped newTree api)
    have "over \<noteq> None"
    proof
      assume "over = None"
      with run Dropped show False by (auto simp: handleDragEnd_def Let_def refused_def split: if_splits option.splits)
    qed
    then obtain zone where zone: "over = Some zone" by blast
    with assms(2) have "target_of_drop_stays (computeFlattenedItems s) (flattenTree (folder_items s)) i zone (dragging s)"
      by (simp add: fullFlattenedItems_def)
    from handleDragEnd_keeps [OF conjunct1 [OF conjunct2 [OF ok]] this] run zone
    have keeps: "outcome_keeps (flattenTree (folder_items s)) out" by (auto simp: fullFlattenedItems_def)
    have top: "top_folders (flattenTree (folder_items s))"
    proof -
      have "editor_type x = FolderType" if "x \<in> set (flattenTree (folder_items s))" "parent_of x = None" for x
      proof -
        have "\<exists>t \<in> set (folder_items s). uuid x = uuid_of t"
        proof -
          have "uuid x \<in> set (map uuid (filter (\<lambda>x. parent_of x = None) (flattenTree (folder_items s))))" using that by auto
          with flatten_roots [of "folder_items s" 0 0] ok show ?thesis by (auto simp: flattenTree_def forest_ok_def)
        qed
        then obtain t where t: "t \<in> set (folder_items s)" "uuid x = uuid_of t" by blast
        from t(1) subs_flat [of t "folder_items s" None 0 0] self_sub obtain q j m where
          y: "flat_of t q j m \<in> set (flattenTree (folder_items s))" unfolding flattenTree_def by blast
        have "inj_on uuid (set (flattenTree (folder_items s)))"
          using flattenTree_linked ok by (auto simp: linked_def distinct_map)
        from inj_onD [OF this, of x "flat_of t q j m"] y that(1) t(2) have "x = flat_of t q j m" by simp
        moreover have "is_folder t" using t(1) ok by (simp add: list_all_iff)
        ultimately show ?thesis by (cases t) simp_all
      qed
      then show ?thesis by (simp add: top_folders_def)
    qed
    from keeps Dropped top have new: "mset (map payload (flattenTree newTree)) = mset (map payload (flattenTree (folder_items s)))"
      "list_all is_folder newTree" by (auto simp: outcome_keeps_def)
    have "set (forest_leaves newTree) = set (forest_leaves (folder_items s))"
      using payload_ids(2) [OF new(1)] by (rule mset_eq_setD)
    with s' Dropped new(2) forest_ok_mset [OF payload_ids(1) [OF new(1)]] ok show ?thesis
      by (intro folders_okI) (simp_all add: dataset_ids_def dataset_ok_def)
  qed (use s' in \<open>auto intro: editor_ok_cong [OF assms(1)]\<close>)
qed

lemma finish_edit_ok:
  assumes "editor_ok s" and "handleFinishEdit i new s = Inr (s', e)"
  shows "editor_ok s'"
proof (cases "trim new \<noteq> [] \<and> new \<noteq> i")
  case True
  note ok = assms(1) [unfolded editor_ok_def folders_ok_def]
  from renamed_tree [of "folder_items s" i new] ok
  have "buildTree (map (rename_item i new) (flattenTree (folder_items s))) =
      Inr (map (tidy \<circ> rename_tree i new) (folder_items s))" by blast
  with assms(2) True have s': "s' = s\<lparr>folder_items := map (tidy \<circ> rename_tree i new) (folder_items s), editingFolderId := None\<rparr>"
    by (simp add: handleFinishEdit_def)
  have "ids \<circ> (tidy \<circ> rename_tree i new) = ids" "leaves \<circ> (tidy \<circ> rename_tree i new) = leaves"
    "is_folder \<circ> (tidy \<circ> rename_tree i new) = is_folder" by auto
  with s' ok show ?thesis
    by (intro folders_okI) (simp_all add: dataset_ids_def dataset_ok_def forest_ok_def list.pred_map)
next
  case False
  with assms(2) have "s' = s\<lparr>editingFolderId := None\<rparr>" by (auto simp: handleFinishEdit_def)
  then show ?thesis by (intro editor_ok_cong [OF assms(1)]) simp_all
qed

lemma folders_step_ok:
  assumes "editor_ok s" and "folders_admissible a s" and "folders_step t a s = Inr (s', e)"
  shows "editor_ok s'"
proof -
  note ok = assms(1) [unfolded editor_ok_def folders_ok_def]
  note same = editor_ok_cong [OF assms(1)]
  show ?thesis
  proof (cases a)
    case (DatasetChanged ms cs)
    with assms(3) have "s' = syncFolders (s\<lparr>ds_metrics := ms, ds_columns := cs\<rparr>)" by simp
    moreover have "editor_ok (syncFolders (s\<lparr>ds_metrics := ms, ds_columns := cs\<rparr>))"
      by (rule sync_ok) (use ok assms(2) DatasetChanged in \<open>auto simp: dataset_ids_def\<close>)
    ultimately show ?thesis by simp
  next
    case (SearchFor seen wanted)
    with assms(3) have "s' = debouncedSearch seen wanted s" by simp
    then show ?thesis by (intro same) (auto simp: debouncedSearch_def Let_def split: option.split)
  next
    case (AddFolder fresh)
    with assms(3) have s': "s' = s\<lparr>folder_items := createFolder fresh [] # folder_items s, editingFolderId := Some fresh\<rparr>"
      by (simp add: handleAddFolder_def Let_def)
    show ?thesis
      by (rule folders_okI) (use s' ok assms(2) AddFolder in
        \<open>auto simp: forest_ok_def createFolder_def dataset_ids_def dataset_ok_def\<close>)
  next
    case SelectAll
    with assms(3) have "handleSelectAll s = Inr s'" by (auto simp: rbind_eq_Inr)
    then show ?thesis
      by (intro same) (auto simp: handleSelectAll_def Let_def rbind_eq_Inr split: if_splits)
  next
    case ConfirmReset
    with assms(3) have s': "s' = s\<lparr>folder_items := resetToDefault t (ds_metrics s) (ds_columns s), selectedItemIds := [],
        editingFolderId := None, showResetConfirm := False\<rparr>" by (simp add: handleConfirmReset_def Let_def)
    show ?thesis
      by (rule folders_okI) (use s' ok reset_ok [of s t] in \<open>auto simp: dataset_ids_def dataset_ok_def\<close>)
  next
    case (FinishEdit i new)
    with assms(3) finish_edit_ok [OF assms(1)] show ?thesis by simp
  next
    case (DragEnd i over)
    with assms(2) have "case over of None \<Rightarrow> True
        | Some zone \<Rightarrow> target_of_drop_stays (computeFlattenedItems s) (fullFlattenedItems s) i zone (dragging s)"
      by (cases over) simp_all
    from drop_ok [OF assms(1) this] assms(3) DragEnd show ?thesis by simp
  qed (use assms(3) in \<open>auto intro!: same simp: drag_step_def handleToggleCollapse_def handleSelect_def Let_def\<close>)
qed

text \<open>The editor as a reducer with this invariant.\<close>

definition folders_reducer :: "(string \<Rightarrow> string list \<Rightarrow> string) \<Rightarrow> folders_action \<Rightarrow> editor \<Rightarrow> editor result" where
  "folders_reducer t a s = rbind (folders_step t a s) (\<lambda>(s', e). Inr s')"

interpretation folder_editor: guarded_reducer "folders_reducer t" folders_admissible editor_ok for t
  by unfold_locales (auto simp: folders_reducer_def rbind_eq_Inr intro: folders_step_ok)

section \<open>The start\<close>

fun folder_ids :: "tree_item \<Rightarrow> string list" where
  "folder_ids (Folder u n d None) = [u]"
| "folder_ids (Folder u n d (Some cs)) = u # concat (map folder_ids cs)"
| "folder_ids (Leaf t u n) = []"

lemma ids_split: "set (ids t) = set (leaves t) \<union> set (folder_ids t)"
  by (induction t rule: leaves.induct) auto

lemma ids_assigned: "ids t = uuid_of t # collectAssignedIds t"
  by (induction t rule: ids.induct) (auto simp: comp_def cong: map_cong)

lemma forest_ids_assigned: "mset (forest_ids ts) = mset (map uuid_of ts) + mset (assigned ts)"
  by (induction ts) (auto simp: ids_assigned)

lemma enrich_folder_ids: "set (folder_ids (enrich_child ms cs x)) \<subseteq> set (folder_ids x)"
proof (induction ms cs x rule: enrich_child.induct)
  case (1 ms cs u n d ks)
  then show ?case by (auto simp: comp_def)
qed (auto simp: enrich_leaf_def leaf_for_def split: option.splits)

lemma with_children_folder_ids:
  assumes "\<And>ks. set (concat (map folder_ids (g ks))) \<subseteq> set (concat (map folder_ids ks))"
  shows "set (folder_ids (with_children g f)) \<subseteq> set (folder_ids f)"
proof (cases f rule: folder_ids.cases)
  case (1 u n d)
  with assms [of "[]"] show ?thesis by auto
next
  case (2 u n d cs)
  with assms [of cs] show ?thesis by auto
qed simp

lemma add_unassigned_folder_ids:
  "set (folder_ids (add_unassigned (map (leaf_for t1) xs) (map (leaf_for t2) ys) f)) \<subseteq> set (folder_ids f)"
proof -
  have "set (folder_ids (with_children (\<lambda>ks. ks @ map (leaf_for ty) zs) f)) \<subseteq> set (folder_ids f)" for ty zs
    by (rule with_children_folder_ids) (auto simp: leaf_for_def)
  then show ?thesis unfolding add_unassigned_def by auto
qed

lemma ensured_folder_ids:
  assumes "folders \<noteq> []"
  shows "set (concat (map folder_ids (ensureDefaultFolders t folders ms cs))) \<subseteq>
    set (concat (map folder_ids folders)) \<union> {DEFAULT_METRICS_FOLDER_UUID, DEFAULT_COLUMNS_FOLDER_UUID}"
proof -
  let ?E = "enrichFolderChildren folders ms cs"
  have E: "set (folder_ids (with_children (map (enrich_child ms cs)) f)) \<subseteq> set (folder_ids f)" for f
    by (rule with_children_folder_ids) (use enrich_folder_ids in fastforce)
  have "set (concat (map folder_ids ?E)) \<subseteq> set (concat (map folder_ids folders))"
    unfolding enrichFolderChildren_def using E by fastforce
  moreover define ms' where "ms' = filter (\<lambda>m. own_uuid m \<notin> set (assigned ?E)) ms"
  moreover define cs' where "cs' = filter (\<lambda>m. own_uuid m \<notin> set (assigned ?E)) cs"
  moreover define R where "R = map (add_unassigned (map (leaf_for MetricLeaf) ms') (map (leaf_for ColumnLeaf) cs')) ?E"
  moreover have "set (concat (map folder_ids R)) \<subseteq> set (concat (map folder_ids ?E))"
    unfolding R_def using add_unassigned_folder_ids [of MetricLeaf ms' ColumnLeaf cs'] by fastforce
  ultimately have R: "set (concat (map folder_ids R)) \<subseteq> set (concat (map folder_ids folders))" by blast
  have "ensureDefaultFolders t folders ms cs = R @
      (if list_ex (\<lambda>f. uuid_of f = DEFAULT_METRICS_FOLDER_UUID) ?E then []
       else [Folder DEFAULT_METRICS_FOLDER_UUID (Some (t ''Metrics'' [])) None (Some (map (leaf_for MetricLeaf) ms'))]) @
      (if list_ex (\<lambda>f. uuid_of f = DEFAULT_COLUMNS_FOLDER_UUID) ?E then []
       else [Folder DEFAULT_COLUMNS_FOLDER_UUID (Some (t ''Columns'' [])) None (Some (map (leaf_for ColumnLeaf) cs'))])"
    using assms unfolding ensureDefaultFolders_def Let_def unassigned_eq R_def ms'_def cs'_def by simp
  moreover have "folder_ids \<circ> leaf_for ty = (\<lambda>_. [])" for ty by (auto simp: leaf_for_def)
  ultimately show ?thesis using R by auto
qed

text \<open>What is stored and what the dataset has: no identifier is used twice, and the default folders are not inside others.\<close>

definition start_ok :: "tree_item list \<Rightarrow> editor \<Rightarrow> bool" where
  "start_ok folders s \<longleftrightarrow> dataset_ok s \<and> forest_ok folders \<and> list_all is_folder folders \<and>
     set (concat (map folder_ids folders)) \<inter> set (dataset_ids s) = {} \<and>
     DEFAULT_METRICS_FOLDER_UUID \<notin> set (assigned folders) \<and> DEFAULT_COLUMNS_FOLDER_UUID \<notin> set (assigned folders)"

lemma start_editor_ok:
  assumes "start_ok folders (init_editor t folders metrics columns)"
  shows "editor_ok (syncFolders (init_editor t folders metrics columns))"
proof -
  let ?s = "init_editor t folders metrics columns"
  let ?R = "ensureDefaultFolders t folders metrics columns"
  let ?D = "map own_uuid (metrics @ columns)"
  have s: "folder_items ?s = ?R" "dataset_ids ?s = ?D" "ds_metrics ?s = metrics" "ds_columns ?s = columns"
    by (simp_all add: init_editor_def dataset_ids_def)
  note a = assms [unfolded start_ok_def]
  have "forest_ok ?R \<and> list_all is_folder ?R \<and> set ?D \<subseteq> set (forest_leaves ?R)"
  proof (cases "folders = []")
    case True
    then have "?R = resetToDefault t metrics columns" by (simp add: ensureDefaultFolders_def)
    with reset_ok [of ?s t] a s show ?thesis by simp
  next
    case False
    have top: "distinct (map uuid_of folders)" "mset (forest_ids folders) = mset (map uuid_of folders) + mset (assigned folders)"
    proof -
      show m: "mset (forest_ids folders) = mset (map uuid_of folders) + mset (assigned folders)"
        by (rule forest_ids_assigned)
      then have "mset (map uuid_of folders) \<subseteq># mset (forest_ids folders)" by simp
      from distinct_of_subset [OF this] a show "distinct (map uuid_of folders)" by (simp add: forest_ok_def)
    qed
    let ?new = "filter (\<lambda>u. u \<notin> set (assigned folders)) ?D"
    let ?M = "if DEFAULT_METRICS_FOLDER_UUID \<in> uuid_of ` set folders then [] else [DEFAULT_METRICS_FOLDER_UUID]"
    let ?C = "if DEFAULT_COLUMNS_FOLDER_UUID \<in> uuid_of ` set folders then [] else [DEFAULT_COLUMNS_FOLDER_UUID]"
    have assigned: "mset (assigned ?R) = mset (assigned folders) + mset ?new"
      using ensureDefaultFolders_assigned [OF top(1) _ False refl] a by blast
    have "mset (forest_ids ?R) = mset (forest_ids folders @ ?M @ ?C @ ?new)"
      unfolding forest_ids_assigned [of ?R] ensureDefaultFolders_uuids [OF False] assigned
      by (simp add: top(2))
    moreover have "distinct (forest_ids folders @ ?M @ ?C @ ?new) \<and> [] \<notin> set (forest_ids folders @ ?M @ ?C @ ?new)"
    proof -
      have ids: "set (forest_ids folders) = uuid_of ` set folders \<union> set (assigned folders)"
        using top(2) by (metis set_mset_mset set_mset_union list.set_map)
      have folder: "uuid_of ` set folders \<subseteq> set (concat (map folder_ids folders))"
      proof
        fix u assume "u \<in> uuid_of ` set folders"
        then obtain f where f: "f \<in> set folders" "u = uuid_of f" by blast
        with a have "is_folder f" by (simp add: list_all_iff)
        then have "u \<in> set (folder_ids f)" unfolding f(2) by (cases f rule: folder_ids.cases) simp_all
        with f(1) show "u \<in> set (concat (map folder_ids folders))" by auto
      qed
      have apart: "\<forall>x \<in> set folders. \<forall>m \<in> set metrics \<union> set columns. uuid_of x \<noteq> own_uuid m"
      proof (intro ballI)
        fix x m assume "x \<in> set folders" "m \<in> set metrics \<union> set columns"
        then have "uuid_of x \<in> set (concat (map folder_ids folders))" "own_uuid m \<in> set ?D"
          using folder by auto
        with a s(2) show "uuid_of x \<noteq> own_uuid m" by (metis disjoint_iff)
      qed
      with a s ids show ?thesis by (auto simp: forest_ok_def dataset_ok_def)
    qed
    ultimately have ok: "forest_ok ?R"
      unfolding forest_ok_def by (metis mset_eq_imp_distinct_iff mset_eq_setD)
    have "list_all is_folder ?R"
    proof -
      have "is_folder (with_children g f) = is_folder f" for g f by (cases f) simp_all
      with a False show ?thesis
        by (auto simp: ensureDefaultFolders_def Let_def enrichFolderChildren_def list_all_iff add_unassigned_def)
    qed
    moreover have apart: "set (concat (map folder_ids folders)) \<inter> set ?D = {}"
        "DEFAULT_METRICS_FOLDER_UUID \<notin> set ?D" "DEFAULT_COLUMNS_FOLDER_UUID \<notin> set ?D"
      using a s(2) by (simp_all add: dataset_ok_def)
    moreover have "set ?D \<subseteq> set (forest_leaves ?R)"
    proof
      fix u assume u: "u \<in> set ?D"
      then have "u \<in> set (assigned folders) \<union> set ?new" by auto
      with assigned have "u \<in> set (assigned ?R)" by (metis set_mset_mset set_mset_union)
      then have "u \<in> set (forest_ids ?R)" using forest_ids_assigned [of ?R] by (metis UnCI set_mset_mset set_mset_union)
      moreover have "u \<notin> set (concat (map folder_ids ?R))"
        using ensured_folder_ids [OF False, of t metrics columns] apart u by blast
      ultimately show "u \<in> set (forest_leaves ?R)" using ids_split by fastforce
    qed
    ultimately show ?thesis using ok by blast
  qed
  then show ?thesis using a by (intro sync_ok) (simp_all add: s)
qed

section \<open>The editor loses nothing\<close>

text \<open>C35: Whatever the user does in the folders editor, every metric and column of the dataset stays in the folders, each
  in one place, nothing else is left in them, and none is outside of a folder: from the completed stored folders
  on, over every run of searches, selections, new folders, renamings, resets, drags and removals from the
  dataset, as long as no drop goes to a folder that is itself moved, new folders get unused identifiers and
  the dataset only loses metrics and columns.\<close>

theorem every_item_stays_in_one_folder:
  assumes "start_ok folders (init_editor t folders metrics columns)"
    and "s = syncFolders (init_editor t folders metrics columns)"
    and "run_ok folders_admissible (folders_reducer t) actions s"
    and "rfold (\<lambda>s a. folders_reducer t a s) s actions = Inr s'"
  shows "distinct (forest_leaves (folder_items s')) \<and> set (forest_leaves (folder_items s')) = set (dataset_ids s') \<and>
    list_all is_folder (folder_items s') \<and> forest_ok (folder_items s')"
proof -
  have "editor_ok s'"
    by (rule folder_editor.run_inv [OF assms(3) _ assms(4)]) (simp add: assms(2) start_editor_ok [OF assms(1)])
  then have ok: "forest_ok (folder_items s')" "list_all is_folder (folder_items s')"
    "set (forest_leaves (folder_items s')) = set (dataset_ids s')" by (simp_all add: editor_ok_def folders_ok_def)
  have "mset (forest_leaves ts) \<subseteq># mset (forest_ids ts)" for ts
  proof -
    have "mset (leaves t) \<subseteq># mset (ids t)" for t
    proof (induction t rule: leaves.induct)
      case (2 u n d cs)
      then have "mset (forest_leaves cs) \<subseteq># mset (forest_ids cs)"
        by (induction cs) (auto intro: subset_mset.add_mono)
      then show ?case by (auto intro: subset_mset.trans)
    qed simp_all
    then show ?thesis by (induction ts) (auto intro: subset_mset.add_mono)
  qed
  from distinct_of_subset [OF this] ok show ?thesis by (simp add: forest_ok_def)
qed

text \<open>An editor with two metrics: a new folder, renamed, gets one of them by dragging it there.\<close>

definition metric_item :: "string \<Rightarrow> dataset_item" where
  "metric_item u = \<lparr>own_uuid = u, own_name = Some u, verbose_name = None, expression = None\<rparr>"

definition small_editor :: editor where
  "small_editor = syncFolders (init_editor (\<lambda>s _. s) [] [metric_item ''m'', metric_item ''n''] [])"

definition small_run :: "folders_action list" where
  "small_run = [AddFolder ''f'', FinishEdit ''f'' ''Mine'', DragStart ''m'', DragOver (Some ''f-empty''),
     DragEnd ''m'' (Some ''f-empty''), ToggleCollapse ''f'', SelectAll]"

theorem every_item_stays_in_one_folder_witness:
  "\<exists>s'. rfold (\<lambda>s a. folders_reducer (\<lambda>s _. s) a s) small_editor small_run = Inr s' \<and>
    distinct (forest_leaves (folder_items s')) \<and> set (forest_leaves (folder_items s')) = {''m'', ''n''}"
proof -
  have start: "start_ok [] (init_editor (\<lambda>s _. s) [] [metric_item ''m'', metric_item ''n''] [])" by code_simp
  have ok: "run_ok folders_admissible (folders_reducer (\<lambda>s _. s)) small_run small_editor" by code_simp
  obtain s' where s': "rfold (\<lambda>s a. folders_reducer (\<lambda>s _. s) a s) small_editor small_run = Inr s'"
      "dataset_ids s' = [''m'', ''n'']"
  proof -
    have "case rfold (\<lambda>s a. folders_reducer (\<lambda>s _. s) a s) small_editor small_run of
        Inl e \<Rightarrow> False | Inr s' \<Rightarrow> dataset_ids s' = [''m'', ''n'']" by code_simp
    with that show ?thesis by (auto split: sum.splits)
  qed
  from every_item_stays_in_one_folder [OF start small_editor_def ok s'(1)] s' show ?thesis by auto
qed

section \<open>Storing and opening again\<close>

text \<open>The folders that hold something.\<close>

fun prune :: "tree_item list \<Rightarrow> tree_item list" where
  "prune [] = []"
| "prune (Folder u n d None # rest) = prune rest"
| "prune (Folder u n d (Some cs) # rest) =
     (if prune cs = [] then prune rest else Folder u n d (Some (prune cs)) # prune rest)"
| "prune (Leaf t u n # rest) = Leaf t u n # prune rest"

text \<open>The items of a tree have the kinds and names that the dataset has for them.\<close>

definition leaf_known :: "dataset_item list \<Rightarrow> dataset_item list \<Rightarrow> tree_item \<Rightarrow> bool" where
  "leaf_known metrics columns x \<longleftrightarrow>
     (\<exists>m \<in> set metrics. x = leaf_for MetricLeaf m) \<or> (\<exists>c \<in> set columns. x = leaf_for ColumnLeaf c)"

fun known :: "dataset_item list \<Rightarrow> dataset_item list \<Rightarrow> tree_item \<Rightarrow> bool" where
  "known metrics columns (Folder u n d None) = False"
| "known metrics columns (Folder u n d (Some cs)) = list_all (known metrics columns) cs"
| "known metrics columns (Leaf t u n) = leaf_known metrics columns (Leaf t u n)"

lemma by_uuid_get:
  "distinct (map own_uuid items) \<Longrightarrow> m \<in> set items \<Longrightarrow> obj_get (by_uuid items) (own_uuid m) = Some m"
  unfolding by_uuid_def by (rule od.get_foldl_put_map) simp_all

lemma by_uuid_absent: "u \<notin> own_uuid ` set items \<Longrightarrow> obj_get (by_uuid items) u = None"
  unfolding by_uuid_def by (simp add: od.get_foldl_put_notin)

lemma enrich_stored_leaf:
  assumes "distinct (map own_uuid (metrics @ columns))" and "leaf_known metrics columns (Leaf ty u n)"
  shows "enrich_leaf metrics columns (Leaf ty u None) = Leaf ty u n"
  using assms(2) unfolding leaf_known_def
proof (elim disjE bexE)
  fix m assume m: "m \<in> set metrics" "Leaf ty u n = leaf_for MetricLeaf m"
  with by_uuid_get [OF _ m(1)] assms(1) show ?thesis
    by (simp add: enrich_leaf_def leaf_for_def or_blank_def)
next
  fix c assume c: "c \<in> set columns" "Leaf ty u n = leaf_for ColumnLeaf c"
  then have u: "u = own_uuid c" by (simp add: leaf_for_def)
  have "own_uuid c \<notin> own_uuid ` set metrics" using assms(1) c(1) by auto
  with by_uuid_get [OF _ c(1)] by_uuid_absent [of u metrics] assms(1) c(2) u show ?thesis
    by (simp add: enrich_leaf_def leaf_for_def or_blank_def)
qed

lemma enrich_stored:
  assumes "distinct (map own_uuid (metrics @ columns))"
  shows "list_all (known metrics columns) ts \<Longrightarrow>
    map (enrich_child metrics columns) (serialize_children ts) = prune ts"
proof (induction ts rule: serialize_children.induct)
  case (2 u n d cs rest)
  then show ?case by (auto simp: Let_def)
next
  case (4 t u n rest)
  then show ?case using enrich_stored_leaf [OF assms, of t u n] by simp
qed simp_all

lemma enrich_stored_top:
  assumes "distinct (map own_uuid (metrics @ columns))"
  shows "list_all is_folder ts \<Longrightarrow> list_all (known metrics columns) ts \<Longrightarrow>
    enrichFolderChildren (serializeForAPI ts) metrics columns = prune ts"
proof (induction ts rule: serializeForAPI.induct)
  case (2 u n d cs rest)
  then obtain ks where cs: "cs = Some ks" by (cases cs) auto
  with 2 have "map (enrich_child metrics columns) (serialize_children ks) = prune ks"
    by (intro enrich_stored [OF assms]) simp
  moreover from this have "serialize_children ks = [] \<longleftrightarrow> prune ks = []" by (metis map_is_Nil_conv)
  ultimately show ?case using 2 cs by (auto simp: enrichFolderChildren_def Let_def)
qed (simp_all add: enrichFolderChildren_def)

lemma leaves_prune: "forest_leaves (prune ts) = forest_leaves ts"
proof (induction ts rule: prune.induct)
  case (3 u n d cs rest)
  then show ?case by (cases "prune cs = []") auto
qed simp_all

lemma prune_folders: "list_all is_folder ts \<Longrightarrow> list_all is_folder (prune ts)"
  by (induction ts rule: prune.induct) auto

text \<open>C34: Opening the folders again after they were stored gives the same folders, with the same items in
  the same order under the names and kinds of the dataset: only folders that hold nothing are gone, and of the
  default folders empty ones are added when they are missing. This is for folders that hold exactly
  the metrics and columns of the dataset, as they do after every run of the editor.\<close>

theorem stored_folders_are_found_again:
  assumes "list_all is_folder ts" and "list_all (known metrics columns) ts"
    and "distinct (map own_uuid (metrics @ columns))"
    and "set (forest_leaves ts) = set (map own_uuid (metrics @ columns))" and "metrics @ columns \<noteq> []"
  shows "ensureDefaultFolders t (serializeForAPI ts) metrics columns = prune ts @
    (if DEFAULT_METRICS_FOLDER_UUID \<in> uuid_of ` set (prune ts) then []
     else [Folder DEFAULT_METRICS_FOLDER_UUID (Some (t ''Metrics'' [])) None (Some [])]) @
    (if DEFAULT_COLUMNS_FOLDER_UUID \<in> uuid_of ` set (prune ts) then []
     else [Folder DEFAULT_COLUMNS_FOLDER_UUID (Some (t ''Columns'' [])) None (Some [])])"
proof -
  have E: "enrichFolderChildren (serializeForAPI ts) metrics columns = prune ts"
    by (rule enrich_stored_top [OF assms(3,1,2)])
  have "forest_leaves (prune ts) \<noteq> []"
    unfolding leaves_prune using assms(4,5) by (metis list.set(1) map_is_Nil_conv set_empty)
  then have "serializeForAPI ts \<noteq> []" using E by (auto simp: enrichFolderChildren_def)
  moreover have "filter (\<lambda>m. own_uuid m \<notin> set (assigned (prune ts))) items = []" if "set items \<subseteq> set (metrics @ columns)" for items
  proof -
    have "u \<in> set (assigned (prune ts))" if u: "u \<in> set (forest_leaves (prune ts))" for u
    proof -
      from u obtain f where f: "f \<in> set (prune ts)" "u \<in> set (leaves f)" by auto
      with prune_folders [OF assms(1)] have "is_folder f" by (simp add: list_all_iff)
      with f(2) have "u \<in> set (collectAssignedIds f)"
      proof (cases f rule: leaves.cases)
        case (2 v n d cs)
        with f(2) obtain c where "c \<in> set cs" "u \<in> set (ids c)" using leaves_subset by fastforce
        with 2 show ?thesis by (auto simp: ids_assigned)
      qed simp_all
      with f(1) show ?thesis by auto
    qed
    with assms(4) that show ?thesis by (auto simp: leaves_prune filter_empty_conv simp flip: assms(4))
  qed
  then have "unassigned ty (prune ts) items = []" if "set items \<subseteq> set (metrics @ columns)" for ty items
    using that by (simp add: unassigned_eq)
  moreover have "map (add_unassigned [] []) fs = fs" for fs by (induction fs) (simp_all add: add_unassigned_def)
  moreover have "list_ex (\<lambda>f. uuid_of f = u) fs \<longleftrightarrow> u \<in> uuid_of ` set fs" for u fs by (auto simp: list_ex_iff)
  ultimately show ?thesis unfolding ensureDefaultFolders_def Let_def E by simp
qed

theorem stored_folders_are_found_again_witness:
  "ensureDefaultFolders (\<lambda>s _. s)
     (serializeForAPI
       [Folder ''f'' (Some ''Mine'') None
          (Some [Folder ''g'' None None (Some []), Leaf MetricLeaf ''m'' (Some ''m'')]),
        Folder DEFAULT_METRICS_FOLDER_UUID (Some ''Metrics'') None (Some [Leaf MetricLeaf ''n'' (Some ''n'')])])
     [metric_item ''m'', metric_item ''n''] [] =
   [Folder ''f'' (Some ''Mine'') None (Some [Leaf MetricLeaf ''m'' (Some ''m'')]),
    Folder DEFAULT_METRICS_FOLDER_UUID (Some ''Metrics'') None (Some [Leaf MetricLeaf ''n'' (Some ''n'')]),
    Folder DEFAULT_COLUMNS_FOLDER_UUID (Some ''Columns'') None (Some [])]"
proof -
  let ?ts = "[Folder ''f'' (Some ''Mine'') None
          (Some [Folder ''g'' None None (Some []), Leaf MetricLeaf ''m'' (Some ''m'')]),
        Folder DEFAULT_METRICS_FOLDER_UUID (Some ''Metrics'') None (Some [Leaf MetricLeaf ''n'' (Some ''n'')])]"
  let ?ms = "[metric_item ''m'', metric_item ''n'']"
  have "list_all is_folder ?ts" "list_all (known ?ms []) ?ts" "distinct (map own_uuid (?ms @ []))"
    "set (forest_leaves ?ts) = set (map own_uuid (?ms @ []))" "?ms @ [] \<noteq> []"
    by (simp_all add: leaf_known_def leaf_for_def metric_item_def or_blank_def)
  from stored_folders_are_found_again [OF this, of "\<lambda>s _. s"] show ?thesis
    by (simp add: DEFAULT_METRICS_FOLDER_UUID_def DEFAULT_COLUMNS_FOLDER_UUID_def)
qed

section \<open>An example of a search\<close>

text \<open>A search for the name of a folder shows the folder with all it holds when it is at the top, and
  empty when it is inside another one.\<close>

definition nested_sales :: "tree_item list \<Rightarrow> editor" where
  "nested_sales ts = (init_editor (\<lambda>s _. s) ts [metric_item ''m''] [])\<lparr>folder_items := ts, searchTerm := ''sales''\<rparr>"

theorem searching_a_nested_folder_shows_it_empty:
  "map uuid (computeFlattenedItems
     (nested_sales [Folder ''g'' (Some ''Sales'') None (Some [Leaf MetricLeaf ''m'' (Some ''m'')])]) None) = [''g'', ''m''] \<and>
   map uuid (computeFlattenedItems
     (nested_sales [Folder ''f'' (Some ''Mine'') None
        (Some [Folder ''g'' (Some ''Sales'') None (Some [Leaf MetricLeaf ''m'' (Some ''m'')])])]) None) = [''f'', ''g'']"
  by code_simp

end
