(* ===== verification/ExtraFormData.thy ===== *)
theory ExtraFormData
  imports DataMask FilterScopes
begin

text \<open>
  What the dashboard filters add to the query of a chart
  (\<open>dashboard/components/nativeFilters/utils.ts\<close>): the extra form data of several data masks
  merged into one, the targets of a filter and the grouping of filters by target. The keys whose
  values are appended and those whose values override each other are the constants of
  \<open>superset-ui-core/src/query/constants.ts\<close>. A field that TypeScript types as an array or a string
  is read as one; \<open>JSON.stringify\<close> is written out for the values of the model.
\<close>

named_theorems extra_simps

section \<open>JSON.stringify\<close>

definition hex_digit :: "nat \<Rightarrow> char" where
  "hex_digit n = (if n < 10 then char_of (48 + n) else char_of (87 + n))"

definition json_char :: "char \<Rightarrow> string" where
  "json_char c =
     (let n = (of_char c :: nat)
      in if c = CHR 0x22 then [CHR 0x5C, CHR 0x22]
         else if c = CHR 0x5C then [CHR 0x5C, CHR 0x5C]
         else if n = 8 then CHR 0x5C # ''b''
         else if n = 9 then CHR 0x5C # ''t''
         else if n = 10 then CHR 0x5C # ''n''
         else if n = 12 then CHR 0x5C # ''f''
         else if n = 13 then CHR 0x5C # ''r''
         else if n < 32 then CHR 0x5C # ''u00'' @ [hex_digit (n div 16), hex_digit (n mod 16)]
         else [c])"

definition json_quote :: "string \<Rightarrow> string" where
  "json_quote s = CHR 0x22 # concat (map json_char s) @ [CHR 0x22]"

text \<open>An \<open>undefined\<close> element of an array is \<open>null\<close>, an \<open>undefined\<close> property is left out.\<close>

fun json_string :: "jsval \<Rightarrow> string"
  and json_elements :: "jsval list \<Rightarrow> string list"
  and json_fields :: "jsobj \<Rightarrow> string list" where
  "json_string JUndef = ''null''"
| "json_string JNull = ''null''"
| "json_string (JBool b) = (if b then ''true'' else ''false'')"
| "json_string (JNum n) = int_string n"
| "json_string (JStr s) = json_quote s"
| "json_string (JArr xs) = ''['' @ comma_join (json_elements xs) @ '']''"
| "json_string (JObj ob) = ''{'' @ comma_join (json_fields ob) @ ''}''"
| "json_elements [] = []"
| "json_elements (x # xs) = json_string x # json_elements xs"
| "json_fields [] = []"
| "json_fields ((k, v) # ob) =
     (if v = JUndef then json_fields ob
      else (json_quote k @ '':'' @ json_string v) # json_fields ob)"

section \<open>The order of the keys of an object\<close>

text \<open>
  \<open>Object.keys\<close>, \<open>Object.values\<close> and \<open>Object.entries\<close> list the keys that are array indices first,
  in ascending order, then the others in the order of their insertion. Data masks are stored under
  the ids of filters and of charts, and the latter are such numbers.
\<close>

definition is_index :: "string \<Rightarrow> bool" where
  "is_index s \<longleftrightarrow> s \<noteq> [] \<and> list_all is_digit s \<and> (hd s \<noteq> CHR ''0'' \<or> length s = 1) \<and>
     digits_val s < 4294967295"

definition js_order :: "(string, 'v) obj \<Rightarrow> (string, 'v) obj" where
  "js_order ob =
     sort_key (\<lambda>(k, v). digits_val k) (filter (\<lambda>(k, v). is_index k) ob) @
     filter (\<lambda>(k, v). \<not> is_index k) ob"

section \<open>Merging extra form data\<close>

definition EXTRA_FORM_DATA_OVERRIDE_EXTRA_KEYS :: "string list" where
  "EXTRA_FORM_DATA_OVERRIDE_EXTRA_KEYS = [''relative_start'', ''relative_end'', ''time_grain_sqla'']"

definition EXTRA_FORM_DATA_APPEND_KEYS :: "string list" where
  "EXTRA_FORM_DATA_APPEND_KEYS =
     [''adhoc_filters'', ''filters'', ''interactive_groupby'', ''interactive_highlight'',
      ''interactive_drilldown'', ''custom_form_data'']"

definition EXTRA_FORM_DATA_OVERRIDE_REGULAR_MAPPINGS :: "(string, string) obj" where
  "EXTRA_FORM_DATA_OVERRIDE_REGULAR_MAPPINGS =
     [(''granularity'', ''granularity''), (''granularity_sqla'', ''granularity''),
      (''time_column'', ''time_column''), (''time_grain'', ''time_grain''),
      (''time_range'', ''time_range''), (''time_compare'', ''time_compare''),
      (''visible_deckgl_layers'', ''visible_deckgl_layers'')]"

definition EXTRA_FORM_DATA_OVERRIDE_REGULAR_KEYS :: "string list" where
  "EXTRA_FORM_DATA_OVERRIDE_REGULAR_KEYS = obj_keys EXTRA_FORM_DATA_OVERRIDE_REGULAR_MAPPINGS"

definition EXTRA_FORM_DATA_OVERRIDE_KEYS :: "string list" where
  "EXTRA_FORM_DATA_OVERRIDE_KEYS =
     EXTRA_FORM_DATA_OVERRIDE_REGULAR_KEYS @ EXTRA_FORM_DATA_OVERRIDE_EXTRA_KEYS"

text \<open>\<open>isIterable(v) ? v : []\<close>, spread into an array: strings are iterable, objects are not.\<close>

definition spread_iterable :: "jsval \<Rightarrow> jsval list" where
  "spread_iterable v = (case v of JArr xs \<Rightarrow> xs | JStr s \<Rightarrow> map (\<lambda>c. JStr [c]) s | _ \<Rightarrow> [])"

definition append_key :: "jsobj \<Rightarrow> jsobj \<Rightarrow> jsobj \<Rightarrow> string \<Rightarrow> jsobj" where
  "append_key originalExtra newExtra mergedExtra key =
     (let mergedValues = spread_iterable (jget originalExtra key) @ spread_iterable (jget newExtra key)
      in if mergedValues \<noteq> [] then obj_set key (JArr mergedValues) mergedExtra else mergedExtra)"

definition override_key :: "jsobj \<Rightarrow> jsobj \<Rightarrow> jsobj \<Rightarrow> string \<Rightarrow> jsobj" where
  "override_key originalExtra newExtra mergedExtra key =
     (let m = (if jget originalExtra key \<noteq> JUndef
               then obj_set key (jget originalExtra key) mergedExtra else mergedExtra)
      in if jget newExtra key \<noteq> JUndef then obj_set key (jget newExtra key) m else m)"

definition mergeExtraFormData :: "jsobj \<Rightarrow> jsobj \<Rightarrow> jsobj" where
  "mergeExtraFormData originalExtra newExtra =
     foldl (override_key originalExtra newExtra)
       (foldl (append_key originalExtra newExtra) [] EXTRA_FORM_DATA_APPEND_KEYS)
       EXTRA_FORM_DATA_OVERRIDE_KEYS"

text \<open>\<open>dataMask[key]?.extraFormData\<close>.\<close>

definition mask_extra :: "masks \<Rightarrow> string \<Rightarrow> jsval" where
  "mask_extra dataMask key =
     (case obj_get dataMask key of None \<Rightarrow> JUndef | Some m \<Rightarrow> jget m ''extraFormData'')"

definition getExtraFormData :: "masks \<Rightarrow> string list \<Rightarrow> jsobj" where
  "getExtraFormData dataMask filterIdsAppliedOnChart =
     foldl (\<lambda>extraFormData key.
              mergeExtraFormData extraFormData
                (entries_of (js_coalesce (mask_extra dataMask key) (JObj []))))
       [] filterIdsAppliedOnChart"

section \<open>Gates and display\<close>

definition nativeFilterGate :: "string list \<Rightarrow> bool" where
  "nativeFilterGate behaviors =
     (''NATIVE_FILTER'' \<notin> set behaviors \<or> ''INTERACTIVE_CHART'' \<in> set behaviors)"

text \<open>\<open>unknown\<close> is the translation of the text for other values.\<close>

definition getFilterValueForDisplay :: "string \<Rightarrow> jsval \<Rightarrow> string" where
  "getFilterValueForDisplay unknown v =
     (case v of
        JNull \<Rightarrow> []
      | JUndef \<Rightarrow> []
      | JStr s \<Rightarrow> s
      | JNum n \<Rightarrow> int_string n
      | JArr xs \<Rightarrow> join_values xs
      | JObj ob \<Rightarrow> json_string (JObj ob)
      | _ \<Rightarrow> unknown)"

text \<open>
  The form data with which a filter asks for its values. The configuration of the backend
  (\<open>conf\<close>, the default row limit) and the parameters of the URL are arguments.
\<close>

definition getDefaultRowLimit :: "jsval \<Rightarrow> jsval" where
  "getDefaultRowLimit conf = js_or conf (JNum 1000)"

definition getFormData :: "jsval \<Rightarrow> jsval \<Rightarrow> jsobj \<Rightarrow> jsobj" where
  "getFormData conf urlParams f =
     (let otherProps =
            obj_when (truthy (jget f ''datasetId''))
              [(''datasource'', JStr (key_of (jget f ''datasetId'') @ ''__table''))] @
            obj_when (truthy (jget f ''groupby'')) [(''groupby'', JArr [jget f ''groupby''])] @
            obj_when (truthy (jget f ''sortMetric'')) [(''sortMetric'', jget f ''sortMetric'')];
          dependencies = (if jget f ''dependencies'' = JUndef then JObj [] else jget f ''dependencies'')
      in obj_spread (obj_spread (obj_spread [] (entries_of (jget f ''controlValues''))) otherProps)
           [(''adhoc_filters'', js_coalesce (jget f ''adhoc_filters'') (JArr [])),
            (''extra_filters'', JArr []),
            (''extra_form_data'', dependencies),
            (''granularity_sqla'', jget f ''granularity_sqla''),
            (''metrics'', JArr [JStr ''count'']),
            (''row_limit'', getDefaultRowLimit conf),
            (''showSearch'', JBool True),
            (''defaultValue'', chain (chain (jget f ''defaultDataMask'') ''filterState'') ''value''),
            (''time_range'', jget f ''time_range''),
            (''url_params'', urlParams),
            (''inView'', JBool True),
            (''viz_type'', jget f ''filterType''),
            (''type'', jget f ''type''),
            (''dashboardId'', jget f ''dashboardId''),
            (''native_filter_id'', jget f ''id'')])"

section \<open>Targets of a filter\<close>

datatype filter_target = CHART_TARGET string | LAYER_TARGET string string

text \<open>The expressions \<open>/^chart-(\d+)-layer-(\d+)$/\<close> and \<open>/^chart-(\d+)$/\<close> with their groups.\<close>

definition layer_key_groups :: "string \<Rightarrow> (string \<times> string) option" where
  "layer_key_groups s =
     (if \<not> starts_with ''chart-'' s then None
      else (let r = drop 6 s; ds = takeWhile is_digit r; q = dropWhile is_digit r; l = drop 7 q
            in if ds \<noteq> [] \<and> starts_with ''-layer-'' q \<and> l \<noteq> [] \<and> list_all is_digit l
               then Some (ds, l) else None))"

definition chart_key_group :: "string \<Rightarrow> string option" where
  "chart_key_group s =
     (if starts_with ''chart-'' s \<and> drop 6 s \<noteq> [] \<and> list_all is_digit (drop 6 s)
      then Some (drop 6 s) else None)"

definition parseFilterTarget :: "string \<Rightarrow> filter_target option" where
  "parseFilterTarget scopeKey =
     (case layer_key_groups scopeKey of
        Some (c, l) \<Rightarrow> Some (LAYER_TARGET c l)
      | None \<Rightarrow> map_option CHART_TARGET (chart_key_group scopeKey))"

definition getFilterScope :: "string \<Rightarrow> (string, string list) obj \<Rightarrow> filter_target list" where
  "getFilterScope filterId filterScopes =
     List.map_filter parseFilterTarget
       (case obj_get filterScopes filterId of None \<Rightarrow> [] | Some ks \<Rightarrow> ks)"

text \<open>The loops below skip a mask without extra form data.\<close>

definition merge_mask :: "masks \<Rightarrow> jsobj \<Rightarrow> string \<Rightarrow> jsobj" where
  "merge_mask dataMask acc filterId =
     (if truthy (mask_extra dataMask filterId)
      then mergeExtraFormData acc (entries_of (mask_extra dataMask filterId)) else acc)"

definition aggregateFiltersForTarget :: "masks \<Rightarrow> string list \<Rightarrow> jsobj" where
  "aggregateFiltersForTarget dataMask filterIds = foldl (merge_mask dataMask) [] filterIds"

fun createTargetKey :: "filter_target \<Rightarrow> string" where
  "createTargetKey (LAYER_TARGET c l) = c @ ''-'' @ l"
| "createTargetKey (CHART_TARGET c) = c"

record target_filters =
  chartFilters :: "(string, jsobj) obj"
  layerFilters :: "(string, jsobj) obj"

definition merge_at :: "string \<Rightarrow> jsobj \<Rightarrow> (string, jsobj) obj \<Rightarrow> (string, jsobj) obj" where
  "merge_at key data m =
     obj_set key (mergeExtraFormData (case obj_get m key of None \<Rightarrow> [] | Some e \<Rightarrow> e) data) m"

definition add_target :: "masks \<Rightarrow> string \<Rightarrow> target_filters \<Rightarrow> filter_target \<Rightarrow> target_filters" where
  "add_target dataMask filterId g target =
     (let filterData = entries_of (js_or (mask_extra dataMask filterId) (JObj []));
          targetKey = createTargetKey target
      in case target of
           CHART_TARGET c \<Rightarrow> g\<lparr>chartFilters := merge_at targetKey filterData (chartFilters g)\<rparr>
         | LAYER_TARGET c l \<Rightarrow> g\<lparr>layerFilters := merge_at targetKey filterData (layerFilters g)\<rparr>)"

definition groupFiltersByTarget :: "masks \<Rightarrow> (string, string list) obj \<Rightarrow> target_filters" where
  "groupFiltersByTarget dataMask filterScopes =
     foldl (\<lambda>g filterId. foldl (add_target dataMask filterId) g (getFilterScope filterId filterScopes))
       \<lparr>chartFilters = [], layerFilters = []\<rparr>
       (obj_keys (js_order dataMask))"

text \<open>A filter with its id and its \<open>chartsInScope\<close>, when it has them.\<close>

definition buildFilterScopesFromFilters ::
    "(string, string \<times> int list option) obj \<Rightarrow> (string, string list) obj" where
  "buildFilterScopesFromFilters filters =
     foldl (\<lambda>scopes (i, charts).
              case charts of
                None \<Rightarrow> scopes
              | Some cs \<Rightarrow> obj_set i (map (\<lambda>c. ''chart-'' @ int_string c) cs) scopes)
       [] (obj_values (js_order filters))"

definition getLayerSpecificExtraFormData ::
    "masks \<Rightarrow> string list \<Rightarrow> int \<Rightarrow> string option \<Rightarrow> jsobj" where
  "getLayerSpecificExtraFormData dataMask filterIds chartId layerId =
     (let extraFormData = foldl (merge_mask dataMask) [] filterIds
      in case layerId of
           Some (c # cs) \<Rightarrow> merge_mask dataMask extraFormData (int_string chartId @ ''-'' @ c # cs)
         | _ \<Rightarrow> extraFormData)"

section \<open>The interface of a merge\<close>

text \<open>
  A merge is associative and its results are settled: merging nothing into them changes nothing.
  Then merging a sequence of values step by step is the merge of the merges of its parts.
\<close>

locale merging =
  fixes mrg :: "'a \<Rightarrow> 'a \<Rightarrow> 'a" and none :: 'a
  assumes assoc: "mrg (mrg a b) c = mrg a (mrg b c)"
    and settled: "mrg (mrg a b) none = mrg a b"
    and none_settled: "mrg none none = none"
begin

lemma mrg_none: "mrg a none = a \<Longrightarrow> mrg a (mrg none b) = mrg a b"
  by (simp add: assoc [symmetric])

lemma fold_settled: "mrg a none = a \<Longrightarrow> mrg (foldl mrg a xs) none = foldl mrg a xs"
  by (induction xs arbitrary: a) (simp_all add: settled)

lemma fold_from: "mrg a none = a \<Longrightarrow> foldl mrg a xs = mrg a (foldl mrg none xs)"
proof (induction xs arbitrary: a)
  case Nil
  then show ?case by simp
next
  case (Cons x xs)
  have "foldl mrg (mrg a x) xs = mrg (mrg a x) (foldl mrg none xs)"
    by (rule Cons.IH) (rule settled)
  moreover have "foldl mrg (mrg none x) xs = mrg (mrg none x) (foldl mrg none xs)"
    by (rule Cons.IH) (rule settled)
  moreover have "mrg a (mrg none x) = mrg a x" using Cons.prems by (rule mrg_none)
  ultimately show ?case by (simp add: assoc [symmetric])
qed

lemma fold_append: "foldl mrg none (xs @ ys) = mrg (foldl mrg none xs) (foldl mrg none ys)"
  by (simp add: fold_from [OF fold_settled [OF none_settled]])

lemma fold_skip: "foldl mrg none (xs @ none # ys) = foldl mrg none (xs @ ys)"
  by (simp add: fold_settled [OF none_settled])

end

section \<open>What a merge holds\<close>

definition canon :: "(string \<Rightarrow> jsval) \<Rightarrow> string list \<Rightarrow> jsobj" where
  "canon f ks = List.map_filter (\<lambda>k. if f k = JUndef then None else Some (k, f k)) ks"

definition array_or_undef :: "jsval list \<Rightarrow> jsval" where
  "array_or_undef vs = (if vs = [] then JUndef else JArr vs)"

definition merged_value :: "jsobj \<Rightarrow> jsobj \<Rightarrow> string \<Rightarrow> jsval" where
  "merged_value a b k =
     (if k \<in> set EXTRA_FORM_DATA_APPEND_KEYS
      then array_or_undef (spread_iterable (jget a k) @ spread_iterable (jget b k))
      else if jget b k \<noteq> JUndef then jget b k else jget a k)"

lemmas extra_keys = EXTRA_FORM_DATA_APPEND_KEYS_def EXTRA_FORM_DATA_OVERRIDE_KEYS_def
  EXTRA_FORM_DATA_OVERRIDE_REGULAR_KEYS_def EXTRA_FORM_DATA_OVERRIDE_REGULAR_MAPPINGS_def
  EXTRA_FORM_DATA_OVERRIDE_EXTRA_KEYS_def obj_keys_def

lemma distinct_extra_keys: "distinct (EXTRA_FORM_DATA_APPEND_KEYS @ EXTRA_FORM_DATA_OVERRIDE_KEYS)"
  by (simp add: extra_keys)

lemma extra_keys_apart: "k \<in> set EXTRA_FORM_DATA_OVERRIDE_KEYS \<Longrightarrow> k \<notin> set EXTRA_FORM_DATA_APPEND_KEYS"
  using distinct_extra_keys by auto

lemma canon_Nil [simp]: "canon f [] = []"
  by (simp add: canon_def List.map_filter_def)

lemma canon_Cons: "canon f (k # ks) = (if f k = JUndef then canon f ks else (k, f k) # canon f ks)"
  by (simp add: canon_def List.map_filter_def)

lemma canon_cong: "(\<And>k. k \<in> set ks \<Longrightarrow> f k = g k) \<Longrightarrow> canon f ks = canon g ks"
  by (induction ks) (simp_all add: canon_Cons)

lemma canon_append: "canon f (ks @ ls) = canon f ks @ canon f ls"
  by (simp add: canon_def List.map_filter_def)

lemma canon_keys: "fst ` set (canon f ks) \<subseteq> set ks"
  by (induction ks) (auto simp: canon_Cons)

lemma jget_canon: "jget (canon f ks) k = (if k \<in> set ks then f k else JUndef)"
  by (induction ks) (auto simp: canon_Cons)

lemma obj_set_new: "k \<notin> fst ` set ob \<Longrightarrow> obj_set k v ob = ob @ [(k, v)]"
  by (induction ob) auto

lemma obj_set_twice: "obj_set k v (obj_set k u ob) = obj_set k v ob"
  by (induction ob) auto

text \<open>A loop that stores each key at most once builds the normal form.\<close>

lemma foldl_canon:
  assumes step: "\<And>acc k. k \<in> set ks \<Longrightarrow> step acc k = (if f k = JUndef then acc else obj_set k (f k) acc)"
    and "distinct ks" and "set ks \<inter> fst ` set acc = {}"
  shows "foldl step acc ks = acc @ canon f ks"
  using assms
proof (induction ks arbitrary: acc)
  case Nil
  then show ?case by simp
next
  case (Cons k ks)
  have k: "k \<notin> fst ` set acc" using Cons.prems(3) by simp
  have st: "step acc k = acc @ canon f [k]"
    using Cons.prems(1) [of k acc] k by (simp add: canon_Cons obj_set_new)
  have "foldl step (acc @ canon f [k]) ks = (acc @ canon f [k]) @ canon f ks"
  proof (rule Cons.IH)
    show "\<And>acc j. j \<in> set ks \<Longrightarrow> step acc j = (if f j = JUndef then acc else obj_set j (f j) acc)"
      using Cons.prems(1) by simp
    show "distinct ks" using Cons.prems(2) by simp
    show "set ks \<inter> fst ` set (acc @ canon f [k]) = {}"
      using Cons.prems(2,3) by (auto simp: canon_Cons)
  qed
  then show ?case using st canon_append [of f "[k]" ks] by simp
qed

lemma merge_canon:
  "mergeExtraFormData a b =
     canon (merged_value a b) (EXTRA_FORM_DATA_APPEND_KEYS @ EXTRA_FORM_DATA_OVERRIDE_KEYS)"
proof -
  have app: "foldl (append_key a b) [] EXTRA_FORM_DATA_APPEND_KEYS =
             [] @ canon (merged_value a b) EXTRA_FORM_DATA_APPEND_KEYS"
  proof (rule foldl_canon)
    show "distinct EXTRA_FORM_DATA_APPEND_KEYS" using distinct_extra_keys by simp
  qed (simp_all add: append_key_def merged_value_def array_or_undef_def Let_def)
  have "foldl (override_key a b) (canon (merged_value a b) EXTRA_FORM_DATA_APPEND_KEYS)
          EXTRA_FORM_DATA_OVERRIDE_KEYS =
        canon (merged_value a b) EXTRA_FORM_DATA_APPEND_KEYS @
        canon (merged_value a b) EXTRA_FORM_DATA_OVERRIDE_KEYS"
  proof (rule foldl_canon)
    show "distinct EXTRA_FORM_DATA_OVERRIDE_KEYS" using distinct_extra_keys by simp
    show "set EXTRA_FORM_DATA_OVERRIDE_KEYS \<inter>
          fst ` set (canon (merged_value a b) EXTRA_FORM_DATA_APPEND_KEYS) = {}"
      using canon_keys [of "merged_value a b" EXTRA_FORM_DATA_APPEND_KEYS] extra_keys_apart by blast
  next
    fix acc k assume "k \<in> set EXTRA_FORM_DATA_OVERRIDE_KEYS"
    then have "k \<notin> set EXTRA_FORM_DATA_APPEND_KEYS" by (rule extra_keys_apart)
    then show "override_key a b acc k =
               (if merged_value a b k = JUndef then acc else obj_set k (merged_value a b k) acc)"
      by (simp add: override_key_def merged_value_def Let_def obj_set_twice)
  qed
  with app show ?thesis by (simp add: mergeExtraFormData_def canon_append)
qed

lemma jget_merge [extra_simps]:
  "jget (mergeExtraFormData a b) k =
     (if k \<in> set (EXTRA_FORM_DATA_APPEND_KEYS @ EXTRA_FORM_DATA_OVERRIDE_KEYS)
      then merged_value a b k else JUndef)"
  unfolding merge_canon by (rule jget_canon)

lemma merge_keys:
  "fst ` set (mergeExtraFormData a b) \<subseteq> set (EXTRA_FORM_DATA_APPEND_KEYS @ EXTRA_FORM_DATA_OVERRIDE_KEYS)"
  unfolding merge_canon by (rule canon_keys)

lemma spread_array [simp]: "spread_iterable (array_or_undef vs) = vs"
  by (simp add: spread_iterable_def array_or_undef_def)

lemma spread_undef [simp]: "spread_iterable JUndef = []"
  by (simp add: spread_iterable_def)

lemma merge_assoc:
  "mergeExtraFormData (mergeExtraFormData a b) c = mergeExtraFormData a (mergeExtraFormData b c)"
  unfolding merge_canon [of "mergeExtraFormData a b" c] merge_canon [of a "mergeExtraFormData b c"]
  by (rule canon_cong) (auto simp: merged_value_def jget_merge)

lemma merge_settled: "mergeExtraFormData (mergeExtraFormData a b) [] = mergeExtraFormData a b"
proof -
  have "mergeExtraFormData (mergeExtraFormData a b) [] =
        canon (merged_value (mergeExtraFormData a b) [])
          (EXTRA_FORM_DATA_APPEND_KEYS @ EXTRA_FORM_DATA_OVERRIDE_KEYS)"
    by (rule merge_canon)
  also have "\<dots> = canon (merged_value a b) (EXTRA_FORM_DATA_APPEND_KEYS @ EXTRA_FORM_DATA_OVERRIDE_KEYS)"
    by (rule canon_cong) (auto simp: merged_value_def jget_merge)
  also have "\<dots> = mergeExtraFormData a b" by (rule merge_canon [symmetric])
  finally show ?thesis .
qed

lemma merge_none: "mergeExtraFormData [] [] = []"
  unfolding merge_canon by (simp add: extra_keys canon_Cons merged_value_def array_or_undef_def)

interpretation xm: merging mergeExtraFormData "[]"
  by unfold_locales (rule merge_assoc merge_settled merge_none)+

section \<open>The masks of several filters\<close>

definition extra_of :: "masks \<Rightarrow> string \<Rightarrow> jsobj" where
  "extra_of dataMask i = entries_of (mask_extra dataMask i)"

lemma extra_of_coalesce [simp]:
  "entries_of (js_coalesce (mask_extra dataMask i) (JObj [])) = extra_of dataMask i"
  by (cases "mask_extra dataMask i") (simp_all add: js_coalesce_def extra_of_def)

lemma extra_of_or [simp]:
  "entries_of (js_or (mask_extra dataMask i) (JObj [])) = extra_of dataMask i"
  by (cases "mask_extra dataMask i") (simp_all add: js_or_def extra_of_def)

lemma extra_of_falsy: "\<not> truthy (mask_extra dataMask i) \<Longrightarrow> extra_of dataMask i = []"
  by (cases "mask_extra dataMask i") (simp_all add: extra_of_def)

lemma getExtraFormData_fold:
  "getExtraFormData dataMask ks = foldl mergeExtraFormData [] (map (extra_of dataMask) ks)"
  by (simp add: getExtraFormData_def foldl_map)

lemma getExtraFormData_append:
  "getExtraFormData dataMask (xs @ ys) =
     mergeExtraFormData (getExtraFormData dataMask xs) (getExtraFormData dataMask ys)"
  by (simp only: getExtraFormData_fold map_append xm.fold_append)

lemma getExtraFormData_snoc:
  "getExtraFormData dataMask (xs @ [i]) =
     mergeExtraFormData (getExtraFormData dataMask xs) (extra_of dataMask i)"
  by (simp add: getExtraFormData_fold)

lemma getExtraFormData_settled:
  "mergeExtraFormData (getExtraFormData dataMask ks) [] = getExtraFormData dataMask ks"
  by (simp add: getExtraFormData_fold xm.fold_settled [OF merge_none])

lemma merge_mask_eq:
  assumes "mergeExtraFormData acc [] = acc"
  shows "merge_mask dataMask acc i = mergeExtraFormData acc (extra_of dataMask i)"
  using assms extra_of_falsy [of dataMask i]
  by (cases "truthy (mask_extra dataMask i)") (simp_all add: merge_mask_def extra_of_def)

lemma aggregate_is_get: "aggregateFiltersForTarget dataMask ks = getExtraFormData dataMask ks"
proof (induction ks rule: rev_induct)
  case Nil
  show ?case by (simp add: aggregateFiltersForTarget_def getExtraFormData_def)
next
  case (snoc i ks)
  then have "aggregateFiltersForTarget dataMask (ks @ [i]) =
             merge_mask dataMask (getExtraFormData dataMask ks) i"
    by (simp add: aggregateFiltersForTarget_def)
  then show ?case
    by (simp add: merge_mask_eq [OF getExtraFormData_settled] getExtraFormData_snoc)
qed

text \<open>The layer variant is the same merge with the mask of the layer at the end.\<close>

lemma layer_specific_is_get:
  "getLayerSpecificExtraFormData dataMask ks chartId layerId =
     getExtraFormData dataMask
       (ks @ (case layerId of Some (c # cs) \<Rightarrow> [int_string chartId @ ''-'' @ c # cs] | _ \<Rightarrow> []))"
proof -
  have "foldl (merge_mask dataMask) [] ks = getExtraFormData dataMask ks"
    using aggregate_is_get [of dataMask ks] by (simp add: aggregateFiltersForTarget_def)
  then show ?thesis
    by (simp add: getLayerSpecificExtraFormData_def merge_mask_eq [OF getExtraFormData_settled]
          getExtraFormData_snoc split: option.split list.split)
qed

text \<open>
  Read key by key: appended keys concatenate the values of all masks in order, the other keys
  have the value of the last mask that gives one.
\<close>

definition last_defined :: "jsval list \<Rightarrow> jsval" where
  "last_defined vs = foldl (\<lambda>r v. if v \<noteq> JUndef then v else r) JUndef vs"

lemma last_defined_snoc [simp]: "last_defined (vs @ [v]) = (if v \<noteq> JUndef then v else last_defined vs)"
  by (simp add: last_defined_def)

lemma jget_getExtraFormData:
  "jget (getExtraFormData dataMask ks) k =
     (if k \<in> set EXTRA_FORM_DATA_APPEND_KEYS
      then array_or_undef (concat (map (\<lambda>i. spread_iterable (jget (extra_of dataMask i) k)) ks))
      else if k \<in> set EXTRA_FORM_DATA_OVERRIDE_KEYS
      then last_defined (map (\<lambda>i. jget (extra_of dataMask i) k) ks)
      else JUndef)"
proof (induction ks rule: rev_induct)
  case Nil
  show ?case by (simp add: getExtraFormData_def array_or_undef_def last_defined_def)
next
  case (snoc i ks)
  then show ?case
    by (auto simp: getExtraFormData_snoc jget_merge merged_value_def)
qed

section \<open>Filters grouped by target\<close>

definition target_pairs :: "masks \<Rightarrow> (string, string list) obj \<Rightarrow> (string \<times> filter_target) list" where
  "target_pairs dataMask filterScopes =
     concat (map (\<lambda>i. map (Pair i) (getFilterScope i filterScopes)) (obj_keys (js_order dataMask)))"

text \<open>The filters with a target, once for each time the target is in their scope.\<close>

definition filters_at :: "(filter_target \<Rightarrow> bool) \<Rightarrow> (string \<times> filter_target) list \<Rightarrow> string list" where
  "filters_at P ps = map fst (filter (\<lambda>(i, t). P t) ps)"

fun is_layer :: "filter_target \<Rightarrow> bool" where
  "is_layer (LAYER_TARGET c l) = True"
| "is_layer (CHART_TARGET c) = False"

definition extra_for :: "masks \<Rightarrow> string list \<Rightarrow> jsobj option" where
  "extra_for dataMask is = (if is = [] then None else Some (getExtraFormData dataMask is))"

lemma filters_at_simps [simp]:
  "filters_at P [] = []"
  "filters_at P (ps @ [(i, t)]) = filters_at P ps @ (if P t then [i] else [])"
  by (simp_all add: filters_at_def)

lemma extra_for_snoc:
  "mergeExtraFormData (case extra_for dataMask is of None \<Rightarrow> [] | Some e \<Rightarrow> e) (extra_of dataMask i) =
     getExtraFormData dataMask (is @ [i])"
  by (simp add: extra_for_def getExtraFormData_snoc) (simp add: getExtraFormData_def)

lemma groupFilters_fold:
  "groupFiltersByTarget dataMask filterScopes =
     foldl (\<lambda>g (i, t). add_target dataMask i g t) \<lparr>chartFilters = [], layerFilters = []\<rparr>
       (target_pairs dataMask filterScopes)"
proof -
  have "foldl (\<lambda>g i. foldl (add_target dataMask i) g (getFilterScope i filterScopes)) g is =
        foldl (\<lambda>g (i, t). add_target dataMask i g t) g
          (concat (map (\<lambda>i. map (Pair i) (getFilterScope i filterScopes)) is))" for g "is"
    by (induction "is" arbitrary: g) (simp_all add: foldl_map)
  then show ?thesis by (simp add: groupFiltersByTarget_def target_pairs_def)
qed

lemma add_target_simps [simp]:
  "add_target dataMask i g (CHART_TARGET c) =
     g\<lparr>chartFilters := merge_at c (extra_of dataMask i) (chartFilters g)\<rparr>"
  "add_target dataMask i g (LAYER_TARGET c l) =
     g\<lparr>layerFilters := merge_at (c @ ''-'' @ l) (extra_of dataMask i) (layerFilters g)\<rparr>"
  by (simp_all add: add_target_def)

lemma merge_at_extra:
  assumes "obj_get m k = extra_for dataMask is"
  shows "obj_get (merge_at k (extra_of dataMask i) m) k = extra_for dataMask (is @ [i])"
  using assms extra_for_snoc [of dataMask "is" i] by (simp add: merge_at_def) (simp add: extra_for_def)

lemma merge_at_other: "k' \<noteq> k \<Longrightarrow> obj_get (merge_at k e m) k' = obj_get m k'"
  by (simp add: merge_at_def)

definition group_pairs :: "masks \<Rightarrow> (string \<times> filter_target) list \<Rightarrow> target_filters" where
  "group_pairs dataMask ps =
     foldl (\<lambda>g (i, t). add_target dataMask i g t) \<lparr>chartFilters = [], layerFilters = []\<rparr> ps"

lemma group_pairs_snoc: "group_pairs dataMask (ps @ [(i, t)]) = add_target dataMask i (group_pairs dataMask ps) t"
  by (simp add: group_pairs_def)

lemma chart_group:
  "obj_get (chartFilters (group_pairs dataMask ps)) c =
     extra_for dataMask (filters_at (\<lambda>t. t = CHART_TARGET c) ps)"
proof (induction ps rule: rev_induct)
  case Nil
  show ?case by (simp add: extra_for_def group_pairs_def)
next
  case (snoc p ps)
  obtain i t where p: "p = (i, t)" by (cases p)
  show ?case
  proof (cases t)
    case (CHART_TARGET d)
    with snoc show ?thesis
      by (cases "d = c") (simp_all add: p group_pairs_snoc merge_at_extra merge_at_other)
  next
    case (LAYER_TARGET d l)
    with snoc show ?thesis by (simp add: p group_pairs_snoc)
  qed
qed

lemma layer_group:
  "obj_get (layerFilters (group_pairs dataMask ps)) k =
     extra_for dataMask (filters_at (\<lambda>t. is_layer t \<and> createTargetKey t = k) ps)"
proof (induction ps rule: rev_induct)
  case Nil
  show ?case by (simp add: extra_for_def group_pairs_def)
next
  case (snoc p ps)
  obtain i t where p: "p = (i, t)" by (cases p)
  show ?case
  proof (cases t)
    case (CHART_TARGET d)
    with snoc show ?thesis by (simp add: p group_pairs_snoc)
  next
    case (LAYER_TARGET d l)
    with snoc show ?thesis
      by (cases "d @ ''-'' @ l = k") (auto simp: p group_pairs_snoc merge_at_extra merge_at_other)
  qed
qed

section \<open>Layer keys\<close>

text \<open>The two readings of a layer key agree.\<close>

lemma layer_chart_groups: "layer_chart s = map_option (digits_val \<circ> fst) (layer_key_groups s)"
  by (auto simp: layer_chart_def layer_key_groups_def Let_def)

lemma js_order_set [simp]: "set (js_order ob) = set ob"
  by (auto simp: js_order_def)

lemma js_order_keys: "obj_ok ob \<Longrightarrow> distinct (map fst (js_order ob))"
proof -
  assume ok: "obj_ok ob"
  have "mset (js_order ob) = mset ob"
    by (induction ob) (auto simp: js_order_def)
  then have "mset (map fst (js_order ob)) = mset (map fst ob)" by (metis mset_map)
  then show ?thesis using ok unfolding obj_ok_def by (metis mset_eq_imp_distinct_iff)
qed

lemma js_order_get: "obj_ok ob \<Longrightarrow> obj_get (js_order ob) k = obj_get ob k"
proof -
  assume ok: "obj_ok ob"
  show ?thesis
  proof (cases "obj_get ob k")
    case None
    then have "k \<notin> fst ` set (js_order ob)" by (simp add: map_of_eq_None_iff)
    then have "obj_get (js_order ob) k = None" by (simp only: map_of_eq_None_iff not_False_eq_True)
    then show ?thesis using None by simp
  next
    case (Some v)
    then have "(k, v) \<in> set (js_order ob)" by (simp add: map_of_SomeD)
    then show ?thesis using Some map_of_is_SomeI [OF js_order_keys [OF ok]] by simp
  qed
qed

end
