(* ===== verification/ActiveFilters.thy ===== *)
theory ActiveFilters
  imports ExtraFormData
begin

text \<open>
  Which filters are active on a dashboard and for which charts
  (\<open>dashboard/util/activeAllDashboardFilters.ts\<close>), and which charts have to be queried again
  because their own state changed (\<open>util/charts/getOwnDataCharts.ts\<close>). The native filters are
  dynamic objects by id; a scope is an array of chart ids, which are numbers.
\<close>

type_synonym natives = "(string, jsobj) obj"

section \<open>Relevant parts of the data masks\<close>

definition relevant_value :: "string \<Rightarrow> jsval \<Rightarrow> jsval" where
  "relevant_value p v =
     (case v of
        JObj ob \<Rightarrow> (if p = ''ownState'' \<and> has_key ''clientView'' ob then JObj (obj_del ''clientView'' ob) else v)
      | _ \<Rightarrow> v)"

definition getRelevantDataMask :: "masks \<Rightarrow> string \<Rightarrow> jsobj" where
  "getRelevantDataMask dataMask p =
     foldl (\<lambda>ob item. obj_set (key_of (jget item ''id'')) (relevant_value p (jget item p)) ob) []
       (filter (\<lambda>item. truthy (jget item p)) (obj_values (js_order dataMask)))"

section \<open>Layer selections\<close>

record layer_info =
  layerMap :: "(int, int list) obj"
  layerChartIds :: "int list"

definition add_layer_key :: "layer_info \<Rightarrow> string \<Rightarrow> layer_info" where
  "add_layer_key info layerKey =
     (case layer_key_groups layerKey of
        None \<Rightarrow> info
      | Some (c, l) \<Rightarrow>
          (let chartId = digits_val c; layerIndex = digits_val l
           in \<lparr>layerMap = obj_set chartId
                 ((case obj_get (layerMap info) chartId of None \<Rightarrow> [] | Some ls \<Rightarrow> ls) @ [layerIndex])
                 (layerMap info),
               layerChartIds = push_new (layerChartIds info) chartId\<rparr>))"

definition extractLayerIndicesFromKeys :: "string list \<Rightarrow> layer_info" where
  "extractLayerIndicesFromKeys selectedLayers =
     foldl add_layer_key \<lparr>layerMap = [], layerChartIds = []\<rparr> selectedLayers"

section \<open>Active filters\<close>

definition array_elems :: "jsval \<Rightarrow> jsval list" where
  "array_elems v = (case v of JArr xs \<Rightarrow> xs | _ \<Rightarrow> [])"

definition native_field :: "natives \<Rightarrow> string \<Rightarrow> string \<Rightarrow> jsval" where
  "native_field nativeFilters i k =
     (case obj_get nativeFilters i of None \<Rightarrow> JUndef | Some f \<Rightarrow> jget f k)"

text \<open>\<open>scope?.selectedLayers\<close>, empty when there is none, and \<open>scope?.excluded || []\<close>.\<close>

definition selected_layers_of :: "natives \<Rightarrow> string \<Rightarrow> string list" where
  "selected_layers_of nativeFilters i =
     map key_of (array_elems (chain (native_field nativeFilters i ''scope'') ''selectedLayers''))"

definition excluded_of :: "natives \<Rightarrow> string \<Rightarrow> jsval list" where
  "excluded_of nativeFilters i = array_elems (chain (native_field nativeFilters i ''scope'') ''excluded'')"

definition mask_ids :: "masks \<Rightarrow> string list" where
  "mask_ids dataMask = map (\<lambda>m. key_of (jget m ''id'')) (obj_values (js_order dataMask))"

text \<open>The last filter with a layer selection gives the selection of the filters that have none.\<close>

definition master_selection :: "natives \<Rightarrow> string list \<Rightarrow> string list \<times> jsval list" where
  "master_selection nativeFilters filterIds =
     foldl (\<lambda>(ls, ex) i. if selected_layers_of nativeFilters i \<noteq> []
                          then (selected_layers_of nativeFilters i, excluded_of nativeFilters i)
                          else (ls, ex))
       ([], []) filterIds"

record active_native =
  an_scope :: "jsval list"
  an_targets :: jsval
  an_values :: jsval
  an_filterType :: jsval
  an_layerScope :: "(int, int list) obj option"

definition base_scope :: "(int, chart_config) obj \<Rightarrow> natives \<Rightarrow> int list option \<Rightarrow> string \<Rightarrow> jsval list" where
  "base_scope chartConfiguration nativeFilters allSliceIds filterId =
     (let own = native_field nativeFilters filterId ''chartsInScope''
      in if \<not> nullish own then array_elems own
         else case Option.bind (parse_int filterId) (obj_get chartConfiguration) of
                Some c \<Rightarrow> map JNum (cc_charts c)
              | None \<Rightarrow> (case allSliceIds of None \<Rightarrow> [] | Some cs \<Rightarrow> map JNum cs))"

definition has_layer_of :: "string list \<Rightarrow> jsval \<Rightarrow> bool" where
  "has_layer_of selectedLayers chartId =
     list_ex (\<lambda>k. starts_with (''chart-'' @ key_of chartId @ ''-layer-'') k) selectedLayers"

definition layered_scope :: "string list \<Rightarrow> jsval list \<Rightarrow> jsval list \<Rightarrow> jsval list" where
  "layered_scope selectedLayers excludedCharts scope =
     foldl (\<lambda>cs c. if c \<notin> set excludedCharts \<and> \<not> has_layer_of selectedLayers c then push_new cs c else cs)
       (map JNum (layerChartIds (extractLayerIndicesFromKeys selectedLayers))) scope"

definition active_of_mask ::
    "(int, chart_config) obj \<Rightarrow> natives \<Rightarrow> int list option \<Rightarrow> string list \<times> jsval list \<Rightarrow> jsobj \<Rightarrow> active_native"
  where
  "active_of_mask chartConfiguration nativeFilters allSliceIds master m =
     (let filterId = key_of (jget m ''id'');
          scope = base_scope chartConfiguration nativeFilters allSliceIds filterId;
          own = selected_layers_of nativeFilters filterId;
          (selectedLayers, excludedCharts) =
            (if own = [] \<and> fst master \<noteq> [] then master else (own, excluded_of nativeFilters filterId))
      in \<lparr>an_scope = (if selectedLayers \<noteq> [] then layered_scope selectedLayers excludedCharts scope
                      else filter (\<lambda>c. c \<notin> set excludedCharts) scope),
          an_targets = js_or (native_field nativeFilters filterId ''targets'') (JArr []),
          an_values = (if jget m ''extraFormData'' = JUndef then JObj [] else jget m ''extraFormData''),
          an_filterType = native_field nativeFilters filterId ''filterType'',
          an_layerScope = (if selectedLayers \<noteq> []
                           then Some (layerMap (extractLayerIndicesFromKeys selectedLayers)) else None)\<rparr>)"

definition getAllActiveFilters ::
    "(int, chart_config) obj \<Rightarrow> natives \<Rightarrow> masks \<Rightarrow> int list option \<Rightarrow> (string, active_native) obj" where
  "getAllActiveFilters chartConfiguration nativeFilters dataMask allSliceIds =
     (let master = master_selection nativeFilters (mask_ids dataMask)
      in foldl (\<lambda>acc m. obj_set (key_of (jget m ''id''))
                  (active_of_mask chartConfiguration nativeFilters allSliceIds master m) acc)
           [] (obj_values (js_order dataMask)))"

section \<open>Charts whose own state changed\<close>

definition arrayDiff :: "string list \<Rightarrow> string list \<Rightarrow> string list" where
  "arrayDiff a b = filter (\<lambda>x. x \<notin> set b) a @ filter (\<lambda>x. x \<notin> set a) b"

definition getAffectedOwnDataCharts :: "(jsval \<Rightarrow> jsval \<Rightarrow> bool) \<Rightarrow> jsobj \<Rightarrow> jsobj \<Rightarrow> string list" where
  "getAffectedOwnDataCharts is_equal ownDataCharts appliedOwnDataCharts =
     (let chartIds = obj_keys (js_order ownDataCharts);
          appliedChartIds = obj_keys (js_order appliedOwnDataCharts);
          affectedIds = filter (\<lambda>i. truthy (jget ownDataCharts i) \<or> truthy (jget appliedOwnDataCharts i))
                          (arrayDiff chartIds appliedChartIds);
          changed = filter (\<lambda>i. \<not> areObjectsEqual is_equal (jget ownDataCharts i)
                                   (jget appliedOwnDataCharts i) default_opts)
                      (js_uniq (chartIds @ appliedChartIds))
      in js_uniq (affectedIds @ changed))"

section \<open>Lemmas\<close>

lemma in_keys_js_order [simp]: "set (obj_keys (js_order ob)) = fst ` set ob"
  by (simp add: obj_keys_def)

lemma set_values_js_order [simp]: "set (obj_values (js_order ob)) = snd ` set ob"
  by (simp add: obj_values_def)

lemma affected_charts:
  "set (getAffectedOwnDataCharts is_equal own applied) =
     {i \<in> fst ` set own \<union> fst ` set applied.
        \<not> is_equal (jget own i) (jget applied i) \<or>
        (i \<notin> fst ` set applied \<and> truthy (jget own i)) \<or> (i \<notin> fst ` set own \<and> truthy (jget applied i))}"
  (is "_ = ?rhs")
proof (rule set_eqI)
  fix i
  have own: "i \<notin> fst ` set own \<Longrightarrow> jget own i = JUndef" by (rule jget_absent)
  have applied: "i \<notin> fst ` set applied \<Longrightarrow> jget applied i = JUndef" by (rule jget_absent)
  show "i \<in> set (getAffectedOwnDataCharts is_equal own applied) \<longleftrightarrow> i \<in> ?rhs"
    unfolding getAffectedOwnDataCharts_def Let_def arrayDiff_def areObjectsEqual_def default_opts_def
    using own applied
    by (cases "i \<in> fst ` set own"; cases "i \<in> fst ` set applied") (simp_all, blast+)
qed

text \<open>Layer selections: which charts and which of their layers.\<close>

lemma layer_info_fold:
  "layerChartIds (foldl add_layer_key info ks) =
     foldl push_new (layerChartIds info) (List.map_filter layer_chart ks)"
  by (induction ks arbitrary: info)
     (auto simp: add_layer_key_def layer_chart_groups List.map_filter_def Let_def split: option.split)

lemma set_foldl_push_new: "set (foldl push_new xs ys) = set xs \<union> set ys"
  by (induction ys arbitrary: xs) (auto simp: push_new_def)

lemma layer_chart_ids:
  "set (layerChartIds (extractLayerIndicesFromKeys ks)) = {c. \<exists>k \<in> set ks. layer_chart k = Some c}"
proof -
  have "set (List.map_filter layer_chart ks) = {c. \<exists>k \<in> set ks. layer_chart k = Some c}"
    by (induction ks) (auto simp: List.map_filter_def)
  then show ?thesis
    by (simp add: extractLayerIndicesFromKeys_def layer_info_fold set_foldl_push_new)
qed

definition layer_index :: "int \<Rightarrow> string \<Rightarrow> int option" where
  "layer_index c k =
     (case layer_key_groups k of
        None \<Rightarrow> None
      | Some (d, l) \<Rightarrow> if digits_val d = c then Some (digits_val l) else None)"

definition listed :: "'a list option \<Rightarrow> 'a list" where
  "listed r = (case r of None \<Rightarrow> [] | Some xs \<Rightarrow> xs)"

lemma listed_simps [simp]: "listed None = []" "listed (Some xs) = xs"
  by (simp_all add: listed_def)

lemma layer_map_fold:
  "listed (obj_get (layerMap (foldl add_layer_key info ks)) c) =
     listed (obj_get (layerMap info) c) @ List.map_filter (layer_index c) ks"
proof (induction ks arbitrary: info)
  case Nil
  show ?case by (simp add: List.map_filter_def)
next
  case (Cons k ks)
  have "listed (obj_get (layerMap (add_layer_key info k)) c) =
        listed (obj_get (layerMap info) c) @ List.map_filter (layer_index c) [k]"
    by (auto simp: add_layer_key_def layer_index_def List.map_filter_def Let_def listed_def
          split: option.split)
  then show ?case using Cons.IH [of "add_layer_key info k"] by (simp add: List.map_filter_def)
qed

lemma layer_map_get:
  "listed (obj_get (layerMap (extractLayerIndicesFromKeys ks)) c) = List.map_filter (layer_index c) ks"
  by (simp add: extractLayerIndicesFromKeys_def layer_map_fold)

lemma set_layered_scope:
  "set (layered_scope ls ex scope) =
     JNum ` {n. \<exists>k \<in> set ls. layer_chart k = Some n} \<union>
     {c \<in> set scope. c \<notin> set ex \<and> \<not> has_layer_of ls c}"
proof -
  have "set (foldl (\<lambda>cs c. if c \<notin> set ex \<and> \<not> has_layer_of ls c then push_new cs c else cs) cs scope) =
        set cs \<union> {c \<in> set scope. c \<notin> set ex \<and> \<not> has_layer_of ls c}" for cs
    by (induction scope arbitrary: cs) (auto simp: push_new_def)
  then show ?thesis by (simp add: layered_scope_def layer_chart_ids)
qed

section \<open>The active filters of keyed masks\<close>

text \<open>Storing every element under its own, distinct key builds the array of entries.\<close>

lemma foldl_obj_set_map:
  assumes "distinct (map fst (ob @ map (\<lambda>x. (f x, g x)) xs))"
  shows "foldl (\<lambda>ob x. obj_set (f x) (g x) ob) ob xs = ob @ map (\<lambda>x. (f x, g x)) xs"
  using assms
proof (induction xs arbitrary: ob)
  case Nil
  then show ?case by simp
next
  case (Cons x xs)
  have "obj_set (f x) (g x) ob = ob @ [(f x, g x)]"
    using Cons.prems by (intro obj_set_new) auto
  then show ?case using Cons.IH [of "ob @ [(f x, g x)]"] Cons.prems by simp
qed

lemma js_order_map: "js_order (map (\<lambda>(k, v). (k, f k v)) ob) = map (\<lambda>(k, v). (k, f k v)) (js_order ob)"
proof -
  have "sort_key (\<lambda>(k, v). digits_val k) (map (\<lambda>(k, v). (k, f k v)) xs) =
        map (\<lambda>(k, v). (k, f k v)) (sort_key (\<lambda>(k, v). digits_val k) xs)" for xs
  proof (induction xs)
    case Nil
    show ?case by simp
  next
    case (Cons x xs)
    have "insort_key (\<lambda>(k, v). digits_val k) (case y of (k, v) \<Rightarrow> (k, f k v)) (map (\<lambda>(k, v). (k, f k v)) zs) =
          map (\<lambda>(k, v). (k, f k v)) (insort_key (\<lambda>(k, v). digits_val k) y zs)" for y zs
      by (induction zs) (auto split: prod.splits)
    then show ?case using Cons by simp
  qed
  then show ?thesis by (simp add: js_order_def filter_map comp_def split_def)
qed

lemma js_order_idem: "js_order (js_order ob) = js_order ob"
proof -
  have "filter (\<lambda>(k, v). is_index k) (js_order ob) =
        sort_key (\<lambda>(k, v). digits_val k) (filter (\<lambda>(k, v). is_index k) ob)"
    by (auto simp: js_order_def filter_id_conv filter_empty_conv)
  moreover have "filter (\<lambda>(k, v). \<not> is_index k) (js_order ob) = filter (\<lambda>(k, v). \<not> is_index k) ob"
    by (auto simp: js_order_def filter_empty_conv)
  ultimately show ?thesis by (simp add: js_order_def sort_key_id_if_sorted)
qed

lemma masks_keyed_order: "masks_keyed dm \<Longrightarrow> (k, m) \<in> set (js_order dm) \<Longrightarrow> key_of (jget m ''id'') = k"
  by (auto simp: masks_keyed_def list_all_iff mask_at_def)

lemma masks_keyed_ids: "masks_keyed dm \<Longrightarrow> mask_ids dm = obj_keys (js_order dm)"
  by (auto simp: mask_ids_def obj_values_def obj_keys_def masks_keyed_order)

definition active_master :: "natives \<Rightarrow> masks \<Rightarrow> string list \<times> jsval list" where
  "active_master nf dm = master_selection nf (mask_ids dm)"

lemma active_filters_map:
  assumes "masks_keyed dm"
  shows "getAllActiveFilters cc nf dm charts =
         map (\<lambda>(k, m). (k, active_of_mask cc nf charts (active_master nf dm) m)) (js_order dm)"
proof -
  let ?g = "active_of_mask cc nf charts (active_master nf dm)"
  have eq: "map (\<lambda>m. (key_of (jget m ''id''), ?g m)) (obj_values (js_order dm)) =
            map (\<lambda>(k, m). (k, ?g m)) (js_order dm)"
    by (auto simp: obj_values_def masks_keyed_order [OF assms])
  have "distinct (map fst (js_order dm))"
    using assms by (intro js_order_keys) (simp add: masks_keyed_def)
  moreover have "map fst (map (\<lambda>(k, m). (k, ?g m)) (js_order dm)) = map fst (js_order dm)" by auto
  ultimately have "distinct (map fst (map (\<lambda>m. (key_of (jget m ''id''), ?g m)) (obj_values (js_order dm))))"
    using eq by metis
  then have "foldl (\<lambda>acc m. obj_set (key_of (jget m ''id'')) (?g m) acc) [] (obj_values (js_order dm)) =
        map (\<lambda>m. (key_of (jget m ''id''), ?g m)) (obj_values (js_order dm))"
    using foldl_obj_set_map [of "[]" "\<lambda>m. key_of (jget m ''id'')" ?g "obj_values (js_order dm)"] by simp
  then show ?thesis using eq by (simp only: getAllActiveFilters_def active_master_def Let_def)
qed

lemma active_filters_order:
  "masks_keyed dm \<Longrightarrow> js_order (getAllActiveFilters cc nf dm charts) = getAllActiveFilters cc nf dm charts"
  by (simp add: active_filters_map js_order_map [where f = "\<lambda>_. active_of_mask cc nf charts (active_master nf dm)"] js_order_idem)

lemma active_filter_get:
  assumes "masks_keyed dm"
  shows "obj_get (getAllActiveFilters cc nf dm charts) i =
         map_option (active_of_mask cc nf charts (active_master nf dm)) (obj_get dm i)"
proof -
  have ok: "obj_ok dm" using assms by (simp add: masks_keyed_def)
  show ?thesis by (simp add: active_filters_map [OF assms] map_of_map js_order_get [OF ok])
qed

section \<open>The scope of an active filter\<close>

lemma master_fold:
  "foldl (\<lambda>(ls, ex) i. if selected_layers_of nf i \<noteq> [] then (selected_layers_of nf i, excluded_of nf i)
                       else (ls, ex)) s is =
     (case find (\<lambda>i. selected_layers_of nf i \<noteq> []) (rev is) of
        None \<Rightarrow> s | Some i \<Rightarrow> (selected_layers_of nf i, excluded_of nf i))"
proof (induction "is" arbitrary: s rule: rev_induct)
  case Nil
  show ?case by simp
next
  case (snoc i js)
  then show ?case by (cases s) (auto split: option.split prod.split)
qed

lemma master_eq:
  "master_selection nf is =
     (case find (\<lambda>i. selected_layers_of nf i \<noteq> []) (rev is) of
        None \<Rightarrow> ([], []) | Some i \<Rightarrow> (selected_layers_of nf i, excluded_of nf i))"
  by (simp add: master_selection_def master_fold)

lemma fst_master_Nil: "fst (master_selection nf is) = [] \<longleftrightarrow> (\<forall>i \<in> set is. selected_layers_of nf i = [])"
  by (auto simp: master_eq find_None_iff find_Some_iff split: option.split) (metis nth_mem set_rev length_rev)

text \<open>The selection a filter uses: its own, or the last one of all filters.\<close>

definition used_selection :: "natives \<Rightarrow> masks \<Rightarrow> string \<Rightarrow> string list \<times> jsval list" where
  "used_selection nf dm i =
     (if selected_layers_of nf i = [] \<and> fst (active_master nf dm) \<noteq> [] then active_master nf dm
      else (selected_layers_of nf i, excluded_of nf i))"

lemma active_scope:
  assumes "masks_keyed dm" and "obj_get (getAllActiveFilters cc nf dm charts) i = Some a"
  shows "set (an_scope a) =
     JNum ` {n. \<exists>k \<in> set (fst (used_selection nf dm i)). layer_chart k = Some n} \<union>
     {c \<in> set (base_scope cc nf charts i).
        c \<notin> set (snd (used_selection nf dm i)) \<and> \<not> has_layer_of (fst (used_selection nf dm i)) c}"
proof -
  from assms obtain m where m: "obj_get dm i = Some m"
    and a: "a = active_of_mask cc nf charts (active_master nf dm) m"
    by (auto simp: active_filter_get)
  have i: "key_of (jget m ''id'') = i" using masks_keyed_get [OF assms(1) m] by (simp add: mask_at_def)
  obtain ls ex where u: "used_selection nf dm i = (ls, ex)" by (cases "used_selection nf dm i")
  have "an_scope a = (if ls \<noteq> [] then layered_scope ls ex (base_scope cc nf charts i)
                      else filter (\<lambda>c. c \<notin> set ex) (base_scope cc nf charts i))"
    using u by (auto simp: a active_of_mask_def Let_def i used_selection_def)
  then show ?thesis
    by (auto simp: u set_layered_scope has_layer_of_def)
qed

end
