(* ===== verification/ChartFormData.thy ===== *)
theory ChartFormData
  imports ActiveFilters
begin

text \<open>
  The form data with which a chart of a dashboard is queried
  (\<open>dashboard/util/charts/getFormDataWithExtraFilters.ts\<close>): the chart's own form data, what the
  active filters add, the columns that customizations group by
  (\<open>chartTypeLimitations.ts\<close>), and the cache by chart. The two variables of the module are the state.
  \<open>cachedFilters === filters\<close> compares references, so the filters come with their address. lodash's
  \<open>isEqual\<close> is a parameter.
\<close>

section \<open>Limits on the number of dimensions\<close>

text \<open>The warning texts are shown by no caller and left out.\<close>

definition CHART_TYPE_LIMITATIONS :: "(string, nat \<times> string list) obj" where
  "CHART_TYPE_LIMITATIONS =
     [(''heatmap'', 1, [''column'']), (''heatmap_v2'', 1, [''column'']),
      (''waterfall'', 1, [''dimension'']), (''word_cloud'', 1, [''series'']),
      (''graph_chart'', 2, [''source'', ''target'']), (''sankey_v2'', 2, [''source'', ''target'']),
      (''bubble_v2'', 2, [''series'', ''entity''])]"

definition CHARTS_WITHOUT_GROUPBY :: "string list" where
  "CHARTS_WITHOUT_GROUPBY =
     [''big_number'', ''big_number_total'', ''pop_kpi'', ''cal_heatmap'', ''country_map'', ''gantt'',
      ''world_map'', ''deck_arc'', ''deck_geojson'', ''deck_grid'', ''deck_hex'', ''deck_heatmap'',
      ''deck_multi'', ''deck_polygon'', ''deck_scatter'', ''deck_screengrid'', ''deck_contour'',
      ''deck_path'']"

definition SINGLE_COLUMN_DIMENSION_CHARTS :: "string list" where
  "SINGLE_COLUMN_DIMENSION_CHARTS = [''heatmap'', ''heatmap_v2'', ''waterfall'']"

text \<open>A chart without a type has no limitation. The type is a string.\<close>

definition getChartTypeLimitation :: "jsval \<Rightarrow> nat option" where
  "getChartTypeLimitation chartType = map_option fst (obj_get CHART_TYPE_LIMITATIONS (key_of chartType))"

definition isSingleColumnDimensionChart :: "jsval \<Rightarrow> bool" where
  "isSingleColumnDimensionChart chartType = (chartType \<in> set (map JStr SINGLE_COLUMN_DIMENSION_CHARTS))"

definition isChartWithoutGroupBy :: "jsval \<Rightarrow> bool" where
  "isChartWithoutGroupBy chartType = (chartType \<in> set (map JStr CHARTS_WITHOUT_GROUPBY))"

text \<open>The columns used and the columns ignored.\<close>

definition limitColumnsForChartType :: "jsval \<Rightarrow> string list \<Rightarrow> string list \<times> string list" where
  "limitColumnsForChartType chartType columns =
     (case getChartTypeLimitation chartType of
        None \<Rightarrow> (columns, [])
      | Some maxDimensions \<Rightarrow>
          (if length columns \<le> maxDimensions then (columns, [])
           else (take maxDimensions columns, drop maxDimensions columns)))"

section \<open>Filters of filter boxes\<close>

definition getEffectiveExtraFilters :: "jsobj \<Rightarrow> jsval list" where
  "getEffectiveExtraFilters filters =
     map (\<lambda>(column, values). JObj [(''col'', JStr column),
             (''op'', JStr (case values of JArr _ \<Rightarrow> ''IN'' | _ \<Rightarrow> ''=='')), (''val'', values)])
       (filter (\<lambda>(column, values). values \<noteq> JNull) (js_order filters))"

definition createFilterDataMapping :: "masks \<Rightarrow> string list \<Rightarrow> jsobj" where
  "createFilterDataMapping dataMask filterIdsAppliedOnChart =
     foldl (\<lambda>mapping i.
              let filters = jget (getExtraFormData dataMask [i]) ''filters''
              in if array_elems filters \<noteq> [] then obj_set i filters mapping else mapping)
       [] filterIdsAppliedOnChart"

section \<open>Columns that a chart uses\<close>

record chart_payload =
  cp_id :: int
  cp_form_data :: jsobj

text \<open>\<open>k in v\<close> of an object.\<close>

definition prop_in :: "string \<Rightarrow> jsval \<Rightarrow> bool" where
  "prop_in k v = (case v of JObj ob \<Rightarrow> has_key k ob | _ \<Rightarrow> False)"

fun column_name_of :: "jsval \<Rightarrow> jsval option" where
  "column_name_of (JStr s) = Some (JStr s)"
| "column_name_of (JObj ob) = obj_get ob ''column_name''"
| "column_name_of v = None"

definition extractColumnNames :: "jsval \<Rightarrow> jsval list" where
  "extractColumnNames columns = List.map_filter column_name_of (array_elems columns)"

fun metric_column :: "jsval \<Rightarrow> jsval option" where
  "metric_column (JStr s) = Some (JStr s)"
| "metric_column (JObj ob) = Option.bind (obj_get ob ''column'') column_name_of"
| "metric_column v = None"

definition add_truthy :: "jsval list \<Rightarrow> jsval \<Rightarrow> jsval list" where
  "add_truthy cs v = (if truthy v then push_new cs v else cs)"

definition buildExistingColumnsSet :: "chart_payload \<Rightarrow> jsval list" where
  "buildExistingColumnsSet chart =
     (let fd = cp_form_data chart; chartType = jget fd ''viz_type'';
          c1 = (if chartType \<noteq> JStr ''heatmap'' \<and> chartType \<noteq> JStr ''heatmap_v2''
                then add_truthy [] (jget fd ''x_axis'') else []);
          c2 = foldl push_new c1 (List.map_filter metric_column (array_elems (jget fd ''metrics'')));
          c3 = add_truthy c2 (jget fd ''series'');
          c4 = add_truthy c3 (jget fd ''entity'');
          c5 = add_truthy c4 (jget fd ''target'');
          c6 = (if chartType = JStr ''box_plot''
                then foldl push_new c5 (extractColumnNames (jget fd ''columns'')) else c5)
      in if chartType = JStr ''pivot_table_v2''
         then foldl push_new c6 (extractColumnNames (jget fd ''groupbyColumns'')) else c6)"

section \<open>Grouping by the columns of customizations\<close>

definition str_at :: "string list \<Rightarrow> int \<Rightarrow> jsval" where
  "str_at xs i = (case js_nth xs i of None \<Rightarrow> JUndef | Some s \<Rightarrow> JStr s)"

definition jstrs :: "string list \<Rightarrow> jsval" where
  "jstrs xs = JArr (map JStr xs)"

definition type_starts :: "string \<Rightarrow> jsval \<Rightarrow> bool" where
  "type_starts p chartType = (case chartType of JStr s \<Rightarrow> starts_with p s | _ \<Rightarrow> False)"

definition applyChartSpecificGroupBy :: "jsval \<Rightarrow> string list \<Rightarrow> jsval list \<Rightarrow> jsval \<Rightarrow> jsobj" where
  "applyChartSpecificGroupBy chartType groupByColumns existingGroupBy xAxisColumn =
     (let limited = fst (limitColumnsForChartType chartType groupByColumns)
      in if groupByColumns = [] then []
         else if type_starts ''echarts_timeseries'' chartType \<or> type_starts ''echarts_area'' chartType
         then if truthy xAxisColumn
              then (let nonConflicting = filter (\<lambda>c. JStr c \<noteq> xAxisColumn) groupByColumns
                    in [(''groupby'', if nonConflicting \<noteq> [] then jstrs nonConflicting
                                      else JArr existingGroupBy)])
              else [(''groupby'', if groupByColumns \<noteq> [] then jstrs groupByColumns else JArr existingGroupBy)]
         else if chartType = JStr ''word_cloud''
         then [(''series'', str_at limited 0), (''groupby'', JArr [])]
         else if chartType = JStr ''heatmap'' \<or> chartType = JStr ''heatmap_v2''
         then [(''groupby'', if groupByColumns \<noteq> [] then JArr [str_at groupByColumns 0]
                             else JArr (filter (\<lambda>c. c \<noteq> xAxisColumn) existingGroupBy))]
         else if chartType = JStr ''waterfall''
         then [(''groupby'', JArr [str_at limited 0])]
         else if chartType = JStr ''sunburst_v2''
         then [(''columns'', jstrs groupByColumns), (''groupby'', JArr [])]
         else if chartType = JStr ''graph_chart'' \<or> chartType = JStr ''sankey_v2''
         then (''source'', str_at limited 0) #
              obj_when (length limited > 1) [(''target'', str_at limited 1)]
         else if chartType = JStr ''chord''
         then [(''groupby'', if groupByColumns \<noteq> [] then JArr [str_at groupByColumns 0]
                             else JArr existingGroupBy)]
         else if chartType = JStr ''bubble_v2''
         then (''series'', str_at limited 0) #
              obj_when (length limited > 1) [(''entity'', str_at limited 1)] @ [(''groupby'', JArr [])]
         else if chartType = JStr ''pivot_table_v2''
         then [(''groupbyColumns'', jstrs groupByColumns)]
         else if chartType = JStr ''treemap_v2''
         then [(''groupby'', jstrs groupByColumns)]
         else [(''groupby'', jstrs groupByColumns)])"

text \<open>What the user selected in a customization.\<close>

record groupby_info =
  selectedValues :: "jsval list"
  hasInteracted :: bool

definition in_chart_scope :: "chart_payload \<Rightarrow> jsobj \<Rightarrow> bool" where
  "in_chart_scope chart item =
     (nullish (jget item ''chartsInScope'') \<or>
      JNum (cp_id chart) \<in> set (array_elems (jget item ''chartsInScope'')))"

definition first_target :: "jsobj \<Rightarrow> jsval" where
  "first_target item = (case array_elems (jget item ''targets'') of [] \<Rightarrow> JUndef | t # _ \<Rightarrow> t)"

definition matches_chart :: "chart_payload \<Rightarrow> jsobj \<Rightarrow> bool" where
  "matches_chart chart item =
     (let targetDataset = chain (first_target item) ''datasetId''
      in \<not> truthy (jget item ''removed'') \<and> truthy targetDataset \<and>
         before_double_underscore (key_of (jget (cp_form_data chart) ''datasource'')) = key_of targetDataset \<and>
         in_chart_scope chart item)"

fun nonempty_str :: "jsval \<Rightarrow> string option" where
  "nonempty_str (JStr s) = (if s = [] then None else Some s)"
| "nonempty_str v = None"

record groupby_acc =
  ga_columns :: "string list"
  ga_order :: "string option"
  ga_single :: bool

definition add_group_columns :: "jsval \<Rightarrow> string list \<Rightarrow> groupby_acc \<Rightarrow> groupby_acc" where
  "add_group_columns chartType nonConflicting acc =
     (if isSingleColumnDimensionChart chartType
      then if \<not> ga_single acc \<and> hd nonConflicting \<notin> set (ga_columns acc)
           then acc\<lparr>ga_columns := ga_columns acc @ [hd nonConflicting], ga_single := True\<rparr>
           else acc
      else acc\<lparr>ga_columns := foldl push_new (ga_columns acc) nonConflicting\<rparr>)"

definition group_step ::
    "jsval \<Rightarrow> jsval list \<Rightarrow> (string, groupby_info) obj \<Rightarrow> groupby_acc \<Rightarrow> jsobj \<Rightarrow> groupby_acc" where
  "group_step chartType existing groupByState acc item =
     (if \<not> truthy (first_target item) then acc
      else case obj_get groupByState (key_of (jget item ''id'')) of
             None \<Rightarrow> acc
           | Some info \<Rightarrow>
               (let nonConflicting = filter (\<lambda>c. JStr c \<notin> set existing)
                                       (List.map_filter nonempty_str (selectedValues info))
                in if nonConflicting = [] then acc
                   else let acc' = add_group_columns chartType nonConflicting acc;
                            sortMetric = chain (jget item ''controlValues'') ''sortMetric'';
                            sortAscending = chain (jget item ''controlValues'') ''sortAscending''
                        in if truthy sortMetric
                           then acc'\<lparr>ga_order :=
                                  Some (json_string (JArr [sortMetric, JBool (\<not> truthy sortAscending)]))\<rparr>
                           else acc'))"

definition processGroupByCustomizations ::
    "jsobj list \<Rightarrow> chart_payload \<Rightarrow> (string, groupby_info) obj \<Rightarrow> jsobj" where
  "processGroupByCustomizations items chart groupByState =
     (let fd = cp_form_data chart; chartType = jget fd ''viz_type''
      in if items = [] \<or> \<not> truthy (jget fd ''datasource'') \<or>
            isChartWithoutGroupBy chartType \<or> chartType = JStr ''chord'' then []
         else let acc = foldl (group_step chartType (buildExistingColumnsSet chart) groupByState)
                          \<lparr>ga_columns = [], ga_order = None, ga_single = False\<rparr>
                          (filter (matches_chart chart) items);
                  groupBy = applyChartSpecificGroupBy chartType (ga_columns acc)
                              (ensureIsArray (jget fd ''groupby'')) (jget fd ''x_axis'')
              in case ga_order acc of
                   None \<Rightarrow> groupBy
                 | Some ob \<Rightarrow> obj_set ''order_by_cols'' (JArr [JStr ob]) groupBy)"

section \<open>The form data of a chart\<close>

record form_args =
  fa_chart :: chart_payload
  fa_filters :: "nat \<times> jsobj"
  fa_natives :: natives
  fa_chart_config :: "(int, chart_config) obj"
  fa_customizations :: "jsobj list"
  fa_color_scheme :: jsval
  fa_own_color_scheme :: jsval
  fa_color_namespace :: jsval
  fa_slice :: int
  fa_masks :: masks
  fa_extra_controls :: jsobj
  fa_labels :: jsval
  fa_labels_map :: jsval
  fa_shared_labels :: jsval
  fa_slices :: "int list option"
  fa_chart_customization :: jsval
  fa_active :: "(string, active_native) obj option"

record form_cache =
  cachedFiltersByChart :: "(int, nat) obj"
  cachedFormdataByChart :: "(int, jsobj) obj"

definition dict_value :: "(string, jsobj) obj \<Rightarrow> jsval" where
  "dict_value m = JObj (map (\<lambda>(k, v). (k, JObj v)) m)"

definition cache_hit :: "(jsval \<Rightarrow> jsval \<Rightarrow> bool) \<Rightarrow> form_args \<Rightarrow> nat option \<Rightarrow> jsobj \<Rightarrow> bool" where
  "cache_hit is_equal a cachedFilters cached \<longleftrightarrow>
     (let same = areObjectsEqual is_equal
      in cachedFilters = Some (fst (fa_filters a)) \<and>
         same (jget cached ''own_color_scheme'') (fa_own_color_scheme a) default_opts \<and>
         same (jget cached ''color_scheme'') (fa_color_scheme a) default_opts \<and>
         same (jget cached ''color_namespace'') (fa_color_namespace a) ignoring_undefined \<and>
         same (jget cached ''label_colors'') (fa_labels a) ignoring_undefined \<and>
         same (jget cached ''map_label_colors'') (fa_labels_map a) ignoring_undefined \<and>
         is_equal (jget cached ''shared_label_colors'') (fa_shared_labels a) \<and>
         same (jget cached ''dataMask'') (dict_value (fa_masks a)) ignoring_undefined \<and>
         same (jget cached ''nativeFilters'') (dict_value (fa_natives a)) ignoring_undefined \<and>
         same (jget cached ''extraControls'') (JObj (fa_extra_controls a)) ignoring_undefined \<and>
         same (jget cached ''chart_customization'') (fa_chart_customization a) ignoring_undefined)"

definition active_filters_of :: "form_args \<Rightarrow> (string, active_native) obj" where
  "active_filters_of a =
     (case fa_active a of
        Some f \<Rightarrow> f
      | None \<Rightarrow> getAllActiveFilters (fa_chart_config a) (fa_natives a) (fa_masks a) (fa_slices a))"

definition filterIdsAppliedOnChart :: "form_args \<Rightarrow> string list" where
  "filterIdsAppliedOnChart a =
     map fst (filter (\<lambda>(_, f). JNum (cp_id (fa_chart a)) \<in> set (an_scope f)) (js_order (active_filters_of a)))"

text \<open>A chart of several deck.gl layers, or active filters with a scope of layers.\<close>

definition layered :: "form_args \<Rightarrow> bool" where
  "layered a \<longleftrightarrow>
     jget (cp_form_data (fa_chart a)) ''viz_type'' = JStr ''deck_multi'' \<or>
     (case fa_active a of None \<Rightarrow> False | Some f \<Rightarrow> list_ex (\<lambda>x. an_layerScope x \<noteq> None) (obj_values f))"

definition extra_data :: "form_args \<Rightarrow> jsobj" where
  "extra_data a =
     (let applied = filterIdsAppliedOnChart a
      in if applied = [] then []
         else (''extra_form_data'', JObj (getExtraFormData (fa_masks a) applied)) #
              obj_when (layered a)
                [(''filter_data_mapping'', JObj (createFilterDataMapping (fa_masks a) applied))])"

definition layer_filter_scope :: "form_args \<Rightarrow> jsobj" where
  "layer_filter_scope a =
     (if layered a
      then foldl (\<lambda>ob (i, f).
                    case Option.bind (an_layerScope f) (\<lambda>m. obj_get m (cp_id (fa_chart a))) of
                      None \<Rightarrow> ob
                    | Some ls \<Rightarrow> obj_set i (JArr (map JNum ls)) ob)
             [] (js_order (active_filters_of a))
      else [])"

definition customization_entries :: "form_args \<Rightarrow> masks" where
  "customization_entries a = filter (\<lambda>(k, _). isChartCustomization k) (js_order (fa_masks a))"

text \<open>The customizations with a mask that have the chart in their scope.\<close>

definition customizationIds :: "form_args \<Rightarrow> string list" where
  "customizationIds a =
     filter (\<lambda>k. case find (\<lambda>item. jget item ''id'' = JStr k) (fa_customizations a) of
                   None \<Rightarrow> False
                 | Some item \<Rightarrow> in_chart_scope (fa_chart a) item)
       (obj_keys (customization_entries a))"

definition groupby_of_mask :: "jsobj \<Rightarrow> groupby_info" where
  "groupby_of_mask m =
     (let v = chain (jget m ''filterState'') ''value''
      in \<lparr>selectedValues = (case v of JArr xs \<Rightarrow> xs | JStr s \<Rightarrow> [JStr s] | _ \<Rightarrow> []),
          hasInteracted = (v \<noteq> JUndef)\<rparr>)"

definition groupByState :: "form_args \<Rightarrow> (string, groupby_info) obj" where
  "groupByState a =
     foldl (\<lambda>ob (k, m). obj_set k (groupby_of_mask m) ob) [] (customization_entries a)"

definition groupByFormData :: "form_args \<Rightarrow> jsobj" where
  "groupByFormData a =
     processGroupByCustomizations
       (filter (\<lambda>item. jget item ''filterType'' = JStr ''chart_customization_dynamic_groupby'')
          (fa_customizations a))
       (fa_chart a) (groupByState a)"

definition customizationExtraFormData :: "form_args \<Rightarrow> jsobj" where
  "customizationExtraFormData a =
     (if customizationIds a \<noteq> [] then getExtraFormData (fa_masks a) (customizationIds a) else [])"

definition new_form_data :: "form_args \<Rightarrow> jsobj" where
  "new_form_data a =
     foldl obj_spread []
       [cp_form_data (fa_chart a),
        [(''chart_id'', JNum (cp_id (fa_chart a))), (''label_colors'', fa_labels a),
         (''shared_label_colors'', fa_shared_labels a), (''map_label_colors'', fa_labels_map a)],
        obj_when (truthy (fa_color_scheme a)) [(''color_scheme'', fa_color_scheme a)],
        obj_when (truthy (fa_own_color_scheme a)) [(''own_color_scheme'', fa_own_color_scheme a)],
        [(''extra_filters'', JArr (getEffectiveExtraFilters (snd (fa_filters a))))],
        extra_data a,
        fa_extra_controls a,
        groupByFormData a,
        customizationExtraFormData a,
        obj_when (truthy (fa_chart_customization a)) [(''chart_customization'', fa_chart_customization a)],
        obj_when (layer_filter_scope a \<noteq> []) [(''layer_filter_scope'', JObj (layer_filter_scope a))]]"

text \<open>What the cache stores beside the form data.\<close>

definition cached_fields :: "form_args \<Rightarrow> jsobj" where
  "cached_fields a =
     [(''dataMask'', dict_value (fa_masks a)), (''extraControls'', JObj (fa_extra_controls a)),
      (''nativeFilters'', dict_value (fa_natives a))] @
     obj_when (truthy (fa_chart_customization a)) [(''chart_customization'', fa_chart_customization a)]"

definition getFormDataWithExtraFilters ::
    "(jsval \<Rightarrow> jsval \<Rightarrow> bool) \<Rightarrow> form_args \<Rightarrow> form_cache \<Rightarrow> jsobj \<times> form_cache" where
  "getFormDataWithExtraFilters is_equal a cache =
     (let computed =
            (let formData = new_form_data a
             in (formData,
                 \<lparr>cachedFiltersByChart = obj_set (fa_slice a) (fst (fa_filters a)) (cachedFiltersByChart cache),
                  cachedFormdataByChart =
                    obj_set (fa_slice a) (obj_spread (obj_spread [] formData) (cached_fields a))
                      (cachedFormdataByChart cache)\<rparr>))
      in case obj_get (cachedFormdataByChart cache) (fa_slice a) of
           None \<Rightarrow> computed
         | Some cached \<Rightarrow>
             (if cache_hit is_equal a (obj_get (cachedFiltersByChart cache) (fa_slice a)) cached
              then (cached, cache) else computed))"

section \<open>Lemmas on the fields of the form data\<close>

lemma keys_obj_when_if [simp]: "fst ` set (obj_when c ob) = (if c then fst ` set ob else {})"
  by (simp add: obj_when_def)

definition group_fields :: "string list" where
  "group_fields = [''groupby'', ''series'', ''columns'', ''source'', ''target'', ''entity'', ''groupbyColumns'']"

lemma apply_group_keys:
  "fst ` set (applyChartSpecificGroupBy t cols existing x) \<subseteq> set group_fields"
  by (simp add: applyChartSpecificGroupBy_def group_fields_def image_Un Let_def)

lemma process_group_keys:
  "fst ` set (processGroupByCustomizations items chart st) \<subseteq> insert ''order_by_cols'' (set group_fields)"
proof -
  have "fst ` set (obj_set ''order_by_cols'' v (applyChartSpecificGroupBy t cols existing x))
        \<subseteq> insert ''order_by_cols'' (set group_fields)" for v t cols existing x
    using apply_group_keys [of t cols existing x] by (simp only: set_fst_obj_set) blast
  moreover have "fst ` set (applyChartSpecificGroupBy t cols existing x)
        \<subseteq> insert ''order_by_cols'' (set group_fields)" for t cols existing x
    using apply_group_keys [of t cols existing x] by blast
  ultimately show ?thesis
    unfolding processGroupByCustomizations_def Let_def by (simp split: option.split)
qed

lemma customization_keys:
  "fst ` set (customizationExtraFormData a) \<subseteq> set (EXTRA_FORM_DATA_APPEND_KEYS @ EXTRA_FORM_DATA_OVERRIDE_KEYS)"
proof -
  have "getExtraFormData dm ks = mergeExtraFormData (getExtraFormData dm ks) []" for dm ks
    by (rule getExtraFormData_settled [symmetric])
  then have "fst ` set (getExtraFormData dm ks) \<subseteq> set (EXTRA_FORM_DATA_APPEND_KEYS @ EXTRA_FORM_DATA_OVERRIDE_KEYS)" for dm ks
    using merge_keys by metis
  then show ?thesis by (simp only: customizationExtraFormData_def split: if_split) simp
qed

lemma jget_spread_over:
  assumes "k \<in> fst ` set b"
  shows "jget (obj_spread a b) k = jget (obj_spread [] b) k"
proof -
  have "map_of (rev b) k \<noteq> None" using assms by (simp add: map_of_eq_None_iff)
  then show ?thesis by (auto simp: jget_spread)
qed

text \<open>What the later spreads leave alone.\<close>

definition kept_field :: "form_args \<Rightarrow> string \<Rightarrow> bool" where
  "kept_field a k \<longleftrightarrow>
     k \<notin> fst ` set (fa_extra_controls a) \<and> k \<notin> set group_fields \<and>
     k \<notin> set (EXTRA_FORM_DATA_APPEND_KEYS @ EXTRA_FORM_DATA_OVERRIDE_KEYS) \<and>
     k \<notin> {''order_by_cols'', ''chart_customization'', ''layer_filter_scope''}"

definition own_form_data :: "form_args \<Rightarrow> jsobj" where
  "own_form_data a =
     foldl obj_spread []
       [cp_form_data (fa_chart a),
        [(''chart_id'', JNum (cp_id (fa_chart a))), (''label_colors'', fa_labels a),
         (''shared_label_colors'', fa_shared_labels a), (''map_label_colors'', fa_labels_map a)],
        obj_when (truthy (fa_color_scheme a)) [(''color_scheme'', fa_color_scheme a)],
        obj_when (truthy (fa_own_color_scheme a)) [(''own_color_scheme'', fa_own_color_scheme a)],
        [(''extra_filters'', JArr (getEffectiveExtraFilters (snd (fa_filters a))))],
        extra_data a]"

lemma new_form_kept:
  assumes "kept_field a k"
  shows "jget (new_form_data a) k = jget (own_form_data a) k"
proof -
  have g: "k \<notin> fst ` set (groupByFormData a)"
    using assms process_group_keys [of _ "fa_chart a" "groupByState a"]
    unfolding kept_field_def groupByFormData_def by blast
  have c: "k \<notin> fst ` set (customizationExtraFormData a)"
    using assms customization_keys [of a] unfolding kept_field_def by blast
  have e: "k \<notin> fst ` set (fa_extra_controls a)"
    and l: "k \<notin> fst ` set (obj_when P [(''chart_customization'', v)])"
      "k \<notin> fst ` set (obj_when P [(''layer_filter_scope'', v)])" for P v
    using assms by (auto simp: kept_field_def obj_when_def)
  have "new_form_data a = foldl obj_spread (own_form_data a)
          [fa_extra_controls a, groupByFormData a, customizationExtraFormData a,
           obj_when (truthy (fa_chart_customization a)) [(''chart_customization'', fa_chart_customization a)],
           obj_when (layer_filter_scope a \<noteq> []) [(''layer_filter_scope'', JObj (layer_filter_scope a))]]"
    by (simp only: new_form_data_def own_form_data_def foldl.simps)
  then show ?thesis
    by (simp only: foldl.simps jget_spread_absent [OF g] jget_spread_absent [OF c]
          jget_spread_absent [OF e] jget_spread_absent [OF l(1)] jget_spread_absent [OF l(2)])
qed

lemma extra_data_keys: "fst ` set (extra_data a) \<subseteq> {''extra_form_data'', ''filter_data_mapping''}"
  by (simp add: extra_data_def Let_def)

lemma own_form_extra:
  "jget (own_form_data a) ''extra_form_data'' =
     (if filterIdsAppliedOnChart a = [] then jget (obj_spread [] (cp_form_data (fa_chart a))) ''extra_form_data''
      else JObj (getExtraFormData (fa_masks a) (filterIdsAppliedOnChart a)))"
proof (cases "filterIdsAppliedOnChart a = []")
  case True
  then have "extra_data a = []" by (simp add: extra_data_def)
  then show ?thesis
    using True unfolding own_form_data_def
    by (simp add: jget_spread_absent obj_when_def)
next
  case False
  then show ?thesis
    by (simp add: own_form_data_def extra_data_def Let_def jget_spread obj_when_def)
qed

lemma own_form_extra_filters:
  "jget (own_form_data a) ''extra_filters'' = JArr (getEffectiveExtraFilters (snd (fa_filters a)))"
proof -
  have k: "''extra_filters'' \<notin> fst ` set (extra_data a)" using extra_data_keys [of a] by auto
  show ?thesis
    by (simp only: own_form_data_def foldl.simps jget_spread_absent [OF k])
       (simp add: jget_spread_over [of _ "[(_, _)]"])
qed

text \<open>A chart that filters apply to is queried with what their masks add, and only that.\<close>

lemma new_form_extra:
  assumes "''extra_form_data'' \<notin> fst ` set (fa_extra_controls a)" and "filterIdsAppliedOnChart a \<noteq> []"
  shows "jget (new_form_data a) ''extra_form_data'' =
         JObj (getExtraFormData (fa_masks a) (filterIdsAppliedOnChart a))"
proof -
  have "kept_field a ''extra_form_data''"
    using assms(1) by (simp add: kept_field_def group_fields_def extra_keys)
  then show ?thesis using assms(2) by (simp add: new_form_kept own_form_extra)
qed

section \<open>The cache\<close>

lemma obj_ok_new_form: "obj_ok (new_form_data a)"
  by (simp add: new_form_data_def)

text \<open>What the cache stores agrees with the form data, up to the three fields it adds.\<close>

definition cache_only :: "string list" where
  "cache_only = [''dataMask'', ''extraControls'', ''nativeFilters'']"

lemma new_form_customization:
  assumes "truthy (fa_chart_customization a)"
  shows "jget (new_form_data a) ''chart_customization'' = fa_chart_customization a"
proof -
  have k: "''chart_customization'' \<notin>
        fst ` set (obj_when (layer_filter_scope a \<noteq> []) [(''layer_filter_scope'', JObj (layer_filter_scope a))])"
    by simp
  show ?thesis
    using assms
    by (simp only: new_form_data_def foldl.simps jget_spread_absent [OF k]) (simp add: obj_when_def jget_spread)
qed

lemma cached_agrees:
  assumes "k \<notin> set cache_only"
  shows "jget (obj_spread (obj_spread [] (new_form_data a)) (cached_fields a)) k = jget (new_form_data a) k"
proof -
  have fd: "jget (obj_spread [] (new_form_data a)) k = jget (new_form_data a) k"
    using obj_get_spread_ok [OF obj_ok_new_form, of "[]" a k] by (simp add: jget_def split: option.split)
  show ?thesis
  proof (cases "k = ''chart_customization'' \<and> truthy (fa_chart_customization a)")
    case True
    then have "jget (obj_spread (obj_spread [] (new_form_data a)) (cached_fields a)) k = fa_chart_customization a"
      by (simp add: cached_fields_def obj_when_def jget_spread)
    then show ?thesis using True new_form_customization by simp
  next
    case False
    then have "k \<notin> fst ` set (cached_fields a)"
      using assms by (auto simp: cached_fields_def cache_only_def obj_when_def)
    then show ?thesis by (simp add: jget_spread_absent fd)
  qed
qed

lemma get_form_cases:
  fixes is_equal a c
  defines "r \<equiv> getFormDataWithExtraFilters is_equal a c"
  obtains (hit) cached where "obj_get (cachedFormdataByChart c) (fa_slice a) = Some cached"
      and "cache_hit is_equal a (obj_get (cachedFiltersByChart c) (fa_slice a)) cached"
      and "r = (cached, c)"
  | (computed) "fst r = new_form_data a"
      and "obj_get (cachedFormdataByChart (snd r)) (fa_slice a) =
             Some (obj_spread (obj_spread [] (new_form_data a)) (cached_fields a))"
      and "obj_get (cachedFiltersByChart (snd r)) (fa_slice a) = Some (fst (fa_filters a))"
proof (cases "obj_get (cachedFormdataByChart c) (fa_slice a)")
  case None
  then show thesis
    by (intro computed) (simp_all add: r_def getFormDataWithExtraFilters_def Let_def)
next
  case (Some cached)
  show thesis
  proof (cases "cache_hit is_equal a (obj_get (cachedFiltersByChart c) (fa_slice a)) cached")
    case True
    with Some show thesis by (intro hit) (simp_all add: r_def getFormDataWithExtraFilters_def)
  next
    case False
    with Some show thesis
      by (intro computed) (simp_all add: r_def getFormDataWithExtraFilters_def Let_def)
  qed
qed

lemma repeated_call:
  assumes "k \<notin> set cache_only"
  shows "jget (fst (getFormDataWithExtraFilters is_equal a (snd (getFormDataWithExtraFilters is_equal a c)))) k =
         jget (fst (getFormDataWithExtraFilters is_equal a c)) k"
proof (cases rule: get_form_cases [of c a is_equal])
  case (hit cached)
  then show ?thesis by simp
next
  case computed
  show ?thesis
  proof (cases rule: get_form_cases [of "snd (getFormDataWithExtraFilters is_equal a c)" a is_equal])
    case (hit cached)
    then have "cached = obj_spread (obj_spread [] (new_form_data a)) (cached_fields a)"
      using computed(2) by simp
    then show ?thesis using hit(3) computed(1) cached_agrees [OF assms] by simp
  next
    case computed2: computed
    then show ?thesis using computed(1) by simp
  qed
qed

section \<open>The columns that customizations group by\<close>

definition columns_of :: "jsval list \<Rightarrow> (string, groupby_info) obj \<Rightarrow> jsobj \<Rightarrow> string list" where
  "columns_of existing st item =
     (if \<not> truthy (first_target item) then []
      else case obj_get st (key_of (jget item ''id'')) of
             None \<Rightarrow> []
           | Some info \<Rightarrow> filter (\<lambda>c. JStr c \<notin> set existing)
                            (List.map_filter nonempty_str (selectedValues info)))"

lemma group_step_columns:
  "ga_columns (group_step t existing st acc item) =
     (let cs = columns_of existing st item
      in if cs = [] then ga_columns acc else ga_columns (add_group_columns t cs acc))"
  "ga_single (group_step t existing st acc item) =
     (let cs = columns_of existing st item
      in if cs = [] then ga_single acc else ga_single (add_group_columns t cs acc))"
  by (auto simp: group_step_def columns_of_def Let_def split: option.split)

lemma group_columns_many:
  assumes "\<not> isSingleColumnDimensionChart t"
  shows "ga_columns (foldl (group_step t existing st) acc items) =
         foldl push_new (ga_columns acc) (concat (map (columns_of existing st) items))"
proof (induction items arbitrary: acc)
  case Nil
  show ?case by simp
next
  case (Cons item items)
  have "ga_columns (group_step t existing st acc item) =
        foldl push_new (ga_columns acc) (columns_of existing st item)"
    using assms by (simp add: group_step_columns add_group_columns_def Let_def)
  then show ?case using Cons by simp
qed

lemma group_columns_single:
  assumes "isSingleColumnDimensionChart t"
    and "if ga_single acc then ga_columns acc \<noteq> [] else ga_columns acc = []"
  shows "ga_columns (foldl (group_step t existing st) acc items) =
         (if ga_single acc then ga_columns acc
          else take 1 (concat (map (columns_of existing st) items)))"
  using assms(2)
proof (induction items arbitrary: acc)
  case Nil
  then show ?case by simp
next
  case (Cons item items)
  let ?cs = "columns_of existing st item"
  let ?acc = "group_step t existing st acc item"
  show ?case
  proof (cases "ga_single acc \<or> ?cs = []")
    case True
    then have "ga_columns ?acc = ga_columns acc" "ga_single ?acc = ga_single acc"
      using assms(1) by (auto simp: group_step_columns add_group_columns_def Let_def)
    then show ?thesis using Cons.IH [of ?acc] Cons.prems True by auto
  next
    case False
    then have acc: "ga_columns acc = []" "\<not> ga_single acc" "?cs \<noteq> []" using Cons.prems by auto
    then have "ga_columns ?acc = [hd ?cs]" "ga_single ?acc"
      using assms(1) by (simp_all add: group_step_columns add_group_columns_def Let_def)
    moreover have "take 1 (?cs @ xs) = [hd ?cs]" for xs using acc(3) by (cases ?cs) simp_all
    ultimately show ?thesis using Cons.IH [of ?acc] acc(2) by simp
  qed
qed

definition grouped_columns :: "jsobj list \<Rightarrow> chart_payload \<Rightarrow> (string, groupby_info) obj \<Rightarrow> string list" where
  "grouped_columns items chart st =
     (let t = jget (cp_form_data chart) ''viz_type'';
          cs = concat (map (columns_of (buildExistingColumnsSet chart) st) (filter (matches_chart chart) items))
      in if isSingleColumnDimensionChart t then take 1 cs else foldl push_new [] cs)"

lemma grouped_columns_eq:
  "ga_columns (foldl (group_step (jget (cp_form_data chart) ''viz_type'') (buildExistingColumnsSet chart) st)
       \<lparr>ga_columns = [], ga_order = None, ga_single = False\<rparr> (filter (matches_chart chart) items)) =
     grouped_columns items chart st"
  by (simp add: grouped_columns_def group_columns_many group_columns_single Let_def)

lemma distinct_foldl_push_new: "distinct xs \<Longrightarrow> distinct (foldl push_new xs ys)"
  by (induction ys arbitrary: xs) (auto simp: push_new_def)

lemma distinct_grouped: "distinct (grouped_columns items chart st)"
proof -
  have "distinct (take 1 xs)" for xs :: "string list" by (cases xs) simp_all
  then show ?thesis by (simp add: grouped_columns_def distinct_foldl_push_new Let_def)
qed

lemma grouped_free:
  assumes "c \<in> set (grouped_columns items chart st)"
  shows "JStr c \<notin> set (buildExistingColumnsSet chart)"
    and "\<exists>item \<in> set items. matches_chart chart item \<and>
           c \<in> set (columns_of (buildExistingColumnsSet chart) st item)"
proof -
  let ?cs = "concat (map (columns_of (buildExistingColumnsSet chart) st) (filter (matches_chart chart) items))"
  have "set (grouped_columns items chart st) \<subseteq> set ?cs"
    using set_take_subset [of 1 ?cs] by (auto simp: grouped_columns_def set_foldl_push_new Let_def)
  with assms have c: "c \<in> set ?cs" by blast
  then show ex: "\<exists>item \<in> set items. matches_chart chart item \<and>
           c \<in> set (columns_of (buildExistingColumnsSet chart) st item)" by auto
  then show "JStr c \<notin> set (buildExistingColumnsSet chart)"
    by (auto simp: columns_of_def split: if_splits option.splits)
qed

end
