(* ===== verification/QueryObject.thy ===== *)
theory QueryObject
  imports ExtraFormData
begin

text \<open>
  From the form data of a chart to the query that is sent to the backend
  (\<open>superset-ui-core/src/query\<close>): the extra filters and extras, the conversion of filters to simple
  clauses and SQL, the query fields, the overrides of dashboard filters, the time column and the
  order. Form data and query objects are dynamic objects. \<open>forEach\<close> of what is no array, a spread
  of what is not iterable and a property of \<open>null\<close> throw. \<open>JSON.parse\<close> and lodash's \<open>isEmpty\<close> are
  arguments; numbers are integers.
\<close>

named_theorems query_simps

section \<open>Reading dynamic values\<close>

text \<open>\<open>const {k = d} = o\<close>: the default is used for \<open>undefined\<close> only.\<close>

definition with_default :: "jsval \<Rightarrow> jsval \<Rightarrow> jsval" where
  "with_default v d = (if v = JUndef then d else v)"

text \<open>\<open>v.forEach(..)\<close>, \<open>[...v]\<close> and \<open>v.k\<close>.\<close>

definition as_array :: "jsval \<Rightarrow> jsval list result" where
  "as_array v = (case v of JArr xs \<Rightarrow> Inr xs | _ \<Rightarrow> Inl TypeError)"

definition as_iterable :: "jsval \<Rightarrow> jsval list result" where
  "as_iterable v = (case v of JArr xs \<Rightarrow> Inr xs | JStr s \<Rightarrow> Inr (map (\<lambda>c. JStr [c]) s) | _ \<Rightarrow> Inl TypeError)"

definition prop_of :: "jsval \<Rightarrow> string \<Rightarrow> jsval result" where
  "prop_of v k = (if nullish v then Inl TypeError else Inr (chain v k))"

text \<open>\<open>Number(s)\<close> of an integer numeral, \<open>None\<close> for NaN.\<close>

definition trim_blanks :: "string \<Rightarrow> string" where
  "trim_blanks s = rev (dropWhile is_blank (rev (dropWhile is_blank s)))"

definition number_of_string :: "string \<Rightarrow> int option" where
  "number_of_string s =
     (let t = trim_blanks s;
          u = (if t \<noteq> [] \<and> hd t \<in> {CHR ''-'', CHR ''+''} then tl t else t)
      in if t = [] then Some 0
         else if u \<noteq> [] \<and> list_all is_digit u
         then Some (if hd t = CHR ''-'' then - digits_val u else digits_val u)
         else None)"

definition to_number :: "jsval \<Rightarrow> int option" where
  "to_number v =
     (case v of
        JUndef \<Rightarrow> None
      | JNull \<Rightarrow> Some 0
      | JBool b \<Rightarrow> Some (if b then 1 else 0)
      | JNum n \<Rightarrow> Some n
      | _ \<Rightarrow> number_of_string (key_of v))"

section \<open>Types of columns, metrics and filters\<close>

definition is_string :: "jsval \<Rightarrow> bool" where
  "is_string v = (case v of JStr s \<Rightarrow> True | _ \<Rightarrow> False)"

definition isPhysicalColumn :: "jsval \<Rightarrow> bool" where
  "isPhysicalColumn column = is_string column"

definition isAdhocColumn :: "jsval \<Rightarrow> bool" where
  "isAdhocColumn column \<longleftrightarrow>
     \<not> is_string column \<and> chain column ''sqlExpression'' \<noteq> JUndef \<and> chain column ''label'' \<noteq> JUndef \<and>
     (chain column ''expressionType'' = JUndef \<or> chain column ''expressionType'' = JStr ''SQL'')"

definition isQueryFormColumn :: "jsval \<Rightarrow> bool" where
  "isQueryFormColumn column \<longleftrightarrow> isPhysicalColumn column \<or> isAdhocColumn column"

definition isSavedMetric :: "jsval \<Rightarrow> bool" where
  "isSavedMetric metric = is_string metric"

definition isAdhocMetricSimple :: "jsval \<Rightarrow> bool" where
  "isAdhocMetricSimple metric \<longleftrightarrow>
     \<not> is_string metric \<and> chain metric ''expressionType'' = JStr ''SIMPLE''"

definition isAdhocMetricSQL :: "jsval \<Rightarrow> bool" where
  "isAdhocMetricSQL metric \<longleftrightarrow> \<not> is_string metric \<and> chain metric ''expressionType'' = JStr ''SQL''"

definition isQueryFormMetric :: "jsval \<Rightarrow> bool" where
  "isQueryFormMetric metric \<longleftrightarrow>
     isSavedMetric metric \<or> isAdhocMetricSimple metric \<or> isAdhocMetricSQL metric"

definition getColumnLabel :: "jsval \<Rightarrow> jsval" where
  "getColumnLabel column =
     (if isPhysicalColumn column then column
      else if truthy (chain column ''label'') then chain column ''label''
      else chain column ''sqlExpression'')"

definition getMetricLabel :: "jsval \<Rightarrow> jsval result" where
  "getMetricLabel metric =
     (if isSavedMetric metric then Inr metric
      else rbind (prop_of metric ''label'') (\<lambda>label.
        if truthy label then Inr label
        else if isAdhocMetricSimple metric
        then rbind (prop_of (chain metric ''column'') ''columnName'') (\<lambda>n.
               Inr (JStr (key_of (chain metric ''aggregate'') @ ''('' @
                          key_of (js_or n (chain (chain metric ''column'') ''column_name'')) @ '')'')))
        else Inr (chain metric ''sqlExpression'')))"

definition UNARY_OPERATORS :: "string list" where
  "UNARY_OPERATORS = [''IS NOT NULL'', ''IS NULL'']"

definition isUnaryOperator :: "jsval \<Rightarrow> bool" where
  "isUnaryOperator operator = (operator \<in> JStr ` set UNARY_OPERATORS)"

definition isSimpleAdhocFilter :: "jsval \<Rightarrow> bool" where
  "isSimpleAdhocFilter f = (chain f ''expressionType'' = JStr ''SIMPLE'')"

text \<open>Binary and set operators give the same clause, as does every other one.\<close>

definition convertFilter :: "jsval \<Rightarrow> jsval" where
  "convertFilter f =
     (if isUnaryOperator (chain f ''operator'')
      then JObj [(''col'', chain f ''subject''), (''op'', chain f ''operator'')]
      else JObj [(''col'', chain f ''subject''), (''op'', chain f ''operator''),
                 (''val'', chain f ''comparator'')])"

section \<open>Filters\<close>

fun has_comment :: "string \<Rightarrow> bool" where
  "has_comment (a # b # s) = ((a = CHR ''-'' \<and> b = CHR ''-'') \<or> has_comment (b # s))"
| "has_comment s = False"

definition sanitizeClause :: "jsval \<Rightarrow> string result" where
  "sanitizeClause clause =
     (let wrap = (\<lambda>commented s. Inr (''('' @ (if commented then s @ [CHR 0x0A] else s) @ '')''))
      in case clause of
           JStr s \<Rightarrow> wrap (has_comment s) s
         | JArr xs \<Rightarrow> wrap (JStr ''--'' \<in> set xs) (key_of clause)
         | _ \<Rightarrow> Inl TypeError)"

fun join_and :: "string list \<Rightarrow> string" where
  "join_and [] = []"
| "join_and [s] = s"
| "join_and (s # ss) = s @ '' AND '' @ join_and ss"

record split_filters =
  simpleWhere :: "jsval list"
  freeformWhere :: "jsval list"
  freeformHaving :: "jsval list"

definition split_filter :: "split_filters \<Rightarrow> jsval \<Rightarrow> split_filters result" where
  "split_filter acc f =
     rbind (prop_of f ''clause'') (\<lambda>clause. Inr
       (if isSimpleAdhocFilter f
        then if clause = JStr ''WHERE'' then acc\<lparr>simpleWhere := simpleWhere acc @ [convertFilter f]\<rparr> else acc
        else if clause = JStr ''WHERE''
        then acc\<lparr>freeformWhere := freeformWhere acc @ [chain f ''sqlExpression'']\<rparr>
        else acc\<lparr>freeformHaving := freeformHaving acc @ [chain f ''sqlExpression'']\<rparr>))"

definition processFilters :: "jsobj \<Rightarrow> jsobj result" where
  "processFilters formData =
     (let extras = entries_of (with_default (jget formData ''extras'') (JObj []));
          whr = jget formData ''where''
      in rbind (as_array (with_default (jget formData ''filters'') (JArr []))) (\<lambda>filters.
         rbind (as_array (js_or (jget formData ''adhoc_filters'') (JArr []))) (\<lambda>adhoc.
         rbind (rfold split_filter
                  \<lparr>simpleWhere = filters, freeformWhere = (if truthy whr then [whr] else []), freeformHaving = []\<rparr>
                  adhoc) (\<lambda>s.
         rbind (rmap sanitizeClause (freeformHaving s)) (\<lambda>having.
         rbind (rmap sanitizeClause (freeformWhere s)) (\<lambda>wheres.
           Inr [(''filters'', JArr (simpleWhere s)),
                (''extras'', JObj (obj_set ''where'' (JStr (join_and wheres))
                                    (obj_set ''having'' (JStr (join_and having)) extras)))]))))))"

section \<open>Extras\<close>

text \<open>
  The object that maps reserved columns to query fields. \<open>col in obj\<close> also finds what the object
  inherits from \<open>Object.prototype\<close>; the field is then the text of the inherited member.
\<close>

definition reservedColumnsToQueryField :: "(string, string) obj" where
  "reservedColumnsToQueryField =
     [(''__time_range'', ''time_range''), (''__time_col'', ''granularity_sqla''),
      (''__time_grain'', ''time_grain_sqla''), (''__granularity'', ''granularity''),
      (''__time_compare'', ''time_compare'')]"

definition inherited_members :: "string list" where
  "inherited_members =
     [''constructor'', ''__defineGetter__'', ''__defineSetter__'', ''hasOwnProperty'',
      ''__lookupGetter__'', ''__lookupSetter__'', ''isPrototypeOf'', ''propertyIsEnumerable'',
      ''toString'', ''valueOf'', ''__proto__'', ''toLocaleString'']"

definition inherited_text :: "string \<Rightarrow> string" where
  "inherited_text k =
     (if k = ''__proto__'' then ''[object Object]''
      else ''function '' @ (if k = ''constructor'' then ''Object'' else k) @ ''() { [native code] }'')"

definition query_field :: "string \<Rightarrow> string option" where
  "query_field col =
     (case obj_get reservedColumnsToQueryField col of
        Some f \<Rightarrow> Some f
      | None \<Rightarrow> (if col \<in> set inherited_members then Some (inherited_text col) else None))"

record extract_acc =
  ea_fields :: jsobj
  ea_applied :: jsobj
  ea_filters :: "jsval list"

text \<open>Assigning to \<open>applied_time_extras.__proto__\<close> creates no property.\<close>

definition extract_filter :: "extract_acc \<Rightarrow> jsval \<Rightarrow> extract_acc result" where
  "extract_filter acc f =
     rbind (prop_of f ''col'') (\<lambda>col. Inr
       (let key = key_of col; val = chain f ''val''
        in case query_field key of
             Some queryField \<Rightarrow>
               acc\<lparr>ea_fields := obj_set queryField val (ea_fields acc),
                   ea_applied := (if key = ''__proto__'' then ea_applied acc
                                  else obj_set key val (ea_applied acc))\<rparr>
           | None \<Rightarrow> acc\<lparr>ea_filters := ea_filters acc @ [f]\<rparr>))"

definition extractExtras :: "jsobj \<Rightarrow> jsobj result" where
  "extractExtras formData =
     rbind (as_array (js_or (jget formData ''extra_filters'') (JArr []))) (\<lambda>extra_filters.
     rbind (rfold extract_filter \<lparr>ea_fields = [], ea_applied = [], ea_filters = []\<rparr> extra_filters) (\<lambda>acc.
       let fields = ea_fields acc;
           extras = [(''time_grain_sqla'', js_or (jget fields ''time_grain_sqla'') (jget formData ''time_grain_sqla''))];
           granularity = js_or (js_or (jget fields ''granularity_sqla'') (jget formData ''granularity''))
                           (jget formData ''granularity_sqla'')
       in Inr (obj_spread
                 [(''filters'', JArr (ea_filters acc)), (''extras'', JObj extras),
                  (''applied_time_extras'', JObj (ea_applied acc))]
                 (obj_set ''granularity'' granularity
                   (obj_del ''granularity_sqla'' (obj_del ''time_grain_sqla'' fields))))))"

definition extractTimegrain :: "jsobj \<Rightarrow> jsval result" where
  "extractTimegrain formData =
     (let grain = chain (jget formData ''extra_form_data'') ''time_grain_sqla''
      in if truthy grain then Inr grain
         else rbind (as_array (js_or (jget formData ''extra_filters'') (JArr []))) (\<lambda>extra_filters.
              rbind (rmap (\<lambda>f. rbind (prop_of f ''col'') (\<lambda>col. Inr (f, col))) extra_filters) (\<lambda>cols.
                Inr (case find (\<lambda>(f, col). col = JStr ''__time_grain'') cols of
                       Some (f, _) \<Rightarrow> chain f ''val''
                     | None \<Rightarrow> jget formData ''time_grain_sqla''))))"

section \<open>Query fields\<close>

definition predefined_aliases :: "(string, string) obj" where
  "predefined_aliases =
     [(''metric'', ''metrics''), (''metric_2'', ''metrics''), (''secondary_metric'', ''metrics''),
      (''x'', ''metrics''), (''y'', ''metrics''), (''size'', ''metrics''),
      (''all_columns'', ''columns''), (''series'', ''groupby''), (''order_by_cols'', ''orderby'')]"

text \<open>The first element with each hash, whose computation may throw.\<close>

fun remove_dups :: "('a \<Rightarrow> 'h result) \<Rightarrow> 'h list \<Rightarrow> 'a list \<Rightarrow> 'a list result" where
  "remove_dups hash seen [] = Inr []"
| "remove_dups hash seen (x # xs) =
     rbind (hash x) (\<lambda>h.
       if h \<in> set seen then remove_dups hash seen xs
       else rbind (remove_dups hash (seen @ [h]) xs) (\<lambda>ys. Inr (x # ys)))"

definition removeDuplicates :: "('a \<Rightarrow> 'h result) \<Rightarrow> 'a list \<Rightarrow> 'a list result" where
  "removeDuplicates hash items = remove_dups hash [] items"

text \<open>\<open>xs.concat(v)\<close>.\<close>

definition concat_value :: "jsval list \<Rightarrow> jsval \<Rightarrow> jsval list" where
  "concat_value xs v = (case v of JArr ys \<Rightarrow> xs @ ys | _ \<Rightarrow> xs @ [v])"

record query_fields =
  qf_columns :: "jsval list"
  qf_metrics :: "jsval list"
  qf_orderby :: "jsval list"

definition query_field_name :: "(string, string) obj \<Rightarrow> string \<Rightarrow> string" where
  "query_field_name aliases key =
     (case obj_get aliases key of Some (c # cs) \<Rightarrow> c # cs | _ \<Rightarrow> key)"

definition add_query_field ::
    "(string, string) obj \<Rightarrow> jsval \<Rightarrow> query_fields \<Rightarrow> string \<times> jsval \<Rightarrow> query_fields" where
  "add_query_field aliases queryMode acc kv =
     (let (key, v) = kv; name = query_field_name aliases key
      in if nullish v then acc
         else if queryMode = JStr ''aggregate'' \<and> name = ''columns'' then acc
         else if queryMode = JStr ''raw'' \<and> (name = ''groupby'' \<or> name = ''metrics'') then acc
         else let field = (if name = ''groupby'' then ''columns'' else name)
              in if field = ''metrics'' then acc\<lparr>qf_metrics := concat_value (qf_metrics acc) v\<rparr>
                 else if field = ''columns'' then acc\<lparr>qf_columns := concat_value (qf_columns acc) v\<rparr>
                 else if field = ''orderby'' then acc\<lparr>qf_orderby := concat_value (qf_orderby acc) v\<rparr>
                 else acc)"

definition collect_query_fields ::
    "(string, string) obj \<Rightarrow> jsval \<Rightarrow> jsobj \<Rightarrow> query_fields" where
  "collect_query_fields aliases queryMode restFormData =
     foldl (add_query_field aliases queryMode) \<lparr>qf_columns = [], qf_metrics = [], qf_orderby = []\<rparr>
       (js_order restFormData)"

text \<open>\<open>json_parse\<close> is \<open>JSON.parse\<close>, \<open>None\<close> when it throws.\<close>

definition parse_orderby :: "(string \<Rightarrow> jsval option) \<Rightarrow> jsval \<Rightarrow> jsval result" where
  "parse_orderby json_parse item =
     (case item of
        JStr s \<Rightarrow> or_throw (ParseError ''Found invalid orderby options'') (json_parse s)
      | _ \<Rightarrow> Inr item)"

definition extractQueryFields ::
    "(string \<Rightarrow> jsval option) \<Rightarrow> jsobj \<Rightarrow> (string, string) obj \<Rightarrow> jsobj result" where
  "extractQueryFields json_parse formData aliases =
     (let queryMode = jget formData ''query_mode'';
          qf = collect_query_fields (obj_spread predefined_aliases aliases) queryMode
                 (obj_del ''query_mode'' formData)
      in rbind (removeDuplicates (\<lambda>c. Inr (getColumnLabel c)) (filter (\<lambda>c. c \<noteq> JStr []) (qf_columns qf))) (\<lambda>columns.
         rbind (if queryMode = JStr ''raw'' then Inr JUndef
                else rbind (removeDuplicates getMetricLabel (qf_metrics qf)) (\<lambda>ms. Inr (JArr ms))) (\<lambda>metrics.
         rbind (if qf_orderby qf = [] then Inr JUndef
                else rbind (rmap (parse_orderby json_parse) (qf_orderby qf)) (\<lambda>os. Inr (JArr os))) (\<lambda>orderby.
           Inr [(''columns'', JArr columns), (''metrics'', metrics), (''orderby'', orderby)]))))"

section \<open>Overrides\<close>

definition override_regular :: "jsobj \<Rightarrow> jsobj \<Rightarrow> string \<times> string \<Rightarrow> jsobj" where
  "override_regular overrideFormData q kt =
     (if jget overrideFormData (fst kt) \<noteq> JUndef
      then obj_set (snd kt) (jget overrideFormData (fst kt)) q else q)"

definition override_extra :: "jsobj \<Rightarrow> jsobj \<Rightarrow> string \<Rightarrow> jsobj" where
  "override_extra overrideFormData extras key =
     (case obj_get overrideFormData key of None \<Rightarrow> extras | Some v \<Rightarrow> obj_set key v extras)"

definition overrideExtraFormData :: "jsobj \<Rightarrow> jsobj \<Rightarrow> jsobj" where
  "overrideExtraFormData queryObject overrideFormData =
     (let extras = entries_of (with_default (jget queryObject ''extras'') (JObj []));
          q = foldl (override_regular overrideFormData) (obj_spread [] queryObject)
                EXTRA_FORM_DATA_OVERRIDE_REGULAR_MAPPINGS;
          extras' = foldl (override_extra overrideFormData) extras EXTRA_FORM_DATA_OVERRIDE_EXTRA_KEYS
      in if extras' \<noteq> [] then obj_set ''extras'' (JObj extras') q else q)"

section \<open>The query object\<close>

definition residual_keys :: "string list" where
  "residual_keys =
     [''annotation_layers'', ''extra_form_data'', ''time_range'', ''since'', ''until'', ''row_limit'',
      ''row_offset'', ''order_desc'', ''limit'', ''timeseries_limit_metric'', ''granularity'',
      ''url_params'', ''custom_params'', ''series_columns'', ''series_limit'', ''series_limit_metric'',
      ''group_others_when_limit_reached'']"

definition without_keys :: "string list \<Rightarrow> jsobj \<Rightarrow> jsobj" where
  "without_keys ks ob = filter (\<lambda>(k, _). k \<notin> set ks) ob"

definition or_undef :: "jsval \<Rightarrow> jsval" where
  "or_undef v = (if truthy v then v else JUndef)"

definition limit_number :: "jsval \<Rightarrow> jsval" where
  "limit_number v =
     (if nullish v then JUndef else case to_number v of None \<Rightarrow> JUndef | Some n \<Rightarrow> JNum n)"

text \<open>\<open>Number(limit)\<close> of a series limit may be NaN, which is sent as \<open>null\<close>.\<close>

definition series_limit_of :: "jsobj \<Rightarrow> jsval" where
  "series_limit_of formData =
     js_coalesce (jget formData ''series_limit'')
       (if nullish (jget formData ''limit'') then JNum 0
        else case to_number (jget formData ''limit'') of None \<Rightarrow> JNull | Some n \<Rightarrow> JNum n)"

definition series_limit_metric_of :: "jsobj \<Rightarrow> jsval" where
  "series_limit_metric_of formData =
     js_coalesce
       (js_coalesce
         (if isQueryFormMetric (jget formData ''series_limit_metric'')
          then jget formData ''series_limit_metric'' else JUndef)
         (jget formData ''timeseries_limit_metric''))
       JUndef"

definition own_query_fields :: "jsobj \<Rightarrow> jsobj \<Rightarrow> jsobj" where
  "own_query_fields formData qfs =
     [(''columns'', jget qfs ''columns''), (''metrics'', jget qfs ''metrics''),
      (''orderby'', jget qfs ''orderby''),
      (''annotation_layers'', with_default (jget formData ''annotation_layers'') (JArr [])),
      (''row_limit'', limit_number (jget formData ''row_limit'')),
      (''row_offset'', limit_number (jget formData ''row_offset'')),
      (''series_columns'', jget formData ''series_columns''),
      (''series_limit'', series_limit_of formData),
      (''series_limit_metric'', series_limit_metric_of formData),
      (''group_others_when_limit_reached'',
        js_coalesce (jget formData ''group_others_when_limit_reached'') (JBool False)),
      (''order_desc'', with_default (jget formData ''order_desc'') (JBool True)),
      (''url_params'', or_undef (with_default (jget formData ''url_params'') (JObj []))),
      (''custom_params'', with_default (jget formData ''custom_params'') (JObj []))]"

text \<open>\<open>const { filters: extraFilters } = extras\<close>, an array that \<open>extractExtras\<close> made.\<close>

definition extra_filters_of :: "jsobj \<Rightarrow> jsval list" where
  "extra_filters_of extras = (case jget extras ''filters'' of JArr xs \<Rightarrow> xs | _ \<Rightarrow> [])"

definition buildQueryObject ::
    "(string \<Rightarrow> jsval option) \<Rightarrow> jsobj \<Rightarrow> (string, string) obj \<Rightarrow> jsobj result" where
  "buildQueryObject json_parse formData queryFields =
     (let extra = entries_of (js_or (jget formData ''extra_form_data'') (JObj []));
          overrides = without_keys [''adhoc_filters'', ''filters'', ''custom_form_data''] extra
      in rbind (extractQueryFields json_parse (without_keys residual_keys formData) queryFields) (\<lambda>qfs.
         rbind (extractExtras formData) (\<lambda>extras.
         rbind (as_iterable (with_default (jget extra ''filters'') (JArr []))) (\<lambda>appendFilters.
         rbind (as_iterable (js_or (jget formData ''adhoc_filters'') (JArr []))) (\<lambda>ownAdhoc.
         rbind (as_iterable (with_default (jget extra ''adhoc_filters'') (JArr []))) (\<lambda>appendAdhoc.
           let filterFormData =
                 [(''filters'', JArr (extra_filters_of extras @ appendFilters)),
                  (''adhoc_filters'', JArr (ownAdhoc @ appendAdhoc))]
           in rbind (processFilters (obj_spread (obj_spread (obj_spread [] formData) extras) filterFormData))
                (\<lambda>extrasAndfilters.
                  let queryObject =
                        foldl obj_spread
                          [(''time_range'', or_undef (jget formData ''time_range'')),
                           (''since'', or_undef (jget formData ''since'')),
                           (''until'', or_undef (jget formData ''until'')),
                           (''granularity'', or_undef (jget formData ''granularity''))]
                          [extras, extrasAndfilters, own_query_fields formData qfs]
                  in Inr (obj_set ''custom_form_data'' (with_default (jget extra ''custom_form_data'') (JObj []))
                            (obj_spread [] (overrideExtraFormData queryObject overrides))))))))))"

section \<open>Time column and order\<close>

definition isXAxisSet :: "jsobj \<Rightarrow> bool" where
  "isXAxisSet formData = isQueryFormColumn (jget formData ''x_axis'')"

definition getXAxisColumn :: "jsobj \<Rightarrow> jsval" where
  "getXAxisColumn formData =
     (if \<not> (truthy (jget formData ''granularity_sqla'') \<or> truthy (jget formData ''x_axis'')) then JUndef
      else if isXAxisSet formData then jget formData ''x_axis''
      else JStr ''__timestamp'')"

definition getXAxisLabel :: "jsobj \<Rightarrow> jsval" where
  "getXAxisLabel formData =
     (if truthy (getXAxisColumn formData) then getColumnLabel (getXAxisColumn formData) else JUndef)"

definition is_axis_column :: "jsval \<Rightarrow> jsval \<Rightarrow> bool" where
  "is_axis_column xAxis col \<longleftrightarrow>
     (isPhysicalColumn col \<and> isPhysicalColumn xAxis \<and> col = xAxis) \<or>
     (isAdhocColumn col \<and> isAdhocColumn xAxis \<and>
      chain col ''sqlExpression'' = chain xAxis ''sqlExpression'')"

definition base_axis :: "jsval \<Rightarrow> jsval \<Rightarrow> jsval \<Rightarrow> jsval" where
  "base_axis grain xAxis col =
     (let common = [(''timeGrain'', grain), (''columnType'', JStr ''BASE_AXIS'')]
      in JObj (if isAdhocColumn col then obj_spread common (entries_of col)
               else common @ [(''sqlExpression'', xAxis), (''label'', xAxis),
                              (''expressionType'', JStr ''SQL''), (''isColumnReference'', JBool True)]))"

text \<open>\<open>columns\<close> is an array or absent.\<close>

definition normalizeTimeColumn :: "jsobj \<Rightarrow> jsobj \<Rightarrow> jsobj" where
  "normalizeTimeColumn formData queryObject =
     (if \<not> isXAxisSet formData then queryObject
      else let xAxis = jget formData ''x_axis'';
               grain = chain (jget queryObject ''extras'') ''time_grain_sqla''
           in case jget queryObject ''columns'' of
                JArr columns \<Rightarrow>
                  (case find_index (is_axis_column xAxis) columns of
                     None \<Rightarrow> queryObject
                   | Some axisIdx \<Rightarrow>
                       (if truthy xAxis
                        then obj_set ''columns''
                               (JArr (columns[axisIdx := base_axis grain xAxis (columns ! axisIdx)]))
                               (obj_del ''is_timeseries'' queryObject)
                        else queryObject))
              | _ \<Rightarrow> queryObject)"

text \<open>\<open>is_empty\<close> is lodash's \<open>isEmpty\<close>.\<close>

definition valid_orderby :: "(jsval \<Rightarrow> bool) \<Rightarrow> jsval \<Rightarrow> bool" where
  "valid_orderby is_empty orderby =
     (case orderby of
        JArr (JArr [c, JBool b] # rest) \<Rightarrow> \<not> is_empty c
      | _ \<Rightarrow> False)"

definition normalizeOrderBy :: "(jsval \<Rightarrow> bool) \<Rightarrow> jsobj \<Rightarrow> jsobj" where
  "normalizeOrderBy is_empty queryObject =
     (if valid_orderby is_empty (jget queryObject ''orderby'') then queryObject
      else let clone = obj_del ''orderby'' (obj_del ''order_desc'' (obj_del ''legacy_order_by''
                         (obj_del ''series_limit_metric'' (obj_spread [] queryObject))));
               isAsc = JBool (\<not> truthy (jget queryObject ''order_desc''));
               by = (\<lambda>m. obj_set ''orderby'' (JArr [JArr [m, isAsc]]) clone);
               usable = (\<lambda>v. \<not> nullish v \<and> \<not> is_empty v);
               seriesMetric = jget queryObject ''series_limit_metric'';
               legacy = jget queryObject ''legacy_order_by''
           in if usable seriesMetric then by seriesMetric
              else if usable legacy then by legacy
              else case jget queryObject ''metrics'' of
                     JArr (m # ms) \<Rightarrow> by m
                   | _ \<Rightarrow> clone)"

section \<open>The query context\<close>

datatype datasource_type = TABLE_SOURCE | QUERY_SOURCE

record datasource_key =
  dk_id :: "int option"
  dk_type :: datasource_type

fun source_text :: "datasource_type \<Rightarrow> string" where
  "source_text TABLE_SOURCE = ''table''"
| "source_text QUERY_SOURCE = ''query''"

text \<open>\<open>key.split('__')\<close>.\<close>

fun split_dunder :: "string \<Rightarrow> string \<Rightarrow> string list" where
  "split_dunder acc (a # b # s) =
     (if a = CHR ''_'' \<and> b = CHR ''_'' then rev acc # split_dunder [] s
      else split_dunder (a # acc) (b # s))"
| "split_dunder acc [a] = [rev (a # acc)]"
| "split_dunder acc [] = [rev acc]"

definition DatasourceKey :: "string \<Rightarrow> datasource_key" where
  "DatasourceKey key =
     (let parts = split_dunder [] key
      in \<lparr>dk_id = parse_int (hd parts),
          dk_type = (if length parts > 1 \<and> parts ! 1 = ''query'' then QUERY_SOURCE else TABLE_SOURCE)\<rparr>)"

text \<open>An id that is no number is written \<open>NaN\<close>.\<close>

definition datasource_string :: "datasource_key \<Rightarrow> string" where
  "datasource_string d =
     (case dk_id d of None \<Rightarrow> ''NaN'' | Some n \<Rightarrow> int_string n) @ ''__'' @ source_text (dk_type d)"

definition datasource_object :: "datasource_key \<Rightarrow> jsval" where
  "datasource_object d =
     JObj [(''id'', case dk_id d of None \<Rightarrow> JNull | Some n \<Rightarrow> JNum n), (''type'', JStr (source_text (dk_type d)))]"

definition drop_falsy_rules :: "jsobj \<Rightarrow> jsobj" where
  "drop_falsy_rules query =
     (case jget query ''post_processing'' of
        JArr rules \<Rightarrow> obj_set ''post_processing'' (JArr (filter truthy rules)) query
      | _ \<Rightarrow> query)"

text \<open>\<open>buildQuery\<close> is the function of the chart's plugin. A data source that is no string throws.\<close>

definition buildQueryContext ::
    "(string \<Rightarrow> jsval option) \<Rightarrow> (jsobj \<Rightarrow> jsobj list) \<Rightarrow> (string, string) obj \<Rightarrow> jsobj \<Rightarrow> jsobj result" where
  "buildQueryContext json_parse buildQuery queryFields formData =
     rbind (buildQueryObject json_parse formData queryFields) (\<lambda>base.
       let queries = map drop_falsy_rules (buildQuery base);
           queries' = (if isXAxisSet formData then map (normalizeTimeColumn formData) queries else queries)
       in case jget formData ''datasource'' of
            JStr key \<Rightarrow>
              Inr [(''datasource'', datasource_object (DatasourceKey key)),
                   (''force'', js_or (jget formData ''force'') (JBool False)),
                   (''queries'', JArr (map JObj queries')),
                   (''form_data'', JObj formData),
                   (''result_format'', js_or (jget formData ''result_format'') (JStr ''json'')),
                   (''result_type'', js_or (jget formData ''result_type'') (JStr ''full''))]
          | _ \<Rightarrow> Inl TypeError)"

end
