(* ===== verification/ChartQuery.thy ===== *)
theory ChartQuery
  imports ChartFormData QueryObject
begin

text \<open>
  How the filters of a dashboard reach the query of a chart: the data masks that the reducer keeps,
  the active filters, the form data and the query object put together. The lemmas follow a field
  through \<open>buildQueryObject\<close>; the properties state which clauses and settings a query has, that
  well-typed form data build a query, what the cache of form data returns, and how many columns
  customizations group a chart by.
\<close>

section \<open>Fields of the query object\<close>

lemma as_array_Inr: "as_array v = Inr xs \<longleftrightarrow> v = JArr xs"
  by (cases v) (auto simp: as_array_def)

lemma as_iterable_Inr: "as_iterable v = Inr xs \<Longrightarrow> spread_iterable v = xs"
  by (cases v) (auto simp: as_iterable_def spread_iterable_def)

lemma spread_default: "spread_iterable (with_default v (JArr [])) = spread_iterable v"
  by (simp add: with_default_def spread_iterable_def)

definition simple_where :: "jsval \<Rightarrow> bool" where
  "simple_where f \<longleftrightarrow> isSimpleAdhocFilter f \<and> chain f ''clause'' = JStr ''WHERE''"

definition sql_where :: "jsval \<Rightarrow> bool" where
  "sql_where f \<longleftrightarrow> \<not> isSimpleAdhocFilter f \<and> chain f ''clause'' = JStr ''WHERE''"

definition sql_having :: "jsval \<Rightarrow> bool" where
  "sql_having f \<longleftrightarrow> \<not> isSimpleAdhocFilter f \<and> chain f ''clause'' \<noteq> JStr ''WHERE''"

lemma split_filters_result:
  assumes "rfold split_filter s adhoc = Inr s'"
  shows "simpleWhere s' = simpleWhere s @ map convertFilter (filter simple_where adhoc)"
    and "freeformWhere s' = freeformWhere s @ map (\<lambda>f. chain f ''sqlExpression'') (filter sql_where adhoc)"
    and "freeformHaving s' = freeformHaving s @ map (\<lambda>f. chain f ''sqlExpression'') (filter sql_having adhoc)"
  using assms
proof (induction adhoc arbitrary: s)
  case Nil
  { case 1 then show ?case by simp }
  { case 2 then show ?case by simp }
  { case 3 then show ?case by simp }
next
  case (Cons f fs)
  { case 1
    then obtain t where "split_filter s f = Inr t" and t: "rfold split_filter t fs = Inr s'"
      by (auto simp: rbind_eq_Inr)
    then show ?case using Cons.IH(1) [OF t]
      by (auto simp: split_filter_def rbind_eq_Inr prop_of_def simple_where_def split: if_splits) }
  { case 2
    then obtain t where "split_filter s f = Inr t" and t: "rfold split_filter t fs = Inr s'"
      by (auto simp: rbind_eq_Inr)
    then show ?case using Cons.IH(2) [OF t]
      by (auto simp: split_filter_def rbind_eq_Inr prop_of_def sql_where_def split: if_splits) }
  { case 3
    then obtain t where "split_filter s f = Inr t" and t: "rfold split_filter t fs = Inr s'"
      by (auto simp: rbind_eq_Inr)
    then show ?case using Cons.IH(3) [OF t]
      by (auto simp: split_filter_def rbind_eq_Inr prop_of_def sql_having_def split: if_splits) }
qed

lemma processFilters_filters:
  assumes "processFilters p = Inr r" and "jget p ''filters'' = JArr fs" and "jget p ''adhoc_filters'' = JArr adhoc"
  shows "jget r ''filters'' = JArr (fs @ map convertFilter (filter simple_where adhoc))"
  using assms
  by (auto simp: processFilters_def rbind_eq_Inr as_array_Inr with_default_def js_or_def Let_def
        dest!: split_filters_result(1))

lemma processFilters_keys:
  "processFilters p = Inr r \<Longrightarrow> map fst r = [''filters'', ''extras'']"
  by (auto simp: processFilters_def rbind_eq_Inr Let_def)

definition unreserved :: "jsval \<Rightarrow> bool" where
  "unreserved f \<longleftrightarrow> query_field (key_of (chain f ''col'')) = None"

lemma extract_filters_result:
  assumes "rfold extract_filter acc fs = Inr acc'"
  shows "ea_filters acc' = ea_filters acc @ filter unreserved fs"
  using assms
proof (induction fs arbitrary: acc)
  case Nil
  then show ?case by simp
next
  case (Cons f fs)
  then obtain t where s: "extract_filter acc f = Inr t" and t: "rfold extract_filter t fs = Inr acc'"
    by (auto simp: rbind_eq_Inr)
  from s have "ea_filters t = ea_filters acc @ filter unreserved [f]"
    by (auto simp: extract_filter_def rbind_eq_Inr prop_of_def unreserved_def Let_def split: if_splits option.splits)
  then show ?case using Cons.IH [OF t] by simp
qed

text \<open>The fields of the query that a reserved column sets.\<close>

definition reserved_fields :: "string set" where
  "reserved_fields = snd ` set reservedColumnsToQueryField \<union> inherited_text ` set inherited_members"

lemma query_field_reserved: "query_field col = Some k \<Longrightarrow> k \<in> reserved_fields"
  by (auto simp: query_field_def reserved_fields_def split: option.splits if_splits dest!: map_of_SomeD)
     (metis image_eqI snd_conv)

lemma extract_fields_keys:
  assumes "rfold extract_filter acc fs = Inr acc'"
  shows "fst ` set (ea_fields acc') \<subseteq> fst ` set (ea_fields acc) \<union> reserved_fields"
  using assms
proof (induction fs arbitrary: acc)
  case Nil
  then show ?case by simp
next
  case (Cons f fs)
  then obtain t where s: "extract_filter acc f = Inr t" and t: "rfold extract_filter t fs = Inr acc'"
    by (auto simp: rbind_eq_Inr)
  have "fst ` set (ea_fields t) \<subseteq> fst ` set (ea_fields acc) \<union> reserved_fields"
  proof (cases "query_field (key_of (chain f ''col''))")
    case None
    then have "ea_fields t = ea_fields acc"
      using s by (auto simp: extract_filter_def rbind_eq_Inr prop_of_def Let_def split: if_splits)
    then show ?thesis by simp
  next
    case (Some k)
    then have "ea_fields t = obj_set k (chain f ''val'') (ea_fields acc)"
      using s by (auto simp: extract_filter_def rbind_eq_Inr prop_of_def Let_def split: if_splits)
    then show ?thesis
      using query_field_reserved [OF Some] by (simp only: set_fst_obj_set) blast
  qed
  then show ?case using Cons.IH [OF t] by blast
qed

lemma reserved_fields_not:
  "''filters'' \<notin> reserved_fields" "''where'' \<notin> reserved_fields" "''extras'' \<notin> reserved_fields" "''adhoc_filters'' \<notin> reserved_fields"
  by (simp_all add: reserved_fields_def reservedColumnsToQueryField_def inherited_members_def inherited_text_def)

section \<open>Extras and overrides\<close>

lemma jget_spread_present: "obj_ok b \<Longrightarrow> k \<in> fst ` set b \<Longrightarrow> jget (obj_spread a b) k = jget b k"
proof -
  assume ok: "obj_ok b" and k: "k \<in> fst ` set b"
  from k obtain v where "obj_get b k = Some v" by (metis map_of_eq_None_iff option.exhaust)
  then show ?thesis by (simp add: jget_def obj_get_spread_ok [OF ok])
qed

lemma jget_copy: "obj_ok b \<Longrightarrow> jget (obj_spread [] b) k = jget b k"
  by (simp add: jget_def obj_get_spread_ok split: option.split)

text \<open>The filters of filter boxes; \<open>extra_filters || []\<close>.\<close>

definition box_filters :: "jsobj \<Rightarrow> jsval list" where
  "box_filters fd = array_elems (js_or (jget fd ''extra_filters'') (JArr []))"

lemma extractExtras_result:
  assumes "extractExtras fd = Inr e"
  shows "jget e ''filters'' = JArr (filter unreserved (box_filters fd))"
    and "\<exists>g. jget e ''extras'' = JObj [(''time_grain_sqla'', g)]"
    and "''adhoc_filters'' \<notin> fst ` set e" and "''where'' \<notin> fst ` set e"
proof -
  from assms obtain fs acc ex ap g where
    fs: "js_or (jget fd ''extra_filters'') (JArr []) = JArr fs" and
    acc: "rfold extract_filter \<lparr>ea_fields = [], ea_applied = [], ea_filters = []\<rparr> fs = Inr acc" and
    e: "e = obj_spread [(''filters'', JArr (ea_filters acc)), (''extras'', JObj [(''time_grain_sqla'', ex)]),
              (''applied_time_extras'', ap)]
             (obj_set ''granularity'' g (obj_del ''granularity_sqla'' (obj_del ''time_grain_sqla'' (ea_fields acc))))"
    by (auto simp: extractExtras_def rbind_eq_Inr as_array_Inr Let_def)
  let ?b = "obj_set ''granularity'' g (obj_del ''granularity_sqla'' (obj_del ''time_grain_sqla'' (ea_fields acc)))"
  have "fst ` set (obj_del ''granularity_sqla'' (obj_del ''time_grain_sqla'' (ea_fields acc))) \<subseteq> fst ` set (ea_fields acc)"
    by (auto simp: obj_del_def)
  then have b: "fst ` set ?b \<subseteq> insert ''granularity'' reserved_fields"
    using extract_fields_keys [OF acc] by (simp only: set_fst_obj_set) auto
  have f: "''filters'' \<notin> fst ` set ?b" and x: "''extras'' \<notin> fst ` set ?b"
    and a: "''adhoc_filters'' \<notin> fst ` set ?b" and w: "''where'' \<notin> fst ` set ?b"
    using b reserved_fields_not by auto
  show "jget e ''filters'' = JArr (filter unreserved (box_filters fd))"
    unfolding e jget_spread_absent [OF f]
    using extract_filters_result [OF acc] by (simp add: box_filters_def fs array_elems_def)
  show "\<exists>g. jget e ''extras'' = JObj [(''time_grain_sqla'', g)]"
    unfolding e jget_spread_absent [OF x] by simp
  show "''adhoc_filters'' \<notin> fst ` set e"
    unfolding e keys_spread using a by simp
  show "''where'' \<notin> fst ` set e"
    unfolding e keys_spread using w by simp
qed

lemma jget_override_regular:
  "jget (override_regular ov q (key, t)) k =
     (if k = t \<and> jget ov key \<noteq> JUndef then jget ov key else jget q k)"
  by (simp add: override_regular_def jget_obj_set)

lemma jget_override_extra:
  "jget (override_extra ov e key) k =
     (if k = key \<and> key \<in> fst ` set ov then jget ov key else jget e k)"
proof (cases "obj_get ov key")
  case None
  then have "key \<notin> fst ` set ov" by (simp add: map_of_eq_None_iff)
  then show ?thesis using None by (simp add: override_extra_def)
next
  case (Some v)
  then have "key \<in> fst ` set ov" "jget ov key = v"
    by (auto simp: jget_def dest!: map_of_SomeD) (metis fst_conv imageI)
  then show ?thesis using Some by (simp add: override_extra_def jget_obj_set)
qed

lemma obj_set_not_Nil [simp]: "obj_set k v ob \<noteq> []"
  by (cases ob) (auto split: if_splits)

lemma obj_ok_override: "obj_ok (overrideExtraFormData q ov)"
proof -
  have "obj_ok (foldl (override_regular ov) q' ms)" if "obj_ok q'" for q' ms
    using that by (induction ms arbitrary: q') (auto simp: override_regular_def)
  then show ?thesis by (simp add: overrideExtraFormData_def Let_def)
qed

lemma jget_override:
  assumes "k \<noteq> ''extras''" and "obj_ok q"
  shows "jget (overrideExtraFormData q ov) k =
     (if k = ''granularity'' \<and> jget ov ''granularity_sqla'' \<noteq> JUndef then jget ov ''granularity_sqla''
      else if k \<in> set EXTRA_FORM_DATA_OVERRIDE_REGULAR_KEYS \<and> k \<noteq> ''granularity_sqla'' \<and> jget ov k \<noteq> JUndef
      then jget ov k else jget q k)"
proof -
  let ?q = "foldl (override_regular ov) (obj_spread [] q) EXTRA_FORM_DATA_OVERRIDE_REGULAR_MAPPINGS"
  have "jget (overrideExtraFormData q ov) k = jget ?q k"
    using assms(1) by (simp add: overrideExtraFormData_def jget_obj_set Let_def)
  moreover have "jget ?q k =
     (if k = ''granularity'' \<and> jget ov ''granularity_sqla'' \<noteq> JUndef then jget ov ''granularity_sqla''
      else if k \<in> set EXTRA_FORM_DATA_OVERRIDE_REGULAR_KEYS \<and> k \<noteq> ''granularity_sqla'' \<and> jget ov k \<noteq> JUndef
      then jget ov k else jget q k)"
    unfolding EXTRA_FORM_DATA_OVERRIDE_REGULAR_KEYS_def EXTRA_FORM_DATA_OVERRIDE_REGULAR_MAPPINGS_def
      foldl.simps jget_override_regular jget_copy [OF assms(2)] obj_keys_def
    by auto
  ultimately show ?thesis by simp
qed

lemma jget_override_extras:
  assumes "jget q ''extras'' = JObj e" and "e \<noteq> []"
  shows "\<exists>e'. jget (overrideExtraFormData q ov) ''extras'' = JObj e' \<and>
     (\<forall>key. jget e' key =
        (if key \<in> set EXTRA_FORM_DATA_OVERRIDE_EXTRA_KEYS \<and> key \<in> fst ` set ov
         then jget ov key else jget e key))"
proof -
  let ?e = "foldl (override_extra ov) e EXTRA_FORM_DATA_OVERRIDE_EXTRA_KEYS"
  have "override_extra ov x k \<noteq> []" if "x \<noteq> []" for x k
  proof (cases "obj_get ov k")
    case None
    then show ?thesis using that by (simp add: override_extra_def)
  next
    case (Some v)
    then show ?thesis by (simp add: override_extra_def)
  qed
  then have "foldl (override_extra ov) e ks \<noteq> []" for ks
    using assms(2) by (induction ks arbitrary: e) simp_all
  then have "jget (overrideExtraFormData q ov) ''extras'' = JObj ?e"
    using assms(1) by (simp add: overrideExtraFormData_def with_default_def jget_obj_set Let_def)
  moreover have "jget ?e key = (if key \<in> set EXTRA_FORM_DATA_OVERRIDE_EXTRA_KEYS \<and> key \<in> fst ` set ov
         then jget ov key else jget e key)" for key
  proof (cases "key \<in> set EXTRA_FORM_DATA_OVERRIDE_EXTRA_KEYS")
    case True
    then have "key = ''relative_start'' \<or> key = ''relative_end'' \<or> key = ''time_grain_sqla''"
      by (simp add: EXTRA_FORM_DATA_OVERRIDE_EXTRA_KEYS_def)
    then show ?thesis
      by (elim disjE) (simp_all add: EXTRA_FORM_DATA_OVERRIDE_EXTRA_KEYS_def jget_override_extra)
  next
    case False
    then show ?thesis
      by (simp add: EXTRA_FORM_DATA_OVERRIDE_EXTRA_KEYS_def jget_override_extra)
  qed
  ultimately show ?thesis by blast
qed

section \<open>What a query object is made of\<close>

definition extra_form :: "jsobj \<Rightarrow> jsobj" where
  "extra_form fd = entries_of (js_or (jget fd ''extra_form_data'') (JObj []))"

definition override_form :: "jsobj \<Rightarrow> jsobj" where
  "override_form fd = without_keys [''adhoc_filters'', ''filters'', ''custom_form_data''] (extra_form fd)"

definition all_adhoc :: "jsobj \<Rightarrow> jsval list" where
  "all_adhoc fd = spread_iterable (js_or (jget fd ''adhoc_filters'') (JArr [])) @
                  spread_iterable (jget (extra_form fd) ''adhoc_filters'')"

lemma jget_without: "k \<notin> set ks \<Longrightarrow> jget (without_keys ks ob) k = jget ob k"
  by (induction ob) (auto simp: without_keys_def split: if_splits)

lemma in_without: "k \<notin> set ks \<Longrightarrow> k \<in> fst ` set (without_keys ks ob) \<longleftrightarrow> k \<in> fst ` set ob"
  by (force simp: without_keys_def image_iff)

lemma buildQueryObject_parts:
  assumes "buildQueryObject jp fd al = Inr q"
  obtains base r qfs where "extractQueryFields jp (without_keys residual_keys fd) al = Inr qfs"
    and "jget base ''columns'' = jget qfs ''columns''" and "obj_ok base" and "jget base ''filters'' = jget r ''filters''"
    and "jget base ''extras'' = jget r ''extras''"
    and "jget r ''filters'' = JArr (filter unreserved (box_filters fd) @
           spread_iterable (jget (extra_form fd) ''filters'') @
           map convertFilter (filter simple_where (all_adhoc fd)))"
    and "\<exists>e. jget r ''extras'' = JObj e \<and> e \<noteq> [] \<and> is_string (jget e ''where'') \<and> is_string (jget e ''having'')"
    and "\<And>k. k \<noteq> ''custom_form_data'' \<Longrightarrow> jget q k = jget (overrideExtraFormData base (override_form fd)) k"
proof -
  from assms obtain qfs e append own adhoc r where
    qfs: "extractQueryFields jp (without_keys residual_keys fd) al = Inr qfs" and
    e: "extractExtras fd = Inr e" and
    append: "as_iterable (with_default (jget (extra_form fd) ''filters'') (JArr [])) = Inr append" and
    own: "as_iterable (js_or (jget fd ''adhoc_filters'') (JArr [])) = Inr own" and
    adhoc: "as_iterable (with_default (jget (extra_form fd) ''adhoc_filters'') (JArr [])) = Inr adhoc" and
    r: "processFilters (obj_spread (obj_spread (obj_spread [] fd) e)
          [(''filters'', JArr (extra_filters_of e @ append)), (''adhoc_filters'', JArr (own @ adhoc))]) = Inr r" and
    q: "q = obj_set ''custom_form_data'' (with_default (jget (extra_form fd) ''custom_form_data'') (JObj []))
             (obj_spread [] (overrideExtraFormData
               (foldl obj_spread
                  [(''time_range'', or_undef (jget fd ''time_range'')), (''since'', or_undef (jget fd ''since'')),
                   (''until'', or_undef (jget fd ''until'')), (''granularity'', or_undef (jget fd ''granularity''))]
                  [e, r, own_query_fields fd qfs])
               (override_form fd)))"
    by (auto simp: buildQueryObject_def rbind_eq_Inr Let_def extra_form_def override_form_def)
  let ?base = "foldl obj_spread
                  [(''time_range'', or_undef (jget fd ''time_range'')), (''since'', or_undef (jget fd ''since'')),
                   (''until'', or_undef (jget fd ''until'')), (''granularity'', or_undef (jget fd ''granularity''))]
                  [e, r, own_query_fields fd qfs]"
  have rk: "map fst r = [''filters'', ''extras'']" using r by (rule processFilters_keys)
  have "obj_ok r" unfolding obj_ok_def rk by simp
  have inr: "''filters'' \<in> fst ` set r" "''extras'' \<in> fst ` set r"
    using arg_cong [OF rk, of set] by auto
  have ownk: "''filters'' \<notin> fst ` set (own_query_fields fd qfs)"
    "''extras'' \<notin> fst ` set (own_query_fields fd qfs)" by (simp_all add: own_query_fields_def)
  let ?init = "[(''time_range'', or_undef (jget fd ''time_range'')), (''since'', or_undef (jget fd ''since'')),
                (''until'', or_undef (jget fd ''until'')), (''granularity'', or_undef (jget fd ''granularity''))]"
  have "obj_ok ?init" by (simp add: obj_ok_def)
  then have ok: "obj_ok ?base" by (simp only: foldl.simps obj_ok_spread)
  have bf: "jget ?base ''filters'' = jget r ''filters''" and bx: "jget ?base ''extras'' = jget r ''extras''"
    by (simp_all only: foldl.simps jget_spread_absent [OF ownk(1)] jget_spread_absent [OF ownk(2)]
          jget_spread_present [OF \<open>obj_ok r\<close> inr(1)] jget_spread_present [OF \<open>obj_ok r\<close> inr(2)])
  have ef: "extra_filters_of e = filter unreserved (box_filters fd)"
    by (simp add: extra_filters_of_def extractExtras_result(1) [OF e])
  have ap: "append = spread_iterable (jget (extra_form fd) ''filters'')"
    using as_iterable_Inr [OF append] by (simp add: spread_default)
  have ad: "own @ adhoc = all_adhoc fd"
    using as_iterable_Inr [OF own] as_iterable_Inr [OF adhoc] by (simp add: spread_default all_adhoc_def)
  have rf: "jget r ''filters'' = JArr (filter unreserved (box_filters fd) @
           spread_iterable (jget (extra_form fd) ''filters'') @
           map convertFilter (filter simple_where (all_adhoc fd)))"
    using processFilters_filters [OF r] by (simp add: jget_obj_set ef ap ad)
  have rx: "\<exists>e. jget r ''extras'' = JObj e \<and> e \<noteq> [] \<and> is_string (jget e ''where'') \<and> is_string (jget e ''having'')"
    using r by (auto simp: processFilters_def rbind_eq_Inr is_string_def jget_obj_set Let_def)
  have "obj_ok (own_query_fields fd qfs)" by (simp add: own_query_fields_def obj_ok_def)
  then have bc: "jget ?base ''columns'' = jget (own_query_fields fd qfs) ''columns''"
    by (simp only: foldl.simps, intro jget_spread_present) (simp_all add: own_query_fields_def)
  then have bc': "jget ?base ''columns'' = jget qfs ''columns''"
    unfolding bc by (simp add: own_query_fields_def)
  have "jget q k = jget (overrideExtraFormData ?base (override_form fd)) k" if "k \<noteq> ''custom_form_data''" for k
    using that by (simp only: q jget_obj_set jget_copy [OF obj_ok_override] if_False)
  then show thesis by (rule that [OF qfs bc' ok bf bx rf rx])
qed

lemma build_filters:
  assumes "buildQueryObject jp fd al = Inr q"
  shows "jget q ''filters'' = JArr (filter unreserved (box_filters fd) @
           spread_iterable (jget (extra_form fd) ''filters'') @
           map convertFilter (filter simple_where (all_adhoc fd)))"
proof (rule buildQueryObject_parts [OF assms])
  fix base r
  assume "obj_ok base" and b: "jget base ''filters'' = jget r ''filters''"
    and f: "jget r ''filters'' = JArr (filter unreserved (box_filters fd) @
           spread_iterable (jget (extra_form fd) ''filters'') @
           map convertFilter (filter simple_where (all_adhoc fd)))"
    and q: "\<And>k. k \<noteq> ''custom_form_data'' \<Longrightarrow> jget q k = jget (overrideExtraFormData base (override_form fd)) k"
  have "jget q ''filters'' = jget (overrideExtraFormData base (override_form fd)) ''filters''"
    by (rule q) simp
  also have "\<dots> = jget base ''filters''"
    using jget_override [of "''filters''" base] \<open>obj_ok base\<close> by (simp add: extra_keys)
  finally show ?thesis by (simp add: b f)
qed

lemma build_override:
  assumes "buildQueryObject jp fd al = Inr q" and "k \<in> set EXTRA_FORM_DATA_OVERRIDE_REGULAR_KEYS"
    and "k \<notin> {''granularity'', ''granularity_sqla''}" and "jget (extra_form fd) k \<noteq> JUndef"
  shows "jget q k = jget (extra_form fd) k"
proof (rule buildQueryObject_parts [OF assms(1)])
  fix base r
  assume "obj_ok base"
    and q: "\<And>k. k \<noteq> ''custom_form_data'' \<Longrightarrow> jget q k = jget (overrideExtraFormData base (override_form fd)) k"
  have k: "k \<noteq> ''extras''" "k \<noteq> ''custom_form_data''" "k \<notin> set [''adhoc_filters'', ''filters'', ''custom_form_data'']"
    using assms(2) by (auto simp: extra_keys)
  have "jget (override_form fd) k = jget (extra_form fd) k"
    unfolding override_form_def by (rule jget_without [OF k(3)])
  then show ?thesis
    using q [OF k(2)] jget_override [OF k(1) \<open>obj_ok base\<close>, of "override_form fd"] assms(2-4) by auto
qed

lemma build_extra_override:
  assumes "buildQueryObject jp fd al = Inr q" and "k \<in> set EXTRA_FORM_DATA_OVERRIDE_EXTRA_KEYS"
    and "jget (extra_form fd) k \<noteq> JUndef"
  shows "\<exists>e. jget q ''extras'' = JObj e \<and> jget e k = jget (extra_form fd) k"
proof (rule buildQueryObject_parts [OF assms(1)])
  fix base r
  assume b: "jget base ''extras'' = jget r ''extras''" and "\<exists>e. jget r ''extras'' = JObj e \<and> e \<noteq> [] \<and> is_string (jget e ''where'') \<and> is_string (jget e ''having'')"
    and q: "\<And>k. k \<noteq> ''custom_form_data'' \<Longrightarrow> jget q k = jget (overrideExtraFormData base (override_form fd)) k"
  then obtain e where e: "jget base ''extras'' = JObj e" "e \<noteq> []" by auto
  have k: "k \<notin> set [''adhoc_filters'', ''filters'', ''custom_form_data'']"
    using assms(2) by (auto simp: extra_keys)
  have "k \<in> fst ` set (extra_form fd)" using assms(3) jget_absent by metis
  then have "k \<in> fst ` set (override_form fd)" unfolding override_form_def by (simp only: in_without [OF k])
  moreover have "jget (override_form fd) k = jget (extra_form fd) k"
    unfolding override_form_def by (rule jget_without [OF k])
  moreover have "jget q ''extras'' = jget (overrideExtraFormData base (override_form fd)) ''extras''"
    by (rule q) simp
  ultimately show ?thesis
    using jget_override_extras [OF e, of "override_form fd"] assms(2) by metis
qed

section \<open>Well-typed form data\<close>

definition metric_ok :: "jsval \<Rightarrow> bool" where
  "metric_ok m =
     (case m of
        JStr s \<Rightarrow> True
      | JObj ob \<Rightarrow> truthy (jget ob ''label'') \<or> jget ob ''expressionType'' \<noteq> JStr ''SIMPLE'' \<or>
                  \<not> nullish (jget ob ''column'')
      | _ \<Rightarrow> False)"

definition adhoc_ok :: "jsval \<Rightarrow> bool" where
  "adhoc_ok f =
     (case f of
        JObj ob \<Rightarrow> jget ob ''expressionType'' = JStr ''SIMPLE'' \<or> is_string (jget ob ''sqlExpression'')
      | _ \<Rightarrow> False)"

definition is_object :: "jsval \<Rightarrow> bool" where
  "is_object v = (case v of JObj ob \<Rightarrow> True | _ \<Rightarrow> False)"

definition array_of :: "(jsval \<Rightarrow> bool) \<Rightarrow> jsval \<Rightarrow> bool" where
  "array_of P v = (case v of JArr xs \<Rightarrow> list_all P xs | _ \<Rightarrow> False)"

definition order_ok :: "(string \<Rightarrow> jsval option) \<Rightarrow> jsval \<Rightarrow> bool" where
  "order_ok jp i = (case i of JStr s \<Rightarrow> jp s \<noteq> None | _ \<Rightarrow> True)"

text \<open>A field that feeds the metrics or the order of the query.\<close>

definition entry_ok :: "(string \<Rightarrow> jsval option) \<Rightarrow> (string, string) obj \<Rightarrow> string \<times> jsval \<Rightarrow> bool" where
  "entry_ok jp aliases kv =
     (let (key, v) = kv; name = query_field_name aliases key
      in nullish v \<or>
         (name = ''metrics'' \<longrightarrow> list_all metric_ok (concat_value [] v)) \<and>
         (name = ''orderby'' \<longrightarrow>
            list_all (order_ok jp) (concat_value [] v)))"

definition extra_form_ok :: "jsval \<Rightarrow> bool" where
  "extra_form_ok v =
     (case v of
        JUndef \<Rightarrow> True
      | JNull \<Rightarrow> True
      | JObj ob \<Rightarrow> (jget ob ''filters'' = JUndef \<or> array_of (\<lambda>_. True) (jget ob ''filters'')) \<and>
                  (jget ob ''adhoc_filters'' = JUndef \<or> array_of adhoc_ok (jget ob ''adhoc_filters''))
      | _ \<Rightarrow> False)"

definition form_ok :: "(string \<Rightarrow> jsval option) \<Rightarrow> (string, string) obj \<Rightarrow> jsobj \<Rightarrow> bool" where
  "form_ok jp aliases fd \<longleftrightarrow>
     obj_ok fd \<and> list_all (entry_ok jp (obj_spread predefined_aliases aliases)) fd \<and>
     (nullish (jget fd ''extra_filters'') \<or> array_of is_object (jget fd ''extra_filters'')) \<and>
     (nullish (jget fd ''adhoc_filters'') \<or> array_of adhoc_ok (jget fd ''adhoc_filters'')) \<and>
     (\<not> truthy (jget fd ''where'') \<or> is_string (jget fd ''where'')) \<and>
     extra_form_ok (jget fd ''extra_form_data'')"

text \<open>Each step of the computation succeeds.\<close>

lemma collect_ok:
  fixes aliases qm es
  assumes "list_all (entry_ok jp aliases) es"
    and "list_all metric_ok (qf_metrics acc)"
    and "list_all (order_ok jp) (qf_orderby acc)"
  shows "list_all metric_ok (qf_metrics (foldl (add_query_field aliases qm) acc es))"
    and "list_all (order_ok jp)
           (qf_orderby (foldl (add_query_field aliases qm) acc es))"
proof -
  have cv: "concat_value xs v = xs @ concat_value [] v" for xs v
    by (simp add: concat_value_def split: jsval.split)
  have step: "list_all metric_ok (qf_metrics (add_query_field aliases qm acc e)) \<and>
      list_all (order_ok jp) (qf_orderby (add_query_field aliases qm acc e))"
    if "entry_ok jp aliases e" and "list_all metric_ok (qf_metrics acc)"
      and "list_all (order_ok jp) (qf_orderby acc)" for e acc
    using that
    by (cases e) (auto simp: add_query_field_def entry_ok_def Let_def cv [of "qf_metrics acc"]
          cv [of "qf_orderby acc"])
  have "list_all metric_ok (qf_metrics (foldl (add_query_field aliases qm) acc es)) \<and>
        list_all (order_ok jp)
           (qf_orderby (foldl (add_query_field aliases qm) acc es))"
    using assms
  proof (induction es arbitrary: acc)
    case Nil
    then show ?case by simp
  next
    case (Cons e es)
    then have "entry_ok jp aliases e" "list_all (entry_ok jp aliases) es" by simp_all
    then show ?case using Cons.IH [of "add_query_field aliases qm acc e"] step [of e acc] Cons.prems by simp
  qed
  then show "list_all metric_ok (qf_metrics (foldl (add_query_field aliases qm) acc es))"
    and "list_all (order_ok jp)
           (qf_orderby (foldl (add_query_field aliases qm) acc es))" by simp_all
qed

lemma metric_label_ok: "metric_ok m \<Longrightarrow> \<exists>l. getMetricLabel m = Inr l"
  by (cases m) (auto simp: metric_ok_def getMetricLabel_def isSavedMetric_def is_string_def
        isAdhocMetricSimple_def prop_of_def split: if_splits)

lemma remove_dups_ok:
  assumes "\<And>x. x \<in> set xs \<Longrightarrow> \<exists>h. hash x = Inr h"
  shows "\<exists>ys. remove_dups hash seen xs = Inr ys"
  using assms
proof (induction xs arbitrary: seen)
  case Nil
  then show ?case by simp
next
  case (Cons x xs)
  obtain h where h: "hash x = Inr h" using Cons.prems by fastforce
  have "\<exists>ys. remove_dups hash s xs = Inr ys" for s using Cons by simp
  then show ?case using h by (auto simp: rbind_eq_Inr)
qed

lemma rmap_ok: "(\<And>x. x \<in> set xs \<Longrightarrow> \<exists>y. f x = Inr y) \<Longrightarrow> \<exists>ys. rmap f xs = Inr ys"
proof (induction xs)
  case Nil
  then show ?case by simp
next
  case (Cons x xs)
  obtain y where "f x = Inr y" using Cons.prems by fastforce
  moreover obtain ys where "rmap f xs = Inr ys" using Cons by fastforce
  ultimately show ?case by simp
qed

lemma extractQueryFields_ok:
  assumes "list_all (entry_ok jp (obj_spread predefined_aliases aliases)) fd"
  shows "\<exists>qfs. extractQueryFields jp fd aliases = Inr qfs"
proof -
  let ?al = "obj_spread predefined_aliases aliases"
  let ?es = "js_order (obj_del ''query_mode'' fd)"
  let ?qf = "collect_query_fields ?al (jget fd ''query_mode'') (obj_del ''query_mode'' fd)"
  have es: "list_all (entry_ok jp ?al) ?es"
    using assms by (auto simp: list_all_iff obj_del_def)
  have m: "list_all metric_ok (qf_metrics ?qf)"
    and ob: "list_all (order_ok jp) (qf_orderby ?qf)"
    unfolding collect_query_fields_def by (rule collect_ok [OF es]; simp)+
  have "\<exists>ys. removeDuplicates (\<lambda>c. Inr (getColumnLabel c) :: jsval result)
           (filter (\<lambda>c. c \<noteq> JStr []) (qf_columns ?qf)) = Inr ys"
    unfolding removeDuplicates_def by (rule remove_dups_ok) simp
  then obtain cols where cols: "removeDuplicates (\<lambda>c. Inr (getColumnLabel c) :: jsval result)
           (filter (\<lambda>c. c \<noteq> JStr []) (qf_columns ?qf)) = Inr cols" ..
  have "\<exists>ys. removeDuplicates getMetricLabel (qf_metrics ?qf) = Inr ys"
    unfolding removeDuplicates_def
    by (rule remove_dups_ok) (use m in \<open>auto simp: list_all_iff intro: metric_label_ok\<close>)
  then obtain ms where ms: "removeDuplicates getMetricLabel (qf_metrics ?qf) = Inr ms" ..
  have "\<exists>ys. rmap (parse_orderby jp) (qf_orderby ?qf) = Inr ys"
    by (rule rmap_ok)
       (use ob in \<open>auto simp: list_all_iff order_ok_def parse_orderby_def split: jsval.splits\<close>)
  then obtain os where os: "rmap (parse_orderby jp) (qf_orderby ?qf) = Inr os" ..
  show ?thesis
    using cols ms os
    by (cases "jget fd ''query_mode'' = JStr ''raw''") (simp_all add: extractQueryFields_def Let_def)
qed

lemma array_of_cases: "nullish v \<or> array_of P v \<Longrightarrow> \<exists>xs. js_or v (JArr []) = JArr xs \<and> list_all P xs"
  by (cases v) (auto simp: array_of_def js_or_def)

lemma object_not_nullish: "is_object f \<Longrightarrow> \<not> nullish f"
  by (cases f) (simp_all add: is_object_def)

lemma adhoc_not_nullish: "adhoc_ok f \<Longrightarrow> \<not> nullish f"
  by (cases f) (simp_all add: adhoc_ok_def)

lemma adhoc_string: "adhoc_ok f \<Longrightarrow> \<not> isSimpleAdhocFilter f \<Longrightarrow> is_string (chain f ''sqlExpression'')"
  by (cases f) (auto simp: adhoc_ok_def isSimpleAdhocFilter_def)

lemma rfold_ok:
  assumes "\<And>s x. x \<in> set xs \<Longrightarrow> \<exists>t. f s x = Inr t"
  shows "\<exists>t. rfold f s xs = Inr t"
  using rfold_total [of "\<lambda>_. True" s xs f] assms by simp

lemma extractExtras_ok:
  assumes "nullish (jget fd ''extra_filters'') \<or> array_of is_object (jget fd ''extra_filters'')"
  shows "\<exists>e. extractExtras fd = Inr e"
proof -
  obtain fs where fs: "js_or (jget fd ''extra_filters'') (JArr []) = JArr fs" "list_all is_object fs"
    using array_of_cases [OF assms] by blast
  have "\<exists>acc. rfold extract_filter s fs = Inr acc" for s
    by (rule rfold_ok)
       (use fs(2) object_not_nullish in \<open>auto simp: extract_filter_def prop_of_def list_all_iff\<close>)
  then obtain acc where "rfold extract_filter \<lparr>ea_fields = [], ea_applied = [], ea_filters = []\<rparr> fs = Inr acc"
    by blast
  then show ?thesis by (simp add: extractExtras_def fs(1) as_array_def Let_def)
qed

lemma processFilters_ok:
  assumes "jget p ''filters'' = JArr fs" and "jget p ''adhoc_filters'' = JArr adhoc"
    and "list_all adhoc_ok adhoc" and "\<not> truthy (jget p ''where'') \<or> is_string (jget p ''where'')"
  shows "\<exists>r. processFilters p = Inr r"
proof -
  let ?s = "\<lparr>simpleWhere = fs, freeformWhere = (if truthy (jget p ''where'') then [jget p ''where''] else []),
             freeformHaving = []\<rparr>"
  have "\<exists>t. rfold split_filter ?s adhoc = Inr t"
    by (rule rfold_ok)
       (use assms(3) adhoc_not_nullish in \<open>auto simp: split_filter_def prop_of_def list_all_iff\<close>)
  then obtain t where t: "rfold split_filter ?s adhoc = Inr t" ..
  have str: "is_string (chain f ''sqlExpression'')" if "f \<in> set adhoc" "\<not> isSimpleAdhocFilter f" for f
    using that assms(3) adhoc_string unfolding list_all_iff by blast
  have clause: "\<exists>c. sanitizeClause v = Inr c" if "is_string v" for v
    using that by (cases v) (simp_all add: is_string_def sanitizeClause_def)
  have "\<exists>w. rmap sanitizeClause (freeformWhere t) = Inr w"
    by (rule rmap_ok)
       (use assms(4) split_filters_result(2) [OF t] str in
         \<open>auto simp: sql_where_def intro!: clause split: if_splits\<close>)
  then obtain w where w: "rmap sanitizeClause (freeformWhere t) = Inr w" ..
  have "\<exists>h. rmap sanitizeClause (freeformHaving t) = Inr h"
    by (rule rmap_ok)
       (use split_filters_result(3) [OF t] str in \<open>auto simp: sql_having_def intro!: clause\<close>)
  then obtain h where h: "rmap sanitizeClause (freeformHaving t) = Inr h" ..
  show ?thesis
    using t w h by (simp add: processFilters_def with_default_def js_or_def as_array_def assms(1,2) Let_def)
qed

lemma buildQueryObject_ok:
  assumes ok: "form_ok jp aliases fd"
  shows "\<exists>q. buildQueryObject jp fd aliases = Inr q"
proof -
  have "list_all (entry_ok jp (obj_spread predefined_aliases aliases)) (without_keys residual_keys fd)"
    using ok by (auto simp: form_ok_def list_all_iff without_keys_def)
  then obtain qfs where qfs: "extractQueryFields jp (without_keys residual_keys fd) aliases = Inr qfs"
    using extractQueryFields_ok by blast
  obtain e where e: "extractExtras fd = Inr e"
    using ok extractExtras_ok unfolding form_ok_def by blast
  obtain own where own: "js_or (jget fd ''adhoc_filters'') (JArr []) = JArr own" "list_all adhoc_ok own"
    using ok array_of_cases unfolding form_ok_def by blast
  let ?x = "extra_form fd"
  have x: "jget ?x ''filters'' = JUndef \<or> array_of (\<lambda>_. True) (jget ?x ''filters'')"
    "jget ?x ''adhoc_filters'' = JUndef \<or> array_of adhoc_ok (jget ?x ''adhoc_filters'')"
    using ok by (auto simp: form_ok_def extra_form_ok_def extra_form_def js_or_def split: jsval.splits)
  obtain fs where fs: "with_default (jget ?x ''filters'') (JArr []) = JArr fs"
    using x(1) by (auto simp: with_default_def array_of_def split: jsval.splits)
  obtain more where more: "with_default (jget ?x ''adhoc_filters'') (JArr []) = JArr more" "list_all adhoc_ok more"
    using x(2) by (auto simp: with_default_def array_of_def split: jsval.splits)
  let ?p = "obj_spread (obj_spread (obj_spread [] fd) e)
     [(''filters'', JArr (extra_filters_of e @ fs)), (''adhoc_filters'', JArr (own @ more))]"
  have "jget ?p ''where'' = jget (obj_spread (obj_spread [] fd) e) ''where''"
    by (rule jget_spread_absent) simp
  also have "\<dots> = jget fd ''where''"
  proof -
    have "''where'' \<notin> fst ` set e"
      using extractExtras_result(4) [OF e] .
    then show ?thesis using ok by (simp add: jget_spread_absent jget_copy form_ok_def)
  qed
  finally have wh: "jget ?p ''where'' = jget fd ''where''" .
  have "\<exists>r. processFilters ?p = Inr r"
  proof (rule processFilters_ok)
    show "jget ?p ''filters'' = JArr (extra_filters_of e @ fs)" by (simp add: jget_obj_set)
    show "jget ?p ''adhoc_filters'' = JArr (own @ more)" by (simp add: jget_obj_set)
    show "list_all adhoc_ok (own @ more)" using own more by simp
    show "\<not> truthy (jget ?p ''where'') \<or> is_string (jget ?p ''where'')"
      using ok unfolding wh form_ok_def by blast
  qed
  then obtain r where r: "processFilters ?p = Inr r" ..
  show ?thesis
    using qfs e own(1) fs more(1) r
    by (simp add: buildQueryObject_def extra_form_def as_iterable_def Let_def)
qed

section \<open>The shape of a query\<close>

lemma remove_dups_distinct:
  "remove_dups hash seen xs = Inr ys \<Longrightarrow>
     distinct (map hash ys) \<and> (\<forall>y \<in> set ys. \<exists>h. hash y = Inr h \<and> h \<notin> set seen)"
proof (induction xs arbitrary: seen ys)
  case Nil
  then show ?case by simp
next
  case (Cons x xs)
  from Cons.prems obtain h where h: "hash x = Inr h" by (auto simp: rbind_eq_Inr)
  show ?case
  proof (cases "h \<in> set seen")
    case True
    then show ?thesis using Cons h by simp
  next
    case False
    then obtain zs where zs: "remove_dups hash (seen @ [h]) xs = Inr zs" "ys = x # zs"
      using Cons.prems h by (auto simp: rbind_eq_Inr)
    have "distinct (map hash zs) \<and> (\<forall>y \<in> set zs. \<exists>k. hash y = Inr k \<and> k \<notin> set (seen @ [h]))"
      by (rule Cons.IH) (rule zs)
    then show ?thesis using h False zs(2) by fastforce
  qed
qed

lemma columns_distinct:
  assumes "extractQueryFields jp fd al = Inr qfs"
  shows "\<exists>cs. jget qfs ''columns'' = JArr cs \<and> distinct (map getColumnLabel cs)"
proof -
  from assms obtain cs xs where "jget qfs ''columns'' = JArr cs"
    and "removeDuplicates (\<lambda>c. Inr (getColumnLabel c) :: jsval result) xs = Inr cs"
    by (auto simp: extractQueryFields_def rbind_eq_Inr Let_def)
  moreover from this(2) have "distinct (map (\<lambda>c. Inr (getColumnLabel c) :: jsval result) cs)"
    unfolding removeDuplicates_def by (rule remove_dups_distinct [THEN conjunct1])
  then have "distinct (map getColumnLabel cs)" by (auto simp: distinct_map inj_on_def)
  ultimately show ?thesis by blast
qed

definition query_ok :: "jsobj \<Rightarrow> bool" where
  "query_ok q \<longleftrightarrow>
     (\<exists>fs. jget q ''filters'' = JArr fs) \<and>
     (\<exists>cs. jget q ''columns'' = JArr cs \<and> distinct (map getColumnLabel cs)) \<and>
     (\<exists>e. jget q ''extras'' = JObj e \<and> is_string (jget e ''where'') \<and> is_string (jget e ''having''))"

lemma build_query_ok:
  assumes "buildQueryObject jp fd al = Inr q"
  shows "query_ok q"
proof (rule buildQueryObject_parts [OF assms])
  fix base r qfs
  assume qfs: "extractQueryFields jp (without_keys residual_keys fd) al = Inr qfs"
    and bc: "jget base ''columns'' = jget qfs ''columns''" and ok: "obj_ok base"
    and bx: "jget base ''extras'' = jget r ''extras''"
    and rx: "\<exists>e. jget r ''extras'' = JObj e \<and> e \<noteq> [] \<and> is_string (jget e ''where'') \<and> is_string (jget e ''having'')"
    and q: "\<And>k. k \<noteq> ''custom_form_data'' \<Longrightarrow> jget q k = jget (overrideExtraFormData base (override_form fd)) k"
  have "jget q ''columns'' = jget (overrideExtraFormData base (override_form fd)) ''columns''"
    by (rule q) simp
  also have "\<dots> = jget qfs ''columns''"
    using jget_override [of "''columns''" base] ok bc by (simp add: extra_keys)
  finally have c: "\<exists>cs. jget q ''columns'' = JArr cs \<and> distinct (map getColumnLabel cs)"
    using columns_distinct [OF qfs] by simp
  obtain e where e: "jget base ''extras'' = JObj e" "e \<noteq> []"
    and s: "is_string (jget e ''where'')" "is_string (jget e ''having'')" using bx rx by auto
  obtain e' where e': "jget (overrideExtraFormData base (override_form fd)) ''extras'' = JObj e'"
    and k: "\<And>key. jget e' key = (if key \<in> set EXTRA_FORM_DATA_OVERRIDE_EXTRA_KEYS \<and>
          key \<in> fst ` set (override_form fd) then jget (override_form fd) key else jget e key)"
    using jget_override_extras [OF e, of "override_form fd"] by blast
  have "jget q ''extras'' = JObj e'" using q [of "''extras''"] e' by simp
  moreover have "jget e' ''where'' = jget e ''where''" "jget e' ''having'' = jget e ''having''"
    by (simp_all add: k EXTRA_FORM_DATA_OVERRIDE_EXTRA_KEYS_def)
  ultimately show ?thesis
    using c s build_filters [OF assms] unfolding query_ok_def by auto
qed

section \<open>Which filters apply to a chart\<close>

text \<open>The charts of a filter, with its own layer selection or the one it is given.\<close>

definition applies_to :: "form_args \<Rightarrow> string \<Rightarrow> bool" where
  "applies_to a i \<longleftrightarrow>
     (let (ls, ex) = used_selection (fa_natives a) (fa_masks a) i; c = JNum (cp_id (fa_chart a))
      in (\<exists>k \<in> set ls. layer_chart k = Some (cp_id (fa_chart a))) \<or>
         (c \<in> set (base_scope (fa_chart_config a) (fa_natives a) (fa_slices a) i) \<and>
          c \<notin> set ex \<and> \<not> has_layer_of ls c))"

lemma keys_of_filter:
  assumes "\<And>i f. (i, f) \<in> set xs \<Longrightarrow> P f \<longleftrightarrow> Q i"
  shows "set (map fst (filter (\<lambda>(_, f). P f) xs)) = {i \<in> fst ` set xs. Q i}"
  using assms
proof (induction xs)
  case Nil
  show ?case by simp
next
  case (Cons x xs)
  obtain i f where x: "x = (i, f)" by (cases x)
  have "P f \<longleftrightarrow> Q i" using Cons.prems x by simp
  moreover have "set (map fst (filter (\<lambda>(_, f). P f) xs)) = {i \<in> fst ` set xs. Q i}"
    using Cons by simp
  ultimately show ?case by (auto simp: x)
qed

lemma applied_filters:
  assumes "masks_keyed (fa_masks a)" and "fa_active a = None"
  shows "set (filterIdsAppliedOnChart a) = {i \<in> fst ` set (fa_masks a). applies_to a i}"
    and "distinct (filterIdsAppliedOnChart a)"
proof -
  let ?f = "getAllActiveFilters (fa_chart_config a) (fa_natives a) (fa_masks a) (fa_slices a)"
  let ?g = "active_of_mask (fa_chart_config a) (fa_natives a) (fa_slices a) (active_master (fa_natives a) (fa_masks a))"
  have ids: "filterIdsAppliedOnChart a = map fst (filter (\<lambda>(_, f). JNum (cp_id (fa_chart a)) \<in> set (an_scope f)) ?f)"
    using assms by (simp add: filterIdsAppliedOnChart_def active_filters_of_def active_filters_order)
  have keys: "map fst ?f = map fst (js_order (fa_masks a))"
    unfolding active_filters_map [OF assms(1)] by auto
  have dist: "distinct (map fst ?f)"
    unfolding keys using assms(1) by (intro js_order_keys) (simp add: masks_keyed_def)
  then show "distinct (filterIdsAppliedOnChart a)" unfolding ids by (rule distinct_map_filter)
  have scope: "JNum (cp_id (fa_chart a)) \<in> set (an_scope f) \<longleftrightarrow> applies_to a i" if "(i, f) \<in> set ?f" for i f
  proof -
    have "obj_get ?f i = Some f" using that dist by (rule map_of_is_SomeI [rotated])
    then show ?thesis
      using active_scope [OF assms(1), of "fa_chart_config a" "fa_natives a" "fa_slices a" i f]
      by (auto simp: applies_to_def Let_def split: prod.split)
  qed
  have "set (filterIdsAppliedOnChart a) = {i \<in> fst ` set ?f. applies_to a i}"
    unfolding ids using scope by (rule keys_of_filter)
  moreover have "fst ` set ?f = fst ` set (fa_masks a)"
    using arg_cong [OF keys, of set] by simp
  ultimately show "set (filterIdsAppliedOnChart a) = {i \<in> fst ` set (fa_masks a). applies_to a i}" by simp
qed

section \<open>From the masks to the query\<close>

definition mask_values :: "form_args \<Rightarrow> string \<Rightarrow> jsval list" where
  "mask_values a k =
     concat (map (\<lambda>i. spread_iterable (jget (extra_of (fa_masks a) i) k)) (filterIdsAppliedOnChart a))"

definition last_mask_value :: "form_args \<Rightarrow> string \<Rightarrow> jsval" where
  "last_mask_value a k = last_defined (map (\<lambda>i. jget (extra_of (fa_masks a) i) k) (filterIdsAppliedOnChart a))"

lemma new_form_extra_form:
  assumes "''extra_form_data'' \<notin> fst ` set (fa_extra_controls a)" and "filterIdsAppliedOnChart a \<noteq> []"
  shows "extra_form (new_form_data a) = getExtraFormData (fa_masks a) (filterIdsAppliedOnChart a)"
  by (simp add: extra_form_def new_form_extra [OF assms] js_or_def)

lemma new_form_box_filters:
  assumes "''extra_filters'' \<notin> fst ` set (fa_extra_controls a)"
  shows "box_filters (new_form_data a) = getEffectiveExtraFilters (snd (fa_filters a))"
proof -
  have "kept_field a ''extra_filters''"
    using assms by (simp add: kept_field_def group_fields_def extra_keys)
  then show ?thesis
    by (simp add: box_filters_def new_form_kept own_form_extra_filters js_or_def array_elems_def)
qed

lemma query_filters:
  assumes "''extra_form_data'' \<notin> fst ` set (fa_extra_controls a)"
    and "''extra_filters'' \<notin> fst ` set (fa_extra_controls a)"
    and "filterIdsAppliedOnChart a \<noteq> []"
    and "buildQueryObject jp (new_form_data a) al = Inr q"
  shows "jget q ''filters'' =
     JArr (filter unreserved (getEffectiveExtraFilters (snd (fa_filters a))) @ mask_values a ''filters'' @
       map convertFilter (filter simple_where
         (spread_iterable (js_or (jget (new_form_data a) ''adhoc_filters'') (JArr [])) @
          mask_values a ''adhoc_filters'')))"
proof -
  have k: "''filters'' \<in> set EXTRA_FORM_DATA_APPEND_KEYS" "''adhoc_filters'' \<in> set EXTRA_FORM_DATA_APPEND_KEYS"
    by (simp_all add: extra_keys)
  show ?thesis
    by (simp add: build_filters [OF assms(4)] new_form_box_filters [OF assms(2)] all_adhoc_def
          new_form_extra_form [OF assms(1,3)] jget_getExtraFormData k mask_values_def)
qed

lemma query_settings:
  assumes "''extra_form_data'' \<notin> fst ` set (fa_extra_controls a)" and "filterIdsAppliedOnChart a \<noteq> []"
    and "buildQueryObject jp (new_form_data a) al = Inr q" and "last_mask_value a k \<noteq> JUndef"
  shows "k \<in> set EXTRA_FORM_DATA_OVERRIDE_REGULAR_KEYS - {''granularity'', ''granularity_sqla''} \<Longrightarrow>
           jget q k = last_mask_value a k"
    and "k \<in> set EXTRA_FORM_DATA_OVERRIDE_EXTRA_KEYS \<Longrightarrow>
           \<exists>e. jget q ''extras'' = JObj e \<and> jget e k = last_mask_value a k"
proof -
  have x: "jget (extra_form (new_form_data a)) k = last_mask_value a k" if "k \<in> set EXTRA_FORM_DATA_OVERRIDE_KEYS"
    using that extra_keys_apart [OF that]
    by (simp add: new_form_extra_form [OF assms(1,2)] jget_getExtraFormData last_mask_value_def)
  { assume k: "k \<in> set EXTRA_FORM_DATA_OVERRIDE_REGULAR_KEYS - {''granularity'', ''granularity_sqla''}"
    then have "k \<in> set EXTRA_FORM_DATA_OVERRIDE_KEYS" by (simp add: EXTRA_FORM_DATA_OVERRIDE_KEYS_def)
    then show "jget q k = last_mask_value a k"
      using build_override [OF assms(3), of k] k x assms(4) by simp }
  { assume k: "k \<in> set EXTRA_FORM_DATA_OVERRIDE_EXTRA_KEYS"
    then have "k \<in> set EXTRA_FORM_DATA_OVERRIDE_KEYS" by (simp add: EXTRA_FORM_DATA_OVERRIDE_KEYS_def)
    then show "\<exists>e. jget q ''extras'' = JObj e \<and> jget e k = last_mask_value a k"
      using build_extra_override [OF assms(3) k] x assms(4) by simp }
qed

section \<open>How many columns a chart is grouped by\<close>

definition strings_of :: "jsval \<Rightarrow> string list" where
  "strings_of v = List.map_filter nonempty_str (case v of JArr xs \<Rightarrow> xs | _ \<Rightarrow> [v])"

text \<open>The columns in the fields that customizations set.\<close>

definition group_dims :: "jsobj \<Rightarrow> string list" where
  "group_dims gf = concat (map (\<lambda>k. strings_of (jget gf k)) group_fields)"

lemma strings_of_simps [simp]:
  "strings_of JUndef = []" "strings_of (JArr []) = []" "c \<noteq> [] \<Longrightarrow> strings_of (JStr c) = [c]"
  "c \<noteq> [] \<Longrightarrow> strings_of (JArr [JStr c]) = [c]"
  by (simp_all add: strings_of_def List.map_filter_def)

lemma group_dims_order [simp]: "group_dims (obj_set ''order_by_cols'' v gf) = group_dims gf"
  by (simp add: group_dims_def group_fields_def jget_obj_set)

lemma limited_type:
  assumes "getChartTypeLimitation t = Some n" and "\<exists>s. t = JStr s"
  shows "t = JStr ''heatmap'' \<and> n = 1 \<or> t = JStr ''heatmap_v2'' \<and> n = 1 \<or> t = JStr ''waterfall'' \<and> n = 1 \<or>
         t = JStr ''word_cloud'' \<and> n = 1 \<or> t = JStr ''graph_chart'' \<and> n = 2 \<or>
         t = JStr ''sankey_v2'' \<and> n = 2 \<or> t = JStr ''bubble_v2'' \<and> n = 2"
proof -
  obtain s where t: "t = JStr s" using assms(2) ..
  have "\<exists>ds. obj_get CHART_TYPE_LIMITATIONS s = Some (n, ds)"
    using assms(1) by (auto simp: t getChartTypeLimitation_def)
  then obtain ds where "obj_get CHART_TYPE_LIMITATIONS s = Some (n, ds)" ..
  then have "(s, n, ds) \<in> set CHART_TYPE_LIMITATIONS" by (rule map_of_SomeD)
  then show ?thesis by (auto simp: t CHART_TYPE_LIMITATIONS_def)
qed

text \<open>The fields set for each chart type with a limit.\<close>

lemma apply_limited:
  assumes "cols \<noteq> []"
  shows "applyChartSpecificGroupBy (JStr ''heatmap'') cols e x = [(''groupby'', JArr [str_at cols 0])]"
    and "applyChartSpecificGroupBy (JStr ''heatmap_v2'') cols e x = [(''groupby'', JArr [str_at cols 0])]"
    and "applyChartSpecificGroupBy (JStr ''waterfall'') cols e x =
           [(''groupby'', JArr [str_at (fst (limitColumnsForChartType (JStr ''waterfall'') cols)) 0])]"
    and "applyChartSpecificGroupBy (JStr ''word_cloud'') cols e x =
           [(''series'', str_at (fst (limitColumnsForChartType (JStr ''word_cloud'') cols)) 0),
            (''groupby'', JArr [])]"
    and "applyChartSpecificGroupBy (JStr ''graph_chart'') cols e x =
           (let l = fst (limitColumnsForChartType (JStr ''graph_chart'') cols)
            in (''source'', str_at l 0) # obj_when (length l > 1) [(''target'', str_at l 1)])"
    and "applyChartSpecificGroupBy (JStr ''sankey_v2'') cols e x =
           (let l = fst (limitColumnsForChartType (JStr ''sankey_v2'') cols)
            in (''source'', str_at l 0) # obj_when (length l > 1) [(''target'', str_at l 1)])"
    and "applyChartSpecificGroupBy (JStr ''bubble_v2'') cols e x =
           (let l = fst (limitColumnsForChartType (JStr ''bubble_v2'') cols)
            in (''series'', str_at l 0) # obj_when (length l > 1) [(''entity'', str_at l 1)] @
               [(''groupby'', JArr [])])"
  using assms by (simp_all add: applyChartSpecificGroupBy_def type_starts_def starts_with_def)

lemma str_at_simps [simp]:
  "str_at (c # cs) 0 = JStr c" "str_at (c # d # cs) 1 = JStr d"
  by (simp_all add: str_at_def js_nth_def)

lemma group_dims_fields:
  "c \<noteq> [] \<Longrightarrow> group_dims [(''groupby'', JArr [JStr c])] = [c]"
  "c \<noteq> [] \<Longrightarrow> group_dims [(''series'', JStr c), (''groupby'', JArr [])] = [c]"
  "c \<noteq> [] \<Longrightarrow> group_dims [(''source'', JStr c)] = [c]"
  "c \<noteq> [] \<Longrightarrow> d \<noteq> [] \<Longrightarrow> group_dims [(''source'', JStr c), (''target'', JStr d)] = [c, d]"
  "c \<noteq> [] \<Longrightarrow> d \<noteq> [] \<Longrightarrow>
     group_dims [(''series'', JStr c), (''entity'', JStr d), (''groupby'', JArr [])] = [c, d]"
  by (simp_all add: group_dims_def group_fields_def)

lemma group_dims_limited:
  assumes lim: "getChartTypeLimitation t = Some n" and str: "\<exists>s. t = JStr s" and ne: "[] \<notin> set cols"
  shows "group_dims (applyChartSpecificGroupBy t cols existing x) = take n cols"
proof (cases cols)
  case Nil
  then show ?thesis by (simp add: applyChartSpecificGroupBy_def group_dims_def group_fields_def)
next
  case (Cons c cs)
  then have c: "c \<noteq> []" using ne by auto
  have ne': "\<forall>d \<in> set cols. d \<noteq> []" using ne by auto
  have limited: "fst (limitColumnsForChartType t cols) = take n cols"
    using lim by (simp add: limitColumnsForChartType_def)
  from limited_type [OF lim str] show ?thesis
  proof (elim disjE conjE)
    assume "t = JStr ''heatmap''" "n = 1"
    then show ?thesis by (simp add: Cons apply_limited(1) group_dims_fields c)
  next
    assume "t = JStr ''heatmap_v2''" "n = 1"
    then show ?thesis by (simp add: Cons apply_limited(2) group_dims_fields c)
  next
    assume "t = JStr ''waterfall''" "n = 1"
    then show ?thesis using limited by (simp add: Cons apply_limited(3) group_dims_fields c)
  next
    assume "t = JStr ''word_cloud''" "n = 1"
    then show ?thesis using limited by (simp add: Cons apply_limited(4) group_dims_fields c)
  next
    assume "t = JStr ''graph_chart''" "n = 2"
    then show ?thesis using limited ne'
      by (cases cs) (simp_all add: Cons apply_limited(5) group_dims_fields obj_when_def numeral_2_eq_2)
  next
    assume "t = JStr ''sankey_v2''" "n = 2"
    then show ?thesis using limited ne'
      by (cases cs) (simp_all add: Cons apply_limited(6) group_dims_fields obj_when_def numeral_2_eq_2)
  next
    assume "t = JStr ''bubble_v2''" "n = 2"
    then show ?thesis using limited ne'
      by (cases cs) (simp_all add: Cons apply_limited(7) group_dims_fields obj_when_def numeral_2_eq_2)
  qed
qed

lemma columns_of_nonempty: "[] \<notin> set (columns_of existing st item)"
proof -
  have "[] \<notin> set (List.map_filter nonempty_str vs)" for vs
  proof (induction vs)
    case Nil
    show ?case by (simp add: List.map_filter_def)
  next
    case (Cons v vs)
    then show ?case by (cases v) (auto simp: List.map_filter_def)
  qed
  then show ?thesis by (auto simp: columns_of_def split: option.split)
qed

lemma process_dims:
  assumes "getChartTypeLimitation (jget (cp_form_data chart) ''viz_type'') = Some n"
    and "is_string (jget (cp_form_data chart) ''viz_type'')"
  shows "group_dims (processGroupByCustomizations items chart st) \<in> {[], take n (grouped_columns items chart st)}"
proof -
  have str: "\<exists>s. jget (cp_form_data chart) ''viz_type'' = JStr s"
    using assms(2) by (cases "jget (cp_form_data chart) ''viz_type''") (simp_all add: is_string_def)
  have "[] \<notin> set (grouped_columns items chart st)"
    using grouped_free(2) columns_of_nonempty by blast
  then have "group_dims (applyChartSpecificGroupBy (jget (cp_form_data chart) ''viz_type'')
               (grouped_columns items chart st) e x) = take n (grouped_columns items chart st)" for e x
    by (rule group_dims_limited [OF assms(1) str])
  moreover have "group_dims [] = []" by (simp add: group_dims_def group_fields_def)
  ultimately show ?thesis
    by (simp add: processGroupByCustomizations_def grouped_columns_eq Let_def split: option.split)
qed

lemma set_take_in: "c \<in> set (take n xs) \<Longrightarrow> c \<in> set xs"
  by (rule subsetD [OF set_take_subset])

lemma dims_within_limits:
  assumes "getChartTypeLimitation (jget (cp_form_data chart) ''viz_type'') = Some n"
    and "is_string (jget (cp_form_data chart) ''viz_type'')"
  shows "length (group_dims (processGroupByCustomizations items chart st)) \<le> n"
    and "distinct (group_dims (processGroupByCustomizations items chart st))"
    and "c \<in> set (group_dims (processGroupByCustomizations items chart st)) \<Longrightarrow>
           JStr c \<notin> set (buildExistingColumnsSet chart) \<and>
           (\<exists>item \<in> set items. matches_chart chart item \<and>
              c \<in> set (columns_of (buildExistingColumnsSet chart) st item))"
proof -
  note d = process_dims [OF assms, of items st]
  show "length (group_dims (processGroupByCustomizations items chart st)) \<le> n" using d by auto
  show "distinct (group_dims (processGroupByCustomizations items chart st))"
    using d distinct_take [OF distinct_grouped] by auto
  show "c \<in> set (group_dims (processGroupByCustomizations items chart st)) \<Longrightarrow>
           JStr c \<notin> set (buildExistingColumnsSet chart) \<and>
           (\<exists>item \<in> set items. matches_chart chart item \<and>
              c \<in> set (columns_of (buildExistingColumnsSet chart) st item))"
    using d grouped_free [of c items chart st] set_take_in [of c n "grouped_columns items chart st"] by auto
qed

end
