(* ===== verification/ChartClaims.thy ===== *)
theory ChartClaims
  imports ChartQuery
begin

text \<open>
  The properties of the way from dashboard filters to the query of a chart, each with a concrete
  chart and filter to which it applies.
\<close>

section \<open>A chart with one filter\<close>

definition region_clause :: jsval where
  "region_clause = JObj [(''col'', JStr ''region''), (''op'', JStr ''IN''), (''val'', JArr [JStr ''EU''])]"

definition own_filter :: jsval where
  "own_filter = JObj [(''clause'', JStr ''WHERE''), (''expressionType'', JStr ''SIMPLE''),
     (''subject'', JStr ''year''), (''operator'', JStr ''==''), (''comparator'', JStr ''2020'')]"

definition sample_chart :: chart_payload where
  "sample_chart = \<lparr>cp_id = 7, cp_form_data =
     [(''viz_type'', JStr ''table''), (''datasource'', JStr ''1__table''), (''metrics'', JArr [JStr ''count'']),
      (''adhoc_filters'', JArr [own_filter])]\<rparr>"

definition sample_masks :: masks where
  "sample_masks =
     [(''NATIVE_FILTER-a'', [(''id'', JStr ''NATIVE_FILTER-a''),
        (''extraFormData'', JObj [(''filters'', JArr [region_clause]), (''time_range'', JStr ''Last week'')])])]"

definition sample_args :: form_args where
  "sample_args = \<lparr>fa_chart = sample_chart, fa_filters = (0, []),
     fa_natives = [(''NATIVE_FILTER-a'', [(''chartsInScope'', JArr [JNum 7])])],
     fa_chart_config = [], fa_customizations = [], fa_color_scheme = JUndef, fa_own_color_scheme = JUndef,
     fa_color_namespace = JUndef, fa_slice = 7, fa_masks = sample_masks, fa_extra_controls = [],
     fa_labels = JObj [], fa_labels_map = JObj [], fa_shared_labels = JArr [], fa_slices = Some [7],
     fa_chart_customization = JUndef, fa_active = None\<rparr>"

definition no_json :: "string \<Rightarrow> jsval option" where
  "no_json s = None"

lemma sample_applied: "filterIdsAppliedOnChart sample_args = [''NATIVE_FILTER-a'']"
  by code_simp

lemma sample_extra: "getExtraFormData sample_masks [''NATIVE_FILTER-a''] =
    [(''filters'', JArr [region_clause]), (''time_range'', JStr ''Last week'')]"
proof -
  have "getExtraFormData sample_masks [''NATIVE_FILTER-a''] =
        mergeExtraFormData [] [(''filters'', JArr [region_clause]), (''time_range'', JStr ''Last week'')]"
    by (simp add: getExtraFormData_fold extra_of_def mask_extra_def sample_masks_def)
  then show ?thesis
    by (simp add: merge_canon canon_Cons extra_keys merged_value_def array_or_undef_def spread_iterable_def)
qed

lemma sample_entries: "customization_entries sample_args = []"
  by code_simp

lemma sample_args_simps:
  "fa_chart sample_args = sample_chart" "fa_filters sample_args = (0, [])" "fa_masks sample_args = sample_masks"
  "fa_extra_controls sample_args = []" "fa_active sample_args = None" "fa_customizations sample_args = []"
  "fa_color_scheme sample_args = JUndef" "fa_own_color_scheme sample_args = JUndef"
  "fa_labels sample_args = JObj []" "fa_labels_map sample_args = JObj []" "fa_shared_labels sample_args = JArr []"
  "fa_chart_customization sample_args = JUndef"
  by (simp_all add: sample_args_def)

definition sample_form :: jsobj where
  "sample_form =
     [(''viz_type'', JStr ''table''), (''datasource'', JStr ''1__table''), (''metrics'', JArr [JStr ''count'']),
      (''adhoc_filters'', JArr [own_filter]), (''chart_id'', JNum 7), (''label_colors'', JObj []),
      (''shared_label_colors'', JArr []), (''map_label_colors'', JObj []), (''extra_filters'', JArr []),
      (''extra_form_data'', JObj [(''filters'', JArr [region_clause]), (''time_range'', JStr ''Last week'')])]"

lemma not_layered: "\<not> layered sample_args"
  by (simp add: layered_def sample_args_simps sample_chart_def)

lemma sample_form: "new_form_data sample_args = sample_form"
  by (simp add: new_form_data_def extra_data_def sample_applied sample_extra sample_entries not_layered
        groupByFormData_def processGroupByCustomizations_def customizationExtraFormData_def customizationIds_def
        layer_filter_scope_def sample_args_simps getEffectiveExtraFilters_def js_order_def obj_keys_def
        obj_when_def obj_spread_def sample_form_def sample_chart_def Let_def)

lemma chart_sample_ok: "form_ok no_json [] (new_form_data sample_args)"
  unfolding sample_form
  by (simp add: form_ok_def sample_form_def obj_ok_def entry_ok_def query_field_name_def predefined_aliases_def
        obj_spread_def concat_value_def metric_ok_def array_of_def adhoc_ok_def own_filter_def extra_form_ok_def)

lemma sample_values:
  "mask_values sample_args ''filters'' = [region_clause]"
  "mask_values sample_args ''adhoc_filters'' = []"
  "last_mask_value sample_args ''time_range'' = JStr ''Last week''"
  by (simp_all add: mask_values_def last_mask_value_def sample_applied sample_args_simps extra_of_def
        mask_extra_def sample_masks_def spread_iterable_def last_defined_def)

lemma sample_fields:
  "jget (new_form_data sample_args) ''adhoc_filters'' = JArr [own_filter]"
  "getEffectiveExtraFilters (snd (fa_filters sample_args)) = []"
  by (simp_all add: sample_form sample_form_def getEffectiveExtraFilters_def sample_args_simps js_order_def)

lemma sample_keyed: "masks_keyed (fa_masks sample_args)"
  by (simp add: sample_args_simps sample_masks_def masks_keyed_def mask_at_def obj_ok_def)

section \<open>Properties\<close>

text \<open>
  C21: well-typed form data build a query. Arrays where arrays are expected, metrics with a label
  or a column, SQL filters with a text and parsable orders suffice for \<open>buildQueryObject\<close> to return
  without an exception, with an array of filters, columns of distinct labels, and WHERE and HAVING
  clauses that are strings.
\<close>

theorem well_typed_form_data_build_a_query:
  assumes "form_ok jp aliases fd"
  shows "\<exists>q. buildQueryObject jp fd aliases = Inr q \<and> query_ok q"
  using buildQueryObject_ok [OF assms] build_query_ok by blast

theorem well_typed_form_data_build_a_query_witness:
  "\<exists>q. buildQueryObject no_json (new_form_data sample_args) [] = Inr q \<and> query_ok q"
  by (rule well_typed_form_data_build_a_query) (rule chart_sample_ok)

text \<open>
  C22: the dashboard filters reach the query. On masks stored under their ids, the filters that
  apply to a chart are exactly those whose scope and layer selection say so, each once, and a query
  built from the chart's form data has these filters: the clauses of filter boxes on unreserved
  columns, then the clauses of the masks of all filters that apply, in order and nothing else, then
  the simple WHERE filters of the chart and of the masks.
\<close>

theorem dashboard_filters_reach_the_query:
  assumes "masks_keyed (fa_masks a)" and "fa_active a = None"
    and "''extra_form_data'' \<notin> fst ` set (fa_extra_controls a)"
    and "''extra_filters'' \<notin> fst ` set (fa_extra_controls a)"
    and "filterIdsAppliedOnChart a \<noteq> []"
    and "buildQueryObject jp (new_form_data a) aliases = Inr q"
  shows "set (filterIdsAppliedOnChart a) = {i \<in> fst ` set (fa_masks a). applies_to a i} \<and>
     distinct (filterIdsAppliedOnChart a) \<and>
     jget q ''filters'' =
       JArr (filter unreserved (getEffectiveExtraFilters (snd (fa_filters a))) @ mask_values a ''filters'' @
         map convertFilter (filter simple_where
           (spread_iterable (js_or (jget (new_form_data a) ''adhoc_filters'') (JArr [])) @
            mask_values a ''adhoc_filters'')))"
  using applied_filters [OF assms(1,2)] query_filters [OF assms(3-6)] by blast

theorem dashboard_filters_reach_the_query_witness:
  "\<exists>q. buildQueryObject no_json (new_form_data sample_args) [] = Inr q \<and>
     jget q ''filters'' = JArr [region_clause, convertFilter own_filter]"
proof -
  obtain q where q: "buildQueryObject no_json (new_form_data sample_args) [] = Inr q"
    using buildQueryObject_ok [OF chart_sample_ok] by blast
  have "fa_active sample_args = None" "''extra_form_data'' \<notin> fst ` set (fa_extra_controls sample_args)"
    "''extra_filters'' \<notin> fst ` set (fa_extra_controls sample_args)"
    "filterIdsAppliedOnChart sample_args \<noteq> []" by (simp_all add: sample_args_simps sample_applied)
  note filters = dashboard_filters_reach_the_query [OF sample_keyed this q]
  have "filter simple_where [own_filter] = [own_filter]" by code_simp
  then have "jget q ''filters'' = JArr [region_clause, convertFilter own_filter]"
    using filters by (simp add: sample_values sample_fields js_or_def spread_iterable_def)
  then show ?thesis using q by blast
qed

text \<open>
  The last filter that applies to a chart decides its settings. When filters that apply to a
  chart give a time range, a time column, a time grain, a time comparison or visible layers, the
  query has the value of the last of them, and an extra (the relative bounds or the grain of SQL) is
  the one of the last of them.
\<close>

theorem last_filter_decides_settings:
  assumes "''extra_form_data'' \<notin> fst ` set (fa_extra_controls a)" and "filterIdsAppliedOnChart a \<noteq> []"
    and "buildQueryObject jp (new_form_data a) aliases = Inr q" and "last_mask_value a k \<noteq> JUndef"
  shows "(k \<in> {''time_range'', ''time_column'', ''time_grain'', ''time_compare'', ''visible_deckgl_layers''} \<longrightarrow>
            jget q k = last_mask_value a k) \<and>
         (k \<in> {''relative_start'', ''relative_end'', ''time_grain_sqla''} \<longrightarrow>
            (\<exists>e. jget q ''extras'' = JObj e \<and> jget e k = last_mask_value a k))"
proof -
  have settings: "{''time_range'', ''time_column'', ''time_grain'', ''time_compare'', ''visible_deckgl_layers''} \<subseteq>
        set EXTRA_FORM_DATA_OVERRIDE_REGULAR_KEYS - {''granularity'', ''granularity_sqla''}"
    and extras: "{''relative_start'', ''relative_end'', ''time_grain_sqla''} \<subseteq> set EXTRA_FORM_DATA_OVERRIDE_EXTRA_KEYS"
    by (simp_all add: extra_keys)
  show ?thesis
    using query_settings(1) [OF assms subsetD [OF settings]] query_settings(2) [OF assms subsetD [OF extras]]
    by (intro conjI impI)
qed

theorem last_filter_decides_settings_witness:
  "\<exists>q. buildQueryObject no_json (new_form_data sample_args) [] = Inr q \<and>
     jget q ''time_range'' = JStr ''Last week''"
proof -
  obtain q where q: "buildQueryObject no_json (new_form_data sample_args) [] = Inr q"
    using buildQueryObject_ok [OF chart_sample_ok] by blast
  have "''extra_form_data'' \<notin> fst ` set (fa_extra_controls sample_args)"
    "filterIdsAppliedOnChart sample_args \<noteq> []" by (simp_all add: sample_args_simps sample_applied)
  then have "jget q ''time_range'' = JStr ''Last week''"
    using last_filter_decides_settings [of sample_args no_json "[]" q "''time_range''"] q
    by (simp add: sample_values)
  then show ?thesis using q by blast
qed

text \<open>
  C9: customizations group a chart within its limits. A chart whose type allows \<open>n\<close> dimensions is
  grouped by at most \<open>n\<close> columns, none twice, none that the chart already uses, and each selected in
  a customization of the chart's data set that has the chart in its scope.
\<close>

theorem customizations_within_chart_limits:
  assumes "getChartTypeLimitation (jget (cp_form_data chart) ''viz_type'') = Some n"
    and "is_string (jget (cp_form_data chart) ''viz_type'')"
  shows "length (group_dims (processGroupByCustomizations items chart st)) \<le> n \<and>
     distinct (group_dims (processGroupByCustomizations items chart st)) \<and>
     (\<forall>c \<in> set (group_dims (processGroupByCustomizations items chart st)).
        JStr c \<notin> set (buildExistingColumnsSet chart) \<and>
        (\<exists>item \<in> set items. matches_chart chart item \<and>
           c \<in> set (columns_of (buildExistingColumnsSet chart) st item)))"
  using dims_within_limits [OF assms] by blast

definition sankey_chart :: chart_payload where
  "sankey_chart = \<lparr>cp_id = 7, cp_form_data =
     [(''viz_type'', JStr ''sankey_v2''), (''datasource'', JStr ''1__table'')]\<rparr>"

definition sankey_item :: jsobj where
  "sankey_item = [(''id'', JStr ''CHART_CUSTOMIZATION-g''), (''targets'', JArr [JObj [(''datasetId'', JNum 1)]])]"

definition sankey_state :: "(string, groupby_info) obj" where
  "sankey_state = [(''CHART_CUSTOMIZATION-g'',
     \<lparr>selectedValues = [JStr ''from'', JStr ''to'', JStr ''via''], hasInteracted = True\<rparr>)]"

theorem customizations_within_chart_limits_witness:
  "group_dims (processGroupByCustomizations [sankey_item] sankey_chart sankey_state) = [''from'', ''to''] \<and>
   length (group_dims (processGroupByCustomizations [sankey_item] sankey_chart sankey_state)) \<le> 2"
proof -
  have "getChartTypeLimitation (jget (cp_form_data sankey_chart) ''viz_type'') = Some 2"
    "is_string (jget (cp_form_data sankey_chart) ''viz_type'')" by code_simp+
  note customizations_within_chart_limits [OF this, of "[sankey_item]" sankey_state]
  moreover have "group_dims (processGroupByCustomizations [sankey_item] sankey_chart sankey_state) =
      [''from'', ''to'']" by code_simp
  ultimately show ?thesis by simp
qed

lemma selection_reaches:
  assumes keyed: "masks_keyed dm" and j: "j \<in> fst ` set dm"
    and sel: "k \<in> set (selected_layers_of nf j)" and lay: "layer_chart k = Some n"
    and only: "\<And>i. i \<noteq> j \<Longrightarrow> selected_layers_of nf i = []"
    and a: "obj_get (getAllActiveFilters cc nf dm charts) i = Some a"
  shows "JNum n \<in> set (an_scope a)"
proof -
  have nonempty: "selected_layers_of nf j \<noteq> []" using sel by auto
  have j_ids: "j \<in> set (mask_ids dm)" using j by (simp add: masks_keyed_ids [OF keyed])
  then have "fst (active_master nf dm) \<noteq> []"
    using nonempty fst_master_Nil [of nf "mask_ids dm"] unfolding active_master_def by blast
  moreover have "fst (active_master nf dm) = selected_layers_of nf j"
  proof -
    obtain m where m: "find (\<lambda>i. selected_layers_of nf i \<noteq> []) (rev (mask_ids dm)) = Some m"
      using j_ids nonempty find_None_iff [of "\<lambda>i. selected_layers_of nf i \<noteq> []" "rev (mask_ids dm)"]
      by (cases "find (\<lambda>i. selected_layers_of nf i \<noteq> []) (rev (mask_ids dm))") auto
    then have "selected_layers_of nf m \<noteq> []" by (auto simp: find_Some_iff)
    then have "m = j" using only by blast
    then show ?thesis using m by (simp add: active_master_def master_eq)
  qed
  ultimately have "fst (used_selection nf dm i) = selected_layers_of nf j"
    using only [of i] by (cases "i = j") (simp_all add: used_selection_def nonempty)
  then show ?thesis using active_scope [OF keyed a] sel lay by auto
qed

text \<open>
  C31: the layer selection of one filter reaches every other filter. When one filter selects layers
  of a chart, every active filter without a selection of its own applies to that chart, whatever its
  own scope and exclusions, and the mask of the chart itself, its own cross filter, is no exception.
\<close>

theorem layer_selection_reaches_every_filter:
  assumes "masks_keyed dm" and "j \<in> fst ` set dm"
    and "k \<in> set (selected_layers_of nf j)" and "layer_chart k = Some n"
    and "\<And>i. i \<noteq> j \<Longrightarrow> selected_layers_of nf i = []"
    and "obj_get (getAllActiveFilters cc nf dm charts) i = Some a"
  shows "JNum n \<in> set (an_scope a)"
  by (rule selection_reaches [OF assms])

definition deck_natives :: natives where
  "deck_natives =
     [(''NATIVE_FILTER-a'', [(''chartsInScope'', JArr [JNum 5]),
        (''scope'', JObj [(''selectedLayers'', JArr [JStr ''chart-5-layer-0'']), (''excluded'', JArr [])])])]"

definition deck_masks :: masks where
  "deck_masks = [(''NATIVE_FILTER-a'', [(''id'', JStr ''NATIVE_FILTER-a'')]), (''5'', [(''id'', JStr ''5'')])]"

text \<open>The cross filter of chart 5 is scoped to chart 6 only, and applies to chart 5 all the same.\<close>

theorem layer_selection_reaches_every_filter_witness:
  "base_scope [(5, \<lparr>cc_id = 5, cc_scope = GlobalScope, cc_charts = [6]\<rparr>)] deck_natives (Some [5, 6]) ''5'' = [JNum 6] \<and>
   (\<exists>a. obj_get (getAllActiveFilters [(5, \<lparr>cc_id = 5, cc_scope = GlobalScope, cc_charts = [6]\<rparr>)]
            deck_natives deck_masks (Some [5, 6])) ''5'' = Some a \<and> JNum 5 \<in> set (an_scope a))"
proof -
  let ?cc = "[(5, \<lparr>cc_id = 5, cc_scope = GlobalScope, cc_charts = [6]\<rparr>)]"
  have keyed: "masks_keyed deck_masks"
    by (simp add: deck_masks_def masks_keyed_def mask_at_def obj_ok_def)
  have "obj_get deck_masks ''5'' = Some [(''id'', JStr ''5'')]" by (simp add: deck_masks_def)
  then obtain a where a: "obj_get (getAllActiveFilters ?cc deck_natives deck_masks (Some [5, 6])) ''5'' = Some a"
    using active_filter_get [OF keyed] by simp
  have "JNum 5 \<in> set (an_scope a)"
  proof (rule layer_selection_reaches_every_filter [OF keyed _ _ _ _ a])
    show "''NATIVE_FILTER-a'' \<in> fst ` set deck_masks" by (simp add: deck_masks_def)
    show "''chart-5-layer-0'' \<in> set (selected_layers_of deck_natives ''NATIVE_FILTER-a'')"
      by (simp add: selected_layers_of_def native_field_def deck_natives_def array_elems_def)
    show "layer_chart ''chart-5-layer-0'' = Some 5" by code_simp
    show "\<And>i. i \<noteq> ''NATIVE_FILTER-a'' \<Longrightarrow> selected_layers_of deck_natives i = []"
      by (simp add: selected_layers_of_def native_field_def deck_natives_def array_elems_def)
  qed
  moreover have "base_scope ?cc deck_natives (Some [5, 6]) ''5'' = [JNum 6]" by code_simp
  ultimately show ?thesis using a by blast
qed

section \<open>The cache of form data\<close>








section \<open>What merging and reserved columns lose\<close>

text \<open>\<open>custom_form_data\<close> is an object, but its key is among the appended ones, whose values have to be
  iterable: every merge drops it.\<close>

theorem merge_drops_custom_form_data:
  "jget (mergeExtraFormData [(''custom_form_data'', JObj x)] [(''custom_form_data'', JObj y)]) ''custom_form_data'' = JUndef"
  by (simp add: jget_merge extra_keys merged_value_def spread_iterable_def array_or_undef_def)

text \<open>A filter box on a column with the name of a member of \<open>Object.prototype\<close> is taken for a reserved
  column, and its filter never reaches the query.\<close>

theorem inherited_column_is_reserved:
  "\<not> unreserved (JObj [(''col'', JStr ''constructor''), (''op'', JStr ''IN''), (''val'', v)])"
  by (simp add: unreserved_def query_field_def reservedColumnsToQueryField_def inherited_members_def)

end
