(* ===== verification/ClientErrors.thy ===== *)
theory ClientErrors
  imports QueryObject FolderOps
begin

text \<open>
  The error a request is reported with: \<open>packages/superset-ui-core/src/query/getClientErrorObject.ts\<close>
  and the recognition of HTML in \<open>packages/superset-ui-core/src/utils/html.tsx\<close>. Translations,
  \<open>JSON.parse\<close> and the parser of HTML documents are arguments, gathered in a record. A response
  is what the source distinguishes: a string, an exception, a response whose body may be read, or
  any other object.
\<close>

section \<open>Recognition of HTML\<close>

text \<open>\<open>translate\<close> is \<open>t\<close> with the values to insert, \<open>parse_json\<close> is \<open>JSON.parse\<close> (\<open>None\<close> when it throws), \<open>seconds_of\<close> the division by 1000, and \<open>body_tags\<close> lists the tag names of the elements that the browser's parser puts directly into the body
  of a document.\<close>

record browser =
  translate :: "string \<Rightarrow> jsval list \<Rightarrow> string"
  parse_json :: "string \<Rightarrow> jsval option"
  seconds_of :: "jsval \<Rightarrow> jsval"
  body_tags :: "string \<Rightarrow> string list"

abbreviation tr :: "browser \<Rightarrow> string \<Rightarrow> string" where
  "tr b s \<equiv> translate b s []"

definition KNOWN_HTML_TAGS :: "string list" where
  "KNOWN_HTML_TAGS =
     [''div'', ''span'', ''p'', ''a'', ''b'', ''i'', ''u'', ''em'', ''strong'',
      ''h1'', ''h2'', ''h3'', ''h4'', ''h5'', ''h6'', ''table'', ''tr'', ''td'', ''th'', ''tbody'', ''thead'', ''tfoot'',
      ''ul'', ''ol'', ''li'', ''img'', ''br'', ''hr'', ''pre'', ''code'', ''blockquote'', ''section'', ''article'', ''nav'',
      ''header'', ''footer'', ''form'', ''input'', ''button'', ''select'', ''option'', ''textarea'', ''label'', ''fieldset'',
      ''legend'', ''video'', ''audio'', ''canvas'', ''iframe'', ''script'', ''style'', ''link'', ''meta'', ''title'',
      ''html'', ''head'', ''body'']"

text \<open>A letter, a digit or an underscore: \<open>\b\<close> after a tag needs that none of them follows.\<close>

definition word_char :: "char \<Rightarrow> bool" where
  "word_char c =
     (let n = (of_char c :: nat) in is_digit c \<or> 65 \<le> n \<and> n \<le> 90 \<or> 97 \<le> n \<and> n \<le> 122 \<or> n = 95)"

definition tag_begins :: "string \<Rightarrow> string \<Rightarrow> bool" where
  "tag_begins s tag =
     (take (length tag) s = tag \<and>
      (case drop (length tag) s of [] \<Rightarrow> True | c # rest \<Rightarrow> \<not> word_char c))"

fun html_tag_in :: "string \<Rightarrow> bool" where
  "html_tag_in [] = False"
| "html_tag_in (c # s) = (c = CHR ''<'' \<and> list_ex (tag_begins s) KNOWN_HTML_TAGS \<or> html_tag_in s)"

definition hasHtmlTagPattern :: "string \<Rightarrow> bool" where
  "hasHtmlTagPattern str = html_tag_in (toLowerCase str)"

definition isProbablyHTML :: "browser \<Rightarrow> string \<Rightarrow> bool" where
  "isProbablyHTML b text =
     (let cleanedStr = toLowerCase (trim text)
      in if take 15 cleanedStr = ''<!doctype html>'' \<and> hasHtmlTagPattern cleanedStr then True
         else if \<not> hasHtmlTagPattern text then False
         else list_ex (\<lambda>tag. toLowerCase tag \<in> set KNOWN_HTML_TAGS) (body_tags b cleanedStr))"

section \<open>Messages of status codes\<close>

definition ERROR_CODE_LOOKUP :: "(string, string) obj" where
  "ERROR_CODE_LOOKUP =
     [(''400'', ''Bad request''), (''401'', ''Unauthorized''), (''402'', ''Payment required''),
      (''403'', ''Forbidden''), (''404'', ''Not found''), (''405'', ''Method not allowed''),
      (''406'', ''Not acceptable''), (''407'', ''Proxy authentication required''),
      (''408'', ''Request timeout''), (''409'', ''Conflict''), (''410'', ''Gone''),
      (''411'', ''Length required''), (''412'', ''Precondition failed''),
      (''413'', ''Payload too large''), (''414'', ''URI too long''),
      (''415'', ''Unsupported media type''), (''416'', ''Range not satisfiable''),
      (''417'', ''Expectation failed''), (''418'', ''I'' @ [CHR 39] @ ''m a teapot''),
      (''500'', ''Server error''), (''501'', ''Not implemented''), (''502'', ''Bad gateway''),
      (''503'', ''Service unavailable''), (''504'', ''Gateway timeout''),
      (''505'', ''HTTP version not supported''), (''506'', ''Variant also negotiates''),
      (''507'', ''Insufficient storage''), (''508'', ''Loop detected''), (''510'', ''Not extended''),
      (''511'', ''Network authentication required''), (''599'', ''Network error'')]"

definition isJsonString :: "browser \<Rightarrow> string \<Rightarrow> bool" where
  "isJsonString b str \<longleftrightarrow> parse_json b str \<noteq> None"

definition checkForHtml :: "browser \<Rightarrow> string \<Rightarrow> bool" where
  "checkForHtml b str \<longleftrightarrow> \<not> isJsonString b str \<and> isProbablyHTML b str"

text \<open>The regular expression \<open>code|message\<close>, without regard to case.\<close>

definition mentions_code :: "string \<Rightarrow> string \<times> string \<Rightarrow> bool" where
  "mentions_code str cm \<longleftrightarrow>
     js_includes str (fst cm) \<or> js_includes (toLowerCase str) (toLowerCase (snd cm))"

definition parseStringResponse :: "browser \<Rightarrow> string \<Rightarrow> string" where
  "parseStringResponse b str =
     (if checkForHtml b str
      then (case List.find (mentions_code str) ERROR_CODE_LOOKUP of
              None \<Rightarrow> tr b ''Unknown error''
            | Some cm \<Rightarrow> tr b (snd cm))
      else str)"

definition getErrorFromStatusCode :: "jsval \<Rightarrow> string option" where
  "getErrorFromStatusCode status = obj_get ERROR_CODE_LOOKUP (key_of status)"

text \<open>\<open>status\<close> is \<open>None\<close> when the object has none.\<close>

definition retrieveErrorMessage :: "browser \<Rightarrow> string \<Rightarrow> jsval option \<Rightarrow> string" where
  "retrieveErrorMessage b str status =
     (case Option.bind status getErrorFromStatusCode of
        None \<Rightarrow> parseStringResponse b str
      | Some m \<Rightarrow> m)"

section \<open>Errors in JSON\<close>

text \<open>\<open>v[0]\<close>, and \<open>v.length > 0\<close> of a value that is not nullish.\<close>

definition elem0 :: "jsval \<Rightarrow> jsval" where
  "elem0 v =
     (case v of
        JArr (x # xs) \<Rightarrow> x
      | JStr (c # s) \<Rightarrow> JStr [c]
      | JObj ob \<Rightarrow> jget ob ''0''
      | _ \<Rightarrow> JUndef)"

definition has_length :: "jsval \<Rightarrow> bool" where
  "has_length v =
     (case v of
        JArr xs \<Rightarrow> xs \<noteq> []
      | JStr s \<Rightarrow> s \<noteq> []
      | JObj ob \<Rightarrow> (case to_number (jget ob ''length'') of None \<Rightarrow> False | Some n \<Rightarrow> 0 < n)
      | _ \<Rightarrow> False)"

text \<open>\<open>Object.values(v)[0]\<close> of an object or an array.\<close>

definition first_value :: "jsval \<Rightarrow> jsval" where
  "first_value v =
     (case v of
        JArr (x # xs) \<Rightarrow> x
      | JObj ob \<Rightarrow> (case js_order ob of [] \<Rightarrow> JUndef | (k, x) # rest \<Rightarrow> x)
      | _ \<Rightarrow> JUndef)"

text \<open>The first error of \<open>errors\<close> becomes the error; reading the message of no object throws.\<close>

definition error_of_errors :: "jsobj \<Rightarrow> jsobj result" where
  "error_of_errors error =
     (let errors = jget error ''errors''
      in if truthy errors \<and> has_length errors
         then rbind (prop_of (elem0 errors) ''message'') (\<lambda>message.
                Inr (obj_set ''link'' (chain (chain (elem0 errors) ''extra'') ''link'')
                       (obj_set ''error'' message (obj_set ''description'' message error))))
         else Inr error)"

definition error_of_message :: "browser \<Rightarrow> jsobj \<Rightarrow> jsobj" where
  "error_of_message b error =
     (let message = jget error ''message''
      in if \<not> truthy (jget error ''error'') \<and> truthy message
         then (case message of
                 JObj ob \<Rightarrow> obj_set ''error'' (js_or (elem0 (first_value message)) (JStr (tr b ''Invalid input''))) error
               | JArr xs \<Rightarrow> obj_set ''error'' (js_or (elem0 (first_value message)) (JStr (tr b ''Invalid input''))) error
               | JStr s \<Rightarrow>
                   (if checkForHtml b s
                    then obj_set ''error'' (JStr (retrieveErrorMessage b s (obj_get error ''status''))) error
                    else obj_set ''error'' message error)
               | _ \<Rightarrow> error)
         else error)"

definition SESSION_TIMED_OUT :: string where
  "SESSION_TIMED_OUT = ''Your session timed out, please refresh your page and try again.''"

text \<open>\<open>responseText.indexOf('CSRF') >= 0\<close>: strings and arrays have \<open>indexOf\<close>, calling it on any other value throws.\<close>

definition mentions_csrf :: "jsval \<Rightarrow> bool result" where
  "mentions_csrf v =
     (case v of
        JStr s \<Rightarrow> Inr (js_includes s ''CSRF'')
      | JArr xs \<Rightarrow> Inr (JStr ''CSRF'' \<in> set xs)
      | _ \<Rightarrow> if truthy v then Inl TypeError else Inr False)"

definition error_of_stack :: "browser \<Rightarrow> jsobj \<Rightarrow> jsobj result" where
  "error_of_stack b error =
     (if truthy (jget error ''stack'')
      then Inr (obj_set ''stacktrace'' (jget error ''stack'')
                 (obj_set ''error''
                    (JStr (tr b ''Unexpected error: '' @
                       key_of (js_or (jget error ''description'')
                         (JStr (tr b ''(no description, click to see stack trace)'')))))
                    error))
      else rbind (mentions_csrf (jget error ''responseText'')) (\<lambda>csrf.
             Inr (if csrf then obj_set ''error'' (JStr (tr b SESSION_TIMED_OUT)) error else error)))"

definition parseErrorJson :: "browser \<Rightarrow> jsobj \<Rightarrow> jsobj result" where
  "parseErrorJson b responseJson =
     rbind (error_of_errors (obj_spread [] responseJson)) (\<lambda>error.
     rbind (error_of_stack b (error_of_message b error)) (\<lambda>error.
       Inr (obj_set ''error'' (jget error ''error'') error)))"

section \<open>Responses\<close>

text \<open>
  \<open>body_json\<close> is what reading the body as JSON gives and \<open>body_text\<close> what reading it as text gives,
  \<open>None\<close> when that fails. The fields of a \<open>Response\<close> are no own properties, so spreading one copies
  nothing.
\<close>

record http_response =
  rp_url :: string
  rp_status :: int
  rp_statusText :: string
  rp_redirected :: bool
  rp_type :: string
  bodyUsed :: bool
  body_json :: "jsval option"
  body_text :: "string option"

text \<open>An exception is a \<open>TypeError\<close> or another one, with its message; an object may carry a response.\<close>

datatype error_response =
    StringResponse string
  | ExceptionResponse bool string
  | HttpResponse http_response
  | ObjectResponse jsobj "http_response option"

definition response_summary :: "http_response \<Rightarrow> jsobj" where
  "response_summary r =
     [(''url'', JStr (rp_url r)), (''status'', JNum (rp_status r)), (''statusText'', JStr (rp_statusText r)),
      (''redirected'', JBool (rp_redirected r)), (''type'', JStr (rp_type r))]"

definition timeout_error :: "browser \<Rightarrow> jsobj \<Rightarrow> jsobj" where
  "timeout_error b response =
     obj_set ''errors''
       (JArr [JObj [(''error_type'', JStr ''FRONTEND_TIMEOUT_ERROR''),
                    (''extra'', JObj [(''timeout'', seconds_of b (jget response ''timeout'')),
                       (''issue_codes'', JArr
                          [JObj [(''code'', JNum 1000),
                                 (''message'', JStr (tr b ''Issue 1000 - The dataset is too large to query.''))],
                           JObj [(''code'', JNum 1001),
                                 (''message'', JStr (tr b ''Issue 1001 - The database is under an unusual load.''))]])]),
                    (''level'', JStr ''error''),
                    (''message'', JStr ''Request timed out'')]])
       (obj_set ''error'' (JStr (tr b ''Request timed out'')) (obj_spread [] response))"

text \<open>The body as text: when it cannot be read, the promise is never settled.\<close>

definition error_from_text :: "browser \<Rightarrow> http_response \<Rightarrow> jsobj option" where
  "error_from_text b r =
     map_option (\<lambda>s. [(''error'', JStr (retrieveErrorMessage b s (Some (JNum (rp_status r)))))]) (body_text r)"

text \<open>The body as JSON; the handler of the failure also catches what \<open>parseErrorJson\<close> throws.\<close>

definition error_from_body :: "browser \<Rightarrow> http_response \<Rightarrow> jsobj option" where
  "error_from_body b r =
     (case body_json r of
        None \<Rightarrow> error_from_text b r
      | Some json \<Rightarrow>
          (case parseErrorJson b (obj_spread (obj_spread [] (entries_of json)) (response_summary r)) of
             Inl e \<Rightarrow> error_from_text b r
           | Inr error \<Rightarrow> Some error))"

text \<open>\<open>parseStringResponse\<close> of what need not be a string: only a string can be trimmed.\<close>

definition parse_response_value :: "browser \<Rightarrow> jsval \<Rightarrow> jsval result" where
  "parse_response_value b v =
     (case v of
        JStr s \<Rightarrow> Inr (JStr (parseStringResponse b s))
      | _ \<Rightarrow> if isJsonString b (key_of v) then Inr v else Inl TypeError)"

definition error_from_status_text :: "browser \<Rightarrow> jsval \<Rightarrow> jsval \<Rightarrow> jsobj result" where
  "error_from_status_text b statusText message =
     rbind (parse_response_value b (js_or (js_or statusText message) (JStr (tr b ''An error occurred''))))
       (\<lambda>error. Inr [(''error'', error)])"

definition readable :: "http_response option \<Rightarrow> http_response option" where
  "readable r = (case r of Some h \<Rightarrow> if bodyUsed h then None else Some h | None \<Rightarrow> None)"

text \<open>\<open>None\<close>: the promise is never settled; \<open>Inl\<close>: it is rejected.\<close>

definition getClientErrorObject :: "browser \<Rightarrow> error_response \<Rightarrow> jsobj result option" where
  "getClientErrorObject b response =
     (case response of
        StringResponse s \<Rightarrow> Some (Inr [(''error'', JStr (parseStringResponse b s))])
      | ExceptionResponse type_error message \<Rightarrow>
          if type_error \<and> message = ''Failed to fetch''
          then Some (Inr [(''error'', JStr (tr b ''Network error''))])
          else Some (error_from_status_text b JUndef (JStr message))
      | HttpResponse r \<Rightarrow>
          if \<not> bodyUsed r then map_option Inr (error_from_body b r)
          else Some (error_from_status_text b (JStr (rp_statusText r)) JUndef)
      | ObjectResponse ob r \<Rightarrow>
          if obj_get ob ''timeout'' \<noteq> None \<and> jget ob ''statusText'' = JStr ''timeout''
          then Some (Inr (timeout_error b ob))
          else case readable r of
                 Some h \<Rightarrow> map_option Inr (error_from_body b h)
               | None \<Rightarrow> Some (error_from_status_text b (jget ob ''statusText'') (jget ob ''message'')))"

definition getErrorText :: "browser \<Rightarrow> error_response \<Rightarrow> string \<Rightarrow> string result option" where
  "getErrorText b errorObject source =
     map_option (\<lambda>r. rbind r (\<lambda>e.
       let error = jget e ''error'';
           errorText = (if truthy error
                        then translate b ''Sorry, there was an error saving this %s: %s'' [JStr source, error]
                        else tr b ''Sorry, an unknown error occurred.'')
       in Inr (if jget e ''message'' = JStr ''Forbidden''
               then translate b ''You do not have permission to edit this %s'' [JStr source]
               else errorText)))
       (getClientErrorObject b errorObject)"

definition getClientErrorMessage :: "string \<Rightarrow> jsobj option \<Rightarrow> string" where
  "getClientErrorMessage message clientError =
     (case clientError of
        None \<Rightarrow> message
      | Some e \<Rightarrow>
          let errorMessage = js_or (jget e ''message'') (jget e ''error'')
          in if truthy errorMessage then message @ '':'' @ [CHR 10] @ key_of errorMessage else message)"

section \<open>Every reported error has an error attribute\<close>

lemma parseErrorJson_has_error: "parseErrorJson b json = Inr e \<Longrightarrow> ''error'' \<in> fst ` set e"
  by (auto simp: parseErrorJson_def rbind_eq_Inr)

lemma error_from_body_has_error: "error_from_body b r = Some e \<Longrightarrow> ''error'' \<in> fst ` set e"
  by (auto simp: error_from_body_def error_from_text_def split: option.split_asm sum.split_asm
      dest: parseErrorJson_has_error)

lemma status_text_has_error: "error_from_status_text b v m = Inr e \<Longrightarrow> ''error'' \<in> fst ` set e"
  by (auto simp: error_from_status_text_def rbind_eq_Inr)

theorem reported_error_has_error:
  "getClientErrorObject b response = Some (Inr e) \<Longrightarrow> ''error'' \<in> fst ` set e"
  by (auto simp: getClientErrorObject_def timeout_error_def
      split: error_response.split_asm if_split_asm option.split_asm
      dest: error_from_body_has_error status_text_has_error)

text \<open>It is reported whenever the body can be read as text, or need not be read.\<close>

lemma error_from_body_settles: "body_text r \<noteq> None \<Longrightarrow> error_from_body b r \<noteq> None"
  by (auto simp: error_from_body_def error_from_text_def split: option.split sum.split)

text \<open>A body that is no JSON and cannot be read as text leaves the promise pending for ever.\<close>

theorem unreadable_body_is_never_reported:
  "\<not> bodyUsed r \<Longrightarrow> body_json r = None \<Longrightarrow> body_text r = None \<Longrightarrow>
   getClientErrorObject b (HttpResponse r) = None"
  by (simp add: getClientErrorObject_def error_from_body_def error_from_text_def)

text \<open>For a body that is no JSON the message of a known status wins over the text.\<close>

theorem status_message_wins:
  "\<not> bodyUsed r \<Longrightarrow> body_json r = None \<Longrightarrow> body_text r = Some s \<Longrightarrow>
   getErrorFromStatusCode (JNum (rp_status r)) = Some m \<Longrightarrow>
   getClientErrorObject b (HttpResponse r) = Some (Inr [(''error'', JStr m)])"
  by (simp add: getClientErrorObject_def error_from_body_def error_from_text_def retrieveErrorMessage_def)

end
