(* ===== verification/AsyncEvents.thy ===== *)
theory AsyncEvents
  imports ClientErrors
begin

text \<open>
  The asynchronous queries of charts: \<open>src/middleware/asyncEvent.ts\<close>. A caller waits for a job, the
  events about jobs arrive by polling or over a web socket, and the listener of a job settles the
  caller's promise. The state holds the variables of the module and what the browser has pending for it:
  timers, requests and sockets, each under an identifier of its own. A label says what happens next,
  and \<open>async_step\<close> runs the handler to its next \<open>await\<close>.
\<close>

section \<open>State\<close>

text \<open>
  \<open>THREW\<close> is a promise rejected by an exception. A listener is the number of the promise it settles. Fetches
  remember that promise, the listener's job and the endpoint; requests remember their arguments. The tables of the
  listeners and of the retries are \<open>undefined\<close> until \<open>init\<close> runs with the feature enabled (\<open>initialized\<close>);
  before, nothing is scheduled, so that of all handlers only \<open>waitForAsyncData\<close> can meet them so.
\<close>

datatype outcome = WAITING | RESOLVED jsval | REJECTED jsval | THREW js_error

record pending_fetch =
  pf_promise :: nat
  pf_job :: string
  pf_endpoint :: string

record socket =
  sk_url :: string
  readyState :: nat

record async_state =
  initialized :: bool
  transport :: jsval
  pollingDelayMs :: jsval
  ws_url :: jsval
  listenersByJobId :: "(string, nat) obj"
  retriesByJobId :: "(string, nat) obj"
  lastReceivedEventId :: jsval
  stored_id :: "string option"
  promises :: "outcome list"
  retry_timers :: "(nat, nat \<times> jsval) obj"
  fetches :: "(nat, pending_fetch) obj"
  poll_requests :: "(nat, jsobj) obj"
  poll_timers :: "nat list"
  pollingTimeoutId :: "nat option"
  sockets :: "(nat, socket) obj"
  current_ws :: "nat option"
  ws_timers :: "nat list"
  wsConnectTimeout :: "nat option"
  wsConnectRetries :: nat
  next_id :: nat

text \<open>The module before \<open>init\<close>.\<close>

definition blank :: async_state where
  "blank = \<lparr>initialized = False, transport = JUndef, pollingDelayMs = JUndef, ws_url = JUndef,
     listenersByJobId = [], retriesByJobId = [], lastReceivedEventId = JUndef, stored_id = None,
     promises = [], retry_timers = [], fetches = [], poll_requests = [], poll_timers = [],
     pollingTimeoutId = None, sockets = [], current_ws = None, ws_timers = [], wsConnectTimeout = None,
     wsConnectRetries = 0, next_id = 0\<rparr>"

text \<open>
  Whether \<open>localStorage\<close> may be used, whether the feature is enabled, and the engine's message for
  \<open>'result' in json\<close> of no object.
\<close>

record async_env =
  env_browser :: browser
  storage_works :: bool
  feature_enabled :: bool
  in_message :: "jsval \<Rightarrow> string"

definition MAX_RETRIES :: nat where
  "MAX_RETRIES = 6"

definition RETRY_DELAY :: nat where
  "RETRY_DELAY = 100"

definition wsConnectMaxRetries :: nat where
  "wsConnectMaxRetries = 6"

section \<open>Listeners\<close>

definition addListener :: "string \<Rightarrow> nat \<Rightarrow> async_state \<Rightarrow> async_state" where
  "addListener i fn s = s\<lparr>listenersByJobId := obj_set i fn (listenersByJobId s)\<rparr>"

definition removeListener :: "string \<Rightarrow> async_state \<Rightarrow> async_state" where
  "removeListener i s =
     (if obj_get (listenersByJobId s) i = None then s
      else s\<lparr>listenersByJobId := obj_del i (listenersByJobId s)\<rparr>)"

text \<open>Only the first \<open>resolve\<close> or \<open>reject\<close> of a promise counts.\<close>

definition settle :: "nat \<Rightarrow> outcome \<Rightarrow> async_state \<Rightarrow> async_state" where
  "settle p out s =
     (if p < length (promises s) \<and> promises s ! p = WAITING then s\<lparr>promises := (promises s)[p := out]\<rparr> else s)"

text \<open>What \<open>fetchCachedData\<close> gets: a body, or a failure of the request.\<close>

datatype cached_reply = CachedJson jsval | FetchFailed error_response

definition cached_error :: "async_env \<Rightarrow> error_response \<Rightarrow> outcome option" where
  "cached_error env response =
     (case getClientErrorObject (env_browser env) response of
        Some (Inr err) \<Rightarrow> Some (REJECTED (JArr [JObj err]))
      | _ \<Rightarrow> None)"

text \<open>
  The outcome of the listener's \<open>fetchCachedData\<close>; \<open>None\<close> when the listener never gets past it, since the error is
  never reported or reporting it throws. \<open>in\<close> throws unless its right side is an object.
\<close>

definition fetchCachedData :: "async_env \<Rightarrow> cached_reply \<Rightarrow> outcome option" where
  "fetchCachedData env reply =
     (case reply of
        FetchFailed response \<Rightarrow> cached_error env response
      | CachedJson json \<Rightarrow>
          (case json of
             JObj ob \<Rightarrow>
               Some (RESOLVED (JArr (ensureIsArray (case obj_get ob ''result'' of Some v \<Rightarrow> v | None \<Rightarrow> json))))
           | JArr xs \<Rightarrow> Some (RESOLVED (JArr xs))
           | _ \<Rightarrow> cached_error env (ExceptionResponse True (in_message env json))))"

text \<open>The job an event is about, as a key.\<close>

definition job_of :: "jsval \<Rightarrow> string" where
  "job_of asyncEvent = key_of (chain asyncEvent ''job_id'')"

text \<open>
  The listener of a job up to its first \<open>await\<close>. When \<open>parseErrorJson\<close> throws, the listener's own promise is rejected
  and nothing else happens.
\<close>

definition run_listener :: "async_env \<Rightarrow> string \<Rightarrow> nat \<Rightarrow> jsval \<Rightarrow> async_state \<Rightarrow> async_state" where
  "run_listener env jobId p asyncEvent s =
     (let status = chain asyncEvent ''status''
      in if status = JStr ''done''
         then s\<lparr>fetches := fetches s @ [(next_id s, \<lparr>pf_promise = p, pf_job = jobId,
                                           pf_endpoint = key_of (chain asyncEvent ''result_url'')\<rparr>)],
                next_id := Suc (next_id s)\<rparr>
         else if status = JStr ''error''
         then (case parseErrorJson (env_browser env) (entries_of asyncEvent) of
                 Inl e \<Rightarrow> s
               | Inr err \<Rightarrow> removeListener jobId (settle p (REJECTED (JObj err)) s))
         else removeListener jobId s)"

text \<open>The rest of the listener, when the data have arrived.\<close>

definition finish_fetch :: "async_env \<Rightarrow> nat \<Rightarrow> cached_reply \<Rightarrow> async_state \<Rightarrow> async_state" where
  "finish_fetch env i reply s =
     (case obj_get (fetches s) i of
        None \<Rightarrow> s
      | Some f \<Rightarrow>
          let s' = s\<lparr>fetches := obj_del i (fetches s)\<rparr>
          in case fetchCachedData env reply of
               None \<Rightarrow> s'
             | Some out \<Rightarrow> removeListener (pf_job f) (settle (pf_promise f) out s'))"

text \<open>Registering a listener throws in the promise's executor when there is no table to put it in.\<close>

definition waitForAsyncData :: "jsval \<Rightarrow> async_state \<Rightarrow> async_state" where
  "waitForAsyncData asyncResponse s =
     (if nullish asyncResponse \<or> \<not> initialized s then s\<lparr>promises := promises s @ [THREW TypeError]\<rparr>
      else addListener (job_of asyncResponse) (length (promises s)) (s\<lparr>promises := promises s @ [WAITING]\<rparr>))"

section \<open>Events\<close>

definition setLastId :: "async_env \<Rightarrow> jsval \<Rightarrow> async_state \<Rightarrow> async_state" where
  "setLastId env asyncEvent s =
     (let i = chain asyncEvent ''id''
      in s\<lparr>lastReceivedEventId := i,
           stored_id := (if storage_works env then Some (key_of i) else stored_id s)\<rparr>)"

text \<open>An event whose job has no listener is retried later, a few times.\<close>

definition retry_event :: "string \<Rightarrow> jsval \<Rightarrow> async_state \<Rightarrow> async_state" where
  "retry_event jobId asyncEvent s =
     (let n = Suc (case obj_get (retriesByJobId s) jobId of None \<Rightarrow> 0 | Some m \<Rightarrow> m)
      in if n \<le> MAX_RETRIES
         then s\<lparr>retriesByJobId := obj_set jobId n (retriesByJobId s),
                retry_timers := retry_timers s @ [(next_id s, RETRY_DELAY * n, asyncEvent)],
                next_id := Suc (next_id s)\<rparr>
         else s\<lparr>retriesByJobId := obj_del jobId (retriesByJobId s)\<rparr>)"

definition process_event :: "async_env \<Rightarrow> jsval \<Rightarrow> async_state \<Rightarrow> async_state" where
  "process_event env asyncEvent s =
     (let jobId = job_of asyncEvent
      in setLastId env asyncEvent
           (case obj_get (listenersByJobId s) jobId of
              Some p \<Rightarrow>
                let s' = run_listener env jobId p asyncEvent s
                in s'\<lparr>retriesByJobId := obj_del jobId (retriesByJobId s')\<rparr>
            | None \<Rightarrow> retry_event jobId asyncEvent s))"

text \<open>An event that is \<open>null\<close> throws: the events after it are not handled, and the callers log the exception.\<close>

fun processEvents :: "async_env \<Rightarrow> jsval list \<Rightarrow> async_state \<Rightarrow> async_state" where
  "processEvents env [] s = s"
| "processEvents env (ev # evs) s =
     (if nullish ev then s else processEvents env evs (process_event env ev s))"

section \<open>Polling\<close>

definition schedule_poll :: "async_state \<Rightarrow> async_state" where
  "schedule_poll s =
     (if transport s = JStr ''polling''
      then s\<lparr>poll_timers := poll_timers s @ [next_id s], pollingTimeoutId := Some (next_id s),
             next_id := Suc (next_id s)\<rparr>
      else s)"

text \<open>Up to the request, which is sent when somebody waits.\<close>

definition loadEventsFromApi :: "async_state \<Rightarrow> async_state" where
  "loadEventsFromApi s =
     (let eventArgs = (if truthy (lastReceivedEventId s) then [(''last_id'', lastReceivedEventId s)] else [])
      in if listenersByJobId s \<noteq> []
         then s\<lparr>poll_requests := poll_requests s @ [(next_id s, eventArgs)], next_id := Suc (next_id s)\<rparr>
         else schedule_poll s)"

text \<open>The rest: the answer's events, or \<open>None\<close> for a failed request. Only an array has \<open>forEach\<close>.\<close>

definition finish_poll :: "async_env \<Rightarrow> nat \<Rightarrow> jsval option \<Rightarrow> async_state \<Rightarrow> async_state" where
  "finish_poll env i answer s =
     (if obj_get (poll_requests s) i = None then s
      else let s' = s\<lparr>poll_requests := obj_del i (poll_requests s)\<rparr>
           in schedule_poll (case answer of Some (JArr evs) \<Rightarrow> processEvents env evs s' | _ \<Rightarrow> s'))"

section \<open>Web sockets\<close>

definition wsConnect :: "async_state \<Rightarrow> async_state" where
  "wsConnect s =
     (let url = (if truthy (lastReceivedEventId s)
                 then key_of (ws_url s) @ ''?last_id='' @ key_of (lastReceivedEventId s)
                 else key_of (ws_url s))
      in s\<lparr>sockets := sockets s @ [(next_id s, \<lparr>sk_url = url, readyState = 0\<rparr>)],
           current_ws := Some (next_id s), next_id := Suc (next_id s)\<rparr>)"

definition ws_opened :: "nat \<Rightarrow> async_state \<Rightarrow> async_state" where
  "ws_opened i s =
     (case obj_get (sockets s) i of
        None \<Rightarrow> s
      | Some k \<Rightarrow>
          if readyState k = 0
          then s\<lparr>sockets := obj_set i (k\<lparr>readyState := 1\<rparr>) (sockets s),
                 ws_timers := (case wsConnectTimeout s of None \<Rightarrow> ws_timers s | Some t \<Rightarrow> filter (\<lambda>x. x \<noteq> t) (ws_timers s)),
                 wsConnectRetries := 0\<rparr>
          else s)"

definition ws_closed :: "nat \<Rightarrow> async_state \<Rightarrow> async_state" where
  "ws_closed i s =
     (if obj_get (sockets s) i = None then s
      else s\<lparr>sockets := obj_del i (sockets s), ws_timers := ws_timers s @ [next_id s],
             wsConnectTimeout := Some (next_id s), next_id := Suc (next_id s)\<rparr>)"

text \<open>The handler closes the newest socket, whichever socket had the error.\<close>

definition ws_failed :: "nat \<Rightarrow> async_state \<Rightarrow> async_state" where
  "ws_failed i s =
     (if obj_get (sockets s) i = None then s
      else case current_ws s of
             None \<Rightarrow> s
           | Some c \<Rightarrow>
               (case obj_get (sockets s) c of
                  None \<Rightarrow> s
                | Some k \<Rightarrow> if readyState k < 2 then s\<lparr>sockets := obj_set c (k\<lparr>readyState := 2\<rparr>) (sockets s)\<rparr> else s))"

definition ws_message :: "async_env \<Rightarrow> nat \<Rightarrow> string \<Rightarrow> async_state \<Rightarrow> async_state" where
  "ws_message env i text s =
     (if map_option readyState (obj_get (sockets s) i) = Some 1
      then (case parse_json (env_browser env) text of None \<Rightarrow> s | Some ev \<Rightarrow> processEvents env [ev] s)
      else s)"

definition ws_timeout :: "nat \<Rightarrow> async_state \<Rightarrow> async_state" where
  "ws_timeout i s =
     (if i \<notin> set (ws_timers s) then s
      else let n = Suc (wsConnectRetries s);
               s' = s\<lparr>ws_timers := filter (\<lambda>x. x \<noteq> i) (ws_timers s), wsConnectRetries := n\<rparr>
           in if n \<le> wsConnectMaxRetries then wsConnect s' else loadEventsFromApi s')"

section \<open>Initialization and steps\<close>

definition init_events :: "async_env \<Rightarrow> jsobj \<Rightarrow> async_state \<Rightarrow> async_state" where
  "init_events env config s =
     (if \<not> feature_enabled env then s
      else let s' = s\<lparr>poll_timers := (case pollingTimeoutId s of
                                         None \<Rightarrow> poll_timers s
                                       | Some t \<Rightarrow> filter (\<lambda>x. x \<noteq> t) (poll_timers s)),
                      initialized := True, listenersByJobId := [], retriesByJobId := [],
                      lastReceivedEventId := (case stored_id s of
                          Some i \<Rightarrow> if storage_works env then JStr i else JNull
                        | None \<Rightarrow> JNull),
                      transport := js_or (jget config ''GLOBAL_ASYNC_QUERIES_TRANSPORT'') (JStr ''polling''),
                      pollingDelayMs := js_or (jget config ''GLOBAL_ASYNC_QUERIES_POLLING_DELAY'') (JNum 500),
                      ws_url := jget config ''GLOBAL_ASYNC_QUERIES_WEBSOCKET_URL''\<rparr>
           in if transport s' = JStr ''polling'' then loadEventsFromApi s'
              else if transport s' = JStr ''ws'' then wsConnect s'
              else s')"

datatype async_label =
    Init jsobj
  | WaitFor jsval
  | RetryTimer nat
  | FetchReply nat cached_reply
  | PollTimer nat
  | PollReply nat "jsval option"
  | WsOpen nat
  | WsClose nat
  | WsError nat
  | WsMessage nat string
  | WsTimer nat

fun async_step :: "async_env \<Rightarrow> async_label \<Rightarrow> async_state \<Rightarrow> async_state" where
  "async_step env (Init config) s = init_events env config s"
| "async_step env (WaitFor asyncResponse) s = waitForAsyncData asyncResponse s"
| "async_step env (RetryTimer i) s =
     (case obj_get (retry_timers s) i of
        None \<Rightarrow> s
      | Some (delay, ev) \<Rightarrow> processEvents env [ev] (s\<lparr>retry_timers := obj_del i (retry_timers s)\<rparr>))"
| "async_step env (FetchReply i reply) s = finish_fetch env i reply s"
| "async_step env (PollTimer i) s =
     (if i \<in> set (poll_timers s)
      then loadEventsFromApi (s\<lparr>poll_timers := filter (\<lambda>x. x \<noteq> i) (poll_timers s)\<rparr>)
      else s)"
| "async_step env (PollReply i answer) s = finish_poll env i answer s"
| "async_step env (WsOpen i) s = ws_opened i s"
| "async_step env (WsClose i) s = ws_closed i s"
| "async_step env (WsError i) s = ws_failed i s"
| "async_step env (WsMessage i text) s = ws_message env i text s"
| "async_step env (WsTimer i) s = ws_timeout i s"

end
