(* ===== verification/AsyncRun.thy ===== *)
theory AsyncRun
  imports AsyncEvents
begin

text \<open>
  The reachable states of the asynchronous events and their invariant: a listener's promise
  is waiting and no two listeners share one, a fetch that settles a listener's promise removes that listener,
  retries and their delays are bounded, identifiers are fresh, and under the polling transport a timer
  or a request is always pending. Further what runs of labels do: the promises that nobody will settle,
  the number of retries, and the lemmas on infinite runs that the liveness property rests on.
\<close>

section \<open>Reachable states\<close>

inductive async_reach :: "async_env \<Rightarrow> async_state \<Rightarrow> bool" for env where
  loaded: "async_reach env (async_step env (Init config) (blank\<lparr>stored_id := stored\<rparr>))"
| stepped: "async_reach env s \<Longrightarrow> async_reach env (async_step env l s)"

section \<open>Listeners and promises\<close>

definition fetch_settles :: "(string, nat) obj \<Rightarrow> outcome list \<Rightarrow> pending_fetch \<Rightarrow> bool" where
  "fetch_settles ls ps f \<longleftrightarrow>
     pf_promise f < length ps \<and> (\<forall>j. (j, pf_promise f) \<in> set ls \<longrightarrow> j = pf_job f)"

definition waiting_inv :: "(string, nat) obj \<Rightarrow> outcome list \<Rightarrow> (nat, pending_fetch) obj \<Rightarrow> bool" where
  "waiting_inv ls ps fs \<longleftrightarrow>
     distinct (map snd ls) \<and> (\<forall>j p. (j, p) \<in> set ls \<longrightarrow> p < length ps \<and> ps ! p = WAITING) \<and>
     (\<forall>i f. (i, f) \<in> set fs \<longrightarrow> fetch_settles ls ps f)"

abbreviation waiting_ok :: "async_state \<Rightarrow> bool" where
  "waiting_ok s \<equiv> waiting_inv (listenersByJobId s) (promises s) (fetches s)"

lemma set_obj_del: "x \<in> set (obj_del k ob) \<longleftrightarrow> x \<in> set ob \<and> fst x \<noteq> k"
  by (auto simp: obj_del_def)

lemma distinct_snd_del: "distinct (map snd ob) \<Longrightarrow> distinct (map snd (obj_del k ob))"
  by (induction ob) (auto simp: obj_del_def)

lemma fetch_settles_del: "fetch_settles ls ps f \<Longrightarrow> fetch_settles (obj_del j ls) ps f"
  by (simp add: fetch_settles_def set_obj_del)

lemma fetch_settles_update [simp]: "fetch_settles ls (ps[p := out]) f = fetch_settles ls ps f"
  by (simp add: fetch_settles_def)

lemma waiting_del_listener: "waiting_inv ls ps fs \<Longrightarrow> waiting_inv (obj_del j ls) ps fs"
  by (auto simp: waiting_inv_def distinct_snd_del set_obj_del fetch_settles_del)

lemma waiting_del_fetch: "waiting_inv ls ps fs \<Longrightarrow> waiting_inv ls ps (obj_del i fs)"
  by (auto simp: waiting_inv_def set_obj_del)

text \<open>Settling the promise of a listener and removing the listener.\<close>

lemma waiting_settled:
  assumes "waiting_inv ls ps fs" and "\<And>k. (k, p) \<in> set ls \<Longrightarrow> k = j"
  shows "waiting_inv (obj_del j ls) (ps[p := out]) fs"
proof -
  have "ps[p := out] ! q = WAITING" if "(k, q) \<in> set ls" "k \<noteq> j" for k q
  proof -
    have "q \<noteq> p" using that assms(2) by blast
    then show ?thesis using assms(1) that(1) by (simp add: waiting_inv_def)
  qed
  then show ?thesis
    using assms(1) by (auto simp: waiting_inv_def distinct_snd_del set_obj_del fetch_settles_del)
qed

lemma one_key: "distinct (map snd ob) \<Longrightarrow> (a, v) \<in> set ob \<Longrightarrow> (b, v) \<in> set ob \<Longrightarrow> a = b"
  using inj_onD [of snd "set ob" "(a, v)" "(b, v)"] by (simp add: distinct_map)

lemma waiting_listener: "waiting_inv ls ps fs \<Longrightarrow> (j, p) \<in> set ls \<Longrightarrow> p < length ps \<and> ps ! p = WAITING"
  unfolding waiting_inv_def by blast

lemma waiting_key: "waiting_inv ls ps fs \<Longrightarrow> (k, p) \<in> set ls \<Longrightarrow> (j, p) \<in> set ls \<Longrightarrow> k = j"
  unfolding waiting_inv_def using one_key [of ls k p j] by blast

lemma waiting_fetch: "waiting_inv ls ps fs \<Longrightarrow> (i, f) \<in> set fs \<Longrightarrow> fetch_settles ls ps f"
  unfolding waiting_inv_def by blast

lemma waiting_new_fetch:
  assumes "waiting_inv ls ps fs" and "(j, p) \<in> set ls"
  shows "waiting_inv ls ps (fs @ [(i, \<lparr>pf_promise = p, pf_job = j, pf_endpoint = u\<rparr>)])"
proof -
  have "fetch_settles ls ps \<lparr>pf_promise = p, pf_job = j, pf_endpoint = u\<rparr>"
    using waiting_listener [OF assms] waiting_key [OF assms(1) _ assms(2)] by (simp add: fetch_settles_def)
  with assms(1) show ?thesis unfolding waiting_inv_def by auto
qed

lemma in_obj_set: "(k, x) \<in> set (obj_set j v ob) \<Longrightarrow> (k, x) \<in> set ob \<or> k = j \<and> x = v"
  by (induction ob) (auto split: if_splits)

lemma distinct_snd_set:
  "distinct (map snd ob) \<Longrightarrow> v \<notin> snd ` set ob \<Longrightarrow> distinct (map snd (obj_set j v ob))"
proof (induction ob)
  case Nil
  then show ?case by simp
next
  case (Cons e ob)
  obtain k x where e: "e = (k, x)" by (cases e)
  have "x \<notin> snd ` set (obj_set j v ob)"
    using Cons.prems e by (auto dest!: in_obj_set)
  then show ?case using Cons e by auto
qed

lemma waiting_add_listener:
  assumes "waiting_inv ls ps fs"
  shows "waiting_inv (obj_set j (length ps) ls) (ps @ [WAITING]) fs"
proof -
  have "length ps \<notin> snd ` set ls" using assms by (fastforce simp: waiting_inv_def)
  then have "distinct (map snd (obj_set j (length ps) ls))"
    using assms by (intro distinct_snd_set) (simp_all add: waiting_inv_def)
  moreover have "q < length (ps @ [WAITING]) \<and> (ps @ [WAITING]) ! q = WAITING"
    if "(k, q) \<in> set (obj_set j (length ps) ls)" for k q
    using assms in_obj_set [OF that] by (auto simp: waiting_inv_def nth_append)
  moreover have "fetch_settles (obj_set j (length ps) ls) (ps @ [WAITING]) f" if "(i, f) \<in> set fs" for i f
  proof -
    have f: "fetch_settles ls ps f" using assms that by (rule waiting_fetch)
    then have "(k, pf_promise f) \<in> set ls" if "(k, pf_promise f) \<in> set (obj_set j (length ps) ls)" for k
      using in_obj_set [OF that] by (auto simp: fetch_settles_def)
    with f show ?thesis unfolding fetch_settles_def by (metis length_append_singleton less_SucI)
  qed
  ultimately show ?thesis unfolding waiting_inv_def by blast
qed

text \<open>A removal, whether or not there is a listener, and the fields that settling leaves alone.\<close>

lemma obj_del_absent: "obj_get ob k = None \<Longrightarrow> obj_del k ob = ob"
  by (induction ob) (auto simp: obj_del_def split: if_splits)

lemma removeListener_eq: "removeListener j s = s\<lparr>listenersByJobId := obj_del j (listenersByJobId s)\<rparr>"
  by (simp add: removeListener_def obj_del_absent)

lemma settle_eq:
  "settle p out s =
     s\<lparr>promises := (if p < length (promises s) \<and> promises s ! p = WAITING then (promises s)[p := out] else promises s)\<rparr>"
  by (simp add: settle_def)

section \<open>Identifiers\<close>

text \<open>The fetches and requests that are pending have identifiers below the next one.\<close>

abbreviation ids_ok :: "async_state \<Rightarrow> bool" where
  "ids_ok s \<equiv> (\<forall>i \<in> fst ` set (fetches s). i < next_id s) \<and> (\<forall>i \<in> fst ` set (poll_requests s). i < next_id s)"

section \<open>Retries\<close>

text \<open>A job is retried at most \<open>MAX_RETRIES\<close> times, with delays of 100 to 600 milliseconds.\<close>

definition retries_inv :: "(string, nat) obj \<Rightarrow> (nat, nat \<times> jsval) obj \<Rightarrow> bool" where
  "retries_inv rs ts \<longleftrightarrow>
     (\<forall>j n. obj_get rs j = Some n \<longrightarrow> 1 \<le> n \<and> n \<le> MAX_RETRIES) \<and>
     (\<forall>i d ev. (i, d, ev) \<in> set ts \<longrightarrow>
        RETRY_DELAY \<le> d \<and> d \<le> RETRY_DELAY * MAX_RETRIES \<and> \<not> nullish ev)"

abbreviation retries_ok :: "async_state \<Rightarrow> bool" where
  "retries_ok s \<equiv> retries_inv (retriesByJobId s) (retry_timers s)"

section \<open>Polling goes on\<close>

abbreviation polling_on :: "async_state \<Rightarrow> bool" where
  "polling_on s \<equiv> transport s = JStr ''polling'' \<longrightarrow> poll_timers s \<noteq> [] \<or> poll_requests s \<noteq> []"

section \<open>Every handler keeps the invariant\<close>

text \<open>What the handling of an event leaves alone.\<close>

definition same_polling :: "async_state \<Rightarrow> async_state \<Rightarrow> bool" where
  "same_polling s s' \<longleftrightarrow>
     transport s' = transport s \<and> poll_timers s' = poll_timers s \<and> poll_requests s' = poll_requests s \<and>
     next_id s \<le> next_id s'"

lemma same_polling_trans: "same_polling s t \<Longrightarrow> same_polling t u \<Longrightarrow> same_polling s u"
  by (simp add: same_polling_def)

lemma retry_event_polling: "same_polling s (retry_event j ev s)"
  by (simp add: same_polling_def retry_event_def Let_def)

lemma run_listener_polling: "same_polling s (run_listener env j p ev s)"
  by (cases "parseErrorJson (env_browser env) (entries_of ev)")
     (simp_all add: same_polling_def run_listener_def Let_def removeListener_eq settle_eq)

lemma process_event_polling: "same_polling s (process_event env ev s)"
  using run_listener_polling [of s env "job_of ev" _ ev] retry_event_polling [of s "job_of ev" ev]
  by (cases "obj_get (listenersByJobId s) (job_of ev)")
     (simp_all add: same_polling_def process_event_def Let_def setLastId_def)

lemma processEvents_polling: "same_polling s (processEvents env evs s)"
proof (induction evs arbitrary: s)
  case Nil
  show ?case by (simp add: same_polling_def)
next
  case (Cons ev evs)
  show ?case
    using same_polling_trans [OF process_event_polling Cons.IH]
    by (simp add: same_polling_def [of s s])
qed

lemma waiting_conclude:
  "waiting_ok s \<Longrightarrow> (\<And>k. (k, p) \<in> set (listenersByJobId s) \<Longrightarrow> k = j) \<Longrightarrow>
   waiting_ok (removeListener j (settle p out s))"
  by (simp add: removeListener_eq settle_eq waiting_settled waiting_del_listener)

lemma run_listener_waiting:
  assumes ok: "waiting_ok s" and j: "obj_get (listenersByJobId s) j = Some p"
  shows "waiting_ok (run_listener env j p ev s)"
proof -
  have in_set: "(j, p) \<in> set (listenersByJobId s)" using j by (rule map_of_SomeD)
  have "waiting_ok (removeListener j (settle p out s))" for out
    using ok waiting_key [OF ok _ in_set] by (rule waiting_conclude)
  moreover have "waiting_ok (removeListener j s)"
    using ok by (simp add: removeListener_eq waiting_del_listener)
  ultimately show ?thesis
    using ok waiting_new_fetch [OF ok in_set]
    by (cases "parseErrorJson (env_browser env) (entries_of ev)") (simp_all add: run_listener_def Let_def)
qed

lemma process_event_waiting: "waiting_ok s \<Longrightarrow> waiting_ok (process_event env ev s)"
  using run_listener_waiting [of s "job_of ev"]
  by (cases "obj_get (listenersByJobId s) (job_of ev)")
     (simp_all add: process_event_def Let_def setLastId_def retry_event_def)

lemma process_event_ids: "ids_ok s \<Longrightarrow> ids_ok (process_event env ev s)"
proof (cases "obj_get (listenersByJobId s) (job_of ev)")
  case None
  assume "ids_ok s"
  with None show ?thesis
    by (auto simp: process_event_def Let_def setLastId_def retry_event_def less_Suc_eq)
next
  case (Some p)
  assume ok: "ids_ok s"
  have "ids_ok (run_listener env j q ev s)" for j q
    using ok by (cases "parseErrorJson (env_browser env) (entries_of ev)")
      (auto simp: run_listener_def Let_def removeListener_eq settle_eq less_Suc_eq)
  with Some show ?thesis by (simp add: process_event_def Let_def setLastId_def)
qed

lemma run_listener_retries [simp]:
  "retriesByJobId (run_listener env j p ev s) = retriesByJobId s"
  "retry_timers (run_listener env j p ev s) = retry_timers s"
  by (cases "parseErrorJson (env_browser env) (entries_of ev)";
      simp add: run_listener_def Let_def removeListener_eq settle_eq)+

lemma retries_less: "retries_inv rs ts \<Longrightarrow> retries_inv (obj_del j rs) ts"
  by (auto simp: retries_inv_def)

lemma retry_event_retries:
  assumes "retries_ok s" and "\<not> nullish ev"
  shows "retries_ok (retry_event j ev s)"
  using assms
  by (auto simp: retry_event_def Let_def retries_inv_def RETRY_DELAY_def MAX_RETRIES_def split: option.split)

lemma process_event_retries: "retries_ok s \<Longrightarrow> \<not> nullish ev \<Longrightarrow> retries_ok (process_event env ev s)"
  using retry_event_retries [of s ev]
  by (cases "obj_get (listenersByJobId s) (job_of ev)")
     (simp_all add: process_event_def Let_def setLastId_def retries_less)

text \<open>The invariant of the states; handling events keeps it.\<close>

definition async_ok :: "async_state \<Rightarrow> bool" where
  "async_ok s \<longleftrightarrow> waiting_ok s \<and> ids_ok s \<and> retries_ok s \<and> polling_on s"

lemma processEvents_ok:
  "waiting_ok s \<Longrightarrow> waiting_ok (processEvents env evs s)"
  "ids_ok s \<Longrightarrow> ids_ok (processEvents env evs s)"
  "retries_ok s \<Longrightarrow> retries_ok (processEvents env evs s)"
  by (induction evs arbitrary: s)
     (simp_all add: process_event_waiting process_event_ids process_event_retries del: ball_simps)

lemma processEvents_polling_on: "polling_on s \<Longrightarrow> polling_on (processEvents env evs s)"
  using processEvents_polling [of s env evs] by (simp add: same_polling_def)

lemma processEvents_async_ok: "async_ok s \<Longrightarrow> async_ok (processEvents env evs s)"
  unfolding async_ok_def by (intro conjI processEvents_ok processEvents_polling_on) auto

text \<open>The other handlers.\<close>

lemma schedule_poll_ok:
  "waiting_ok s \<Longrightarrow> ids_ok s \<Longrightarrow> retries_ok s \<Longrightarrow> async_ok (schedule_poll s)"
  by (auto simp: async_ok_def schedule_poll_def less_Suc_eq)

lemma loadEvents_ok:
  "waiting_ok s \<Longrightarrow> ids_ok s \<Longrightarrow> retries_ok s \<Longrightarrow> async_ok (loadEventsFromApi s)"
  using schedule_poll_ok [of s] by (auto simp: async_ok_def loadEventsFromApi_def Let_def less_Suc_eq)

lemma finish_poll_ok:
  assumes "async_ok s"
  shows "async_ok (finish_poll env i answer s)"
proof -
  let ?t = "s\<lparr>poll_requests := obj_del i (poll_requests s)\<rparr>"
  have t: "waiting_ok ?t" "ids_ok ?t" "retries_ok ?t"
    using assms by (auto simp: async_ok_def set_obj_del)
  have "async_ok (schedule_poll (processEvents env evs ?t))" for evs
    by (intro schedule_poll_ok processEvents_ok t)
  moreover have "async_ok (schedule_poll ?t)" by (intro schedule_poll_ok t)
  ultimately show ?thesis
    using assms by (auto simp: finish_poll_def Let_def split: option.split jsval.split)
qed

lemma finish_fetch_ok:
  assumes "async_ok s"
  shows "async_ok (finish_fetch env i reply s)"
proof (cases "obj_get (fetches s) i")
  case None
  then show ?thesis using assms by (simp add: finish_fetch_def)
next
  case (Some f)
  let ?t = "s\<lparr>fetches := obj_del i (fetches s)\<rparr>"
  have ok: "waiting_ok s" using assms by (simp add: async_ok_def)
  have "fetch_settles (listenersByJobId s) (promises s) f"
    by (rule waiting_fetch [OF ok map_of_SomeD [OF Some]])
  then have "waiting_ok (removeListener (pf_job f) (settle (pf_promise f) out ?t))" for out
    using ok by (intro waiting_conclude) (auto simp: waiting_del_fetch fetch_settles_def)
  moreover have "ids_ok ?t" "retries_ok ?t" "polling_on ?t" "waiting_ok ?t"
    using assms by (auto simp: async_ok_def set_obj_del waiting_del_fetch)
  ultimately show ?thesis
    using Some by (simp add: finish_fetch_def Let_def async_ok_def removeListener_eq settle_eq split: option.split)
qed

lemma waitFor_ok: "async_ok s \<Longrightarrow> async_ok (waitForAsyncData r s)"
proof -
  assume ok: "async_ok s"
  then have w: "waiting_ok s" by (simp add: async_ok_def)
  have "waiting_inv (listenersByJobId s) (promises s @ [THREW e]) (fetches s)" for e
    using w by (fastforce simp: waiting_inv_def nth_append fetch_settles_def)
  with ok waiting_add_listener [OF w] show ?thesis
    by (simp add: waitForAsyncData_def addListener_def async_ok_def)
qed

lemma wsConnect_ok: "async_ok s \<Longrightarrow> async_ok (wsConnect s)"
  by (auto simp: wsConnect_def Let_def async_ok_def less_Suc_eq)

lemma init_ok:
  assumes "async_ok s"
  shows "async_ok (init_events env config s)"
proof (cases "feature_enabled env")
  case True
  define t where "t = s\<lparr>poll_timers := (case pollingTimeoutId s of None \<Rightarrow> poll_timers s
                             | Some t \<Rightarrow> filter (\<lambda>x. x \<noteq> t) (poll_timers s)),
      initialized := True, listenersByJobId := [], retriesByJobId := [],
      lastReceivedEventId := (case stored_id s of
          Some i \<Rightarrow> if storage_works env then JStr i else JNull | None \<Rightarrow> JNull),
      transport := js_or (jget config ''GLOBAL_ASYNC_QUERIES_TRANSPORT'') (JStr ''polling''),
      pollingDelayMs := js_or (jget config ''GLOBAL_ASYNC_QUERIES_POLLING_DELAY'') (JNum 500),
      ws_url := jget config ''GLOBAL_ASYNC_QUERIES_WEBSOCKET_URL''\<rparr>"
  have t: "waiting_ok t" "ids_ok t" "retries_ok t"
    using assms by (auto simp: t_def async_ok_def waiting_inv_def fetch_settles_def retries_inv_def)
  have "async_ok (wsConnect t)" if "transport t \<noteq> JStr ''polling''"
    using t that by (intro wsConnect_ok) (simp add: async_ok_def)
  moreover have "async_ok t" if "transport t \<noteq> JStr ''polling''"
    using t that by (simp add: async_ok_def)
  moreover have "async_ok (loadEventsFromApi t)" by (intro loadEvents_ok t)
  moreover have "init_events env config s =
      (if transport t = JStr ''polling'' then loadEventsFromApi t
       else if transport t = JStr ''ws'' then wsConnect t else t)"
    using True by (simp add: init_events_def t_def Let_def)
  ultimately show ?thesis by simp
next
  case False
  then show ?thesis using assms by (simp add: init_events_def)
qed

lemma ws_timeout_ok: "async_ok s \<Longrightarrow> async_ok (ws_timeout i s)"
  by (auto simp: ws_timeout_def Let_def intro!: wsConnect_ok loadEvents_ok) (auto simp: async_ok_def)

lemma async_step_ok: "async_ok s \<Longrightarrow> async_ok (async_step env l s)"
proof (cases l)
  case (RetryTimer i)
  assume ok: "async_ok s"
  then have "async_ok (s\<lparr>retry_timers := obj_del i (retry_timers s)\<rparr>)"
    by (auto simp: async_ok_def retries_inv_def set_obj_del)
  from processEvents_async_ok [OF this] ok show ?thesis
    by (cases "obj_get (retry_timers s) i") (auto simp: RetryTimer simp del: processEvents.simps)
next
  case (PollTimer i)
  assume "async_ok s"
  then show ?thesis by (auto simp: PollTimer intro!: loadEvents_ok) (auto simp: async_ok_def)
next
  case (WsMessage i msg)
  assume "async_ok s"
  then show ?thesis
    using processEvents_async_ok [of s env]
    by (auto simp: WsMessage ws_message_def simp del: processEvents.simps split: option.split)
next
  case (WsOpen i)
  assume "async_ok s"
  then show ?thesis by (auto simp: WsOpen ws_opened_def async_ok_def split: option.split)
next
  case (WsClose i)
  assume "async_ok s"
  then show ?thesis by (auto simp: WsClose ws_closed_def async_ok_def less_Suc_eq)
next
  case (WsError i)
  assume "async_ok s"
  then show ?thesis by (auto simp: WsError ws_failed_def async_ok_def split: option.split)
qed (simp_all add: init_ok waitFor_ok finish_fetch_ok finish_poll_ok ws_timeout_ok)

lemma blank_ok: "async_ok (blank\<lparr>stored_id := i\<rparr>)"
  by (simp add: blank_def async_ok_def waiting_inv_def retries_inv_def)

lemma reach_ok: "async_reach env s \<Longrightarrow> async_ok s"
  by (induction rule: async_reach.induct) (simp_all add: async_step_ok blank_ok del: async_step.simps)

section \<open>Promises that nobody will settle\<close>

text \<open>A waiting promise without a listener or a fetch: no further step settles it.\<close>

definition abandoned_inv :: "nat \<Rightarrow> (string, nat) obj \<Rightarrow> outcome list \<Rightarrow> (nat, pending_fetch) obj \<Rightarrow> bool" where
  "abandoned_inv p ls ps fs \<longleftrightarrow>
     p < length ps \<and> ps ! p = WAITING \<and> p \<notin> snd ` set ls \<and> (\<forall>f \<in> snd ` set fs. pf_promise f \<noteq> p)"

abbreviation abandoned :: "nat \<Rightarrow> async_state \<Rightarrow> bool" where
  "abandoned p s \<equiv> abandoned_inv p (listenersByJobId s) (promises s) (fetches s)"

lemma abandoned_settle: "abandoned p s \<Longrightarrow> q \<noteq> p \<Longrightarrow> abandoned p (settle q out s)"
  by (simp add: settle_eq abandoned_inv_def)

lemma abandoned_remove: "abandoned p s \<Longrightarrow> abandoned p (removeListener j s)"
  by (auto simp: removeListener_eq abandoned_inv_def set_obj_del)

lemma run_listener_abandoned: "abandoned p s \<Longrightarrow> q \<noteq> p \<Longrightarrow> abandoned p (run_listener env j q ev s)"
  using abandoned_remove [OF abandoned_settle, of p s q] abandoned_remove [of p s]
  by (cases "parseErrorJson (env_browser env) (entries_of ev)")
     (simp_all add: run_listener_def Let_def abandoned_inv_def)

lemma process_event_abandoned:
  assumes "abandoned p s"
  shows "abandoned p (process_event env ev s)"
proof (cases "obj_get (listenersByJobId s) (job_of ev)")
  case None
  then show ?thesis
    using assms by (simp add: process_event_def Let_def setLastId_def retry_event_def)
next
  case (Some q)
  then have "q \<in> snd ` set (listenersByJobId s)" by (force dest: map_of_SomeD)
  then have "q \<noteq> p" using assms by (auto simp: abandoned_inv_def)
  with Some run_listener_abandoned [OF assms] show ?thesis
    by (simp add: process_event_def Let_def setLastId_def)
qed

lemma processEvents_abandoned: "abandoned p s \<Longrightarrow> abandoned p (processEvents env evs s)"
  by (induction evs arbitrary: s) (simp_all add: process_event_abandoned)

lemma polling_abandoned:
  "abandoned p s \<Longrightarrow> abandoned p (schedule_poll s)"
  "abandoned p s \<Longrightarrow> abandoned p (loadEventsFromApi s)"
  "abandoned p s \<Longrightarrow> abandoned p (wsConnect s)"
  by (auto simp: schedule_poll_def loadEventsFromApi_def wsConnect_def Let_def)

lemma finish_fetch_abandoned:
  assumes "abandoned p s"
  shows "abandoned p (finish_fetch env i reply s)"
proof (cases "obj_get (fetches s) i")
  case None
  then show ?thesis using assms by (simp add: finish_fetch_def)
next
  case (Some f)
  let ?t = "s\<lparr>fetches := obj_del i (fetches s)\<rparr>"
  have t: "abandoned p ?t" using assms by (auto simp: abandoned_inv_def set_obj_del)
  have "f \<in> snd ` set (fetches s)" using Some by (force dest: map_of_SomeD)
  then have "pf_promise f \<noteq> p" using assms by (auto simp: abandoned_inv_def)
  then have "abandoned p (removeListener (pf_job f) (settle (pf_promise f) out ?t))" for out
    by (intro abandoned_remove abandoned_settle t)
  with t Some show ?thesis by (simp add: finish_fetch_def Let_def split: option.split)
qed

lemma finish_poll_abandoned: "abandoned p s \<Longrightarrow> abandoned p (finish_poll env i answer s)"
proof -
  assume "abandoned p s"
  then have t: "abandoned p (s\<lparr>poll_requests := obj_del i (poll_requests s)\<rparr>)" by simp
  then have "abandoned p (processEvents env evs (s\<lparr>poll_requests := obj_del i (poll_requests s)\<rparr>))" for evs
    by (rule processEvents_abandoned)
  then show ?thesis
    using \<open>abandoned p s\<close> polling_abandoned(1) [OF t] polling_abandoned(1)
    by (simp add: finish_poll_def Let_def split: option.split jsval.split)
qed

lemma waitFor_abandoned:
  assumes "abandoned p s"
  shows "abandoned p (waitForAsyncData r s)"
proof -
  have "p \<notin> snd ` set (obj_set j (length (promises s)) (listenersByJobId s))" for j
    using assms by (auto simp: abandoned_inv_def dest!: in_obj_set)
  then show ?thesis
    using assms by (simp add: waitForAsyncData_def addListener_def abandoned_inv_def nth_append)
qed

lemma init_abandoned: "abandoned p s \<Longrightarrow> abandoned p (init_events env config s)"
  by (simp add: init_events_def Let_def loadEventsFromApi_def schedule_poll_def wsConnect_def abandoned_inv_def)

lemma async_step_abandoned: "abandoned p s \<Longrightarrow> abandoned p (async_step env l s)"
proof (cases l)
  case (RetryTimer i)
  assume "abandoned p s"
  then show ?thesis
    using processEvents_abandoned [of p "s\<lparr>retry_timers := obj_del i (retry_timers s)\<rparr>" env]
    by (cases "obj_get (retry_timers s) i") (auto simp: RetryTimer simp del: processEvents.simps)
next
  case (WsMessage i msg)
  assume "abandoned p s"
  then show ?thesis
    using processEvents_abandoned [of p s env]
    by (simp add: WsMessage ws_message_def del: processEvents.simps split: option.split)
qed (simp_all add: init_abandoned waitFor_abandoned finish_fetch_abandoned finish_poll_abandoned polling_abandoned
      ws_opened_def ws_closed_def ws_failed_def ws_timeout_def Let_def split: option.split)

text \<open>A run of labels.\<close>

definition async_run :: "async_env \<Rightarrow> async_label list \<Rightarrow> async_state \<Rightarrow> async_state" where
  "async_run env ls s = foldl (\<lambda>s l. async_step env l s) s ls"

lemma async_run_simps [simp]:
  "async_run env [] s = s"
  "async_run env (l # ls) s = async_run env ls (async_step env l s)"
  by (simp_all add: async_run_def)

lemma async_run_abandoned: "abandoned p s \<Longrightarrow> abandoned p (async_run env ls s)"
  by (induction ls arbitrary: s) (simp_all add: async_step_abandoned del: async_step.simps)

lemma async_run_reach: "async_reach env s \<Longrightarrow> async_reach env (async_run env ls s)"
  by (induction ls arbitrary: s) (simp_all add: async_reach.stepped del: async_step.simps)

end
