(* ===== verification/AsyncLive.thy ===== *)
theory AsyncLive
  imports AsyncRun
begin

text \<open>
  Infinite runs of the asynchronous events. The interface \<open>labelled_run\<close> has the two arguments that
  every step of the liveness proof is an instance of: what all steps keep holds from then on, and what all steps
  but one kind keep holds until a step of that kind. On the polling transport a
  job somebody waits for is settled: a poll is always pending, an answer that reports the job starts the fetch of
  its data, and the fetch settles the promise.
\<close>

section \<open>Infinite runs\<close>

locale labelled_run =
  fixes step :: "'l \<Rightarrow> 's \<Rightarrow> 's"
    and states :: "nat \<Rightarrow> 's"
    and label_at :: "nat \<Rightarrow> 'l"
  assumes next_state: "states (Suc i) = step (label_at i) (states i)"
begin

lemma kept:
  assumes "P (states i)" and "i \<le> k" and "\<And>m. P (states m) \<Longrightarrow> P (step (label_at m) (states m))"
  shows "P (states k)"
  using assms(2)
proof (induction k rule: dec_induct)
  case base
  show ?case by (rule assms(1))
next
  case (step k)
  then show ?case using assms(3) by (simp add: next_state)
qed

lemma until:
  assumes "P (states i)" and "i \<le> k" and "Q (label_at k)"
    and keep: "\<And>m. P (states m) \<Longrightarrow> \<not> Q (label_at m) \<Longrightarrow> P (step (label_at m) (states m))"
  shows "\<exists>m\<ge>i. P (states m) \<and> Q (label_at m)"
proof -
  have "P (states k) \<or> (\<exists>m\<ge>i. P (states m) \<and> Q (label_at m))"
    using assms(2)
  proof (induction k rule: dec_induct)
    case base
    then show ?case using assms(1) by simp
  next
    case (step k)
    then show ?case using keep [of k] by (auto simp: next_state)
  qed
  with assms(2,3) show ?thesis by blast
qed

end

primrec async_states :: "async_env \<Rightarrow> (nat \<Rightarrow> async_label) \<Rightarrow> async_state \<Rightarrow> nat \<Rightarrow> async_state" where
  "async_states env lab s 0 = s"
| "async_states env lab s (Suc i) = async_step env (lab i) (async_states env lab s i)"

interpretation runs: labelled_run "async_step env" "async_states env lab s" lab for env lab s
  by unfold_locales simp

lemma async_states_ok: "async_ok s \<Longrightarrow> async_ok (async_states env lab s k)"
  by (rule runs.kept [where i = 0]) (simp_all add: async_step_ok del: async_step.simps)

section \<open>What persists\<close>

text \<open>A settled promise stays settled.\<close>

definition settled_in :: "nat \<Rightarrow> outcome list \<Rightarrow> bool" where
  "settled_in p ps \<longleftrightarrow> p < length ps \<and> ps ! p \<noteq> WAITING"

abbreviation settled :: "nat \<Rightarrow> async_state \<Rightarrow> bool" where
  "settled p s \<equiv> settled_in p (promises s)"

lemma settle_settled: "settled p s \<Longrightarrow> settled p (settle q out s)"
  by (cases "p = q") (simp_all add: settle_eq settled_in_def)

lemma settle_settles: "p < length (promises s) \<Longrightarrow> out \<noteq> WAITING \<Longrightarrow> settled p (settle p out s)"
  by (simp add: settle_eq settled_in_def)

lemma run_listener_settled: "settled p s \<Longrightarrow> settled p (run_listener env j q ev s)"
  using settle_settled [of p s q]
  by (cases "parseErrorJson (env_browser env) (entries_of ev)")
     (simp_all add: run_listener_def Let_def removeListener_eq)

lemma process_event_settled: "settled p s \<Longrightarrow> settled p (process_event env ev s)"
  using run_listener_settled [of p s]
  by (cases "obj_get (listenersByJobId s) (job_of ev)")
     (simp_all add: process_event_def Let_def setLastId_def retry_event_def)

lemma processEvents_settled: "settled p s \<Longrightarrow> settled p (processEvents env evs s)"
  by (induction evs arbitrary: s) (simp_all add: process_event_settled)

lemma polling_promises [simp]:
  "promises (schedule_poll s) = promises s"
  "promises (loadEventsFromApi s) = promises s"
  "promises (wsConnect s) = promises s"
  "promises (init_events env config s) = promises s"
  "promises (removeListener j s) = promises s"
  by (simp_all add: schedule_poll_def loadEventsFromApi_def wsConnect_def init_events_def removeListener_eq Let_def)

lemma async_step_settled: "settled p s \<Longrightarrow> settled p (async_step env l s)"
proof (cases l)
  case (RetryTimer i)
  assume "settled p s"
  then show ?thesis
    using processEvents_settled [of p "s\<lparr>retry_timers := obj_del i (retry_timers s)\<rparr>" env]
    by (cases "obj_get (retry_timers s) i") (auto simp: RetryTimer simp del: processEvents.simps)
next
  case (WsMessage i msg)
  assume "settled p s"
  then show ?thesis
    using processEvents_settled [of p s env]
    by (simp add: WsMessage ws_message_def del: processEvents.simps split: option.split)
next
  case (PollReply i answer)
  assume "settled p s"
  then show ?thesis
    using processEvents_settled [of p "s\<lparr>poll_requests := obj_del i (poll_requests s)\<rparr>" env]
    by (simp add: PollReply finish_poll_def Let_def split: option.split jsval.split)
next
  case (FetchReply i reply)
  assume "settled p s"
  then show ?thesis
    using settle_settled [of p "s\<lparr>fetches := obj_del i (fetches s)\<rparr>"]
    by (simp add: FetchReply finish_fetch_def Let_def split: option.split)
qed (simp_all add: waitForAsyncData_def addListener_def settled_in_def nth_append
      ws_opened_def ws_closed_def ws_failed_def ws_timeout_def Let_def split: option.split)

text \<open>A fetch stays in flight until its answer.\<close>

lemma run_listener_fetch: "obj_get (fetches s) i = Some f \<Longrightarrow> obj_get (fetches (run_listener env j q ev s)) i = Some f"
  by (cases "parseErrorJson (env_browser env) (entries_of ev)")
     (simp_all add: run_listener_def Let_def removeListener_eq settle_eq map_add_def)

lemma process_event_fetch: "obj_get (fetches s) i = Some f \<Longrightarrow> obj_get (fetches (process_event env ev s)) i = Some f"
  using run_listener_fetch [of s i f]
  by (cases "obj_get (listenersByJobId s) (job_of ev)")
     (simp_all add: process_event_def Let_def setLastId_def retry_event_def)

lemma processEvents_fetch: "obj_get (fetches s) i = Some f \<Longrightarrow> obj_get (fetches (processEvents env evs s)) i = Some f"
  by (induction evs arbitrary: s) (simp_all add: process_event_fetch)

lemma polling_fetches [simp]:
  "fetches (schedule_poll s) = fetches s"
  "fetches (loadEventsFromApi s) = fetches s"
  "fetches (wsConnect s) = fetches s"
  "fetches (init_events env config s) = fetches s"
  "fetches (removeListener j s) = fetches s"
  "fetches (settle p out s) = fetches s"
  by (simp_all add: schedule_poll_def loadEventsFromApi_def wsConnect_def init_events_def removeListener_eq
      settle_eq Let_def)

lemma async_step_fetch:
  assumes "obj_get (fetches s) i = Some f" and "\<And>reply. l \<noteq> FetchReply i reply"
  shows "obj_get (fetches (async_step env l s)) i = Some f"
proof (cases l)
  case (RetryTimer k)
  then show ?thesis
    using assms(1) processEvents_fetch [of "s\<lparr>retry_timers := obj_del k (retry_timers s)\<rparr>" i f env]
    by (cases "obj_get (retry_timers s) k") (auto simp: RetryTimer simp del: processEvents.simps)
next
  case (WsMessage k msg)
  then show ?thesis
    using assms(1) processEvents_fetch [of s i f env]
    by (simp add: ws_message_def del: processEvents.simps split: option.split)
next
  case (PollReply k answer)
  then show ?thesis
    using assms(1) processEvents_fetch [of "s\<lparr>poll_requests := obj_del k (poll_requests s)\<rparr>" i f env]
    by (simp add: finish_poll_def Let_def split: option.split jsval.split)
next
  case (FetchReply k reply)
  with assms(2) have "k \<noteq> i" by auto
  then show ?thesis
    using assms(1) by (simp add: FetchReply finish_fetch_def Let_def split: option.split)
qed (use assms(1) in \<open>simp_all add: waitForAsyncData_def addListener_def
      ws_opened_def ws_closed_def ws_failed_def ws_timeout_def Let_def split: option.split\<close>)

text \<open>So does a request, and a timer of the polling until it fires, unless the module is initialized again.\<close>

lemma processEvents_poll [simp]:
  "poll_requests (processEvents env evs s) = poll_requests s"
  "poll_timers (processEvents env evs s) = poll_timers s"
  "transport (processEvents env evs s) = transport s"
  using processEvents_polling [of s env evs] by (simp_all add: same_polling_def)

lemma poll_fields [simp]:
  "poll_requests (schedule_poll s) = poll_requests s"
  "set (poll_timers s) \<subseteq> set (poll_timers (schedule_poll s))"
  "set (poll_timers s) \<subseteq> set (poll_timers (loadEventsFromApi s))"
  "obj_get (poll_requests s) i = Some q \<Longrightarrow> obj_get (poll_requests (loadEventsFromApi s)) i = Some q"
  "poll_requests (wsConnect s) = poll_requests s"
  "poll_timers (wsConnect s) = poll_timers s"
  "transport (schedule_poll s) = transport s"
  "transport (loadEventsFromApi s) = transport s"
  "transport (wsConnect s) = transport s"
  by (auto simp: schedule_poll_def loadEventsFromApi_def wsConnect_def Let_def map_add_def)

lemma async_step_request:
  assumes "obj_get (poll_requests s) i = Some q" and "\<And>answer. l \<noteq> PollReply i answer" and "\<And>config. l \<noteq> Init config"
  shows "obj_get (poll_requests (async_step env l s)) i = Some q"
proof (cases l)
  case (RetryTimer k)
  then show ?thesis
    using assms(1)
    by (cases "obj_get (retry_timers s) k") (auto simp: RetryTimer simp del: processEvents.simps)
next
  case (PollReply k answer)
  with assms(2) have "k \<noteq> i" by auto
  then show ?thesis
    using assms(1) PollReply by (simp add: finish_poll_def Let_def split: option.split jsval.split)
next
  case (WsMessage k msg)
  then show ?thesis using assms(1) by (simp add: ws_message_def del: processEvents.simps split: option.split)
qed (use assms in \<open>simp_all add: waitForAsyncData_def addListener_def finish_fetch_def removeListener_eq settle_eq
      ws_opened_def ws_closed_def ws_failed_def ws_timeout_def Let_def split: option.split\<close>)

lemma async_step_timer:
  assumes "i \<in> set (poll_timers s)" and "l \<noteq> PollTimer i" and "\<And>config. l \<noteq> Init config"
  shows "i \<in> set (poll_timers (async_step env l s))"
proof (cases l)
  case (RetryTimer k)
  then show ?thesis
    using assms(1)
    by (cases "obj_get (retry_timers s) k") (auto simp: RetryTimer simp del: processEvents.simps)
next
  case (PollReply k answer)
  have "i \<in> set (poll_timers (schedule_poll t))" if "i \<in> set (poll_timers t)" for t
    using that poll_fields(2) by blast
  then show ?thesis
    using assms(1) PollReply by (simp add: finish_poll_def Let_def split: option.split jsval.split)
next
  case (PollTimer k)
  have "i \<in> set (poll_timers (loadEventsFromApi t))" if "i \<in> set (poll_timers t)" for t
    using that poll_fields(3) by blast
  then show ?thesis using assms PollTimer by simp
next
  case (WsTimer k)
  have "i \<in> set (poll_timers (loadEventsFromApi t))" if "i \<in> set (poll_timers t)" for t
    using that poll_fields(3) by blast
  then show ?thesis using assms WsTimer by (simp add: ws_timeout_def Let_def)
next
  case (WsMessage k msg)
  then show ?thesis using assms(1) by (simp add: ws_message_def del: processEvents.simps split: option.split)
qed (use assms in \<open>simp_all add: waitForAsyncData_def addListener_def finish_fetch_def removeListener_eq settle_eq
      ws_opened_def ws_closed_def ws_failed_def Let_def split: option.split\<close>)

lemma async_step_transport:
  "\<forall>config. l \<noteq> Init config \<Longrightarrow> transport (async_step env l s) = transport s"
  by (cases l) (simp_all add: waitForAsyncData_def addListener_def finish_fetch_def removeListener_eq settle_eq
      finish_poll_def ws_message_def ws_opened_def ws_closed_def ws_failed_def ws_timeout_def Let_def
      del: processEvents.simps split: option.split jsval.split)

section \<open>A job that somebody waits for\<close>

text \<open>An event about the job settles it: it says that the job is done, or it is an error that can be parsed.\<close>

definition final_event :: "async_env \<Rightarrow> string \<Rightarrow> jsval \<Rightarrow> bool" where
  "final_event env j ev \<longleftrightarrow>
     \<not> nullish ev \<and>
     (job_of ev = j \<longrightarrow>
        chain ev ''status'' = JStr ''done'' \<or>
        chain ev ''status'' = JStr ''error'' \<and> (\<exists>err. parseErrorJson (env_browser env) (entries_of ev) = Inr err))"

text \<open>The events that a label brings.\<close>

definition delivered :: "async_env \<Rightarrow> async_label \<Rightarrow> jsval list" where
  "delivered env l =
     (case l of
        PollReply i (Some (JArr evs)) \<Rightarrow> evs
      | WsMessage i msg \<Rightarrow> (case parse_json (env_browser env) msg of None \<Rightarrow> [] | Some ev \<Rightarrow> [ev])
      | _ \<Rightarrow> [])"

text \<open>What a label must not do to the job: initialize the module again, wait for the job a second time, bring an event that
  is not final for it, or answer the fetch of its data in a way that is never reported.\<close>

definition good_label :: "async_env \<Rightarrow> string \<Rightarrow> async_label \<Rightarrow> bool" where
  "good_label env j l \<longleftrightarrow>
     list_all (final_event env j) (delivered env l) \<and>
     (case l of
        Init config \<Rightarrow> False
      | WaitFor r \<Rightarrow> nullish r \<or> job_of r \<noteq> j
      | FetchReply i reply \<Rightarrow> fetchCachedData env reply \<noteq> None
      | _ \<Rightarrow> True)"

text \<open>The listener of the job is there or has settled its promise, and what is in flight for the job concerns that promise.\<close>

definition job_inv :: "async_env \<Rightarrow> string \<Rightarrow> nat \<Rightarrow> async_state \<Rightarrow> bool" where
  "job_inv env j p s \<longleftrightarrow>
     (obj_get (listenersByJobId s) j = Some p \<or> obj_get (listenersByJobId s) j = None \<and> settled p s) \<and>
     (\<forall>f \<in> snd ` set (fetches s). pf_job f = j \<longrightarrow> pf_promise f = p) \<and>
     p < length (promises s) \<and>
     (\<forall>i d ev. (i, d, ev) \<in> set (retry_timers s) \<longrightarrow> final_event env j ev)"

definition fetching :: "nat \<Rightarrow> async_state \<Rightarrow> bool" where
  "fetching p s \<longleftrightarrow> (\<exists>i f. obj_get (fetches s) i = Some f \<and> pf_promise f = p)"

lemma processEvents_fetching: "fetching p s \<Longrightarrow> fetching p (processEvents env evs s)"
  using processEvents_fetch unfolding fetching_def by blast

lemma schedule_fetching [simp]: "fetching p (schedule_poll s) = fetching p s"
  by (simp add: fetching_def)

text \<open>An event about another job leaves the listener alone.\<close>

lemma run_listener_other:
  "k \<noteq> j \<Longrightarrow> obj_get (listenersByJobId (run_listener env k q ev s)) j = obj_get (listenersByJobId s) j"
  by (cases "parseErrorJson (env_browser env) (entries_of ev)")
     (simp_all add: run_listener_def Let_def removeListener_eq settle_eq)

lemma process_event_other:
  "job_of ev \<noteq> j \<Longrightarrow> obj_get (listenersByJobId (process_event env ev s)) j = obj_get (listenersByJobId s) j"
  using run_listener_other [of "job_of ev" j]
  by (cases "obj_get (listenersByJobId s) (job_of ev)")
     (simp_all add: process_event_def Let_def setLastId_def retry_event_def)

lemma fresh_fetch: "ids_ok s \<Longrightarrow> obj_get (fetches s) (next_id s) = None"
  by (auto simp: map_of_eq_None_iff)

text \<open>A final event about the job starts the fetch of its data or rejects the promise.\<close>

lemma process_event_job:
  assumes "final_event env j ev" and "job_of ev = j" and "obj_get (listenersByJobId s) j = Some p"
    and "ids_ok s" and "p < length (promises s)"
  shows "obj_get (listenersByJobId (process_event env ev s)) j = Some p \<and> fetching p (process_event env ev s) \<or>
         obj_get (listenersByJobId (process_event env ev s)) j = None \<and> settled p (process_event env ev s)"
proof (cases "chain ev ''status'' = JStr ''done''")
  case True
  then have "obj_get (fetches (process_event env ev s)) (next_id s) =
      Some \<lparr>pf_promise = p, pf_job = j, pf_endpoint = key_of (chain ev ''result_url'')\<rparr>"
    using assms fresh_fetch [OF assms(4)]
    by (simp add: process_event_def Let_def setLastId_def run_listener_def map_add_def)
  moreover have "obj_get (listenersByJobId (process_event env ev s)) j = Some p"
    using True assms by (simp add: process_event_def Let_def setLastId_def run_listener_def)
  ultimately show ?thesis unfolding fetching_def by (metis pending_fetch.select_convs(1))
next
  case False
  then obtain err where "chain ev ''status'' = JStr ''error''"
      "parseErrorJson (env_browser env) (entries_of ev) = Inr err"
    using assms(1,2) by (auto simp: final_event_def)
  then show ?thesis
    using assms settle_settles [OF assms(5)]
    by (simp add: process_event_def Let_def setLastId_def run_listener_def removeListener_eq settle_eq settled_in_def)
qed

lemma settle_length [simp]: "length (promises (settle p out s)) = length (promises s)"
  by (simp add: settle_eq)

lemma run_listener_length: "length (promises (run_listener env j q ev s)) = length (promises s)"
  by (cases "parseErrorJson (env_browser env) (entries_of ev)")
     (simp_all add: run_listener_def Let_def)

lemma process_event_length [simp]: "length (promises (process_event env ev s)) = length (promises s)"
  using run_listener_length [of env "job_of ev"]
  by (cases "obj_get (listenersByJobId s) (job_of ev)")
     (simp_all add: process_event_def Let_def setLastId_def retry_event_def)

lemma process_event_fetches:
  "f \<in> snd ` set (fetches (process_event env ev s)) \<Longrightarrow>
     f \<in> snd ` set (fetches s) \<or>
     pf_job f = job_of ev \<and> obj_get (listenersByJobId s) (job_of ev) = Some (pf_promise f)"
  by (cases "obj_get (listenersByJobId s) (job_of ev)";
      cases "parseErrorJson (env_browser env) (entries_of ev)")
     (auto simp: process_event_def Let_def setLastId_def retry_event_def run_listener_def split: if_splits)

lemma process_event_timers:
  "(i, d, e) \<in> set (retry_timers (process_event env ev s)) \<Longrightarrow> (i, d, e) \<in> set (retry_timers s) \<or> e = ev"
  by (cases "obj_get (listenersByJobId s) (job_of ev)")
     (auto simp: process_event_def Let_def setLastId_def retry_event_def split: if_splits)

lemma process_event_inv:
  assumes inv: "job_inv env j p s" and ev: "final_event env j ev" and ids: "ids_ok s"
  shows "job_inv env j p (process_event env ev s)"
proof -
  let ?s = "process_event env ev s"
  have "obj_get (listenersByJobId ?s) j = Some p \<or> obj_get (listenersByJobId ?s) j = None \<and> settled p ?s"
  proof (cases "job_of ev = j")
    case True
    show ?thesis
    proof (cases "obj_get (listenersByJobId s) j")
      case None
      then have "obj_get (listenersByJobId ?s) j = None"
        using True by (simp add: process_event_def Let_def setLastId_def retry_event_def)
      moreover have "settled p s" using inv None by (simp add: job_inv_def)
      ultimately show ?thesis by (simp add: process_event_settled)
    next
      case (Some q)
      then have "q = p" using inv by (auto simp: job_inv_def)
      with Some have l: "obj_get (listenersByJobId s) j = Some p" by simp
      have "p < length (promises s)" using inv by (simp add: job_inv_def)
      from process_event_job [OF ev True l ids this] show ?thesis by blast
    qed
  next
    case False
    then show ?thesis
      using inv process_event_settled [of p s] by (auto simp: job_inv_def process_event_other)
  qed
  moreover have "pf_promise f = p" if "f \<in> snd ` set (fetches ?s)" "pf_job f = j" for f
    using process_event_fetches [OF that(1)] that(2) inv by (auto simp: job_inv_def)
  moreover have "final_event env j e" if "(i, d, e) \<in> set (retry_timers ?s)" for i d e
    using process_event_timers [OF that] inv ev unfolding job_inv_def by blast
  moreover have "p < length (promises ?s)" using inv by (simp add: job_inv_def)
  ultimately show ?thesis unfolding job_inv_def by blast
qed

lemma processEvents_inv:
  "job_inv env j p s \<Longrightarrow> list_all (final_event env j) evs \<Longrightarrow> ids_ok s \<Longrightarrow> job_inv env j p (processEvents env evs s)"
proof (induction evs arbitrary: s)
  case Nil
  then show ?case by simp
next
  case (Cons ev evs)
  then have "job_inv env j p (process_event env ev s)"
    by (intro process_event_inv) simp_all
  then show ?case
    using Cons.IH [of "process_event env ev s"] Cons.prems process_event_ids [of s env ev]
    by (simp add: final_event_def)
qed

text \<open>Events of which one is about the job bring it to a fetch or settle it.\<close>

lemma processEvents_job:
  assumes "job_inv env j p s" and "obj_get (listenersByJobId s) j = Some p" and "ids_ok s"
    and "list_all (final_event env j) evs" and "\<exists>ev \<in> set evs. job_of ev = j"
  shows "fetching p (processEvents env evs s) \<or> settled p (processEvents env evs s)"
  using assms
proof (induction evs arbitrary: s)
  case Nil
  then show ?case by simp
next
  case (Cons ev evs)
  let ?s = "process_event env ev s"
  have ev: "final_event env j ev" "\<not> nullish ev" using Cons.prems(4) by (simp_all add: final_event_def)
  show ?case
  proof (cases "job_of ev = j")
    case True
    have "p < length (promises s)" using Cons.prems(1) by (simp add: job_inv_def)
    from process_event_job [OF ev(1) True Cons.prems(2,3) this]
    have "fetching p ?s \<or> settled p ?s" by blast
    then show ?thesis
      using ev processEvents_fetching [of p ?s env evs] processEvents_settled [of p ?s env evs] by auto
  next
    case False
    have "obj_get (listenersByJobId ?s) j = Some p" using False Cons.prems(2) by (simp add: process_event_other)
    then show ?thesis
      using Cons.IH [of ?s] process_event_inv [OF Cons.prems(1) ev(1) Cons.prems(3)]
        process_event_ids [OF Cons.prems(3), of env ev] Cons.prems(4,5) False ev(2) by simp
  qed
qed

text \<open>Every good label keeps the invariant of the job.\<close>

lemma job_inv_frame:
  "job_inv env j p s \<Longrightarrow> listenersByJobId t = listenersByJobId s \<Longrightarrow> promises t = promises s \<Longrightarrow>
   set (fetches t) \<subseteq> set (fetches s) \<Longrightarrow> set (retry_timers t) \<subseteq> set (retry_timers s) \<Longrightarrow> job_inv env j p t"
  unfolding job_inv_def by (metis image_mono subsetD)

lemma job_inv_listener:
  assumes "job_inv env j p s" and "fetches t = fetches s" and "retry_timers t = retry_timers s"
    and "length (promises t) = length (promises s)"
    and "obj_get (listenersByJobId t) j = Some p \<or> obj_get (listenersByJobId t) j = None \<and> settled p t"
  shows "job_inv env j p t"
  using assms(1,5) unfolding job_inv_def assms(2-4) by blast

lemma polling_listeners [simp]:
  "listenersByJobId (schedule_poll s) = listenersByJobId s"
  "listenersByJobId (loadEventsFromApi s) = listenersByJobId s"
  "listenersByJobId (wsConnect s) = listenersByJobId s"
  "retry_timers (schedule_poll s) = retry_timers s"
  "retry_timers (loadEventsFromApi s) = retry_timers s"
  "retry_timers (wsConnect s) = retry_timers s"
  by (simp_all add: schedule_poll_def loadEventsFromApi_def wsConnect_def Let_def)

lemma finish_fetch_inv:
  assumes inv: "job_inv env j p s" and reply: "fetchCachedData env reply \<noteq> None"
  shows "job_inv env j p (finish_fetch env i reply s)"
proof (cases "obj_get (fetches s) i")
  case None
  then show ?thesis using inv by (simp add: finish_fetch_def)
next
  case (Some f)
  obtain out where out: "fetchCachedData env reply = Some out" using reply by auto
  have final: "out \<noteq> WAITING"
    using out by (auto simp: fetchCachedData_def cached_error_def split: cached_reply.split_asm jsval.split_asm
        option.split_asm sum.split_asm)
  let ?s = "s\<lparr>fetches := obj_del i (fetches s)\<rparr>"
  let ?t = "removeListener (pf_job f) (settle (pf_promise f) out ?s)"
  have eq: "finish_fetch env i reply s = ?t" using Some out by (simp add: finish_fetch_def)
  have s: "job_inv env j p ?s" using inv by (rule job_inv_frame) (auto simp: set_obj_del)
  have p: "p < length (promises ?s)" using inv by (simp add: job_inv_def)
  have f: "pf_job f = j \<Longrightarrow> pf_promise f = p"
    using inv map_of_SomeD [OF Some] unfolding job_inv_def by (metis image_eqI snd_conv)
  have "obj_get (listenersByJobId ?t) j = Some p \<or> obj_get (listenersByJobId ?t) j = None \<and> settled p ?t"
  proof (cases "pf_job f = j")
    case True
    then show ?thesis using settle_settles [OF p final] f by (simp add: removeListener_eq)
  next
    case False
    then show ?thesis
      using inv settle_settled [of p ?s "pf_promise f" out]
      by (auto simp: removeListener_eq settle_eq job_inv_def split: if_splits)
  qed
  then show ?thesis
    unfolding eq by (intro job_inv_listener [OF s]) (simp_all add: removeListener_eq settle_eq)
qed

lemma async_step_inv:
  assumes inv: "job_inv env j p s" and l: "good_label env j l" and ok: "async_ok s"
  shows "job_inv env j p (async_step env l s)"
proof -
  have ids: "ids_ok s" using ok by (simp add: async_ok_def)
  show ?thesis
  proof (cases l)
    case (Init config)
    then show ?thesis using l by (simp add: good_label_def)
  next
    case (WaitFor r)
    then show ?thesis
      using inv l by (auto simp: good_label_def waitForAsyncData_def addListener_def job_inv_def settled_in_def nth_append)
  next
    case (RetryTimer i)
    show ?thesis
    proof (cases "obj_get (retry_timers s) i")
      case None
      then show ?thesis using inv by (simp add: RetryTimer)
    next
      case (Some de)
      obtain d ev where de: "de = (d, ev)" by (cases de)
      have "final_event env j ev"
        using inv map_of_SomeD [OF Some [unfolded de]] unfolding job_inv_def by blast
      moreover have "job_inv env j p (s\<lparr>retry_timers := obj_del i (retry_timers s)\<rparr>)"
        using inv by (rule job_inv_frame) (auto simp: set_obj_del)
      ultimately show ?thesis
        using processEvents_inv [of env j p _ "[ev]"] ids Some de by (simp add: RetryTimer del: processEvents.simps)
    qed
  next
    case (FetchReply i reply)
    then show ?thesis using inv l finish_fetch_inv by (auto simp: good_label_def)
  next
    case (PollReply i answer)
    have evs: "list_all (final_event env j) evs" if "answer = Some (JArr evs)" for evs
      using l that PollReply by (simp add: good_label_def delivered_def)
    have s: "job_inv env j p (s\<lparr>poll_requests := obj_del i (poll_requests s)\<rparr>)"
      using inv by (rule job_inv_frame) auto
    have "job_inv env j p (processEvents env evs (s\<lparr>poll_requests := obj_del i (poll_requests s)\<rparr>))"
      if "answer = Some (JArr evs)" for evs
      using s evs [OF that] by (rule processEvents_inv) (use ids in \<open>auto simp: set_obj_del\<close>)
    then have "job_inv env j p (case answer of
        Some (JArr evs) \<Rightarrow> processEvents env evs (s\<lparr>poll_requests := obj_del i (poll_requests s)\<rparr>)
      | _ \<Rightarrow> s\<lparr>poll_requests := obj_del i (poll_requests s)\<rparr>)"
      using s by (auto split: option.split jsval.split)
    then have "job_inv env j p (schedule_poll (case answer of
        Some (JArr evs) \<Rightarrow> processEvents env evs (s\<lparr>poll_requests := obj_del i (poll_requests s)\<rparr>)
      | _ \<Rightarrow> s\<lparr>poll_requests := obj_del i (poll_requests s)\<rparr>))"
      by (rule job_inv_frame) auto
    then show ?thesis using inv PollReply by (simp add: finish_poll_def Let_def)
  next
    case (PollTimer i)
    have "job_inv env j p (loadEventsFromApi (s\<lparr>poll_timers := filter (\<lambda>x. x \<noteq> i) (poll_timers s)\<rparr>))"
      using inv by (rule job_inv_frame) auto
    then show ?thesis using inv PollTimer by simp
  next
    case (WsMessage i msg)
    then show ?thesis
      using inv l processEvents_inv [OF inv _ ids]
      by (auto simp: ws_message_def good_label_def delivered_def simp del: processEvents.simps split: option.splits)
  next
    case (WsTimer i)
    have "job_inv env j p (ws_timeout i s)"
      using inv by (rule job_inv_frame) (auto simp: ws_timeout_def Let_def)
    then show ?thesis using WsTimer by simp
  qed (rule job_inv_frame [OF inv]; simp add: ws_opened_def ws_closed_def ws_failed_def split: option.split)+
qed

section \<open>The job is settled\<close>

text \<open>What is pending happens: timers of the polling fire, requests and fetches are answered.\<close>

definition fair :: "async_env \<Rightarrow> (nat \<Rightarrow> async_label) \<Rightarrow> async_state \<Rightarrow> bool" where
  "fair env lab s \<longleftrightarrow>
     (\<forall>k. (\<forall>i \<in> set (poll_timers (async_states env lab s k)). \<exists>m\<ge>k. lab m = PollTimer i) \<and>
          (\<forall>i \<in> fst ` set (poll_requests (async_states env lab s k)). \<exists>m\<ge>k. \<exists>answer. lab m = PollReply i answer) \<and>
          (\<forall>i \<in> fst ` set (fetches (async_states env lab s k)). \<exists>m\<ge>k. \<exists>reply. lab m = FetchReply i reply))"

text \<open>From step \<open>n\<close> on, an answer that arrives while the job has a listener and its data are not being fetched has an
  event about the job.\<close>

definition reported_from :: "async_env \<Rightarrow> string \<Rightarrow> nat \<Rightarrow> (nat \<Rightarrow> async_label) \<Rightarrow> async_state \<Rightarrow> nat \<Rightarrow> bool" where
  "reported_from env j p lab s n \<longleftrightarrow>
     (\<forall>k i answer. n \<le> k \<longrightarrow> lab k = PollReply i answer \<longrightarrow>
        obj_get (listenersByJobId (async_states env lab s k)) j = Some p \<longrightarrow>
        \<not> fetching p (async_states env lab s k) \<longrightarrow>
        (\<exists>evs. answer = Some (JArr evs) \<and> (\<exists>ev \<in> set evs. job_of ev = j)))"

text \<open>A run of good labels.\<close>

definition good_run :: "async_env \<Rightarrow> string \<Rightarrow> nat \<Rightarrow> (nat \<Rightarrow> async_label) \<Rightarrow> async_state \<Rightarrow> bool" where
  "good_run env j p lab s \<longleftrightarrow> async_ok s \<and> job_inv env j p s \<and> fair env lab s \<and> (\<forall>k. good_label env j (lab k))"

lemma good_run_state:
  assumes "good_run env j p lab s"
  shows "async_ok (async_states env lab s k) \<and> job_inv env j p (async_states env lab s k)"
proof -
  have "async_ok (async_states env lab s k) \<and> job_inv env j p (async_states env lab s k)"
  proof (rule runs.kept [where i = 0 and P = "\<lambda>s. async_ok s \<and> job_inv env j p s"])
    show "async_ok (async_states env lab s 0) \<and> job_inv env j p (async_states env lab s 0)"
      using assms by (simp add: good_run_def)
    fix m
    assume "async_ok (async_states env lab s m) \<and> job_inv env j p (async_states env lab s m)"
    then show "async_ok (async_step env (lab m) (async_states env lab s m)) \<and>
        job_inv env j p (async_step env (lab m) (async_states env lab s m))"
      using assms by (simp add: good_run_def async_step_ok async_step_inv)
  qed simp
  then show ?thesis .
qed

lemma good_run_no_init:
  assumes "good_run env j p lab s"
  shows "lab k \<noteq> Init config"
proof
  assume "lab k = Init config"
  moreover have "good_label env j (lab k)" using assms by (simp add: good_run_def)
  ultimately show False by (simp add: good_label_def)
qed

lemma good_run_fair:
  assumes "good_run env j p lab s"
  shows "i \<in> set (poll_timers (async_states env lab s k)) \<Longrightarrow> \<exists>m\<ge>k. lab m = PollTimer i"
    and "i \<in> fst ` set (poll_requests (async_states env lab s k)) \<Longrightarrow> \<exists>m\<ge>k. \<exists>answer. lab m = PollReply i answer"
    and "i \<in> fst ` set (fetches (async_states env lab s k)) \<Longrightarrow> \<exists>m\<ge>k. \<exists>reply. lab m = FetchReply i reply"
  using assms unfolding good_run_def fair_def by blast+

text \<open>A fetch for the promise settles it.\<close>

lemma fetch_settles_job:
  assumes run: "good_run env j p lab s" and f: "fetching p (async_states env lab s k)"
  shows "\<exists>m\<ge>k. settled p (async_states env lab s m)"
proof -
  obtain i f where f: "obj_get (fetches (async_states env lab s k)) i = Some f" "pf_promise f = p"
    using f by (auto simp: fetching_def)
  then have "i \<in> fst ` set (fetches (async_states env lab s k))" by (force dest: map_of_SomeD)
  then obtain n reply where n: "k \<le> n" "lab n = FetchReply i reply"
    using good_run_fair(3) [OF run] by blast
  have "\<exists>m\<ge>k. obj_get (fetches (async_states env lab s m)) i = Some f \<and> (\<exists>reply. lab m = FetchReply i reply)"
    by (rule runs.until [where k = n]) (use f n async_step_fetch in auto)
  then obtain m reply where m: "k \<le> m" "obj_get (fetches (async_states env lab s m)) i = Some f"
      "lab m = FetchReply i reply" by auto
  let ?s = "async_states env lab s m"
  have "good_label env j (lab m)" using run by (simp add: good_run_def)
  then obtain out where out: "fetchCachedData env reply = Some out" using m(3) by (auto simp: good_label_def)
  then have "out \<noteq> WAITING"
    by (auto simp: fetchCachedData_def cached_error_def split: cached_reply.split_asm jsval.split_asm
        option.split_asm sum.split_asm)
  moreover have "p < length (promises ?s)" using good_run_state [OF run, of m] by (simp add: job_inv_def)
  ultimately have "settled p (async_step env (FetchReply i reply) ?s)"
    using m(2) out f(2) settle_settles [of p "?s\<lparr>fetches := obj_del i (fetches ?s)\<rparr>"]
    by (simp add: finish_fetch_def)
  then have "settled p (async_states env lab s (Suc m))" using m(3) by simp
  then show ?thesis using m(1) by (meson le_SucI)
qed

text \<open>A request brings the event, and a timer a request.\<close>

lemma request_settles_job:
  assumes run: "good_run env j p lab s" and rep: "reported_from env j p lab s n"
    and k: "n \<le> k" and r: "i \<in> fst ` set (poll_requests (async_states env lab s k))"
  shows "\<exists>m\<ge>k. settled p (async_states env lab s m)"
proof -
  obtain q where q: "obj_get (poll_requests (async_states env lab s k)) i = Some q"
    using r by (cases "obj_get (poll_requests (async_states env lab s k)) i") (auto simp: map_of_eq_None_iff)
  obtain m0 a0 where m0: "k \<le> m0" "lab m0 = PollReply i a0"
    using good_run_fair(2) [OF run r] by blast
  have "\<exists>m\<ge>k. obj_get (poll_requests (async_states env lab s m)) i = Some q \<and> (\<exists>answer. lab m = PollReply i answer)"
    by (rule runs.until [where k = m0]) (use q m0 async_step_request good_run_no_init [OF run] in auto)
  then obtain m answer where m: "k \<le> m" "obj_get (poll_requests (async_states env lab s m)) i = Some q"
      "lab m = PollReply i answer" by auto
  let ?s = "async_states env lab s m"
  let ?t = "?s\<lparr>poll_requests := obj_del i (poll_requests ?s)\<rparr>"
  have inv: "job_inv env j p ?s" and ok: "async_ok ?s" using good_run_state [OF run, of m] by simp_all
  consider "settled p ?s" | "fetching p ?s" | "obj_get (listenersByJobId ?s) j = Some p" "\<not> fetching p ?s"
    using inv by (auto simp: job_inv_def)
  then show ?thesis
  proof cases
    case 1
    then show ?thesis using m(1) by blast
  next
    case 2
    then show ?thesis using fetch_settles_job [OF run, of m] m(1) by (meson le_trans)
  next
    case 3
    then obtain evs where evs: "answer = Some (JArr evs)" "\<exists>ev \<in> set evs. job_of ev = j"
      using rep k m(1,3) unfolding reported_from_def by (meson le_trans)
    have "list_all (final_event env j) (delivered env (lab m))" using run by (simp add: good_run_def good_label_def)
    then have final: "list_all (final_event env j) evs" using m(3) evs(1) by (simp add: delivered_def)
    have t: "job_inv env j p ?t" using inv by (rule job_inv_frame) auto
    have "ids_ok ?t" using ok by (auto simp: async_ok_def set_obj_del)
    with t final evs(2) 3(1)
    have "fetching p (processEvents env evs ?t) \<or> settled p (processEvents env evs ?t)"
      by (intro processEvents_job) auto
    moreover have "async_states env lab s (Suc m) = schedule_poll (processEvents env evs ?t)"
      using m(2,3) evs(1) by (simp add: finish_poll_def)
    ultimately have "fetching p (async_states env lab s (Suc m)) \<or> settled p (async_states env lab s (Suc m))"
      by simp
    then show ?thesis using fetch_settles_job [OF run, of "Suc m"] m(1) by (meson Suc_leD le_SucI le_trans)
  qed
qed

lemma timer_settles_job:
  assumes run: "good_run env j p lab s" and rep: "reported_from env j p lab s n"
    and k: "n \<le> k" and t: "i \<in> set (poll_timers (async_states env lab s k))"
  shows "\<exists>m\<ge>k. settled p (async_states env lab s m)"
proof -
  obtain m0 where m0: "k \<le> m0" "lab m0 = PollTimer i" using good_run_fair(1) [OF run t] by blast
  have "\<exists>m\<ge>k. i \<in> set (poll_timers (async_states env lab s m)) \<and> lab m = PollTimer i"
    by (rule runs.until [where k = m0 and Q = "\<lambda>l. l = PollTimer i"])
       (use t m0 async_step_timer good_run_no_init [OF run] in auto)
  then obtain m where m: "k \<le> m" "i \<in> set (poll_timers (async_states env lab s m))" "lab m = PollTimer i" by auto
  let ?s = "async_states env lab s m"
  have inv: "job_inv env j p ?s" using good_run_state [OF run, of m] by simp
  show ?thesis
  proof (cases "obj_get (listenersByJobId ?s) j")
    case None
    then have "settled p ?s" using inv by (auto simp: job_inv_def)
    then show ?thesis using m(1) by blast
  next
    case (Some q)
    then have "listenersByJobId ?s \<noteq> []" by auto
    then have "next_id ?s \<in> fst ` set (poll_requests (async_states env lab s (Suc m)))"
      using m(2,3) by (simp add: loadEventsFromApi_def Let_def)
    then show ?thesis
      using request_settles_job [OF run rep, of "Suc m"] k m(1) by (meson Suc_leD le_SucI le_trans)
  qed
qed

lemma polled_job_is_settled:
  assumes run: "good_run env j p lab s" and rep: "reported_from env j p lab s n"
    and polling: "transport s = JStr ''polling''"
  shows "\<exists>m\<ge>n. settled p (async_states env lab s m)"
proof -
  have "transport (async_states env lab s n) = JStr ''polling''"
    by (rule runs.kept [where i = 0])
       (use polling good_run_no_init [OF run] in \<open>simp_all add: async_step_transport del: async_step.simps\<close>)
  moreover have "polling_on (async_states env lab s n)"
    using good_run_state [OF run, of n] by (simp add: async_ok_def)
  ultimately consider i where "i \<in> set (poll_timers (async_states env lab s n))"
    | i where "i \<in> fst ` set (poll_requests (async_states env lab s n))"
    by (metis list.set_intros(1) list.exhaust image_eqI)
  then show ?thesis
    using timer_settles_job [OF run rep order_refl] request_settles_job [OF run rep order_refl] by cases blast+
qed

end
