(* ===== verification/AsyncClaims.thy ===== *)
theory AsyncClaims
  imports AsyncLive
begin

text \<open>
  The properties of the asynchronous events: on the polling transport a job somebody waits for is settled,
  events that nobody claims are given up after a bounded number of retries, and two ways in which a promise
  is left pending for ever: an event with an intermediate status, and the fallback from web sockets.
\<close>

section \<open>Retries end\<close>

text \<open>A run of retry timers that are pending.\<close>

fun retry_run :: "async_env \<Rightarrow> nat list \<Rightarrow> async_state \<Rightarrow> bool" where
  "retry_run env [] s = True"
| "retry_run env (i # is) s \<longleftrightarrow>
     obj_get (retry_timers s) i \<noteq> None \<and> retry_run env is (async_step env (RetryTimer i) s)"

text \<open>How often a job may still be retried, and the measure that every retry decreases.\<close>

definition retries_left :: "(string, nat) obj \<Rightarrow> string \<Rightarrow> nat" where
  "retries_left rs j = (case obj_get rs j of None \<Rightarrow> 6 | Some n \<Rightarrow> 6 - n)"

definition retry_measure :: "string set \<Rightarrow> async_state \<Rightarrow> nat" where
  "retry_measure J s = 7 * length (retry_timers s) + (\<Sum>j\<in>J. retries_left (retriesByJobId s) j)"

definition timer_jobs :: "async_state \<Rightarrow> string set" where
  "timer_jobs s = {job_of ev | i d ev. (i, d, ev) \<in> set (retry_timers s)}"

lemma timer_jobs_image: "timer_jobs s = (\<lambda>(i, d, ev). job_of ev) ` set (retry_timers s)"
  by (force simp: timer_jobs_def)

lemma retries_left_le: "retries_left rs j \<le> 6"
  by (simp add: retries_left_def split: option.split)

lemma sum_one_changed:
  assumes "finite J" and "j \<in> J" and "\<And>k. k \<noteq> j \<Longrightarrow> f k = g k"
  shows "(\<Sum>k\<in>J. f k) + g j = (\<Sum>k\<in>J. g k) + (f j :: nat)"
proof -
  have "(\<Sum>k\<in>J - {j}. f k) = (\<Sum>k\<in>J - {j}. g k)" by (rule sum.cong) (use assms(3) in auto)
  then show ?thesis using assms(1,2) by (simp add: sum.remove)
qed

lemma process_event_measure:
  assumes "finite J" and "job_of ev \<in> J" and "\<not> nullish ev"
  shows "retry_measure J (process_event env ev s) < 7 + retry_measure J s"
proof -
  let ?j = "job_of ev"
  have del: "(\<Sum>j\<in>J. retries_left (obj_del ?j rs) j) \<le> (\<Sum>j\<in>J. retries_left rs j) + 6" for rs
    using sum_one_changed [OF assms(1,2), of "retries_left (obj_del ?j rs)" "retries_left rs"]
      retries_left_le [of "obj_del ?j rs" ?j] by (simp add: retries_left_def)
  show ?thesis
  proof (cases "obj_get (listenersByJobId s) ?j")
    case (Some p)
    then show ?thesis
      using del [of "retriesByJobId s"]
      by (simp add: retry_measure_def process_event_def Let_def setLastId_def)
  next
    case None
    let ?n = "Suc (case obj_get (retriesByJobId s) ?j of None \<Rightarrow> 0 | Some m \<Rightarrow> m)"
    show ?thesis
    proof (cases "?n \<le> 6")
      case False
      then show ?thesis
        using None del [of "retriesByJobId s"]
        by (simp add: retry_measure_def process_event_def Let_def setLastId_def retry_event_def MAX_RETRIES_def)
    next
      case True
      have "(\<Sum>j\<in>J. retries_left (obj_set ?j ?n (retriesByJobId s)) j) < (\<Sum>j\<in>J. retries_left (retriesByJobId s) j)"
        using True
          sum_one_changed [OF assms(1,2), of "retries_left (obj_set ?j ?n (retriesByJobId s))" "retries_left (retriesByJobId s)"]
        by (simp add: retries_left_def split: option.splits)
      then show ?thesis
        using None True
        by (simp add: retry_measure_def process_event_def Let_def setLastId_def retry_event_def MAX_RETRIES_def)
    qed
  qed
qed

lemma process_event_jobs: "timer_jobs (process_event env ev s) \<subseteq> insert (job_of ev) (timer_jobs s)"
  using process_event_timers [of _ _ _ env ev s] unfolding timer_jobs_def by blast

lemma retry_step_measure:
  assumes t: "obj_get (retry_timers s) i = Some (d, ev)" and ev: "\<not> nullish ev"
    and J: "finite J" "timer_jobs s \<subseteq> J"
  shows "retry_measure J (async_step env (RetryTimer i) s) < retry_measure J s"
    and "timer_jobs (async_step env (RetryTimer i) s) \<subseteq> J"
proof -
  let ?s = "s\<lparr>retry_timers := obj_del i (retry_timers s)\<rparr>"
  have step: "async_step env (RetryTimer i) s = process_event env ev ?s" using t ev by simp
  have job: "job_of ev \<in> J" using map_of_SomeD [OF t] J(2) unfolding timer_jobs_def by blast
  have "retry_measure J ?s + 7 \<le> retry_measure J s"
    using length_obj_del_less [OF t] by (simp add: retry_measure_def)
  with process_event_measure [OF J(1) job ev, of env ?s]
  show "retry_measure J (async_step env (RetryTimer i) s) < retry_measure J s" unfolding step by linarith
  have "set (retry_timers ?s) \<subseteq> set (retry_timers s)" by (auto simp: set_obj_del)
  then have "timer_jobs ?s \<subseteq> timer_jobs s" unfolding timer_jobs_def by blast
  then show "timer_jobs (async_step env (RetryTimer i) s) \<subseteq> J"
    unfolding step using process_event_jobs [of env ev ?s] job J(2) by blast
qed

lemma retry_run_measure:
  "retry_run env is s \<Longrightarrow> retries_ok s \<Longrightarrow> finite J \<Longrightarrow> timer_jobs s \<subseteq> J \<Longrightarrow> length is \<le> retry_measure J s"
proof (induction "is" arbitrary: s)
  case Nil
  then show ?case by simp
next
  case (Cons i "is")
  obtain d ev where t: "obj_get (retry_timers s) i = Some (d, ev)" using Cons.prems(1) by auto
  have ev: "\<not> nullish ev"
    using map_of_SomeD [OF t] Cons.prems(2) unfolding retries_inv_def by blast
  let ?s = "async_step env (RetryTimer i) s"
  have "retries_ok ?s"
  proof -
    have "retries_ok (s\<lparr>retry_timers := obj_del i (retry_timers s)\<rparr>)"
      using Cons.prems(2) by (auto simp: retries_inv_def set_obj_del)
    then show ?thesis using t ev process_event_retries by simp
  qed
  then have "length is \<le> retry_measure J ?s"
    using Cons.prems(1,3) retry_step_measure(2) [OF t ev Cons.prems(3,4), of env] by (intro Cons.IH) auto
  then show ?case using retry_step_measure(1) [OF t ev Cons.prems(3,4), of env] by simp
qed

lemma retry_measure_le: "retry_measure (timer_jobs s) s \<le> 13 * length (retry_timers s)"
proof -
  have "(\<Sum>j\<in>timer_jobs s. retries_left (retriesByJobId s) j) \<le> (\<Sum>j\<in>timer_jobs s. 6)"
    by (rule sum_mono) (rule retries_left_le)
  also have "\<dots> \<le> 6 * length (retry_timers s)"
    using card_image_le [of "set (retry_timers s)" "\<lambda>(i, d, ev). job_of ev"] card_length [of "retry_timers s"]
    by (simp add: timer_jobs_image)
  finally show ?thesis by (simp add: retry_measure_def)
qed

section \<open>Web sockets give up after one request\<close>

text \<open>Nothing is pending any more; listeners may still wait.\<close>

definition dead :: "async_state \<Rightarrow> bool" where
  "dead s \<longleftrightarrow>
     transport s = JStr ''ws'' \<and> retry_timers s = [] \<and> fetches s = [] \<and> poll_requests s = [] \<and>
     poll_timers s = [] \<and> sockets s = [] \<and> ws_timers s = []"

definition no_init :: "async_label \<Rightarrow> bool" where
  "no_init l = (case l of Init config \<Rightarrow> False | _ \<Rightarrow> True)"

lemma dead_step: "dead s \<Longrightarrow> no_init l \<Longrightarrow> dead (async_step env l s)"
  by (cases l) (simp_all add: dead_def no_init_def waitForAsyncData_def addListener_def finish_fetch_def
      finish_poll_def ws_opened_def ws_closed_def ws_failed_def ws_message_def ws_timeout_def)

lemma dead_promises:
  "dead s \<Longrightarrow> no_init l \<Longrightarrow> p < length (promises s) \<Longrightarrow>
   p < length (promises (async_step env l s)) \<and> promises (async_step env l s) ! p = promises s ! p"
  by (cases l) (simp_all add: dead_def no_init_def waitForAsyncData_def addListener_def finish_fetch_def
      finish_poll_def ws_opened_def ws_closed_def ws_failed_def ws_message_def ws_timeout_def nth_append)

lemma dead_run:
  "dead s \<Longrightarrow> list_all no_init ls \<Longrightarrow> p < length (promises s) \<Longrightarrow>
   promises (async_run env ls s) ! p = promises s ! p"
proof (induction ls arbitrary: s)
  case Nil
  then show ?case by simp
next
  case (Cons l ls)
  then show ?case
    using Cons.IH [of "async_step env l s"] dead_step [of s l env] dead_promises [of s l p env]
    by (simp del: async_step.simps)
qed

lemma fallback_polls_once:
  assumes "transport s = JStr ''ws''" and "wsConnectRetries s = wsConnectMaxRetries" and "ws_timers s = [i]"
    and "sockets s = []" and "poll_timers s = []" and "poll_requests s = []" and "retry_timers s = []"
    and "fetches s = []" and "(j, p) \<in> set (listenersByJobId s)" and "p < length (promises s)"
    and "answer = None \<or> answer = Some (JArr [])" and "list_all no_init ls"
  shows "promises (async_run env (WsTimer i # PollReply (next_id s) answer # ls) s) ! p = promises s ! p"
proof -
  have "listenersByJobId s \<noteq> []" using assms(9) by auto
  then have "dead (async_run env [WsTimer i, PollReply (next_id s) answer] s)"
    "promises (async_run env [WsTimer i, PollReply (next_id s) answer] s) = promises s"
    using assms by (auto simp: dead_def ws_timeout_def Let_def loadEventsFromApi_def finish_poll_def obj_del_def
        schedule_poll_def)
  with dead_run [OF this(1) assms(12), of p env] assms(10) show ?thesis by simp
qed

section \<open>An intermediate status loses the job\<close>

lemma status_event_abandons:
  assumes ok: "async_ok s" and l: "obj_get (listenersByJobId s) (job_of ev) = Some p"
    and status: "chain ev ''status'' \<notin> {JStr ''done'', JStr ''error''}"
    and fetches: "\<forall>f \<in> snd ` set (fetches s). pf_promise f \<noteq> p"
  shows "abandoned p (process_event env ev s)"
proof -
  have w: "waiting_ok s" using ok by (simp add: async_ok_def)
  have in_set: "(job_of ev, p) \<in> set (listenersByJobId s)" using l by (rule map_of_SomeD)
  have "p \<notin> snd ` set (obj_del (job_of ev) (listenersByJobId s))"
    using waiting_key [OF w _ in_set] by (auto simp: set_obj_del)
  then show ?thesis
    using l status fetches waiting_listener [OF w in_set]
    by (simp add: process_event_def Let_def setLastId_def run_listener_def removeListener_eq abandoned_inv_def)
qed

section \<open>Properties\<close>

text \<open>C20: On the polling transport every job that somebody waits for is settled. In every reachable state with a listener for the
  job, with no fetch in flight for it and no earlier event about it waiting to be retried that would not be final: in every
  infinite run in which timers fire and requests and fetches are answered, the module is not initialized again, nobody waits for the
  same job again and every event about the job is final, if from some step on an answered poll reports the job as
  long as its data are not being fetched, then from that step on the promise is eventually resolved or rejected.
  (Polls that fail or report nothing before that step do no harm: the polling goes on.)\<close>

theorem waited_jobs_are_settled:
  assumes "async_reach env s" and "transport s = JStr ''polling''"
    and "obj_get (listenersByJobId s) j = Some p"
    and "\<forall>f \<in> snd ` set (fetches s). pf_job f \<noteq> j"
    and "\<forall>i d ev. (i, d, ev) \<in> set (retry_timers s) \<longrightarrow> final_event env j ev"
    and "fair env lab s" and "\<forall>k. good_label env j (lab k)" and "reported_from env j p lab s n"
  shows "\<exists>m\<ge>n. p < length (promises (async_states env lab s m)) \<and> promises (async_states env lab s m) ! p \<noteq> WAITING"
proof -
  have ok: "async_ok s" using assms(1) by (rule reach_ok)
  then have "waiting_ok s" by (simp add: async_ok_def)
  from waiting_listener [OF this map_of_SomeD [OF assms(3)]]
  have "job_inv env j p s" using assms(3-5) by (auto simp: job_inv_def)
  with ok assms(6,7) have "good_run env j p lab s" by (simp add: good_run_def)
  from polled_job_is_settled [OF this assms(8,2)] show ?thesis by (simp add: settled_in_def)
qed

text \<open>A run in which the first poll reports the job.\<close>

definition sample_env :: async_env where
  "sample_env = \<lparr>env_browser = \<lparr>translate = (\<lambda>s vs. s), parse_json = (\<lambda>s. None), seconds_of = id, body_tags = (\<lambda>s. [])\<rparr>,
     storage_works = True, feature_enabled = True, in_message = (\<lambda>v. ''no object'')\<rparr>"

definition job_event :: "string \<Rightarrow> string \<Rightarrow> string \<Rightarrow> jsval" where
  "job_event j i status =
     JObj [(''id'', JStr i), (''job_id'', JStr j), (''status'', JStr status), (''result_url'', JStr ''/data'')]"

definition polling_start :: async_state where
  "polling_start = async_run sample_env [Init [], WaitFor (job_event ''j'' ''1'' ''pending'')] blank"

definition sample_labels :: "nat \<Rightarrow> async_label" where
  "sample_labels k =
     (if k = 1 then PollReply 1 (Some (JArr [job_event ''j'' ''2'' ''done'']))
      else if k = 2 then FetchReply 2 (CachedJson (JArr [JNum 1]))
      else PollTimer k)"

definition sample_tail :: "nat \<Rightarrow> async_state" where
  "sample_tail k = blank\<lparr>initialized := True, transport := JStr ''polling'', pollingDelayMs := JNum 500, lastReceivedEventId := JStr ''2'',
     stored_id := Some ''2'', promises := [RESOLVED (JArr [JNum 1])], poll_timers := [k],
     pollingTimeoutId := Some k, next_id := Suc k\<rparr>"

lemma job_event_simps [simp]:
  "job_of (job_event j i st) = j"
  "chain (job_event j i st) ''status'' = JStr st"
  "chain (job_event j i st) ''id'' = JStr i"
  "chain (job_event j i st) ''result_url'' = JStr ''/data''"
  "nullish (job_event j i st) = False"
  by (simp_all add: job_event_def job_of_def jget_def)

lemma polling_start_eq:
  "polling_start = blank\<lparr>initialized := True, transport := JStr ''polling'', pollingDelayMs := JNum 500, lastReceivedEventId := JNull,
     listenersByJobId := [(''j'', 0)], promises := [WAITING], poll_timers := [0], pollingTimeoutId := Some 0,
     next_id := 1\<rparr>"
  by (simp add: polling_start_def init_events_def sample_env_def blank_def loadEventsFromApi_def schedule_poll_def
      waitForAsyncData_def addListener_def jget_def js_or_def)

lemma sample_states:
  "async_states sample_env sample_labels polling_start 0 = polling_start"
  "async_states sample_env sample_labels polling_start 1 =
     polling_start\<lparr>poll_timers := [], poll_requests := [(1, [])], next_id := 2\<rparr>"
  "async_states sample_env sample_labels polling_start 2 =
     polling_start\<lparr>lastReceivedEventId := JStr ''2'', stored_id := Some ''2'', poll_timers := [3], pollingTimeoutId := Some 3,
       fetches := [(2, \<lparr>pf_promise = 0, pf_job = ''j'', pf_endpoint = ''/data''\<rparr>)], next_id := 4\<rparr>"
proof -
  show s0: "async_states sample_env sample_labels polling_start 0 = polling_start" by simp
  show s1: "async_states sample_env sample_labels polling_start 1 =
      polling_start\<lparr>poll_timers := [], poll_requests := [(1, [])], next_id := 2\<rparr>"
    by (simp add: One_nat_def sample_labels_def polling_start_eq blank_def loadEventsFromApi_def)
  have "async_states sample_env sample_labels polling_start 2 =
      async_step sample_env (sample_labels 1) (async_states sample_env sample_labels polling_start 1)"
    by (simp add: numeral_2_eq_2)
  then show "async_states sample_env sample_labels polling_start 2 =
      polling_start\<lparr>lastReceivedEventId := JStr ''2'', stored_id := Some ''2'', poll_timers := [3], pollingTimeoutId := Some 3,
        fetches := [(2, \<lparr>pf_promise = 0, pf_job = ''j'', pf_endpoint = ''/data''\<rparr>)], next_id := 4\<rparr>"
    unfolding s1
    by (simp add: sample_labels_def polling_start_eq blank_def finish_poll_def obj_del_def process_event_def
        run_listener_def setLastId_def schedule_poll_def sample_env_def Let_def)
qed

lemma sample_tail_step: "3 \<le> k \<Longrightarrow> async_step sample_env (sample_labels k) (sample_tail k) = sample_tail (Suc k)"
  by (simp add: sample_labels_def sample_tail_def blank_def loadEventsFromApi_def schedule_poll_def)

lemma sample_states_tail: "3 \<le> k \<Longrightarrow> async_states sample_env sample_labels polling_start k = sample_tail k"
proof (induction k rule: dec_induct)
  case base
  have next_state: "async_states sample_env sample_labels polling_start 3 =
      async_step sample_env (sample_labels 2) (async_states sample_env sample_labels polling_start 2)"
    by (simp add: numeral_3_eq_3 numeral_2_eq_2)
  show ?case
    unfolding next_state sample_states(3)
    by (simp add: sample_labels_def sample_tail_def polling_start_eq blank_def finish_fetch_def fetchCachedData_def
        obj_del_def settle_eq removeListener_eq)
next
  case (step k)
  then show ?case using sample_tail_step by simp
qed

lemma small_index: "k = 0 \<or> k = 1 \<or> k = 2 \<or> 3 \<le> (k :: nat)"
  by auto

lemma sample_fair: "fair sample_env sample_labels polling_start"
proof -
  have "(\<forall>i \<in> set (poll_timers (async_states sample_env sample_labels polling_start k)). \<exists>m\<ge>k. sample_labels m = PollTimer i) \<and>
        (\<forall>i \<in> fst ` set (poll_requests (async_states sample_env sample_labels polling_start k)).
           \<exists>m\<ge>k. \<exists>answer. sample_labels m = PollReply i answer) \<and>
        (\<forall>i \<in> fst ` set (fetches (async_states sample_env sample_labels polling_start k)).
           \<exists>m\<ge>k. \<exists>reply. sample_labels m = FetchReply i reply)" for k
    using small_index [of k]
  proof (elim disjE)
    assume "k = 0"
    then show ?thesis
      by (auto simp: polling_start_eq blank_def sample_labels_def intro!: exI [of _ 0])
  next
    assume k: "k = 1"
    have pending: "poll_timers (async_states sample_env sample_labels polling_start 1) = []"
      "poll_requests (async_states sample_env sample_labels polling_start 1) = [(1, [])]"
      "fetches (async_states sample_env sample_labels polling_start 1) = []"
      unfolding sample_states(2) by (simp_all add: polling_start_eq blank_def)
    have "\<exists>m\<ge>1. \<exists>answer. sample_labels m = PollReply 1 answer"
      by (rule exI [of _ 1]) (simp add: sample_labels_def)
    then show ?thesis unfolding k pending by simp
  next
    assume k: "k = 2"
    have pending: "poll_timers (async_states sample_env sample_labels polling_start 2) = [3]"
      "poll_requests (async_states sample_env sample_labels polling_start 2) = []"
      "fst ` set (fetches (async_states sample_env sample_labels polling_start 2)) = {2}"
      unfolding sample_states(3) by (simp_all add: polling_start_eq blank_def)
    have "\<exists>m\<ge>2. sample_labels m = PollTimer 3" by (rule exI [of _ 3]) (simp add: sample_labels_def)
    moreover have "\<exists>m\<ge>2. \<exists>reply. sample_labels m = FetchReply 2 reply" by (rule exI [of _ 2]) (simp add: sample_labels_def)
    ultimately show ?thesis unfolding k pending by simp
  next
    assume k: "3 \<le> k"
    moreover have "\<exists>m\<ge>k. sample_labels m = PollTimer k" using k by (intro exI [of _ k]) (simp add: sample_labels_def)
    ultimately show ?thesis by (simp add: sample_states_tail sample_tail_def blank_def)
  qed
  then show ?thesis by (simp add: fair_def)
qed

lemma sample_good: "good_label sample_env ''j'' (sample_labels k)"
  by (simp add: sample_labels_def good_label_def delivered_def final_event_def fetchCachedData_def)

lemma sample_reported: "reported_from sample_env ''j'' 0 sample_labels polling_start 0"
  by (simp add: reported_from_def sample_labels_def)

theorem waited_jobs_are_settled_witness:
  "\<exists>m\<ge>0. 0 < length (promises (async_states sample_env sample_labels polling_start m)) \<and>
     promises (async_states sample_env sample_labels polling_start m) ! 0 \<noteq> WAITING"
proof (rule waited_jobs_are_settled [OF _ _ _ _ _ sample_fair _ sample_reported])
  have "async_reach sample_env (async_step sample_env (Init []) (blank\<lparr>stored_id := None\<rparr>))"
    by (rule async_reach.loaded)
  then have "async_reach sample_env (async_run sample_env [WaitFor (job_event ''j'' ''1'' ''pending'')]
      (async_step sample_env (Init []) (blank\<lparr>stored_id := None\<rparr>)))"
    by (rule async_run_reach)
  moreover have "blank\<lparr>stored_id := None\<rparr> = blank" by (simp add: blank_def)
  ultimately show "async_reach sample_env polling_start" by (simp add: polling_start_def)
  show "\<forall>k. good_label sample_env ''j'' (sample_labels k)" by (simp add: sample_good)
qed (simp_all add: polling_start_eq blank_def)

text \<open>Web sockets do not fall back to polling. When the last connection attempt has failed, in any reachable state in
  which nothing else is pending, the timeout's handler sends one request; if that finds no event yet (or fails), then
  whatever happens afterwards, short of initializing the module again, a job that somebody waits for is never settled.\<close>

theorem websocket_fallback_gives_up:
  assumes "async_reach env s" and "transport s = JStr ''ws''" and "wsConnectRetries s = wsConnectMaxRetries"
    and "ws_timers s = [i]" and "sockets s = []" and "poll_timers s = []" and "poll_requests s = []"
    and "retry_timers s = []" and "fetches s = []" and "obj_get (listenersByJobId s) j = Some p"
    and "answer = None \<or> answer = Some (JArr [])" and "list_all no_init ls"
  shows "promises (async_run env (WsTimer i # PollReply (next_id s) answer # ls) s) ! p = WAITING"
proof -
  have in_set: "(j, p) \<in> set (listenersByJobId s)" using assms(10) by (rule map_of_SomeD)
  have "waiting_ok s" using reach_ok [OF assms(1)] by (simp add: async_ok_def)
  from waiting_listener [OF this in_set] have "p < length (promises s)" "promises s ! p = WAITING" by simp_all
  with fallback_polls_once [OF assms(2-9) in_set _ assms(11,12), of env] show ?thesis by simp
qed

text \<open>Every socket is closed before it opens.\<close>

definition failing_labels :: "async_label list" where
  "failing_labels = [WaitFor (job_event ''j'' ''1'' ''pending''), WsClose 0, WsTimer 1, WsClose 2, WsTimer 3, WsClose 4, WsTimer 5,
     WsClose 6, WsTimer 7, WsClose 8, WsTimer 9, WsClose 10, WsTimer 11, WsClose 12]"

definition failing_state :: async_state where
  "failing_state = async_run sample_env failing_labels
     (async_step sample_env (Init [(''GLOBAL_ASYNC_QUERIES_TRANSPORT'', JStr ''ws'')]) (blank\<lparr>stored_id := None\<rparr>))"

lemma failing_state_eq:
  "failing_state = blank\<lparr>initialized := True, transport := JStr ''ws'', pollingDelayMs := JNum 500, lastReceivedEventId := JNull,
     listenersByJobId := [(''j'', 0)], promises := [WAITING], current_ws := Some 12, ws_timers := [13],
     wsConnectTimeout := Some 13, wsConnectRetries := 6, next_id := 14\<rparr>"
  by (simp add: failing_state_def failing_labels_def sample_env_def init_events_def blank_def wsConnect_def
      ws_closed_def ws_timeout_def waitForAsyncData_def addListener_def wsConnectMaxRetries_def jget_def js_or_def
      obj_del_def)

theorem websocket_fallback_gives_up_witness:
  "promises (async_run sample_env
     [WsTimer 13, PollReply 14 None, WsOpen 12, PollTimer 14, WsTimer 13] failing_state) ! 0 = WAITING"
proof -
  have "async_reach sample_env failing_state"
    unfolding failing_state_def by (intro async_run_reach async_reach.loaded)
  from websocket_fallback_gives_up [OF this, of 13 "''j''" 0 None "[WsOpen 12, PollTimer 14, WsTimer 13]"]
  show ?thesis
    by (simp add: failing_state_eq blank_def wsConnectMaxRetries_def no_init_def del: async_run_simps async_step.simps)
qed

text \<open>C37: Events whose jobs have no listener are given up: from every reachable state the timers of retried events fire at most
  thirteen times for each event that is waiting, in whatever order they fire and whether or not a listener
  turns up, unless new events arrive.\<close>

theorem unclaimed_events_are_given_up:
  assumes "async_reach env s" and "retry_run env is s"
  shows "length is \<le> 13 * length (retry_timers s)"
proof -
  have "retries_ok s" using reach_ok [OF assms(1)] by (simp add: async_ok_def)
  then have "length is \<le> retry_measure (timer_jobs s) s"
    using assms(2) by (intro retry_run_measure) (simp_all add: timer_jobs_image)
  then show ?thesis using retry_measure_le le_trans by blast
qed

text \<open>An event for which nobody waits is retried six times.\<close>

definition unclaimed_state :: async_state where
  "unclaimed_state = async_run sample_env [WaitFor (job_event ''k'' ''1'' ''pending''), PollTimer 0,
     PollReply 1 (Some (JArr [job_event ''j'' ''2'' ''done'']))]
     (async_step sample_env (Init []) (blank\<lparr>stored_id := None\<rparr>))"

theorem unclaimed_events_are_given_up_witness:
  "length (retry_timers unclaimed_state) = 1 \<and> length [2, 4, 5, 6, 7, 8 :: nat] \<le> 13 * length (retry_timers unclaimed_state)"
proof -
  have reach: "async_reach sample_env unclaimed_state"
    unfolding unclaimed_state_def by (intro async_run_reach async_reach.loaded)
  have s: "unclaimed_state = blank\<lparr>initialized := True, transport := JStr ''polling'', pollingDelayMs := JNum 500, lastReceivedEventId := JStr ''2'',
      stored_id := Some ''2'', listenersByJobId := [(''k'', 0)], promises := [WAITING],
      retriesByJobId := [(''j'', 1)], retry_timers := [(2, 100, job_event ''j'' ''2'' ''done'')],
      poll_timers := [3], pollingTimeoutId := Some 3, next_id := 4\<rparr>"
    by (simp add: unclaimed_state_def sample_env_def init_events_def blank_def loadEventsFromApi_def schedule_poll_def
        waitForAsyncData_def addListener_def jget_def js_or_def finish_poll_def obj_del_def process_event_def
        setLastId_def retry_event_def MAX_RETRIES_def RETRY_DELAY_def Let_def)
  have "retry_run sample_env [2, 4, 5, 6, 7, 8] unclaimed_state"
    by (simp add: s blank_def obj_del_def process_event_def setLastId_def retry_event_def MAX_RETRIES_def RETRY_DELAY_def
        sample_env_def Let_def)
  from unclaimed_events_are_given_up [OF reach this] show ?thesis by (simp add: s)
qed

text \<open>C38: An event with an intermediate status loses the result of its job: in every reachable state, an event about a job somebody
  waits for whose status is neither done nor error removes the listener, so that unless the data were already being
  fetched the promise is never settled, whatever happens afterwards, final events about the job included.\<close>

theorem intermediate_status_loses_the_job:
  assumes "async_reach env s" and "obj_get (listenersByJobId s) (job_of ev) = Some p"
    and "chain ev ''status'' \<notin> {JStr ''done'', JStr ''error''}"
    and "\<forall>f \<in> snd ` set (fetches s). pf_promise f \<noteq> p"
  shows "promises (async_run env ls (process_event env ev s)) ! p = WAITING"
proof -
  have "abandoned p (process_event env ev s)"
    using reach_ok [OF assms(1)] assms(2-4) by (rule status_event_abandons)
  then have "abandoned p (async_run env ls (process_event env ev s))" by (rule async_run_abandoned)
  then show ?thesis by (simp add: abandoned_inv_def)
qed

theorem intermediate_status_loses_the_job_witness:
  "promises (async_run sample_env [PollTimer 0, PollReply 1 (Some (JArr [job_event ''j'' ''3'' ''done'']))]
     (process_event sample_env (job_event ''j'' ''2'' ''running'') polling_start)) ! 0 = WAITING"
proof -
  have "async_reach sample_env (async_run sample_env [WaitFor (job_event ''j'' ''1'' ''pending'')]
      (async_step sample_env (Init []) (blank\<lparr>stored_id := None\<rparr>)))"
    by (intro async_run_reach async_reach.loaded)
  moreover have "blank\<lparr>stored_id := None\<rparr> = blank" by (simp add: blank_def)
  ultimately have "async_reach sample_env polling_start" by (simp add: polling_start_def)
  from intermediate_status_loses_the_job [OF this, of "job_event ''j'' ''2'' ''running''" 0]
  show ?thesis by (simp add: polling_start_eq blank_def del: async_run_simps async_step.simps)
qed

end
