(* ===== verification/SqlLabPersist.thy ===== *)
theory SqlLabPersist
  imports SqlLabState ExtraFormData
begin

text \<open>
  How the state of SQL Lab is kept in the browser's local storage and found again:
  \<open>SqlLab/middlewares/persistSqlLabStateEnhancer.ts\<close> with \<open>SqlLab/utils/reduxStateToLocalStorageHelper.ts\<close> and
  \<open>filterUnsavedQueryEditorList\<close> of \<open>SqlLab/components/EditorAutoSync\<close> for what is stored, and
  \<open>SqlLab/reducers/getInitialState.ts\<close> for the state that a page starts with. The library
  that writes the stored object as JSON is outside the repository; what it reads back is \<open>json_parse\<close>.
\<close>

section \<open>What is stored\<close>

definition PERSISTENT_QUERY_EDITOR_KEYS :: "string list" where
  "PERSISTENT_QUERY_EDITOR_KEYS =
     [''version'', ''remoteId'', ''autorun'', ''dbId'', ''height'', ''id'', ''immutableId'', ''latestQueryId'', ''northPercent'',
      ''queryLimit'', ''schema'', ''selectedText'', ''southPercent'', ''sql'', ''templateParams'', ''name'', ''hideLeftBar'']"

definition KB_STORAGE :: int where
  "KB_STORAGE = 1024"

definition BYTES_PER_CHAR :: int where
  "BYTES_PER_CHAR = 2"

definition LOCALSTORAGE_MAX_QUERY_AGE_MS :: int where
  "LOCALSTORAGE_MAX_QUERY_AGE_MS = 24 * 60 * 60 * 1000"

definition LOCALSTORAGE_MAX_QUERY_RESULTS_KB :: int where
  "LOCALSTORAGE_MAX_QUERY_RESULTS_KB = 1 * 1024"

text \<open>The comparison of sizes is multiplied out; a start that is no number compares as NaN.\<close>

definition shouldEmptyQueryResults :: "env \<Rightarrow> jsobj \<Rightarrow> bool" where
  "shouldEmptyQueryResults e query \<longleftrightarrow>
     (case jget query ''startDttm'' of
        JNum startDttm \<Rightarrow> clock e - startDttm > LOCALSTORAGE_MAX_QUERY_AGE_MS
      | _ \<Rightarrow> False) \<or>
     (let results = jget query ''results'';
          size = (if results = JUndef then 0 else int (length (json_string results)))
      in size * BYTES_PER_CHAR > LOCALSTORAGE_MAX_QUERY_RESULTS_KB * KB_STORAGE)"

text \<open>lodash's \<open>pick\<close>: the listed properties that the object has.\<close>

definition js_pick :: "string list \<Rightarrow> jsobj \<Rightarrow> jsobj" where
  "js_pick ks ob = List.map_filter (\<lambda>k. map_option (Pair k) (obj_get ob k)) ks"

definition emptyTablePersistData :: "jsobj list \<Rightarrow> jsobj list" where
  "emptyTablePersistData ts =
     filter (\<lambda>table. truthy (jget table ''queryEditorId''))
       (map (js_pick [''id'', ''name'', ''dbId'', ''schema'', ''dataPreviewQueryId'', ''queryEditorId'']) ts)"

definition emptyQueryResults :: "env \<Rightarrow> (string, jsobj) obj \<Rightarrow> (string, jsobj) obj" where
  "emptyQueryResults e qs =
     map (\<lambda>(key, query). (key, obj_set ''results'' (if shouldEmptyQueryResults e query then JObj [] else jget query ''results'')
                                (obj_spread [] query))) qs"

definition clearQueryEditor :: "jsobj \<Rightarrow> jsobj" where
  "clearQueryEditor editor = filter (\<lambda>(key, v). key \<in> set PERSISTENT_QUERY_EDITOR_KEYS) editor"

definition clearQueryEditors :: "jsobj list \<Rightarrow> jsobj list" where
  "clearQueryEditors qes = map clearQueryEditor qes"

definition hasUnsavedChanges :: "jsobj \<Rightarrow> jsval \<Rightarrow> bool" where
  "hasUnsavedChanges qe lastSavedTimestamp \<longleftrightarrow>
     truthy (jget qe ''inLocalStorage'') \<or>
     truthy (jget qe ''updatedAt'') \<and>
     (case (jget qe ''updatedAt'', lastSavedTimestamp) of (JNum a, JNum b) \<Rightarrow> a > b | _ \<Rightarrow> False)"

definition filterUnsavedQueryEditorList :: "jsobj list \<Rightarrow> jsobj \<Rightarrow> jsval \<Rightarrow> jsobj list" where
  "filterUnsavedQueryEditorList qes unsaved lastSavedTimestamp =
     filter (\<lambda>qe. hasUnsavedChanges qe lastSavedTimestamp)
       (map (\<lambda>qe. obj_spread (obj_spread [] qe) (obj_when (jget unsaved ''id'' = jget qe ''id'') unsaved)) qes)"

text \<open>The state as the object that is stored.\<close>

definition sql_lab_object :: "sql_lab \<Rightarrow> jsobj" where
  "sql_lab_object s =
     [(''activeSouthPaneTab'', activeSouthPaneTab s), (''alerts'', JArr (alerts s)),
      (''databases'', JObj (map (\<lambda>(k, v). (k, JObj v)) (databases s))), (''dbConnect'', JBool (dbConnect s)),
      (''offline'', offline s), (''errorMessage'', errorMessage s),
      (''queries'', JObj (map (\<lambda>(k, v). (k, JObj v)) (queries s))), (''queryEditors'', JArr (map JObj (queryEditors s))),
      (''tabHistory'', JArr (tabHistory s)), (''tables'', JArr (map JObj (tables s))),
      (''queriesLastUpdate'', JNum (queriesLastUpdate s)), (''editorTabLastUpdatedAt'', editorTabLastUpdatedAt s),
      (''queryCostEstimates'', JObj (map (\<lambda>(k, v). (k, JObj v)) (queryCostEstimates s))),
      (''unsavedQueryEditor'', JObj (unsavedQueryEditor s)), (''lastUpdatedActiveTab'', lastUpdatedActiveTab s),
      (''destroyedQueryEditors'', JObj (map (\<lambda>(k, v). (k, JNum v)) (destroyedQueryEditors s))),
      (''isDatasourceLoading'', isDatasourceLoading s), (''datasource'', datasource s)]"

definition cleared_state :: "env \<Rightarrow> sql_lab \<Rightarrow> sql_lab" where
  "cleared_state e s =
     s\<lparr>tables := emptyTablePersistData (tables s), queries := emptyQueryResults e (queries s),
       queryEditors := clearQueryEditors (queryEditors s),
       unsavedQueryEditor := hd (clearQueryEditors [unsavedQueryEditor s])\<rparr>"

text \<open>The part of the state that is stored while the tabs are kept by the backend.\<close>

definition unsaved_state :: "sql_lab \<Rightarrow> jsobj" where
  "unsaved_state s =
     (let unsavedQueryEditors = filterUnsavedQueryEditorList (queryEditors s) (unsavedQueryEditor s) (editorTabLastUpdatedAt s);
          hasUnsavedActiveTabState = (active_tab s \<noteq> lastUpdatedActiveTab s);
          hasUnsavedDeletedQueryEditors = (destroyedQueryEditors s \<noteq> []);
          hasFinishedMigration = list_all (\<lambda>qe. \<not> truthy (jget qe ''inLocalStorage'')) unsavedQueryEditors;
          history = [(''tabHistory'', JArr (tabHistory s))]
      in if unsavedQueryEditors \<noteq> [] \<or> hasUnsavedActiveTabState \<or> hasUnsavedDeletedQueryEditors
         then [(''sqlLab'', JObj
                (obj_spread
                  (obj_spread
                    (obj_spread [(''queryEditors'', JArr (map JObj unsavedQueryEditors))]
                      (obj_when (\<not> hasFinishedMigration)
                        (history @
                         [(''tables'', JArr (map JObj (filter (\<lambda>t. truthy (jget t ''inLocalStorage'')) (tables s)))),
                          (''queries'', JObj (map (\<lambda>(k, v). (k, JObj v))
                             (filter (\<lambda>(k, q). truthy (jget q ''inLocalStorage'') \<and> \<not> truthy (jget q ''isDataPreview''))
                               (queries s))))])))
                    (obj_when hasUnsavedActiveTabState history))
                  [(''destroyedQueryEditors'', JObj (map (\<lambda>(k, v). (k, JNum v)) (destroyedQueryEditors s)))]))]
         else [])"

definition persisted_state :: "bool \<Rightarrow> env \<Rightarrow> sql_lab \<Rightarrow> jsobj" where
  "persisted_state backend_persistence e s =
     (if backend_persistence then unsaved_state s else [(''sqlLab'', JObj (sql_lab_object (cleared_state e s)))])"

section \<open>The state from the backend\<close>

text \<open>What the page is given: the configuration, the active tab with its contents, the identifiers and labels of all
  tabs, and the databases and queries by their identifiers.\<close>

record sql_boot =
  boot_conf :: jsobj
  active_tab_state :: "jsobj option"
  tab_state_ids :: "jsobj list"
  boot_databases :: "(string, jsobj) obj"
  boot_queries :: "(string, jsobj) obj"

definition default_query_editor :: "env \<Rightarrow> string \<Rightarrow> jsobj \<Rightarrow> jsobj" where
  "default_query_editor e untitled conf =
     [(''version'', JNum 1), (''immutableId'', JStr (nano e 0)), (''loaded'', JBool True), (''name'', JStr untitled),
      (''sql'', JStr []), (''latestQueryId'', JNull), (''autorun'', JBool False),
      (''dbId'', jget conf ''SQLLAB_DEFAULT_DBID''), (''queryLimit'', jget conf ''DEFAULT_SQLLAB_LIMIT''),
      (''hideLeftBar'', JBool False), (''remoteId'', JNull),
      (''cursorPosition'', JObj [(''row'', JNum 0), (''column'', JNum 0)])]"

text \<open>The editor of the active tab; \<open>fresh\<close> is the identifier drawn when the tab has none.\<close>

definition active_editor :: "string \<Rightarrow> jsobj \<Rightarrow> jsobj" where
  "active_editor fresh a =
     (let extra = jget a ''extra_json''; latest = jget a ''latest_query''
      in [(''version'', js_coalesce (chain extra ''version'') (JNum 1)),
          (''id'', JStr (key_of (jget a ''id''))),
          (''immutableId'', js_coalesce (chain extra ''immutableId'') (JStr fresh)),
          (''loaded'', JBool True), (''name'', jget a ''label''), (''sql'', js_or (jget a ''sql'') (JStr [])),
          (''selectedText'', JUndef),
          (''latestQueryId'', if truthy latest then chain latest ''id'' else JNull),
          (''remoteId'', js_or (chain (jget a ''saved_query'') ''id'') JNull),
          (''autorun'', JBool (truthy (jget a ''autorun''))),
          (''templateParams'', js_or (jget a ''template_params'') JUndef),
          (''dbId'', jget a ''database_id''), (''catalog'', jget a ''catalog''), (''schema'', jget a ''schema''),
          (''queryLimit'', jget a ''query_limit''), (''hideLeftBar'', jget a ''hide_left_bar''),
          (''updatedAt'', chain extra ''updatedAt'')])"

definition dummy_editor :: "jsobj \<Rightarrow> string \<Rightarrow> jsobj \<Rightarrow> jsobj" where
  "dummy_editor defaults fresh tabState =
     obj_spread (obj_spread [] defaults)
       [(''id'', JStr (key_of (jget tabState ''id''))), (''immutableId'', JStr fresh), (''loaded'', JBool False),
        (''name'', jget tabState ''label''), (''dbId'', JUndef)]"

text \<open>Identifiers drawn from \<open>nanoid\<close> are counted; \<open>id.toString()\<close> of no value throws.\<close>

definition add_backend_editor ::
    "env \<Rightarrow> jsobj \<Rightarrow> jsobj option \<Rightarrow> (string, jsobj) obj \<times> nat \<Rightarrow> jsobj \<Rightarrow> ((string, jsobj) obj \<times> nat) result" where
  "add_backend_editor e defaults activeTab acc tabState =
     (let (editors, n) = acc; i = jget tabState ''id''
      in if nullish i then Inl TypeError
         else case activeTab of
                Some a \<Rightarrow>
                  if jget a ''id'' = i
                  then Inr (obj_set (key_of i) (active_editor (nano e n) a) editors,
                            if nullish (chain (jget a ''extra_json'') ''immutableId'') then Suc n else n)
                  else Inr (obj_set (key_of i) (dummy_editor defaults (nano e n) tabState) editors, Suc n)
              | None \<Rightarrow> Inr (obj_set (key_of i) (dummy_editor defaults (nano e n) tabState) editors, Suc n))"

definition backend_table :: "jsval \<Rightarrow> jsobj result" where
  "backend_table tableSchema =
     (let description = chain tableSchema ''description''
      in if nullish description \<or> nullish (chain tableSchema ''tab_state_id'') then Inl TypeError
         else Inr [(''dbId'', js_coalesce (chain tableSchema ''database_id'') (JNum 0)),
                   (''queryEditorId'', JStr (key_of (chain tableSchema ''tab_state_id''))),
                   (''catalog'', chain tableSchema ''catalog''), (''schema'', chain tableSchema ''schema''),
                   (''name'', chain tableSchema ''table''),
                   (''expanded'', JBool (truthy (chain tableSchema ''expanded''))),
                   (''id'', chain tableSchema ''id''),
                   (''dataPreviewQueryId'', chain description ''dataPreviewQueryId''),
                   (''persistData'', JObj (obj_del ''dataPreviewQueryId'' (entries_of description))),
                   (''initialized'', JBool True)])"

definition backend_tables :: "jsobj option \<Rightarrow> (string, jsobj) obj result" where
  "backend_tables activeTab =
     (case activeTab of
        None \<Rightarrow> Inr []
      | Some a \<Rightarrow>
          (case jget a ''table_schemas'' of
             JArr ts \<Rightarrow>
               if list_ex nullish ts then Inl TypeError
               else rfold (\<lambda>tables t. rbind (backend_table t) (\<lambda>table.
                      Inr (obj_set (key_of (jget table ''id'')) table tables)))
                    [] (filter (\<lambda>t. chain t ''description'' \<noteq> JNull) ts)
           | _ \<Rightarrow> Inl TypeError))"

section \<open>The state from local storage\<close>

text \<open>What is assembled; when an exception ends the reading, what was assembled until then is kept.\<close>

record cache_load =
  cl_editors :: "(string, jsobj) obj"
  cl_tables :: "(string, jsobj) obj"
  cl_queries :: "(string, jsobj) obj"
  cl_history :: "jsval list"
  cl_unsaved :: jsobj
  cl_destroyed :: "(string, int) obj"
  cl_removed :: bool

text \<open>\<open>forEach\<close> with a body that may throw (\<open>None\<close>), and a phase after a phase: the flag says whether all went through.\<close>

fun try_each :: "('a \<Rightarrow> 's \<Rightarrow> 's option) \<Rightarrow> 'a list \<Rightarrow> 's \<Rightarrow> 's \<times> bool" where
  "try_each f [] s = (s, True)"
| "try_each f (x # xs) s = (case f x s of None \<Rightarrow> (s, False) | Some s' \<Rightarrow> try_each f xs s')"

definition and_then :: "'s \<times> bool \<Rightarrow> ('s \<Rightarrow> 's \<times> bool) \<Rightarrow> 's \<times> bool" where
  "and_then r f = (if snd r then f (fst r) else r)"

text \<open>\<open>a > b\<close> of two times.\<close>

definition later :: "jsval \<Rightarrow> jsval \<Rightarrow> bool" where
  "later a b = (case (a, b) of (JNum x, JNum y) \<Rightarrow> x > y | _ \<Rightarrow> False)"

definition merge_cached_editor :: "jsobj \<Rightarrow> jsobj option \<Rightarrow> jsobj \<Rightarrow> jsobj" where
  "merge_cached_editor unsaved existing qe =
     (let hasConflictFromBackend = (existing \<noteq> None);
          known = (case existing of None \<Rightarrow> [] | Some x \<Rightarrow> x);
          unsavedUpdatedAt = jget known ''updatedAt'';
          hasUnsavedUpdate = (truthy (jget qe ''updatedAt'') \<and>
            (\<not> truthy unsavedUpdatedAt \<or> later (jget qe ''updatedAt'') unsavedUpdatedAt));
          cached = (if \<not> hasConflictFromBackend \<or> hasUnsavedUpdate then qe else [])
      in obj_spread
           (obj_spread
             (obj_set ''name'' (js_or (js_or (jget cached ''title'') (jget cached ''name'')) (jget known ''name''))
               (obj_spread (obj_spread [] known) cached))
             (obj_when (truthy (jget cached ''id'') \<and> jget unsaved ''id'' = jget qe ''id'') unsaved))
           [(''inLocalStorage'', JBool (\<not> hasConflictFromBackend)), (''loaded'', JBool True)])"

definition load_editor :: "jsval \<Rightarrow> cache_load \<Rightarrow> cache_load option" where
  "load_editor v s =
     (if nullish v then None
      else let qe = entries_of v;
               sqlEditorId = key_of (js_coalesce (jget qe ''tabViewId'') (jget qe ''id''))
           in Some (s\<lparr>cl_editors := obj_set sqlEditorId
                        (merge_cached_editor (cl_unsaved s) (obj_get (cl_editors s) sqlEditorId) qe) (cl_editors s)\<rparr>))"

definition load_editors :: "jsobj \<Rightarrow> cache_load \<Rightarrow> cache_load \<times> bool" where
  "load_editors sqlLab s =
     (let s' = s\<lparr>cl_unsaved := entries_of (js_or (jget sqlLab ''unsavedQueryEditor'') (JObj (cl_unsaved s)))\<rparr>
      in case jget sqlLab ''queryEditors'' of
           JArr qes \<Rightarrow> try_each load_editor qes s'
         | _ \<Rightarrow> (s', False))"

text \<open>The first table of every editor is expanded. The tables are stored when all were read.\<close>

definition load_table ::
    "(string, jsobj) obj \<Rightarrow> jsobj \<Rightarrow> (string, jsobj) obj \<times> jsval list \<Rightarrow> (string, jsobj) obj \<times> jsval list" where
  "load_table known table acc =
     (let (merged, expandedTables) = acc;
          expanded = (jget table ''queryEditorId'' \<notin> set expandedTables);
          i = key_of (jget table ''id'')
      in (obj_set i
            (obj_spread (obj_spread (obj_spread [] (case obj_get known i of None \<Rightarrow> [] | Some t \<Rightarrow> t)) table)
              [(''expanded'', JBool expanded), (''inLocalStorage'', JBool True)])
            merged,
          if expanded then jget table ''queryEditorId'' # expandedTables else expandedTables))"

definition load_tables :: "jsobj \<Rightarrow> cache_load \<Rightarrow> cache_load \<times> bool" where
  "load_tables sqlLab s =
     (case jget sqlLab ''tables'' of
        JArr ts \<Rightarrow>
          if list_ex nullish ts then (s, False)
          else (s\<lparr>cl_tables := fst (fold (\<lambda>t. load_table (cl_tables s) (entries_of t)) ts (cl_tables s, []))\<rparr>, True)
      | v \<Rightarrow> (s, \<not> truthy v))"

definition load_query :: "jsval \<Rightarrow> cache_load \<Rightarrow> cache_load option" where
  "load_query v s =
     (if nullish v then None
      else Some (s\<lparr>cl_queries := obj_set (key_of (chain v ''id''))
                     (obj_set ''inLocalStorage'' (JBool True) (obj_spread [] (entries_of v))) (cl_queries s)\<rparr>))"

definition load_queries :: "jsobj \<Rightarrow> cache_load \<Rightarrow> cache_load \<times> bool" where
  "load_queries sqlLab s =
     (let v = jget sqlLab ''queries''
      in if truthy v then try_each load_query (obj_values (js_order (entries_of v))) s else (s, True))"

definition load_history :: "jsobj \<Rightarrow> cache_load \<Rightarrow> cache_load \<times> bool" where
  "load_history sqlLab s =
     (case jget sqlLab ''tabHistory'' of
        JArr ids \<Rightarrow>
          (s\<lparr>cl_history := cl_history s @
               filter (\<lambda>i. \<not> truthy (chain (jget sqlLab ''destroyedQueryEditors'') (key_of i))) ids\<rparr>, True)
      | v \<Rightarrow> (s, \<not> truthy v))"

text \<open>The values of \<open>destroyedQueryEditors\<close> are times.\<close>

definition time_of :: "jsval \<Rightarrow> int" where
  "time_of v = (case v of JNum n \<Rightarrow> n | _ \<Rightarrow> 0)"

definition load_destroyed :: "jsobj \<Rightarrow> cache_load \<Rightarrow> cache_load \<times> bool" where
  "load_destroyed sqlLab s =
     (fold (\<lambda>(i, ts) s. s\<lparr>cl_destroyed := obj_set i (time_of ts) (cl_destroyed s),
                          cl_editors := obj_del i (cl_editors s)\<rparr>)
        (js_order (entries_of (jget sqlLab ''destroyedQueryEditors''))) s, True)"

text \<open>Nothing left to migrate: the stored state is removed.\<close>

definition load_cached :: "jsobj \<Rightarrow> cache_load \<Rightarrow> cache_load" where
  "load_cached sqlLab s =
     (let qes = jget sqlLab ''queryEditors''
      in if nullish qes then s
         else if (qes = JArr [] \<or> qes = JStr []) \<and> entries_of (jget sqlLab ''destroyedQueryEditors'') = []
         then s\<lparr>cl_removed := True\<rparr>
         else fst (and_then (and_then (and_then (and_then
                (load_editors sqlLab s) (load_tables sqlLab)) (load_queries sqlLab)) (load_history sqlLab))
                (load_destroyed sqlLab)))"

definition load_storage :: "env \<Rightarrow> string option \<Rightarrow> cache_load \<Rightarrow> cache_load" where
  "load_storage e stored s =
     (case stored of
        None \<Rightarrow> s
      | Some text \<Rightarrow>
          if text = [] then s
          else case json_parse e text of
                 None \<Rightarrow> s
               | Some cacheData \<Rightarrow>
                   if truthy (jget cacheData ''sqlLab'') then load_cached (entries_of (jget cacheData ''sqlLab'')) s else s)"

section \<open>The initial state\<close>

text \<open>Times of queries are made numbers.\<close>

definition numeric_times :: "env \<Rightarrow> jsobj \<Rightarrow> jsobj" where
  "numeric_times e query =
     obj_spread (obj_spread (obj_spread [] query)
         (obj_when (truthy (jget query ''startDttm'')) [(''startDttm'', to_number e (jget query ''startDttm''))]))
       (obj_when (truthy (jget query ''endDttm'')) [(''endDttm'', to_number e (jget query ''endDttm''))])"

text \<open>The state and whether the stored state was removed.\<close>

definition initial_sql_lab :: "env \<Rightarrow> string \<Rightarrow> sql_boot \<Rightarrow> string option \<Rightarrow> (sql_lab \<times> bool) result" where
  "initial_sql_lab e untitled boot stored =
     (let activeTab = active_tab_state boot;
          a = (case activeTab of None \<Rightarrow> [] | Some a \<Rightarrow> a);
          activeId = (if activeTab = None then JStr [] else JStr (key_of (jget a ''id'')));
          latest = jget a ''latest_query''
      in rbind (rfold (add_backend_editor e (default_query_editor e untitled (boot_conf boot)) activeTab) ([], 1)
                 (tab_state_ids boot)) (\<lambda>(editors, n).
         rbind (if activeTab \<noteq> None \<and> nullish (jget a ''id'') then Inl TypeError else backend_tables activeTab) (\<lambda>ts.
           let load = load_storage e stored
                 \<lparr>cl_editors = editors, cl_tables = ts,
                  cl_queries = obj_spread (obj_spread [] (boot_queries boot))
                    (obj_when (truthy latest) [(key_of (chain latest ''id''), entries_of latest)]),
                  cl_history = (if activeTab = None then [] else [activeId]), cl_unsaved = [], cl_destroyed = [],
                  cl_removed = False\<rparr>
           in Inr (\<lparr>activeSouthPaneTab = JStr ''Results'', alerts = [], databases = boot_databases boot, dbConnect = False,
                    offline = JBool False, queries = map (\<lambda>(i, q). (i, numeric_times e q)) (cl_queries load),
                    queryEditors = obj_values (js_order (cl_editors load)),
                    tabHistory = dedupeTabHistory (cl_history load),
                    tables = obj_values (js_order (cl_tables load)), queriesLastUpdate = clock e, errorMessage = JNull,
                    unsavedQueryEditor = cl_unsaved load, queryCostEstimates = [],
                    editorTabLastUpdatedAt =
                      (if activeTab = None then JNum (clock e)
                       else js_or (chain (jget a ''extra_json'') ''updatedAt'') (JNum (clock e))),
                    lastUpdatedActiveTab = activeId, destroyedQueryEditors = cl_destroyed load,
                    isDatasourceLoading = JUndef, datasource = JUndef\<rparr>,
                   cl_removed load))))"

end
