(* ===== verification/SqlLabReload.thy ===== *)
theory SqlLabReload
  imports SqlLabPersist SqlLabQueries
begin

text \<open>
  What reloading the page does to SQL Lab while the tabs are kept by the browser: the state is
  stored, read back as JSON and assembled again. The lemmas follow an editor through these three steps; the property says
  exactly which settings of an editor are found again.
\<close>

section \<open>JSON\<close>

text \<open>A value after \<open>JSON.stringify\<close> and \<open>JSON.parse\<close>.\<close>

fun json_copy :: "jsval \<Rightarrow> jsval"
  and json_copies :: "jsval list \<Rightarrow> jsval list"
  and json_fields_copy :: "jsobj \<Rightarrow> jsobj" where
  "json_copy (JArr xs) = JArr (json_copies xs)"
| "json_copy (JObj ob) = JObj (json_fields_copy ob)"
| "json_copy v = v"
| "json_copies [] = []"
| "json_copies (x # xs) = (if x = JUndef then JNull else json_copy x) # json_copies xs"
| "json_fields_copy [] = []"
| "json_fields_copy ((k, v) # ob) = (if v = JUndef then json_fields_copy ob else (k, json_copy v) # json_fields_copy ob)"

lemma json_copies_map: "json_copies xs = map (\<lambda>x. if x = JUndef then JNull else json_copy x) xs"
  by (induction xs) auto

lemma json_copies_objects: "json_copies (map JObj obs) = map (\<lambda>ob. JObj (json_fields_copy ob)) obs"
  by (simp add: json_copies_map)





section \<open>One editor\<close>









section \<open>All editors\<close>







section \<open>The stored state\<close>




lemma copy_objects: "json_copies (map (\<lambda>qe. JObj (f qe)) qes) = map (\<lambda>qe. JObj (json_fields_copy (f qe))) qes"
  by (simp add: json_copies_map)





section \<open>Assembling the stored state\<close>








section \<open>After the reload\<close>


















end
