(* ===== verification/ExploreControls.thy ===== *)
theory ExploreControls
  imports QueryObject
begin

text \<open>
  The controls of the chart editor: how a control's configuration becomes its state
  (\<open>explore/controlUtils\<close>, \<open>explore/store.ts\<close>, \<open>expandControlConfig\<close> of the package of chart controls).
  A control is an object whose properties are plain values or functions; a function is its
  name, and what the plugins' functions compute is a parameter of the model, as are the shared controls,
  the default sections and the registered control panels.
\<close>

named_theorems control_simps

section \<open>Controls\<close>

datatype pval = Plain jsval | Fun string | Funs "string list"

type_synonym control = "(string, pval) obj"
type_synonym controls = "(string, control) obj"

text \<open>A property read as a value (a function is not one) and the truth of a property.\<close>

definition cval :: "control \<Rightarrow> string \<Rightarrow> jsval" where
  "cval c k = (case obj_get c k of Some (Plain v) \<Rightarrow> v | _ \<Rightarrow> JUndef)"

definition ctruthy :: "control \<Rightarrow> string \<Rightarrow> bool" where
  "ctruthy c k = (case obj_get c k of None \<Rightarrow> False | Some (Plain v) \<Rightarrow> truthy v | Some _ \<Rightarrow> True)"

text \<open>The parts of the state of the editor that the reducer and the controls look into, and the rest of it
  (the dataset, the chart, flags). \<open>ex_controls\<close> is \<open>None\<close> before the controls are initialized.\<close>

record explore_state =
  ex_controls :: "controls option"
  ex_form_data :: jsobj
  ex_rest :: jsobj

section \<open>Control panels\<close>

datatype control_item =
    NoItem
  | AliasItem string
  | ElementItem string control
  | ConfigItem string control
  | OverrideItem string control
  | OtherItem string

record section_config =
  section_props :: jsobj
  controlSetRows :: "control_item list list option"

record std_controls =
  std_metrics :: "jsval list"
  std_columns :: "jsval list"

text \<open>\<open>formDataOverrides\<close> takes from the standardized controls, which it finds in a singleton, so what it leaves
  there is a second result.\<close>

record panel_config =
  controlPanelSections :: "section_config option list"
  controlOverrides :: controls
  sectionOverrides :: "(string, section_config) obj"
  onInit :: "(controls \<Rightarrow> controls) option"
  formDataOverrides :: "(jsobj \<Rightarrow> std_controls \<Rightarrow> jsobj \<times> std_controls) option"

definition empty_panel :: panel_config where
  "empty_panel =
     \<lparr>controlPanelSections = [], controlOverrides = [], sectionOverrides = [], onInit = None, formDataOverrides = None\<rparr>"

text \<open>\<open>call_map\<close> is \<open>mapStateToProps\<close>, \<open>call_value\<close> a function that gives an initial or default value, \<open>call_validator\<close> a
  validator; each gets the control it is called on.\<close>

record explore_env =
  sharedControls :: controls
  sharedControlComponents :: "(string, pval) obj"
  SECTIONS :: "(string, section_config) obj"
  panels :: "string \<Rightarrow> panel_config option"
  call_map :: "string \<Rightarrow> control \<Rightarrow> explore_state \<Rightarrow> control"
  call_value :: "string \<Rightarrow> control \<Rightarrow> explore_state option \<Rightarrow> pval"
  call_validator :: "string \<Rightarrow> control \<Rightarrow> jsval \<Rightarrow> control \<Rightarrow> jsval"
  is_empty :: "jsval \<Rightarrow> bool"

definition registered_panel :: "explore_env \<Rightarrow> string \<Rightarrow> panel_config" where
  "registered_panel e vizType = (case panels e vizType of None \<Rightarrow> empty_panel | Some p \<Rightarrow> p)"

section \<open>Expanding configurations\<close>

definition expandControlType :: "explore_env \<Rightarrow> pval \<Rightarrow> pval" where
  "expandControlType e controlType =
     (case controlType of
        Plain (JStr t) \<Rightarrow>
          (case obj_get (sharedControlComponents e) t of Some c \<Rightarrow> c | None \<Rightarrow> controlType)
      | _ \<Rightarrow> controlType)"

definition expandControlConfig :: "explore_env \<Rightarrow> control_item \<Rightarrow> controls \<Rightarrow> control_item" where
  "expandControlConfig e control overrides =
     (case control of
        AliasItem name \<Rightarrow>
          (case obj_get (sharedControls e) name of
             Some c \<Rightarrow> ConfigItem name (obj_spread c (case obj_get overrides name of Some ov \<Rightarrow> ov | None \<Rightarrow> []))
           | None \<Rightarrow> control)
      | ConfigItem name config \<Rightarrow>
          ConfigItem name
            (obj_set ''type''
               (expandControlType e (case obj_get config ''type'' of Some t \<Rightarrow> t | None \<Rightarrow> Plain JUndef)) config)
      | OverrideItem name override \<Rightarrow>
          (case obj_get (sharedControls e) name of
             Some c \<Rightarrow> ConfigItem name (obj_spread c override)
           | None \<Rightarrow> NoItem)
      | OtherItem _ \<Rightarrow> NoItem
      | _ \<Rightarrow> control)"

text \<open>\<open>findControlItem\<close>: an element has its name among its props, not as a property of its own.\<close>

definition item_is :: "string \<Rightarrow> control_item \<Rightarrow> bool" where
  "item_is controlKey control =
     (case control of
        AliasItem n \<Rightarrow> n = controlKey
      | ConfigItem n _ \<Rightarrow> n = controlKey
      | OverrideItem n _ \<Rightarrow> n = controlKey
      | OtherItem n \<Rightarrow> n = controlKey
      | _ \<Rightarrow> False)"

definition section_rows :: "section_config \<Rightarrow> control_item list list" where
  "section_rows sc = (case controlSetRows sc of Some rows \<Rightarrow> rows | None \<Rightarrow> [])"

definition findControlItem :: "section_config option list \<Rightarrow> string \<Rightarrow> control_item" where
  "findControlItem sections controlKey =
     (case find (item_is controlKey) (concat (concat (map section_rows (List.map_filter id sections)))) of
        Some control \<Rightarrow> control
      | None \<Rightarrow> NoItem)"

text \<open>\<open>'config' in control\<close> throws for a string, that is for the alias of a control that is not shared.\<close>

definition getControlConfig :: "explore_env \<Rightarrow> string \<Rightarrow> string \<Rightarrow> control option result" where
  "getControlConfig e controlKey vizType =
     (let panel = registered_panel e vizType
      in case expandControlConfig e (findControlItem (controlPanelSections panel) controlKey) (controlOverrides panel) of
           ConfigItem _ config \<Rightarrow> Inr (Some config)
         | AliasItem n \<Rightarrow> if n = [] then Inr None else Inl TypeError
         | _ \<Rightarrow> Inr None)"

section \<open>The sections of a control panel\<close>

definition override_section :: "(string, section_config) obj \<Rightarrow> string \<times> section_config \<Rightarrow> (string, section_config) obj" where
  "override_section sections entry =
     (case entry of (name, overrides) \<Rightarrow>
        obj_set name
          (case obj_get sections name of
             None \<Rightarrow> overrides
           | Some sc \<Rightarrow>
               \<lparr>section_props = obj_spread (section_props sc) (section_props overrides),
                controlSetRows = (case controlSetRows overrides of None \<Rightarrow> controlSetRows sc | rows \<Rightarrow> rows)\<rparr>)
          sections)"

definition section_names :: "string list" where
  "section_names = [''datasourceAndVizType'', ''matrixifyEnableSection'', ''matrixifyColumns'', ''matrixifyRows'', ''matrixifyCells'']"

definition invalidControls :: "string \<Rightarrow> string list" where
  "invalidControls datasourceType =
     (if datasourceType = ''query'' \<or> datasourceType = ''table'' then [''granularity'']
      else [''granularity_sqla'', ''time_grain_sqla''])"

definition is_alias_of :: "string list \<Rightarrow> control_item \<Rightarrow> bool" where
  "is_alias_of names control = (case control of AliasItem n \<Rightarrow> n \<in> set names | _ \<Rightarrow> False)"

definition getSectionsToRender :: "explore_env \<Rightarrow> string \<Rightarrow> string \<Rightarrow> section_config list" where
  "getSectionsToRender e vizType datasourceType =
     (let panel = registered_panel e vizType;
          sections = foldl override_section (SECTIONS e) (sectionOverrides panel);
          rendered = List.map_filter (obj_get sections) section_names @
                     List.map_filter id (controlPanelSections panel)
      in map (\<lambda>sc. sc\<lparr>controlSetRows :=
               Some (map (\<lambda>row. map (\<lambda>item. expandControlConfig e item (controlOverrides panel))
                                   (filter (\<lambda>c. \<not> is_alias_of (invalidControls datasourceType) c) row))
                       (section_rows sc))\<rparr>)
           rendered)"

section \<open>The state of a control\<close>

definition validators_of :: "control \<Rightarrow> string list" where
  "validators_of control = (case obj_get control ''validators'' of Some (Funs fs) \<Rightarrow> fs | _ \<Rightarrow> [])"

definition execControlValidator :: "explore_env \<Rightarrow> control \<Rightarrow> control \<Rightarrow> control" where
  "execControlValidator e control processedState =
     (let errors = filter truthy
                     (map (\<lambda>v. call_validator e v control (cval control ''value'') processedState) (validators_of control))
      in obj_set ''validationErrors''
           (Plain (JArr (errors @ ensureIsArray (cval control ''externalValidationErrors'')))) control)"

text \<open>A choice is an array whose first element is its value.\<close>

definition choice_value :: "jsval \<Rightarrow> jsval" where
  "choice_value c = (case c of JArr (v # _) \<Rightarrow> v | _ \<Rightarrow> JUndef)"

definition choice_values :: "control \<Rightarrow> jsval list" where
  "choice_values control = map choice_value (ensureIsArray (cval control ''choices''))"

definition handleMissingChoice :: "control \<Rightarrow> control" where
  "handleMissingChoice control =
     (if cval control ''type'' = JStr ''SelectControl'' \<and> \<not> ctruthy control ''freeForm'' \<and>
         ctruthy control ''choices'' \<and> truthy (cval control ''value'')
      then let value = ensureIsArray (cval control ''value'');
               choiceValues = choice_values control
           in if ctruthy control ''multi'' \<and> value \<noteq> []
              then obj_set ''value'' (Plain (JArr (filter (\<lambda>el. el \<in> set choiceValues) value))) control
              else if \<not> ctruthy control ''multi'' \<and>
                      (case value of [] \<Rightarrow> JUndef | v # _ \<Rightarrow> v) \<notin> set choiceValues
              then obj_set ''value'' (Plain JNull) control
              else control
      else control)"

definition is_array :: "jsval \<Rightarrow> bool" where
  "is_array v = (case v of JArr _ \<Rightarrow> True | _ \<Rightarrow> False)"

text \<open>A property that is a function is replaced by what the function gives, and dropped when that is a function again.\<close>

definition evaluated :: "explore_env \<Rightarrow> explore_state option \<Rightarrow> string \<Rightarrow> control \<Rightarrow> control" where
  "evaluated e controlPanelState k state =
     (case obj_get state k of
        Some (Fun f) \<Rightarrow>
          (case call_value e f state controlPanelState of
             Fun _ \<Rightarrow> obj_del k state
           | p \<Rightarrow> obj_set k p state)
      | _ \<Rightarrow> state)"

definition mapped_props :: "explore_env \<Rightarrow> control \<Rightarrow> explore_state option \<Rightarrow> control option" where
  "mapped_props e controlState controlPanelState =
     (case (obj_get controlState ''mapStateToProps'', controlPanelState) of
        (Some (Fun f), Some p) \<Rightarrow> Some (call_map e f controlState p)
      | _ \<Rightarrow> None)"

definition applyMapStateToPropsToControl ::
  "explore_env \<Rightarrow> control \<Rightarrow> explore_state option \<Rightarrow> control" where
  "applyMapStateToPropsToControl e controlState controlPanelState =
     (let v0 = cval controlState ''value'';
          (state, v1) = (case mapped_props e controlState controlPanelState of
                           Some ps \<Rightarrow> (let st = obj_spread controlState ps in (st, js_or v0 (cval st ''value'')))
                         | None \<Rightarrow> (controlState, v0));
          s1 = evaluated e controlPanelState ''initialValue'' state;
          (s2, v2) = (if ctruthy s1 ''initialValue'' then (obj_del ''initialValue'' s1, cval s1 ''initialValue'')
                      else (s1, v1));
          s3 = evaluated e controlPanelState ''default'' s2;
          v3 = (if \<not> nullish (cval s3 ''default'') \<and> nullish v2 then cval s3 ''default'' else v2);
          v4 = (if truthy v3 \<and> ctruthy s3 ''multi'' \<and> \<not> is_array v3 then JArr [v3] else v3);
          s4 = obj_set ''value'' (Plain v4) s3
      in execControlValidator e (handleMissingChoice s4) s4)"

text \<open>\<open>controlPanelState?.controls || controlPanelState === null\<close>.\<close>

definition controls_initialized :: "explore_state option \<Rightarrow> bool" where
  "controls_initialized controlPanelState =
     (case controlPanelState of None \<Rightarrow> True | Some p \<Rightarrow> ex_controls p \<noteq> None)"

definition getControlStateFromControlConfig ::
  "explore_env \<Rightarrow> control option \<Rightarrow> explore_state option \<Rightarrow> jsval \<Rightarrow> control option" where
  "getControlStateFromControlConfig e controlConfig controlPanelState value =
     (case controlConfig of
        None \<Rightarrow> None
      | Some c \<Rightarrow>
          (let controlState = obj_set ''value'' (Plain value) c
           in Some (if controls_initialized controlPanelState
                    then applyMapStateToPropsToControl e controlState controlPanelState
                    else controlState)))"

definition getControlState ::
  "explore_env \<Rightarrow> string \<Rightarrow> string \<Rightarrow> explore_state option \<Rightarrow> jsval \<Rightarrow> control option result" where
  "getControlState e controlKey vizType state value =
     rbind (getControlConfig e controlKey vizType)
       (\<lambda>config. Inr (getControlStateFromControlConfig e config state value))"

text \<open>One item of a section: its control is stored under its name.\<close>

definition add_control_state ::
  "explore_env \<Rightarrow> explore_state option \<Rightarrow> jsobj \<Rightarrow> controls \<Rightarrow> control_item \<Rightarrow> controls" where
  "add_control_state e state formData controlsState item =
     (case (case item of
              ConfigItem n c \<Rightarrow> if n = [] then None else Some (n, c)
            | ElementItem n c \<Rightarrow> Some (n, c)
            | _ \<Rightarrow> None) of
        None \<Rightarrow> controlsState
      | Some (n, c) \<Rightarrow>
          (case getControlStateFromControlConfig e (Some c) state (jget formData n) of
             None \<Rightarrow> controlsState
           | Some st \<Rightarrow> obj_set n st controlsState))"

definition getAllControlsState ::
  "explore_env \<Rightarrow> string \<Rightarrow> string \<Rightarrow> explore_state option \<Rightarrow> jsobj \<Rightarrow> controls" where
  "getAllControlsState e vizType datasourceType state formData =
     foldl (add_control_state e state formData) []
       (concat (concat (map section_rows (getSectionsToRender e vizType datasourceType))))"

definition formDataFromControls :: "controls \<Rightarrow> jsobj" where
  "formDataFromControls controlsState =
     foldl (\<lambda>formData (controlName, control). obj_set controlName (cval control ''value'') formData) [] controlsState"

section \<open>The state of all controls\<close>

definition handleDeprecatedControls :: "jsobj \<Rightarrow> jsobj" where
  "handleDeprecatedControls formData =
     (if truthy (jget formData ''y_axis_zero'')
      then obj_set ''y_axis_bounds'' (JArr [JNum 0, JNull]) formData else formData)"

definition viz_type_of :: "explore_state \<Rightarrow> jsobj \<Rightarrow> string" where
  "viz_type_of state formData =
     key_of (js_or (js_or (jget formData ''viz_type'')
                      (chain (chain (jget (ex_rest state) ''common'') ''conf'') ''DEFAULT_VIZ_TYPE''))
               (JStr ''table''))"

definition getControlsState :: "explore_env \<Rightarrow> explore_state \<Rightarrow> jsobj \<Rightarrow> controls result" where
  "getControlsState e state inputFormData =
     (let vizType = viz_type_of state inputFormData;
          formData = handleDeprecatedControls inputFormData
      in rbind (prop_of (jget (ex_rest state) ''datasource'') ''type'') (\<lambda>datasourceType.
           let controlsState = getAllControlsState e vizType (key_of datasourceType) (Some state) formData
           in Inr (case onInit (registered_panel e vizType) of None \<Rightarrow> controlsState | Some f \<Rightarrow> f controlsState)))"

text \<open>\<open>datasource?.split('__')[1] ?? ''\<close>; a value that is no string has no \<open>split\<close>.\<close>

fun split_uid :: "string \<Rightarrow> string list" where
  "split_uid (a # b # s) =
     (if a = CHR ''_'' \<and> b = CHR ''_'' then [] # split_uid s
      else (case split_uid (b # s) of [] \<Rightarrow> [[a]] | p # ps \<Rightarrow> (a # p) # ps))"
| "split_uid s = [s]"

definition datasource_type_of :: "jsval \<Rightarrow> string" where
  "datasource_type_of datasource =
     (case datasource of
        JStr s \<Rightarrow> (case split_uid s of _ # t # _ \<Rightarrow> t | _ \<Rightarrow> [])
      | _ \<Rightarrow> [])"

definition applyDefaultFormData :: "explore_env \<Rightarrow> jsobj \<Rightarrow> jsobj" where
  "applyDefaultFormData e inputFormData =
     (let controlsState =
            getAllControlsState e (key_of (jget inputFormData ''viz_type''))
              (datasource_type_of (jget inputFormData ''datasource'')) None inputFormData;
          controlFormData = formDataFromControls controlsState
      in foldl (\<lambda>formData controlName.
             obj_set controlName
               (if jget inputFormData controlName = JUndef then jget controlFormData controlName
                else jget inputFormData controlName) formData)
           [] (obj_keys controlsState @ obj_keys inputFormData))"

end
