(* ===== verification/ExploreSwitch.thy ===== *)
theory ExploreSwitch
  imports ExploreControls
begin

text \<open>
  What happens to the form data of a chart when its visualization type is switched:
  \<open>explore/controlUtils/standardizedFormData.ts\<close> with the singleton of
  \<open>getStandardizedControls.ts\<close>. The form data of every type that the chart had before are memorized, in an
  ordered map that travels inside the form data.
\<close>

section \<open>Keys\<close>

definition sharedMetricsKey :: "string list" where
  "sharedMetricsKey = [''metric'', ''metrics'', ''metric_2'', ''size'', ''x'', ''y'', ''secondary_metric'']"

definition sharedColumnsKey :: "string list" where
  "sharedColumnsKey =
     [''groupby'', ''columns'', ''groupbyColumns'', ''groupbyRows'', ''entity'', ''series'', ''series_columns'']"

definition publicControls :: "string list" where
  "publicControls =
     [''granularity_sqla'', ''time_grain_sqla'', ''time_range'', ''adhoc_filters'', ''limit'', ''timeseries_limit_metric'',
      ''series_limit_metric'', ''order_desc'', ''row_limit'', ''x_axis'', ''rolling_type'', ''rolling_periods'', ''min_periods'',
      ''time_compare'', ''comparison_type'', ''resample_rule'', ''resample_method'', ''dashboardId'']"

section \<open>Reading the memorized form data\<close>

text \<open>An entry of the map is an array of a visualization type and the form data.\<close>

fun memo_entry :: "jsval \<Rightarrow> (string \<times> jsobj) option" where
  "memo_entry (JArr [JStr vizType, JObj formData]) = Some (vizType, formData)"
| "memo_entry v = None"

definition memo_map :: "jsval list \<Rightarrow> (string, jsobj) obj" where
  "memo_map entries = foldl (\<lambda>m (k, fd). obj_set k fd m) [] (List.map_filter memo_entry entries)"

definition memo_list :: "(string, jsobj) obj \<Rightarrow> jsval list" where
  "memo_list m = map (\<lambda>(vizType, formData). JArr [JStr vizType, JObj formData]) m"

definition memorized_of :: "jsobj \<Rightarrow> jsval" where
  "memorized_of formData = chain (jget formData ''standardizedFormData'') ''memorizedFormData''"

definition controls_of :: "jsobj \<Rightarrow> jsval" where
  "controls_of formData = chain (jget formData ''standardizedFormData'') ''controls''"

definition isStandardizedFormData :: "jsobj \<Rightarrow> bool" where
  "isStandardizedFormData formData \<longleftrightarrow>
     truthy (controls_of formData) \<and> truthy (memorized_of formData) \<and>
     is_array (chain (controls_of formData) ''metrics'') \<and> is_array (chain (controls_of formData) ''columns'')"

definition inherited_controls :: "jsobj \<Rightarrow> std_controls" where
  "inherited_controls formData =
     \<lparr>std_metrics = ensureIsArray (chain (controls_of formData) ''metrics''),
      std_columns = ensureIsArray (chain (controls_of formData) ''columns'')\<rparr>"

definition no_controls :: std_controls where
  "no_controls = \<lparr>std_metrics = [], std_columns = []\<rparr>"

section \<open>Standardized form data\<close>

record std_form_data =
  std :: std_controls
  memorizedFormData :: "(string, jsobj) obj"

definition values_under :: "string list \<Rightarrow> jsobj \<Rightarrow> jsval list" where
  "values_under keys formData = concat (map (\<lambda>(k, v). if k \<in> set keys then ensureIsArray v else []) formData)"

definition getStandardizedControls :: "jsobj \<Rightarrow> std_controls" where
  "getStandardizedControls formData =
     (let inherited = (if isStandardizedFormData formData then inherited_controls formData else no_controls)
      in \<lparr>std_metrics = values_under sharedMetricsKey formData @ std_metrics inherited,
          std_columns = values_under sharedColumnsKey formData @ std_columns inherited\<rparr>)"

text \<open>\<open>mfd.slice(-1)[0][1]?.datasource\<close>.\<close>

definition last_datasource :: "jsval list \<Rightarrow> jsval" where
  "last_datasource mfd = (case memo_entry (last mfd) of Some (_, fd) \<Rightarrow> jget fd ''datasource'' | None \<Rightarrow> JUndef)"

definition standardize :: "jsobj \<Rightarrow> std_form_data" where
  "standardize formData =
     (let vizType = key_of (jget formData ''viz_type'');
          mfd = memorized_of formData
      in if is_array mfd \<and> ensureIsArray mfd \<noteq> [] \<and>
            jget formData ''datasource'' = last_datasource (ensureIsArray mfd)
         then \<lparr>std = getStandardizedControls formData,
               memorizedFormData = obj_set vizType formData (obj_del vizType (memo_map (ensureIsArray mfd)))\<rparr>
         else let restFormData = obj_del ''standardizedFormData'' formData
              in \<lparr>std = getStandardizedControls restFormData, memorizedFormData = [(vizType, restFormData)]\<rparr>)"

definition has :: "std_form_data \<Rightarrow> string \<Rightarrow> bool" where
  "has sfd vizType \<longleftrightarrow> obj_get (memorizedFormData sfd) vizType \<noteq> None"

definition getLatestFormData :: "std_form_data \<Rightarrow> string \<Rightarrow> jsobj" where
  "getLatestFormData sfd vizType =
     (case obj_get (memorizedFormData sfd) vizType of
        Some fd \<Rightarrow> fd
      | None \<Rightarrow> snd (last (memorizedFormData sfd)))"

definition serialize_with :: "std_controls \<Rightarrow> std_form_data \<Rightarrow> jsval" where
  "serialize_with cs sfd =
     JObj [(''controls'', JObj [(''metrics'', JArr (std_metrics cs)), (''columns'', JArr (std_columns cs))]),
           (''memorizedFormData'', JArr (memo_list (memorizedFormData sfd)))]"

definition serialize :: "std_form_data \<Rightarrow> jsval" where
  "serialize sfd = serialize_with (std sfd) sfd"

section \<open>Switching the visualization type\<close>

definition public_form_data :: "jsobj \<Rightarrow> jsobj" where
  "public_form_data formData =
     foldl (\<lambda>acc key. if obj_get formData key \<noteq> None then obj_set key (jget formData key) acc else acc)
       [] publicControls"

text \<open>\<open>setStandardizedControls\<close> of the singleton, which is empty between two switches.\<close>

definition setStandardizedControls :: "jsobj \<Rightarrow> std_controls" where
  "setStandardizedControls formData =
     (if isStandardizedFormData formData then inherited_controls formData else no_controls)"

text \<open>The initial form data of the target type.\<close>

definition target_form_data :: "std_form_data \<Rightarrow> jsobj \<Rightarrow> controls \<Rightarrow> jsobj" where
  "target_form_data sfd publicFormData targetControlsState =
     obj_set ''standardizedFormData'' (serialize sfd)
       (obj_spread (formDataFromControls targetControlsState)
          (obj_when (truthy (jget publicFormData ''dashboardId''))
             [(''dashboardId'', jget publicFormData ''dashboardId'')]))"

definition override_form_data ::
  "(jsobj \<Rightarrow> std_controls \<Rightarrow> jsobj \<times> std_controls) \<Rightarrow> std_form_data \<Rightarrow> jsobj \<Rightarrow> jsobj" where
  "override_form_data f sfd targetFormData =
     (case f targetFormData (setStandardizedControls targetFormData) of
        (fd, left) \<Rightarrow> obj_set ''standardizedFormData'' (serialize_with left sfd) fd)"

definition initial_form_data :: "std_form_data \<Rightarrow> string \<Rightarrow> jsobj \<Rightarrow> jsobj" where
  "initial_form_data sfd targetVizType formData =
     obj_set ''viz_type'' (JStr targetVizType)
       (obj_spread (getLatestFormData sfd targetVizType) (public_form_data formData))"

definition transform ::
  "explore_env \<Rightarrow> std_form_data \<Rightarrow> string \<Rightarrow> explore_state \<Rightarrow> (jsobj \<times> controls) result" where
  "transform e sfd targetVizType exploreState =
     (let publicFormData = public_form_data (ex_form_data exploreState);
          initial = initial_form_data sfd targetVizType (ex_form_data exploreState)
      in rbind (getControlsState e exploreState initial) (\<lambda>targetControlsState.
         let targetFormData = target_form_data sfd publicFormData targetControlsState
         in rbind (case formDataOverrides (registered_panel e targetVizType) of
                     None \<Rightarrow> Inr (targetFormData, targetControlsState)
                   | Some f \<Rightarrow>
                       (let transformed = override_form_data f sfd targetFormData
                        in rbind (getControlsState e exploreState transformed)
                             (\<lambda>controlsState. Inr (transformed, controlsState))))
              (\<lambda>(formData, controlsState).
                 rbind (getControlsState e (exploreState\<lparr>ex_controls := Some controlsState\<rparr>) formData)
                   (\<lambda>refreshed. Inr (formData, refreshed)))))"

end
