(* ===== verification/ExploreReducer.thy ===== *)
theory ExploreReducer
  imports ExploreSwitch
begin

text \<open>
  The reducer of the chart editor (\<open>explore/reducers/exploreReducer.ts\<close>) with
  \<open>getControlValuesCompatibleWithDatasource.ts\<close>, and the small reducers of the save dialog and of
  the datasets. Objects are compared by content, except for the fresh arrays of a changed dataset, which are
  never the control's default. The names of fields hold no dots, so lodash's \<open>pick\<close> and \<open>omit\<close> read them as
  keys.
\<close>

section \<open>Values that a new dataset can keep\<close>

definition some_in :: "jsval \<Rightarrow> (jsval \<Rightarrow> bool) \<Rightarrow> bool result" where
  "some_in v p = (case v of JArr xs \<Rightarrow> Inr (list_ex p xs) | _ \<Rightarrow> Inl TypeError)"

definition option_is :: "jsval \<Rightarrow> jsval \<Rightarrow> bool" where
  "option_is value option =
     (if is_array option then choice_value option = value else chain option ''column_name'' = value)"

definition column_of :: "jsval \<Rightarrow> jsval \<Rightarrow> bool" where
  "column_of value column \<longleftrightarrow>
     chain column ''column_name'' = chain (chain value ''column'') ''column_name'' \<or>
     chain column ''column_name'' = chain value ''subject''"

text \<open>The three checks answer \<open>None\<close> when they do not apply, so that the next one decides.\<close>

definition option_check :: "explore_env \<Rightarrow> jsobj \<Rightarrow> control \<Rightarrow> jsval \<Rightarrow> bool option result" where
  "option_check e datasource controlState value =
     (if ctruthy controlState ''options'' \<and> is_string value
      then rbind (if is_empty e (cval controlState ''options'') then Inr False
                  else some_in (cval controlState ''options'') (option_is value)) (\<lambda>known.
           if known \<or> \<not> is_empty e (jget datasource ''columns'')
           then rbind (some_in (jget datasource ''columns'') (\<lambda>c. chain c ''column_name'' = value)) (\<lambda>b. Inr (Some b))
           else Inr None)
      else Inr None)"

definition metric_check :: "explore_env \<Rightarrow> jsobj \<Rightarrow> control \<Rightarrow> jsval \<Rightarrow> bool option result" where
  "metric_check e datasource controlState value =
     (if ctruthy controlState ''savedMetrics'' \<and> isSavedMetric value
      then rbind (some_in (cval controlState ''savedMetrics'') (\<lambda>m. chain m ''metric_name'' = value)) (\<lambda>known.
           if known \<or> \<not> is_empty e (jget datasource ''metrics'')
           then rbind (some_in (jget datasource ''metrics'') (\<lambda>m. chain m ''metric_name'' = value)) (\<lambda>b. Inr (Some b))
           else Inr None)
      else Inr None)"

definition column_check :: "explore_env \<Rightarrow> jsobj \<Rightarrow> control \<Rightarrow> jsval \<Rightarrow> bool option result" where
  "column_check e datasource controlState value =
     (if \<not> ctruthy controlState ''columns'' then Inr None
      else if nullish value then Inl TypeError
      else if isAdhocMetricSimple value \<or> isSimpleAdhocFilter value
      then rbind (if is_empty e (cval controlState ''columns'') then Inr False
                  else some_in (cval controlState ''columns'') (column_of value)) (\<lambda>known.
           if known \<or> \<not> is_empty e (jget datasource ''columns'')
           then rbind (some_in (jget datasource ''columns'') (column_of value)) (\<lambda>b. Inr (Some b))
           else Inr None)
      else Inr None)"

text \<open>A metric in SQL is kept with a warning that is written into it.\<close>

definition isControlValueCompatibleWithDatasource ::
  "explore_env \<Rightarrow> jsobj \<Rightarrow> control \<Rightarrow> jsval \<Rightarrow> jsval option result" where
  "isControlValueCompatibleWithDatasource e datasource controlState value =
     rbind (option_check e datasource controlState value) (\<lambda>r1. case r1 of
        Some b \<Rightarrow> Inr (if b then Some value else None)
      | None \<Rightarrow> rbind (metric_check e datasource controlState value) (\<lambda>r2. case r2 of
          Some b \<Rightarrow> Inr (if b then Some value else None)
        | None \<Rightarrow> rbind (column_check e datasource controlState value) (\<lambda>r3. case r3 of
            Some b \<Rightarrow> Inr (if b then Some value else None)
          | None \<Rightarrow> Inr (if isAdhocMetricSQL value
                         then Some (JObj (obj_set ''datasourceWarning'' (JBool True) (entries_of value)))
                         else None))))"

text \<open>The value, and whether it is the very value of the control's default.\<close>

definition getControlValuesCompatibleWithDatasource ::
  "explore_env \<Rightarrow> jsobj \<Rightarrow> control \<Rightarrow> jsval \<Rightarrow> (jsval \<times> bool) result" where
  "getControlValuesCompatibleWithDatasource e datasource controlState value =
     (let dflt = cval controlState ''default''
      in case value of
           JArr vs \<Rightarrow>
             rbind (rmap (isControlValueCompatibleWithDatasource e datasource controlState) vs) (\<lambda>kept.
               let compatibleValues = List.map_filter id kept
               in Inr (if compatibleValues \<noteq> [] then (JArr compatibleValues, False) else (dflt, True)))
         | _ \<Rightarrow>
             if nullish value then Inr (JUndef, dflt = JUndef)
             else rbind (isControlValueCompatibleWithDatasource e datasource controlState value) (\<lambda>kept.
                    Inr (case kept of Some v \<Rightarrow> (v, v = dflt) | None \<Rightarrow> (dflt, True))))"

section \<open>Changing the dataset\<close>

definition depends_on_dataset :: "control \<Rightarrow> bool" where
  "depends_on_dataset controlState \<longleftrightarrow>
     cval controlState ''valueKey'' = JStr ''column_name'' \<or>
     obj_get controlState ''savedMetrics'' \<noteq> None \<or> obj_get controlState ''columns'' \<noteq> None \<or>
     (obj_get controlState ''options'' \<noteq> None \<and> \<not> is_array (cval controlState ''options''))"

definition transfer_control ::
  "explore_env \<Rightarrow> jsobj \<Rightarrow> jsobj \<times> string list \<Rightarrow> string \<times> control \<Rightarrow> (jsobj \<times> string list) result" where
  "transfer_control e newDatasource acc entry =
     (case (acc, entry) of ((newFormData, controlsTransferred), (controlName, controlState)) \<Rightarrow>
        if depends_on_dataset controlState
        then rbind (getControlValuesCompatibleWithDatasource e newDatasource controlState (cval controlState ''value''))
               (\<lambda>(v, is_default).
                  Inr (obj_set controlName v newFormData,
                       if ensureIsArray v \<noteq> [] \<and> \<not> is_default then controlsTransferred @ [controlName]
                       else controlsTransferred))
        else Inr acc)"

definition update_by_datasource ::
  "explore_env \<Rightarrow> jsobj \<Rightarrow> jsobj \<Rightarrow> explore_state \<Rightarrow> explore_state result" where
  "update_by_datasource e prevDatasource newDatasource state =
     (let start = (if jget prevDatasource ''id'' \<noteq> jget newDatasource ''id'' \<or>
                      jget prevDatasource ''type'' \<noteq> jget newDatasource ''type''
                   then obj_set ''datasource'' (jget newDatasource ''uid'') (ex_form_data state)
                   else ex_form_data state);
          cs = (case ex_controls state of None \<Rightarrow> [] | Some cs \<Rightarrow> cs)
      in rbind (rfold (transfer_control e newDatasource) (start, []) cs) (\<lambda>(newFormData, controlsTransferred).
         let newState = state\<lparr>ex_controls := Some cs,
                              ex_rest := obj_set ''datasource'' (JObj newDatasource) (ex_rest state)\<rparr>
         in rbind (getControlsState e newState newFormData) (\<lambda>controlsState.
              Inr (newState\<lparr>ex_form_data := newFormData, ex_controls := Some controlsState,
                            ex_rest := obj_set ''controlsTransferred'' (JArr (map JStr controlsTransferred))
                                         (ex_rest newState)\<rparr>))))"

section \<open>Setting the value of a control\<close>

text \<open>A metric at whose place another label stood takes over the configuration of that column.\<close>

definition rename_column ::
  "jsval \<Rightarrow> jsobj \<times> nat \<Rightarrow> jsval \<Rightarrow> (jsobj \<times> nat) result" where
  "rename_column old_metrics_data acc item =
     (case acc of (new_column_config, index) \<Rightarrow>
        rbind (some_in old_metrics_data (\<lambda>oldItem. chain oldItem ''label'' = chain item ''label'')) (\<lambda>itemExist.
          let oldLabel = (case js_nth (ensureIsArray old_metrics_data) (int index) of
                            Some oldItem \<Rightarrow> chain oldItem ''label'' | None \<Rightarrow> JUndef)
          in if \<not> itemExist \<and> chain item ''label'' \<noteq> oldLabel \<and> truthy oldLabel \<and>
                truthy (jget new_column_config (key_of oldLabel))
             then rbind (prop_of item ''label'') (\<lambda>label.
                    Inr (obj_del (key_of oldLabel)
                           (obj_set (key_of label) (jget new_column_config (key_of oldLabel)) new_column_config),
                         Suc index))
             else Inr (new_column_config, Suc index)))"

definition rename_columns :: "jsval \<Rightarrow> jsval \<Rightarrow> jsobj \<Rightarrow> jsobj result" where
  "rename_columns old_metrics_data value new_column_config =
     (case value of
        JArr items \<Rightarrow>
          rbind (rfold (rename_column old_metrics_data) (new_column_config, 0) items) (\<lambda>(config, _). Inr config)
      | _ \<Rightarrow> Inl TypeError)"

text \<open>\<open>new_column_config\<close>, after the metrics have been renamed when they are what changes.\<close>

definition column_config_for :: "string \<Rightarrow> jsval \<Rightarrow> jsobj \<Rightarrow> jsobj option result" where
  "column_config_for controlName value formData =
     (if truthy (jget formData ''column_config'')
      then let config = entries_of (jget formData ''column_config'')
           in if controlName = ''metrics'' \<and> truthy (jget formData ''metrics'')
              then rbind (rename_columns (jget formData ''metrics'') value config) (\<lambda>c. Inr (Some c))
              else Inr (Some config)
      else Inr None)"

definition control_config_for :: "explore_env \<Rightarrow> controls \<Rightarrow> string \<Rightarrow> string \<Rightarrow> control option result" where
  "control_config_for e cs controlName vizType =
     (case obj_get cs controlName of
        Some c \<Rightarrow> Inr (Some c)
      | None \<Rightarrow> getControlConfig e controlName vizType)"

definition rerender_names :: "control \<Rightarrow> string list" where
  "rerender_names control = (case cval control ''rerender'' of JArr ns \<Rightarrow> map key_of ns | _ \<Rightarrow> [])"

text \<open>\<open>{...getControlStateFromControlConfig(..)}\<close>: nothing to spread gives an empty control.\<close>

definition spread_control :: "control option \<Rightarrow> control" where
  "spread_control c = (case c of None \<Rightarrow> [] | Some c \<Rightarrow> c)"

definition rerendered :: "explore_env \<Rightarrow> explore_state \<Rightarrow> controls \<Rightarrow> string list \<Rightarrow> controls" where
  "rerendered e newState cs names =
     foldl (\<lambda>acc n. obj_set n
              (spread_control (getControlStateFromControlConfig e (obj_get cs n) (Some newState)
                 (case obj_get cs n of Some c \<Rightarrow> cval c ''value'' | None \<Rightarrow> JUndef))) acc)
       [] names"

definition add_errors :: "jsval list \<Rightarrow> jsval list \<Rightarrow> jsval list" where
  "add_errors errors found = foldl (\<lambda>es err. if err \<in> set es then es else es @ [err]) errors found"

definition validated_with :: "string \<Rightarrow> control \<Rightarrow> bool" where
  "validated_with controlName item =
     (case cval item ''validationDependencies'' of JArr ns \<Rightarrow> JStr controlName \<in> set ns | _ \<Rightarrow> False)"

definition revalidated :: "explore_env \<Rightarrow> explore_state \<Rightarrow> string \<Rightarrow> controls \<Rightarrow> controls" where
  "revalidated e overWrittenState controlName cs =
     foldl (\<lambda>acc (key, item). obj_set key
              (spread_control (getControlStateFromControlConfig e (Some item) (Some overWrittenState)
                 (cval item ''value''))) acc)
       [] (filter (\<lambda>(key, item). validated_with controlName item) cs)"

definition is_viz_switch :: "controls \<Rightarrow> string \<Rightarrow> jsval \<Rightarrow> bool" where
  "is_viz_switch cs controlName value \<longleftrightarrow>
     controlName = ''viz_type'' \<and>
     value \<noteq> (case obj_get cs ''viz_type'' of Some c \<Rightarrow> cval c ''value'' | None \<Rightarrow> JUndef)"

definition switched ::
  "explore_env \<Rightarrow> explore_state \<Rightarrow> controls \<Rightarrow> string \<Rightarrow> jsval \<Rightarrow> jsobj \<Rightarrow> (jsobj \<times> controls) result" where
  "switched e state cs controlName value new_form_data =
     (if is_viz_switch cs controlName value
      then transform e (standardize (ex_form_data state)) (key_of value) state
      else Inr (new_form_data, cs))"

text \<open>The controls that the configuration of other controls is computed from.\<close>

definition controls_with ::
  "controls \<Rightarrow> string \<Rightarrow> control option \<Rightarrow> control \<Rightarrow> jsobj option \<Rightarrow> controls" where
  "controls_with cs controlName controlConfig control new_column_config =
     (let column_config = obj_spread (spread_control (obj_get cs ''column_config''))
                            (case new_column_config of Some c \<Rightarrow> [(''value'', Plain (JObj c))] | None \<Rightarrow> [])
      in obj_spread (obj_spread cs (obj_when (controlConfig \<noteq> None) [(controlName, control)]))
           (obj_when (controlName = ''metrics'') [(''column_config'', column_config)]))"

definition set_field_value ::
  "explore_env \<Rightarrow> string \<Rightarrow> jsval \<Rightarrow> jsval list \<Rightarrow> explore_state \<Rightarrow> explore_state result" where
  "set_field_value e controlName value validationErrors state =
     rbind (column_config_for controlName value (ex_form_data state)) (\<lambda>new_column_config.
     rbind (or_throw TypeError (ex_controls state)) (\<lambda>cs.
     let fd1 = obj_set controlName value (ex_form_data state);
         fd2 = (case new_column_config of
                  Some c \<Rightarrow> if controlName = ''metrics'' \<and> truthy (jget (ex_form_data state) ''metrics'')
                            then obj_set ''column_config'' (JObj c) fd1 else fd1
                | None \<Rightarrow> fd1)
     in rbind (control_config_for e cs controlName (key_of (jget fd2 ''viz_type''))) (\<lambda>controlConfig.
        let control = spread_control (getControlStateFromControlConfig e controlConfig (Some state) value);
            newControls = controls_with cs controlName controlConfig control new_column_config;
            rerenderedControls = rerendered e (state\<lparr>ex_controls := Some newControls\<rparr>) newControls
                                   (rerender_names control);
            errors = add_errors (ensureIsArray (cval control ''validationErrors'')) validationErrors;
            updatedControlStates = revalidated e
              (state\<lparr>ex_form_data := obj_set controlName value (ex_form_data state)\<rparr>) controlName cs
        in rbind (switched e state cs controlName value fd2) (\<lambda>(new_form_data, currentControlsState).
           Inr (state\<lparr>ex_form_data := new_form_data,
                      ex_controls := Some (obj_spread (obj_spread (obj_spread currentControlsState
                        (obj_when (controlConfig \<noteq> None)
                           [(controlName, obj_set ''validationErrors'' (Plain (JArr errors)) control)]))
                        rerenderedControls) updatedControlStates),
                      ex_rest := obj_set ''triggerRender''
                        (if ctruthy control ''renderTrigger'' then JBool (errors = []) else cval control ''renderTrigger'')
                        (ex_rest state)\<rparr>)))))"

section \<open>Hiding and showing fields\<close>

definition pick :: "jsobj \<Rightarrow> string list \<Rightarrow> jsobj" where
  "pick ob ks = foldl (\<lambda>acc k. case obj_get ob k of Some v \<Rightarrow> obj_set k v acc | None \<Rightarrow> acc) [] ks"

definition omit :: "jsobj \<Rightarrow> string list \<Rightarrow> jsobj" where
  "omit ob ks = filter (\<lambda>(k, v). k \<notin> set ks) ob"

definition hidden_form_data :: "explore_state \<Rightarrow> jsobj" where
  "hidden_form_data state = entries_of (jget (ex_rest state) ''hiddenFormData'')"

definition set_stash :: "string list \<Rightarrow> bool \<Rightarrow> explore_state \<Rightarrow> explore_state" where
  "set_stash fieldNames isHidden state =
     (if isHidden
      then state\<lparr>ex_rest := obj_set ''hiddenFormData''
                   (JObj (obj_spread (hidden_form_data state) (pick (ex_form_data state) fieldNames))) (ex_rest state),
                 ex_form_data := omit (ex_form_data state) fieldNames\<rparr>
      else let restoredField = pick (hidden_form_data state) fieldNames
           in if restoredField = [] then state
              else state\<lparr>ex_form_data := obj_spread (ex_form_data state) restoredField,
                         ex_rest := obj_set ''hiddenFormData'' (JObj (omit (hidden_form_data state) fieldNames))
                                      (ex_rest state)\<rparr>)"

section \<open>The saved chart\<close>

definition getOwnerId :: "jsval \<Rightarrow> jsval" where
  "getOwnerId owner = (case owner of JNum _ \<Rightarrow> owner | _ \<Rightarrow> chain owner ''value'')"

definition getOwnerLabel :: "jsval \<Rightarrow> jsval" where
  "getOwnerLabel owner = (case owner of JNum _ \<Rightarrow> JNull | _ \<Rightarrow> chain owner ''label'')"

definition slice_updated :: "jsobj \<Rightarrow> explore_state \<Rightarrow> explore_state" where
  "slice_updated slice state =
     (let rest = ex_rest state;
          owners = jget slice ''owners''
      in state\<lparr>ex_rest :=
           obj_set ''metadata''
             (JObj (obj_set ''owners''
                (if truthy owners then JArr (filter (\<lambda>x. x \<noteq> JNull) (map getOwnerLabel (ensureIsArray owners))) else JNull)
                (entries_of (jget rest ''metadata''))))
             (obj_set ''sliceName'' (js_coalesce (jget slice ''slice_name'') (jget rest ''sliceName''))
               (obj_set ''slice''
                 (JObj (obj_set ''owners'' (if truthy owners then JArr (map getOwnerId (ensureIsArray owners)) else JNull)
                    (obj_spread (entries_of (jget rest ''slice'')) slice))) rest))\<rparr>)"

section \<open>The reducer\<close>

datatype explore_action =
    DYNAMIC_PLUGIN_CONTROLS_READY controls
  | TOGGLE_FAVE_STAR jsval
  | POST_DATASOURCE_STARTED
  | START_METADATA_LOADING
  | STOP_METADATA_LOADING
  | SYNC_DATASOURCE_METADATA jsobj
  | UPDATE_FORM_DATA_BY_DATASOURCE jsobj jsobj
  | FETCH_DATASOURCES_STARTED
  | SET_FIELD_VALUE string jsval "jsval list"
  | SET_EXPLORE_CONTROLS jsobj
  | SET_FORM_DATA jsobj
  | UPDATE_CHART_TITLE jsval
  | SET_SAVE_ACTION jsval
  | CREATE_NEW_SLICE jsobj jsobj jsval jsval jsval
  | SET_STASH_FORM_DATA "string list" bool
  | SLICE_UPDATED jsobj
  | SET_FORCE_QUERY jsval
  | UPDATE_EXPLORE_CHART_STATE int jsobj jsval
  | HYDRATE_EXPLORE explore_state
  | OTHER_EXPLORE_ACTION

definition put_rest :: "string \<Rightarrow> jsval \<Rightarrow> explore_state \<Rightarrow> explore_state" where
  "put_rest k v state = state\<lparr>ex_rest := obj_set k v (ex_rest state)\<rparr>"

definition with_controls :: "explore_state \<Rightarrow> controls result \<Rightarrow> (explore_state \<Rightarrow> explore_state) \<Rightarrow> explore_state result" where
  "with_controls state cs f = rbind cs (\<lambda>cs. Inr (f (state\<lparr>ex_controls := Some cs\<rparr>)))"

definition default_explore_state :: explore_state where
  "default_explore_state = \<lparr>ex_controls = Some [], ex_form_data = [], ex_rest = []\<rparr>"

fun exploreReducer :: "explore_env \<Rightarrow> explore_action \<Rightarrow> explore_state \<Rightarrow> explore_state result" where
  "exploreReducer e (DYNAMIC_PLUGIN_CONTROLS_READY controlsState) state = Inr (state\<lparr>ex_controls := Some controlsState\<rparr>)"
| "exploreReducer e (TOGGLE_FAVE_STAR isStarred) state = Inr (put_rest ''isStarred'' isStarred state)"
| "exploreReducer e POST_DATASOURCE_STARTED state = Inr (put_rest ''isDatasourceMetaLoading'' (JBool True) state)"
| "exploreReducer e START_METADATA_LOADING state = Inr (put_rest ''isDatasourceMetaLoading'' (JBool True) state)"
| "exploreReducer e STOP_METADATA_LOADING state = Inr (put_rest ''isDatasourceMetaLoading'' (JBool False) state)"
| "exploreReducer e (SYNC_DATASOURCE_METADATA datasource) state = Inr (put_rest ''datasource'' (JObj datasource) state)"
| "exploreReducer e (UPDATE_FORM_DATA_BY_DATASOURCE prev new) state = update_by_datasource e prev new state"
| "exploreReducer e FETCH_DATASOURCES_STARTED state = Inr (put_rest ''isDatasourcesLoading'' (JBool True) state)"
| "exploreReducer e (SET_FIELD_VALUE controlName value validationErrors) state =
     set_field_value e controlName value validationErrors state"
| "exploreReducer e (SET_EXPLORE_CONTROLS formData) state =
     with_controls state (getControlsState e state formData) (\<lambda>s. s)"
| "exploreReducer e (SET_FORM_DATA formData) state = Inr (state\<lparr>ex_form_data := formData\<rparr>)"
| "exploreReducer e (UPDATE_CHART_TITLE sliceName) state = Inr (put_rest ''sliceName'' sliceName state)"
| "exploreReducer e (SET_SAVE_ACTION saveAction) state = Inr (put_rest ''saveAction'' saveAction state)"
| "exploreReducer e (CREATE_NEW_SLICE slice form_data can_add can_download can_overwrite) state =
     with_controls state (getControlsState e state form_data)
       (\<lambda>s. put_rest ''can_overwrite'' can_overwrite (put_rest ''can_download'' can_download
              (put_rest ''can_add'' can_add (put_rest ''slice'' (JObj slice) s))))"
| "exploreReducer e (SET_STASH_FORM_DATA fieldNames isHidden) state = Inr (set_stash fieldNames isHidden state)"
| "exploreReducer e (SLICE_UPDATED slice) state = Inr (slice_updated slice state)"
| "exploreReducer e (SET_FORCE_QUERY force) state = Inr (put_rest ''force'' force state)"
| "exploreReducer e (UPDATE_EXPLORE_CHART_STATE chartId chartState lastModified) state =
     Inr (put_rest ''chartStates''
            (JObj (obj_set (int_string chartId)
               (JObj [(''chartId'', JNum chartId), (''state'', JObj chartState), (''lastModified'', lastModified)])
               (entries_of (jget (ex_rest state) ''chartStates'')))) state)"
| "exploreReducer e (HYDRATE_EXPLORE explore) state = Inr explore"
| "exploreReducer e OTHER_EXPLORE_ACTION state = Inr state"

text \<open>What is dispatched to the editor, one action after the other.\<close>

definition explore_run :: "explore_env \<Rightarrow> explore_action list \<Rightarrow> explore_state \<Rightarrow> explore_state result" where
  "explore_run e as s = rfold (\<lambda>s a. exploreReducer e a s) s as"

section \<open>The save dialog and the datasets\<close>

datatype save_modal_action =
    SET_SAVE_CHART_MODAL_VISIBILITY jsval
  | FETCH_DASHBOARDS_SUCCEEDED jsval
  | FETCH_DASHBOARDS_FAILED jsval
  | SAVE_SLICE_FAILED
  | SAVE_SLICE_SUCCESS jsval
  | HYDRATE_SAVE_MODAL jsval
  | OTHER_SAVE_MODAL_ACTION

fun saveModalReducer :: "save_modal_action \<Rightarrow> jsobj \<Rightarrow> jsobj" where
  "saveModalReducer (SET_SAVE_CHART_MODAL_VISIBILITY isVisible) state = obj_set ''isVisible'' isVisible state"
| "saveModalReducer (FETCH_DASHBOARDS_SUCCEEDED choices) state = obj_set ''dashboards'' choices state"
| "saveModalReducer (FETCH_DASHBOARDS_FAILED userId) state =
     obj_set ''saveModalAlert'' (JStr (''fetching dashboards failed for '' @ key_of userId)) state"
| "saveModalReducer SAVE_SLICE_FAILED state = obj_set ''saveModalAlert'' (JStr ''Failed to save slice'') state"
| "saveModalReducer (SAVE_SLICE_SUCCESS data) state = obj_set ''data'' data state"
| "saveModalReducer (HYDRATE_SAVE_MODAL payload) state = entries_of (chain payload ''saveModal'')"
| "saveModalReducer OTHER_SAVE_MODAL_ACTION state = state"

definition getDatasourceUid :: "jsobj \<Rightarrow> string" where
  "getDatasourceUid datasource =
     key_of (js_coalesce (jget datasource ''uid'')
       (JStr (key_of (js_coalesce (jget datasource ''id'') (JStr ''None'')) @ ''__'' @ key_of (jget datasource ''type''))))"

datatype datasources_action =
    SET_DATASOURCE jsobj
  | HYDRATE_DATASOURCES jsobj
  | OTHER_DATASOURCES_ACTION

fun datasourcesReducer :: "datasources_action \<Rightarrow> jsobj option \<Rightarrow> jsobj" where
  "datasourcesReducer (SET_DATASOURCE datasource) datasources =
     obj_set (getDatasourceUid datasource) (JObj datasource) (case datasources of Some d \<Rightarrow> d | None \<Rightarrow> [])"
| "datasourcesReducer (HYDRATE_DATASOURCES data) datasources = data"
| "datasourcesReducer OTHER_DATASOURCES_ACTION datasources = (case datasources of Some d \<Rightarrow> d | None \<Rightarrow> [])"

end
