(* ===== verification/ExploreHistory.thy ===== *)
theory ExploreHistory
  imports ExploreReducer
begin

text \<open>
  Switching the visualization type of a chart there and back: what the memorized form data keep, which form data
  the controls are computed from again, and how the history grows.
\<close>

section \<open>The map of memorized form data\<close>

lemma memo_entries: "List.map_filter memo_entry (memo_list m) = m"
  by (induction m) (auto simp: memo_list_def map_filter_simps)

lemma foldl_obj_set_append:
  assumes "distinct (map fst (a @ m))"
  shows "foldl (\<lambda>m (k, fd). obj_set k fd m) a m = a @ m"
  using assms
proof (induction m arbitrary: a)
  case Nil
  then show ?case by simp
next
  case (Cons p m)
  obtain k v where p: "p = (k, v)" by (cases p)
  have "k \<notin> fst ` set a" using Cons.prems p by auto
  then have "obj_set k v a = a @ [(k, v)]"
    by (induction a) auto
  then show ?case using Cons.IH [of "a @ [(k, v)]"] Cons.prems p by simp
qed

lemma memo_map_list: "obj_ok m \<Longrightarrow> memo_map (memo_list m) = m"
  using foldl_obj_set_append [of "[]" m] by (simp add: memo_map_def memo_entries obj_ok_def)

lemma obj_ok_memo_map: "obj_ok (memo_map entries)"
  unfolding memo_map_def by (rule foldl_inv [where P = obj_ok]) auto

lemma obj_set_del_last: "obj_set k v (obj_del k m) = obj_del k m @ [(k, v)]"
  by (induction m) (auto simp: obj_del_def)

lemma memorized_ok: "obj_ok (memorizedFormData (standardize formData))"
proof -
  have "obj_ok (obj_set k v (obj_del k (memo_map es)))" for k es and v :: jsobj
    by (simp add: obj_ok_memo_map)
  then show ?thesis unfolding standardize_def by (simp add: Let_def obj_ok_def)
qed

text \<open>The current form data are the last ones of the history, with or without their own history.\<close>

definition remembered :: "jsobj \<Rightarrow> jsobj" where
  "remembered formData = snd (last (memorizedFormData (standardize formData)))"

lemma memorized_last:
  "memorizedFormData (standardize formData) \<noteq> [] \<and>
   last (memorizedFormData (standardize formData)) = (key_of (jget formData ''viz_type''), remembered formData)"
  unfolding remembered_def standardize_def by (auto simp: Let_def obj_set_del_last)

lemma remembered_get:
  "k \<noteq> ''standardizedFormData'' \<Longrightarrow> jget (remembered formData) k = jget formData k"
  unfolding remembered_def standardize_def by (simp add: Let_def obj_set_del_last jget_obj_del)

lemma memorized_current:
  "obj_get (memorizedFormData (standardize formData)) (key_of (jget formData ''viz_type'')) = Some (remembered formData)"
  using memorized_last [of formData] memorized_ok [of formData]
  by (metis last_in_set map_of_eq_Some_iff obj_ok_def)

lemma last_datasource_memo:
  "m \<noteq> [] \<Longrightarrow> last m = (k, fd) \<Longrightarrow> last_datasource (memo_list m) = jget fd ''datasource''"
  by (simp add: last_datasource_def memo_list_def last_map)

section \<open>The form data after a switch\<close>

lemma memorized_of_serialized [simp]:
  "memorized_of (obj_set ''standardizedFormData'' (serialize_with left sfd) fd) = JArr (memo_list (memorizedFormData sfd))"
  by (simp add: memorized_of_def serialize_with_def jget_def)

lemma memorized_of_override: "memorized_of (override_form_data f sfd fd) = JArr (memo_list (memorizedFormData sfd))"
  by (simp add: override_form_data_def split: prod.splits)

text \<open>Where the form data of a switch come from, and the controls they are shown with.\<close>

lemma transform_cases:
  assumes "transform e sfd v st = Inr (fd', cs)"
  obtains (initial) c0 where
      "getControlsState e st (initial_form_data sfd v (ex_form_data st)) = Inr c0"
      "fd' = target_form_data sfd (public_form_data (ex_form_data st)) c0"
      "formDataOverrides (registered_panel e v) = None"
      "getControlsState e (st\<lparr>ex_controls := Some c0\<rparr>) fd' = Inr cs"
    | (overridden) f fd0 c1 where
      "formDataOverrides (registered_panel e v) = Some f"
      "fd' = override_form_data f sfd fd0"
      "getControlsState e (st\<lparr>ex_controls := Some c1\<rparr>) fd' = Inr cs"
proof -
  let ?pub = "public_form_data (ex_form_data st)"
  from assms obtain c0 where c0: "getControlsState e st (initial_form_data sfd v (ex_form_data st)) = Inr c0"
    by (auto simp: transform_def Let_def rbind_eq_Inr)
  show thesis
  proof (cases "formDataOverrides (registered_panel e v)")
    case None
    from assms have "fd' = target_form_data sfd ?pub c0 \<and> getControlsState e (st\<lparr>ex_controls := Some c0\<rparr>) fd' = Inr cs"
      by (auto simp: transform_def Let_def rbind_eq_Inr c0 None)
    then show thesis by (elim conjE) (rule initial [OF c0 _ None])
  next
    case (Some f)
    let ?fd = "override_form_data f sfd (target_form_data sfd ?pub c0)"
    from assms obtain c1 where "getControlsState e st ?fd = Inr c1"
      by (auto simp: transform_def Let_def rbind_eq_Inr c0 Some)
    with assms have "fd' = ?fd" "getControlsState e (st\<lparr>ex_controls := Some c1\<rparr>) fd' = Inr cs"
      by (auto simp: transform_def Let_def rbind_eq_Inr c0 Some)
    then show thesis using overridden [OF Some] by simp
  qed
qed

lemma transform_history:
  assumes "transform e sfd v st = Inr (fd', cs)"
  shows "memorized_of fd' = JArr (memo_list (memorizedFormData sfd))"
  using assms
proof (cases rule: transform_cases)
  case initial
  then show ?thesis by (simp add: target_form_data_def serialize_def)
next
  case overridden
  then show ?thesis by (simp add: memorized_of_override)
qed

lemma standardize_after_switch:
  assumes "transform e (standardize fd) v st = Inr (fd', cs)"
    and "jget fd' ''datasource'' = jget fd ''datasource''"
  shows "memorizedFormData (standardize fd') =
    obj_set (key_of (jget fd' ''viz_type'')) fd'
      (obj_del (key_of (jget fd' ''viz_type'')) (memorizedFormData (standardize fd)))"
proof -
  let ?m = "memorizedFormData (standardize fd)"
  note m = memorized_last [of fd]
  have d: "last_datasource (memo_list ?m) = jget fd ''datasource''"
    using last_datasource_memo [of ?m] m remembered_get [of "''datasource''" fd] by simp
  have ne: "memo_list ?m \<noteq> []" using m by (simp add: memo_list_def)
  show ?thesis
    unfolding standardize_def [of fd'] transform_history [OF assms(1)]
    by (simp add: Let_def is_array_def ne d assms(2) memo_map_list memorized_ok)
qed

lemma remembered_after_switch:
  assumes "transform e (standardize fd) v st = Inr (fd', cs)"
    and "jget fd' ''datasource'' = jget fd ''datasource''"
  shows "remembered fd' = fd'"
  using standardize_after_switch [OF assms] by (simp add: remembered_def obj_set_del_last)

lemma memorized_after_switch:
  assumes "transform e (standardize fd) v st = Inr (fd', cs)"
    and "jget fd' ''datasource'' = jget fd ''datasource''"
  shows "obj_get (memorizedFormData (standardize fd')) k =
    (if k = key_of (jget fd' ''viz_type'') then Some fd' else obj_get (memorizedFormData (standardize fd)) k)"
  by (simp add: standardize_after_switch [OF assms])

section \<open>The form data the controls are computed from\<close>

lemma foldl_pick:
  "obj_get (foldl (\<lambda>acc key. if P key then obj_set key (f key) acc else acc) acc keys) k =
     (if k \<in> set keys \<and> P k then Some (f k) else obj_get acc k)"
  by (induction keys arbitrary: acc) auto

lemma public_form_data_get:
  "obj_get (public_form_data fd) k =
     (if k \<in> set publicControls \<and> obj_get fd k \<noteq> None then Some (jget fd k) else None)"
  unfolding public_form_data_def foldl_pick by simp

lemma public_form_data_ok: "obj_ok (public_form_data fd)"
  unfolding public_form_data_def by (rule foldl_inv [where P = obj_ok]) auto

lemma initial_form_data_get:
  "jget (initial_form_data sfd v fd) k =
     (if k = ''viz_type'' then JStr v
      else if k \<in> set publicControls \<and> obj_get fd k \<noteq> None then jget fd k
      else jget (getLatestFormData sfd v) k)"
  by (simp add: initial_form_data_def jget_spread_ok public_form_data_ok public_form_data_get)
    (auto simp: jget_def public_form_data_get)

section \<open>Switching as the reducer does it\<close>

text \<open>The state shows a chart of a type over a dataset.\<close>

definition shows_type :: "explore_state \<Rightarrow> string \<Rightarrow> jsval \<Rightarrow> bool" where
  "shows_type s v d \<longleftrightarrow>
     jget (ex_form_data s) ''viz_type'' = JStr v \<and> jget (ex_form_data s) ''datasource'' = d \<and>
     (case ex_controls s of
        None \<Rightarrow> False
      | Some cs \<Rightarrow> (case obj_get cs ''viz_type'' of Some c \<Rightarrow> cval c ''value'' = JStr v | None \<Rightarrow> False))"

lemma reducer_switches:
  assumes "exploreReducer e (SET_FIELD_VALUE ''viz_type'' (JStr w) errs) s = Inr s'"
    and "shows_type s v d" "w \<noteq> v"
  shows "\<exists>cs. transform e (standardize (ex_form_data s)) w s = Inr (ex_form_data s', cs)"
proof -
  from assms(2) obtain cs c where cs: "ex_controls s = Some cs" "obj_get cs ''viz_type'' = Some c" "cval c ''value'' = JStr v"
    by (auto simp: shows_type_def split: option.splits)
  have sw: "is_viz_switch cs ''viz_type'' (JStr w)"
    using cs assms(3) by (simp add: is_viz_switch_def)
  show ?thesis
    using assms(1) cs
    by (auto simp: set_field_value_def rbind_eq_Inr Let_def switched_def sw)
qed

section \<open>The size of form data\<close>

fun jsize :: "jsval \<Rightarrow> nat" and jsizes :: "jsval list \<Rightarrow> nat" and fields_size :: "jsobj \<Rightarrow> nat" where
  "jsize (JArr xs) = Suc (jsizes xs)"
| "jsize (JObj ob) = Suc (fields_size ob)"
| "jsize v = 1"
| "jsizes [] = 0"
| "jsizes (x # xs) = jsize x + jsizes xs"
| "fields_size [] = 0"
| "fields_size ((k, v) # ob) = jsize v + fields_size ob"

lemma jsize_field: "obj_get ob k = Some v \<Longrightarrow> jsize v \<le> fields_size ob"
  by (induction ob) (auto split: if_splits)

lemma chain_size: "chain v k \<noteq> JUndef \<Longrightarrow> jsize (chain v k) \<le> jsize v"
  by (cases v) (auto simp: jget_def dest!: jsize_field split: option.splits)

lemma memorized_size: "memorized_of fd = JArr xs \<Longrightarrow> jsizes xs < jsize (JObj fd)"
proof -
  assume a: "memorized_of fd = JArr xs"
  then have "jsize (JArr xs) \<le> jsize (jget fd ''standardizedFormData'')"
    using chain_size [of "jget fd ''standardizedFormData''" "''memorizedFormData''"] by (simp add: memorized_of_def)
  moreover have "jget fd ''standardizedFormData'' \<noteq> JUndef"
    using a by (auto simp: memorized_of_def)
  then have "jsize (jget fd ''standardizedFormData'') \<le> fields_size fd"
    by (auto simp: jget_def jsize_field split: option.splits)
  ultimately show ?thesis by simp
qed

lemma jsizes_memo: "jsizes (memo_list m) = sum_list (map (\<lambda>(k, fd). Suc (Suc (fields_size fd) + 1)) m)"
  by (induction m) (auto simp: memo_list_def)

lemma two_entries_size:
  assumes "obj_get m k = Some a" "obj_get m l = Some b" "k \<noteq> l"
  shows "jsize (JObj a) + jsize (JObj b) \<le> jsizes (memo_list m)"
  using assms
proof (induction m)
  case Nil
  then show ?case by simp
next
  case (Cons p m)
  obtain i x where p: "p = (i, x)" by (cases p)
  have one: "obj_get m k = Some a \<Longrightarrow> jsize (JObj a) \<le> jsizes (memo_list m)" for k a and m :: "(string, jsobj) obj"
    by (induction m) (auto simp: jsizes_memo split: if_splits)
  from Cons one [of m k a] one [of m l b] show ?case
    by (auto simp: jsizes_memo p split: if_splits)
qed

text \<open>The Fibonacci numbers.\<close>

fun fib :: "nat \<Rightarrow> nat" where
  "fib 0 = 0"
| "fib (Suc 0) = 1"
| "fib (Suc (Suc n)) = fib (Suc n) + fib n"

lemma switch_size:
  assumes "transform e (standardize fd0) v st = Inr (fd1, cs)"
    and "transform e (standardize fd1) w st' = Inr (fd2, cs')"
    and "jget fd1 ''datasource'' = jget fd0 ''datasource''"
    and "key_of (jget fd0 ''viz_type'') \<noteq> key_of (jget fd1 ''viz_type'')"
  shows "jsize (JObj fd1) + jsize (JObj (remembered fd0)) \<le> jsize (JObj fd2)"
proof -
  let ?m = "memorizedFormData (standardize fd1)"
  note m = memorized_after_switch [OF assms(1,3)]
  have "obj_get ?m (key_of (jget fd1 ''viz_type'')) = Some fd1" by (simp add: m)
  moreover have "obj_get ?m (key_of (jget fd0 ''viz_type'')) = Some (remembered fd0)"
    using assms(4) by (simp add: m memorized_current)
  ultimately have "jsize (JObj fd1) + jsize (JObj (remembered fd0)) \<le> jsizes (memo_list ?m)"
    using assms(4) two_entries_size [of ?m] by metis
  also have "... < jsize (JObj fd2)"
    by (rule memorized_size [OF transform_history [OF assms(2)]])
  finally show ?thesis by simp
qed

lemma fib_bound:
  assumes "\<And>n. n < N \<Longrightarrow> \<exists>st cs. transform e (standardize (fd n)) (v (Suc n)) st = Inr (fd (Suc n), cs)"
    and "\<And>n. n \<le> N \<Longrightarrow> jget (fd n) ''viz_type'' = JStr (v n) \<and> jget (fd n) ''datasource'' = d"
    and "\<And>n. v n \<noteq> v (Suc n)"
  shows "n \<le> N \<Longrightarrow> fib n \<le> jsize (JObj (fd n))"
proof (induction n rule: fib.induct)
  case (3 n)
  obtain st cs where t1: "transform e (standardize (fd n)) (v (Suc n)) st = Inr (fd (Suc n), cs)"
    using assms(1) [of n] 3(3) by auto
  obtain st' cs' where t2: "transform e (standardize (fd (Suc n))) (v (Suc (Suc n))) st' = Inr (fd (Suc (Suc n)), cs')"
    using assms(1) [of "Suc n"] 3(3) by auto
  have ds: "jget (fd (Suc n)) ''datasource'' = jget (fd n) ''datasource''"
    and ty: "key_of (jget (fd n) ''viz_type'') \<noteq> key_of (jget (fd (Suc n)) ''viz_type'')"
    using assms(2) [of n] assms(2) [of "Suc n"] assms(3) [of n] 3(3) by auto
  have le: "jsize (JObj (fd (Suc n))) + jsize (JObj (remembered (fd n))) \<le> jsize (JObj (fd (Suc (Suc n))))"
    by (rule switch_size [OF t1 t2 ds ty])
  show ?case
  proof (cases n)
    case 0
    then show ?thesis using le by simp
  next
    case (Suc m)
    then obtain st0 cs0 where t0: "transform e (standardize (fd m)) (v (Suc m)) st0 = Inr (fd (Suc m), cs0)"
      using assms(1) [of m] 3(3) by auto
    have "jget (fd (Suc m)) ''datasource'' = jget (fd m) ''datasource''"
      using assms(2) [of m] assms(2) [of "Suc m"] 3(3) Suc by auto
    then have "remembered (fd n) = fd n"
      using remembered_after_switch [OF t0] Suc by simp
    moreover have "fib (Suc n) \<le> jsize (JObj (fd (Suc n)))" "fib n \<le> jsize (JObj (fd n))"
      using 3 by auto
    ultimately show ?thesis using le by simp
  qed
qed simp_all

section \<open>The properties\<close>

text \<open>
  C32: Switching the visualization type of a chart loses nothing: when the form data of the new
  type still name the type and the dataset, switching back computes the controls from the form data that were
  left behind, with the values of the new type for the public controls only, and what
  is memorized of all other types stays as it was.
\<close>

theorem switching_back_finds_the_form_data:
  assumes "exploreReducer e (SET_FIELD_VALUE ''viz_type'' (JStr B) errs) s = Inr s'"
    and "shows_type s A d" and "A \<noteq> B"
    and "jget (ex_form_data s') ''viz_type'' = JStr B" and "jget (ex_form_data s') ''datasource'' = d"
  shows "(\<forall>k. k \<noteq> ''viz_type'' \<and> k \<noteq> ''standardizedFormData'' \<longrightarrow>
             jget (initial_form_data (standardize (ex_form_data s')) A (ex_form_data s')) k =
               (if k \<in> set publicControls \<and> obj_get (ex_form_data s') k \<noteq> None then jget (ex_form_data s') k
                else jget (ex_form_data s) k)) \<and>
         (\<forall>C. C \<noteq> A \<and> C \<noteq> B \<longrightarrow>
             obj_get (memorizedFormData (standardize (ex_form_data s'))) C =
             obj_get (memorizedFormData (standardize (ex_form_data s))) C)"
proof -
  from assms(2) have A: "jget (ex_form_data s) ''viz_type'' = JStr A" "jget (ex_form_data s) ''datasource'' = d"
    by (simp_all add: shows_type_def)
  obtain cs where t: "transform e (standardize (ex_form_data s)) B s = Inr (ex_form_data s', cs)"
    using reducer_switches [OF assms(1,2)] assms(3) by auto
  note m = memorized_after_switch [OF t]
  have "getLatestFormData (standardize (ex_form_data s')) A = remembered (ex_form_data s)"
    using memorized_current [of "ex_form_data s"] A assms(3-5) by (simp add: getLatestFormData_def m)
  then show ?thesis
    using A assms(4,5) by (auto simp: initial_form_data_get remembered_get m)
qed

text \<open>
  C29: The history of a chart is nested: every switch stores the current form data together with the
  history that they carry. Going back and forth between two types makes the form data grow at least
  like the Fibonacci numbers, although nothing is edited.
\<close>

theorem history_grows_exponentially:
  assumes "A \<noteq> B"
    and "\<forall>n < N. exploreReducer e (SET_FIELD_VALUE ''viz_type'' (JStr (if even (Suc n) then A else B)) []) (s n) =
                 Inr (s (Suc n))"
    and "\<forall>n \<le> N. shows_type (s n) (if even n then A else B) d"
  shows "fib N \<le> jsize (JObj (ex_form_data (s N)))"
proof -
  let ?v = "\<lambda>n. if even n then A else B"
  have ty: "?v (Suc n) \<noteq> ?v n" for n using assms(1) by simp
  have sh: "jget (ex_form_data (s n)) ''viz_type'' = JStr (?v n) \<and> jget (ex_form_data (s n)) ''datasource'' = d"
    if "n \<le> N" for n
    using assms(3) that unfolding shows_type_def by blast
  have step: "\<exists>st cs. transform e (standardize (ex_form_data (s n))) (?v (Suc n)) st = Inr (ex_form_data (s (Suc n)), cs)"
    if n: "n < N" for n
  proof -
    from assms(2) n have r: "exploreReducer e (SET_FIELD_VALUE ''viz_type'' (JStr (?v (Suc n))) []) (s n) = Inr (s (Suc n))"
      by blast
    from assms(3) n have "shows_type (s n) (?v n) d" by simp
    from reducer_switches [OF r this ty] show ?thesis by blast
  qed
  show ?thesis
    by (rule fib_bound [where e = e and v = ?v and d = d and N = N, OF step sh ty [symmetric] order_refl])
qed

section \<open>A small editor\<close>

text \<open>Every chart has the controls of its type, its dataset and a colour.\<close>

definition tiny_env :: explore_env where
  "tiny_env =
     \<lparr>sharedControls = [], sharedControlComponents = [],
      SECTIONS = [(''datasourceAndVizType'',
        \<lparr>section_props = [],
         controlSetRows = Some [[ConfigItem ''viz_type'' [], ConfigItem ''datasource'' [], ConfigItem ''color'' []]]\<rparr>)],
      panels = (\<lambda>v. None), call_map = (\<lambda>f c s. []), call_value = (\<lambda>f c s. Plain JUndef),
      call_validator = (\<lambda>f c v s. JUndef), is_empty = (\<lambda>v. \<not> truthy v)\<rparr>"

definition tiny_state :: explore_state where
  "tiny_state =
     \<lparr>ex_controls = Some [(''viz_type'', [(''value'', Plain (JStr ''A''))])],
      ex_form_data = [(''viz_type'', JStr ''A''), (''datasource'', JStr ''1__table''), (''color'', JStr ''red'')],
      ex_rest = [(''datasource'', JObj [(''type'', JStr ''table'')])]\<rparr>"

fun tiny_states :: "nat \<Rightarrow> explore_state" where
  "tiny_states 0 = tiny_state"
| "tiny_states (Suc n) =
     (case exploreReducer tiny_env (SET_FIELD_VALUE ''viz_type'' (JStr (if even n then ''B'' else ''A'')) []) (tiny_states n) of
        Inr s \<Rightarrow> s | Inl _ \<Rightarrow> tiny_state)"

lemma tiny_steps:
  "exploreReducer tiny_env (SET_FIELD_VALUE ''viz_type'' (JStr ''B'') []) (tiny_states 0) = Inr (tiny_states 1)"
  "exploreReducer tiny_env (SET_FIELD_VALUE ''viz_type'' (JStr ''A'') []) (tiny_states 1) = Inr (tiny_states 2)"
  "shows_type (tiny_states 0) ''A'' (JStr ''1__table'')"
  "shows_type (tiny_states 1) ''B'' (JStr ''1__table'')"
  "shows_type (tiny_states 2) ''A'' (JStr ''1__table'')"
  "jget (ex_form_data (tiny_states 0)) ''color'' = JStr ''red''"
  "obj_get (memorizedFormData (standardize (ex_form_data (tiny_states 0)))) ''C'' = None"
  by code_simp+

lemma color_is_private: "''color'' \<notin> set publicControls"
  by (simp add: publicControls_def)

declare tiny_states.simps [simp del]

theorem switching_back_finds_the_form_data_witness:
  "jget (initial_form_data (standardize (ex_form_data (tiny_states 1))) ''A'' (ex_form_data (tiny_states 1))) ''color'' =
     JStr ''red'' \<and>
   obj_get (memorizedFormData (standardize (ex_form_data (tiny_states 1)))) ''C'' = None"
  using switching_back_finds_the_form_data [OF tiny_steps(1,3)] tiny_steps(4,6,7) color_is_private
  by (simp add: shows_type_def)

theorem history_grows_exponentially_witness:
  "(1::nat) \<le> jsize (JObj (ex_form_data (tiny_states 2)))"
proof -
  have two: "n < 2 \<longleftrightarrow> n = 0 \<or> n = 1" "n \<le> 2 \<longleftrightarrow> n = 0 \<or> n = 1 \<or> n = 2" for n :: nat by auto
  show ?thesis
    using history_grows_exponentially [of "''A''" "''B''" 2 tiny_env tiny_states "JStr ''1__table''"] tiny_steps
    by (simp add: two numeral_2_eq_2)
qed

end
