(* ===== verification/ExploreClaims.thy ===== *)
theory ExploreClaims
  imports ExploreReducer
begin

text \<open>
  What holds of the editor's controls and form data: the selections stay among the choices in
  every run, setting a control changes that control and those that depend on it, renaming a metric keeps
  the configuration of its column, and hidden fields are found again.
\<close>

section \<open>Selections among the choices\<close>

definition choices_ok :: "control \<Rightarrow> bool" where
  "choices_ok control \<longleftrightarrow>
     (cval control ''type'' = JStr ''SelectControl'' \<and> \<not> ctruthy control ''freeForm'' \<and>
      ctruthy control ''choices'' \<and> truthy (cval control ''value'') \<longrightarrow>
      (if ctruthy control ''multi'' then set (ensureIsArray (cval control ''value'')) \<subseteq> set (choice_values control)
       else (case ensureIsArray (cval control ''value'') of [] \<Rightarrow> JUndef | v # _ \<Rightarrow> v) \<in> set (choice_values control)))"

definition controls_ok :: "controls \<Rightarrow> bool" where
  "controls_ok cs = list_all (\<lambda>(n, c). choices_ok c) cs"

definition explore_ok :: "explore_state \<Rightarrow> bool" where
  "explore_ok s = (case ex_controls s of None \<Rightarrow> False | Some cs \<Rightarrow> controls_ok cs)"

text \<open>What a plugin does to the controls of a new chart.\<close>

definition inits_keep :: "explore_env \<Rightarrow> bool" where
  "inits_keep e \<longleftrightarrow>
     (\<forall>v. case onInit (registered_panel e v) of None \<Rightarrow> True | Some f \<Rightarrow> \<forall>cs. controls_ok cs \<longrightarrow> controls_ok (f cs))"

definition admissible_edit :: "explore_action \<Rightarrow> explore_state \<Rightarrow> bool" where
  "admissible_edit a s =
     (case a of
        DYNAMIC_PLUGIN_CONTROLS_READY cs \<Rightarrow> controls_ok cs
      | HYDRATE_EXPLORE s' \<Rightarrow> explore_ok s'
      | _ \<Rightarrow> True)"

lemma cval_set [control_simps]: "cval (obj_set k (Plain v) c) k' = (if k' = k then v else cval c k')"
  by (simp add: cval_def)

lemma ctruthy_set [control_simps]: "ctruthy (obj_set k (Plain v) c) k' = (if k' = k then truthy v else ctruthy c k')"
  by (simp add: ctruthy_def)

lemma choice_values_set [control_simps]:
  "k \<noteq> ''choices'' \<Longrightarrow> choice_values (obj_set k (Plain v) c) = choice_values c"
  by (simp add: choice_values_def control_simps)

lemma choices_ok_errors [control_simps]: "choices_ok (obj_set ''validationErrors'' (Plain v) c) = choices_ok c"
  by (simp add: choices_ok_def control_simps)

lemma choices_ok_Nil [simp]: "choices_ok []"
  by (simp add: choices_ok_def cval_def)

lemma choices_ok_handle: "choices_ok (handleMissingChoice c)"
  unfolding choices_ok_def handleMissingChoice_def
  by (auto simp: control_simps Let_def split: list.splits)

lemma choices_ok_exec: "choices_ok c \<Longrightarrow> choices_ok (execControlValidator e c p)"
  by (simp add: execControlValidator_def control_simps Let_def)

lemma choices_ok_apply: "choices_ok (applyMapStateToPropsToControl e c p)"
  unfolding applyMapStateToPropsToControl_def Let_def split_beta
  by (intro choices_ok_exec choices_ok_handle)

lemma choices_ok_state:
  "controls_initialized p \<Longrightarrow> getControlStateFromControlConfig e c p v = Some st \<Longrightarrow> choices_ok st"
  by (cases c) (auto simp: getControlStateFromControlConfig_def choices_ok_apply Let_def)

lemma choices_ok_spread_state:
  "controls_initialized p \<Longrightarrow> choices_ok (spread_control (getControlStateFromControlConfig e c p v))"
  by (cases "getControlStateFromControlConfig e c p v") (auto simp: spread_control_def dest: choices_ok_state)

lemma controls_ok_Nil [simp]: "controls_ok []"
  by (simp add: controls_ok_def)

lemma controls_ok_set: "controls_ok cs \<Longrightarrow> choices_ok c \<Longrightarrow> controls_ok (obj_set n c cs)"
  by (induction cs) (auto simp: controls_ok_def)

lemma controls_ok_Cons [simp]: "controls_ok ((n, c) # cs) \<longleftrightarrow> choices_ok c \<and> controls_ok cs"
  by (simp add: controls_ok_def)

lemma controls_ok_spread: "controls_ok cs \<Longrightarrow> controls_ok ds \<Longrightarrow> controls_ok (obj_spread cs ds)"
proof (induction ds arbitrary: cs)
  case Nil
  then show ?case by simp
next
  case (Cons d ds)
  then show ?case by (cases d) (simp add: controls_ok_set)
qed

lemma add_control_ok:
  assumes "controls_initialized p" "controls_ok cs"
  shows "controls_ok (add_control_state e p fd cs item)"
  using assms
  by (cases item) (auto simp: add_control_state_def controls_ok_set choices_ok_state split: option.split)

lemma all_controls_ok:
  assumes "controls_initialized p"
  shows "controls_ok (getAllControlsState e v t p fd)"
  unfolding getAllControlsState_def
  by (rule foldl_inv [where P = controls_ok]) (simp_all add: add_control_ok assms)

lemma controls_state_ok:
  assumes "getControlsState e s fd = Inr cs" "inits_keep e" "ex_controls s \<noteq> None"
  shows "controls_ok cs"
proof -
  have "controls_initialized (Some s)" using assms(3) by (simp add: controls_initialized_def)
  note all_controls_ok [OF this]
  with assms(1,2) show ?thesis
    by (auto simp: getControlsState_def inits_keep_def rbind_eq_Inr Let_def split: option.splits)
qed

lemma initialized_state: "ex_controls s \<noteq> None \<Longrightarrow> controls_initialized (Some s)"
  by (simp add: controls_initialized_def)

lemma rerendered_ok: "ex_controls s \<noteq> None \<Longrightarrow> controls_ok (rerendered e s cs names)"
  unfolding rerendered_def
  by (rule foldl_inv [where P = controls_ok])
    (simp_all add: controls_ok_set choices_ok_spread_state initialized_state)

lemma revalidated_ok: "ex_controls s \<noteq> None \<Longrightarrow> controls_ok (revalidated e s n cs)"
  unfolding revalidated_def
  by (rule foldl_inv [where P = controls_ok])
    (auto simp: controls_ok_set choices_ok_spread_state initialized_state)

lemma transform_ok:
  assumes "transform e sfd v s = Inr (fd, cs)" "inits_keep e"
  shows "controls_ok cs"
proof -
  from assms(1) obtain c0 where "getControlsState e (s\<lparr>ex_controls := Some c0\<rparr>) fd = Inr cs"
    by (auto simp: transform_def Let_def rbind_eq_Inr split: option.splits)
  then show ?thesis by (rule controls_state_ok) (simp_all add: assms(2))
qed

section \<open>What setting a value does\<close>

text \<open>The control's new state, the form data without a switch of the type, and the shown errors.\<close>

definition new_control :: "explore_env \<Rightarrow> control option \<Rightarrow> jsval \<Rightarrow> explore_state \<Rightarrow> control" where
  "new_control e controlConfig value s =
     spread_control (getControlStateFromControlConfig e controlConfig (Some s) value)"

definition shown_errors :: "control \<Rightarrow> jsval list \<Rightarrow> jsval list" where
  "shown_errors control errs = add_errors (ensureIsArray (cval control ''validationErrors'')) errs"

lemma set_field_cases:
  assumes "set_field_value e n v errs s = Inr s'"
  obtains config cs cfg fd cur where
    "column_config_for n v (ex_form_data s) = Inr config" "ex_controls s = Some cs"
    "fd = (case config of
             Some c \<Rightarrow> if n = ''metrics'' \<and> truthy (jget (ex_form_data s) ''metrics'')
                       then obj_set ''column_config'' (JObj c) (obj_set n v (ex_form_data s))
                       else obj_set n v (ex_form_data s)
           | None \<Rightarrow> obj_set n v (ex_form_data s))"
    "control_config_for e cs n (key_of (jget fd ''viz_type'')) = Inr cfg"
    "switched e s cs n v fd = Inr (ex_form_data s', cur)"
    "ex_controls s' = Some (obj_spread (obj_spread (obj_spread cur
        (obj_when (cfg \<noteq> None) [(n, obj_set ''validationErrors'' (Plain (JArr (shown_errors (new_control e cfg v s) errs)))
                                       (new_control e cfg v s))]))
        (rerendered e (s\<lparr>ex_controls := Some (controls_with cs n cfg (new_control e cfg v s) config)\<rparr>)
           (controls_with cs n cfg (new_control e cfg v s) config) (rerender_names (new_control e cfg v s))))
        (revalidated e (s\<lparr>ex_form_data := obj_set n v (ex_form_data s)\<rparr>) n cs))"
    "ex_rest s' = obj_set ''triggerRender''
        (if ctruthy (new_control e cfg v s) ''renderTrigger''
         then JBool (shown_errors (new_control e cfg v s) errs = [])
         else cval (new_control e cfg v s) ''renderTrigger'') (ex_rest s)"
proof -
  let ?fd = "\<lambda>config. case config of
             Some c \<Rightarrow> if n = ''metrics'' \<and> truthy (jget (ex_form_data s) ''metrics'')
                       then obj_set ''column_config'' (JObj c) (obj_set n v (ex_form_data s))
                       else obj_set n v (ex_form_data s)
           | None \<Rightarrow> obj_set n v (ex_form_data s)"
  from assms obtain config where 1: "column_config_for n v (ex_form_data s) = Inr config"
    unfolding set_field_value_def by (auto simp: rbind_eq_Inr)
  from assms 1 obtain cs where 2: "ex_controls s = Some cs"
    unfolding set_field_value_def by (auto simp: rbind_eq_Inr)
  from assms obtain cfg where 3: "control_config_for e cs n (key_of (jget (?fd config) ''viz_type'')) = Inr cfg"
    unfolding set_field_value_def by (auto simp: rbind_eq_Inr Let_def 1 2)
  from assms obtain p where 4: "switched e s cs n v (?fd config) = Inr p"
    unfolding set_field_value_def by (auto simp: rbind_eq_Inr Let_def 1 2 3)
  obtain fd' cur where p: "p = (fd', cur)" by (cases p)
  show thesis
    using assms [unfolded set_field_value_def 1 2] 3 4
    by (intro that [OF 1 2 refl 3, of cur])
      (auto simp: Let_def p new_control_def shown_errors_def)
qed

section \<open>The invariant of the editor\<close>

lemma set_field_ok:
  assumes "set_field_value e n v errs s = Inr s'" "explore_ok s" "inits_keep e"
  shows "explore_ok s'"
proof -
  from assms(1) show ?thesis
  proof (cases rule: set_field_cases)
    case (1 config cs cfg fd cur)
    have cs: "controls_ok cs" using assms(2) 1(2) by (simp add: explore_ok_def)
    have "controls_ok cur"
      using 1(5) cs assms(3) by (auto simp: switched_def dest: transform_ok split: if_splits)
    moreover have "choices_ok (new_control e cfg v s)"
      unfolding new_control_def by (rule choices_ok_spread_state) (simp add: initialized_state 1(2))
    then have "controls_ok (obj_when (cfg \<noteq> None)
        [(n, obj_set ''validationErrors'' (Plain (JArr (shown_errors (new_control e cfg v s) errs))) (new_control e cfg v s))])"
      by (simp add: obj_when_def choices_ok_errors)
    ultimately show ?thesis
      unfolding explore_ok_def 1(6)
      by (simp add: controls_ok_spread rerendered_ok revalidated_ok 1(2))
  qed
qed

lemma update_by_datasource_ok:
  assumes "update_by_datasource e prev new s = Inr s'" "inits_keep e"
  shows "explore_ok s'"
  using assms
  by (auto simp: update_by_datasource_def Let_def rbind_eq_Inr explore_ok_def dest!: controls_state_ok split: prod.splits)

lemma rest_ok [simp]: "explore_ok (s\<lparr>ex_rest := r\<rparr>) = explore_ok s" "explore_ok (s\<lparr>ex_form_data := fd\<rparr>) = explore_ok s"
  "explore_ok (s\<lparr>ex_controls := Some cs\<rparr>) = controls_ok cs"
  by (simp_all add: explore_ok_def)

lemma put_rest_ok [simp]: "explore_ok (put_rest k v s) = explore_ok s"
  by (simp add: put_rest_def)

lemma with_controls_ok:
  assumes "with_controls s (getControlsState e s fd) f = Inr s'" "explore_ok s" "inits_keep e"
    and "\<And>t. explore_ok (f t) = explore_ok t"
  shows "explore_ok s'"
proof -
  from assms(1) obtain cs where cs: "getControlsState e s fd = Inr cs" "s' = f (s\<lparr>ex_controls := Some cs\<rparr>)"
    by (auto simp: with_controls_def rbind_eq_Inr)
  have "ex_controls s \<noteq> None" using assms(2) by (auto simp: explore_ok_def split: option.splits)
  from controls_state_ok [OF cs(1) assms(3) this] show ?thesis
    by (simp add: cs(2) assms(4))
qed

lemma reducer_ok:
  assumes "exploreReducer e a s = Inr s'" "explore_ok s" "inits_keep e" "admissible_edit a s"
  shows "explore_ok s'"
  using assms
proof (cases a)
  case (SET_EXPLORE_CONTROLS fd)
  with assms show ?thesis by (auto intro: with_controls_ok)
next
  case (CREATE_NEW_SLICE sl fd x y z)
  with assms show ?thesis by (auto intro: with_controls_ok)
next
  case (SET_FIELD_VALUE n v errs)
  with assms show ?thesis by (auto intro: set_field_ok)
next
  case (UPDATE_FORM_DATA_BY_DATASOURCE prev new)
  with assms show ?thesis by (auto intro: update_by_datasource_ok)
qed (auto simp: admissible_edit_def set_stash_def slice_updated_def Let_def)

interpretation editor: guarded_reducer "exploreReducer e" admissible_edit "\<lambda>s. explore_ok s \<and> inits_keep e"
  by unfold_locales (blast intro: reducer_ok)

text \<open>
  C19: In every run of the editor that starts with such controls, whatever is edited or switched, a select
  control that has choices, does not accept free text (\<open>freeForm\<close>) and has a value (a truthy one) has one of
  its choices as its value, or, when it selects several, only choices among its values; provided that
  the states and the controls that are loaded, and what the plugins' \<open>onInit\<close> makes of such controls, are so too.
\<close>

theorem selections_stay_among_the_choices:
  assumes "inits_keep e" "explore_ok s"
    and "run_ok admissible_edit (exploreReducer e) as s"
    and "explore_run e as s = Inr s'"
  shows "explore_ok s'"
  using editor.run_inv [of e as s s'] assms by (simp add: explore_run_def)

section \<open>Setting a control\<close>

definition dependents :: "string \<Rightarrow> controls \<Rightarrow> string list" where
  "dependents n cs = obj_keys (filter (\<lambda>(key, item). validated_with n item) cs)"

lemma rerendered_get: "k \<notin> set names \<Longrightarrow> obj_get (rerendered e s cs names) k = None"
  unfolding rerendered_def by (subst od.get_foldl_put_notin [where f = "\<lambda>n. n"]) auto

lemma revalidated_fold:
  "revalidated e s n cs =
     foldl (\<lambda>acc p. obj_set (fst p)
       (spread_control (getControlStateFromControlConfig e (Some (snd p)) (Some s) (cval (snd p) ''value''))) acc)
     [] (filter (\<lambda>p. validated_with n (snd p)) cs)"
  unfolding revalidated_def case_prod_unfold by (rule refl)

lemma revalidated_get:
  assumes "k \<notin> set (dependents n cs)"
  shows "obj_get (revalidated e s n cs) k = None"
proof -
  have "k \<notin> fst ` set (filter (\<lambda>p. validated_with n (snd p)) cs)"
    using assms by (simp add: dependents_def obj_keys_def split_beta)
  then show ?thesis
    unfolding revalidated_fold by (subst od.get_foldl_put_notin) auto
qed

lemma revalidated_dependent:
  assumes "obj_ok cs" "obj_get cs k = Some c" "validated_with n c"
  shows "obj_get (revalidated e s n cs) k =
    Some (spread_control (getControlStateFromControlConfig e (Some c) (Some s) (cval c ''value'')))"
proof -
  let ?ds = "filter (\<lambda>p. validated_with n (snd p)) cs"
  have d: "distinct (map fst ?ds)"
    using assms(1) by (auto simp: obj_ok_def intro: distinct_map_filter)
  have "(k, c) \<in> set ?ds" using assms(2,3) by (auto dest: map_of_SomeD)
  from od.get_foldl_put_map [OF d this,
      where g = "\<lambda>p. spread_control (getControlStateFromControlConfig e (Some (snd p)) (Some s) (cval (snd p) ''value''))"]
  show ?thesis unfolding revalidated_fold by simp
qed

lemma set_add_errors [simp]: "set (add_errors es errs) = set es \<union> set errs"
  unfolding add_errors_def by (induction errs arbitrary: es) auto

lemma obj_get_spread_None: "obj_get b k = None \<Longrightarrow> obj_get (obj_spread a b) k = obj_get a k"
  by (simp add: obj_get_spread split: option.splits)
    (metis map_of_eq_None_iff option.distinct(1) set_rev)

lemma obj_get_spread_Some: "obj_ok b \<Longrightarrow> obj_get b k = Some v \<Longrightarrow> obj_get (obj_spread a b) k = Some v"
  by (simp add: obj_get_spread_ok)

lemma revalidated_obj_ok: "obj_ok (revalidated e s n cs)"
  unfolding revalidated_def by (rule foldl_inv [where P = obj_ok]) auto

text \<open>
  C30: Setting a control of the editor (one that exists, whose name occurs once, and that is neither the
  type \<open>viz_type\<close> nor \<open>metrics\<close>) stores its value and nothing else in the form data; of the controls only it, those it rerenders and those that are validated with it change; its state is computed
  from the new value and shows its own errors and the reported ones, each once; and what is validated with
  it sees the new value. The chart is rendered again exactly when the control asks for it and has no error.
\<close>

theorem setting_a_control:
  assumes "exploreReducer e (SET_FIELD_VALUE n v errs) s = Inr s'"
    and "n \<noteq> ''viz_type''" "n \<noteq> ''metrics''"
    and "ex_controls s = Some cs" "obj_ok cs" "obj_get cs n = Some c"
  shows "\<exists>cs' new. new = applyMapStateToPropsToControl e (obj_set ''value'' (Plain v) c) (Some s) \<and>
    ex_form_data s' = obj_set n v (ex_form_data s) \<and> ex_controls s' = Some cs' \<and>
    (\<forall>k. k \<noteq> n \<and> k \<notin> set (rerender_names new) \<and> k \<notin> set (dependents n cs) \<longrightarrow> obj_get cs' k = obj_get cs k) \<and>
    (n \<notin> set (rerender_names new) \<and> n \<notin> set (dependents n cs) \<longrightarrow>
       obj_get cs' n = Some (obj_set ''validationErrors'' (Plain (JArr (shown_errors new errs))) new)) \<and>
    set (shown_errors new errs) = set (ensureIsArray (cval new ''validationErrors'')) \<union> set errs \<and>
    (\<forall>k item. obj_get cs k = Some item \<and> validated_with n item \<longrightarrow>
       obj_get cs' k = Some (applyMapStateToPropsToControl e (obj_set ''value'' (Plain (cval item ''value'')) item)
                               (Some (s\<lparr>ex_form_data := obj_set n v (ex_form_data s)\<rparr>)))) \<and>
    jget (ex_rest s') ''triggerRender'' =
      (if ctruthy new ''renderTrigger'' then JBool (shown_errors new errs = []) else cval new ''renderTrigger'')"
proof -
  let ?new = "applyMapStateToPropsToControl e (obj_set ''value'' (Plain v) c) (Some s)"
  let ?st = "s\<lparr>ex_form_data := obj_set n v (ex_form_data s)\<rparr>"
  from assms(1) have "set_field_value e n v errs s = Inr s'" by simp
  then show ?thesis
  proof (cases rule: set_field_cases)
    case (1 config cs0 cfg fd cur)
    have cs0: "cs0 = cs" using 1(2) assms(4) by simp
    have cfg: "cfg = Some c" using 1(4) assms(6) by (simp add: cs0 control_config_for_def)
    have ini: "controls_initialized (Some s)" by (simp add: initialized_state 1(2))
    have nw: "new_control e (Some c) v s = ?new"
      by (simp add: new_control_def getControlStateFromControlConfig_def ini spread_control_def)
    have fd: "fd = obj_set n v (ex_form_data s)"
      using 1(3) assms(3) by (simp split: option.splits)
    have cur: "cur = cs" and fd': "ex_form_data s' = fd"
      using 1(5) assms(2) by (simp_all add: switched_def is_viz_switch_def cs0)
    let ?r = "rerendered e (s\<lparr>ex_controls := Some (controls_with cs n (Some c) ?new config)\<rparr>)
                (controls_with cs n (Some c) ?new config) (rerender_names ?new)"
    let ?cs' = "obj_spread (obj_spread (obj_spread cs
          [(n, obj_set ''validationErrors'' (Plain (JArr (shown_errors ?new errs))) ?new)]) ?r) (revalidated e ?st n cs)"
    have cs': "ex_controls s' = Some ?cs'"
      using 1(6) by (simp add: cfg nw cs0 cur)
    have keep: "obj_get ?cs' k = obj_get cs k"
      if "k \<noteq> n" "k \<notin> set (rerender_names ?new)" "k \<notin> set (dependents n cs)" for k
      using that by (simp add: obj_get_spread_None rerendered_get revalidated_get)
    have own: "obj_get ?cs' n = Some (obj_set ''validationErrors'' (Plain (JArr (shown_errors ?new errs))) ?new)"
      if "n \<notin> set (rerender_names ?new)" "n \<notin> set (dependents n cs)"
      using that by (simp add: obj_get_spread_None rerendered_get revalidated_get)
    have dep: "obj_get ?cs' k = Some (applyMapStateToPropsToControl e
          (obj_set ''value'' (Plain (cval item ''value'')) item) (Some ?st))"
      if "obj_get cs k = Some item" "validated_with n item" for k item
    proof (rule obj_get_spread_Some [OF revalidated_obj_ok])
      have "controls_initialized (Some ?st)" by (simp add: initialized_state 1(2))
      then show "obj_get (revalidated e ?st n cs) k = Some (applyMapStateToPropsToControl e
          (obj_set ''value'' (Plain (cval item ''value'')) item) (Some ?st))"
        using revalidated_dependent [OF assms(5) that]
        by (simp add: getControlStateFromControlConfig_def spread_control_def)
    qed
    show ?thesis
      using fd fd' cs' keep own dep 1(7) [unfolded cfg nw]
      by (intro exI [of _ ?cs'] exI [of _ ?new]) (simp add: shown_errors_def)
  qed
qed

section \<open>Hiding and showing fields\<close>

lemma pick_get: "obj_get (pick ob ks) k = (if k \<in> set ks then obj_get ob k else None)"
proof -
  have "obj_get (foldl (\<lambda>acc k. case obj_get ob k of Some v \<Rightarrow> obj_set k v acc | None \<Rightarrow> acc) acc ks) k =
    (if k \<in> set ks \<and> obj_get ob k \<noteq> None then obj_get ob k else obj_get acc k)" for acc
    by (induction ks arbitrary: acc) (auto split: option.splits)
  then show ?thesis by (simp add: pick_def)
qed

lemma pick_ok: "obj_ok (pick ob ks)"
  unfolding pick_def by (rule foldl_inv [where P = obj_ok]) (auto split: option.splits)

lemma omit_get: "obj_get (omit ob ks) k = (if k \<in> set ks then None else obj_get ob k)"
  unfolding omit_def by (induction ob) auto

lemma hidden_after [simp]: "hidden_form_data (s\<lparr>ex_rest := obj_set ''hiddenFormData'' (JObj ob) r, ex_form_data := fd\<rparr>) = ob"
  "hidden_form_data (s\<lparr>ex_form_data := fd, ex_rest := obj_set ''hiddenFormData'' (JObj ob) r\<rparr>) = ob"
  by (simp_all add: hidden_form_data_def)

text \<open>
  Hiding fields takes them out of the form data, and showing them again gives back their values, or
  the values they were hidden with before; the other fields and the other hidden values stay.
\<close>

theorem hidden_fields_are_found_again:
  "\<exists>s1 s2. exploreReducer e (SET_STASH_FORM_DATA names True) s = Inr s1 \<and>
     exploreReducer e (SET_STASH_FORM_DATA names False) s1 = Inr s2 \<and>
     (\<forall>k. obj_get (ex_form_data s1) k = (if k \<in> set names then None else obj_get (ex_form_data s) k)) \<and>
     (\<forall>k. obj_get (ex_form_data s2) k =
        (if k \<in> set names \<and> obj_get (ex_form_data s) k = None then obj_get (hidden_form_data s) k
         else obj_get (ex_form_data s) k)) \<and>
     (\<forall>k. obj_get (hidden_form_data s2) k = (if k \<in> set names then None else obj_get (hidden_form_data s) k))"
proof -
  let ?h = "obj_spread (hidden_form_data s) (pick (ex_form_data s) names)"
  let ?s1 = "set_stash names True s" and ?s2 = "set_stash names False (set_stash names True s)"
  have s1: "ex_form_data ?s1 = omit (ex_form_data s) names" "hidden_form_data ?s1 = ?h"
    by (simp_all add: set_stash_def)
  have h: "obj_get ?h k = (if k \<in> set names \<and> obj_get (ex_form_data s) k \<noteq> None then obj_get (ex_form_data s) k
      else obj_get (hidden_form_data s) k)" for k
    by (auto simp: obj_get_spread_ok pick_ok pick_get split: option.splits)
  have s2: "obj_get (ex_form_data ?s2) k =
      (case obj_get (pick ?h names) k of Some v \<Rightarrow> Some v | None \<Rightarrow> obj_get (omit (ex_form_data s) names) k) \<and>
      obj_get (hidden_form_data ?s2) k = obj_get (omit ?h names) k" for k
  proof (cases "pick ?h names = []")
    case True
    then have "?s2 = ?s1" using s1 by (simp add: set_stash_def [of names False])
    moreover have "k \<in> set names \<Longrightarrow> obj_get ?h k = None"
      using True pick_get [of ?h names k] by simp
    ultimately show ?thesis using s1 True by (simp add: omit_get)
  next
    case False
    then have "?s2 = ?s1\<lparr>ex_form_data := obj_spread (omit (ex_form_data s) names) (pick ?h names),
        ex_rest := obj_set ''hiddenFormData'' (JObj (omit ?h names)) (ex_rest ?s1)\<rparr>"
      using s1 by (simp add: set_stash_def [of names False])
    then show ?thesis by (simp add: obj_get_spread_ok pick_ok)
  qed
  show ?thesis
    by (intro exI [of _ ?s1] exI [of _ ?s2])
      (auto simp: s1 s2 h pick_get omit_get split: option.splits)
qed

section \<open>Renaming a metric\<close>

lemma rfold_append: "rfold f s (xs @ ys) = rbind (rfold f s xs) (\<lambda>t. rfold f t ys)"
proof (induction xs arbitrary: s)
  case Nil
  then show ?case by simp
next
  case (Cons x xs)
  then show ?case by (cases "f s x") simp_all
qed

text \<open>The metrics that stay where they are leave the configuration alone.\<close>

lemma rename_kept:
  assumes "\<And>m. m \<in> set items \<Longrightarrow> chain m ''label'' \<in> (\<lambda>m. chain m ''label'') ` set ms"
  shows "rfold (rename_column (JArr ms)) (config, i) items = Inr (config, i + length items)"
  using assms
proof (induction items arbitrary: i)
  case Nil
  then show ?case by simp
next
  case (Cons m items)
  have "list_ex (\<lambda>oldItem. chain oldItem ''label'' = chain m ''label'') ms"
    using Cons.prems [of m] by (auto simp: list_ex_iff)
  then have "rename_column (JArr ms) (config, i) m = Inr (config, Suc i)"
    by (simp add: rename_column_def some_in_def)
  with Cons show ?case by simp
qed

lemma rename_new:
  assumes "i < length ms" "chain (ms ! i) ''label'' = JStr old" "old \<noteq> []" "truthy (jget config old)"
    and "chain m ''label'' = JStr new" "\<forall>m \<in> set ms. chain m ''label'' \<noteq> JStr new"
  shows "rename_column (JArr ms) (config, i) m =
    Inr (obj_del old (obj_set new (jget config old) config), Suc i)"
proof -
  have ex: "\<not> list_ex (\<lambda>oldItem. chain oldItem ''label'' = JStr new) ms"
    using assms(6) by (auto simp: list_ex_iff)
  have p: "prop_of m ''label'' = Inr (JStr new)"
    using assms(5) by (cases m) (auto simp: prop_of_def)
  have "JStr new \<noteq> JStr old" using assms(1,2,6) by (metis nth_mem)
  then show ?thesis
    using assms(1-4) assms(5) by (simp add: rename_column_def some_in_def ex p js_nth_def Let_def)
qed

lemma rename_in_place:
  assumes "i < length ms" "chain (ms ! i) ''label'' = JStr old" "old \<noteq> []" "truthy (jget config old)"
    and "chain m ''label'' = JStr new" "\<forall>m \<in> set ms. chain m ''label'' \<noteq> JStr new"
  shows "rename_columns (JArr ms) (JArr (ms[i := m])) config =
    Inr (obj_del old (obj_set new (jget config old) config))"
proof -
  let ?config = "obj_del old (obj_set new (jget config old) config)"
  have "ms[i := m] = take i ms @ m # drop (Suc i) ms" using assms(1) by (simp add: upd_conv_take_nth_drop)
  moreover have "rfold (rename_column (JArr ms)) (config, 0) (take i ms) = Inr (config, i)"
    using rename_kept [of "take i ms" ms config 0] assms(1) by (auto dest: in_set_takeD)
  moreover have "rename_column (JArr ms) (config, i) m = Inr (?config, Suc i)"
    by (rule rename_new [OF assms])
  moreover have "rfold (rename_column (JArr ms)) (?config, Suc i) (drop (Suc i) ms) =
      Inr (?config, Suc i + length (drop (Suc i) ms))"
    by (rule rename_kept) (auto dest: in_set_dropD)
  ultimately show ?thesis by (simp add: rename_columns_def rfold_append)
qed

text \<open>
  Editing a metric in place, so that its label changes to one that no metric had, keeps the
  configuration of its column: it is found under the new label, no longer under the old one, and the
  configurations of all other columns stay.
\<close>

theorem renamed_metric_keeps_its_configuration:
  assumes "exploreReducer e (SET_FIELD_VALUE ''metrics'' (JArr (ms[i := m])) errs) s = Inr s'"
    and "jget (ex_form_data s) ''metrics'' = JArr ms" "jget (ex_form_data s) ''column_config'' = JObj config"
    and "i < length ms" "chain (ms ! i) ''label'' = JStr old" "old \<noteq> []" "truthy (jget config old)"
    and "chain m ''label'' = JStr new" "\<forall>m \<in> set ms. chain m ''label'' \<noteq> JStr new"
  shows "\<exists>config'. jget (ex_form_data s') ''column_config'' = JObj config' \<and>
    (\<forall>k. jget config' k = (if k = old then JUndef else if k = new then jget config old else jget config k))"
proof -
  from assms(1) have "set_field_value e ''metrics'' (JArr (ms[i := m])) errs s = Inr s'" by simp
  then show ?thesis
  proof (cases rule: set_field_cases)
    case (1 config' cs cfg fd cur)
    have "config' = Some (obj_del old (obj_set new (jget config old) config))"
      using 1(1) rename_in_place [OF assms(4-9)]
      by (simp add: column_config_for_def assms(2,3))
    moreover have "ex_form_data s' = fd" using 1(5) by (simp add: switched_def is_viz_switch_def)
    ultimately show ?thesis using 1(3) by (simp add: assms(2) jget_obj_del)
  qed
qed

text \<open>
  A saved metric is a name, without a label: put in the place of a metric of the editor whose column is configured, it
  takes the configuration away, to the key \<open>undefined\<close>.
\<close>

theorem saved_metric_moves_configuration_to_undefined:
  assumes "chain old_metric ''label'' = JStr old" "old \<noteq> []" "truthy (jget config old)"
  shows "rename_columns (JArr [old_metric]) (JArr [JStr name]) config =
    Inr (obj_del old (obj_set ''undefined'' (jget config old) config))"
  using assms
  by (simp add: rename_columns_def rename_column_def some_in_def js_nth_def prop_of_def)

section \<open>A small editor\<close>

definition small_env :: explore_env where
  "small_env =
     \<lparr>sharedControls = [], sharedControlComponents = [], SECTIONS = [], panels = (\<lambda>v. None),
      call_map = (\<lambda>f c s. []), call_value = (\<lambda>f c s. Plain JUndef),
      call_validator = (\<lambda>f c v s. if nullish v then JStr ''required'' else JUndef), is_empty = (\<lambda>v. \<not> truthy v)\<rparr>"

definition small_controls :: controls where
  "small_controls =
     [(''color'', [(''type'', Plain (JStr ''SelectControl'')), (''validators'', Funs [''nonEmpty'']),
                   (''choices'', Plain (JArr [JArr [JStr ''red'', JStr ''Red''], JArr [JStr ''green'', JStr ''Green'']])),
                   (''renderTrigger'', Plain (JBool True)), (''value'', Plain (JStr ''red''))]),
      (''metrics'', [(''value'', Plain JNull)])]"

definition small_state :: explore_state where
  "small_state =
     \<lparr>ex_controls = Some small_controls,
      ex_form_data = [(''color'', JStr ''red''),
                      (''metrics'', JArr [JObj [(''label'', JStr ''a'')], JObj [(''label'', JStr ''b'')]]),
                      (''column_config'', JObj [(''a'', JObj [(''width'', JNum 9)])])],
      ex_rest = []\<rparr>"

definition small_after :: "explore_action \<Rightarrow> explore_state" where
  "small_after a = (case exploreReducer small_env a small_state of Inr s \<Rightarrow> s | Inl _ \<Rightarrow> small_state)"

lemma small_steps:
  "exploreReducer small_env (SET_FIELD_VALUE ''color'' (JStr ''blue'') []) small_state =
     Inr (small_after (SET_FIELD_VALUE ''color'' (JStr ''blue'') []))"
  "exploreReducer small_env (SET_FIELD_VALUE ''metrics'' (JArr ([JObj [(''label'', JStr ''a'')], JObj [(''label'', JStr ''b'')]]
       [0 := JObj [(''label'', JStr ''c'')]])) []) small_state =
     Inr (small_after (SET_FIELD_VALUE ''metrics'' (JArr [JObj [(''label'', JStr ''c'')], JObj [(''label'', JStr ''b'')]]) []))"
  "explore_ok small_state"
  by code_simp+

lemma small_inits: "inits_keep small_env"
  by (simp add: inits_keep_def registered_panel_def small_env_def empty_panel_def)

theorem selections_stay_among_the_choices_witness:
  "explore_ok (small_after (SET_FIELD_VALUE ''color'' (JStr ''blue'') []))"
  by (rule selections_stay_among_the_choices
      [OF small_inits small_steps(3), of "[SET_FIELD_VALUE ''color'' (JStr ''blue'') []]"])
    (simp_all add: explore_run_def small_steps(1) admissible_edit_def del: exploreReducer.simps)

theorem setting_a_control_witness:
  "ex_form_data (small_after (SET_FIELD_VALUE ''color'' (JStr ''blue'') [])) =
     obj_set ''color'' (JStr ''blue'') (ex_form_data small_state) \<and>
   obj_get (the (ex_controls (small_after (SET_FIELD_VALUE ''color'' (JStr ''blue'') [])))) ''metrics'' =
     Some [(''value'', Plain JNull)]"
proof -
  have new: "rerender_names (applyMapStateToPropsToControl small_env
      (obj_set ''value'' (Plain (JStr ''blue'')) (snd (hd small_controls))) (Some small_state)) = []"
    "dependents ''color'' small_controls = []"
    by code_simp+
  have "ex_controls small_state = Some small_controls" "obj_ok small_controls"
    "obj_get small_controls ''color'' = Some (snd (hd small_controls))"
    "obj_get small_controls ''metrics'' = Some [(''value'', Plain JNull)]"
    by (simp_all add: small_state_def small_controls_def obj_ok_def)
  with setting_a_control [OF small_steps(1), of small_controls "snd (hd small_controls)"] show ?thesis
    by (auto simp: new)
qed

theorem renamed_metric_keeps_its_configuration_witness:
  "\<exists>config'. jget (ex_form_data (small_after (SET_FIELD_VALUE ''metrics''
       (JArr [JObj [(''label'', JStr ''c'')], JObj [(''label'', JStr ''b'')]]) []))) ''column_config'' = JObj config' \<and>
     jget config' ''c'' = JObj [(''width'', JNum 9)]"
  using renamed_metric_keeps_its_configuration
    [OF small_steps(2), of "[(''a'', JObj [(''width'', JNum 9)])]" "''a''" "''c''"]
  by (fastforce simp: small_state_def jget_def)

end
