(* ===== verification/Spec2Isabelle.thy ===== *)
theory Spec2Isabelle
  imports LayoutClaims FilterClaims DashboardState SqlLabQueries ChartState DataMask FolderRun ChartClaims QueryProps AsyncClaims SqlLabReload ExploreHistory ExploreClaims
begin

text \<open>
  The core of the Superset frontend, \<open>superset/superset-frontend\<close> of this repository: the state machines and the
  algorithms on trees and graphs that its user interface runs on. Every theory names the files
  under \<open>superset-frontend\<close> it models; definitions keep the names of the source.

  \<^bold>\<open>Shared theories.\<close> \<open>Prelude\<close> holds what JavaScript gives every component: the results of code that
  may throw (\<open>'a result\<close>), \<open>splice\<close> and \<open>indexOf\<close>, objects used as dictionaries (\<open>('k, 'v) obj\<close>, in insertion
  order), dynamic values (\<open>jsval\<close>), and three interfaces with their consequences: \<open>dictionary\<close>, \<open>reducer_inv\<close> and
  \<open>guarded_reducer\<close>. The dictionary is interpreted on the ordered dictionaries, the reducers on the reducers of the filter
  boxes, the tabs of SQL Lab, the charts, the data masks and the folders editor. \<open>ReduxUtils\<close> has the helpers
  of \<open>reduxUtils.ts\<close> that several reducers update their state with.

  \<^bold>\<open>The dashboard layout.\<close> \<open>LayoutModel\<close> (components, nesting rules), \<open>LayoutQueries\<close> (parents, charts below a
  component, paths, widths), \<open>LayoutDrag\<close> (drop positions, widths of dropped components, new entities),
  \<open>LayoutReducer\<close> (the reducer, its thunks and the filter of the undo history). \<open>LayoutTree\<close> abstracts a
  layout to a tree of ids and shows the recursions equal to operations on that tree; \<open>LayoutProps\<close>, \<open>LayoutSteps\<close> and
  \<open>LayoutTabs\<close> show for every handler what it does to the tree; \<open>LayoutRun\<close> has the admissible actions and the
  reachable layouts; \<open>LayoutDrops\<close> says for every id what a move leaves under it, and what \<open>handleComponentDrop\<close> does with a
  new component on a row; \<open>LayoutClaims\<close> has the properties.

  \<^bold>\<open>Filters.\<close> \<open>FilterDeps\<close> (dependencies of native filters, cycles, ids), \<open>FilterScopes\<close> (which charts a filter, a
  cross filter or a filter box applies to; it reads the layout), \<open>FilterClaims\<close>. \<open>DataMask\<close> has what the
  filters currently select and how that survives changes of the filters and the loading of a
  dashboard. \<open>DashboardState\<close> has the rest of a dashboard's state: edit mode, tabs, automatic refresh, charts,
  and the native filters as the backend answers them.

  \<^bold>\<open>From filters to the query of a chart.\<close> \<open>ExtraFormData\<close> (merging what the masks of several filters add,
  grouping by target; the order of object keys), \<open>ActiveFilters\<close> (which filters are active for which charts and
  layers), \<open>ChartFormData\<close> (the form data of a chart, the columns that customizations group by, the cache),
  \<open>QueryObject\<close> (\<open>packages/superset-ui-core/src/query\<close>: filters, extras, fields, overrides, time column, order).
  \<open>ChartQuery\<close> follows the fields through these functions and shows that well-typed form data build a query;
  \<open>ChartClaims\<close> has the properties: on the masks that the reducer of \<open>DataMask\<close> keeps, exactly the filters
  in scope reach the query, the last one decides the settings, and what the cache leaves stale. The merge is an
  interpretation of the interface \<open>merging\<close>, whose lemmas split a sequence of merges. \<open>QueryProps\<close>: every chart
  gets the merge of the filters in whose scope it is, keys of data sources are read back, what the normalizations of a query keep.

  \<^bold>\<open>SQL Lab and charts.\<close> \<open>SqlLabState\<close> (editors, queries, tables and the whole reducer), \<open>SqlLabTabs\<close> (the
  invariant of the tabs and the refinement of the setters), \<open>SqlLabClaims\<close>, \<open>SqlLabQueries\<close> (queries and
  tables); \<open>SqlLabPersist\<close> (what the browser's storage keeps of the state and the state a page starts with) and
  \<open>SqlLabReload\<close> (which settings of an editor a reload finds again); \<open>ChartState\<close> (the queries and annotation
  layers of charts).

  \<^bold>\<open>The chart editor.\<close> \<open>ExploreControls\<close> (\<open>explore/controlUtils\<close>, \<open>explore/store.ts\<close>: from the configuration of a control panel
  and the form data to the states of the controls), \<open>ExploreSwitch\<close> (\<open>standardizedFormData.ts\<close>: the memorized form data and
  the transformation between visualization types), \<open>ExploreReducer\<close> (every action of the editor). \<open>ExploreHistory\<close>: what
  switching there and back finds again and how the history grows. \<open>ExploreClaims\<close>: the selections stay
  among the choices in every run (an interpretation of \<open>guarded_reducer\<close>), what setting a control changes, renamed metrics, hidden
  fields.

  \<^bold>\<open>Asynchronous queries and errors.\<close> \<open>ClientErrors\<close> (\<open>getClientErrorObject.ts\<close>: the error a failed request is reported
  with). \<open>AsyncEvents\<close> has the module \<open>middleware/asyncEvent.ts\<close> as a state machine: its variables, what the
  browser has pending for it (timers, requests, sockets), one handler per label. \<open>AsyncRun\<close> has the reachable states,
  their invariant and the promises that nobody settles any more; \<open>AsyncLive\<close> the infinite runs, with the interface
  \<open>labelled_run\<close> whose lemmas say what persists and until when; \<open>AsyncClaims\<close> the properties: jobs that
  somebody waits for are settled, retries end, and how a promise is lost.

  \<^bold>\<open>The folders of a dataset.\<close> \<open>Folders\<close> and \<open>FolderOps\<close> (trees, flattening, building, storing, completing,
  checking), \<open>FolderDrag\<close> (the handlers of a drag and what a drop moves), \<open>FolderEditor\<close> (the state and the
  handlers of the editor, its search and what it shows). \<open>FolderTree\<close>: building a flattened tree gives it back, and
  any list whose parents are listed and acyclic describes a forest. \<open>FolderDrops\<close>: what moves with a drop, and that a drop outside of it keeps all items; \<open>FolderCycles\<close>: a drop into it loses
  exactly what moves; \<open>FolderClaims\<close> has these properties. \<open>FolderDefaults\<close>: the default folders. \<open>FolderProjection\<close> and \<open>FolderView\<close>: where a dragged
  item may go, what is shown, selecting all. \<open>FolderRun\<close>: runs of the editor, storing and opening again.

  \<^bold>\<open>Bounds.\<close> Recursions of the source that may not end take a fuel and answer \<open>StackOverflow\<close> when it is used up. The fuel
  is the number of components, filters or items plus one: a deeper recursion has met one of them twice, so
  it would not end in the source either; the termination properties show that it is not
  used up on well-formed data. Numbers are integers (pixels, counts, times), so floating point is not
  modelled; no property depends on numbers beyond the safe integers.

  \<^bold>\<open>Parameters.\<close> Fresh identifiers (\<open>nanoid\<close>, \<open>uuidv4\<close>), translations, the clock, lodash's \<open>isEqual\<close> and
  \<open>isEmpty\<close>, \<open>JSON.parse\<close>, the browser's parser of HTML, the answers of dnd-kit's collision algorithms, the plugins' \<open>buildQuery\<close> and the chart
  registry, the functions and panels of the plugins' controls are arguments of the definitions that use them.

  \<^bold>\<open>Not modelled.\<close> Rendering (the React components), the network (thunks that fetch), the browser's storage (but for
  the last event's id and what SQL Lab keeps there), real time (a timer may fire in any order), the chart plugins, the Python backend, and the parts of the shared
  packages that no theory names.
\<close>

end
